(* ===== verification/Omni_Prelude.thy ===== *)
theory Omni_Prelude
  imports Main "HOL-Library.Char_ord" "HOL-Library.List_Lexorder"
begin

text \<open>
  Shared vocabulary of the development: the theorem collections the component theories
  feed, the signed 64-bit arithmetic of Go on the type \<open>int\<close> with its wrap-around written
  out, and generic facts on lists, options and folds that several components use.

  A Go \<open>string\<close> is a sequence of bytes, which is exactly HOL's \<open>string\<close> (a list of 8-bit
  characters); the order on it is Go's byte-wise lexicographic order
  (\<^theory_text>\<open>HOL-Library.List_Lexorder\<close> over \<^theory_text>\<open>HOL-Library.Char_ord\<close>).
\<close>

named_theorems store_simps \<open>column facts of the rows and tables of the hub\<close>
named_theorems row_intros \<open>which operations keep the uniqueness constraints of a table\<close>
named_theorems wrap_simps \<open>signed 64-bit operations that stay in range\<close>

section \<open>Signed 64-bit integers\<close>

text \<open>
  Go's \<open>int64\<close> (and \<open>int\<close> on the 64-bit platforms the program ships for) wraps around
  silently. A value is an \<open>int\<close>; \<open>i64\<close> is the wrap-around, written at every operation
  whose operands the program does not bound itself.
\<close>

definition i64 :: "int \<Rightarrow> int" where
  "i64 x = (x + 2 ^ 63) mod 2 ^ 64 - 2 ^ 63"

definition is_i64 :: "int \<Rightarrow> bool" where
  "is_i64 x \<longleftrightarrow> - (2 ^ 63) \<le> x \<and> x < 2 ^ 63"

text \<open>Go's integer division truncates towards zero.\<close>

definition go_quot :: "int \<Rightarrow> int \<Rightarrow> int" where
  "go_quot a b = sgn a * sgn b * (\<bar>a\<bar> div \<bar>b\<bar>)"

lemma i64_id [wrap_simps]: "is_i64 x \<Longrightarrow> i64 x = x"
  by (simp add: i64_def is_i64_def)

lemma is_i64_i64: "is_i64 (i64 x)"
  by (auto simp: i64_def is_i64_def)

lemma i64_idem [simp]: "i64 (i64 x) = i64 x"
  by (rule i64_id) (rule is_i64_i64)

lemma i64_bounded: "- (2 ^ 63) \<le> x \<Longrightarrow> x < 2 ^ 63 \<Longrightarrow> i64 x = x"
  by (simp add: i64_id is_i64_def)

lemma fold_i64_sum:
  "(\<And>x. x \<in> set xs \<Longrightarrow> 0 \<le> x) \<Longrightarrow> 0 \<le> a \<Longrightarrow> a + sum_list xs < 2 ^ 63 \<Longrightarrow>
     foldl (\<lambda>a s. i64 (a + s)) a xs = a + sum_list xs"
proof (induction xs arbitrary: a)
  case (Cons x xs)
  have "0 \<le> x" "0 \<le> sum_list xs" using Cons.prems(1) by (auto intro: sum_list_nonneg)
  with Cons.prems(2,3) have "i64 (a + x) = a + x" by (intro i64_bounded) simp_all
  with Cons.IH [of "a + x"] Cons.prems \<open>0 \<le> x\<close> show ?case by (simp add: algebra_simps)
qed simp

lemma go_quot_nonneg: "0 \<le> a \<Longrightarrow> 0 < b \<Longrightarrow> go_quot a b = a div b"
  by (cases "a = 0") (auto simp: go_quot_def sgn_if)

section \<open>Lists\<close>

lemma find_Some_D: "find P xs = Some x \<Longrightarrow> x \<in> set xs \<and> P x"
  by (induction xs) (auto split: if_splits)

lemma find_None_D: "find P xs = None \<Longrightarrow> x \<in> set xs \<Longrightarrow> \<not> P x"
  by (auto simp: find_None_iff)

lemma find_map_same:
  "(\<And>x. x \<in> set xs \<Longrightarrow> P (f x) = P x) \<Longrightarrow> find P (map f xs) = map_option f (find P xs)"
  by (induction xs) auto

lemma find_filter_implies:
  "(\<And>x. x \<in> set xs \<Longrightarrow> P x \<Longrightarrow> Q x) \<Longrightarrow> find P (filter Q xs) = find P xs"
  by (induction xs) auto

lemma length_filter_map_same:
  "(\<And>x. x \<in> set xs \<Longrightarrow> P (f x) = P x) \<Longrightarrow>
     length (filter P (map f xs)) = length (filter P xs)"
  by (induction xs) auto

lemma length_filter_Not: "length (filter P xs) + length (filter (\<lambda>x. \<not> P x) xs) = length xs"
  by (induction xs) auto

lemma foldl_append_map: "foldl f s (xs @ [x]) = f (foldl f s xs) x"
  by simp

text \<open>Keeping the first element of every key, in order: how a set-guarded loop reads a list.\<close>

fun first_by :: "('a \<Rightarrow> 'k) \<Rightarrow> 'k list \<Rightarrow> 'a list \<Rightarrow> 'a list" where
  "first_by k seen [] = []"
| "first_by k seen (x # xs) =
     (if k x \<in> set seen then first_by k seen xs else x # first_by k (k x # seen) xs)"

lemma first_by_set: "k ` set (first_by k seen xs) = k ` set xs - set seen"
  by (induction xs arbitrary: seen) auto

lemma first_by_subset: "set (first_by k seen xs) \<subseteq> set xs"
  by (induction xs arbitrary: seen) (auto split: if_splits)

lemma first_by_fresh: "x \<in> set (first_by k seen xs) \<Longrightarrow> k x \<notin> set seen"
  using first_by_set [of k seen xs] by blast

lemma first_by_distinct: "distinct (map k (first_by k seen xs))"
proof (induction xs arbitrary: seen)
  case (Cons x xs)
  then show ?case by (auto dest: first_by_fresh)
qed simp

lemma first_by_cong: "set seen = set seen' \<Longrightarrow> first_by k seen xs = first_by k seen' xs"
proof (induction xs arbitrary: seen seen')
  case (Cons x xs)
  have "first_by k (k x # seen) xs = first_by k (k x # seen') xs"
    by (rule Cons.IH) (simp add: Cons.prems)
  moreover have "first_by k seen xs = first_by k seen' xs"
    by (rule Cons.IH) (rule Cons.prems)
  ultimately show ?case using Cons.prems by simp
qed simp

lemma first_by_id:
  "distinct (map k xs) \<Longrightarrow> k ` set xs \<inter> set seen = {} \<Longrightarrow> first_by k seen xs = xs"
proof (induction xs arbitrary: seen)
  case (Cons x xs)
  have "first_by k (k x # seen) xs = xs"
    by (rule Cons.IH) (use Cons.prems in auto)
  with Cons.prems show ?case by simp
qed simp

section \<open>Histories of a state machine\<close>

text \<open>
  \<open>run_steps step cs s\<close> is the state after the calls \<open>cs\<close>; \<open>collect_steps step f cs s\<close> is what
  \<open>f\<close> observes at each of them, in order.
\<close>

fun run_steps :: "('c \<Rightarrow> 's \<Rightarrow> 's) \<Rightarrow> 'c list \<Rightarrow> 's \<Rightarrow> 's" where
  "run_steps step [] s = s"
| "run_steps step (c # cs) s = run_steps step cs (step c s)"

fun collect_steps :: "('c \<Rightarrow> 's \<Rightarrow> 's) \<Rightarrow> ('c \<Rightarrow> 's \<Rightarrow> 'a list) \<Rightarrow> 'c list \<Rightarrow> 's \<Rightarrow> 'a list" where
  "collect_steps step f [] s = []"
| "collect_steps step f (c # cs) s = f c s @ collect_steps step f cs (step c s)"

lemma run_steps_append: "run_steps step (cs @ ds) s = run_steps step ds (run_steps step cs s)"
  by (induction cs arbitrary: s) auto

lemma run_steps_inv: "I s \<Longrightarrow> (\<And>c s. c \<in> set cs \<Longrightarrow> I s \<Longrightarrow> I (step c s)) \<Longrightarrow> I (run_steps step cs s)"
  by (induction cs arbitrary: s) auto

end
