(* ===== verification/Sql_Table.thy ===== *)
theory Sql_Table
  imports Omni_Prelude
begin

text \<open>
  The part of SQL the program uses, over tables as lists of rows in insertion order:
  \<open>SELECT\<close> of one row, \<open>UPDATE ... WHERE\<close>, \<open>DELETE ... WHERE\<close>, \<open>INSERT OR IGNORE\<close>,
  \<open>INSERT OR REPLACE\<close> and plain \<open>INSERT\<close> with a uniqueness violation as an error, each with
  the row count the driver's \<open>RowsAffected\<close> reports.

  A table's \<open>PRIMARY KEY\<close> and \<open>UNIQUE\<close> constraints are one relation \<open>conflict\<close>: the pairs
  of rows that may not stand in the table together. The locale \<open>unique_rows\<close> is the contract
  every table of the program relies on; each component interprets it on its own schema.
\<close>

definition sql_select :: "('r \<Rightarrow> bool) \<Rightarrow> 'r list \<Rightarrow> 'r option" where
  "sql_select P t = find P t"

definition sql_count :: "('r \<Rightarrow> bool) \<Rightarrow> 'r list \<Rightarrow> nat" where
  "sql_count P t = length (filter P t)"

definition sql_update :: "('r \<Rightarrow> bool) \<Rightarrow> ('r \<Rightarrow> 'r) \<Rightarrow> 'r list \<Rightarrow> 'r list \<times> nat" where
  "sql_update P f t = (map (\<lambda>r. if P r then f r else r) t, sql_count P t)"

definition sql_delete :: "('r \<Rightarrow> bool) \<Rightarrow> 'r list \<Rightarrow> 'r list \<times> nat" where
  "sql_delete P t = (filter (\<lambda>r. \<not> P r) t, sql_count P t)"

definition sql_insert_ignore :: "('r \<Rightarrow> 'r \<Rightarrow> bool) \<Rightarrow> 'r \<Rightarrow> 'r list \<Rightarrow> 'r list \<times> bool" where
  "sql_insert_ignore conflict r t =
     (if list_ex (conflict r) t then (t, False) else (t @ [r], True))"

definition sql_insert_replace :: "('r \<Rightarrow> 'r \<Rightarrow> bool) \<Rightarrow> 'r \<Rightarrow> 'r list \<Rightarrow> 'r list" where
  "sql_insert_replace conflict r t = filter (\<lambda>x. \<not> conflict r x) t @ [r]"

text \<open>A plain \<open>INSERT\<close>: \<open>None\<close> is the constraint violation the driver returns as an error.\<close>

definition sql_insert :: "('r \<Rightarrow> 'r \<Rightarrow> bool) \<Rightarrow> 'r \<Rightarrow> 'r list \<Rightarrow> 'r list option" where
  "sql_insert conflict r t = (if list_ex (conflict r) t then None else Some (t @ [r]))"

lemma fst_sql_update [simp]: "fst (sql_update P f t) = map (\<lambda>r. if P r then f r else r) t"
  by (simp add: sql_update_def)

lemma snd_sql_update [simp]: "snd (sql_update P f t) = sql_count P t"
  by (simp add: sql_update_def)

lemma fst_sql_delete [simp]: "fst (sql_delete P t) = filter (\<lambda>r. \<not> P r) t"
  by (simp add: sql_delete_def)

lemma snd_sql_delete [simp]: "snd (sql_delete P t) = sql_count P t"
  by (simp add: sql_delete_def)

lemma sql_count_0: "sql_count P t = 0 \<longleftrightarrow> (\<forall>r\<in>set t. \<not> P r)"
  by (auto simp: sql_count_def filter_empty_conv)

lemma sql_update_none: "sql_count P t = 0 \<Longrightarrow> fst (sql_update P f t) = t"
  by (auto simp: sql_count_0 intro!: map_idI)

lemma sql_count_pos: "0 < sql_count P t \<longleftrightarrow> (\<exists>r\<in>set t. P r)"
  using sql_count_0 [of P t] by auto

lemma sql_delete_length: "length (fst (sql_delete P t)) + sql_count P t = length t"
  using length_filter_Not [of P t] by (simp add: sql_count_def)

section \<open>The uniqueness contract of a table\<close>

fun rows_unique :: "('r \<Rightarrow> 'r \<Rightarrow> bool) \<Rightarrow> 'r list \<Rightarrow> bool" where
  "rows_unique conflict [] = True"
| "rows_unique conflict (r # t) = ((\<forall>x\<in>set t. \<not> conflict r x) \<and> rows_unique conflict t)"

locale unique_rows =
  fixes conflict :: "'r \<Rightarrow> 'r \<Rightarrow> bool"
  assumes conflict_sym: "conflict a b \<Longrightarrow> conflict b a"
begin

abbreviation uniq :: "'r list \<Rightarrow> bool" where
  "uniq \<equiv> rows_unique conflict"

lemma uniq_append:
  "uniq (t @ u) \<longleftrightarrow> uniq t \<and> uniq u \<and> (\<forall>x\<in>set t. \<forall>y\<in>set u. \<not> conflict x y)"
  by (induction t) auto

lemma uniq_filter: "uniq t \<Longrightarrow> uniq (filter P t)"
  by (induction t) auto

lemma uniq_delete: "uniq t \<Longrightarrow> uniq (fst (sql_delete P t))"
  by (simp add: uniq_filter)

lemma uniq_insert_ignore: "uniq t \<Longrightarrow> uniq (fst (sql_insert_ignore conflict r t))"
  by (auto simp: sql_insert_ignore_def uniq_append list_ex_iff dest: conflict_sym)

lemma uniq_insert: "uniq t \<Longrightarrow> sql_insert conflict r t = Some t' \<Longrightarrow> uniq t'"
  using conflict_sym [of _ r]
  by (fastforce simp: sql_insert_def uniq_append list_ex_iff split: if_splits)

lemma uniq_insert_replace: "uniq t \<Longrightarrow> uniq (sql_insert_replace conflict r t)"
  by (auto simp: sql_insert_replace_def uniq_append uniq_filter dest: conflict_sym)

lemma uniq_map:
  assumes "uniq t"
    and "\<And>x y. x \<in> set t \<Longrightarrow> y \<in> set t \<Longrightarrow> conflict (f x) (f y) \<Longrightarrow> conflict x y"
  shows "uniq (map f t)"
  using assms by (induction t) auto

lemma uniq_same:
  assumes "uniq t" "x \<in> set t" "y \<in> set t" "conflict x y"
  shows "x = y"
  using assms by (induction t) (auto dest: conflict_sym)

lemma uniq_update_one:
  assumes "uniq t"
    and "\<And>x y. x \<in> set t \<Longrightarrow> y \<in> set t \<Longrightarrow> P x \<Longrightarrow> P y \<Longrightarrow> conflict x y"
    and "\<And>x y. x \<in> set t \<Longrightarrow> y \<in> set t \<Longrightarrow> P x \<Longrightarrow> \<not> P y \<Longrightarrow> conflict (f x) y \<Longrightarrow> conflict x y"
  shows "uniq (fst (sql_update P f t))"
  unfolding fst_sql_update
proof (rule uniq_map [OF assms(1)])
  fix x y
  assume "x \<in> set t" "y \<in> set t" "conflict (if P x then f x else x) (if P y then f y else y)"
  then show "conflict x y"
    using assms(2) [of x y] assms(3) [of x y] assms(3) [of y x]
      conflict_sym [of y x] conflict_sym [of x "f y"]
    by (auto split: if_splits)
qed

lemma length_insert_ignore:
  "length (fst (sql_insert_ignore conflict r t)) =
     length t + (if snd (sql_insert_ignore conflict r t) then 1 else 0)"
  by (simp add: sql_insert_ignore_def)

lemma insert_ignore_again:
  assumes "conflict r r"
  shows "sql_insert_ignore conflict r (fst (sql_insert_ignore conflict r t)) =
           (fst (sql_insert_ignore conflict r t), False)"
  using assms by (auto simp: sql_insert_ignore_def)

end

end
