(* ===== verification/Event_Model.thy ===== *)
theory Event_Model
  imports Omni_Prelude "HOL-Library.Word"
begin

text \<open>
  \<open>internal/model\<close>: the unified usage event, the quota snapshot and the process report, and
  the billing taxonomy of \<open>provider.go\<close> (provider labels as evidence, their rank, and the
  channel derived from them). Field names are the JSON and column names of the source.
\<close>

section \<open>Events, quota snapshots, process reports\<close>

record event =
  ev_event_id :: string
  ev_dedup_key :: string
  ev_ts :: int
  ev_device :: string
  ev_source :: string
  ev_model :: string
  ev_provider :: string
  ev_account_label :: string
  ev_input_tokens :: int
  ev_output_tokens :: int
  ev_cache_read_tokens :: int
  ev_cache_creation_tokens :: int
  ev_cache_1h_tokens :: int
  ev_cache_5m_tokens :: int
  ev_duration_ms :: int
  ev_gen_ms :: int
  ev_ttft_ms :: int
  ev_session_id :: string
  ev_cwd :: string
  ev_git_branch :: string
  ev_repo :: string
  ev_app_version :: string

text \<open>The zero value of the struct.\<close>

definition zero_event :: event where
  "zero_event = \<lparr>ev_event_id = [], ev_dedup_key = [], ev_ts = 0, ev_device = [], ev_source = [],
     ev_model = [], ev_provider = [], ev_account_label = [], ev_input_tokens = 0,
     ev_output_tokens = 0, ev_cache_read_tokens = 0, ev_cache_creation_tokens = 0,
     ev_cache_1h_tokens = 0, ev_cache_5m_tokens = 0, ev_duration_ms = 0, ev_gen_ms = 0,
     ev_ttft_ms = 0, ev_session_id = [], ev_cwd = [], ev_git_branch = [], ev_repo = [],
     ev_app_version = []\<rparr>"

definition TotalTokens :: "event \<Rightarrow> int" where
  "TotalTokens e = i64 (i64 (i64 (ev_input_tokens e + ev_output_tokens e)
     + ev_cache_read_tokens e) + ev_cache_creation_tokens e)"

text \<open>A \<open>float64\<close> that is only carried around is its IEEE 754 bit pattern.\<close>

type_synonym float64 = "64 word"

record quota_snapshot =
  q_device :: string
  q_source :: string
  q_limit_id :: string
  q_scope :: string
  q_window_minutes :: int
  q_used_percent :: float64
  q_resets_at :: int
  q_observed_at :: int
  q_plan_type :: string

record proc_session =
  ps_pid :: int
  ps_source :: string
  ps_started_at :: int

record proc_report =
  pr_device :: string
  pr_observed_at :: int
  pr_sessions :: "proc_session list"

section \<open>Billing channels (provider.go)\<close>

definition ProviderAnthropicOAuth :: string where "ProviderAnthropicOAuth = ''anthropic-oauth''"
definition ProviderAnthropicAPI :: string where "ProviderAnthropicAPI = ''anthropic-api''"
definition ProviderAnthropic :: string where "ProviderAnthropic = ''anthropic''"
definition ProviderOpenAIChatGPT :: string where "ProviderOpenAIChatGPT = ''openai-chatgpt''"
definition ProviderOpenAIAPI :: string where "ProviderOpenAIAPI = ''openai-api''"
definition ProviderOpenAI :: string where "ProviderOpenAI = ''openai''"
definition ProviderBedrock :: string where "ProviderBedrock = ''bedrock''"
definition ProviderVertex :: string where "ProviderVertex = ''vertex''"
definition ProviderRelay :: string where "ProviderRelay = ''relay''"
definition ProviderUnknown :: string where "ProviderUnknown = ''unknown''"

definition ChannelSubscription :: string where "ChannelSubscription = ''subscription''"
definition ChannelAPI :: string where "ChannelAPI = ''api''"
definition ChannelRelay :: string where "ChannelRelay = ''relay''"
definition ChannelUnknown :: string where "ChannelUnknown = ''unknown''"

lemmas provider_defs =
  ProviderAnthropicOAuth_def ProviderAnthropicAPI_def ProviderAnthropic_def
  ProviderOpenAIChatGPT_def ProviderOpenAIAPI_def ProviderOpenAI_def ProviderBedrock_def
  ProviderVertex_def ProviderRelay_def ProviderUnknown_def

lemmas channel_defs =
  ChannelSubscription_def ChannelAPI_def ChannelRelay_def ChannelUnknown_def

definition providerChannel :: "(string \<times> string) list" where
  "providerChannel =
     [(ProviderAnthropicOAuth, ChannelSubscription),
      (ProviderOpenAIChatGPT, ChannelSubscription),
      (ProviderAnthropicAPI, ChannelAPI),
      (ProviderOpenAIAPI, ChannelAPI),
      (ProviderBedrock, ChannelAPI),
      (ProviderVertex, ChannelAPI),
      (ProviderRelay, ChannelRelay),
      (ProviderAnthropic, ChannelUnknown),
      (ProviderOpenAI, ChannelUnknown),
      (ProviderUnknown, ChannelUnknown),
      ([], ChannelUnknown)]"

definition BillingChannel :: "string \<Rightarrow> string" where
  "BillingChannel provider =
     (case map_of providerChannel provider of Some ch \<Rightarrow> ch | None \<Rightarrow> ChannelRelay)"

definition Channels :: "string list" where
  "Channels = [ChannelSubscription, ChannelAPI, ChannelRelay, ChannelUnknown]"

text \<open>Evidence strength: the guard on the one sanctioned overwrite of the provider column.\<close>

definition rankFingerprint :: nat where "rankFingerprint = 0"
definition rankNone :: nat where "rankNone = 1"
definition rankEndpoint :: nat where "rankEndpoint = 2"
definition rankBilling :: nat where "rankBilling = 3"
definition rankNotFirstParty :: nat where "rankNotFirstParty = 4"

lemmas rank_defs =
  rankFingerprint_def rankNone_def rankEndpoint_def rankBilling_def rankNotFirstParty_def

definition RankedProviders :: "string list" where
  "RankedProviders =
     [ProviderBedrock, ProviderVertex, ProviderUnknown, [], ProviderAnthropic, ProviderOpenAI,
      ProviderAnthropicOAuth, ProviderAnthropicAPI, ProviderOpenAIChatGPT, ProviderOpenAIAPI,
      ProviderRelay]"

definition DefaultProviderRank :: nat where
  "DefaultProviderRank = rankNotFirstParty"

definition ProviderRank :: "string \<Rightarrow> nat" where
  "ProviderRank provider =
     (if provider = ProviderRelay then rankNotFirstParty
      else if provider \<in> {ProviderAnthropicOAuth, ProviderAnthropicAPI,
                          ProviderOpenAIChatGPT, ProviderOpenAIAPI} then rankBilling
      else if provider \<in> {ProviderAnthropic, ProviderOpenAI} then rankEndpoint
      else if provider \<in> {ProviderBedrock, ProviderVertex} then rankFingerprint
      else if provider \<in> {ProviderUnknown, []} then rankNone
      else rankNotFirstParty)"

text \<open>
  \<open>buildProviderRankSQL\<close> (store/window.go) renders the ladder as \<open>CASE provider WHEN ... THEN
  ... ELSE ... END\<close>: the first matching arm, in the order of \<open>RankedProviders\<close>. Its value on a
  column is the value of that expression.
\<close>

fun sql_case :: "(string \<times> nat) list \<Rightarrow> nat \<Rightarrow> string \<Rightarrow> nat" where
  "sql_case [] d p = d"
| "sql_case ((l, k) # arms) d p = (if p = l then k else sql_case arms d p)"

definition providerRankSQL :: "string \<Rightarrow> nat" where
  "providerRankSQL p =
     sql_case (map (\<lambda>l. (l, ProviderRank l)) RankedProviders) DefaultProviderRank p"

lemma providerRankSQL_eq [store_simps]: "providerRankSQL p = ProviderRank p"
  by (simp add: providerRankSQL_def RankedProviders_def DefaultProviderRank_def ProviderRank_def
      provider_defs rank_defs)

lemma ProviderRank_le: "ProviderRank p \<le> 4"
  by (simp add: ProviderRank_def rank_defs)

lemma BillingChannel_in_Channels: "BillingChannel p \<in> set Channels"
  by (auto simp: BillingChannel_def Channels_def providerChannel_def split: option.splits if_splits)

end
