(* ===== verification/Event_Store.thy ===== *)
theory Event_Store
  imports Sql_Table Event_Model "HOL-Library.AList"
begin

text \<open>
  \<open>internal/store/store.go\<close>: the \<open>events\<close> table and \<open>insertEventsFromTx\<close>, the one function
  every usage event of the fleet passes through. A row is the event record extended by the two
  columns the store adds. The statements are modelled one by one with their \<open>WHERE\<close> guards
  and row counts, and so are the gates in front of them, which read a state of the row loaded
  before the batch began (\<open>loadPriorEventState\<close>).

  \<open>None\<close> as the outcome of a batch is SQLite refusing a statement on a uniqueness constraint,
  which aborts the transaction.
\<close>

section \<open>The table\<close>

record event_row = event +
  device_origin :: string
  received_at :: int

definition OriginSelf :: string where "OriginSelf = ''self''"
definition OriginObserved :: string where "OriginObserved = ''observed''"

definition row_of :: "event \<Rightarrow> string \<Rightarrow> int \<Rightarrow> event_row" where
  "row_of e origin receivedAt =
     \<lparr>ev_event_id = ev_event_id e, ev_dedup_key = ev_dedup_key e, ev_ts = ev_ts e,
      ev_device = ev_device e, ev_source = ev_source e, ev_model = ev_model e,
      ev_provider = ev_provider e, ev_account_label = ev_account_label e,
      ev_input_tokens = ev_input_tokens e, ev_output_tokens = ev_output_tokens e,
      ev_cache_read_tokens = ev_cache_read_tokens e,
      ev_cache_creation_tokens = ev_cache_creation_tokens e,
      ev_cache_1h_tokens = ev_cache_1h_tokens e, ev_cache_5m_tokens = ev_cache_5m_tokens e,
      ev_duration_ms = ev_duration_ms e, ev_gen_ms = ev_gen_ms e, ev_ttft_ms = ev_ttft_ms e,
      ev_session_id = ev_session_id e, ev_cwd = ev_cwd e, ev_git_branch = ev_git_branch e,
      ev_repo = ev_repo e, ev_app_version = ev_app_version e,
      device_origin = origin, received_at = receivedAt\<rparr>"

text \<open>\<open>event_id TEXT PRIMARY KEY\<close> and the partial unique index on a non-empty \<open>dedup_key\<close>.\<close>

definition event_conflict :: "event_row \<Rightarrow> event_row \<Rightarrow> bool" where
  "event_conflict a b \<longleftrightarrow> ev_event_id a = ev_event_id b \<or>
     (ev_dedup_key a = ev_dedup_key b \<and> ev_dedup_key a \<noteq> [])"

interpretation ev: unique_rows event_conflict
  by unfold_locales (auto simp: event_conflict_def)

section \<open>What is loaded before the batch\<close>

record prior_event_state =
  p_gen_ms :: int
  p_ttft_ms :: int
  p_duration_ms :: int
  p_session_id :: string
  p_cwd :: string
  p_repo :: string
  p_git_branch :: string
  p_app_version :: string
  p_source :: string
  p_device_origin :: string
  p_provider :: string
  p_dedup_key :: string

definition prior_of :: "event_row \<Rightarrow> prior_event_state" where
  "prior_of r = \<lparr>p_gen_ms = ev_gen_ms r, p_ttft_ms = ev_ttft_ms r,
     p_duration_ms = ev_duration_ms r, p_session_id = ev_session_id r, p_cwd = ev_cwd r,
     p_repo = ev_repo r, p_git_branch = ev_git_branch r, p_app_version = ev_app_version r,
     p_source = ev_source r, p_device_origin = device_origin r, p_provider = ev_provider r,
     p_dedup_key = ev_dedup_key r\<rparr>"

fun chunks_of :: "nat \<Rightarrow> 'a list \<Rightarrow> 'a list list" where
  "chunks_of n [] = []"
| "chunks_of n (x # xs) = (if n = 0 then [x # xs] else take n (x # xs) # chunks_of n (drop (n - 1) xs))"

definition loadPriorEventState :: "event_row list \<Rightarrow> event list \<Rightarrow> string \<Rightarrow> prior_event_state option" where
  "loadPriorEventState t events =
     (let ids = first_by (\<lambda>i. i) [] (filter (\<lambda>i. i \<noteq> []) (map ev_event_id events));
          rows = concat (map (\<lambda>part. filter (\<lambda>r. ev_event_id r \<in> set part) t) (chunks_of 500 ids))
      in map_of (map (\<lambda>r. (ev_event_id r, prior_of r)) rows))"

definition textFillNeeded :: "prior_event_state \<Rightarrow> event \<Rightarrow> bool" where
  "textFillNeeded p e \<longleftrightarrow>
     (p_session_id p = [] \<and> ev_session_id e \<noteq> []) \<or>
     (p_cwd p = [] \<and> ev_cwd e \<noteq> []) \<or>
     (p_repo p = [] \<and> ev_repo e \<noteq> []) \<or>
     (p_git_branch p = [] \<and> ev_git_branch e \<noteq> []) \<or>
     (p_app_version p = [] \<and> ev_app_version e \<noteq> [])"

section \<open>The prepared statements\<close>

definition stmt_insert :: "event \<Rightarrow> string \<Rightarrow> int \<Rightarrow> event_row list \<Rightarrow> event_row list \<times> bool" where
  "stmt_insert e origin receivedAt t = sql_insert_ignore event_conflict (row_of e origin receivedAt) t"

definition keyOwnerSQL :: "string \<Rightarrow> event_row list \<Rightarrow> (string \<times> int) option" where
  "keyOwnerSQL key t = map_option (\<lambda>r. (ev_event_id r, ev_ts r))
     (sql_select (\<lambda>r. ev_dedup_key r = key \<and> ev_dedup_key r \<noteq> []) t)"

definition dropCopy :: "string \<Rightarrow> event_row list \<Rightarrow> event_row list \<times> nat" where
  "dropCopy i t = sql_delete (\<lambda>r. ev_event_id r = i) t"

text \<open>
  The key backfill is the one \<open>UPDATE\<close> that writes a column under a uniqueness constraint, so
  it is the one that can be refused.
\<close>

definition keyFill :: "string \<Rightarrow> string \<Rightarrow> event_row list \<Rightarrow> (event_row list \<times> nat) option" where
  "keyFill key i t =
     (let (t', n) = sql_update (\<lambda>r. ev_event_id r = i \<and> ev_dedup_key r = [])
                      (\<lambda>r. r\<lparr>ev_dedup_key := key\<rparr>) t
      in if ev.uniq t' then Some (t', n) else None)"

definition numFill :: "int \<Rightarrow> int \<Rightarrow> string \<Rightarrow> event_row list \<Rightarrow> event_row list \<times> nat" where
  "numFill gen ttft i t = sql_update
     (\<lambda>r. ev_event_id r = i \<and> ((ev_gen_ms r = 0 \<and> gen > 0) \<or> (ev_ttft_ms r = 0 \<and> ttft > 0)))
     (\<lambda>r. r\<lparr>ev_gen_ms := (if ev_gen_ms r = 0 \<and> gen > 0 then gen else ev_gen_ms r),
             ev_ttft_ms := (if ev_ttft_ms r = 0 \<and> ttft > 0 then ttft else ev_ttft_ms r)\<rparr>) t"

definition textFill :: "string \<Rightarrow> string \<Rightarrow> string \<Rightarrow> string \<Rightarrow> string \<Rightarrow> string \<Rightarrow>
    event_row list \<Rightarrow> event_row list \<times> nat" where
  "textFill session cwd repo branch version i t = sql_update
     (\<lambda>r. ev_event_id r = i \<and> ((ev_session_id r = [] \<and> session \<noteq> []) \<or>
        (ev_cwd r = [] \<and> cwd \<noteq> []) \<or> (ev_repo r = [] \<and> repo \<noteq> []) \<or>
        (ev_git_branch r = [] \<and> branch \<noteq> []) \<or> (ev_app_version r = [] \<and> version \<noteq> [])))
     (\<lambda>r. r\<lparr>ev_session_id := (if ev_session_id r = [] \<and> session \<noteq> [] then session else ev_session_id r),
             ev_cwd := (if ev_cwd r = [] \<and> cwd \<noteq> [] then cwd else ev_cwd r),
             ev_repo := (if ev_repo r = [] \<and> repo \<noteq> [] then repo else ev_repo r),
             ev_git_branch := (if ev_git_branch r = [] \<and> branch \<noteq> [] then branch else ev_git_branch r),
             ev_app_version := (if ev_app_version r = [] \<and> version \<noteq> [] then version else ev_app_version r)\<rparr>) t"

definition durFill :: "int \<Rightarrow> string \<Rightarrow> event_row list \<Rightarrow> event_row list \<times> nat" where
  "durFill dur i t = sql_update (\<lambda>r. ev_event_id r = i \<and> ev_duration_ms r = 0 \<and> dur > 0)
     (\<lambda>r. r\<lparr>ev_duration_ms := dur\<rparr>) t"

definition promote :: "string \<Rightarrow> string \<Rightarrow> event_row list \<Rightarrow> event_row list \<times> nat" where
  "promote source i t = sql_update
     (\<lambda>r. ev_event_id r = i \<and> ev_source r = ''proxy'' \<and> source \<noteq> ''proxy'')
     (\<lambda>r. r\<lparr>ev_source := source\<rparr>) t"

definition reattribute :: "string \<Rightarrow> string \<Rightarrow> event_row list \<Rightarrow> event_row list \<times> nat" where
  "reattribute device i t = sql_update
     (\<lambda>r. ev_event_id r = i \<and> device_origin r = ''observed'' \<and> device \<noteq> [])
     (\<lambda>r. r\<lparr>ev_device := device, device_origin := ''self''\<rparr>) t"

definition reclassify :: "string \<Rightarrow> string \<Rightarrow> nat \<Rightarrow> event_row list \<Rightarrow> event_row list \<times> nat" where
  "reclassify provider i rank t = sql_update
     (\<lambda>r. ev_event_id r = i \<and> rank > providerRankSQL (ev_provider r))
     (\<lambda>r. r\<lparr>ev_provider := provider\<rparr>) t"

section \<open>One event of a batch\<close>

record eventApplyResult =
  er_inserted :: nat
  er_filled :: nat
  er_reattributed :: nat
  er_deduped :: nat
  er_reclassified :: "(string \<times> nat) list"

definition zeroApplyResult :: eventApplyResult where
  "zeroApplyResult = \<lparr>er_inserted = 0, er_filled = 0, er_reattributed = 0, er_deduped = 0,
     er_reclassified = []\<rparr>"

text \<open>\<open>reclassified\<close> is a Go map counting rows per new label; a missing key reads as 0.\<close>

definition count_label :: "string \<Rightarrow> nat \<Rightarrow> (string \<times> nat) list \<Rightarrow> (string \<times> nat) list" where
  "count_label p n m = AList.update p ((case map_of m p of None \<Rightarrow> 0 | Some k \<Rightarrow> k) + n) m"

definition mutated :: "eventApplyResult \<Rightarrow> bool" where
  "mutated r \<longleftrightarrow> er_inserted r > 0 \<or> er_filled r > 0 \<or> er_reattributed r > 0 \<or> er_deduped r > 0 \<or>
     length (er_reclassified r) > 0"

text \<open>An optional guarded statement: run it when the gate is open, and report whether it changed a row.\<close>

definition gated :: "bool \<Rightarrow> ('t \<Rightarrow> 't \<times> nat) \<Rightarrow> 't \<Rightarrow> 't \<times> nat" where
  "gated g stmt t = (if g then stmt t else (t, 0))"

text \<open>Lines 714 to 801: what an observation of an already known event contributes.\<close>

definition contribute :: "string \<Rightarrow> prior_event_state option \<Rightarrow> event \<Rightarrow>
    event_row list \<Rightarrow> eventApplyResult \<Rightarrow> (event_row list \<times> eventApplyResult) option" where
  "contribute origin known e t res =
     (let i = ev_event_id e;
          none_or = (\<lambda>f. case known of None \<Rightarrow> True | Some p \<Rightarrow> f p)
      in case (if ev_dedup_key e \<noteq> [] \<and> none_or (\<lambda>p. p_dedup_key p = [])
               then keyFill (ev_dedup_key e) i t else Some (t, 0)) of
           None \<Rightarrow> None
         | Some (t1, n1) \<Rightarrow>
             let (t2, n2) = gated (ev_provider e \<noteq> [] \<and>
                    none_or (\<lambda>p. ProviderRank (ev_provider e) > ProviderRank (p_provider p)))
                   (reclassify (ev_provider e) i (ProviderRank (ev_provider e))) t1;
                 (t3, n3) = gated (origin = OriginSelf \<and> ev_device e \<noteq> [] \<and>
                    none_or (\<lambda>p. p_device_origin p = OriginObserved))
                   (reattribute (ev_device e) i) t2;
                 (t4, n4) = gated ((ev_gen_ms e > 0 \<or> ev_ttft_ms e > 0) \<and>
                    none_or (\<lambda>p. (p_gen_ms p = 0 \<and> ev_gen_ms e > 0) \<or>
                                 (p_ttft_ms p = 0 \<and> ev_ttft_ms e > 0)))
                   (numFill (ev_gen_ms e) (ev_ttft_ms e) i) t3;
                 (t5, n5) = gated ((ev_session_id e \<noteq> [] \<or> ev_cwd e \<noteq> [] \<or> ev_repo e \<noteq> [] \<or>
                      ev_git_branch e \<noteq> [] \<or> ev_app_version e \<noteq> []) \<and>
                    none_or (\<lambda>p. textFillNeeded p e))
                   (textFill (ev_session_id e) (ev_cwd e) (ev_repo e) (ev_git_branch e)
                      (ev_app_version e) i) t4;
                 toolSource = (ev_source e \<noteq> [] \<and> ev_source e \<noteq> ''proxy'');
                 (t6, n6) = gated (toolSource \<and> none_or (\<lambda>p. p_source p = ''proxy''))
                   (promote (ev_source e) i) t5;
                 (t7, n7) = gated (toolSource \<and> ev_duration_ms e > 0 \<and>
                    none_or (\<lambda>p. p_duration_ms p = 0))
                   (durFill (ev_duration_ms e) i) t6;
                 changed = (n1 > 0 \<or> n4 > 0 \<or> n5 > 0 \<or> n6 > 0 \<or> n7 > 0)
             in Some (t7, res\<lparr>
                  er_reclassified := (if n2 > 0
                    then count_label (ev_provider e) n2 (er_reclassified res)
                    else er_reclassified res),
                  er_reattributed := er_reattributed res + (if n3 > 0 then 1 else 0),
                  er_filled := er_filled res + (if changed then 1 else 0)\<rparr>))"

text \<open>Is \<open>e\<close> the copy of the generation the row \<open>(ownerID, ownerTS)\<close> already holds?\<close>

definition is_copy :: "event \<Rightarrow> string \<Rightarrow> int \<Rightarrow> bool" where
  "is_copy e ownerID ownerTS \<longleftrightarrow> ownerID \<noteq> ev_event_id e \<and>
     (ev_ts e > ownerTS \<or> (ev_ts e = ownerTS \<and> ev_event_id e > ownerID))"

definition apply_event :: "string \<Rightarrow> int \<Rightarrow> (string \<Rightarrow> prior_event_state option) \<Rightarrow> event \<Rightarrow>
    event_row list \<times> eventApplyResult \<Rightarrow> (event_row list \<times> eventApplyResult) option" where
  "apply_event origin receivedAt prior e s =
     (case s of (t, res) \<Rightarrow>
      if ev_event_id e = [] then Some (t, res)
      else
        let known = prior (ev_event_id e);
            (t1, stored) = (if known = None then stmt_insert e origin receivedAt t else (t, False));
            selfOwnsKey = (case known of None \<Rightarrow> False
                           | Some p \<Rightarrow> ev_dedup_key e \<noteq> [] \<and> p_dedup_key p = ev_dedup_key e);
            finish = (\<lambda>t2 stored2 res2.
              if stored2 then Some (t2, res2\<lparr>er_inserted := er_inserted res2 + 1\<rparr>)
              else contribute origin known e t2 res2)
        in if \<not> stored \<and> ev_dedup_key e \<noteq> [] \<and> \<not> selfOwnsKey
           then (case keyOwnerSQL (ev_dedup_key e) t1 of
                   None \<Rightarrow> finish t1 stored res
                 | Some (ownerID, ownerTS) \<Rightarrow>
                     if is_copy e ownerID ownerTS then
                       (let (t2, n) = dropCopy (ev_event_id e) t1
                        in Some (t2, res\<lparr>er_deduped := er_deduped res + n\<rparr>))
                     else if ownerID \<noteq> ev_event_id e then
                       (let (t2, n) = dropCopy ownerID t1;
                            (t3, stored3) = stmt_insert e origin receivedAt t2
                        in finish t3 stored3 (res\<lparr>er_deduped := er_deduped res + 1\<rparr>))
                     else finish t1 stored res)
           else finish t1 stored res)"

fun apply_events :: "string \<Rightarrow> int \<Rightarrow> (string \<Rightarrow> prior_event_state option) \<Rightarrow> event list \<Rightarrow>
    event_row list \<times> eventApplyResult \<Rightarrow> (event_row list \<times> eventApplyResult) option" where
  "apply_events origin receivedAt prior [] s = Some s"
| "apply_events origin receivedAt prior (e # es) s =
     (case apply_event origin receivedAt prior e s of
        None \<Rightarrow> None
      | Some s' \<Rightarrow> apply_events origin receivedAt prior es s')"

definition insertEventsFromTx :: "event_row list \<Rightarrow> event list \<Rightarrow> int \<Rightarrow> string \<Rightarrow>
    (event_row list \<times> eventApplyResult) option" where
  "insertEventsFromTx t events receivedAt origin =
     apply_events origin receivedAt (loadPriorEventState t events) events (t, zeroApplyResult)"

text \<open>The transaction around it; \<open>committed\<close> is whether the database accepted the commit.\<close>

datatype store_error = ConstraintViolation | CommitFailed

definition InsertEventsFrom :: "bool \<Rightarrow> event_row list \<Rightarrow> event list \<Rightarrow> int \<Rightarrow> string \<Rightarrow>
    event_row list \<times> (store_error + nat)" where
  "InsertEventsFrom committed t events receivedAt origin0 =
     (if events = [] then (t, Inr 0)
      else let origin = (if origin0 = [] then OriginObserved else origin0)
           in case insertEventsFromTx t events receivedAt origin of
                None \<Rightarrow> (t, Inl ConstraintViolation)
              | Some (t', result) \<Rightarrow>
                  if committed then (t', Inr (er_inserted result)) else (t, Inl CommitFailed))"

definition InsertEvents :: "bool \<Rightarrow> event_row list \<Rightarrow> event list \<Rightarrow> int \<Rightarrow> event_row list \<times> (store_error + nat)" where
  "InsertEvents committed t events receivedAt =
     InsertEventsFrom committed t events receivedAt OriginSelf"

end
