(* ===== verification/Event_Store_Facts.thy ===== *)
theory Event_Store_Facts
  imports Event_Store
begin

text \<open>
  What one event does to the table, stated without the pre-loaded state, without the gates and
  without the statement sequence: \<open>spec_step\<close>. The refinement lemma \<open>apply_event_spec\<close> says
  the code does exactly that, counters included, whenever the pre-loaded state is still a
  lower bound of the row it was read from (\<open>located\<close>), and \<open>located_step\<close> says every event of
  a batch keeps it so. The properties of the store follow from the specification.
\<close>

section \<open>The specification of one event\<close>

definition g_key :: "event \<Rightarrow> event_row \<Rightarrow> bool" where
  "g_key e r \<longleftrightarrow> ev_dedup_key e \<noteq> [] \<and> ev_dedup_key r = []"

definition g_rank :: "event \<Rightarrow> event_row \<Rightarrow> bool" where
  "g_rank e r \<longleftrightarrow> ev_provider e \<noteq> [] \<and> ProviderRank (ev_provider e) > ProviderRank (ev_provider r)"

definition g_attr :: "string \<Rightarrow> event \<Rightarrow> event_row \<Rightarrow> bool" where
  "g_attr origin e r \<longleftrightarrow> origin = OriginSelf \<and> ev_device e \<noteq> [] \<and> device_origin r = OriginObserved"

definition fill_num :: "int \<Rightarrow> int \<Rightarrow> int" where
  "fill_num old new = (if old = 0 \<and> new > 0 then new else old)"

definition fill_text :: "string \<Rightarrow> string \<Rightarrow> string" where
  "fill_text old new = (if old = [] \<and> new \<noteq> [] then new else old)"

definition g_num :: "event \<Rightarrow> event_row \<Rightarrow> bool" where
  "g_num e r \<longleftrightarrow> (ev_gen_ms r = 0 \<and> ev_gen_ms e > 0) \<or> (ev_ttft_ms r = 0 \<and> ev_ttft_ms e > 0)"

definition g_text :: "event \<Rightarrow> event_row \<Rightarrow> bool" where
  "g_text e r \<longleftrightarrow> textFillNeeded (prior_of r) e"

definition g_promote :: "event \<Rightarrow> event_row \<Rightarrow> bool" where
  "g_promote e r \<longleftrightarrow> ev_source e \<noteq> [] \<and> ev_source e \<noteq> ''proxy'' \<and> ev_source r = ''proxy''"

definition g_dur :: "event \<Rightarrow> event_row \<Rightarrow> bool" where
  "g_dur e r \<longleftrightarrow> ev_source e \<noteq> [] \<and> ev_source e \<noteq> ''proxy'' \<and> ev_duration_ms e > 0 \<and>
     ev_duration_ms r = 0"

definition g_fill :: "event \<Rightarrow> event_row \<Rightarrow> bool" where
  "g_fill e r \<longleftrightarrow> g_key e r \<or> g_num e r \<or> g_text e r \<or> g_promote e r \<or> g_dur e r"

lemmas guard_defs = g_key_def g_rank_def g_attr_def g_num_def g_text_def g_promote_def g_dur_def
  textFillNeeded_def prior_of_def OriginSelf_def OriginObserved_def

definition merge_row :: "string \<Rightarrow> event \<Rightarrow> event_row \<Rightarrow> event_row" where
  "merge_row origin e r = r\<lparr>
     ev_dedup_key := fill_text (ev_dedup_key r) (ev_dedup_key e),
     ev_provider := (if g_rank e r then ev_provider e else ev_provider r),
     ev_device := (if g_attr origin e r then ev_device e else ev_device r),
     device_origin := (if g_attr origin e r then OriginSelf else device_origin r),
     ev_gen_ms := fill_num (ev_gen_ms r) (ev_gen_ms e),
     ev_ttft_ms := fill_num (ev_ttft_ms r) (ev_ttft_ms e),
     ev_session_id := fill_text (ev_session_id r) (ev_session_id e),
     ev_cwd := fill_text (ev_cwd r) (ev_cwd e),
     ev_repo := fill_text (ev_repo r) (ev_repo e),
     ev_git_branch := fill_text (ev_git_branch r) (ev_git_branch e),
     ev_app_version := fill_text (ev_app_version r) (ev_app_version e),
     ev_source := (if g_promote e r then ev_source e else ev_source r),
     ev_duration_ms := (if g_dur e r then ev_duration_ms e else ev_duration_ms r)\<rparr>"

definition at_id :: "string \<Rightarrow> (event_row \<Rightarrow> event_row) \<Rightarrow> event_row list \<Rightarrow> event_row list" where
  "at_id i f t = map (\<lambda>r. if ev_event_id r = i then f r else r) t"

definition row_at :: "string \<Rightarrow> event_row list \<Rightarrow> event_row option" where
  "row_at i t = find (\<lambda>r. ev_event_id r = i) t"

definition owner_of :: "string \<Rightarrow> event_row list \<Rightarrow> event_row option" where
  "owner_of k t = (if k = [] then None else find (\<lambda>r. ev_dedup_key r = k) t)"

definition note_merge :: "string \<Rightarrow> event \<Rightarrow> event_row option \<Rightarrow> eventApplyResult \<Rightarrow> eventApplyResult" where
  "note_merge origin e ro res =
     (case ro of None \<Rightarrow> res
      | Some r \<Rightarrow> res\<lparr>
          er_reclassified := (if g_rank e r then count_label (ev_provider e) 1 (er_reclassified res)
                              else er_reclassified res),
          er_reattributed := er_reattributed res + (if g_attr origin e r then 1 else 0),
          er_filled := er_filled res + (if g_fill e r then 1 else 0)\<rparr>)"

definition spec_merge_or_insert :: "string \<Rightarrow> int \<Rightarrow> event \<Rightarrow> event_row list \<times> eventApplyResult \<Rightarrow>
    event_row list \<times> eventApplyResult" where
  "spec_merge_or_insert origin receivedAt e s =
     (case s of (t, res) \<Rightarrow>
        (case row_at (ev_event_id e) t of
           None \<Rightarrow> (t @ [row_of e origin receivedAt], res\<lparr>er_inserted := er_inserted res + 1\<rparr>)
         | Some r \<Rightarrow> (at_id (ev_event_id e) (merge_row origin e) t, note_merge origin e (Some r) res)))"

definition drop_id :: "string \<Rightarrow> event_row list \<Rightarrow> event_row list" where
  "drop_id i t = filter (\<lambda>r. ev_event_id r \<noteq> i) t"

definition spec_step :: "string \<Rightarrow> int \<Rightarrow> event \<Rightarrow> event_row list \<times> eventApplyResult \<Rightarrow>
    event_row list \<times> eventApplyResult" where
  "spec_step origin receivedAt e s =
     (case s of (t, res) \<Rightarrow>
      if ev_event_id e = [] then s
      else (case owner_of (ev_dedup_key e) t of
             None \<Rightarrow> spec_merge_or_insert origin receivedAt e (t, res)
           | Some r \<Rightarrow>
               if is_copy e (ev_event_id r) (ev_ts r) then
                 (drop_id (ev_event_id e) t,
                  res\<lparr>er_deduped := er_deduped res + (if row_at (ev_event_id e) t = None then 0 else 1)\<rparr>)
               else if ev_event_id r \<noteq> ev_event_id e then
                 spec_merge_or_insert origin receivedAt e
                   (drop_id (ev_event_id r) t, res\<lparr>er_deduped := er_deduped res + 1\<rparr>)
               else spec_merge_or_insert origin receivedAt e (t, res)))"

section \<open>Columns\<close>

lemma row_of_sel [simp, store_simps]:
  "ev_event_id (row_of e origin recv) = ev_event_id e"
  "ev_dedup_key (row_of e origin recv) = ev_dedup_key e"
  "ev_ts (row_of e origin recv) = ev_ts e"
  "ev_provider (row_of e origin recv) = ev_provider e"
  "ev_device (row_of e origin recv) = ev_device e"
  "ev_source (row_of e origin recv) = ev_source e"
  "device_origin (row_of e origin recv) = origin"
  by (simp_all add: row_of_def)

lemma merge_row_sel [simp, store_simps]:
  "ev_event_id (merge_row origin e r) = ev_event_id r"
  "ev_ts (merge_row origin e r) = ev_ts r"
  "ev_dedup_key (merge_row origin e r) = fill_text (ev_dedup_key r) (ev_dedup_key e)"
  by (simp_all add: merge_row_def)

lemma fill_text_nonempty [simp]: "fill_text old new = [] \<longleftrightarrow> old = [] \<and> new = []"
  by (auto simp: fill_text_def)

lemma fill_text_same [simp]: "old \<noteq> [] \<Longrightarrow> fill_text old new = old"
  by (simp add: fill_text_def)

lemma fill_text_empty [simp]: "fill_text old [] = old" "fill_text [] new = new"
  by (simp_all add: fill_text_def)

section \<open>Tables with at most one row per id\<close>

lemma uniq_ids: "ev.uniq t \<Longrightarrow> r \<in> set t \<Longrightarrow> x \<in> set t \<Longrightarrow> ev_event_id r = ev_event_id x \<Longrightarrow> r = x"
  by (rule ev.uniq_same) (auto simp: event_conflict_def)

lemma uniq_keys:
  "ev.uniq t \<Longrightarrow> r \<in> set t \<Longrightarrow> x \<in> set t \<Longrightarrow> ev_dedup_key r = ev_dedup_key x \<Longrightarrow>
     ev_dedup_key r \<noteq> [] \<Longrightarrow> r = x"
  by (rule ev.uniq_same) (auto simp: event_conflict_def)

lemma find_unique:
  assumes "\<And>x y. x \<in> set t \<Longrightarrow> y \<in> set t \<Longrightarrow> P x \<Longrightarrow> P y \<Longrightarrow> x = y"
  shows "find P t = Some r \<longleftrightarrow> r \<in> set t \<and> P r"
proof (cases "find P t")
  case None
  then show ?thesis by (auto dest: find_None_D)
next
  case (Some x)
  then have "x \<in> set t" "P x" by (auto dest: find_Some_D)
  with Some assms [of x r] show ?thesis by auto
qed

lemma row_at_Some_iff: "ev.uniq t \<Longrightarrow> row_at i t = Some r \<longleftrightarrow> r \<in> set t \<and> ev_event_id r = i"
  unfolding row_at_def by (rule find_unique) (blast intro: uniq_ids sym trans)

lemma row_at_None_iff: "row_at i t = None \<longleftrightarrow> (\<forall>r\<in>set t. ev_event_id r \<noteq> i)"
  by (auto simp: row_at_def find_None_iff)

lemma owner_of_Some_iff:
  "ev.uniq t \<Longrightarrow> owner_of k t = Some r \<longleftrightarrow> r \<in> set t \<and> ev_dedup_key r = k \<and> k \<noteq> []"
  using find_unique [of t "\<lambda>r. ev_dedup_key r = k" r] uniq_keys [of t]
  by (cases "k = []") (auto simp: owner_of_def)

lemma owner_of_None_iff: "owner_of k t = None \<longleftrightarrow> k = [] \<or> (\<forall>r\<in>set t. ev_dedup_key r \<noteq> k)"
  by (auto simp: owner_of_def find_None_iff)

lemma split_at_id:
  assumes "ev.uniq t" "row_at i t = Some r"
  obtains us vs where "t = us @ r # vs" "ev_event_id r = i"
    "\<forall>x\<in>set us \<union> set vs. ev_event_id x \<noteq> i"
proof -
  from assms have "r \<in> set t" "ev_event_id r = i" by (simp_all add: row_at_Some_iff)
  then obtain us vs where t: "t = us @ r # vs" by (meson split_list)
  have "\<forall>x\<in>set us \<union> set vs. ev_event_id x \<noteq> i"
    using assms(1) \<open>ev_event_id r = i\<close> unfolding t
    by (auto simp: ev.uniq_append event_conflict_def)
  with t \<open>ev_event_id r = i\<close> that show ?thesis by blast
qed

lemma at_id_split:
  "\<forall>x\<in>set us \<union> set vs. ev_event_id x \<noteq> i \<Longrightarrow> ev_event_id r = i \<Longrightarrow>
     at_id i f (us @ r # vs) = us @ f r # vs"
  by (auto simp: at_id_def intro!: map_idI)

lemma at_id_none: "row_at i t = None \<Longrightarrow> at_id i f t = t"
  by (auto simp: at_id_def row_at_None_iff intro!: map_idI)

lemma update_split:
  "\<forall>x\<in>set us \<union> set vs. ev_event_id x \<noteq> i \<Longrightarrow> ev_event_id r = i \<Longrightarrow>
     sql_update (\<lambda>x. ev_event_id x = i \<and> G x) f (us @ r # vs) =
       (us @ (if G r then f r else r) # vs, if G r then 1 else 0)"
  by (auto simp: sql_update_def sql_count_def filter_empty_conv intro!: map_idI)

lemma update_none:
  "row_at i t = None \<Longrightarrow> sql_update (\<lambda>x. ev_event_id x = i \<and> G x) f t = (t, 0)"
  by (auto simp: sql_update_def sql_count_def filter_empty_conv row_at_None_iff intro!: map_idI)

section \<open>Statement by statement\<close>

text \<open>The pre-loaded state \<open>p\<close> is a lower bound of the row \<open>r\<close>: whatever was filled still is.\<close>

definition advances :: "prior_event_state \<Rightarrow> event_row \<Rightarrow> bool" where
  "advances p r \<longleftrightarrow>
     (p_dedup_key p \<noteq> [] \<longrightarrow> ev_dedup_key r = p_dedup_key p) \<and>
     ProviderRank (p_provider p) \<le> ProviderRank (ev_provider r) \<and>
     (device_origin r = OriginObserved \<longrightarrow> p_device_origin p = OriginObserved) \<and>
     (ev_gen_ms r = 0 \<longrightarrow> p_gen_ms p = 0) \<and> (ev_ttft_ms r = 0 \<longrightarrow> p_ttft_ms p = 0) \<and>
     (ev_session_id r = [] \<longrightarrow> p_session_id p = []) \<and> (ev_cwd r = [] \<longrightarrow> p_cwd p = []) \<and>
     (ev_repo r = [] \<longrightarrow> p_repo p = []) \<and> (ev_git_branch r = [] \<longrightarrow> p_git_branch p = []) \<and>
     (ev_app_version r = [] \<longrightarrow> p_app_version p = []) \<and>
     (ev_source r = ''proxy'' \<longrightarrow> p_source p = ''proxy'') \<and>
     (ev_duration_ms r = 0 \<longrightarrow> p_duration_ms p = 0)"

fun known_ok :: "prior_event_state option \<Rightarrow> event_row \<Rightarrow> bool" where
  "known_ok None r = True"
| "known_ok (Some p) r = advances p r"

lemma advances_refl: "advances (prior_of r) r"
  by (simp add: advances_def prior_of_def)

definition m_key :: "event \<Rightarrow> event_row \<Rightarrow> event_row" where
  "m_key e r = r\<lparr>ev_dedup_key := fill_text (ev_dedup_key r) (ev_dedup_key e)\<rparr>"

definition m_rank :: "event \<Rightarrow> event_row \<Rightarrow> event_row" where
  "m_rank e r = r\<lparr>ev_provider := (if g_rank e r then ev_provider e else ev_provider r)\<rparr>"

definition m_attr :: "string \<Rightarrow> event \<Rightarrow> event_row \<Rightarrow> event_row" where
  "m_attr origin e r = r\<lparr>ev_device := (if g_attr origin e r then ev_device e else ev_device r),
     device_origin := (if g_attr origin e r then OriginSelf else device_origin r)\<rparr>"

definition m_num :: "event \<Rightarrow> event_row \<Rightarrow> event_row" where
  "m_num e r = r\<lparr>ev_gen_ms := fill_num (ev_gen_ms r) (ev_gen_ms e),
     ev_ttft_ms := fill_num (ev_ttft_ms r) (ev_ttft_ms e)\<rparr>"

definition m_text :: "event \<Rightarrow> event_row \<Rightarrow> event_row" where
  "m_text e r = r\<lparr>ev_session_id := fill_text (ev_session_id r) (ev_session_id e),
     ev_cwd := fill_text (ev_cwd r) (ev_cwd e), ev_repo := fill_text (ev_repo r) (ev_repo e),
     ev_git_branch := fill_text (ev_git_branch r) (ev_git_branch e),
     ev_app_version := fill_text (ev_app_version r) (ev_app_version e)\<rparr>"

definition m_promote :: "event \<Rightarrow> event_row \<Rightarrow> event_row" where
  "m_promote e r = r\<lparr>ev_source := (if g_promote e r then ev_source e else ev_source r)\<rparr>"

definition m_dur :: "event \<Rightarrow> event_row \<Rightarrow> event_row" where
  "m_dur e r = r\<lparr>ev_duration_ms := (if g_dur e r then ev_duration_ms e else ev_duration_ms r)\<rparr>"

lemmas m_defs = m_key_def m_rank_def m_attr_def m_num_def m_text_def m_promote_def m_dur_def

lemma m_event_id [simp]:
  "ev_event_id (m_key e r) = ev_event_id r" "ev_event_id (m_rank e r) = ev_event_id r"
  "ev_event_id (m_attr origin e r) = ev_event_id r" "ev_event_id (m_num e r) = ev_event_id r"
  "ev_event_id (m_text e r) = ev_event_id r" "ev_event_id (m_promote e r) = ev_event_id r"
  by (simp_all add: m_defs)

lemma merge_row_pieces:
  "merge_row origin e r = m_dur e (m_promote e (m_text e (m_num e (m_attr origin e
     (m_rank e (m_key e r))))))"
  by (simp add: merge_row_def m_defs guard_defs)

text \<open>No piece reads a column another piece writes.\<close>

lemma g_piecewise [simp]:
  "g_rank e (m_key e r) = g_rank e r"
  "g_attr origin e (m_rank e r) = g_attr origin e r" "g_attr origin e (m_key e r) = g_attr origin e r"
  "g_num e (m_attr origin e r) = g_num e r" "g_num e (m_rank e r) = g_num e r"
  "g_num e (m_key e r) = g_num e r"
  "g_text e (m_num e r) = g_text e r" "g_text e (m_attr origin e r) = g_text e r"
  "g_text e (m_rank e r) = g_text e r" "g_text e (m_key e r) = g_text e r"
  "g_promote e (m_text e r) = g_promote e r" "g_promote e (m_num e r) = g_promote e r"
  "g_promote e (m_attr origin e r) = g_promote e r" "g_promote e (m_rank e r) = g_promote e r"
  "g_promote e (m_key e r) = g_promote e r"
  "g_dur e (m_promote e r) = g_dur e r" "g_dur e (m_text e r) = g_dur e r"
  "g_dur e (m_num e r) = g_dur e r" "g_dur e (m_attr origin e r) = g_dur e r"
  "g_dur e (m_rank e r) = g_dur e r" "g_dur e (m_key e r) = g_dur e r"
  by (simp_all add: m_defs guard_defs)

lemma advances_pieces:
  assumes "advances p r"
  shows "advances p (m_key e r)" "advances p (m_rank e r)" "advances p (m_attr origin e r)"
    "advances p (m_num e r)" "advances p (m_text e r)" "advances p (m_promote e r)"
    "advances p (m_dur e r)"
  using assms unfolding advances_def
  by (simp_all add: m_defs fill_text_def fill_num_def guard_defs)

lemma advances_merge: "advances p r \<Longrightarrow> advances p (merge_row origin e r)"
  unfolding merge_row_pieces by (intro advances_pieces)

lemma known_ok_pieces [simp]:
  assumes "known_ok known r"
  shows "known_ok known (m_key e r)" "known_ok known (m_rank e r)"
    "known_ok known (m_attr origin e r)" "known_ok known (m_num e r)"
    "known_ok known (m_text e r)" "known_ok known (m_promote e r)"
  using assms by (cases known; simp add: advances_pieces)+

text \<open>Each guarded statement, on a table split at the row of the event.\<close>

definition others :: "string \<Rightarrow> event_row list \<Rightarrow> event_row list \<Rightarrow> bool" where
  "others i us vs \<longleftrightarrow> (\<forall>x\<in>set us \<union> set vs. ev_event_id x \<noteq> i)"

definition open_if :: "(prior_event_state \<Rightarrow> bool) \<Rightarrow> prior_event_state option \<Rightarrow> bool" where
  "open_if f known = (case known of None \<Rightarrow> True | Some p \<Rightarrow> f p)"

lemma gated_split:
  assumes "others (ev_event_id e) us vs" "ev_event_id r = ev_event_id e"
    and "\<And>t. stmt t = sql_update (\<lambda>x. ev_event_id x = ev_event_id e \<and> G x) f t"
    and "(gate \<and> G r) = guard" and "(if guard then f r else r) = m r"
  shows "gated gate stmt (us @ r # vs) = (us @ m r # vs, if guard then 1 else 0)"
proof (cases gate)
  case True
  with assms(4) have "guard = G r" by blast
  with True assms(5) show ?thesis
    by (simp only: gated_def assms(3) if_True update_split [OF assms(1) [unfolded others_def] assms(2)])
next
  case False
  with assms(4) have "\<not> guard" by blast
  with False assms(5) show ?thesis by (simp only: gated_def if_False)
qed

lemma stmt_rank:
  assumes "others (ev_event_id e) us vs" "ev_event_id r = ev_event_id e" "known_ok known r"
  shows "gated (ev_provider e \<noteq> [] \<and>
           open_if (\<lambda>p. ProviderRank (ev_provider e) > ProviderRank (p_provider p)) known)
           (reclassify (ev_provider e) (ev_event_id e) (ProviderRank (ev_provider e))) (us @ r # vs) =
         (us @ m_rank e r # vs, if g_rank e r then 1 else 0)"
proof (rule gated_split [OF assms(1,2) reclassify_def])
  have "open_if (\<lambda>p. ProviderRank (ev_provider e) > ProviderRank (p_provider p)) known"
    if "ProviderRank (ev_provider e) > ProviderRank (ev_provider r)"
    using assms(3) that by (cases known) (simp_all add: open_if_def advances_def)
  then show "((ev_provider e \<noteq> [] \<and>
      open_if (\<lambda>p. ProviderRank (ev_provider e) > ProviderRank (p_provider p)) known) \<and>
      ProviderRank (ev_provider e) > providerRankSQL (ev_provider r)) = g_rank e r"
    unfolding g_rank_def providerRankSQL_eq by blast
qed (simp add: m_rank_def)

lemma stmt_attr:
  assumes "others (ev_event_id e) us vs" "ev_event_id r = ev_event_id e" "known_ok known r"
  shows "gated (origin = OriginSelf \<and> ev_device e \<noteq> [] \<and>
           open_if (\<lambda>p. p_device_origin p = OriginObserved) known)
           (reattribute (ev_device e) (ev_event_id e)) (us @ r # vs) =
         (us @ m_attr origin e r # vs, if g_attr origin e r then 1 else 0)"
proof (rule gated_split [OF assms(1,2) reattribute_def])
  have "open_if (\<lambda>p. p_device_origin p = OriginObserved) known"
    if "device_origin r = OriginObserved"
    using assms(3) that by (cases known) (simp_all add: open_if_def advances_def)
  then show "((origin = OriginSelf \<and> ev_device e \<noteq> [] \<and>
      open_if (\<lambda>p. p_device_origin p = OriginObserved) known) \<and>
      (device_origin r = ''observed'' \<and> ev_device e \<noteq> [])) = g_attr origin e r"
    unfolding g_attr_def OriginObserved_def by blast
qed (simp add: m_attr_def OriginSelf_def)

lemma stmt_num:
  assumes "others (ev_event_id e) us vs" "ev_event_id r = ev_event_id e" "known_ok known r"
  shows "gated ((ev_gen_ms e > 0 \<or> ev_ttft_ms e > 0) \<and>
           open_if (\<lambda>p. (p_gen_ms p = 0 \<and> ev_gen_ms e > 0) \<or> (p_ttft_ms p = 0 \<and> ev_ttft_ms e > 0)) known)
           (numFill (ev_gen_ms e) (ev_ttft_ms e) (ev_event_id e)) (us @ r # vs) =
         (us @ m_num e r # vs, if g_num e r then 1 else 0)"
proof (rule gated_split [OF assms(1,2) numFill_def])
  have "open_if (\<lambda>p. (p_gen_ms p = 0 \<and> ev_gen_ms e > 0) \<or> (p_ttft_ms p = 0 \<and> ev_ttft_ms e > 0)) known"
    if "g_num e r"
    using assms(3) that by (cases known) (simp_all add: open_if_def advances_def g_num_def, blast)
  then show "(((ev_gen_ms e > 0 \<or> ev_ttft_ms e > 0) \<and>
      open_if (\<lambda>p. (p_gen_ms p = 0 \<and> ev_gen_ms e > 0) \<or> (p_ttft_ms p = 0 \<and> ev_ttft_ms e > 0)) known) \<and>
      ((ev_gen_ms r = 0 \<and> ev_gen_ms e > 0) \<or> (ev_ttft_ms r = 0 \<and> ev_ttft_ms e > 0))) = g_num e r"
    unfolding g_num_def by blast
qed (simp add: m_num_def fill_num_def g_num_def)

lemma m_text_noop: "\<not> g_text e r \<Longrightarrow> m_text e r = r"
  by (simp add: m_text_def g_text_def textFillNeeded_def prior_of_def fill_text_def)

lemma text_gate:
  assumes "known_ok known r"
  shows "(((ev_session_id e \<noteq> [] \<or> ev_cwd e \<noteq> [] \<or> ev_repo e \<noteq> [] \<or>
     ev_git_branch e \<noteq> [] \<or> ev_app_version e \<noteq> []) \<and> open_if (\<lambda>p. textFillNeeded p e) known) \<and>
     textFillNeeded (prior_of r) e) = g_text e r"
proof -
  have "open_if (\<lambda>p. textFillNeeded p e) known" if "textFillNeeded (prior_of r) e"
  proof (cases known)
    case (Some p)
    with assms have "advances p r" by simp
    with that show ?thesis
      unfolding Some open_if_def advances_def textFillNeeded_def prior_of_def by simp blast
  qed (simp add: open_if_def)
  then show ?thesis
    unfolding g_text_def by (auto simp: textFillNeeded_def)
qed

lemma stmt_text:
  assumes "others (ev_event_id e) us vs" "ev_event_id r = ev_event_id e" "known_ok known r"
  shows "gated ((ev_session_id e \<noteq> [] \<or> ev_cwd e \<noteq> [] \<or> ev_repo e \<noteq> [] \<or>
             ev_git_branch e \<noteq> [] \<or> ev_app_version e \<noteq> []) \<and>
           open_if (\<lambda>p. textFillNeeded p e) known)
           (textFill (ev_session_id e) (ev_cwd e) (ev_repo e) (ev_git_branch e)
             (ev_app_version e) (ev_event_id e)) (us @ r # vs) =
         (us @ m_text e r # vs, if g_text e r then 1 else 0)"
proof (rule gated_split [OF assms(1,2) textFill_def])
  show "(((ev_session_id e \<noteq> [] \<or> ev_cwd e \<noteq> [] \<or> ev_repo e \<noteq> [] \<or>
      ev_git_branch e \<noteq> [] \<or> ev_app_version e \<noteq> []) \<and> open_if (\<lambda>p. textFillNeeded p e) known) \<and>
      ((ev_session_id r = [] \<and> ev_session_id e \<noteq> []) \<or> (ev_cwd r = [] \<and> ev_cwd e \<noteq> []) \<or>
       (ev_repo r = [] \<and> ev_repo e \<noteq> []) \<or> (ev_git_branch r = [] \<and> ev_git_branch e \<noteq> []) \<or>
       (ev_app_version r = [] \<and> ev_app_version e \<noteq> []))) = g_text e r"
    using text_gate [OF assms(3), of e] by (simp add: textFillNeeded_def prior_of_def)
  have "m_text e r = r" if "\<not> g_text e r" using that by (rule m_text_noop)
  then show "(if g_text e r then r\<lparr>
      ev_session_id := (if ev_session_id r = [] \<and> ev_session_id e \<noteq> [] then ev_session_id e else ev_session_id r),
      ev_cwd := (if ev_cwd r = [] \<and> ev_cwd e \<noteq> [] then ev_cwd e else ev_cwd r),
      ev_repo := (if ev_repo r = [] \<and> ev_repo e \<noteq> [] then ev_repo e else ev_repo r),
      ev_git_branch := (if ev_git_branch r = [] \<and> ev_git_branch e \<noteq> [] then ev_git_branch e else ev_git_branch r),
      ev_app_version := (if ev_app_version r = [] \<and> ev_app_version e \<noteq> [] then ev_app_version e else ev_app_version r)\<rparr>
      else r) = m_text e r"
    unfolding m_text_def fill_text_def by presburger
qed

lemma stmt_promote:
  assumes "others (ev_event_id e) us vs" "ev_event_id r = ev_event_id e" "known_ok known r"
  shows "gated ((ev_source e \<noteq> [] \<and> ev_source e \<noteq> ''proxy'') \<and>
           open_if (\<lambda>p. p_source p = ''proxy'') known)
           (promote (ev_source e) (ev_event_id e)) (us @ r # vs) =
         (us @ m_promote e r # vs, if g_promote e r then 1 else 0)"
proof (rule gated_split [OF assms(1,2) promote_def])
  have "open_if (\<lambda>p. p_source p = ''proxy'') known" if "ev_source r = ''proxy''"
    using assms(3) that by (cases known) (simp_all add: open_if_def advances_def)
  then show "(((ev_source e \<noteq> [] \<and> ev_source e \<noteq> ''proxy'') \<and>
      open_if (\<lambda>p. p_source p = ''proxy'') known) \<and>
      (ev_source r = ''proxy'' \<and> ev_source e \<noteq> ''proxy'')) = g_promote e r"
    unfolding g_promote_def by blast
qed (simp add: m_promote_def)

lemma stmt_dur:
  assumes "others (ev_event_id e) us vs" "ev_event_id r = ev_event_id e" "known_ok known r"
  shows "gated ((ev_source e \<noteq> [] \<and> ev_source e \<noteq> ''proxy'') \<and> ev_duration_ms e > 0 \<and>
           open_if (\<lambda>p. p_duration_ms p = 0) known)
           (durFill (ev_duration_ms e) (ev_event_id e)) (us @ r # vs) =
         (us @ m_dur e r # vs, if g_dur e r then 1 else 0)"
proof (rule gated_split [OF assms(1,2) durFill_def])
  have "open_if (\<lambda>p. p_duration_ms p = 0) known" if "ev_duration_ms r = 0"
    using assms(3) that by (cases known) (simp_all add: open_if_def advances_def)
  then show "(((ev_source e \<noteq> [] \<and> ev_source e \<noteq> ''proxy'') \<and> ev_duration_ms e > 0 \<and>
      open_if (\<lambda>p. p_duration_ms p = 0) known) \<and>
      (ev_duration_ms r = 0 \<and> ev_duration_ms e > 0)) = g_dur e r"
    unfolding g_dur_def by blast
qed (simp add: m_dur_def)

lemma stmt_key:
  assumes "others (ev_event_id e) us vs" "ev_event_id r = ev_event_id e" "known_ok known r"
    and "ev.uniq (us @ m_key e r # vs)"
  shows "(if ev_dedup_key e \<noteq> [] \<and> open_if (\<lambda>p. p_dedup_key p = []) known
          then keyFill (ev_dedup_key e) (ev_event_id e) (us @ r # vs) else Some (us @ r # vs, 0)) =
         Some (us @ m_key e r # vs, if g_key e r then 1 else 0)"
proof -
  have "keyFill (ev_dedup_key e) (ev_event_id e) (us @ r # vs) =
      (if ev.uniq (us @ (if ev_dedup_key r = [] then r\<lparr>ev_dedup_key := ev_dedup_key e\<rparr> else r) # vs)
       then Some (us @ (if ev_dedup_key r = [] then r\<lparr>ev_dedup_key := ev_dedup_key e\<rparr> else r) # vs,
         if ev_dedup_key r = [] then 1 else 0) else None)"
    by (simp add: keyFill_def update_split [OF assms(1) [unfolded others_def] assms(2)])
  moreover have "m_key e r = (if ev_dedup_key r = [] then r\<lparr>ev_dedup_key := ev_dedup_key e\<rparr> else r)"
    by (simp add: m_key_def)
  ultimately have fill: "keyFill (ev_dedup_key e) (ev_event_id e) (us @ r # vs) =
      Some (us @ m_key e r # vs, if ev_dedup_key r = [] then 1 else 0)"
    using assms(4) by presburger
  have gate: "open_if (\<lambda>p. p_dedup_key p = []) known" if "ev_dedup_key r = []"
    using assms(3) that by (cases known) (auto simp: open_if_def advances_def)
  have noop: "m_key e r = r" if "\<not> g_key e r"
    using that by (cases "ev_dedup_key e = []") (simp_all add: m_key_def g_key_def)
  show ?thesis
  proof (cases "g_key e r")
    case True
    with gate fill show ?thesis by (simp add: g_key_def)
  next
    case False
    with noop fill show ?thesis using gate by (auto simp: g_key_def)
  qed
qed

lemmas stmt_pieces = stmt_rank stmt_attr stmt_num stmt_text stmt_promote stmt_dur

lemma note_merge_flat:
  "note_merge origin e (Some r) res = res\<lparr>
     er_reclassified := (if g_rank e r then count_label (ev_provider e) 1 (er_reclassified res)
                         else er_reclassified res),
     er_reattributed := er_reattributed res + (if g_attr origin e r then 1 else 0),
     er_filled := er_filled res + (if g_fill e r then 1 else 0)\<rparr>"
  by (simp add: note_merge_def)

lemma contribute_hit:
  assumes o: "others (ev_event_id e) us vs" and i: "ev_event_id r = ev_event_id e"
    and k: "known_ok known r" and u: "ev.uniq (us @ m_key e r # vs)"
  shows "contribute origin known e (us @ r # vs) res =
    Some (us @ merge_row origin e r # vs, note_merge origin e (Some r) res)"
proof -
  let ?r1 = "m_key e r" let ?r2 = "m_rank e ?r1" let ?r3 = "m_attr origin e ?r2"
  let ?r4 = "m_num e ?r3" let ?r5 = "m_text e ?r4" let ?r6 = "m_promote e ?r5"
  have ids: "ev_event_id ?r1 = ev_event_id e" "ev_event_id ?r2 = ev_event_id e"
    "ev_event_id ?r3 = ev_event_id e" "ev_event_id ?r4 = ev_event_id e"
    "ev_event_id ?r5 = ev_event_id e" "ev_event_id ?r6 = ev_event_id e"
    by (simp_all add: i)
  have ks: "known_ok known ?r1" "known_ok known ?r2" "known_ok known ?r3" "known_ok known ?r4"
    "known_ok known ?r5" "known_ok known ?r6"
    by (simp_all add: k)
  note steps = stmt_key [OF o i k u] stmt_rank [OF o ids(1) ks(1)]
    stmt_attr [OF o ids(2) ks(2), of origin] stmt_num [OF o ids(3) ks(3)]
    stmt_text [OF o ids(4) ks(4)] stmt_promote [OF o ids(5) ks(5)] stmt_dur [OF o ids(6) ks(6)]
  have "contribute origin known e (us @ r # vs) res =
      Some (us @ m_dur e ?r6 # vs, note_merge origin e (Some r) res)"
    unfolding contribute_def open_if_def [symmetric] Let_def
    by (simp only: steps option.case prod.case g_piecewise note_merge_flat g_fill_def)
      (simp split: if_split)
  then show ?thesis by (simp add: merge_row_pieces)
qed

lemma gated_none:
  assumes "row_at i t = None" "\<And>t. stmt t = sql_update (\<lambda>x. ev_event_id x = i \<and> G x) f t"
  shows "gated gate stmt t = (t, 0)"
  by (simp add: gated_def assms(2) update_none [OF assms(1)])

lemma contribute_miss:
  assumes none: "row_at (ev_event_id e) t = None" and u: "ev.uniq t"
  shows "contribute origin known e t res = Some (t, res)"
proof -
  have key: "keyFill (ev_dedup_key e) (ev_event_id e) t = Some (t, 0)"
    using u by (simp add: keyFill_def update_none [OF none])
  note g = gated_none [OF none reclassify_def] gated_none [OF none reattribute_def]
    gated_none [OF none numFill_def] gated_none [OF none textFill_def]
    gated_none [OF none promote_def] gated_none [OF none durFill_def]
  show ?thesis
    unfolding contribute_def Let_def by (simp add: key g)
qed

lemma merge_keeps_uniq:
  assumes u: "ev.uniq (us @ r # vs)" and "ev_event_id r' = ev_event_id r"
    and "ev_dedup_key r' = [] \<or> ev_dedup_key r' = ev_dedup_key r \<or>
         (\<forall>x\<in>set us \<union> set vs. ev_dedup_key x \<noteq> ev_dedup_key r')"
  shows "ev.uniq (us @ r' # vs)"
  using assms by (auto simp: ev.uniq_append event_conflict_def)

section \<open>The code refines the specification\<close>

lemma contribute_merge:
  assumes u: "ev.uniq t" and r: "row_at (ev_event_id e) t = Some r" and k: "known_ok known r"
    and free: "\<And>x. x \<in> set t \<Longrightarrow> ev_dedup_key e \<noteq> [] \<Longrightarrow> ev_dedup_key x = ev_dedup_key e \<Longrightarrow>
      ev_event_id x = ev_event_id e"
  shows "contribute origin known e t res =
    Some (at_id (ev_event_id e) (merge_row origin e) t, note_merge origin e (Some r) res)"
proof -
  obtain us vs where t: "t = us @ r # vs" and i: "ev_event_id r = ev_event_id e"
    and o: "\<forall>x\<in>set us \<union> set vs. ev_event_id x \<noteq> ev_event_id e"
    using split_at_id [OF u r] by blast
  have "ev.uniq (us @ m_key e r # vs)"
  proof (rule merge_keeps_uniq)
    show "ev.uniq (us @ r # vs)" using u t by simp
    have "ev_dedup_key x \<noteq> ev_dedup_key e" if "x \<in> set us \<union> set vs" "ev_dedup_key e \<noteq> []" for x
      using free [of x] o that t by auto
    then show "ev_dedup_key (m_key e r) = [] \<or> ev_dedup_key (m_key e r) = ev_dedup_key r \<or>
        (\<forall>x\<in>set us \<union> set vs. ev_dedup_key x \<noteq> ev_dedup_key (m_key e r))"
      by (auto simp: m_key_def fill_text_def)
  qed simp
  with contribute_hit [of e us vs r known origin res] o i k show ?thesis
    unfolding t by (simp add: at_id_split others_def)
qed

lemma keyOwnerSQL_owner:
  "k \<noteq> [] \<Longrightarrow> keyOwnerSQL k t = map_option (\<lambda>r. (ev_event_id r, ev_ts r)) (owner_of k t)"
proof -
  assume "k \<noteq> []"
  then have "(\<lambda>r::event_row. ev_dedup_key r = k \<and> ev_dedup_key r \<noteq> []) = (\<lambda>r. ev_dedup_key r = k)" by auto
  then have "find (\<lambda>r. ev_dedup_key r = k \<and> ev_dedup_key r \<noteq> []) t = owner_of k t"
    using \<open>k \<noteq> []\<close> by (simp only: owner_of_def if_False)
  then show ?thesis by (simp add: keyOwnerSQL_def sql_select_def)
qed

lemma stmt_insert_eq:
  "stmt_insert e origin recv t =
     (if row_at (ev_event_id e) t = None \<and> owner_of (ev_dedup_key e) t = None
      then (t @ [row_of e origin recv], True) else (t, False))"
  by (auto simp: stmt_insert_def sql_insert_ignore_def list_ex_iff event_conflict_def
      row_at_None_iff owner_of_None_iff)

lemma dropCopy_eq:
  "ev.uniq t \<Longrightarrow> dropCopy i t = (drop_id i t, if row_at i t = None then 0 else 1)"
proof (cases "row_at i t")
  case None
  then show ?thesis
    by (auto simp: dropCopy_def sql_delete_def drop_id_def sql_count_def row_at_None_iff
        filter_empty_conv)
next
  case (Some r)
  assume "ev.uniq t"
  then obtain us vs where t: "t = us @ r # vs" and "ev_event_id r = i"
    and "\<forall>x\<in>set us \<union> set vs. ev_event_id x \<noteq> i"
    using split_at_id [OF _ Some] by blast
  then have "filter (\<lambda>r. ev_event_id r = i) t = [r]" by (auto simp: filter_empty_conv)
  with Some show ?thesis
    by (simp add: dropCopy_def sql_delete_def drop_id_def sql_count_def)
qed

definition copy_of :: "event \<Rightarrow> event_row \<Rightarrow> bool" where
  "copy_of e r \<longleftrightarrow> ev_dedup_key r = ev_dedup_key e \<and> ev_dedup_key e \<noteq> [] \<and>
     is_copy e (ev_event_id r) (ev_ts r)"

text \<open>
  Where an event stands in the table: its row is there and satisfies \<open>Q\<close>, or the table keeps
  the original of the generation it is a copy of.
\<close>

definition located :: "(event_row \<Rightarrow> bool) \<Rightarrow> event_row list \<Rightarrow> event \<Rightarrow> bool" where
  "located Q t e \<longleftrightarrow> (\<exists>r\<in>set t. ev_event_id r = ev_event_id e \<and> Q r) \<or>
     (row_at (ev_event_id e) t = None \<and> (\<exists>r\<in>set t. copy_of e r))"

definition prior_ok :: "(string \<Rightarrow> prior_event_state option) \<Rightarrow> event_row list \<Rightarrow> event \<Rightarrow> bool" where
  "prior_ok prior t e \<longleftrightarrow> ev_event_id e = [] \<or>
     (case prior (ev_event_id e) of None \<Rightarrow> True | Some p \<Rightarrow> located (advances p) t e)"

lemma row_at_drop: "i \<noteq> j \<Longrightarrow> row_at i (drop_id j t) = row_at i t"
  unfolding row_at_def drop_id_def by (rule find_filter_implies) auto

lemma set_drop_id: "set (drop_id i t) = {r \<in> set t. ev_event_id r \<noteq> i}"
  by (auto simp: drop_id_def)

lemma uniq_drop_id: "ev.uniq t \<Longrightarrow> ev.uniq (drop_id i t)"
  by (simp add: drop_id_def ev.uniq_filter)

lemma drop_id_none: "row_at i t = None \<Longrightarrow> drop_id i t = t"
  by (simp add: drop_id_def row_at_None_iff filter_id_conv)

lemma owner_of_drop:
  "ev.uniq t \<Longrightarrow> owner_of k t = Some r \<Longrightarrow> owner_of k (drop_id (ev_event_id r) t) = None"
  by (auto simp: owner_of_None_iff owner_of_Some_iff set_drop_id dest: uniq_keys)

text \<open>A known row whose pre-loaded state still bounds it: the tail of the loop body merges.\<close>

lemma located_row:
  assumes "ev.uniq t" "row_at (ev_event_id e) t = Some r" "located Q t e"
  shows "Q r"
  using assms by (auto simp: located_def row_at_Some_iff row_at_None_iff dest: uniq_ids)

definition undecided :: "string \<Rightarrow> int \<Rightarrow> prior_event_state option \<Rightarrow> event \<Rightarrow> event_row list \<Rightarrow>
    bool \<Rightarrow> eventApplyResult \<Rightarrow> (event_row list \<times> eventApplyResult) option" where
  "undecided origin recv known e t stored res =
     (if stored then Some (t, res\<lparr>er_inserted := er_inserted res + 1\<rparr>)
      else contribute origin known e t res)"

lemma case_keyOwner:
  "k \<noteq> [] \<Longrightarrow> (case keyOwnerSQL k t of None \<Rightarrow> A | Some (i, ts) \<Rightarrow> B i ts) =
     (case owner_of k t of None \<Rightarrow> A | Some r \<Rightarrow> B (ev_event_id r) (ev_ts r))"
  by (simp add: keyOwnerSQL_owner split: option.split)

lemma undecided_merge:
  assumes "ev.uniq t" "row_at (ev_event_id e) t = Some r" "known_ok known r"
    and "owner_of (ev_dedup_key e) t \<in> {None, Some r}"
  shows "undecided origin recv known e t False res =
    Some (spec_merge_or_insert origin recv e (t, res))"
proof -
  have "ev_event_id x = ev_event_id e"
    if "x \<in> set t" "ev_dedup_key e \<noteq> []" "ev_dedup_key x = ev_dedup_key e" for x
  proof -
    have "owner_of (ev_dedup_key e) t = Some x" using assms(1) that by (simp add: owner_of_Some_iff)
    with assms(4) have "x = r" by simp
    with assms(1,2) show ?thesis by (simp add: row_at_Some_iff)
  qed
  with contribute_merge [OF assms(1-3)] assms(2) show ?thesis
    by (simp add: undecided_def spec_merge_or_insert_def)
qed

lemma undecided_insert:
  assumes "row_at (ev_event_id e) t = None" "owner_of (ev_dedup_key e) t = None"
  shows "(case stmt_insert e origin recv t of (t', stored) \<Rightarrow> undecided origin recv known e t' stored res) =
    Some (spec_merge_or_insert origin recv e (t, res))"
  using assms by (simp add: stmt_insert_eq undecided_def spec_merge_or_insert_def)

text \<open>The decision of lines 670 to 713, with nothing inserted yet.\<close>

lemma decide_spec:
  assumes u: "ev.uniq t" and i: "ev_event_id e \<noteq> []"
    and known: "case known of None \<Rightarrow> row_at (ev_event_id e) t \<noteq> None \<or> owner_of (ev_dedup_key e) t \<noteq> None
                | Some p \<Rightarrow> located (advances p) t e"
  shows "(case owner_of (ev_dedup_key e) t of
            None \<Rightarrow> undecided origin recv known e t False res
          | Some r \<Rightarrow>
              if is_copy e (ev_event_id r) (ev_ts r) then
                (let (t2, n) = dropCopy (ev_event_id e) t
                 in Some (t2, res\<lparr>er_deduped := er_deduped res + n\<rparr>))
              else if ev_event_id r \<noteq> ev_event_id e then
                (let (t2, n) = dropCopy (ev_event_id r) t;
                     (t3, stored3) = stmt_insert e origin recv t2
                 in undecided origin recv known e t3 stored3
                      (res\<lparr>er_deduped := er_deduped res + 1\<rparr>))
              else undecided origin recv known e t False res) =
         Some (spec_step origin recv e (t, res))"
proof -
  have k: "known_ok known r" if "row_at (ev_event_id e) t = Some r" for r
    using known located_row [OF u that] by (cases known) auto
  show ?thesis
  proof (cases "owner_of (ev_dedup_key e) t")
    case None
    have "row_at (ev_event_id e) t \<noteq> None"
    proof (cases known)
      case (Some p)
      with known None show ?thesis
        by (auto simp: located_def copy_of_def row_at_None_iff owner_of_None_iff)
    qed (use known None in simp)
    then obtain r where "row_at (ev_event_id e) t = Some r" by blast
    with undecided_merge [OF u this k] None i show ?thesis by (simp add: spec_step_def)
  next
    case (Some x)
    then have x: "x \<in> set t" "ev_dedup_key x = ev_dedup_key e" "ev_dedup_key e \<noteq> []"
      by (simp_all add: owner_of_Some_iff [OF u])
    show ?thesis
    proof (cases "is_copy e (ev_event_id x) (ev_ts x)")
      case True
      with Some i show ?thesis by (simp add: spec_step_def dropCopy_eq [OF u])
    next
      case False
      show ?thesis
      proof (cases "ev_event_id x = ev_event_id e")
        case True
        then have "row_at (ev_event_id e) t = Some x" using x u by (simp add: row_at_Some_iff)
        with undecided_merge [OF u this k] Some False i True show ?thesis
          by (simp add: spec_step_def)
      next
        case ne: False
        let ?t2 = "drop_id (ev_event_id x) t"
        have u2: "ev.uniq ?t2" and own: "owner_of (ev_dedup_key e) ?t2 = None"
          and same: "row_at (ev_event_id e) ?t2 = row_at (ev_event_id e) t"
          using u Some ne by (auto intro: uniq_drop_id owner_of_drop row_at_drop)
        have "(case stmt_insert e origin recv ?t2 of (t3, stored3) \<Rightarrow>
            undecided origin recv known e t3 stored3 (res\<lparr>er_deduped := er_deduped res + 1\<rparr>)) =
          Some (spec_merge_or_insert origin recv e (?t2, res\<lparr>er_deduped := er_deduped res + 1\<rparr>))"
        proof (cases "row_at (ev_event_id e) t")
          case None
          with same own show ?thesis by (intro undecided_insert) simp_all
        next
          case (Some r)
          with same own undecided_merge [OF u2, of e r known origin recv] k show ?thesis
            by (simp add: stmt_insert_eq)
        qed
        with Some False ne i show ?thesis by (simp add: spec_step_def dropCopy_eq [OF u])
      qed
    qed
  qed
qed

lemma apply_event_self:
  assumes i: "ev_event_id e \<noteq> []" and p: "prior (ev_event_id e) = Some p"
    and self: "ev_dedup_key e \<noteq> []" "p_dedup_key p = ev_dedup_key e"
  shows "apply_event origin recv prior e (t, res) = undecided origin recv (Some p) e t False res"
  using assms by (simp add: apply_event_def undecided_def Let_def)

lemma apply_event_stored:
  assumes "ev_event_id e \<noteq> []" "prior (ev_event_id e) = None"
    and "stmt_insert e origin recv t = (t1, True)"
  shows "apply_event origin recv prior e (t, res) = undecided origin recv None e t1 True res"
  using assms by (simp add: apply_event_def undecided_def Let_def)

lemma apply_event_decide:
  assumes i: "ev_event_id e \<noteq> []"
    and ns: "case prior (ev_event_id e) of
        None \<Rightarrow> stmt_insert e origin recv t = (t, False)
      | Some p \<Rightarrow> ev_dedup_key e = [] \<or> p_dedup_key p \<noteq> ev_dedup_key e"
  shows "apply_event origin recv prior e (t, res) =
     (case owner_of (ev_dedup_key e) t of
        None \<Rightarrow> undecided origin recv (prior (ev_event_id e)) e t False res
      | Some r \<Rightarrow>
          if is_copy e (ev_event_id r) (ev_ts r) then
            (let (t2, n) = dropCopy (ev_event_id e) t
             in Some (t2, res\<lparr>er_deduped := er_deduped res + n\<rparr>))
          else if ev_event_id r \<noteq> ev_event_id e then
            (let (t2, n) = dropCopy (ev_event_id r) t;
                 (t3, stored3) = stmt_insert e origin recv t2
             in undecided origin recv (prior (ev_event_id e)) e t3 stored3
                  (res\<lparr>er_deduped := er_deduped res + 1\<rparr>))
          else undecided origin recv (prior (ev_event_id e)) e t False res)"
proof (cases "ev_dedup_key e = []")
  case True
  then have "owner_of (ev_dedup_key e) t = None" by (simp add: owner_of_def)
  with True i ns show ?thesis
    by (cases "prior (ev_event_id e)") (simp_all add: apply_event_def undecided_def)
next
  case False
  have c: "(if prior (ev_event_id e) = None then stmt_insert e origin recv t else (t, False)) = (t, False)"
    and self: "\<not> (case prior (ev_event_id e) of None \<Rightarrow> False
        | Some p \<Rightarrow> ev_dedup_key e \<noteq> [] \<and> p_dedup_key p = ev_dedup_key e)"
    using ns False by (auto split: option.splits)
  show ?thesis
    unfolding apply_event_def prod.case Let_def c using i False self
    by (simp only: if_False if_True simp_thms case_keyOwner [OF False] undecided_def Let_def)
qed

lemma apply_event_spec:
  assumes u: "ev.uniq t" and ok: "prior_ok prior t e"
  shows "apply_event origin recv prior e (t, res) = Some (spec_step origin recv e (t, res))"
proof (cases "ev_event_id e = []")
  case True
  then show ?thesis by (simp add: apply_event_def spec_step_def)
next
  case i: False
  show ?thesis
  proof (cases "prior (ev_event_id e)")
    case None
    show ?thesis
    proof (cases "row_at (ev_event_id e) t = None \<and> owner_of (ev_dedup_key e) t = None")
      case True
      then have "apply_event origin recv prior e (t, res) =
          undecided origin recv None e (t @ [row_of e origin recv]) True res"
        by (intro apply_event_stored i None) (simp add: stmt_insert_eq)
      with True i show ?thesis
        by (simp add: undecided_def spec_step_def spec_merge_or_insert_def)
    next
      case False
      then have "stmt_insert e origin recv t = (t, False)" by (simp add: stmt_insert_eq)
      with None False show ?thesis
        by (intro trans [OF apply_event_decide decide_spec] i u) auto
    qed
  next
    case (Some p)
    with ok i have l: "located (advances p) t e" by (simp add: prior_ok_def)
    show ?thesis
    proof (cases "ev_dedup_key e \<noteq> [] \<and> p_dedup_key p = ev_dedup_key e")
      case False
      with Some l show ?thesis
        by (intro trans [OF apply_event_decide decide_spec] i u) simp_all
    next
      case True
      then have a: "apply_event origin recv prior e (t, res) = undecided origin recv (Some p) e t False res"
        using i Some by (intro apply_event_self) auto
      show ?thesis
      proof (cases "row_at (ev_event_id e) t")
        case None
        with l obtain x where "x \<in> set t" "copy_of e x" by (auto simp: located_def row_at_None_iff)
        then have "owner_of (ev_dedup_key e) t = Some x" "is_copy e (ev_event_id x) (ev_ts x)"
          using u by (auto simp: copy_of_def owner_of_Some_iff)
        with a i None contribute_miss [OF None u] show ?thesis
          by (simp add: undecided_def spec_step_def drop_id_none)
      next
        case (Some r)
        then have "advances p r" using located_row [OF u _ l] by blast
        with True Some u have "owner_of (ev_dedup_key e) t = Some r" "known_ok (Some p) r"
          by (auto simp: advances_def owner_of_Some_iff row_at_Some_iff)
        with a i Some undecided_merge [OF u Some] show ?thesis
          using row_at_Some_iff [OF u, of "ev_event_id e" r]
          by (simp add: spec_step_def is_copy_def)
      qed
    qed
  qed
qed

section \<open>Every event of a batch keeps the others located\<close>

text \<open>
  What the collectors guarantee about identities (ids and keys are functions of the generation,
  ADR-0004, ADR-0020 and ADR-0041): an id always comes with the same dedup key and, when there
  is a key, the same timestamp. Stored rows may still lack the key (written before it existed).
\<close>

definition stamped :: "(string \<Rightarrow> string \<times> int) \<Rightarrow> event \<Rightarrow> bool" where
  "stamped stamp e \<longleftrightarrow> ev_dedup_key e = fst (stamp (ev_event_id e)) \<and>
     (ev_dedup_key e \<noteq> [] \<longrightarrow> ev_ts e = snd (stamp (ev_event_id e)))"

definition row_stamped :: "(string \<Rightarrow> string \<times> int) \<Rightarrow> event_row \<Rightarrow> bool" where
  "row_stamped stamp r \<longleftrightarrow> ev_dedup_key r \<in> {[], fst (stamp (ev_event_id r))} \<and>
     (fst (stamp (ev_event_id r)) \<noteq> [] \<longrightarrow> ev_ts r = snd (stamp (ev_event_id r)))"

definition table_ok :: "(string \<Rightarrow> string \<times> int) \<Rightarrow> event_row list \<Rightarrow> bool" where
  "table_ok stamp t \<longleftrightarrow> ev.uniq t \<and> (\<forall>r\<in>set t. row_stamped stamp r)"

lemma row_of_stamped: "stamped stamp e \<Longrightarrow> row_stamped stamp (row_of e origin recv)"
  by (simp add: stamped_def row_stamped_def)

lemma merge_row_stamped:
  "stamped stamp e \<Longrightarrow> ev_event_id r = ev_event_id e \<Longrightarrow> row_stamped stamp r \<Longrightarrow>
     row_stamped stamp (merge_row origin e r)"
  by (auto simp: stamped_def row_stamped_def fill_text_def)

text \<open>The shape of one step: the rows that survive, and the row of the event itself.\<close>

lemma set_at_id: "set (at_id i f t) = (\<lambda>r. if ev_event_id r = i then f r else r) ` set t"
  by (auto simp: at_id_def)

lemma merge_or_insert_uniq:
  assumes u: "ev.uniq t" and free: "owner_of (ev_dedup_key e) t \<in> {None, row_at (ev_event_id e) t}"
  shows "ev.uniq (fst (spec_merge_or_insert origin recv e (t, res)))"
proof (cases "row_at (ev_event_id e) t")
  case None
  with free have "owner_of (ev_dedup_key e) t = None" by auto
  with None u have "ev.uniq (t @ [row_of e origin recv])"
    by (auto simp: ev.uniq_append event_conflict_def row_at_None_iff owner_of_None_iff)
  with None show ?thesis by (simp add: spec_merge_or_insert_def)
next
  case (Some r)
  then obtain us vs where t: "t = us @ r # vs" and i: "ev_event_id r = ev_event_id e"
    and o: "\<forall>x\<in>set us \<union> set vs. ev_event_id x \<noteq> ev_event_id e"
    using split_at_id [OF u Some] by blast
  have "ev_dedup_key x \<noteq> ev_dedup_key e" if "x \<in> set us \<union> set vs" "ev_dedup_key e \<noteq> []" for x
  proof
    assume "ev_dedup_key x = ev_dedup_key e"
    then have "owner_of (ev_dedup_key e) t = Some x" using u that t by (auto simp: owner_of_Some_iff)
    with free Some have "x = r" by simp
    with o i that show False by auto
  qed
  then have "ev.uniq (us @ merge_row origin e r # vs)"
    using merge_keeps_uniq [of us r vs "merge_row origin e r"] u t
    by (auto simp: fill_text_def)
  with Some o i show ?thesis
    unfolding t by (simp add: spec_merge_or_insert_def at_id_split)
qed

lemma spec_step_uniq:
  assumes "ev.uniq t" shows "ev.uniq (fst (spec_step origin recv e (t, res)))"
proof -
  have "ev.uniq (fst (spec_merge_or_insert origin recv e (drop_id (ev_event_id x) t, res')))"
    if "owner_of (ev_dedup_key e) t = Some x" for x res'
    using assms that by (intro merge_or_insert_uniq) (auto simp: uniq_drop_id owner_of_drop)
  moreover have "owner_of (ev_dedup_key e) t = row_at (ev_event_id e) t"
    if "owner_of (ev_dedup_key e) t = Some x" "ev_event_id x = ev_event_id e" for x
  proof -
    have "x \<in> set t" using that(1) assms by (simp add: owner_of_Some_iff)
    with that(2) assms have "row_at (ev_event_id e) t = Some x" by (simp add: row_at_Some_iff)
    with that(1) show ?thesis by simp
  qed
  ultimately show ?thesis
    using assms by (auto simp: spec_step_def uniq_drop_id intro!: merge_or_insert_uniq
        split: option.split)
qed

definition loses_to :: "event \<Rightarrow> event_row \<Rightarrow> bool" where
  "loses_to e r \<longleftrightarrow> ev_dedup_key r = ev_dedup_key e \<and> ev_dedup_key e \<noteq> [] \<and>
     ev_event_id r \<noteq> ev_event_id e"

lemma set_merge_or_insert:
  assumes "ev.uniq t"
  shows "set (fst (spec_merge_or_insert origin recv e (t, res))) =
    (\<lambda>r. if ev_event_id r = ev_event_id e then merge_row origin e r else r) ` set t \<union>
    (if row_at (ev_event_id e) t = None then {row_of e origin recv} else {})"
proof (cases "row_at (ev_event_id e) t")
  case None
  then have "(\<lambda>r. if ev_event_id r = ev_event_id e then merge_row origin e r else r) ` set t = set t"
    by (auto simp: row_at_None_iff)
  with None show ?thesis by (simp add: spec_merge_or_insert_def)
qed (simp add: spec_merge_or_insert_def set_at_id)

lemma spec_step_rows:
  assumes u: "ev.uniq t" and i: "ev_event_id e \<noteq> []"
  obtains (copy) x where "x \<in> set t" "copy_of e x"
      "set (fst (spec_step origin recv e (t, res))) = {r \<in> set t. ev_event_id r \<noteq> ev_event_id e}"
    | (kept) "\<forall>x\<in>set t. \<not> copy_of e x"
      "set (fst (spec_step origin recv e (t, res))) =
        (\<lambda>r. if ev_event_id r = ev_event_id e then merge_row origin e r else r) `
          {r \<in> set t. \<not> loses_to e r} \<union>
        (if row_at (ev_event_id e) t = None then {row_of e origin recv} else {})"
proof (cases "owner_of (ev_dedup_key e) t")
  case None
  have all: "{r \<in> set t. \<not> loses_to e r} = set t" and nc: "\<forall>x\<in>set t. \<not> copy_of e x"
    using None by (auto simp: owner_of_None_iff loses_to_def copy_of_def)
  have step: "spec_step origin recv e (t, res) = spec_merge_or_insert origin recv e (t, res)"
    using None i by (simp add: spec_step_def)
  show ?thesis
    by (rule kept [OF nc]) (simp only: step all set_merge_or_insert [OF u])
next
  case (Some x)
  then have x: "x \<in> set t" "ev_dedup_key x = ev_dedup_key e" "ev_dedup_key e \<noteq> []"
    using u by (simp_all add: owner_of_Some_iff)
  have only: "r = x" if "r \<in> set t" "ev_dedup_key r = ev_dedup_key e" for r
    by (rule uniq_keys [OF u that(1) x(1)]) (use that x in simp_all)
  show ?thesis
  proof (cases "is_copy e (ev_event_id x) (ev_ts x)")
    case True
    have "fst (spec_step origin recv e (t, res)) = drop_id (ev_event_id e) t"
      using True Some i by (simp add: spec_step_def)
    moreover have "copy_of e x" using True x by (simp add: copy_of_def)
    ultimately show ?thesis using copy [OF x(1)] by (simp add: set_drop_id)
  next
    case False
    have nc: "\<forall>r\<in>set t. \<not> copy_of e r" using only False by (auto simp: copy_of_def)
    show ?thesis
    proof (cases "ev_event_id x = ev_event_id e")
      case True
      have all: "{r \<in> set t. \<not> loses_to e r} = set t" using only True by (auto simp: loses_to_def)
      have step: "spec_step origin recv e (t, res) = spec_merge_or_insert origin recv e (t, res)"
        using Some False True i by (simp add: spec_step_def)
      show ?thesis
        by (rule kept [OF nc]) (simp only: step all set_merge_or_insert [OF u])
    next
      case ne: False
      have same: "r = x" if "r \<in> set t" "ev_event_id r = ev_event_id x" for r
        by (rule uniq_ids [OF u that(1) x(1) that(2)])
      have all: "{r \<in> set t. \<not> loses_to e r} = set (drop_id (ev_event_id x) t)"
      proof -
        have "loses_to e r \<longleftrightarrow> ev_event_id r = ev_event_id x" if "r \<in> set t" for r
          using only [OF that] same [OF that] x ne unfolding loses_to_def by blast
        then show ?thesis by (auto simp: set_drop_id)
      qed
      have at: "row_at (ev_event_id e) (drop_id (ev_event_id x) t) = row_at (ev_event_id e) t"
        by (rule row_at_drop) (use ne in simp)
      have step: "spec_step origin recv e (t, res) = spec_merge_or_insert origin recv e
          (drop_id (ev_event_id x) t, res\<lparr>er_deduped := er_deduped res + 1\<rparr>)"
        using Some False ne i by (simp add: spec_step_def)
      show ?thesis
        by (rule kept [OF nc]) (simp only: step all at set_merge_or_insert [OF uniq_drop_id [OF u]])
    qed
  qed
qed

lemma spec_step_empty_id: "ev_event_id e = [] \<Longrightarrow> spec_step origin recv e s = s"
  by (cases s) (simp add: spec_step_def)

lemma spec_step_table_ok:
  assumes ok: "table_ok stamp t" and s: "stamped stamp e"
  shows "table_ok stamp (fst (spec_step origin recv e (t, res)))"
proof (cases "ev_event_id e = []")
  case True
  with ok show ?thesis by (simp add: spec_step_empty_id)
next
  case False
  have u: "ev.uniq t" and rs: "\<And>r. r \<in> set t \<Longrightarrow> row_stamped stamp r"
    using ok by (auto simp: table_ok_def)
  have "\<forall>r\<in>set (fst (spec_step origin recv e (t, res))). row_stamped stamp r"
    by (cases rule: spec_step_rows [OF u False, of origin recv res])
      (auto simp: rs merge_row_stamped [OF s] row_of_stamped [OF s] split: if_splits)
  with spec_step_uniq [OF u] show ?thesis by (simp add: table_ok_def)
qed

lemma is_copy_trans:
  assumes "is_copy e' i ts" "\<not> is_copy e i ts" "ev_event_id e \<noteq> i" "ev_event_id e' \<noteq> ev_event_id e"
  shows "is_copy e' (ev_event_id e) (ev_ts e)"
  using assms unfolding is_copy_def by (metis (no_types) less_trans linorder_neqE)

lemma stamped_key_row:
  assumes "stamped stamp e" "row_stamped stamp r" "ev_event_id r = ev_event_id e"
    "ev_dedup_key e \<noteq> []"
  shows "ev_ts r = ev_ts e" "ev_dedup_key r \<in> {[], ev_dedup_key e}"
  using assms by (auto simp: stamped_def row_stamped_def)

lemma stamped_same_id:
  assumes "stamped stamp e" "stamped stamp e'" "ev_event_id e' = ev_event_id e"
  shows "ev_dedup_key e' = ev_dedup_key e" "ev_dedup_key e \<noteq> [] \<Longrightarrow> ev_ts e' = ev_ts e"
  using assms by (auto simp: stamped_def)

lemma stamped_owner:
  assumes "stamped stamp e" "row_stamped stamp r" "ev_event_id r = ev_event_id e"
    "ev_dedup_key r \<noteq> []"
  shows "ev_dedup_key e = ev_dedup_key r" "ev_ts r = ev_ts e"
  using assms by (auto simp: stamped_def row_stamped_def)

lemma copy_of_same_id:
  assumes "stamped stamp e" "stamped stamp e'" "ev_event_id e' = ev_event_id e" "copy_of e r"
  shows "copy_of e' r"
  using stamped_same_id [OF assms(1-3)] assms(3,4) by (simp add: copy_of_def is_copy_def)

text \<open>After a step that keeps the event, its row is there, with its key and its timestamp.\<close>

lemma kept_own_row:
  assumes "table_ok stamp t" "stamped stamp e" "ev_dedup_key e \<noteq> []"
    and "T' = (\<lambda>r. if ev_event_id r = ev_event_id e then merge_row origin e r else r) `
          {r \<in> set t. \<not> loses_to e r} \<union>
        (if row_at (ev_event_id e) t = None then {row_of e origin recv} else {})"
  shows "\<exists>x\<in>T'. ev_event_id x = ev_event_id e \<and> ev_ts x = ev_ts e \<and> ev_dedup_key x = ev_dedup_key e"
proof (cases "row_at (ev_event_id e) t")
  case None
  then show ?thesis unfolding assms(4) by auto
next
  case (Some r)
  have u: "ev.uniq t" and rs: "\<And>r. r \<in> set t \<Longrightarrow> row_stamped stamp r"
    using assms(1) by (auto simp: table_ok_def)
  from Some u have r: "r \<in> set t" "ev_event_id r = ev_event_id e" by (simp_all add: row_at_Some_iff)
  have "merge_row origin e r \<in> T'"
    unfolding assms(4) using r by (auto simp: loses_to_def)
  moreover have "ev_ts r = ev_ts e" "ev_dedup_key r \<in> {[], ev_dedup_key e}"
    using stamped_key_row [OF assms(2) rs [OF r(1)] r(2) assms(3)] by auto
  ultimately show ?thesis
    using r by (intro bexI [of _ "merge_row origin e r"]) (auto simp: fill_text_def)
qed

lemma located_step:
  assumes ok: "table_ok stamp t" and s: "stamped stamp e" and s': "stamped stamp e'"
    and l: "located Q t e'" and mono: "\<And>r. Q r \<Longrightarrow> Q (merge_row origin e r)"
  shows "located Q (fst (spec_step origin recv e (t, res))) e'"
proof (cases "ev_event_id e = []")
  case True
  with l show ?thesis by (simp add: spec_step_empty_id)
next
  case i: False
  have u: "ev.uniq t" and rs: "\<And>r. r \<in> set t \<Longrightarrow> row_stamped stamp r"
    using ok by (auto simp: table_ok_def)
  let ?t' = "fst (spec_step origin recv e (t, res))"
  from l consider (here) r where "r \<in> set t" "ev_event_id r = ev_event_id e'" "Q r"
    | (gone) x where "\<forall>r\<in>set t. ev_event_id r \<noteq> ev_event_id e'" "x \<in> set t" "copy_of e' x"
    by (auto simp: located_def row_at_None_iff)
  then show ?thesis
  proof cases
    case here
    show ?thesis
    proof (cases rule: spec_step_rows [OF u i, of origin recv res, case_names copy kept])
      case (copy x)
      show ?thesis
      proof (cases "ev_event_id e' = ev_event_id e")
        case True
        have "copy_of e' x" by (rule copy_of_same_id [OF s s' True copy(2)])
        with copy True show ?thesis
          by (auto simp: located_def row_at_None_iff copy_of_def is_copy_def)
      next
        case False
        with copy here show ?thesis by (auto simp: located_def)
      qed
    next
      case kept
      show ?thesis
      proof (cases "loses_to e r")
        case False
        with here have "(if ev_event_id r = ev_event_id e then merge_row origin e r else r) \<in> set ?t'"
          unfolding kept(2) by blast
        with here mono [of r] show ?thesis unfolding located_def by (auto split: if_splits)
      next
        case lost: True
        then have k: "ev_dedup_key r = ev_dedup_key e" "ev_dedup_key e \<noteq> []" and ne: "ev_event_id r \<noteq> ev_event_id e"
          by (auto simp: loses_to_def)
        have so: "ev_dedup_key e' = ev_dedup_key r" "ev_ts r = ev_ts e'"
          using stamped_owner [OF s' rs [OF here(1)] here(2)] k by auto
        obtain x where x: "x \<in> set ?t'" "ev_event_id x = ev_event_id e" "ev_ts x = ev_ts e"
          "ev_dedup_key x = ev_dedup_key e"
          using kept_own_row [OF ok s k(2) kept(2)] by auto
        have "\<not> is_copy e (ev_event_id r) (ev_ts r)"
          using kept(1) here(1) k by (auto simp: copy_of_def)
        with ne have "is_copy e' (ev_event_id e) (ev_ts e)"
          using so here(2) unfolding is_copy_def by auto
        then have "copy_of e' x" using x so k by (simp add: copy_of_def)
        moreover have "\<forall>y\<in>set ?t'. ev_event_id y \<noteq> ev_event_id e'"
        proof
          fix y assume "y \<in> set ?t'"
          then consider z where "z \<in> set t" "\<not> loses_to e z" "ev_event_id y = ev_event_id z"
            | "ev_event_id y = ev_event_id e"
            unfolding kept(2) by (auto split: if_splits)
          then show "ev_event_id y \<noteq> ev_event_id e'"
          proof cases
            case 1
            then show ?thesis using uniq_ids [OF u 1(1) here(1)] lost here(2) by auto
          qed (use ne here(2) in simp)
        qed
        ultimately show ?thesis using x(1) unfolding located_def row_at_None_iff by blast
      qed
    qed
  next
    case gone
    have k': "ev_dedup_key x = ev_dedup_key e'" "ev_dedup_key e' \<noteq> []" "ev_event_id x \<noteq> ev_event_id e'"
      and cp: "is_copy e' (ev_event_id x) (ev_ts x)"
      using gone(3) by (auto simp: copy_of_def is_copy_def)
    show ?thesis
    proof (cases rule: spec_step_rows [OF u i, of origin recv res, case_names copy kept])
      case (copy y)
      have "ev_event_id x \<noteq> ev_event_id e"
      proof
        assume eq: "ev_event_id x = ev_event_id e"
        then have "ev_dedup_key e = ev_dedup_key x"
          using stamped_owner [OF s rs [OF gone(2)]] k' by simp
        with copy(1,2) gone(2) u k' have "y = x" by (intro uniq_keys) (auto simp: copy_of_def)
        with copy(2) eq show False by (simp add: copy_of_def is_copy_def)
      qed
      with copy gone show ?thesis by (auto simp: located_def row_at_None_iff)
    next
      case kept
      have ne: "ev_event_id e \<noteq> ev_event_id e'"
      proof
        assume "ev_event_id e = ev_event_id e'"
        then have "copy_of e x" by (intro copy_of_same_id [OF s' s]) (simp_all add: gone(3))
        with kept(1) gone(2) show False by blast
      qed
      have absent: "row_at (ev_event_id e') ?t' = None"
        unfolding row_at_None_iff kept(2) using gone(1) ne by (auto split: if_splits)
      show ?thesis
      proof (cases "loses_to e x")
        case False
        let ?x = "if ev_event_id x = ev_event_id e then merge_row origin e x else x"
        have "?x \<in> set ?t'" unfolding kept(2) using gone(2) False by blast
        moreover have "copy_of e' ?x" using gone(3) k' by (auto simp: copy_of_def)
        ultimately show ?thesis using absent unfolding located_def by blast
      next
        case True
        then have k: "ev_dedup_key x = ev_dedup_key e" "ev_dedup_key e \<noteq> []" "ev_event_id x \<noteq> ev_event_id e"
          by (auto simp: loses_to_def)
        obtain z where z: "z \<in> set ?t'" "ev_event_id z = ev_event_id e" "ev_ts z = ev_ts e"
          "ev_dedup_key z = ev_dedup_key e"
          using kept_own_row [OF ok s k(2) kept(2)] by auto
        have "\<not> is_copy e (ev_event_id x) (ev_ts x)"
          using kept(1) gone(2) k by (auto simp: copy_of_def)
        with cp k(3) ne have "is_copy e' (ev_event_id e) (ev_ts e)"
          by (intro is_copy_trans [of e' "ev_event_id x" "ev_ts x" e]) auto
        then have "copy_of e' z" using z k k' by (simp add: copy_of_def)
        with z(1) absent show ?thesis unfolding located_def by blast
      qed
    qed
  qed
qed

end
