(* ===== verification/Event_Store_Batch.thy ===== *)
theory Event_Store_Batch
  imports Event_Store_Facts
begin

text \<open>
  Batches and histories of batches: the whole of \<open>insertEventsFromTx\<close> refines the iterated
  specification; re-delivery is absorbed; which events survive; what never changes.
\<close>

section \<open>A batch refines the iterated specification\<close>

fun spec_run :: "string \<Rightarrow> int \<Rightarrow> event list \<Rightarrow> event_row list \<times> eventApplyResult \<Rightarrow>
    event_row list \<times> eventApplyResult" where
  "spec_run origin recv [] s = s"
| "spec_run origin recv (e # es) s = spec_run origin recv es (spec_step origin recv e s)"

lemma spec_run_append:
  "spec_run origin recv (es @ fs) s = spec_run origin recv fs (spec_run origin recv es s)"
  by (induction es arbitrary: s) auto

lemma spec_run_table_ok:
  "table_ok stamp (fst s) \<Longrightarrow> \<forall>e\<in>set es. stamped stamp e \<Longrightarrow>
     table_ok stamp (fst (spec_run origin recv es s))"
proof (induction es arbitrary: s)
  case (Cons e es)
  have "table_ok stamp (fst (spec_step origin recv e s))"
    using spec_step_table_ok [of stamp "fst s" e origin recv "snd s"] Cons.prems by simp
  with Cons show ?case by simp
qed simp

lemma spec_run_located:
  assumes "table_ok stamp (fst s)" "\<forall>e\<in>set es. stamped stamp e" "stamped stamp e'"
    and "located Q (fst s) e'" "\<And>e r. Q r \<Longrightarrow> Q (merge_row origin e r)"
  shows "located Q (fst (spec_run origin recv es s)) e'"
  using assms(1,2,4)
proof (induction es arbitrary: s)
  case (Cons e es)
  have "table_ok stamp (fst (spec_step origin recv e s))"
    using spec_step_table_ok [of stamp "fst s" e origin recv "snd s"] Cons.prems by simp
  moreover have "located Q (fst (spec_step origin recv e s)) e'"
    using located_step [of stamp "fst s" e e' Q origin recv "snd s"] Cons.prems assms(3,5) by simp
  ultimately show ?case using Cons by simp
qed simp

lemma prior_ok_step:
  assumes "table_ok stamp t" "stamped stamp e" "stamped stamp e'" "prior_ok prior t e'"
  shows "prior_ok prior (fst (spec_step origin recv e (t, res))) e'"
proof (cases "ev_event_id e' = [] \<or> prior (ev_event_id e') = None")
  case False
  then obtain p where "ev_event_id e' \<noteq> []" "prior (ev_event_id e') = Some p" by auto
  with assms(4) show ?thesis
    using located_step [OF assms(1-3), of "advances p" origin recv res] advances_merge
    by (simp add: prior_ok_def)
qed (auto simp: prior_ok_def)

lemma apply_events_spec:
  assumes "table_ok stamp t" "\<forall>e\<in>set es. stamped stamp e" "\<forall>e\<in>set es. prior_ok prior t e"
  shows "apply_events origin recv prior es (t, res) = Some (spec_run origin recv es (t, res))"
  using assms
proof (induction es arbitrary: t res)
  case (Cons e es)
  let ?s = "spec_step origin recv e (t, res)"
  have step: "apply_event origin recv prior e (t, res) = Some ?s"
    using Cons.prems by (intro apply_event_spec) (auto simp: table_ok_def)
  have "table_ok stamp (fst ?s)" using Cons.prems by (intro spec_step_table_ok) auto
  moreover have "\<forall>x\<in>set es. prior_ok prior (fst ?s) x"
    using Cons.prems prior_ok_step [of stamp t e] by auto
  ultimately have "apply_events origin recv prior es (fst ?s, snd ?s) =
      Some (spec_run origin recv es (fst ?s, snd ?s))"
    using Cons.prems by (intro Cons.IH) auto
  with step show ?case by simp
qed simp

lemma loadPrior_ok: "prior_ok (loadPriorEventState t es) t e"
proof (cases "loadPriorEventState t es (ev_event_id e)")
  case (Some p)
  then have "(ev_event_id e, p) \<in> set (map (\<lambda>r. (ev_event_id r, prior_of r))
      (concat (map (\<lambda>part. filter (\<lambda>r. ev_event_id r \<in> set part) t)
        (chunks_of 500 (first_by (\<lambda>i. i) [] (filter (\<lambda>i. i \<noteq> []) (map ev_event_id es)))))))"
    unfolding loadPriorEventState_def Let_def by (rule map_of_SomeD)
  then obtain r where "r \<in> set t" "ev_event_id r = ev_event_id e" "p = prior_of r" by auto
  then have "located (advances p) t e" using advances_refl by (auto simp: located_def)
  with Some show ?thesis by (simp add: prior_ok_def)
qed (simp add: prior_ok_def)

theorem insertEventsFromTx_spec:
  assumes "table_ok stamp t" "\<forall>e\<in>set es. stamped stamp e"
  shows "insertEventsFromTx t es recv origin = Some (spec_run origin recv es (t, zeroApplyResult))"
  unfolding insertEventsFromTx_def by (rule apply_events_spec [OF assms]) (simp add: loadPrior_ok)

theorem unprobed_spec:
  assumes "table_ok stamp t" "\<forall>e\<in>set es. stamped stamp e"
  shows "apply_events origin recv (\<lambda>_. None) es (t, res) = Some (spec_run origin recv es (t, res))"
  by (rule apply_events_spec [OF assms]) (simp add: prior_ok_def)

section \<open>Re-delivery\<close>

definition quiet :: "string \<Rightarrow> event \<Rightarrow> event_row \<Rightarrow> bool" where
  "quiet origin e r \<longleftrightarrow> \<not> g_fill e r \<and> \<not> g_rank e r \<and> \<not> g_attr origin e r"

lemma quiet_rank:
  assumes "quiet origin e r" shows "quiet origin e (m_rank e' r)"
proof -
  have "\<not> g_rank e (m_rank e' r)"
  proof
    assume "g_rank e (m_rank e' r)"
    then have "g_rank e r" by (simp add: g_rank_def m_rank_def split: if_splits)
    with assms show False by (simp add: quiet_def)
  qed
  with assms show ?thesis
    unfolding quiet_def g_fill_def by (simp add: m_rank_def guard_defs)
qed

lemma quiet_pieces:
  assumes "quiet origin e r"
  shows "quiet origin e (m_key e' r)" "quiet origin e (m_attr origin' e' r)"
    "quiet origin e (m_num e' r)" "quiet origin e (m_text e' r)"
    "quiet origin e (m_promote e' r)" "quiet origin e (m_dur e' r)"
  using assms unfolding quiet_def g_fill_def
  by (simp_all add: m_defs guard_defs fill_text_def fill_num_def)

lemma quiet_merge: "quiet origin e r \<Longrightarrow> quiet origin e (merge_row origin' e' r)"
  unfolding merge_row_pieces by (intro quiet_pieces quiet_rank)

lemma quiet_own_merge: "quiet origin e (merge_row origin e r)"
proof -
  have "\<not> g_key e (merge_row origin e r)" "\<not> g_rank e (merge_row origin e r)"
    by (simp_all add: merge_row_def g_key_def g_rank_def)
  moreover have "\<not> g_attr origin e (merge_row origin e r)"
    by (simp add: merge_row_def g_attr_def OriginSelf_def OriginObserved_def)
  moreover have "\<not> g_num e (merge_row origin e r)"
    by (simp add: merge_row_def g_num_def fill_num_def)
  moreover have "\<not> g_text e (merge_row origin e r)"
    by (simp add: merge_row_def g_text_def textFillNeeded_def prior_of_def)
  moreover have "\<not> g_promote e (merge_row origin e r)" "\<not> g_dur e (merge_row origin e r)"
    by (simp_all add: merge_row_def g_promote_def g_dur_def)
  ultimately show ?thesis by (simp add: quiet_def g_fill_def)
qed

lemma quiet_row_of: "quiet origin e (row_of e origin recv)"
  unfolding quiet_def g_fill_def by (simp add: row_of_def guard_defs)

lemma quiet_noop:
  assumes "quiet origin e r" shows "merge_row origin e r = r"
proof -
  have "m_key e r = r" using assms
    by (cases "ev_dedup_key e = []") (simp_all add: quiet_def g_fill_def g_key_def m_key_def)
  moreover have "m_rank e r = r" "m_attr origin e r = r" "m_promote e r = r" "m_dur e r = r"
    using assms by (simp_all add: quiet_def g_fill_def m_defs)
  moreover have "m_num e r = r"
    using assms by (simp add: quiet_def g_fill_def m_num_def g_num_def fill_num_def)
  moreover have "m_text e r = r"
    using assms by (intro m_text_noop) (simp add: quiet_def g_fill_def)
  ultimately show ?thesis by (simp add: merge_row_pieces)
qed

lemma settled_noop:
  assumes ok: "table_ok stamp t" and s: "stamped stamp e" and l: "located (quiet origin e) t e"
  shows "spec_step origin recv e (t, res) = (t, res)"
proof (cases "ev_event_id e = []")
  case False
  have u: "ev.uniq t" and rs: "\<And>r. r \<in> set t \<Longrightarrow> row_stamped stamp r"
    using ok by (auto simp: table_ok_def)
  from l consider (here) r where "r \<in> set t" "ev_event_id r = ev_event_id e" "quiet origin e r"
    | (gone) x where "row_at (ev_event_id e) t = None" "x \<in> set t" "copy_of e x"
    by (auto simp: located_def)
  then show ?thesis
  proof cases
    case here
    have at: "row_at (ev_event_id e) t = Some r" using here u by (simp add: row_at_Some_iff)
    have own: "owner_of (ev_dedup_key e) t \<in> {None, Some r}"
    proof (cases "ev_dedup_key e = []")
      case k: False
      then have "ev_dedup_key r = ev_dedup_key e"
        using stamped_key_row(2) [OF s rs [OF here(1)] here(2) k] here(3)
        by (auto simp: quiet_def g_fill_def g_key_def)
      with here(1) k u show ?thesis by (simp add: owner_of_Some_iff)
    qed (simp add: owner_of_def)
    have "at_id (ev_event_id e) (merge_row origin e) t = t"
      using uniq_ids [OF u _ here(1)] here(2,3) quiet_noop
      by (auto simp: at_id_def intro!: map_idI)
    moreover have "note_merge origin e (Some r) res = res"
      using here(3) by (simp add: note_merge_def quiet_def)
    ultimately have "spec_merge_or_insert origin recv e (t, res) = (t, res)"
      by (simp add: spec_merge_or_insert_def at)
    with own False here(2) show ?thesis by (auto simp: spec_step_def is_copy_def)
  next
    case gone
    then have "owner_of (ev_dedup_key e) t = Some x" using u by (simp add: copy_of_def owner_of_Some_iff)
    with gone False show ?thesis by (simp add: spec_step_def copy_of_def drop_id_none)
  qed
qed (simp add: spec_step_empty_id)

definition settled :: "string \<Rightarrow> event_row list \<Rightarrow> event \<Rightarrow> bool" where
  "settled origin t e \<longleftrightarrow> ev_event_id e = [] \<or> located (quiet origin e) t e"

lemma settled_after_step:
  assumes ok: "table_ok stamp t"
  shows "settled origin (fst (spec_step origin recv e (t, res))) e"
proof (cases "ev_event_id e = []")
  case False
  have u: "ev.uniq t" using ok by (simp add: table_ok_def)
  show ?thesis
  proof (cases rule: spec_step_rows [OF u False, of origin recv res, case_names copy kept])
    case (copy x)
    then show ?thesis
      by (auto simp: settled_def located_def row_at_None_iff copy_of_def is_copy_def)
  next
    case kept
    show ?thesis
    proof (cases "row_at (ev_event_id e) t")
      case None
      then have "row_of e origin recv \<in> set (fst (spec_step origin recv e (t, res)))"
        using kept(2) by auto
      then show ?thesis
        using quiet_row_of by (force simp: settled_def located_def)
    next
      case (Some r)
      then have r: "r \<in> set t" "ev_event_id r = ev_event_id e" using u by (simp_all add: row_at_Some_iff)
      then have "merge_row origin e r \<in> set (fst (spec_step origin recv e (t, res)))"
        unfolding kept(2) by (auto simp: loses_to_def)
      then show ?thesis
        using quiet_own_merge r by (force simp: settled_def located_def)
    qed
  qed
qed (simp add: settled_def)

lemma settled_spec_run:
  assumes "table_ok stamp (fst s)" "\<forall>e\<in>set es. stamped stamp e" "stamped stamp e'"
    and "settled origin' (fst s) e'"
  shows "settled origin' (fst (spec_run origin recv es s)) e'"
  using assms(4) spec_run_located [OF assms(1-3)] quiet_merge by (auto simp: settled_def)

lemma spec_run_settles:
  "table_ok stamp (fst s) \<Longrightarrow> \<forall>e\<in>set es. stamped stamp e \<Longrightarrow>
     \<forall>e\<in>set es. settled origin (fst (spec_run origin recv es s)) e"
proof (induction es arbitrary: s)
  case (Cons e es)
  let ?s = "spec_step origin recv e s"
  have ok: "table_ok stamp (fst ?s)"
    using spec_step_table_ok [of stamp "fst s" e origin recv "snd s"] Cons.prems by simp
  have "settled origin (fst ?s) e"
    using settled_after_step [of stamp "fst s" origin recv e "snd s"] Cons.prems by simp
  with ok Cons.prems have "settled origin (fst (spec_run origin recv es ?s)) e"
    by (intro settled_spec_run) auto
  with Cons.IH [OF ok] Cons.prems show ?case by simp
qed simp

lemma spec_run_noop:
  "table_ok stamp (fst s) \<Longrightarrow> \<forall>e\<in>set es. stamped stamp e \<Longrightarrow>
     \<forall>e\<in>set es. settled origin (fst s) e \<Longrightarrow> spec_run origin recv es s = s"
proof (induction es arbitrary: s)
  case (Cons e es)
  have "spec_step origin recv e s = s"
  proof (cases "ev_event_id e = []")
    case False
    with Cons.prems settled_noop [of stamp "fst s" e origin recv "snd s"] show ?thesis
      by (simp add: settled_def)
  qed (simp add: spec_step_empty_id)
  with Cons show ?case by simp
qed simp

section \<open>Which events survive\<close>

definition beats :: "(string \<Rightarrow> string \<times> int) \<Rightarrow> string \<Rightarrow> string \<Rightarrow> bool" where
  "beats stamp i j \<longleftrightarrow> fst (stamp i) = fst (stamp j) \<and>
     (snd (stamp i) < snd (stamp j) \<or> (snd (stamp i) = snd (stamp j) \<and> i < j))"

definition survivors :: "(string \<Rightarrow> string \<times> int) \<Rightarrow> string set \<Rightarrow> string set" where
  "survivors stamp ids = {i \<in> ids. fst (stamp i) = [] \<or> (\<forall>j\<in>ids. \<not> beats stamp j i)}"

lemma beats_trans: "beats stamp i j \<Longrightarrow> beats stamp j k \<Longrightarrow> beats stamp i k"
  unfolding beats_def by (auto intro: less_trans)

lemma beats_irrefl: "\<not> beats stamp i i"
  by (simp add: beats_def)

lemma beats_total:
  "fst (stamp i) = fst (stamp j) \<Longrightarrow> i \<noteq> j \<Longrightarrow> beats stamp i j \<or> beats stamp j i"
  unfolding beats_def using linorder_less_linear [of "snd (stamp i)" "snd (stamp j)"]
    linorder_less_linear [of i j] by auto

lemma best_exists:
  "finite ids \<Longrightarrow> j \<in> ids \<Longrightarrow>
     \<exists>m\<in>ids. (m = j \<or> beats stamp m j) \<and> (\<forall>k\<in>ids. \<not> beats stamp k m)"
proof (induction ids arbitrary: j rule: finite_induct)
  case (insert x ids)
  consider (other) m where "m \<in> ids" "m = j \<or> beats stamp m j" "\<forall>k\<in>ids. \<not> beats stamp k m"
    | (new) "j = x" "\<forall>k\<in>ids. \<not> beats stamp k x"
  proof (cases "\<exists>k\<in>ids. k = j \<or> j = x \<and> beats stamp k x")
    case True
    then obtain k where k: "k \<in> ids" "k = j \<or> j = x \<and> beats stamp k x" by blast
    from insert.IH [OF k(1)] obtain m where "m \<in> ids" "m = k \<or> beats stamp m k"
      "\<forall>i\<in>ids. \<not> beats stamp i m" by blast
    with k(2) beats_trans [of stamp m k x] other show ?thesis by blast
  qed (use insert.prems new in blast)
  then show ?case
  proof cases
    case other
    show ?thesis
    proof (cases "beats stamp x m")
      case True
      with other have "x = j \<or> beats stamp x j" by (blast intro: beats_trans)
      moreover have "\<forall>k\<in>insert x ids. \<not> beats stamp k x"
        using other(3) True beats_irrefl by (blast intro: beats_trans)
      ultimately show ?thesis by blast
    qed (use other in blast)
  qed (use beats_irrefl in blast)
qed simp

definition surv_inv :: "(string \<Rightarrow> string \<times> int) \<Rightarrow> string set \<Rightarrow> event_row list \<Rightarrow> bool" where
  "surv_inv stamp ids t \<longleftrightarrow> finite ids \<and> table_ok stamp t \<and>
     (\<forall>r\<in>set t. ev_dedup_key r = fst (stamp (ev_event_id r))) \<and>
     ev_event_id ` set t = survivors stamp ids"

lemma surv_inv_empty: "surv_inv stamp {} []"
  by (simp add: surv_inv_def table_ok_def survivors_def)

lemma copy_beats:
  assumes "stamped stamp e" "row_stamped stamp x" "copy_of e x"
  shows "beats stamp (ev_event_id x) (ev_event_id e)"
  using assms by (auto simp: stamped_def row_stamped_def copy_of_def is_copy_def beats_def)

lemma beats_copy:
  assumes "stamped stamp e" "row_stamped stamp x" "ev_dedup_key x = fst (stamp (ev_event_id x))"
    and "ev_dedup_key e \<noteq> []" "beats stamp (ev_event_id x) (ev_event_id e)"
  shows "copy_of e x"
  using assms by (auto simp: stamped_def row_stamped_def copy_of_def is_copy_def beats_def)

lemma survivors_insert_beaten:
  assumes "b \<in> ids" "beats stamp b i" "fst (stamp i) \<noteq> []"
  shows "survivors stamp (insert i ids) = survivors stamp ids - {i}"
proof -
  have "beats stamp b j" if "beats stamp i j" for j using assms(2) that by (rule beats_trans)
  with assms show ?thesis by (auto simp: survivors_def)
qed

lemma survivors_insert_best:
  assumes "fst (stamp i) = [] \<or> (\<forall>b\<in>ids. \<not> beats stamp b i)"
  shows "survivors stamp (insert i ids) =
    insert i {j \<in> survivors stamp ids. fst (stamp j) = [] \<or> \<not> beats stamp i j}"
  using assms beats_irrefl by (auto simp: survivors_def)

lemma surv_inv_step:
  assumes inv: "surv_inv stamp ids t" and s: "stamped stamp e" and i: "ev_event_id e \<noteq> []"
  shows "surv_inv stamp (insert (ev_event_id e) ids) (fst (spec_step origin recv e (t, res)))"
proof -
  let ?t' = "fst (spec_step origin recv e (t, res))" and ?i = "ev_event_id e"
  have ok: "table_ok stamp t" and fin: "finite ids" and ids: "ev_event_id ` set t = survivors stamp ids"
    and key: "\<And>r. r \<in> set t \<Longrightarrow> ev_dedup_key r = fst (stamp (ev_event_id r))"
    using inv by (auto simp: surv_inv_def)
  have u: "ev.uniq t" and rs: "\<And>r. r \<in> set t \<Longrightarrow> row_stamped stamp r"
    using ok by (auto simp: table_ok_def)
  have ke: "ev_dedup_key e = fst (stamp ?i)" using s by (simp add: stamped_def)
  have "(\<forall>r\<in>set ?t'. ev_dedup_key r = fst (stamp (ev_event_id r))) \<and>
      ev_event_id ` set ?t' = survivors stamp (insert ?i ids)"
  proof (cases rule: spec_step_rows [OF u i, of origin recv res, case_names copy kept])
    case (copy x)
    have "beats stamp (ev_event_id x) ?i" by (rule copy_beats [OF s rs copy(2)]) (rule copy(1))
    moreover have "ev_event_id x \<in> ids" using ids copy(1) by (auto simp: survivors_def)
    moreover have "fst (stamp ?i) \<noteq> []" using copy(2) ke by (simp add: copy_of_def)
    ultimately have "survivors stamp (insert ?i ids) = ev_event_id ` set t - {?i}"
      unfolding ids by (intro survivors_insert_beaten)
    with copy(3) key show ?thesis by auto
  next
    case kept
    have best: "fst (stamp ?i) = [] \<or> (\<forall>b\<in>ids. \<not> beats stamp b ?i)"
    proof (rule ccontr)
      assume "\<not> ?thesis"
      then obtain b where b: "b \<in> ids" "beats stamp b ?i" "fst (stamp ?i) \<noteq> []" by blast
      from best_exists [OF fin b(1)] obtain m where m: "m \<in> ids" "m = b \<or> beats stamp m b"
        "\<forall>k\<in>ids. \<not> beats stamp k m" by blast
      then have "m \<in> survivors stamp ids" by (simp add: survivors_def)
      then obtain r where r: "r \<in> set t" "ev_event_id r = m" using ids by (metis imageE)
      have "beats stamp m ?i" using m(2) b(2) beats_trans by blast
      with r have "copy_of e r"
        by (intro beats_copy [OF s rs [OF r(1)] key [OF r(1)]]) (use b(3) ke in simp_all)
      with kept(1) r(1) show False by blast
    qed
    have lost: "loses_to e r \<longleftrightarrow> fst (stamp ?i) \<noteq> [] \<and> beats stamp ?i (ev_event_id r)" if "r \<in> set t" for r
    proof
      assume l: "loses_to e r"
      then have "fst (stamp (ev_event_id r)) = fst (stamp ?i)" "fst (stamp ?i) \<noteq> []" "ev_event_id r \<noteq> ?i"
        using key [OF that] ke by (auto simp: loses_to_def)
      moreover have "\<not> beats stamp (ev_event_id r) ?i"
        using best that ids calculation(2) by (auto simp: survivors_def)
      ultimately show "fst (stamp ?i) \<noteq> [] \<and> beats stamp ?i (ev_event_id r)"
        using beats_total by metis
    next
      assume "fst (stamp ?i) \<noteq> [] \<and> beats stamp ?i (ev_event_id r)"
      then have ne: "fst (stamp ?i) \<noteq> []" and b: "beats stamp ?i (ev_event_id r)" by blast+
      have "ev_event_id r \<noteq> ?i" using b beats_irrefl by metis
      moreover have "fst (stamp ?i) = fst (stamp (ev_event_id r))" using b by (simp add: beats_def)
      ultimately show "loses_to e r"
        using ne key [OF that] ke unfolding loses_to_def by presburger
    qed
    have im: "ev_event_id ` set ?t' = insert ?i (ev_event_id ` {r \<in> set t. \<not> loses_to e r})"
    proof -
      have keep: "ev_event_id ` (\<lambda>r. if ev_event_id r = ?i then merge_row origin e r else r) ` A =
          ev_event_id ` A" for A
        unfolding image_image by (rule image_cong) auto
      show ?thesis
      proof (cases "row_at ?i t")
        case None
        then show ?thesis unfolding kept(2) image_Un keep by simp
      next
        case (Some r)
        then have "r \<in> set t" "ev_event_id r = ?i" "\<not> loses_to e r"
          using u by (auto simp: row_at_Some_iff loses_to_def)
        then have "?i \<in> ev_event_id ` {r \<in> set t. \<not> loses_to e r}" by force
        with Some show ?thesis unfolding kept(2) image_Un keep by auto
      qed
    qed
    also have "ev_event_id ` {r \<in> set t. \<not> loses_to e r} =
        {j \<in> ev_event_id ` set t. fst (stamp ?i) = [] \<or> \<not> beats stamp ?i j}"
      using lost by blast
    also have "insert ?i \<dots> = survivors stamp (insert ?i ids)"
    proof -
      have "fst (stamp j) = fst (stamp ?i)" if "beats stamp ?i j" for j
        using that by (simp add: beats_def)
      then have "{j \<in> survivors stamp ids. fst (stamp ?i) = [] \<or> \<not> beats stamp ?i j} =
          {j \<in> survivors stamp ids. fst (stamp j) = [] \<or> \<not> beats stamp ?i j}"
        by (intro Collect_cong conj_cong refl) metis
      then show ?thesis unfolding ids survivors_insert_best [OF best] by (rule arg_cong)
    qed
    finally have ids': "ev_event_id ` set ?t' = survivors stamp (insert ?i ids)" .
    have "\<forall>r\<in>set ?t'. ev_dedup_key r = fst (stamp (ev_event_id r))"
      unfolding kept(2) using key ke by (auto simp: fill_text_def)
    with ids' show ?thesis by blast
  qed
  with fin spec_step_table_ok [OF ok s] show ?thesis by (simp add: surv_inv_def)
qed

lemma surv_inv_run:
  "surv_inv stamp ids (fst s) \<Longrightarrow> \<forall>e\<in>set es. stamped stamp e \<Longrightarrow>
     surv_inv stamp (ids \<union> (ev_event_id ` set es - {[]})) (fst (spec_run origin recv es s))"
proof (induction es arbitrary: s ids)
  case (Cons e es)
  show ?case
  proof (cases "ev_event_id e = []")
    case True
    with Cons show ?thesis by (simp add: spec_step_empty_id)
  next
    case False
    have "surv_inv stamp (insert (ev_event_id e) ids) (fst (spec_step origin recv e s))"
      using surv_inv_step [of stamp ids "fst s" e origin recv "snd s"] Cons.prems False by simp
    from Cons.IH [OF this] Cons.prems False show ?thesis by (simp add: insert_Diff_if)
  qed
qed simp

section \<open>Counters, and what an observation never changes\<close>

lemma drop_id_length:
  "ev.uniq t \<Longrightarrow> length (drop_id i t) + (if row_at i t = None then 0 else 1) = length t"
  using dropCopy_eq [of t i] sql_delete_length [of "\<lambda>r. ev_event_id r = i" t]
  by (simp add: dropCopy_def sql_delete_def)

lemma merge_or_insert_accounting:
  "length (fst (spec_merge_or_insert origin recv e (t, res))) + er_inserted res =
     length t + er_inserted (snd (spec_merge_or_insert origin recv e (t, res))) \<and>
   er_deduped (snd (spec_merge_or_insert origin recv e (t, res))) = er_deduped res"
  by (simp add: spec_merge_or_insert_def at_id_def note_merge_def split: option.split)

lemma spec_step_accounting:
  assumes u: "ev.uniq (fst s)"
  shows "length (fst (spec_step origin recv e s)) + er_deduped (snd (spec_step origin recv e s)) +
           er_inserted (snd s) =
         length (fst s) + er_deduped (snd s) + er_inserted (snd (spec_step origin recv e s))"
proof (cases "owner_of (ev_dedup_key e) (fst s)")
  case None
  with merge_or_insert_accounting [of origin recv e "fst s" "snd s"] show ?thesis
    by (cases s) (auto simp: spec_step_def)
next
  case (Some x)
  then have "row_at (ev_event_id x) (fst s) \<noteq> None"
    using u by (auto simp: owner_of_Some_iff row_at_None_iff)
  with Some drop_id_length [OF u, of "ev_event_id x"] drop_id_length [OF u, of "ev_event_id e"]
    merge_or_insert_accounting [of origin recv e "fst s" "snd s"]
    merge_or_insert_accounting [of origin recv e "drop_id (ev_event_id x) (fst s)"
      "(snd s)\<lparr>er_deduped := er_deduped (snd s) + 1\<rparr>"]
  show ?thesis by (cases s) (auto simp: spec_step_def)
qed

lemma spec_run_accounting:
  "table_ok stamp (fst s) \<Longrightarrow> \<forall>e\<in>set es. stamped stamp e \<Longrightarrow>
     length (fst (spec_run origin recv es s)) + er_deduped (snd (spec_run origin recv es s)) +
       er_inserted (snd s) =
     length (fst s) + er_deduped (snd s) + er_inserted (snd (spec_run origin recv es s))"
proof (induction es arbitrary: s)
  case (Cons e es)
  have "table_ok stamp (fst (spec_step origin recv e s))"
    using spec_step_table_ok [of stamp "fst s" e origin recv "snd s"] Cons.prems by simp
  with Cons.IH [of "spec_step origin recv e s"] Cons.prems
    spec_step_accounting [of s origin recv e]
  show ?case by (simp add: table_ok_def)
qed simp

text \<open>The columns a usage total or an identity is made of.\<close>

definition count_columns :: "'a event_scheme \<Rightarrow>
    string \<times> int \<times> string \<times> string \<times> int \<times> int \<times> int \<times> int \<times> int \<times> int" where
  "count_columns r = (ev_event_id r, ev_ts r, ev_model r, ev_account_label r, ev_input_tokens r,
     ev_output_tokens r, ev_cache_read_tokens r, ev_cache_creation_tokens r,
     ev_cache_1h_tokens r, ev_cache_5m_tokens r)"

lemma count_columns_merge [simp]: "count_columns (merge_row origin e r) = count_columns r"
  by (simp add: count_columns_def merge_row_def)

lemma count_columns_row_of [simp]: "count_columns (row_of e origin recv) = count_columns e"
  by (simp add: count_columns_def row_of_def)

definition as_event :: "(string \<Rightarrow> string \<times> int) \<Rightarrow> event_row \<Rightarrow> event" where
  "as_event stamp r = (event.truncate r)\<lparr>ev_dedup_key := fst (stamp (ev_event_id r))\<rparr>"

lemma as_event_stamped: "row_stamped stamp r \<Longrightarrow> stamped stamp (as_event stamp r)"
  by (auto simp: as_event_def stamped_def row_stamped_def event.defs)

lemma as_event_id [simp]: "ev_event_id (as_event stamp r) = ev_event_id r"
  by (simp add: as_event_def event.defs)

text \<open>A row that is still there after a batch keeps whatever no merge can take away.\<close>

lemma spec_run_keeps:
  assumes ok: "table_ok stamp (fst s)" and es: "\<forall>e\<in>set es. stamped stamp e"
    and r: "r \<in> set (fst s)" "Q r" and mono: "\<And>e r. Q r \<Longrightarrow> Q (merge_row origin e r)"
    and r': "r' \<in> set (fst (spec_run origin recv es s))" "ev_event_id r' = ev_event_id r"
  shows "Q r'"
proof -
  have "row_stamped stamp r" using ok r(1) by (simp add: table_ok_def)
  moreover have "located Q (fst s) (as_event stamp r)" using r by (auto simp: located_def)
  ultimately have "located Q (fst (spec_run origin recv es s)) (as_event stamp r)"
    by (intro spec_run_located [OF ok es]) (auto intro: as_event_stamped mono)
  moreover have "ev.uniq (fst (spec_run origin recv es s))"
    using spec_run_table_ok [OF ok es] by (simp add: table_ok_def)
  ultimately show ?thesis
    using r' located_row [of _ "as_event stamp r" r' Q] by (simp add: row_at_Some_iff)
qed

section \<open>No statement is ever refused\<close>

text \<open>Without any assumption on the identities: the backfill never meets a taken key.\<close>

lemma update_keeps_uniq:
  assumes "ev.uniq t"
    and "\<And>r. ev_event_id (f r) = ev_event_id r" "\<And>r. ev_dedup_key (f r) = ev_dedup_key r"
  shows "ev.uniq (fst (gated g (sql_update P f) t))"
  using assms unfolding gated_def
  by (auto intro!: ev.uniq_map simp: event_conflict_def split: if_splits)

lemma stmts_keep_uniq:
  assumes "ev.uniq t"
  shows "ev.uniq (fst (gated g (reclassify p i k) t))" "ev.uniq (fst (gated g (reattribute d i) t))"
    "ev.uniq (fst (gated g (numFill a b i) t))" "ev.uniq (fst (gated g (textFill v w x y z i) t))"
    "ev.uniq (fst (gated g (promote s i) t))" "ev.uniq (fst (gated g (durFill m i) t))"
  using update_keeps_uniq [OF assms]
  unfolding gated_def reclassify_def reattribute_def numFill_def textFill_def promote_def durFill_def
  by simp_all

definition key_free :: "event \<Rightarrow> event_row list \<Rightarrow> bool" where
  "key_free e t \<longleftrightarrow> (\<forall>x\<in>set t. ev_dedup_key x = ev_dedup_key e \<longrightarrow> ev_event_id x = ev_event_id e)"

lemma keyFill_accepted:
  assumes u: "ev.uniq t" and free: "key_free e t"
  shows "\<exists>t' n. keyFill (ev_dedup_key e) (ev_event_id e) t = Some (t', n) \<and> ev.uniq t'"
proof (cases "row_at (ev_event_id e) t")
  case None
  then show ?thesis using u by (simp add: keyFill_def update_none)
next
  case (Some r)
  then obtain us vs where t: "t = us @ r # vs" and i: "ev_event_id r = ev_event_id e"
    and o: "\<forall>x\<in>set us \<union> set vs. ev_event_id x \<noteq> ev_event_id e"
    using split_at_id [OF u Some] by blast
  let ?r = "if ev_dedup_key r = [] then r\<lparr>ev_dedup_key := ev_dedup_key e\<rparr> else r"
  have "ev.uniq (us @ ?r # vs)"
  proof (rule merge_keeps_uniq)
    show "ev.uniq (us @ r # vs)" using u t by simp
    show "ev_dedup_key ?r = [] \<or> ev_dedup_key ?r = ev_dedup_key r \<or>
        (\<forall>x\<in>set us \<union> set vs. ev_dedup_key x \<noteq> ev_dedup_key ?r)"
      using free o unfolding t key_free_def by auto
  qed simp
  then show ?thesis
    unfolding t by (simp add: keyFill_def update_split [OF o i])
qed

fun batch_accepted :: "(event_row list \<times> eventApplyResult) option \<Rightarrow> bool" where
  "batch_accepted None = False"
| "batch_accepted (Some (t, res)) = ev.uniq t"

lemma accepted_after:
  "ev.uniq (fst x) \<Longrightarrow> (\<And>t n. ev.uniq t \<Longrightarrow> batch_accepted (f t n)) \<Longrightarrow>
     batch_accepted (case x of (t, n) \<Rightarrow> f t n)"
  by (cases x) simp

lemma contribute_accepted:
  assumes u: "ev.uniq t"
    and free: "ev_dedup_key e \<noteq> [] \<Longrightarrow> open_if (\<lambda>p. p_dedup_key p = []) known \<Longrightarrow> key_free e t"
  shows "batch_accepted (contribute origin known e t res)"
proof -
  obtain t1 n1 where 1: "(if ev_dedup_key e \<noteq> [] \<and> open_if (\<lambda>p. p_dedup_key p = []) known
      then keyFill (ev_dedup_key e) (ev_event_id e) t else Some (t, 0)) = Some (t1, n1)" and u1: "ev.uniq t1"
    using keyFill_accepted [OF u] free u by (metis (full_types))
  show ?thesis
    unfolding contribute_def open_if_def [symmetric] Let_def 1 option.case prod.case
    by (intro accepted_after stmts_keep_uniq u1) simp_all
qed

lemma stmt_insert_uniq: "ev.uniq t \<Longrightarrow> ev.uniq (fst (stmt_insert e origin recv t))"
  by (simp add: stmt_insert_def ev.uniq_insert_ignore)

lemma undecided_accepted:
  "ev.uniq t \<Longrightarrow> (\<not> stored \<Longrightarrow> ev_dedup_key e \<noteq> [] \<Longrightarrow> open_if (\<lambda>p. p_dedup_key p = []) known \<Longrightarrow>
     key_free e t) \<Longrightarrow> batch_accepted (undecided origin recv known e t stored res)"
  by (cases stored) (simp_all add: undecided_def contribute_accepted)

lemma decide_accepted:
  assumes u: "ev.uniq t"
  shows "batch_accepted (case owner_of (ev_dedup_key e) t of
            None \<Rightarrow> undecided origin recv known e t False res
          | Some r \<Rightarrow>
              if is_copy e (ev_event_id r) (ev_ts r) then
                (let (t2, n) = dropCopy (ev_event_id e) t
                 in Some (t2, res\<lparr>er_deduped := er_deduped res + n\<rparr>))
              else if ev_event_id r \<noteq> ev_event_id e then
                (let (t2, n) = dropCopy (ev_event_id r) t;
                     (t3, stored3) = stmt_insert e origin recv t2
                 in undecided origin recv known e t3 stored3
                      (res\<lparr>er_deduped := er_deduped res + 1\<rparr>))
              else undecided origin recv known e t False res)"
proof (cases "owner_of (ev_dedup_key e) t")
  case None
  then have "ev_dedup_key e \<noteq> [] \<Longrightarrow> key_free e t"
    by (auto simp: owner_of_None_iff key_free_def)
  with None u show ?thesis by (simp add: undecided_accepted)
next
  case (Some r)
  then have r: "r \<in> set t" "ev_dedup_key r = ev_dedup_key e" "ev_dedup_key e \<noteq> []"
    using u by (simp_all add: owner_of_Some_iff)
  have only: "x = r" if "x \<in> set t" "ev_dedup_key x = ev_dedup_key e" for x
    by (rule uniq_keys [OF u that(1) r(1)]) (use that r in simp_all)
  let ?t2 = "drop_id (ev_event_id r) t"
  have u2: "ev.uniq ?t2" using u by (rule uniq_drop_id)
  have "owner_of (ev_dedup_key e) ?t2 = None" using u Some by (rule owner_of_drop)
  then have free2: "key_free e ?t2" using r(3) by (auto simp: owner_of_None_iff key_free_def)
  obtain t3 stored3 where 3: "stmt_insert e origin recv ?t2 = (t3, stored3)" by fastforce
  have u3: "ev.uniq t3" using stmt_insert_uniq [OF u2, of e origin recv] 3 by simp
  have "\<not> stored3 \<Longrightarrow> key_free e t3" using 3 free2 by (auto simp: stmt_insert_eq split: if_splits)
  with u3 have "batch_accepted (undecided origin recv known e t3 stored3 res')" for res'
    by (intro undecided_accepted)
  moreover have "batch_accepted (undecided origin recv known e t False res)" if "ev_event_id r = ev_event_id e"
    using u only that by (intro undecided_accepted) (auto simp: key_free_def)
  ultimately show ?thesis
    using Some u 3 by (simp add: dropCopy_eq uniq_drop_id)
qed

lemma apply_event_accepted:
  assumes u: "ev.uniq t"
  shows "batch_accepted (apply_event origin recv prior e (t, res))"
proof (cases "ev_event_id e = []")
  case True
  with u show ?thesis by (simp add: apply_event_def)
next
  case i: False
  show ?thesis
  proof (cases "prior (ev_event_id e)")
    case None
    obtain t1 stored where 1: "stmt_insert e origin recv t = (t1, stored)" by fastforce
    show ?thesis
    proof (cases stored)
      case True
      have "ev.uniq t1" using stmt_insert_uniq [OF u, of e origin recv] 1 by simp
      with apply_event_stored [where prior = prior, OF i None] 1 True show ?thesis
        by (simp add: undecided_def)
    next
      case False
      then have "stmt_insert e origin recv t = (t, False)" using 1 by (simp add: stmt_insert_eq split: if_splits)
      with None u show ?thesis
        by (subst apply_event_decide [OF i]) (simp_all add: decide_accepted)
    qed
  next
    case (Some p)
    show ?thesis
    proof (cases "ev_dedup_key e \<noteq> [] \<and> p_dedup_key p = ev_dedup_key e")
      case True
      then show ?thesis using u Some i
        by (subst apply_event_self [where p = p]) (auto intro!: undecided_accepted simp: open_if_def)
    next
      case False
      with Some u show ?thesis
        by (subst apply_event_decide [OF i]) (simp_all add: decide_accepted)
    qed
  qed
qed

lemma apply_events_accepted:
  "ev.uniq (fst s) \<Longrightarrow> batch_accepted (apply_events origin recv prior es s)"
proof (induction es arbitrary: s)
  case Nil
  then show ?case by (cases s) simp
next
  case (Cons e es)
  have "batch_accepted (apply_event origin recv prior e s)"
    using apply_event_accepted [of "fst s" origin recv prior e "snd s"] Cons.prems by simp
  then obtain s' where "apply_event origin recv prior e s = Some s'" "ev.uniq (fst s')"
    by (cases "apply_event origin recv prior e s") auto
  with Cons.IH show ?case by simp
qed

end
