(* ===== verification/Ingest_Protocol.thy ===== *)
theory Ingest_Protocol
  imports Event_Model
begin

text \<open>
  \<open>internal/model/ingest.go\<close>: the version 2 delivery envelope, its acknowledgement, the
  rejection codes and \<open>ValidateIngestEnvelope\<close>, which the agent runs before a batch becomes
  durable and the hub runs before it touches the store. \<open>envelope_ok\<close> is the contract the
  validator decides; the two canonical-UUID checks elsewhere in the program
  (\<open>validEnrollmentDeviceID\<close> in the agent, \<open>isCanonicalUUID\<close> in the store) are here too.
\<close>

section \<open>Constants\<close>

definition IngestProtocolV2 :: int where "IngestProtocolV2 = 2"
definition MaxIngestBatchEvents :: nat where "MaxIngestBatchEvents = 2000"
definition MaxIngestEnvelopeBytes :: nat where "MaxIngestEnvelopeBytes = 16 * 2 ^ 20"
definition maxCapturedAtMilli :: int where "maxCapturedAtMilli = 253402300799999"

definition IngestKindEvents :: string where "IngestKindEvents = ''events''"
definition IngestKindQuotas :: string where "IngestKindQuotas = ''quotas''"
definition IngestKindProcs :: string where "IngestKindProcs = ''procs''"

lemmas kind_defs = IngestKindEvents_def IngestKindQuotas_def IngestKindProcs_def

definition RejectionProtocolVersion :: string where
  "RejectionProtocolVersion = ''invalid_protocol_version''"
definition RejectionBatchID :: string where "RejectionBatchID = ''invalid_batch_id''"
definition RejectionDeviceID :: string where "RejectionDeviceID = ''invalid_device_id''"
definition RejectionBootID :: string where "RejectionBootID = ''invalid_boot_id''"
definition RejectionCapturedAt :: string where "RejectionCapturedAt = ''invalid_captured_at''"
definition RejectionBatchTooLarge :: string where "RejectionBatchTooLarge = ''batch_too_large''"
definition RejectionEventID :: string where "RejectionEventID = ''invalid_event_id''"
definition RejectionDuplicateEventID :: string where "RejectionDuplicateEventID = ''duplicate_event_id''"
definition RejectionEventDeviceMismatch :: string where
  "RejectionEventDeviceMismatch = ''event_device_mismatch''"
definition RejectionKind :: string where "RejectionKind = ''invalid_kind''"
definition RejectionMissingEvents :: string where "RejectionMissingEvents = ''missing_events_payload''"
definition RejectionMissingQuotas :: string where "RejectionMissingQuotas = ''missing_quotas_payload''"
definition RejectionMissingProcs :: string where "RejectionMissingProcs = ''missing_procs_payload''"
definition RejectionUnexpectedEvents :: string where
  "RejectionUnexpectedEvents = ''unexpected_events_payload''"
definition RejectionUnexpectedQuotas :: string where
  "RejectionUnexpectedQuotas = ''unexpected_quotas_payload''"
definition RejectionUnexpectedProcs :: string where
  "RejectionUnexpectedProcs = ''unexpected_procs_payload''"
definition RejectionQuotaDeviceMismatch :: string where
  "RejectionQuotaDeviceMismatch = ''quota_device_mismatch''"
definition RejectionProcDeviceMismatch :: string where
  "RejectionProcDeviceMismatch = ''proc_device_mismatch''"
definition RejectionProcObservedAt :: string where
  "RejectionProcObservedAt = ''invalid_proc_observed_at''"

section \<open>Messages\<close>

record envelope =
  ie_protocol_version :: int
  ie_device_id :: string
  ie_boot_id :: string
  ie_batch_id :: string
  ie_sequence :: "64 word"
  ie_captured_at :: int
  ie_kind :: string
  ie_events :: "event list"
  ie_quotas :: "quota_snapshot list"
  ie_procs :: "proc_report option"

record ingest_rejection =
  rj_code :: string
  rj_index :: "nat option"
  rj_event_id :: string

record ingest_ack =
  ak_protocol_version :: int
  ak_device_id :: string
  ak_batch_id :: string
  ak_sequence :: "64 word"
  ak_accepted :: int
  ak_duplicates :: int
  ak_rejected :: "ingest_rejection list"
  ak_server_time :: int

definition rejection :: "string \<Rightarrow> ingest_rejection" where
  "rejection code = \<lparr>rj_code = code, rj_index = None, rj_event_id = []\<rparr>"

definition recordRejection :: "string \<Rightarrow> nat \<Rightarrow> string \<Rightarrow> ingest_rejection" where
  "recordRejection code index eventID = \<lparr>rj_code = code, rj_index = Some index, rj_event_id = eventID\<rparr>"

section \<open>Canonical UUIDs\<close>

definition nil_uuid :: string where
  "nil_uuid = ''00000000-0000-0000-0000-000000000000''"

definition uuid_dash :: "nat \<Rightarrow> bool" where
  "uuid_dash i \<longleftrightarrow> i = 8 \<or> i = 13 \<or> i = 18 \<or> i = 23"

definition lower_hex :: "char \<Rightarrow> bool" where
  "lower_hex c \<longleftrightarrow> (CHR ''0'' \<le> c \<and> c \<le> CHR ''9'') \<or> (CHR ''a'' \<le> c \<and> c \<le> CHR ''f'')"

fun uuid_bytes :: "nat \<Rightarrow> string \<Rightarrow> bool" where
  "uuid_bytes i [] = True"
| "uuid_bytes i (c # cs) =
     (if uuid_dash i then (if c \<noteq> CHR ''-'' then False else uuid_bytes (i + 1) cs)
      else if lower_hex c then uuid_bytes (i + 1) cs
      else False)"

definition validUUID :: "string \<Rightarrow> bool" where
  "validUUID value =
     (if length value \<noteq> 36 then False
      else if \<not> uuid_bytes 0 value then False
      else value \<noteq> nil_uuid)"

text \<open>
  \<open>for i, c := range id\<close> visits runes. A byte below 128 is its own rune; any other byte starts a
  rune of at least 128 (or U+FFFD), which is neither a dash nor a hexadecimal digit, so the loop
  returns there: until then byte index and rune index agree.
\<close>

fun enrollment_runes :: "nat \<Rightarrow> string \<Rightarrow> bool" where
  "enrollment_runes i [] = True"
| "enrollment_runes i (c # cs) =
     (if i = 8 \<or> i = 13 \<or> i = 18 \<or> i = 23
      then (if c \<noteq> CHR ''-'' then False else enrollment_runes (i + 1) cs)
      else if \<not> (CHR ''0'' \<le> c \<and> c \<le> CHR ''9'' \<or> CHR ''a'' \<le> c \<and> c \<le> CHR ''f'') then False
      else enrollment_runes (i + 1) cs)"

definition validEnrollmentDeviceID :: "string \<Rightarrow> bool" where
  "validEnrollmentDeviceID i =
     (if length i \<noteq> 36 then False else if \<not> enrollment_runes 0 i then False else i \<noteq> nil_uuid)"

fun canonical_bytes :: "nat \<Rightarrow> string \<Rightarrow> bool" where
  "canonical_bytes i [] = True"
| "canonical_bytes i (c # cs) =
     (if i = 8 \<or> i = 13 \<or> i = 18 \<or> i = 23 then canonical_bytes (i + 1) cs
      else if (c < CHR ''0'' \<or> c > CHR ''9'') \<and> (c < CHR ''a'' \<or> c > CHR ''f'') then False
      else canonical_bytes (i + 1) cs)"

definition isCanonicalUUID :: "string \<Rightarrow> bool" where
  "isCanonicalUUID value =
     (if length value \<noteq> 36 \<or> value ! 8 \<noteq> CHR ''-'' \<or> value ! 13 \<noteq> CHR ''-'' \<or>
         value ! 18 \<noteq> CHR ''-'' \<or> value ! 23 \<noteq> CHR ''-'' then False
      else if value = nil_uuid then False
      else canonical_bytes 0 value)"

section \<open>The validator\<close>

text \<open>\<open>if c { rejected = append(rejected, x) }\<close>\<close>

definition reject_if :: "bool \<Rightarrow> ingest_rejection \<Rightarrow> ingest_rejection list" where
  "reject_if c x = (if c then [x] else [])"

fun validate_events :: "bool \<Rightarrow> string \<Rightarrow> nat \<Rightarrow> string list \<Rightarrow> event list \<Rightarrow> ingest_rejection list" where
  "validate_events deviceValid device i seen [] = []"
| "validate_events deviceValid device i seen (e # es) =
     (if ev_event_id e = [] then [recordRejection RejectionEventID i []]
      else reject_if (ev_event_id e \<in> set seen)
             (recordRejection RejectionDuplicateEventID i (ev_event_id e))) @
     reject_if (deviceValid \<and> ev_device e \<noteq> device)
       (recordRejection RejectionEventDeviceMismatch i (ev_event_id e)) @
     validate_events deviceValid device (i + 1)
       (if ev_event_id e = [] then seen else ev_event_id e # seen) es"

fun validate_quotas :: "string \<Rightarrow> nat \<Rightarrow> quota_snapshot list \<Rightarrow> ingest_rejection list" where
  "validate_quotas device i [] = []"
| "validate_quotas device i (q # qs) =
     reject_if (q_device q \<noteq> device) (recordRejection RejectionQuotaDeviceMismatch i []) @
     validate_quotas device (i + 1) qs"

definition validate_payload :: "bool \<Rightarrow> envelope \<Rightarrow> ingest_rejection list" where
  "validate_payload deviceValid x =
     (if ie_kind x = IngestKindEvents then
        reject_if (length (ie_events x) = 0) (rejection RejectionMissingEvents) @
        reject_if (length (ie_quotas x) > 0) (rejection RejectionUnexpectedQuotas) @
        reject_if (ie_procs x \<noteq> None) (rejection RejectionUnexpectedProcs) @
        reject_if (length (ie_events x) > MaxIngestBatchEvents) (rejection RejectionBatchTooLarge) @
        validate_events deviceValid (ie_device_id x) 0 [] (ie_events x)
      else if ie_kind x = IngestKindQuotas then
        reject_if (length (ie_quotas x) = 0) (rejection RejectionMissingQuotas) @
        reject_if (length (ie_events x) > 0) (rejection RejectionUnexpectedEvents) @
        reject_if (ie_procs x \<noteq> None) (rejection RejectionUnexpectedProcs) @
        (if deviceValid then validate_quotas (ie_device_id x) 0 (ie_quotas x) else [])
      else if ie_kind x = IngestKindProcs then
        reject_if (ie_procs x = None) (rejection RejectionMissingProcs) @
        reject_if (length (ie_events x) > 0) (rejection RejectionUnexpectedEvents) @
        reject_if (length (ie_quotas x) > 0) (rejection RejectionUnexpectedQuotas) @
        (case ie_procs x of None \<Rightarrow> []
         | Some p \<Rightarrow>
             reject_if (deviceValid \<and> pr_device p \<noteq> ie_device_id x)
               (rejection RejectionProcDeviceMismatch) @
             reject_if (pr_observed_at p \<le> 0) (rejection RejectionProcObservedAt))
      else [rejection RejectionKind])"

definition ValidateIngestEnvelope :: "envelope \<Rightarrow> ingest_rejection list" where
  "ValidateIngestEnvelope x =
     (let deviceValid = validUUID (ie_device_id x)
      in reject_if (ie_protocol_version x \<noteq> IngestProtocolV2) (rejection RejectionProtocolVersion) @
         reject_if (\<not> deviceValid) (rejection RejectionDeviceID) @
         reject_if (\<not> validUUID (ie_boot_id x)) (rejection RejectionBootID) @
         reject_if (\<not> validUUID (ie_batch_id x)) (rejection RejectionBatchID) @
         reject_if (ie_captured_at x \<le> 0 \<or> ie_captured_at x > maxCapturedAtMilli)
           (rejection RejectionCapturedAt) @
         validate_payload deviceValid x)"

end
