(* ===== verification/Ingest_Protocol_Facts.thy ===== *)
theory Ingest_Protocol_Facts
  imports Ingest_Protocol
begin

text \<open>
  The contract of the ingest protocol, stated without the validator (\<open>envelope_ok\<close>), and the
  proof that the validator decides it; the three canonical-UUID checks agree.
\<close>

section \<open>Canonical UUIDs\<close>

definition canonical_uuid :: "string \<Rightarrow> bool" where
  "canonical_uuid v \<longleftrightarrow> length v = 36 \<and>
     (\<forall>i<36. if uuid_dash i then v ! i = CHR ''-'' else lower_hex (v ! i)) \<and> v \<noteq> nil_uuid"

lemma uuid_bytes_iff:
  "uuid_bytes k v \<longleftrightarrow>
     (\<forall>i<length v. if uuid_dash (k + i) then v ! i = CHR ''-'' else lower_hex (v ! i))"
proof (induction v arbitrary: k)
  case (Cons c v)
  show ?case
    unfolding uuid_bytes.simps Cons.IH length_Cons All_less_Suc2 by simp
qed simp

lemma canonical_bytes_iff:
  "canonical_bytes k v \<longleftrightarrow> (\<forall>i<length v. uuid_dash (k + i) \<or> lower_hex (v ! i))"
proof (induction v arbitrary: k)
  case (Cons c v)
  have hex: "\<not> ((c < CHR ''0'' \<or> c > CHR ''9'') \<and> (c < CHR ''a'' \<or> c > CHR ''f'')) \<longleftrightarrow> lower_hex c"
    by (auto simp: lower_hex_def not_less)
  show ?case
    unfolding canonical_bytes.simps Cons.IH length_Cons All_less_Suc2 using hex
    by (auto simp: uuid_dash_def)
qed simp

lemma enrollment_runes_eq: "enrollment_runes k v = uuid_bytes k v"
  by (induction v arbitrary: k) (auto simp: uuid_dash_def lower_hex_def)

lemma validUUID_iff: "validUUID v \<longleftrightarrow> canonical_uuid v"
  by (auto simp: validUUID_def canonical_uuid_def uuid_bytes_iff)

lemma validEnrollmentDeviceID_eq: "validEnrollmentDeviceID v = validUUID v"
  by (simp add: validEnrollmentDeviceID_def validUUID_def enrollment_runes_eq)

lemma uuid_dash_bound: "uuid_dash i \<Longrightarrow> i < 36"
  by (auto simp: uuid_dash_def)

lemma isCanonicalUUID_eq: "isCanonicalUUID v = validUUID v"
proof (cases "length v = 36")
  case True
  have "(\<forall>i<36. if uuid_dash i then v ! i = CHR ''-'' else lower_hex (v ! i)) \<longleftrightarrow>
      (\<forall>i<36. uuid_dash i \<longrightarrow> v ! i = CHR ''-'') \<and> (\<forall>i<36. uuid_dash i \<or> lower_hex (v ! i))"
    by auto
  moreover have "(\<forall>i<36. uuid_dash i \<longrightarrow> v ! i = CHR ''-'') \<longleftrightarrow>
      v ! 8 = CHR ''-'' \<and> v ! 13 = CHR ''-'' \<and> v ! 18 = CHR ''-'' \<and> v ! 23 = CHR ''-''"
    (is "?all \<longleftrightarrow> ?four")
  proof
    assume a: ?all
    show ?four
      using a [rule_format, of 8] a [rule_format, of 13] a [rule_format, of 18] a [rule_format, of 23]
      by (simp add: uuid_dash_def)
  qed (auto simp: uuid_dash_def)
  ultimately show ?thesis
    using True by (simp add: isCanonicalUUID_def validUUID_iff canonical_uuid_def canonical_bytes_iff) blast
qed (simp add: isCanonicalUUID_def validUUID_def)

lemma validUUID_nonempty: "validUUID v \<Longrightarrow> v \<noteq> []"
  by (auto simp: validUUID_def)

section \<open>What a valid envelope is\<close>

definition events_ok :: "envelope \<Rightarrow> bool" where
  "events_ok x \<longleftrightarrow> 1 \<le> length (ie_events x) \<and> length (ie_events x) \<le> MaxIngestBatchEvents \<and>
     (\<forall>e\<in>set (ie_events x). ev_event_id e \<noteq> [] \<and> ev_device e = ie_device_id x) \<and>
     distinct (map ev_event_id (ie_events x)) \<and> ie_quotas x = [] \<and> ie_procs x = None"

definition quotas_ok :: "envelope \<Rightarrow> bool" where
  "quotas_ok x \<longleftrightarrow> ie_quotas x \<noteq> [] \<and> (\<forall>q\<in>set (ie_quotas x). q_device q = ie_device_id x) \<and>
     ie_events x = [] \<and> ie_procs x = None"

definition procs_ok :: "envelope \<Rightarrow> bool" where
  "procs_ok x \<longleftrightarrow> (\<exists>p. ie_procs x = Some p \<and> pr_device p = ie_device_id x \<and> 0 < pr_observed_at p) \<and>
     ie_events x = [] \<and> ie_quotas x = []"

definition header_ok :: "envelope \<Rightarrow> bool" where
  "header_ok x \<longleftrightarrow> ie_protocol_version x = 2 \<and> canonical_uuid (ie_device_id x) \<and>
     canonical_uuid (ie_boot_id x) \<and> canonical_uuid (ie_batch_id x) \<and>
     0 < ie_captured_at x \<and> ie_captured_at x \<le> 253402300799999"

definition envelope_ok :: "envelope \<Rightarrow> bool" where
  "envelope_ok x \<longleftrightarrow> header_ok x \<and>
     (ie_kind x = ''events'' \<and> events_ok x \<or> ie_kind x = ''quotas'' \<and> quotas_ok x \<or>
      ie_kind x = ''procs'' \<and> procs_ok x)"

lemma reject_if_Nil [simp]: "reject_if c x = [] \<longleftrightarrow> \<not> c"
  by (simp add: reject_if_def)

lemma set_reject_if: "set (reject_if c x) = (if c then {x} else {})"
  by (cases c) (simp_all only: reject_if_def if_True if_False list.set)

lemma validate_events_Nil:
  "validate_events dv d i seen es = [] \<longleftrightarrow>
     (\<forall>e\<in>set es. ev_event_id e \<noteq> [] \<and> ev_event_id e \<notin> set seen \<and> (dv \<longrightarrow> ev_device e = d)) \<and>
     distinct (map ev_event_id es)"
proof (induction es arbitrary: i seen)
  case (Cons e es)
  show ?case unfolding validate_events.simps append_is_Nil_conv Cons.IH by (auto; metis image_eqI)
qed simp

lemma validate_quotas_Nil:
  "validate_quotas d i qs = [] \<longleftrightarrow> (\<forall>q\<in>set qs. q_device q = d)"
  by (induction qs arbitrary: i) auto

lemma validate_payload_Nil:
  "validate_payload True x = [] \<longleftrightarrow>
     ie_kind x = ''events'' \<and> events_ok x \<or> ie_kind x = ''quotas'' \<and> quotas_ok x \<or>
     ie_kind x = ''procs'' \<and> procs_ok x"
proof -
  have "validate_payload True x = [] \<longleftrightarrow> events_ok x" if "ie_kind x = ''events''"
    using that unfolding validate_payload_def kind_defs events_ok_def
    by (auto simp: validate_events_Nil Suc_le_eq)
  moreover have "validate_payload True x = [] \<longleftrightarrow> quotas_ok x" if "ie_kind x = ''quotas''"
    using that unfolding validate_payload_def kind_defs quotas_ok_def
    by (auto simp: validate_quotas_Nil)
  moreover have "validate_payload True x = [] \<longleftrightarrow> procs_ok x" if "ie_kind x = ''procs''"
    using that unfolding validate_payload_def kind_defs procs_ok_def
    by (auto split: option.splits)
  moreover have "validate_payload True x \<noteq> []"
    if "ie_kind x \<noteq> ''events''" "ie_kind x \<noteq> ''quotas''" "ie_kind x \<noteq> ''procs''"
    using that unfolding validate_payload_def kind_defs by simp
  ultimately show ?thesis by auto
qed

lemma ValidateIngestEnvelope_Nil: "ValidateIngestEnvelope x = [] \<longleftrightarrow> envelope_ok x"
proof (cases "canonical_uuid (ie_device_id x)")
  case True
  then show ?thesis
    by (auto simp: ValidateIngestEnvelope_def Let_def validUUID_iff validate_payload_Nil
        envelope_ok_def header_ok_def IngestProtocolV2_def maxCapturedAtMilli_def)
next
  case False
  then show ?thesis
    by (simp add: ValidateIngestEnvelope_def Let_def validUUID_iff envelope_ok_def header_ok_def)
qed

section \<open>Every rejection that names a record names an offending one\<close>

definition offends :: "envelope \<Rightarrow> ingest_rejection \<Rightarrow> nat \<Rightarrow> bool" where
  "offends x r i \<longleftrightarrow>
     (ie_kind x = ''events'' \<and> i < length (ie_events x) \<and>
        rj_event_id r = ev_event_id (ie_events x ! i) \<and>
        (rj_code r = RejectionEventID \<and> ev_event_id (ie_events x ! i) = [] \<or>
         rj_code r = RejectionDuplicateEventID \<and>
           (\<exists>j<i. ev_event_id (ie_events x ! j) = ev_event_id (ie_events x ! i)) \<or>
         rj_code r = RejectionEventDeviceMismatch \<and> ev_device (ie_events x ! i) \<noteq> ie_device_id x)) \<or>
     (ie_kind x = ''quotas'' \<and> i < length (ie_quotas x) \<and>
        rj_code r = RejectionQuotaDeviceMismatch \<and> q_device (ie_quotas x ! i) \<noteq> ie_device_id x)"

definition event_offends :: "string \<Rightarrow> string list \<Rightarrow> event list \<Rightarrow> ingest_rejection \<Rightarrow> nat \<Rightarrow> bool" where
  "event_offends d seen es r i \<longleftrightarrow> i < length es \<and> rj_event_id r = ev_event_id (es ! i) \<and>
     (rj_code r = RejectionEventID \<and> ev_event_id (es ! i) = [] \<or>
      rj_code r = RejectionDuplicateEventID \<and>
        (ev_event_id (es ! i) \<in> set seen \<or> (\<exists>j<i. ev_event_id (es ! j) = ev_event_id (es ! i))) \<or>
      rj_code r = RejectionEventDeviceMismatch \<and> ev_device (es ! i) \<noteq> d)"

lemma event_offends_tail:
  assumes "event_offends d (if ev_event_id e = [] then seen else ev_event_id e # seen) es r i"
  shows "event_offends d seen (e # es) r (Suc i)"
proof -
  have "ev_event_id (es ! i) \<in> set seen \<or> (\<exists>j<Suc i. ev_event_id ((e # es) ! j) = ev_event_id (es ! i))"
    if "ev_event_id (es ! i) \<in> set (if ev_event_id e = [] then seen else ev_event_id e # seen) \<or>
      (\<exists>j<i. ev_event_id (es ! j) = ev_event_id (es ! i))"
    using that unfolding Ex_less_Suc2 by (auto split: if_splits)
  with assms show ?thesis unfolding event_offends_def by (simp add: Let_def) metis
qed

lemma validate_events_offends:
  "r \<in> set (validate_events dv d k seen es) \<Longrightarrow>
     \<exists>i. rj_index r = Some (k + i) \<and> event_offends d seen es r i"
proof (induction es arbitrary: k seen)
  case (Cons e es)
  let ?seen = "if ev_event_id e = [] then seen else ev_event_id e # seen"
  consider (tail) "r \<in> set (validate_events dv d (k + 1) ?seen es)"
    | (empty) "ev_event_id e = []" "r = recordRejection RejectionEventID k []"
    | (dup) "ev_event_id e \<in> set seen" "r = recordRejection RejectionDuplicateEventID k (ev_event_id e)"
    | (device) "ev_device e \<noteq> d" "r = recordRejection RejectionEventDeviceMismatch k (ev_event_id e)"
    using Cons.prems by (auto simp: set_reject_if split: if_splits)
  then show ?case
  proof cases
    case tail
    from Cons.IH [OF this] obtain i where
      i: "rj_index r = Some (k + 1 + i)" "event_offends d ?seen es r i" by blast
    from i(1) event_offends_tail [OF i(2)] show ?thesis by (metis add.assoc add.commute plus_1_eq_Suc)
  qed (auto simp: event_offends_def recordRejection_def intro!: exI [of _ 0])
qed simp

lemma validate_quotas_offends:
  "r \<in> set (validate_quotas d k qs) \<Longrightarrow>
     \<exists>i<length qs. rj_index r = Some (k + i) \<and> rj_code r = RejectionQuotaDeviceMismatch \<and> q_device (qs ! i) \<noteq> d"
proof (induction qs arbitrary: k)
  case (Cons q qs)
  show ?case
  proof (cases "r \<in> set (validate_quotas d (k + 1) qs)")
    case True
    from Cons.IH [OF this] obtain i where "i < length qs" "rj_index r = Some (k + 1 + i)"
      "rj_code r = RejectionQuotaDeviceMismatch" "q_device (qs ! i) \<noteq> d" by blast
    then show ?thesis by (intro exI [of _ "Suc i"]) simp
  next
    case False
    with Cons.prems show ?thesis
      by (auto simp: set_reject_if recordRejection_def split: if_splits intro!: exI [of _ 0])
  qed
qed simp

lemma rejection_index_None [simp]: "rj_index (rejection c) = None"
  by (simp add: rejection_def)

lemma reject_if_unindexed [simp]:
  "r \<in> set (reject_if c (rejection code)) \<Longrightarrow> rj_index r = None"
  by (simp add: reject_if_def split: if_splits)

lemma validate_payload_offends:
  assumes "r \<in> set (validate_payload dv x)" "rj_index r = Some i"
  shows "offends x r i"
proof -
  have u: "r \<notin> set (reject_if c (rejection code))" for c code
    using assms(2) by (auto dest: reject_if_unindexed)
  consider (events) "ie_kind x = ''events''" | (quotas) "ie_kind x = ''quotas''" "ie_kind x \<noteq> ''events''"
    | (other) "ie_kind x \<noteq> ''events''" "ie_kind x \<noteq> ''quotas''" by blast
  then show ?thesis
  proof cases
    case events
    then have "r \<in> set (validate_events dv (ie_device_id x) 0 [] (ie_events x))"
      using assms(1) u by (simp add: validate_payload_def kind_defs)
    from validate_events_offends [OF this] events assms(2) show ?thesis
      by (auto simp: offends_def event_offends_def)
  next
    case quotas
    then have "r \<in> set (validate_quotas (ie_device_id x) 0 (ie_quotas x))"
      using assms(1) u by (auto simp: validate_payload_def kind_defs split: if_splits)
    from validate_quotas_offends [OF this] quotas assms(2) show ?thesis
      by (auto simp: offends_def)
  next
    case other
    then have False
      using assms u by (auto simp: validate_payload_def kind_defs split: if_splits option.splits)
    then show ?thesis ..
  qed
qed

lemma ValidateIngestEnvelope_offends:
  assumes "r \<in> set (ValidateIngestEnvelope x)" "rj_index r = Some i"
  shows "offends x r i"
proof (rule validate_payload_offends [OF _ assms(2)])
  have "r \<notin> set (reject_if c (rejection code))" for c code
    using assms(2) by (auto dest: reject_if_unindexed)
  with assms(1) show "r \<in> set (validate_payload (validUUID (ie_device_id x)) x)"
    by (simp add: ValidateIngestEnvelope_def Let_def)
qed

end
