(* ===== verification/Go_Strconv.thy ===== *)
theory Go_Strconv
  imports Omni_Prelude "HOL-Library.Word"
begin

text \<open>
  The part of Go's \<open>strconv\<close> the program stores numbers with: \<open>FormatUint(x, 10)\<close> and
  \<open>ParseUint(s, 10, 64)\<close>. Both uint64 columns of the program (the receipt's \<open>ack_sequence\<close> and
  the outbox's \<open>last_sequence\<close>) are decimal text because SQLite's integers are signed.
\<close>

definition digit_char :: "nat \<Rightarrow> char" where
  "digit_char d = char_of (48 + d :: nat)"

definition digit_val :: "char \<Rightarrow> nat" where
  "digit_val c = of_char c - (48 :: nat)"

definition is_digit :: "char \<Rightarrow> bool" where
  "is_digit c \<longleftrightarrow> 48 \<le> (of_char c :: nat) \<and> (of_char c :: nat) \<le> 57"

fun format_nat :: "nat \<Rightarrow> string" where
  "format_nat n = (if n < 10 then [digit_char n] else format_nat (n div 10) @ [digit_char (n mod 10)])"

declare format_nat.simps [simp del]

definition FormatUint :: "64 word \<Rightarrow> string" where
  "FormatUint w = format_nat (unat w)"

definition parse_digits :: "string \<Rightarrow> nat" where
  "parse_digits s = foldl (\<lambda>n c. 10 * n + digit_val c) 0 s"

text \<open>\<open>None\<close> is \<open>ErrSyntax\<close> or \<open>ErrRange\<close>; the callers do not tell them apart.\<close>

definition ParseUint :: "string \<Rightarrow> 64 word option" where
  "ParseUint s =
     (if s = [] \<or> \<not> list_all is_digit s then None
      else if parse_digits s < 2 ^ 64 then Some (of_nat (parse_digits s)) else None)"

lemma digit_char_val: "d < 10 \<Longrightarrow> is_digit (digit_char d) \<and> digit_val (digit_char d) = d"
  by (simp add: is_digit_def digit_val_def digit_char_def)

lemma format_nat_nonempty [simp]: "format_nat n \<noteq> []"
  by (cases "n < 10") (simp_all add: format_nat.simps [of n])

lemma format_nat_digits: "list_all is_digit (format_nat n)"
proof (induction n rule: format_nat.induct)
  case (1 n)
  then show ?case by (cases "n < 10") (simp_all add: format_nat.simps [of n] digit_char_val)
qed

lemma parse_format_nat: "parse_digits (format_nat n) = n"
proof (induction n rule: format_nat.induct)
  case (1 n)
  then show ?case
    by (cases "n < 10") (simp_all add: format_nat.simps [of n] parse_digits_def digit_char_val)
qed

lemma ParseUint_FormatUint [simp]: "ParseUint (FormatUint w) = Some w"
proof -
  have "unat w < 2 ^ 64" using unsigned_less [of w] by simp
  then show ?thesis
    by (simp add: ParseUint_def FormatUint_def format_nat_digits parse_format_nat)
qed

lemma FormatUint_inj: "FormatUint v = FormatUint w \<Longrightarrow> v = w"
  by (metis ParseUint_FormatUint option.inject)

text \<open>How wide the decimal rendering is: the bound the envelope partition relies on.\<close>

lemma format_nat_length_mono: "m \<le> n \<Longrightarrow> length (format_nat m) \<le> length (format_nat n)"
proof (induction n arbitrary: m rule: format_nat.induct)
  case (1 n)
  show ?case
  proof (cases "n < 10 \<or> m < 10")
    case True
    have "1 \<le> length (format_nat n)"
      by (simp add: Suc_le_eq)
    with True 1(2) show ?thesis by (auto simp: format_nat.simps [of m] not_less format_nat.simps [of n])
  next
    case False
    then have "length (format_nat (m div 10)) \<le> length (format_nat (n div 10))"
      using 1 by (simp add: div_le_mono)
    with False show ?thesis by (simp add: format_nat.simps [of m] format_nat.simps [of n])
  qed
qed

lemma FormatUint_length: "length (FormatUint w) \<le> length (FormatUint (- 1))"
  unfolding FormatUint_def by (rule format_nat_length_mono) (simp add: word_le_nat_alt [symmetric])

section \<open>Hexadecimal (encoding/hex)\<close>

definition hex_digit :: "nat \<Rightarrow> char" where
  "hex_digit n = (if n < 10 then char_of (48 + n) else char_of (87 + n))"

definition hex_byte :: "8 word \<Rightarrow> string" where
  "hex_byte b = [hex_digit (unat b div 16), hex_digit (unat b mod 16)]"

definition hex_encode :: "8 word list \<Rightarrow> string" where
  "hex_encode bs = concat (map hex_byte bs)"

text \<open>\<open>hex.DecodeString\<close>: both letter cases, an even number of digits.\<close>

definition hex_value :: "char \<Rightarrow> nat option" where
  "hex_value c =
     (let n = of_char c :: nat
      in if 48 \<le> n \<and> n \<le> 57 then Some (n - 48)
         else if 97 \<le> n \<and> n \<le> 102 then Some (n - 87)
         else if 65 \<le> n \<and> n \<le> 70 then Some (n - 55)
         else None)"

fun hex_decode :: "string \<Rightarrow> 8 word list option" where
  "hex_decode [] = Some []"
| "hex_decode [c] = None"
| "hex_decode (c # d # cs) =
     (case (hex_value c, hex_value d, hex_decode cs) of
        (Some h, Some l, Some bs) \<Rightarrow> Some (of_nat (16 * h + l) # bs)
      | _ \<Rightarrow> None)"

lemma hex_value_digit: "n < 16 \<Longrightarrow> hex_value (hex_digit n) = Some n"
  by (simp add: hex_value_def hex_digit_def)

lemma hex_decode_encode [simp]: "hex_decode (hex_encode bs) = Some bs"
proof (induction bs)
  case (Cons b bs)
  have b: "unat b < 256" using unsigned_less [where 'a = nat and 'b = 8, of b] by simp
  then have "hex_value (hex_digit (unat b div 16)) = Some (unat b div 16)"
    "hex_value (hex_digit (unat b mod 16)) = Some (unat b mod 16)"
    by (simp_all add: hex_value_digit less_mult_imp_div_less)
  moreover have "of_nat (16 * (unat b div 16) + unat b mod 16) = b"
    by (simp add: mult_div_mod_eq)
  ultimately show ?case using Cons.IH by (simp add: hex_encode_def hex_byte_def)
qed (simp add: hex_encode_def)

lemma hex_encode_inj: "hex_encode a = hex_encode b \<Longrightarrow> a = b"
  by (metis hex_decode_encode option.inject)

end
