(* ===== verification/Ingest_Store.thy ===== *)
theory Ingest_Store
  imports Event_Store_Batch Ingest_Protocol_Facts Go_Strconv
begin

text \<open>
  \<open>internal/store/ingestv2.go\<close> with the tables behind it (\<open>quota.go\<close>, \<open>procs.go\<close>): the quota
  snapshots, the process state, the delivery receipts, and \<open>ApplyIngestV2\<close>, which applies one
  envelope's payload and persists its acknowledgement in one transaction.

  The database driver can fail at any statement. A call therefore takes \<open>fails\<close>, which of its
  steps the driver refuses; a failed step returns its error and, by \<open>defer tx.Rollback()\<close>,
  leaves the database as it was.
\<close>

section \<open>Quota snapshots\<close>

definition quota_key :: "quota_snapshot \<Rightarrow> string \<times> string \<times> string \<times> string \<times> int \<times> int" where
  "quota_key q = (q_device q, q_source q, q_limit_id q, q_scope q, q_window_minutes q, q_observed_at q)"

definition quota_conflict :: "quota_snapshot \<Rightarrow> quota_snapshot \<Rightarrow> bool" where
  "quota_conflict a b \<longleftrightarrow> quota_key a = quota_key b"

interpretation qt: unique_rows quota_conflict
  by unfold_locales (simp add: quota_conflict_def)

fun insertQuotasTx :: "quota_snapshot list \<Rightarrow> quota_snapshot list \<Rightarrow> quota_snapshot list \<times> nat" where
  "insertQuotasTx t [] = (t, 0)"
| "insertQuotasTx t (q # qs) =
     (let (t1, fresh) = sql_insert_ignore quota_conflict q t;
          (t2, n) = insertQuotasTx t1 qs
      in (t2, if fresh then n + 1 else n))"

section \<open>Process reports\<close>

record live_session =
  ls_device :: string
  ls_pid :: int
  ls_source :: string
  ls_started_at :: int
  ls_observed_at :: int

record live_report =
  lr_device :: string
  lr_observed_at :: int

definition session_conflict :: "live_session \<Rightarrow> live_session \<Rightarrow> bool" where
  "session_conflict a b \<longleftrightarrow> ls_device a = ls_device b \<and> ls_pid a = ls_pid b"

definition report_conflict :: "live_report \<Rightarrow> live_report \<Rightarrow> bool" where
  "report_conflict a b \<longleftrightarrow> lr_device a = lr_device b"

interpretation ls: unique_rows session_conflict
  by unfold_locales (simp add: session_conflict_def)

interpretation lr: unique_rows report_conflict
  by unfold_locales (simp add: report_conflict_def)

definition session_row :: "proc_report \<Rightarrow> proc_session \<Rightarrow> live_session" where
  "session_row report s = \<lparr>ls_device = pr_device report, ls_pid = ps_pid s, ls_source = ps_source s,
     ls_started_at = ps_started_at s, ls_observed_at = pr_observed_at report\<rparr>"

fun replace_sessions :: "proc_report \<Rightarrow> proc_session list \<Rightarrow> live_session list \<Rightarrow> live_session list" where
  "replace_sessions report [] t = t"
| "replace_sessions report (s # ss) t =
     replace_sessions report ss (sql_insert_replace session_conflict (session_row report s) t)"

definition applyProcReportTx :: "live_session list \<Rightarrow> live_report list \<Rightarrow> proc_report \<Rightarrow>
    live_session list \<times> live_report list \<times> bool" where
  "applyProcReportTx sessions reports report =
     (if pr_device report = [] \<or> pr_observed_at report = 0 then (sessions, reports, False)
      else
        let previous = (case sql_select (\<lambda>r. lr_device r = pr_device report) reports of
                          None \<Rightarrow> 0 | Some r \<Rightarrow> lr_observed_at r)
        in if previous > pr_observed_at report then (sessions, reports, False)
           else
             let known = map ls_pid (filter (\<lambda>s. ls_device s = pr_device report) sessions);
                 changed = (card (set known) \<noteq> length (pr_sessions report) \<or>
                            list_ex (\<lambda>s. ps_pid s \<notin> set known) (pr_sessions report));
                 s1 = replace_sessions report (pr_sessions report) sessions;
                 (s2, _) = sql_delete (\<lambda>s. ls_device s = pr_device report \<and>
                             ls_observed_at s < pr_observed_at report) s1;
                 r1 = sql_insert_replace report_conflict
                        \<lparr>lr_device = pr_device report, lr_observed_at = pr_observed_at report\<rparr> reports
             in (s2, r1, changed))"

section \<open>Receipts\<close>

record receipt =
  rc_batch_id :: string
  rc_device_id :: string
  rc_protocol_version :: int
  rc_ack_sequence :: string
  rc_accepted :: int
  rc_duplicates :: int
  rc_server_time :: int

definition receipt_conflict :: "receipt \<Rightarrow> receipt \<Rightarrow> bool" where
  "receipt_conflict a b \<longleftrightarrow> rc_batch_id a = rc_batch_id b"

interpretation rc: unique_rows receipt_conflict
  by unfold_locales (simp add: receipt_conflict_def)

record hub_db =
  hd_events :: "event_row list"
  hd_quotas :: "quota_snapshot list"
  hd_sessions :: "live_session list"
  hd_reports :: "live_report list"
  hd_receipts :: "receipt list"

datatype ingest_step = BeginTx | ReadReceipt | ApplyPayload | WriteReceipt | CommitTx

datatype ingest_error = DriverError ingest_step | ReceiptConflict | MissingProcs | UnsupportedKind
  | BadSequence | PayloadRefused

record ingest_result =
  ir_ack :: ingest_ack
  ir_replay :: bool
  ir_mutated :: bool

definition ingestReceiptTx :: "receipt list \<Rightarrow> string \<Rightarrow> ingest_error + ingest_ack option" where
  "ingestReceiptTx t batchID =
     (case sql_select (\<lambda>r. rc_batch_id r = batchID) t of
        None \<Rightarrow> Inr None
      | Some r \<Rightarrow>
          (case ParseUint (rc_ack_sequence r) of
             None \<Rightarrow> Inl BadSequence
           | Some sequence \<Rightarrow>
               Inr (Some \<lparr>ak_protocol_version = rc_protocol_version r, ak_device_id = rc_device_id r,
                 ak_batch_id = rc_batch_id r, ak_sequence = sequence, ak_accepted = rc_accepted r,
                 ak_duplicates = rc_duplicates r, ak_rejected = [], ak_server_time = rc_server_time r\<rparr>)))"

definition receipt_of :: "ingest_ack \<Rightarrow> receipt" where
  "receipt_of ack = \<lparr>rc_batch_id = ak_batch_id ack, rc_device_id = ak_device_id ack,
     rc_protocol_version = ak_protocol_version ack, rc_ack_sequence = FormatUint (ak_sequence ack),
     rc_accepted = ak_accepted ack, rc_duplicates = ak_duplicates ack,
     rc_server_time = ak_server_time ack\<rparr>"

section \<open>Applying an envelope\<close>

text \<open>The \<open>switch envelope.Kind\<close>: new tables, accepted, duplicates, mutated.\<close>

definition apply_payload :: "hub_db \<Rightarrow> envelope \<Rightarrow> int \<Rightarrow> ingest_error + hub_db \<times> int \<times> int \<times> bool" where
  "apply_payload db x receivedAt =
     (if ie_kind x = IngestKindEvents then
        (case insertEventsFromTx (hd_events db) (ie_events x) receivedAt OriginSelf of
           None \<Rightarrow> Inl PayloadRefused
         | Some (t, r) \<Rightarrow>
             Inr (db\<lparr>hd_events := t\<rparr>, int (er_inserted r),
               int (length (ie_events x)) - int (er_inserted r), mutated r))
      else if ie_kind x = IngestKindQuotas then
        (let (t, n) = insertQuotasTx (hd_quotas db) (ie_quotas x)
         in Inr (db\<lparr>hd_quotas := t\<rparr>, int n, int (length (ie_quotas x)) - int n, n > 0))
      else if ie_kind x = IngestKindProcs then
        (case ie_procs x of
           None \<Rightarrow> Inl MissingProcs
         | Some p \<Rightarrow>
             (let (ss, rs, changed) = applyProcReportTx (hd_sessions db) (hd_reports db) p
              in Inr (db\<lparr>hd_sessions := ss, hd_reports := rs\<rparr>, 1, 0, changed)))
      else Inl UnsupportedKind)"

definition ApplyIngestV2 :: "(ingest_step \<Rightarrow> bool) \<Rightarrow> hub_db \<Rightarrow> envelope \<Rightarrow> int \<Rightarrow>
    hub_db \<times> (ingest_error + ingest_result)" where
  "ApplyIngestV2 fails db x receivedAt =
     (if fails BeginTx then (db, Inl (DriverError BeginTx))
      else if fails ReadReceipt then (db, Inl (DriverError ReadReceipt))
      else (case ingestReceiptTx (hd_receipts db) (ie_batch_id x) of
        Inl err \<Rightarrow> (db, Inl err)
      | Inr (Some receipt) \<Rightarrow>
          (if ak_device_id receipt \<noteq> ie_device_id x then (db, Inl ReceiptConflict)
          else (db, Inr \<lparr>ir_ack = receipt, ir_replay = True, ir_mutated = False\<rparr>))
      | Inr None \<Rightarrow>
          (if fails ApplyPayload then (db, Inl (DriverError ApplyPayload))
          else (case apply_payload db x receivedAt of
            Inl err \<Rightarrow> (db, Inl err)
          | Inr (db1, accepted, duplicates, changed) \<Rightarrow>
              (let ack = \<lparr>ak_protocol_version = ie_protocol_version x, ak_device_id = ie_device_id x,
                     ak_batch_id = ie_batch_id x, ak_sequence = ie_sequence x,
                     ak_accepted = accepted, ak_duplicates = duplicates, ak_rejected = [],
                     ak_server_time = receivedAt\<rparr>
               in if fails WriteReceipt then (db, Inl (DriverError WriteReceipt))
                  else (case sql_insert receipt_conflict (receipt_of ack) (hd_receipts db1) of
                    None \<Rightarrow> (db, Inl (DriverError WriteReceipt))
                  | Some receipts \<Rightarrow>
                      if fails CommitTx then (db, Inl (DriverError CommitTx))
                      else (db1\<lparr>hd_receipts := receipts\<rparr>,
                            Inr \<lparr>ir_ack = ack, ir_replay = False, ir_mutated = changed\<rparr>)))))))"

end
