(* ===== verification/Ingest_Facts.thy ===== *)
theory Ingest_Facts
  imports Ingest_Store
begin

text \<open>
  The receiver's contract (\<open>receipted_receiver\<close>): an error changes nothing, an accepted message
  has an answer on record, the record never changes, and a message with an answer on record gets
  that answer again and has no further effect. \<open>ApplyIngestV2\<close> interprets it. Then the payload
  tables: quota snapshots keep their first observation, a process report replaces a device's
  sessions.
\<close>

section \<open>The receiver contract\<close>

locale receipted_receiver =
  fixes deliver :: "'f \<Rightarrow> 'm \<Rightarrow> 's \<Rightarrow> 's \<times> ('e + 'a)"
    and answer :: "'s \<Rightarrow> 'm \<Rightarrow> 'a option"
  assumes error_noop: "deliver f m s = (s', Inl e) \<Longrightarrow> s' = s"
    and answered_noop: "answer s m = Some a \<Longrightarrow> deliver f m s = (s', Inr b) \<Longrightarrow> s' = s \<and> b = a"
    and accepted_answered: "deliver f m s = (s', Inr a) \<Longrightarrow> answer s' m = Some a"
    and answer_stable: "answer s m = Some a \<Longrightarrow> answer (fst (deliver f m' s)) m = Some a"
begin

definition deliver_step :: "'f \<times> 'm \<Rightarrow> 's \<Rightarrow> 's" where
  "deliver_step c s = fst (deliver (fst c) (snd c) s)"

lemma answer_forever:
  "answer s m = Some a \<Longrightarrow> answer (run_steps deliver_step cs s) m = Some a"
  by (rule run_steps_inv) (auto simp: deliver_step_def intro: answer_stable)

lemma redelivered:
  assumes "deliver f m s = (s1, Inr a)"
    and "deliver g m (run_steps deliver_step cs s1) = (s2, Inr b)"
  shows "s2 = run_steps deliver_step cs s1 \<and> b = a"
  by (rule answered_noop [OF answer_forever [OF accepted_answered [OF assms(1)]] assms(2)])

lemma unchanged_unless_new:
  assumes "answer s m = Some a" shows "deliver_step (f, m) s = s"
proof (cases "deliver f m s")
  case (Pair s' r)
  then show ?thesis
    using assms by (cases r) (auto simp: deliver_step_def dest: error_noop answered_noop)
qed

end

section \<open>Receipts\<close>

definition applied_ack :: "envelope \<Rightarrow> int \<Rightarrow> int \<Rightarrow> int \<Rightarrow> ingest_ack" where
  "applied_ack x accepted duplicates receivedAt =
     \<lparr>ak_protocol_version = ie_protocol_version x, ak_device_id = ie_device_id x,
      ak_batch_id = ie_batch_id x, ak_sequence = ie_sequence x, ak_accepted = accepted,
      ak_duplicates = duplicates, ak_rejected = [], ak_server_time = receivedAt\<rparr>"

lemma ingestReceiptTx_None: "ingestReceiptTx t i = Inr None \<longleftrightarrow> (\<forall>r\<in>set t. rc_batch_id r \<noteq> i)"
  by (auto simp: ingestReceiptTx_def sql_select_def find_None_iff dest: find_Some_D split: option.splits)

lemma find_append: "find P (xs @ ys) = (case find P xs of None \<Rightarrow> find P ys | Some x \<Rightarrow> Some x)"
  by (induction xs) auto

lemma ingestReceiptTx_append:
  "ingestReceiptTx t i \<noteq> Inr None \<Longrightarrow> ingestReceiptTx (t @ u) i = ingestReceiptTx t i"
  by (simp add: ingestReceiptTx_def sql_select_def find_append split: option.splits)

lemma ingestReceiptTx_new:
  "\<forall>r\<in>set t. rc_batch_id r \<noteq> ak_batch_id ack \<Longrightarrow> ak_rejected ack = [] \<Longrightarrow>
     ingestReceiptTx (t @ [receipt_of ack]) (ak_batch_id ack) = Inr (Some ack)"
  using find_None_iff [of "\<lambda>r. rc_batch_id r = ak_batch_id ack" t]
  by (auto simp: ingestReceiptTx_def sql_select_def find_append receipt_of_def)

lemma apply_payload_receipts:
  "apply_payload db x recv = Inr (db1, rest) \<Longrightarrow> hd_receipts db1 = hd_receipts db"
  by (auto simp: apply_payload_def split: if_splits option.splits prod.splits)

text \<open>The three ways a call ends.\<close>

lemma ApplyIngestV2_cases:
  assumes "ApplyIngestV2 fails db x recv = (db', res)"
  obtains (failed) err where "res = Inl err" "db' = db"
  | (replayed) ack where "ingestReceiptTx (hd_receipts db) (ie_batch_id x) = Inr (Some ack)"
      "ak_device_id ack = ie_device_id x" "db' = db"
      "res = Inr \<lparr>ir_ack = ack, ir_replay = True, ir_mutated = False\<rparr>"
  | (applied) db1 accepted duplicates changed where
      "\<forall>r\<in>set (hd_receipts db). rc_batch_id r \<noteq> ie_batch_id x"
      "apply_payload db x recv = Inr (db1, accepted, duplicates, changed)"
      "db' = db1\<lparr>hd_receipts := hd_receipts db @ [receipt_of (applied_ack x accepted duplicates recv)]\<rparr>"
      "res = Inr \<lparr>ir_ack = applied_ack x accepted duplicates recv, ir_replay = False, ir_mutated = changed\<rparr>"
proof (cases res)
  case (Inl err)
  moreover have "db' = db"
    using assms Inl by (auto simp: ApplyIngestV2_def Let_def split: if_splits sum.splits option.splits prod.splits)
  ultimately show ?thesis by (rule failed)
next
  case (Inr r)
  show ?thesis
  proof (cases "ingestReceiptTx (hd_receipts db) (ie_batch_id x)")
    case (Inl e)
    with assms Inr show ?thesis by (auto simp: ApplyIngestV2_def split: if_splits)
  next
    case receipt: (Inr found)
    show ?thesis
    proof (cases found)
      case (Some ack)
      with assms Inr receipt show ?thesis
        by (intro replayed) (auto simp: ApplyIngestV2_def split: if_splits)
    next
      case None
      with receipt have fresh: "\<forall>r\<in>set (hd_receipts db). rc_batch_id r \<noteq> ie_batch_id x"
        by (simp add: ingestReceiptTx_None)
      from assms Inr receipt None obtain db1 accepted duplicates changed receipts where
        p: "apply_payload db x recv = Inr (db1, accepted, duplicates, changed)"
        and ins: "sql_insert receipt_conflict (receipt_of (applied_ack x accepted duplicates recv))
            (hd_receipts db1) = Some receipts"
        and db': "db' = db1\<lparr>hd_receipts := receipts\<rparr>"
        and res: "res = Inr \<lparr>ir_ack = applied_ack x accepted duplicates recv, ir_replay = False, ir_mutated = changed\<rparr>"
        by (auto simp: ApplyIngestV2_def Let_def applied_ack_def split: if_splits sum.splits option.splits prod.splits)
      have "receipts = hd_receipts db @ [receipt_of (applied_ack x accepted duplicates recv)]"
        using ins apply_payload_receipts [OF p] by (auto simp: sql_insert_def split: if_splits)
      with fresh p db' res show ?thesis by (intro applied) auto
    qed
  qed
qed

definition receipt_answer :: "hub_db \<Rightarrow> envelope \<times> int \<Rightarrow> ingest_ack option" where
  "receipt_answer db m =
     (case ingestReceiptTx (hd_receipts db) (ie_batch_id (fst m)) of
        Inr (Some ack) \<Rightarrow> if ak_device_id ack = ie_device_id (fst m) then Some ack else None
      | _ \<Rightarrow> None)"

definition ingest_deliver :: "(ingest_step \<Rightarrow> bool) \<Rightarrow> envelope \<times> int \<Rightarrow> hub_db \<Rightarrow>
    hub_db \<times> (ingest_error + ingest_ack)" where
  "ingest_deliver fails m db =
     (case ApplyIngestV2 fails db (fst m) (snd m) of
        (db', Inl err) \<Rightarrow> (db', Inl err) | (db', Inr r) \<Rightarrow> (db', Inr (ir_ack r)))"

lemma receipt_answer_Some:
  "receipt_answer db m = Some a \<longleftrightarrow>
     ingestReceiptTx (hd_receipts db) (ie_batch_id (fst m)) = Inr (Some a) \<and>
     ak_device_id a = ie_device_id (fst m)"
  by (auto simp: receipt_answer_def split: sum.splits option.splits if_splits)

lemma receipt_of_sel [simp]: "rc_batch_id (receipt_of a) = ak_batch_id a"
  by (simp add: receipt_of_def)

lemma applied_ack_sel [simp]:
  "ak_batch_id (applied_ack x a d n) = ie_batch_id x" "ak_device_id (applied_ack x a d n) = ie_device_id x"
  "ak_sequence (applied_ack x a d n) = ie_sequence x" "ak_rejected (applied_ack x a d n) = []"
  "ak_protocol_version (applied_ack x a d n) = ie_protocol_version x"
  "ak_accepted (applied_ack x a d n) = a" "ak_duplicates (applied_ack x a d n) = d"
  by (simp_all add: applied_ack_def)

interpretation receiver: receipted_receiver ingest_deliver receipt_answer
proof
  fix f m db db' e
  assume "ingest_deliver f m db = (db', Inl e)"
  then have "ApplyIngestV2 f db (fst m) (snd m) = (db', Inl e)"
    by (auto simp: ingest_deliver_def split: prod.splits sum.splits)
  then show "db' = db" by (cases rule: ApplyIngestV2_cases) auto
next
  fix db m a f db' b
  assume a: "receipt_answer db m = Some a" and d: "ingest_deliver f m db = (db', Inr b)"
  then obtain r where "ApplyIngestV2 f db (fst m) (snd m) = (db', Inr r)" "b = ir_ack r"
    by (auto simp: ingest_deliver_def split: prod.splits sum.splits)
  then show "db' = db \<and> b = a"
    using a ingestReceiptTx_None [of "hd_receipts db" "ie_batch_id (fst m)"]
    by (cases rule: ApplyIngestV2_cases) (auto simp: receipt_answer_Some)
next
  fix f m db db' a
  assume "ingest_deliver f m db = (db', Inr a)"
  then obtain r where r: "ApplyIngestV2 f db (fst m) (snd m) = (db', Inr r)" "a = ir_ack r"
    by (auto simp: ingest_deliver_def split: prod.splits sum.splits)
  from r(1) show "receipt_answer db' m = Some a"
  proof (cases rule: ApplyIngestV2_cases)
    case (applied db1 accepted duplicates changed)
    then show ?thesis
      using r(2) ingestReceiptTx_new [of "hd_receipts db" "applied_ack (fst m) accepted duplicates (snd m)"]
      by (simp add: receipt_answer_Some)
  qed (use r(2) in \<open>auto simp: receipt_answer_Some\<close>)
next
  fix db m a f m'
  assume a: "receipt_answer db m = Some a"
  obtain db' res where p: "ApplyIngestV2 f db (fst m') (snd m') = (db', res)" by fastforce
  then have "receipt_answer db' m = Some a"
  proof (cases rule: ApplyIngestV2_cases)
    case (applied db1 accepted duplicates changed)
    with a ingestReceiptTx_append show ?thesis by (simp add: receipt_answer_Some)
  qed (use a in auto)
  with p show "receipt_answer (fst (ingest_deliver f m' db)) m = Some a"
    by (simp add: ingest_deliver_def split: sum.splits)
qed


section \<open>Quota snapshots: the first observation of a key stays\<close>

lemma insertQuotasTx_first:
  "insertQuotasTx t qs = (t @ first_by quota_key (map quota_key t) qs,
     length (first_by quota_key (map quota_key t) qs))"
proof (induction qs arbitrary: t)
  case (Cons q qs)
  show ?case
  proof (cases "quota_key q \<in> quota_key ` set t")
    case True
    then have "list_ex (quota_conflict q) t" by (auto simp: list_ex_iff quota_conflict_def)
    with True Cons.IH [of t] show ?thesis by (simp add: sql_insert_ignore_def)
  next
    case False
    then have "\<not> list_ex (quota_conflict q) t" by (auto simp: list_ex_iff quota_conflict_def)
    moreover have "first_by quota_key (map quota_key (t @ [q])) qs =
        first_by quota_key (quota_key q # map quota_key t) qs"
      by (rule first_by_cong) auto
    ultimately show ?thesis using False Cons.IH [of "t @ [q]"] by (simp add: sql_insert_ignore_def)
  qed
qed simp

lemma insertQuotasTx_uniq: "qt.uniq t \<Longrightarrow> qt.uniq (fst (insertQuotasTx t qs))"
proof (induction qs arbitrary: t)
  case (Cons q qs)
  have "qt.uniq (fst (sql_insert_ignore quota_conflict q t))"
    by (rule qt.uniq_insert_ignore [OF Cons.prems])
  with Cons.IH show ?case by (simp add: split: prod.splits) (metis fst_conv)
qed simp

section \<open>Process reports: a snapshot replaces a device's sessions\<close>

definition procs_inv :: "live_session list \<Rightarrow> live_report list \<Rightarrow> bool" where
  "procs_inv ss rs \<longleftrightarrow> ls.uniq ss \<and> lr.uniq rs \<and>
     (\<forall>s\<in>set ss. \<exists>r\<in>set rs. lr_device r = ls_device s \<and> ls_observed_at s \<le> lr_observed_at r)"

definition last_report :: "live_report list \<Rightarrow> string \<Rightarrow> int" where
  "last_report rs d = (case sql_select (\<lambda>r. lr_device r = d) rs of None \<Rightarrow> 0 | Some r \<Rightarrow> lr_observed_at r)"

lemma session_row_sel [simp]:
  "ls_device (session_row rep s) = pr_device rep" "ls_pid (session_row rep s) = ps_pid s"
  "ls_observed_at (session_row rep s) = pr_observed_at rep"
  by (simp_all add: session_row_def)

lemma set_insert_replace:
  "set (sql_insert_replace conflict r t) = insert r {x \<in> set t. \<not> conflict r x}"
  by (auto simp: sql_insert_replace_def)

lemma set_replace_sessions:
  "distinct (map ps_pid ss) \<Longrightarrow>
     set (replace_sessions rep ss t) = session_row rep ` set ss \<union>
       {r \<in> set t. \<not> (ls_device r = pr_device rep \<and> ls_pid r \<in> ps_pid ` set ss)}"
proof (induction ss arbitrary: t)
  case (Cons s ss)
  then show ?case
    by (auto simp: set_insert_replace session_conflict_def image_iff)
qed simp

lemma replace_sessions_uniq: "ls.uniq t \<Longrightarrow> ls.uniq (replace_sessions rep ss t)"
  by (induction ss arbitrary: t) (auto intro: ls.uniq_insert_replace)

lemma applyProcReportTx_eq:
  assumes "pr_device rep \<noteq> []" "pr_observed_at rep \<noteq> 0" "last_report rs (pr_device rep) \<le> pr_observed_at rep"
  shows "\<exists>changed. applyProcReportTx ss rs rep =
    (filter (\<lambda>s. \<not> (ls_device s = pr_device rep \<and> ls_observed_at s < pr_observed_at rep))
       (replace_sessions rep (pr_sessions rep) ss),
     sql_insert_replace report_conflict \<lparr>lr_device = pr_device rep, lr_observed_at = pr_observed_at rep\<rparr> rs,
     changed)"
  using assms by (simp add: applyProcReportTx_def last_report_def Let_def sql_delete_def)

lemma applyProcReportTx_ignored:
  "pr_device rep = [] \<or> pr_observed_at rep = 0 \<or> pr_observed_at rep < last_report rs (pr_device rep) \<Longrightarrow>
     applyProcReportTx ss rs rep = (ss, rs, False)"
  by (auto simp: applyProcReportTx_def last_report_def Let_def)

lemma last_report_row:
  assumes "lr.uniq rs" "r \<in> set rs" shows "last_report rs (lr_device r) = lr_observed_at r"
proof -
  have "find (\<lambda>x. lr_device x = lr_device r) rs \<noteq> None" using assms(2) by (auto simp: find_None_iff)
  then obtain x where "find (\<lambda>x. lr_device x = lr_device r) rs = Some x" by blast
  with find_Some_D [OF this] lr.uniq_same [OF assms(1), of x r] assms(2) show ?thesis
    by (auto simp: last_report_def sql_select_def report_conflict_def)
qed

lemma procs_inv_old:
  "procs_inv ss rs \<Longrightarrow> s \<in> set ss \<Longrightarrow> ls_observed_at s \<le> last_report rs (ls_device s)"
  using last_report_row [of rs] by (fastforce simp: procs_inv_def)

lemma applyProcReportTx_snapshot:
  assumes inv: "procs_inv ss rs" and rep: "pr_device rep \<noteq> []" "pr_observed_at rep \<noteq> 0"
    and newer: "last_report rs (pr_device rep) < pr_observed_at rep"
    and pids: "distinct (map ps_pid (pr_sessions rep))"
    and app: "applyProcReportTx ss rs rep = (ss', rs', changed)"
  shows "{s \<in> set ss'. ls_device s = pr_device rep} = session_row rep ` set (pr_sessions rep) \<and>
    {s \<in> set ss'. ls_device s \<noteq> pr_device rep} = {s \<in> set ss. ls_device s \<noteq> pr_device rep}"
proof -
  have ss': "ss' = filter (\<lambda>s. \<not> (ls_device s = pr_device rep \<and> ls_observed_at s < pr_observed_at rep))
      (replace_sessions rep (pr_sessions rep) ss)"
    using applyProcReportTx_eq [OF rep, of rs ss] newer app by auto
  have old: "ls_observed_at s < pr_observed_at rep" if "s \<in> set ss" "ls_device s = pr_device rep" for s
    using procs_inv_old [OF inv that(1)] that(2) newer by simp
  show ?thesis
    unfolding ss' using old by (auto simp: set_replace_sessions [OF pids])
qed

lemma applyProcReportTx_inv:
  assumes inv: "procs_inv ss rs" and app: "applyProcReportTx ss rs rep = (ss', rs', changed)"
    and pids: "distinct (map ps_pid (pr_sessions rep))"
  shows "procs_inv ss' rs'"
proof (cases "pr_device rep = [] \<or> pr_observed_at rep = 0 \<or> pr_observed_at rep < last_report rs (pr_device rep)")
  case True
  from applyProcReportTx_ignored [OF this, of ss] app inv show ?thesis by simp
next
  case False
  let ?new = "\<lparr>lr_device = pr_device rep, lr_observed_at = pr_observed_at rep\<rparr>"
  have ss': "ss' = filter (\<lambda>s. \<not> (ls_device s = pr_device rep \<and> ls_observed_at s < pr_observed_at rep))
      (replace_sessions rep (pr_sessions rep) ss)"
    and rs': "rs' = sql_insert_replace report_conflict ?new rs"
    using applyProcReportTx_eq [of rep rs ss] False app by auto
  have "ls.uniq ss'" "lr.uniq rs'"
    unfolding ss' rs' using inv
    by (auto simp: procs_inv_def intro: ls.uniq_filter replace_sessions_uniq lr.uniq_insert_replace)
  moreover have "\<exists>r\<in>set rs'. lr_device r = ls_device s \<and> ls_observed_at s \<le> lr_observed_at r"
    if s: "s \<in> set ss'" for s
  proof (cases "ls_device s = pr_device rep")
    case True
    have "ls_observed_at s \<le> pr_observed_at rep"
      using s procs_inv_old [OF inv, of s] False True
      by (auto simp: ss' set_replace_sessions [OF pids])
    with True show ?thesis by (simp add: rs' set_insert_replace)
  next
    case other: False
    then have "s \<in> set ss" using s by (auto simp: ss' set_replace_sessions [OF pids])
    with inv obtain r where "r \<in> set rs" "lr_device r = ls_device s" "ls_observed_at s \<le> lr_observed_at r"
      by (auto simp: procs_inv_def)
    with other show ?thesis by (auto simp: rs' set_insert_replace report_conflict_def)
  qed
  ultimately show ?thesis by (simp add: procs_inv_def)
qed

end
