(* ===== verification/Device_Registry.thy ===== *)
theory Device_Registry
  imports Sql_Table Ingest_Protocol_Facts Go_Strconv
begin

text \<open>
  \<open>internal/store/deviceregistry.go\<close> and \<open>machineidentity.go\<close>: the device principals, their
  credentials and lifecycle, the latest heartbeat of each, and the binding of a machine to its
  principal. \<open>sha256\<close> is a parameter; \<open>io\<close> says whether the database driver refuses the call, in
  which case nothing changes. The \<open>capabilities\<close> column, a JSON array, is the list it encodes.
\<close>

section \<open>State\<close>

record device_record =
  dr_device_id :: string
  dr_display_name :: string
  dr_token_hash :: string
  dr_capabilities :: "string list"
  dr_created_at :: int
  dr_last_seen_at :: int
  dr_revoked_at :: int

record heartbeat =
  hb_protocol_version :: int
  hb_device_id :: string
  hb_agent_version :: string
  hb_boot_id :: string
  hb_sequence :: "64 word"
  hb_sent_at :: int
  hb_capabilities :: "string list"
  hb_queued_batches :: int
  hb_queued_bytes :: int
  hb_oldest_queued_at :: int
  hb_last_scan_at :: int
  hb_last_upload_at :: int
  hb_warnings :: "string list"
  hb_process_state :: "proc_report option"

record heartbeat_row =
  hr_device_id :: string
  hr_heartbeat :: heartbeat
  hr_received_at :: int

record machine_binding =
  mb_machine_id :: string
  mb_device_id :: string

record registry =
  rg_devices :: "device_record list"
  rg_heartbeats :: "heartbeat_row list"
  rg_bindings :: "machine_binding list"

definition device_conflict :: "device_record \<Rightarrow> device_record \<Rightarrow> bool" where
  "device_conflict a b \<longleftrightarrow> dr_device_id a = dr_device_id b \<or> dr_token_hash a = dr_token_hash b"

definition binding_conflict :: "machine_binding \<Rightarrow> machine_binding \<Rightarrow> bool" where
  "binding_conflict a b \<longleftrightarrow> mb_machine_id a = mb_machine_id b \<or> mb_device_id a = mb_device_id b"

interpretation dv: unique_rows device_conflict
  by unfold_locales (auto simp: device_conflict_def)

interpretation mb: unique_rows binding_conflict
  by unfold_locales (auto simp: binding_conflict_def)

datatype registry_error = InvalidDeviceID | TokenRequired | RegisterRefused | InvalidMachineEnrollment
  | MachineIdentityConflict | DeviceRevoked | LegacyCredentialConflict | BindRefused
  | ErrDeviceNotFound | InvalidStoredHash | RegistryIO

section \<open>Devices and credentials\<close>

definition hashDeviceToken :: "(string \<Rightarrow> 8 word list) \<Rightarrow> string \<Rightarrow> string" where
  "hashDeviceToken sha256 plaintext = hex_encode (sha256 plaintext)"

definition deviceByID :: "registry \<Rightarrow> string \<Rightarrow> device_record option" where
  "deviceByID s deviceID = sql_select (\<lambda>d. dr_device_id d = deviceID) (rg_devices s)"

definition RegisterDevice :: "(string \<Rightarrow> 8 word list) \<Rightarrow> bool \<Rightarrow> string \<Rightarrow> string \<Rightarrow> string \<Rightarrow>
    string list \<Rightarrow> int \<Rightarrow> registry \<Rightarrow> registry \<times> (registry_error + device_record)" where
  "RegisterDevice sha256 io deviceID displayName token capabilities createdAt s =
     (if \<not> isCanonicalUUID deviceID then (s, Inl InvalidDeviceID)
      else if token = [] then (s, Inl TokenRequired)
      else if io then (s, Inl RegistryIO)
      else
        let record = \<lparr>dr_device_id = deviceID, dr_display_name = displayName,
               dr_token_hash = hashDeviceToken sha256 token, dr_capabilities = capabilities,
               dr_created_at = createdAt, dr_last_seen_at = 0, dr_revoked_at = 0\<rparr>
        in (case sql_insert device_conflict record (rg_devices s) of
              None \<Rightarrow> (s, Inl RegisterRefused)
            | Some devices \<Rightarrow> (s\<lparr>rg_devices := devices\<rparr>, Inr record)))"

text \<open>\<open>None\<close> for an unknown principal; the comparison is on the decoded digests.\<close>

definition AuthenticateDevice :: "(string \<Rightarrow> 8 word list) \<Rightarrow> registry \<Rightarrow> string \<Rightarrow> string \<Rightarrow>
    registry_error + device_record option \<times> bool" where
  "AuthenticateDevice sha256 s deviceID token =
     (case deviceByID s deviceID of
        None \<Rightarrow> Inr (None, False)
      | Some record \<Rightarrow>
          (case hex_decode (dr_token_hash record) of
             None \<Rightarrow> Inl InvalidStoredHash
           | Some stored \<Rightarrow>
               if length stored \<noteq> 32 then Inl InvalidStoredHash
               else
                 let candidate = (case hex_decode (hashDeviceToken sha256 token) of Some c \<Rightarrow> c | None \<Rightarrow> []);
                     matches = (stored = candidate)
                 in Inr (Some record, matches \<and> dr_revoked_at record = 0)))"

definition update_device :: "bool \<Rightarrow> string \<Rightarrow> (device_record \<Rightarrow> device_record) \<Rightarrow> registry \<Rightarrow>
    registry \<times> registry_error option" where
  "update_device io deviceID f s =
     (if io then (s, Some RegistryIO)
      else
        let (devices, affected) = sql_update (\<lambda>d. dr_device_id d = deviceID) f (rg_devices s)
        in (s\<lparr>rg_devices := devices\<rparr>, if affected = 0 then Some ErrDeviceNotFound else None))"

definition TouchDevice :: "bool \<Rightarrow> string \<Rightarrow> int \<Rightarrow> registry \<Rightarrow> registry \<times> registry_error option" where
  "TouchDevice io deviceID receivedAt s =
     update_device io deviceID (\<lambda>d. d\<lparr>dr_last_seen_at := max (dr_last_seen_at d) receivedAt\<rparr>) s"

definition UpdateDeviceMetadata :: "bool \<Rightarrow> string \<Rightarrow> string \<Rightarrow> string list \<Rightarrow> registry \<Rightarrow>
    registry \<times> registry_error option" where
  "UpdateDeviceMetadata io deviceID displayName capabilities s =
     update_device io deviceID (\<lambda>d. d\<lparr>dr_display_name := displayName, dr_capabilities := capabilities\<rparr>) s"

definition RevokeDevice :: "bool \<Rightarrow> string \<Rightarrow> int \<Rightarrow> registry \<Rightarrow> registry \<times> registry_error option" where
  "RevokeDevice io deviceID revokedAt s = update_device io deviceID (\<lambda>d. d\<lparr>dr_revoked_at := revokedAt\<rparr>) s"

section \<open>Heartbeats\<close>

text \<open>\<open>INSERT ... ON CONFLICT(device_id) DO UPDATE ... WHERE excluded.received_at >= received_at\<close>\<close>

definition SaveHeartbeat :: "bool \<Rightarrow> heartbeat \<Rightarrow> int \<Rightarrow> registry \<Rightarrow> registry \<times> registry_error option" where
  "SaveHeartbeat io h receivedAt s =
     (if io then (s, Some RegistryIO)
      else if list_ex (\<lambda>r. hr_device_id r = hb_device_id h) (rg_heartbeats s) then
        (s\<lparr>rg_heartbeats := fst (sql_update
             (\<lambda>r. hr_device_id r = hb_device_id h \<and> receivedAt \<ge> hr_received_at r)
             (\<lambda>r. r\<lparr>hr_heartbeat := h, hr_received_at := receivedAt\<rparr>) (rg_heartbeats s))\<rparr>, None)
      else (s\<lparr>rg_heartbeats := rg_heartbeats s @
             [\<lparr>hr_device_id = hb_device_id h, hr_heartbeat = h, hr_received_at = receivedAt\<rparr>]\<rparr>, None))"

definition LatestHeartbeat :: "registry \<Rightarrow> string \<Rightarrow> (heartbeat \<times> int) option" where
  "LatestHeartbeat s deviceID =
     map_option (\<lambda>r. (hr_heartbeat r, hr_received_at r))
       (sql_select (\<lambda>r. hr_device_id r = deviceID) (rg_heartbeats s))"

section \<open>Machine enrollment\<close>

text \<open>The transaction of \<open>EnrollMachineDevice\<close> after its argument check.\<close>

definition enroll_tx :: "(string \<Rightarrow> 8 word list) \<Rightarrow> string \<Rightarrow> string \<Rightarrow> string \<Rightarrow> string \<Rightarrow>
    string list \<Rightarrow> int \<Rightarrow> registry \<Rightarrow> registry_error + registry \<times> device_record" where
  "enroll_tx sha256 machineID requestedID name token capabilities createdAt s =
     (let bound = sql_select (\<lambda>b. mb_machine_id b = machineID) (rg_bindings s);
          canonical = (case bound of None \<Rightarrow> requestedID | Some b \<Rightarrow> mb_device_id b);
          hash = hashDeviceToken sha256 token
      in if bound \<noteq> None \<and> requestedID \<noteq> canonical \<and> requestedID \<noteq> machineID
         then Inl MachineIdentityConflict
         else (case deviceByID s canonical of
           Some record \<Rightarrow>
             if dr_revoked_at record \<noteq> 0 then Inl DeviceRevoked
             else if (case bound of None \<Rightarrow> True | Some b \<Rightarrow> mb_device_id b = []) \<and> dr_token_hash record \<noteq> hash
               then Inl LegacyCredentialConflict
             else
               let devices = fst (sql_update (\<lambda>d. dr_device_id d = canonical)
                     (\<lambda>d. d\<lparr>dr_display_name := name, dr_token_hash := hash, dr_capabilities := capabilities\<rparr>)
                     (rg_devices s))
               in if \<not> dv.uniq devices then Inl RegisterRefused
                  else Inr (s\<lparr>rg_devices := devices\<rparr>,
                    record\<lparr>dr_display_name := name, dr_token_hash := hash, dr_capabilities := capabilities\<rparr>)
         | None \<Rightarrow>
             (let record = \<lparr>dr_device_id = canonical, dr_display_name = name, dr_token_hash = hash,
                    dr_capabilities = capabilities, dr_created_at = createdAt, dr_last_seen_at = 0,
                    dr_revoked_at = 0\<rparr>
              in (case sql_insert device_conflict record (rg_devices s) of
                    None \<Rightarrow> Inl RegisterRefused
                  | Some devices \<Rightarrow> Inr (s\<lparr>rg_devices := devices\<rparr>, record)))))"

text \<open>\<open>ON CONFLICT(machine_id) DO NOTHING\<close> covers only the machine's own binding.\<close>

definition bind_machine :: "string \<Rightarrow> string \<Rightarrow> registry \<Rightarrow> registry option" where
  "bind_machine machineID deviceID s =
     (if list_ex (\<lambda>b. mb_machine_id b = machineID) (rg_bindings s) then Some s
      else map_option (\<lambda>bs. s\<lparr>rg_bindings := bs\<rparr>)
        (sql_insert binding_conflict \<lparr>mb_machine_id = machineID, mb_device_id = deviceID\<rparr> (rg_bindings s)))"

definition EnrollMachineDevice :: "(string \<Rightarrow> 8 word list) \<Rightarrow> bool \<Rightarrow> string \<Rightarrow> string \<Rightarrow> string \<Rightarrow>
    string \<Rightarrow> string list \<Rightarrow> int \<Rightarrow> registry \<Rightarrow> registry \<times> (registry_error + device_record)" where
  "EnrollMachineDevice sha256 io machineID requestedID name token capabilities createdAt s =
     (if \<not> isCanonicalUUID machineID \<or> \<not> isCanonicalUUID requestedID \<or> token = [] \<or> name = []
      then (s, Inl InvalidMachineEnrollment)
      else if io then (s, Inl RegistryIO)
      else (case enroll_tx sha256 machineID requestedID name token capabilities createdAt s of
        Inl err \<Rightarrow> (s, Inl err)
      | Inr (s1, record) \<Rightarrow>
          (case bind_machine machineID (dr_device_id record) s1 of
             None \<Rightarrow> (s, Inl BindRefused)
           | Some s2 \<Rightarrow> (s2, Inr record))))"

end
