(* ===== verification/Device_Registry_Facts.thy ===== *)
theory Device_Registry_Facts
  imports Device_Registry
begin

text \<open>
  The registry over arbitrary histories of its operations: principals and credentials stay
  unique, a binding is never changed, a revoked principal stays revoked. Then what each operation
  does to authentication.
\<close>

section \<open>Histories\<close>

datatype registry_op =
    OpRegister bool string string string "string list" int
  | OpTouch bool string int
  | OpMetadata bool string string "string list"
  | OpRevoke bool string int
  | OpHeartbeat bool heartbeat int
  | OpEnroll bool string string string string "string list" int

fun registry_step :: "(string \<Rightarrow> 8 word list) \<Rightarrow> registry_op \<Rightarrow> registry \<Rightarrow> registry" where
  "registry_step sha256 (OpRegister io i name tok caps now) s = fst (RegisterDevice sha256 io i name tok caps now s)"
| "registry_step sha256 (OpTouch io i now) s = fst (TouchDevice io i now s)"
| "registry_step sha256 (OpMetadata io i name caps) s = fst (UpdateDeviceMetadata io i name caps s)"
| "registry_step sha256 (OpRevoke io i now) s = fst (RevokeDevice io i now s)"
| "registry_step sha256 (OpHeartbeat io h now) s = fst (SaveHeartbeat io h now s)"
| "registry_step sha256 (OpEnroll io m i name tok caps now) s =
     fst (EnrollMachineDevice sha256 io m i name tok caps now s)"

definition registry_inv :: "registry \<Rightarrow> bool" where
  "registry_inv s \<longleftrightarrow> dv.uniq (rg_devices s) \<and> mb.uniq (rg_bindings s) \<and>
     (\<forall>b\<in>set (rg_bindings s). \<exists>d\<in>set (rg_devices s). dr_device_id d = mb_device_id b)"

section \<open>What one operation does to the device table\<close>

text \<open>
  Every operation keeps the principals it finds, with their ids, and clears no revocation; new
  rows have new ids and are not revoked.
\<close>

definition devices_extend :: "device_record list \<Rightarrow> device_record list \<Rightarrow> bool" where
  "devices_extend ds ds' \<longleftrightarrow>
     (\<forall>d\<in>set ds. \<exists>d'\<in>set ds'. dr_device_id d' = dr_device_id d \<and>
        (dr_revoked_at d \<noteq> 0 \<longrightarrow> dr_revoked_at d' \<noteq> 0)) \<and> (dv.uniq ds \<longrightarrow> dv.uniq ds')"

lemma devices_extend_refl: "devices_extend ds ds"
  by (auto simp: devices_extend_def)

lemma devices_extend_insert: "sql_insert device_conflict r ds = Some ds' \<Longrightarrow> devices_extend ds ds'"
  using dv.uniq_insert [of ds r ds']
  by (auto simp: devices_extend_def sql_insert_def split: if_splits)

lemma uniq_update_same_keys:
  assumes "dv.uniq ds" "\<And>d. dr_device_id (f d) = dr_device_id d" "\<And>d. dr_token_hash (f d) = dr_token_hash d"
  shows "dv.uniq (fst (sql_update P f ds))"
  unfolding fst_sql_update
  by (rule dv.uniq_map [OF assms(1)]) (auto simp: device_conflict_def assms(2,3) split: if_splits)

lemma devices_extend_update:
  assumes "\<And>d. dr_device_id (f d) = dr_device_id d" "\<And>d. dr_token_hash (f d) = dr_token_hash d"
    and "\<And>d. dr_revoked_at d \<noteq> 0 \<Longrightarrow> dr_revoked_at (f d) \<noteq> 0"
  shows "devices_extend ds (fst (sql_update P f ds))"
proof -
  have "\<exists>d'\<in>set (fst (sql_update P f ds)). dr_device_id d' = dr_device_id d \<and>
      (dr_revoked_at d \<noteq> 0 \<longrightarrow> dr_revoked_at d' \<noteq> 0)" if "d \<in> set ds" for d
    using that assms by (intro bexI [of _ "if P d then f d else d"]) auto
  then show ?thesis
    using uniq_update_same_keys [OF _ assms(1,2)] by (simp add: devices_extend_def)
qed

lemma update_device_bindings [simp]: "rg_bindings (fst (update_device io i f s)) = rg_bindings s"
  by (simp add: update_device_def case_prod_beta)

lemma update_device_rows: "rg_devices (fst (update_device io i f s)) =
    (if io then rg_devices s else fst (sql_update (\<lambda>d. dr_device_id d = i) f (rg_devices s)))"
  by (simp add: update_device_def case_prod_beta)

lemma update_device_devices:
  assumes "\<And>d. dr_device_id (f d) = dr_device_id d" "\<And>d. dr_token_hash (f d) = dr_token_hash d"
    and "\<And>d. dr_revoked_at d \<noteq> 0 \<Longrightarrow> dr_revoked_at (f d) \<noteq> 0"
  shows "devices_extend (rg_devices s) (rg_devices (fst (update_device io i f s)))"
proof (cases io)
  case True
  then show ?thesis by (simp add: update_device_rows devices_extend_refl)
next
  case False
  have "devices_extend (rg_devices s) (fst (sql_update (\<lambda>d. dr_device_id d = i) f (rg_devices s)))"
    by (rule devices_extend_update) (use assms in auto)
  with False show ?thesis by (simp only: update_device_rows if_False)
qed

lemma Register_devices:
  "devices_extend (rg_devices s) (rg_devices (fst (RegisterDevice sha256 io i name tok caps now s))) \<and>
     rg_bindings (fst (RegisterDevice sha256 io i name tok caps now s)) = rg_bindings s"
  by (auto simp: RegisterDevice_def Let_def devices_extend_refl devices_extend_insert split: option.splits)

lemma SaveHeartbeat_devices:
  "rg_devices (fst (SaveHeartbeat io h now s)) = rg_devices s \<and>
     rg_bindings (fst (SaveHeartbeat io h now s)) = rg_bindings s"
  by (simp add: SaveHeartbeat_def)

text \<open>The two ways a machine enrollment succeeds.\<close>

lemma Enroll_cases:
  assumes "EnrollMachineDevice sha256 io m i name tok caps now s = (s', res)"
  obtains (failed) e where "res = Inl e" "s' = s"
  | (enrolled) s1 dev where "res = Inr dev"
      "enroll_tx sha256 m i name tok caps now s = Inr (s1, dev)"
      "bind_machine m (dr_device_id dev) s1 = Some s'"
      "isCanonicalUUID m" "isCanonicalUUID i" "tok \<noteq> []"
  using assms by (auto simp: EnrollMachineDevice_def split: if_splits sum.splits option.splits prod.splits)

lemma deviceByID_Some: "deviceByID s i = Some d \<Longrightarrow> d \<in> set (rg_devices s) \<and> dr_device_id d = i"
  by (auto simp: deviceByID_def sql_select_def dest: find_Some_D)

lemma deviceByID_None: "deviceByID s i = None \<longleftrightarrow> (\<forall>d\<in>set (rg_devices s). dr_device_id d \<noteq> i)"
  by (auto simp: deviceByID_def sql_select_def find_None_iff)

lemma deviceByID_uniq:
  assumes "dv.uniq (rg_devices s)" "d \<in> set (rg_devices s)"
  shows "deviceByID s (dr_device_id d) = Some d"
proof (cases "deviceByID s (dr_device_id d)")
  case None
  with assms(2) show ?thesis by (auto simp: deviceByID_None)
next
  case (Some x)
  from deviceByID_Some [OF Some] have "x \<in> set (rg_devices s)" "device_conflict x d"
    by (auto simp: device_conflict_def)
  with dv.uniq_same [OF assms(1) _ assms(2)] Some show ?thesis by simp
qed

definition canonical_of :: "registry \<Rightarrow> string \<Rightarrow> string \<Rightarrow> string" where
  "canonical_of s m i = (case sql_select (\<lambda>b. mb_machine_id b = m) (rg_bindings s) of
     None \<Rightarrow> i | Some b \<Rightarrow> mb_device_id b)"

lemma enroll_tx_Inr:
  assumes "enroll_tx sha256 m i name tok caps now s = Inr (s1, dev)"
  shows "dr_device_id dev = canonical_of s m i \<and> rg_bindings s1 = rg_bindings s \<and>
    devices_extend (rg_devices s) (rg_devices s1) \<and>
    (\<exists>d\<in>set (rg_devices s1). dr_device_id d = canonical_of s m i \<and> dr_revoked_at d = 0 \<and>
       dr_token_hash d = hashDeviceToken sha256 tok)"
proof (cases "deviceByID s (canonical_of s m i)")
  case None
  then show ?thesis
    using assms
    by (auto simp: enroll_tx_def canonical_of_def Let_def sql_insert_def intro: devices_extend_insert
        split: if_splits option.splits)
next
  case (Some d)
  let ?c = "canonical_of s m i"
  let ?f = "\<lambda>d. d\<lparr>dr_display_name := name, dr_token_hash := hashDeviceToken sha256 tok, dr_capabilities := caps\<rparr>"
  let ?ds = "fst (sql_update (\<lambda>d. dr_device_id d = ?c) ?f (rg_devices s))"
  have in_d: "d \<in> set (rg_devices s)" "dr_device_id d = ?c" using deviceByID_Some [OF Some] by auto
  from assms Some have live: "dr_revoked_at d = 0" and u: "dv.uniq ?ds"
    and s1: "s1 = s\<lparr>rg_devices := ?ds\<rparr>" and r: "dev = ?f d"
    by (auto simp: enroll_tx_def canonical_of_def Let_def split: if_splits)
  have "\<exists>x\<in>set ?ds. dr_device_id x = dr_device_id y \<and> (dr_revoked_at y \<noteq> 0 \<longrightarrow> dr_revoked_at x \<noteq> 0)"
    if "y \<in> set (rg_devices s)" for y
    using that by (intro bexI [of _ "if dr_device_id y = ?c then ?f y else y"]) auto
  then have "devices_extend (rg_devices s) ?ds" using u by (simp add: devices_extend_def)
  moreover have "?f d \<in> set ?ds" using in_d by (auto intro: rev_image_eqI)
  ultimately show ?thesis
    using live s1 r in_d by (intro conjI bexI [of _ "?f d"]) auto
qed

lemma bind_machine_Some:
  "bind_machine m d s = Some s' \<Longrightarrow>
     rg_devices s' = rg_devices s \<and>
     (if \<exists>b\<in>set (rg_bindings s). mb_machine_id b = m then rg_bindings s' = rg_bindings s
      else rg_bindings s' = rg_bindings s @ [\<lparr>mb_machine_id = m, mb_device_id = d\<rparr>] \<and>
        (mb.uniq (rg_bindings s) \<longrightarrow> mb.uniq (rg_bindings s')))"
  using mb.uniq_insert [of "rg_bindings s" "\<lparr>mb_machine_id = m, mb_device_id = d\<rparr>"]
  by (auto simp: bind_machine_def list_ex_iff sql_insert_def split: if_splits)

definition bindings_extend :: "machine_binding list \<Rightarrow> machine_binding list \<Rightarrow> bool" where
  "bindings_extend bs bs' \<longleftrightarrow> set bs \<subseteq> set bs' \<and> (mb.uniq bs \<longrightarrow> mb.uniq bs')"

lemma Enroll_extend:
  assumes "EnrollMachineDevice sha256 io m i name tok caps now s = (s', res)"
  shows "devices_extend (rg_devices s) (rg_devices s') \<and> bindings_extend (rg_bindings s) (rg_bindings s')"
  using assms
proof (cases rule: Enroll_cases)
  case failed
  then show ?thesis by (simp add: devices_extend_refl bindings_extend_def)
next
  case (enrolled s1 dev)
  from enroll_tx_Inr [OF enrolled(2)] bind_machine_Some [OF enrolled(3)] show ?thesis
    by (auto simp: bindings_extend_def split: if_splits)
qed

text \<open>No history of operations revokes with the timestamp that means ``not revoked''.\<close>

fun stamped_op :: "registry_op \<Rightarrow> bool" where
  "stamped_op (OpRevoke io i now) = (now \<noteq> 0)"
| "stamped_op op = True"

lemma step_extend:
  assumes "stamped_op op"
  shows "devices_extend (rg_devices s) (rg_devices (registry_step sha256 op s)) \<and>
    bindings_extend (rg_bindings s) (rg_bindings (registry_step sha256 op s))"
proof (cases op)
  case (OpEnroll io m i name tok caps now)
  then show ?thesis
    using Enroll_extend by (cases "EnrollMachineDevice sha256 io m i name tok caps now s") simp
next
  case (OpRevoke io i now)
  then show ?thesis
    using assms update_device_devices [of "\<lambda>d. d\<lparr>dr_revoked_at := now\<rparr>" s io i]
    by (simp add: RevokeDevice_def bindings_extend_def)
qed (use Register_devices SaveHeartbeat_devices in
      \<open>simp_all add: TouchDevice_def UpdateDeviceMetadata_def update_device_devices bindings_extend_def devices_extend_refl\<close>)

lemma step_inv:
  assumes "registry_inv s" "stamped_op op" shows "registry_inv (registry_step sha256 op s)"
proof -
  have ext: "devices_extend (rg_devices s) (rg_devices (registry_step sha256 op s))"
    "bindings_extend (rg_bindings s) (rg_bindings (registry_step sha256 op s))"
    using step_extend [OF assms(2), of s sha256] by auto
  have "\<exists>d\<in>set (rg_devices (registry_step sha256 op s)). dr_device_id d = mb_device_id b"
    if b: "b \<in> set (rg_bindings (registry_step sha256 op s))" for b
  proof (cases "b \<in> set (rg_bindings s)")
    case True
    then obtain d where "d \<in> set (rg_devices s)" "dr_device_id d = mb_device_id b"
      using assms(1) by (auto simp: registry_inv_def)
    with ext(1) show ?thesis by (fastforce simp: devices_extend_def)
  next
    case False
    then show ?thesis
    proof (cases op)
      case (OpEnroll io m i name tok caps now)
      obtain s' res where p: "EnrollMachineDevice sha256 io m i name tok caps now s = (s', res)" by fastforce
      then show ?thesis
      proof (cases rule: Enroll_cases)
        case failed
        with False b p OpEnroll show ?thesis by simp
      next
        case (enrolled s1 dev)
        from enroll_tx_Inr [OF enrolled(2)] bind_machine_Some [OF enrolled(3)] False b p OpEnroll
        show ?thesis by (auto split: if_splits)
      qed
    qed (use False b Register_devices SaveHeartbeat_devices in
        \<open>simp_all add: TouchDevice_def UpdateDeviceMetadata_def RevokeDevice_def\<close>)
  qed
  with ext assms(1) show ?thesis
    by (auto simp: registry_inv_def devices_extend_def bindings_extend_def)
qed


section \<open>Histories\<close>

lemma run_extend:
  assumes "\<forall>op\<in>set ops. stamped_op op" "registry_inv s"
  shows "devices_extend (rg_devices s) (rg_devices (run_steps (registry_step sha256) ops s)) \<and>
    bindings_extend (rg_bindings s) (rg_bindings (run_steps (registry_step sha256) ops s)) \<and>
    registry_inv (run_steps (registry_step sha256) ops s)"
  using assms
proof (induction ops arbitrary: s)
  case Nil
  then show ?case by (simp add: devices_extend_refl bindings_extend_def)
next
  case (Cons op ops)
  let ?s = "registry_step sha256 op s"
  have inv: "registry_inv ?s" using Cons.prems by (intro step_inv) auto
  have ext: "devices_extend (rg_devices s) (rg_devices ?s)" "bindings_extend (rg_bindings s) (rg_bindings ?s)"
    using step_extend [of op s sha256] Cons.prems by auto
  note IH = Cons.IH [OF _ inv]
  have "devices_extend (rg_devices s) (rg_devices (run_steps (registry_step sha256) ops ?s))"
    using ext(1) IH Cons.prems(1) unfolding devices_extend_def by (auto; metis)
  moreover have "bindings_extend (rg_bindings s) (rg_bindings (run_steps (registry_step sha256) ops ?s))"
    using ext(2) IH Cons.prems(1) unfolding bindings_extend_def by auto
  ultimately show ?case using IH Cons.prems(1) by simp
qed

lemma revoked_never_authenticates:
  assumes "dv.uniq (rg_devices s)" "d \<in> set (rg_devices s)" "dr_revoked_at d \<noteq> 0"
  shows "AuthenticateDevice sha256 s (dr_device_id d) tok \<noteq> Inr (r, True)"
  using deviceByID_uniq [OF assms(1,2)] assms(3)
  by (auto simp: AuthenticateDevice_def split: option.splits)

section \<open>Authentication\<close>

lemma AuthenticateDevice_hash:
  assumes "\<And>x. length (sha256 x) = 32" "deviceByID s i = Some d"
    and "dr_token_hash d = hashDeviceToken sha256 tok"
  shows "AuthenticateDevice sha256 s i tok' = Inr (Some d, sha256 tok = sha256 tok' \<and> dr_revoked_at d = 0)"
  using assms by (simp add: AuthenticateDevice_def hashDeviceToken_def)

lemma Register_authenticates:
  assumes "\<And>x. length (sha256 x) = 32" "registry_inv s"
    and "RegisterDevice sha256 io i name tok caps now s = (s', Inr d)"
  shows "AuthenticateDevice sha256 s' i tok' = Inr (Some d, sha256 tok = sha256 tok')"
proof -
  from assms(3) have d: "dr_device_id d = i" "dr_token_hash d = hashDeviceToken sha256 tok" "dr_revoked_at d = 0"
    and ins: "sql_insert device_conflict d (rg_devices s) = Some (rg_devices s')"
    by (auto simp: RegisterDevice_def Let_def split: if_splits option.splits)
  have "rg_devices s' = rg_devices s @ [d]" using ins by (auto simp: sql_insert_def split: if_splits)
  then have "dv.uniq (rg_devices s')" "d \<in> set (rg_devices s')"
    using dv.uniq_insert [OF _ ins] assms(2) by (auto simp: registry_inv_def)
  with deviceByID_uniq d have "deviceByID s' i = Some d" by blast
  with AuthenticateDevice_hash [OF assms(1) this d(2)] d(3) show ?thesis by simp
qed

lemma Enroll_authenticates:
  assumes "\<And>x. length (sha256 x) = 32" "registry_inv s"
    and "EnrollMachineDevice sha256 io m i name tok caps now s = (s', Inr d)"
  shows "\<exists>r. AuthenticateDevice sha256 s' (dr_device_id d) tok' = Inr (Some r, sha256 tok = sha256 tok')"
  using assms(3)
proof (cases rule: Enroll_cases)
  case (enrolled s1 dev)
  then have d: "d = dev" by simp
  from enroll_tx_Inr [OF enrolled(2)] obtain r where r: "r \<in> set (rg_devices s1)"
      "dr_device_id r = dr_device_id d" "dr_revoked_at r = 0" "dr_token_hash r = hashDeviceToken sha256 tok"
    and "devices_extend (rg_devices s) (rg_devices s1)"
    using d by auto
  then have "dv.uniq (rg_devices s')" "r \<in> set (rg_devices s')"
    using assms(2) bind_machine_Some [OF enrolled(3)] by (auto simp: registry_inv_def devices_extend_def)
  with deviceByID_uniq r(2) have "deviceByID s' (dr_device_id d) = Some r" by metis
  with AuthenticateDevice_hash [OF assms(1) this r(4)] r(3) show ?thesis by auto
qed simp

section \<open>One machine, one principal\<close>

lemma Enroll_binds:
  assumes "registry_inv s" "EnrollMachineDevice sha256 io m i name tok caps now s = (s', Inr d)"
  shows "\<lparr>mb_machine_id = m, mb_device_id = dr_device_id d\<rparr> \<in> set (rg_bindings s')"
  using assms(2)
proof (cases rule: Enroll_cases)
  case (enrolled s1 dev)
  from enroll_tx_Inr [OF enrolled(2)] have dev: "dr_device_id dev = canonical_of s m i"
    and b1: "rg_bindings s1 = rg_bindings s" by auto
  show ?thesis
  proof (cases "sql_select (\<lambda>b. mb_machine_id b = m) (rg_bindings s)")
    case None
    then have "\<not> (\<exists>b\<in>set (rg_bindings s1). mb_machine_id b = m)"
      by (auto simp: b1 sql_select_def find_None_iff)
    with bind_machine_Some [OF enrolled(3)] enrolled(1) show ?thesis by auto
  next
    case (Some b)
    then have "b \<in> set (rg_bindings s)" "mb_machine_id b = m"
      by (auto simp: sql_select_def dest: find_Some_D)
    then have "rg_bindings s' = rg_bindings s"
      using bind_machine_Some [OF enrolled(3)] b1 by (auto split: if_splits)
    moreover have "\<lparr>mb_machine_id = m, mb_device_id = dr_device_id d\<rparr> = b"
      using \<open>mb_machine_id b = m\<close> Some dev enrolled(1) by (cases b) (simp add: canonical_of_def)
    ultimately show ?thesis using \<open>b \<in> set (rg_bindings s)\<close> by simp
  qed
qed simp

lemma Enroll_same_principal:
  assumes "mb.uniq (rg_bindings s)" "b \<in> set (rg_bindings s)" "mb_machine_id b = m"
    and "EnrollMachineDevice sha256 io m i name tok caps now s = (s', Inr d)"
  shows "dr_device_id d = mb_device_id b"
  using assms(4)
proof (cases rule: Enroll_cases)
  case (enrolled s1 dev)
  have "sql_select (\<lambda>b. mb_machine_id b = m) (rg_bindings s) \<noteq> None"
    using assms(2,3) by (auto simp: sql_select_def find_None_iff)
  then obtain c where c: "sql_select (\<lambda>b. mb_machine_id b = m) (rg_bindings s) = Some c" by blast
  then have "c \<in> set (rg_bindings s)" "mb_machine_id c = m"
    by (auto simp: sql_select_def dest: find_Some_D)
  then have "c = b"
    using mb.uniq_same [OF assms(1) _ assms(2)] assms(3) by (auto simp: binding_conflict_def)
  with c enroll_tx_Inr [OF enrolled(2)] enrolled(1) show ?thesis by (simp add: canonical_of_def)
qed simp

end
