(* ===== verification/Hub_Server.thy ===== *)
theory Hub_Server
  imports Ingest_Facts Device_Registry_Facts
begin

text \<open>
  The version 2 endpoints of the hub (\<open>internal/server/ingestv2.go\<close>, \<open>heartbeat.go\<close> and the
  credential check of \<open>server.go\<close>): each handler from its decoded request to the reply and the new
  state, in the order of its early returns. What the JSON decoder made of the body is an input
  (\<open>decoded\<close>), as are the clock and which database calls fail (\<open>hub_faults\<close>).
\<close>

record hub =
  hu_db :: hub_db
  hu_registry :: registry
  hu_notified :: nat

text \<open>\<open>hu_notified\<close> counts \<open>s.bcast.Notify()\<close>, the signal that makes dashboards refresh.\<close>

record hub_faults =
  hf_auth :: bool
  hf_ingest :: "ingest_step \<Rightarrow> bool"
  hf_procs :: bool
  hf_heartbeat :: bool
  hf_metadata :: bool
  hf_touch :: bool
  hf_registry :: bool

datatype 'a decoded = RequestTooLarge | Malformed | Decoded 'a

datatype reply = ReplyError int string | ReplyAck int ingest_ack | ReplyDevice int device_record
  | ReplyHeartbeat string int | ReplyRevoked string int

definition notify :: "hub \<Rightarrow> hub" where
  "notify h = h\<lparr>hu_notified := hu_notified h + 1\<rparr>"

section \<open>Credentials\<close>

definition ascii_lower :: "char \<Rightarrow> char" where
  "ascii_lower c = (if CHR ''A'' \<le> c \<and> c \<le> CHR ''Z'' then char_of (of_char c + 32 :: nat) else c)"

text \<open>\<open>strings.EqualFold(scheme, "Bearer")\<close>: no letter of the constant folds outside ASCII.\<close>

definition is_bearer :: "string \<Rightarrow> bool" where
  "is_bearer scheme \<longleftrightarrow> map ascii_lower scheme = ''bearer''"

definition bearerCredential :: "string \<Rightarrow> string option" where
  "bearerCredential authorization =
     (let scheme = takeWhile (\<lambda>c. c \<noteq> CHR '' '') authorization;
          credential = drop (length scheme + 1) authorization
      in if CHR '' '' \<notin> set authorization \<or> scheme = [] \<or> length scheme = length authorization - 1
         then None
         else if \<not> is_bearer scheme then None
         else if list_ex (\<lambda>c. c \<in> {CHR '' '', CHR 0x09, CHR 0x0D, CHR 0x0A}) credential then None
         else Some credential)"

definition credentialOK :: "string \<Rightarrow> string \<Rightarrow> bool" where
  "credentialOK authorization token \<longleftrightarrow> authorization = ''Bearer '' @ token"

definition authenticate :: "(string \<Rightarrow> 8 word list) \<Rightarrow> bool \<Rightarrow> registry \<Rightarrow> string \<Rightarrow> string \<Rightarrow>
    registry_error + device_record option \<times> bool" where
  "authenticate sha256 io s deviceID authorization =
     (case bearerCredential authorization of
        None \<Rightarrow> Inr (None, False)
      | Some credential \<Rightarrow>
          if io then Inl RegistryIO else AuthenticateDevice sha256 s deviceID credential)"

section \<open>POST /api/v2/ingest\<close>

definition refusal :: "envelope \<Rightarrow> ingest_rejection list \<Rightarrow> int \<Rightarrow> ingest_ack" where
  "refusal x rejected receivedAt =
     \<lparr>ak_protocol_version = IngestProtocolV2, ak_device_id = ie_device_id x,
      ak_batch_id = ie_batch_id x, ak_sequence = ie_sequence x, ak_accepted = 0,
      ak_duplicates = 0, ak_rejected = rejected, ak_server_time = receivedAt\<rparr>"

definition handleIngestV2 :: "(string \<Rightarrow> 8 word list) \<Rightarrow> hub_faults \<Rightarrow> int \<Rightarrow> string \<Rightarrow>
    envelope decoded \<Rightarrow> hub \<Rightarrow> hub \<times> reply" where
  "handleIngestV2 sha256 faults receivedAt authorization body h =
     (case body of
        RequestTooLarge \<Rightarrow> (h, ReplyError 413 ''request_too_large'')
      | Malformed \<Rightarrow> (h, ReplyError 400 ''malformed_request'')
      | Decoded x \<Rightarrow>
          (let rejected = ValidateIngestEnvelope x
           in if length rejected > 0 then (h, ReplyAck 422 (refusal x rejected receivedAt))
              else (case authenticate sha256 (hf_auth faults) (hu_registry h) (ie_device_id x) authorization of
                Inl err \<Rightarrow> (h, ReplyError 500 ''authentication_error'')
              | Inr (_, authenticated) \<Rightarrow>
                  if \<not> authenticated then (h, ReplyError 401 ''unauthorized'')
                  else (case ApplyIngestV2 (hf_ingest faults) (hu_db h) x receivedAt of
                    (db', Inl err) \<Rightarrow>
                      if err = ReceiptConflict then (h\<lparr>hu_db := db'\<rparr>, ReplyError 409 ''batch_id_conflict'')
                      else (h\<lparr>hu_db := db'\<rparr>, ReplyError 500 ''store_error'')
                  | (db', Inr result) \<Rightarrow>
                      (let h1 = h\<lparr>hu_db := db'\<rparr>
                       in (if ir_mutated result then notify h1 else h1, ReplyAck 200 (ir_ack result)))))))"

section \<open>POST /api/v2/heartbeat\<close>

fun canonical_switch :: "nat \<Rightarrow> string \<Rightarrow> bool" where
  "canonical_switch i [] = True"
| "canonical_switch i (c # cs) =
     (if i = 8 \<or> i = 13 \<or> i = 18 \<or> i = 23
      then (if c \<noteq> CHR ''-'' then False else canonical_switch (i + 1) cs)
      else if CHR ''0'' \<le> c \<and> c \<le> CHR ''9'' then canonical_switch (i + 1) cs
      else if CHR ''a'' \<le> c \<and> c \<le> CHR ''f'' then canonical_switch (i + 1) cs
      else False)"

definition validCanonicalUUID :: "string \<Rightarrow> bool" where
  "validCanonicalUUID value =
     (if length value \<noteq> 36 \<or> value = nil_uuid then False else canonical_switch 0 value)"

definition heartbeatValid :: "heartbeat \<Rightarrow> bool" where
  "heartbeatValid hb =
     (if hb_protocol_version hb \<noteq> IngestProtocolV2 \<or> \<not> validCanonicalUUID (hb_device_id hb) \<or>
         \<not> validCanonicalUUID (hb_boot_id hb) \<or> hb_sequence hb = 0 \<or> hb_sent_at hb \<le> 0 \<or>
         hb_queued_batches hb < 0 \<or> hb_queued_bytes hb < 0 then False
      else (case hb_process_state hb of None \<Rightarrow> True | Some p \<Rightarrow> pr_device p = hb_device_id hb))"

text \<open>\<open>Store.ApplyProcReport\<close> (procs.go): the report in a transaction of its own.\<close>

definition ApplyProcReport :: "bool \<Rightarrow> proc_report \<Rightarrow> hub_db \<Rightarrow> hub_db \<times> bool option" where
  "ApplyProcReport io report db =
     (if pr_device report = [] \<or> pr_observed_at report = 0 then (db, Some False)
      else if io then (db, None)
      else
        let (ss, rs, changed) = applyProcReportTx (hd_sessions db) (hd_reports db) report
        in (db\<lparr>hd_sessions := ss, hd_reports := rs\<rparr>, Some changed))"

text \<open>The hub trusts neither the device nor the clock of the report it was sent.\<close>

definition adopt_report :: "heartbeat \<Rightarrow> int \<Rightarrow> proc_report \<Rightarrow> proc_report" where
  "adopt_report hb receivedAt p = p\<lparr>pr_device := hb_device_id hb, pr_observed_at := receivedAt\<rparr>"

definition handleHeartbeatV2 :: "(string \<Rightarrow> 8 word list) \<Rightarrow> hub_faults \<Rightarrow> int \<Rightarrow> string \<Rightarrow>
    heartbeat decoded \<Rightarrow> hub \<Rightarrow> hub \<times> reply" where
  "handleHeartbeatV2 sha256 faults receivedAt authorization body h =
     (case body of
        RequestTooLarge \<Rightarrow> (h, ReplyError 413 ''request_too_large'')
      | Malformed \<Rightarrow> (h, ReplyError 400 ''malformed_request'')
      | Decoded hb \<Rightarrow>
          if \<not> heartbeatValid hb then (h, ReplyError 400 ''invalid_heartbeat'')
          else (case authenticate sha256 (hf_auth faults) (hu_registry h) (hb_device_id hb) authorization of
            Inl err \<Rightarrow> (h, ReplyError 500 ''authentication_error'')
          | Inr (None, _) \<Rightarrow> (h, ReplyError 401 ''unauthorized'')
          | Inr (Some device, authenticated) \<Rightarrow>
              if \<not> authenticated then (h, ReplyError 401 ''unauthorized'')
              else
                let hb1 = hb\<lparr>hb_process_state := map_option (adopt_report hb receivedAt) (hb_process_state hb)\<rparr>;
                    (db1, applied) = (case hb_process_state hb1 of
                        None \<Rightarrow> (hu_db h, Some False)
                      | Some p \<Rightarrow> ApplyProcReport (hf_procs faults) p (hu_db h));
                    h1 = h\<lparr>hu_db := db1\<rparr>
                in if applied = None then (h1, ReplyError 500 ''store_error'')
                   else (case SaveHeartbeat (hf_heartbeat faults) hb1 receivedAt (hu_registry h1) of
                     (r1, Some err) \<Rightarrow> (h1\<lparr>hu_registry := r1\<rparr>, ReplyError 500 ''store_error'')
                   | (r1, None) \<Rightarrow>
                     (case UpdateDeviceMetadata (hf_metadata faults) (dr_device_id device)
                             (dr_display_name device) (hb_capabilities hb1) r1 of
                        (r2, Some err) \<Rightarrow> (h1\<lparr>hu_registry := r2\<rparr>, ReplyError 500 ''store_error'')
                      | (r2, None) \<Rightarrow>
                        (case TouchDevice (hf_touch faults) (dr_device_id device) receivedAt r2 of
                           (r3, Some err) \<Rightarrow> (h1\<lparr>hu_registry := r3\<rparr>, ReplyError 500 ''store_error'')
                         | (r3, None) \<Rightarrow>
                             (notify (h1\<lparr>hu_registry := r3\<rparr>),
                              ReplyHeartbeat (dr_device_id device) receivedAt))))))"

section \<open>POST /api/v2/enroll and the revocation endpoint\<close>

record enrollment_request =
  er_machine_id :: string
  er_device_id :: string
  er_device_token :: string
  er_display_name :: string
  er_capabilities :: "string list"

definition handleEnrollV2 :: "(string \<Rightarrow> 8 word list) \<Rightarrow> string \<Rightarrow> hub_faults \<Rightarrow> int \<Rightarrow> string \<Rightarrow>
    enrollment_request decoded \<Rightarrow> hub \<Rightarrow> hub \<times> reply" where
  "handleEnrollV2 sha256 adminToken faults now authorization body h =
     (if adminToken = [] \<or> \<not> credentialOK authorization adminToken
      then (h, ReplyError 401 ''unauthorized'')
      else (case body of
        RequestTooLarge \<Rightarrow> (h, ReplyError 413 ''request_too_large'')
      | Malformed \<Rightarrow> (h, ReplyError 400 ''malformed_request'')
      | Decoded q \<Rightarrow>
          if \<not> validCanonicalUUID (er_device_id q) \<or> er_device_token q = [] \<or> er_display_name q = []
          then (h, ReplyError 400 ''invalid_enrollment'')
          else if er_machine_id q \<noteq> [] then
            (case EnrollMachineDevice sha256 (hf_registry faults) (er_machine_id q) (er_device_id q)
                    (er_display_name q) (er_device_token q) (er_capabilities q) now (hu_registry h) of
               (r, Inl err) \<Rightarrow> (h\<lparr>hu_registry := r\<rparr>, ReplyError 409 ''machine_enrollment_conflict'')
             | (r, Inr dev) \<Rightarrow> (h\<lparr>hu_registry := r\<rparr>, ReplyDevice 200 dev))
          else if hf_auth faults then (h, ReplyError 500 ''store_error'')
          else (case deviceByID (hu_registry h) (er_device_id q) of
            None \<Rightarrow>
              (case RegisterDevice sha256 (hf_registry faults) (er_device_id q) (er_display_name q)
                      (er_device_token q) (er_capabilities q) now (hu_registry h) of
                 (r, Inl err) \<Rightarrow> (h\<lparr>hu_registry := r\<rparr>, ReplyError 409 ''enrollment_conflict'')
               | (r, Inr dev) \<Rightarrow> (h\<lparr>hu_registry := r\<rparr>, ReplyDevice 201 dev))
          | Some dev \<Rightarrow>
              (case AuthenticateDevice sha256 (hu_registry h) (er_device_id q) (er_device_token q) of
                 Inl err \<Rightarrow> (h, ReplyError 500 ''store_error'')
               | Inr (_, authenticated) \<Rightarrow>
                   if \<not> authenticated then (h, ReplyError 409 ''enrollment_conflict'')
                   else (case UpdateDeviceMetadata (hf_metadata faults) (er_device_id q)
                           (er_display_name q) (er_capabilities q) (hu_registry h) of
                     (r, Some err) \<Rightarrow> (h\<lparr>hu_registry := r\<rparr>, ReplyError 500 ''store_error'')
                   | (r, None) \<Rightarrow> (h\<lparr>hu_registry := r\<rparr>,
                       ReplyDevice 200 (dev\<lparr>dr_display_name := er_display_name q,
                         dr_capabilities := er_capabilities q\<rparr>)))))))"

definition handleRevokeDeviceV2 :: "string \<Rightarrow> hub_faults \<Rightarrow> int \<Rightarrow> string \<Rightarrow> hub \<Rightarrow> hub \<times> reply" where
  "handleRevokeDeviceV2 adminToken faults revokedAt deviceID h =
     (if adminToken = [] then (h, ReplyError 401 ''admin_credential_not_configured'')
      else if \<not> validCanonicalUUID deviceID then (h, ReplyError 400 ''invalid_device_id'')
      else (case RevokeDevice (hf_registry faults) deviceID revokedAt (hu_registry h) of
        (r, Some err) \<Rightarrow>
          if err = ErrDeviceNotFound then (h\<lparr>hu_registry := r\<rparr>, ReplyError 404 ''device_not_found'')
          else (h\<lparr>hu_registry := r\<rparr>, ReplyError 500 ''store_error'')
      | (r, None) \<Rightarrow> (notify (h\<lparr>hu_registry := r\<rparr>), ReplyRevoked deviceID revokedAt)))"

lemma canonical_switch_eq: "canonical_switch k v = uuid_bytes k v"
  by (induction v arbitrary: k) (auto simp: uuid_dash_def lower_hex_def)

lemma validCanonicalUUID_eq: "validCanonicalUUID v = validUUID v"
  by (simp add: validCanonicalUUID_def validUUID_def canonical_switch_eq)

end
