(* ===== verification/Outbox.thy ===== *)
theory Outbox
  imports Sql_Table Ingest_Protocol_Facts Go_Strconv
begin

text \<open>
  \<open>internal/agent/outbox.go\<close>: the durable queue between collection and upload. A row holds one
  encoded envelope; \<open>outbox_meta\<close> holds the last assigned sequence as decimal text. Every
  operation is one transaction; \<open>fails\<close> says which of its statements the driver refuses, and a
  failed transaction leaves the outbox as it was.

  The JSON codec is a parameter: \<open>marshal\<close> is \<open>json.Marshal\<close> of an envelope, \<open>unmarshal\<close> is
  \<open>json.Unmarshal\<close> into one, and what the outbox relies on is stated where it is used.
\<close>

section \<open>State\<close>

record outbox_row =
  ob_id :: nat
  ob_batch_id :: string
  ob_envelope :: string
  ob_payload_bytes :: int
  ob_enqueued_at :: int

text \<open>\<open>ob_next\<close> is SQLite's \<open>AUTOINCREMENT\<close> counter: ids are never reused.\<close>

record outbox =
  ob_rows :: "outbox_row list"
  ob_next :: nat
  ob_last_sequence :: string
  ob_max_bytes :: int

datatype outbox_step = ObBegin | ObReadSequence | ObCheckDuplicate | ObReadCapacity | ObInsert
  | ObPersistSequence | ObReadOldest | ObDelete | ObCommit

datatype outbox_error = ErrOutboxEmpty | ErrOutboxFull | ErrOutboxConflict | ErrEnvelopeTooLarge
  | ErrInvalidAcknowledgement | InvalidEnvelope string | EncodeFailed | DecodeFailed
  | SequenceExhausted | SequenceUnreadable | OutboxIO outbox_step | UUIDFailed

definition DefaultOutboxMaxBytes :: int where "DefaultOutboxMaxBytes = 64 * 2 ^ 20"

definition row_conflict :: "outbox_row \<Rightarrow> outbox_row \<Rightarrow> bool" where
  "row_conflict a b \<longleftrightarrow> ob_id a = ob_id b \<or> ob_batch_id a = ob_batch_id b"

interpretation ob: unique_rows row_conflict
  by unfold_locales (auto simp: row_conflict_def)

text \<open>\<open>OpenOutbox\<close> on a new file: the migration's tables, sequence text \<open>0\<close>.\<close>

definition OpenOutbox :: "int \<Rightarrow> outbox" where
  "OpenOutbox maxBytes = \<lparr>ob_rows = [], ob_next = 1, ob_last_sequence = ''0'',
     ob_max_bytes = (if maxBytes \<le> 0 then DefaultOutboxMaxBytes else maxBytes)\<rparr>"

definition queued_bytes :: "outbox \<Rightarrow> int" where
  "queued_bytes o1 = sum_list (map ob_payload_bytes (ob_rows o1))"

text \<open>\<open>ORDER BY id LIMIT 1\<close>\<close>

fun oldest_row :: "outbox_row list \<Rightarrow> outbox_row option" where
  "oldest_row [] = None"
| "oldest_row (r # rs) = (case oldest_row rs of None \<Rightarrow> Some r
     | Some q \<Rightarrow> if ob_id q < ob_id r then Some q else Some r)"

section \<open>Enqueueing\<close>

definition encodeOutboxEnvelope :: "(envelope \<Rightarrow> string option) \<Rightarrow> envelope \<Rightarrow> outbox_error + string" where
  "encodeOutboxEnvelope marshal x =
     (case ValidateIngestEnvelope x of
        r # _ \<Rightarrow> Inl (InvalidEnvelope (rj_code r))
      | [] \<Rightarrow> (case marshal x of
          None \<Rightarrow> Inl EncodeFailed
        | Some payload \<Rightarrow>
            if length payload > MaxIngestEnvelopeBytes then Inl ErrEnvelopeTooLarge else Inr payload))"

definition insertNewPayloadTx :: "(outbox_step \<Rightarrow> bool) \<Rightarrow> string \<Rightarrow> string \<Rightarrow> int \<Rightarrow> outbox \<Rightarrow>
    outbox_error + outbox" where
  "insertNewPayloadTx fails batchID payload enqueuedAt o1 =
     (if fails ObInsert then Inl (OutboxIO ObInsert)
      else (case sql_insert row_conflict
             \<lparr>ob_id = ob_next o1, ob_batch_id = batchID, ob_envelope = payload,
              ob_payload_bytes = int (length payload), ob_enqueued_at = enqueuedAt\<rparr> (ob_rows o1) of
        None \<Rightarrow> Inl (OutboxIO ObInsert)
      | Some rows \<Rightarrow> Inr (o1\<lparr>ob_rows := rows, ob_next := ob_next o1 + 1\<rparr>)))"

definition enqueuePayloadTx :: "(outbox_step \<Rightarrow> bool) \<Rightarrow> string \<Rightarrow> string \<Rightarrow> int \<Rightarrow> outbox \<Rightarrow>
    outbox_error + outbox" where
  "enqueuePayloadTx fails batchID payload enqueuedAt o1 =
     (if fails ObCheckDuplicate then Inl (OutboxIO ObCheckDuplicate)
      else (case sql_select (\<lambda>r. ob_batch_id r = batchID) (ob_rows o1) of
        Some r \<Rightarrow> if ob_envelope r = payload then Inr o1 else Inl ErrOutboxConflict
      | None \<Rightarrow>
          if fails ObReadCapacity then Inl (OutboxIO ObReadCapacity)
          else if int (length payload) > i64 (ob_max_bytes o1 - queued_bytes o1) then Inl ErrOutboxFull
          else insertNewPayloadTx fails batchID payload enqueuedAt o1))"

definition Enqueue :: "(envelope \<Rightarrow> string option) \<Rightarrow> (outbox_step \<Rightarrow> bool) \<Rightarrow> int \<Rightarrow> envelope \<Rightarrow>
    outbox \<Rightarrow> outbox \<times> outbox_error option" where
  "Enqueue marshal fails now x o1 =
     (case encodeOutboxEnvelope marshal x of
        Inl err \<Rightarrow> (o1, Some err)
      | Inr payload \<Rightarrow>
          if fails ObBegin then (o1, Some (OutboxIO ObBegin))
          else (case enqueuePayloadTx fails (ie_batch_id x) payload now o1 of
            Inl err \<Rightarrow> (o1, Some err)
          | Inr o2 \<Rightarrow> if fails ObCommit then (o1, Some (OutboxIO ObCommit)) else (o2, None)))"

text \<open>The assignment loop of \<open>EnqueueManyNext\<close>: sequences, payloads and \<open>addedBytes\<close>.\<close>

fun assign_sequences :: "(envelope \<Rightarrow> string option) \<Rightarrow> 64 word \<Rightarrow> int \<Rightarrow> envelope list \<Rightarrow>
    outbox_error + (envelope \<times> string) list \<times> 64 word \<times> int" where
  "assign_sequences marshal current added [] = Inr ([], current, added)"
| "assign_sequences marshal current added (x # xs) =
     (if current = - 1 then Inl SequenceExhausted
      else
        let current' = current + 1;
            x' = x\<lparr>ie_sequence := current'\<rparr>
        in (case encodeOutboxEnvelope marshal x' of
              Inl err \<Rightarrow> Inl err
            | Inr payload \<Rightarrow>
                (case assign_sequences marshal current' (i64 (added + int (length payload))) xs of
                   Inl err \<Rightarrow> Inl err
                 | Inr (rest, last_seq, sum_bytes) \<Rightarrow> Inr ((x', payload) # rest, last_seq, sum_bytes))))"

fun insert_payloads :: "(outbox_step \<Rightarrow> bool) \<Rightarrow> int \<Rightarrow> (envelope \<times> string) list \<Rightarrow> outbox \<Rightarrow>
    outbox_error + outbox" where
  "insert_payloads fails now [] o1 = Inr o1"
| "insert_payloads fails now ((x, payload) # rest) o1 =
     (case insertNewPayloadTx fails (ie_batch_id x) payload now o1 of
        Inl err \<Rightarrow> Inl err
      | Inr o2 \<Rightarrow> insert_payloads fails now rest o2)"

definition EnqueueManyNext :: "(envelope \<Rightarrow> string option) \<Rightarrow> (outbox_step \<Rightarrow> bool) \<Rightarrow> int \<Rightarrow>
    envelope list \<Rightarrow> outbox \<Rightarrow> outbox \<times> (outbox_error + envelope list)" where
  "EnqueueManyNext marshal fails now xs o1 =
     (if length xs = 0 then (o1, Inr [])
      else if fails ObBegin then (o1, Inl (OutboxIO ObBegin))
      else if fails ObReadSequence then (o1, Inl (OutboxIO ObReadSequence))
      else (case ParseUint (ob_last_sequence o1) of
        None \<Rightarrow> (o1, Inl SequenceUnreadable)
      | Some current \<Rightarrow>
          (case assign_sequences marshal current 0 xs of
             Inl err \<Rightarrow> (o1, Inl err)
           | Inr (assigned, current', addedBytes) \<Rightarrow>
               if fails ObReadCapacity then (o1, Inl (OutboxIO ObReadCapacity))
               else if addedBytes > i64 (ob_max_bytes o1 - queued_bytes o1)
                 then (o1, Inl ErrOutboxFull)
               else (case insert_payloads fails now assigned o1 of
                 Inl err \<Rightarrow> (o1, Inl err)
               | Inr o2 \<Rightarrow>
                   if fails ObPersistSequence then (o1, Inl (OutboxIO ObPersistSequence))
                   else if fails ObCommit then (o1, Inl (OutboxIO ObCommit))
                   else (o2\<lparr>ob_last_sequence := FormatUint current'\<rparr>, Inr (map fst assigned))))))"

definition EnqueueNext :: "(envelope \<Rightarrow> string option) \<Rightarrow> (outbox_step \<Rightarrow> bool) \<Rightarrow> int \<Rightarrow>
    envelope \<Rightarrow> outbox \<Rightarrow> outbox \<times> (outbox_error + envelope)" where
  "EnqueueNext marshal fails now x o1 =
     (case EnqueueManyNext marshal fails now [x] o1 of
        (o2, Inl err) \<Rightarrow> (o2, Inl err)
      | (o2, Inr xs) \<Rightarrow> (o2, Inr (hd xs)))"

section \<open>Reading and acknowledging the oldest batch\<close>

definition PeekBatch :: "(string \<Rightarrow> envelope option) \<Rightarrow> (outbox_step \<Rightarrow> bool) \<Rightarrow> outbox \<Rightarrow>
    outbox_error + envelope" where
  "PeekBatch unmarshal fails o1 =
     (if fails ObReadOldest then Inl (OutboxIO ObReadOldest)
      else (case oldest_row (ob_rows o1) of
        None \<Rightarrow> Inl ErrOutboxEmpty
      | Some r \<Rightarrow> (case unmarshal (ob_envelope r) of
          None \<Rightarrow> Inl DecodeFailed
        | Some x \<Rightarrow> Inr x)))"

definition Acknowledge :: "(string \<Rightarrow> envelope option) \<Rightarrow> (outbox_step \<Rightarrow> bool) \<Rightarrow> ingest_ack \<Rightarrow>
    outbox \<Rightarrow> outbox \<times> outbox_error option" where
  "Acknowledge unmarshal fails ack o1 =
     (if fails ObBegin then (o1, Some (OutboxIO ObBegin))
      else if fails ObReadOldest then (o1, Some (OutboxIO ObReadOldest))
      else (case oldest_row (ob_rows o1) of
        None \<Rightarrow> (o1, Some ErrOutboxEmpty)
      | Some r \<Rightarrow> (case unmarshal (ob_envelope r) of
          None \<Rightarrow> (o1, Some DecodeFailed)
        | Some x \<Rightarrow>
            if ak_protocol_version ack \<noteq> ie_protocol_version x \<or> ak_device_id ack \<noteq> ie_device_id x \<or>
               ak_batch_id ack \<noteq> ie_batch_id x \<or> ak_sequence ack \<noteq> ie_sequence x
            then (o1, Some ErrInvalidAcknowledgement)
            else if fails ObDelete then (o1, Some (OutboxIO ObDelete))
            else if fails ObCommit then (o1, Some (OutboxIO ObCommit))
            else (o1\<lparr>ob_rows := fst (sql_delete (\<lambda>q. ob_id q = ob_id r) (ob_rows o1))\<rparr>, None))))"

record outbox_stats =
  st_queued_batches :: nat
  st_queued_bytes :: int
  st_oldest_queued_at :: int
  st_max_bytes :: int

definition Stats :: "outbox \<Rightarrow> outbox_stats" where
  "Stats o1 = \<lparr>st_queued_batches = length (ob_rows o1), st_queued_bytes = queued_bytes o1,
     st_oldest_queued_at = (if ob_rows o1 = [] then 0 else Min (set (map ob_enqueued_at (ob_rows o1)))),
     st_max_bytes = ob_max_bytes o1\<rparr>"

end
