(* ===== verification/Outbox_Facts.thy ===== *)
theory Outbox_Facts
  imports Outbox
begin

text \<open>
  What the outbox promises. \<open>durable_fifo\<close> is the queue contract the delivery pipeline relies
  on, with its client lemma proved once: over any history of operations, what was accepted is
  what was removed followed by what is still queued, in order. The outbox interprets it.
\<close>

section \<open>The queue contract\<close>

locale durable_fifo =
  fixes inv :: "'s \<Rightarrow> bool"
    and contents :: "'s \<Rightarrow> 'p list"
    and step :: "'c \<Rightarrow> 's \<Rightarrow> 's"
    and accepts :: "'c \<Rightarrow> 's \<Rightarrow> 'p list"
    and removes :: "'c \<Rightarrow> 's \<Rightarrow> 'p list"
  assumes inv_step: "inv s \<Longrightarrow> inv (step c s)"
    and fifo_step: "inv s \<Longrightarrow> contents s @ accepts c s = removes c s @ contents (step c s)"
begin

lemma inv_run: "inv s \<Longrightarrow> inv (run_steps step cs s)"
  by (rule run_steps_inv) (auto intro: inv_step)

lemma fifo_history:
  "inv s \<Longrightarrow> contents s @ collect_steps step accepts cs s =
     collect_steps step removes cs s @ contents (run_steps step cs s)"
proof (induction cs arbitrary: s)
  case (Cons c cs)
  have "contents s @ collect_steps step accepts (c # cs) s =
      removes c s @ contents (step c s) @ collect_steps step accepts cs (step c s)"
    using fifo_step [OF Cons.prems, of c] by (simp add: append_assoc [symmetric] del: append_assoc)
  also have "\<dots> = removes c s @ collect_steps step removes cs (step c s) @
      contents (run_steps step cs (step c s))"
    using Cons.IH [OF inv_step [OF Cons.prems]] by simp
  finally show ?case by simp
qed simp

end

section \<open>The outbox invariant\<close>

definition queue_contents :: "outbox \<Rightarrow> string list" where
  "queue_contents o1 = map ob_envelope (ob_rows o1)"

definition ob_inv :: "outbox \<Rightarrow> bool" where
  "ob_inv o1 \<longleftrightarrow> sorted_wrt (<) (map ob_id (ob_rows o1)) \<and>
     (\<forall>r\<in>set (ob_rows o1). ob_id r < ob_next o1 \<and> ob_payload_bytes r = int (length (ob_envelope r))) \<and>
     distinct (map ob_batch_id (ob_rows o1)) \<and> 0 < ob_max_bytes o1 \<and>
     ParseUint (ob_last_sequence o1) \<noteq> None"

lemma oldest_row_sorted:
  "sorted_wrt (<) (map ob_id rs) \<Longrightarrow> oldest_row rs = (case rs of [] \<Rightarrow> None | r # _ \<Rightarrow> Some r)"
proof (induction rs)
  case (Cons r rs)
  then show ?case by (cases rs) auto
qed simp

lemma ob_inv_oldest: "ob_inv o1 \<Longrightarrow> oldest_row (ob_rows o1) = (case ob_rows o1 of [] \<Rightarrow> None | r # _ \<Rightarrow> Some r)"
  by (rule oldest_row_sorted) (simp add: ob_inv_def)

lemma ob_inv_open: "ob_inv (OpenOutbox n)"
  by (simp add: ob_inv_def OpenOutbox_def DefaultOutboxMaxBytes_def ParseUint_def is_digit_def
      parse_digits_def digit_val_def)

section \<open>Sequences\<close>

fun sequenced :: "64 word \<Rightarrow> envelope list \<Rightarrow> envelope list" where
  "sequenced c [] = []"
| "sequenced c (x # xs) = x\<lparr>ie_sequence := c + 1\<rparr> # sequenced (c + 1) xs"

lemma length_sequenced [simp]: "length (sequenced c xs) = length xs"
  by (induction xs arbitrary: c) auto

lemma sequenced_batch_ids [simp]: "map ie_batch_id (sequenced c xs) = map ie_batch_id xs"
  by (induction xs arbitrary: c) auto

lemma sequenced_nth: "i < length xs \<Longrightarrow> ie_sequence (sequenced c xs ! i) = c + of_nat (i + 1)"
proof (induction xs arbitrary: c i)
  case (Cons x xs)
  then show ?case by (cases i) (simp_all add: add.assoc)
qed simp

lemma unat_succ: "c \<noteq> - 1 \<Longrightarrow> unat (c + 1 :: 64 word) = unat c + 1"
  by (metis Suc_eq_plus1 add.commute add_eq_0_iff2 unatSuc)

definition payload_sum :: "(envelope \<times> string) list \<Rightarrow> int" where
  "payload_sum xs = sum_list (map (\<lambda>(x, p). int (length p)) xs)"

lemma assign_sequences_Inr:
  "assign_sequences marshal c n xs = Inr (assigned, c', n') \<Longrightarrow>
     map fst assigned = sequenced c xs \<and> unat c' = unat c + length xs \<and>
     (\<forall>(x, p)\<in>set assigned. encodeOutboxEnvelope marshal x = Inr p)"
proof (induction xs arbitrary: c n assigned)
  case (Cons x xs)
  from Cons.prems obtain p rest where c: "c \<noteq> - 1"
    and p: "encodeOutboxEnvelope marshal (x\<lparr>ie_sequence := c + 1\<rparr>) = Inr p"
    and rest: "assign_sequences marshal (c + 1) (i64 (n + int (length p))) xs = Inr (rest, c', n')"
    and "assigned = (x\<lparr>ie_sequence := c + 1\<rparr>, p) # rest"
    by (auto simp: Let_def split: if_splits sum.splits)
  with Cons.IH [OF rest] show ?case by (simp add: unat_succ)
qed simp

lemma encode_length: "encodeOutboxEnvelope marshal x = Inr p \<Longrightarrow> length p \<le> MaxIngestEnvelopeBytes"
  by (auto simp: encodeOutboxEnvelope_def split: list.splits option.splits if_splits)

lemma assign_sequences_sum:
  assumes "assign_sequences marshal c n xs = Inr (assigned, c', n')"
    and "0 \<le> n" "n + int (length xs) * int MaxIngestEnvelopeBytes < 2 ^ 63"
  shows "n' = n + payload_sum assigned"
  using assms
proof (induction xs arbitrary: c n assigned)
  case Nil
  then show ?case by (simp add: payload_sum_def)
next
  case (Cons x xs)
  from Cons.prems(1) obtain p rest where
    p: "encodeOutboxEnvelope marshal (x\<lparr>ie_sequence := c + 1\<rparr>) = Inr p"
    and rest: "assign_sequences marshal (c + 1) (i64 (n + int (length p))) xs = Inr (rest, c', n')"
    and a: "assigned = (x\<lparr>ie_sequence := c + 1\<rparr>, p) # rest"
    by (auto simp: Let_def split: if_splits sum.splits)
  have len: "int (length p) \<le> int MaxIngestEnvelopeBytes"
    using encode_length [OF p] by simp
  have pos: "0 \<le> int (length xs) * int MaxIngestEnvelopeBytes" by simp
  have bound: "n + int (length p) + int (length xs) * int MaxIngestEnvelopeBytes < 2 ^ 63"
    using Cons.prems(3) len by (simp add: distrib_right)
  then have "i64 (n + int (length p)) = n + int (length p)"
    using Cons.prems(2) pos by (intro i64_bounded) linarith+
  with Cons.IH [OF rest] bound Cons.prems(2) a show ?case by (simp add: payload_sum_def)
qed

section \<open>Insertion\<close>

fun rows_of :: "nat \<Rightarrow> int \<Rightarrow> (envelope \<times> string) list \<Rightarrow> outbox_row list" where
  "rows_of i now [] = []"
| "rows_of i now ((x, p) # rest) =
     \<lparr>ob_id = i, ob_batch_id = ie_batch_id x, ob_envelope = p, ob_payload_bytes = int (length p),
      ob_enqueued_at = now\<rparr> # rows_of (i + 1) now rest"

lemma rows_of_simps [simp]:
  "map ob_envelope (rows_of i now xs) = map snd xs"
  "map ob_batch_id (rows_of i now xs) = map (ie_batch_id \<circ> fst) xs"
  "length (rows_of i now xs) = length xs"
  by (induction xs arbitrary: i) auto

lemma rows_of_row:
  "r \<in> set (rows_of i now xs) \<Longrightarrow>
     i \<le> ob_id r \<and> ob_id r < i + length xs \<and> ob_payload_bytes r = int (length (ob_envelope r))"
  by (induction xs arbitrary: i) (fastforce split: prod.splits)+

lemma rows_of_sorted: "sorted_wrt (<) (map ob_id (rows_of i now xs))"
proof (induction xs arbitrary: i)
  case (Cons x xs)
  then show ?case by (cases x) (auto dest: rows_of_row)
qed simp

lemma rows_of_bytes: "sum_list (map ob_payload_bytes (rows_of i now xs)) = payload_sum xs"
  by (induction xs arbitrary: i) (auto simp: payload_sum_def)

lemma insertNewPayload_Inr:
  assumes "insertNewPayloadTx fails i p now o1 = Inr o2"
  shows "o2 = o1\<lparr>ob_rows := ob_rows o1 @ [\<lparr>ob_id = ob_next o1, ob_batch_id = i, ob_envelope = p,
      ob_payload_bytes = int (length p), ob_enqueued_at = now\<rparr>], ob_next := ob_next o1 + 1\<rparr> \<and>
    i \<notin> ob_batch_id ` set (ob_rows o1)"
  using assms
  by (auto simp: insertNewPayloadTx_def sql_insert_def list_ex_iff row_conflict_def image_iff
      split: if_splits)

lemma insert_payloads_Inr:
  "insert_payloads fails now xs o1 = Inr o2 \<Longrightarrow>
     o2 = o1\<lparr>ob_rows := ob_rows o1 @ rows_of (ob_next o1) now xs, ob_next := ob_next o1 + length xs\<rparr> \<and>
     (distinct (map ob_batch_id (ob_rows o1)) \<longrightarrow> distinct (map ob_batch_id (ob_rows o2)))"
proof (induction xs arbitrary: o1)
  case (Cons xp xs)
  obtain x p where xp: "xp = (x, p)" by (cases xp)
  from Cons.prems obtain o' where o': "insertNewPayloadTx fails (ie_batch_id x) p now o1 = Inr o'"
    and rest: "insert_payloads fails now xs o' = Inr o2"
    by (auto simp: xp split: sum.splits)
  note ins = insertNewPayload_Inr [OF o']
  have "distinct (map ob_batch_id (ob_rows o'))" if "distinct (map ob_batch_id (ob_rows o1))"
    using ins that by simp
  with Cons.IH [OF rest] have "distinct (map ob_batch_id (ob_rows o2))"
    if "distinct (map ob_batch_id (ob_rows o1))"
    using that by blast
  moreover have "o2 = o1\<lparr>ob_rows := ob_rows o1 @ rows_of (ob_next o1) now (xp # xs),
      ob_next := ob_next o1 + length (xp # xs)\<rparr>"
    using ins Cons.IH [OF rest] by (simp add: xp)
  ultimately show ?case by blast
qed simp

lemma insert_payloads_succeeds:
  assumes "\<not> fails ObInsert" "distinct (map (ie_batch_id \<circ> fst) xs)"
    and "(ie_batch_id \<circ> fst) ` set xs \<inter> ob_batch_id ` set (ob_rows o1) = {}"
    and "\<forall>r\<in>set (ob_rows o1). ob_id r < ob_next o1"
  shows "\<exists>o2. insert_payloads fails now xs o1 = Inr o2"
  using assms(2-)
proof (induction xs arbitrary: o1)
  case (Cons xp xs)
  obtain x p where xp: "xp = (x, p)" by (cases xp)
  let ?r = "\<lparr>ob_id = ob_next o1, ob_batch_id = ie_batch_id x, ob_envelope = p,
      ob_payload_bytes = int (length p), ob_enqueued_at = now\<rparr>"
  let ?o = "o1\<lparr>ob_rows := ob_rows o1 @ [?r], ob_next := ob_next o1 + 1\<rparr>"
  have "\<not> list_ex (row_conflict ?r) (ob_rows o1)"
    using Cons.prems(2,3) by (auto simp: xp list_ex_iff row_conflict_def)
  then have "insertNewPayloadTx fails (ie_batch_id x) p now o1 = Inr ?o"
    using assms(1) by (simp add: insertNewPayloadTx_def sql_insert_def)
  moreover have "\<exists>o2. insert_payloads fails now xs ?o = Inr o2"
    by (rule Cons.IH) (use Cons.prems in \<open>auto simp: xp less_Suc_eq\<close>)
  ultimately show ?case by (auto simp: xp)
qed simp


section \<open>The operations\<close>

lemma EnqueueManyNext_Inl: "snd (EnqueueManyNext marshal fails now xs o1) = Inl err \<Longrightarrow>
    fst (EnqueueManyNext marshal fails now xs o1) = o1"
  by (auto simp: EnqueueManyNext_def split: if_splits option.splits sum.splits)

text \<open>What a successful call did.\<close>

definition enqueued :: "(envelope \<Rightarrow> string option) \<Rightarrow> int \<Rightarrow> envelope list \<Rightarrow> outbox \<Rightarrow> outbox \<Rightarrow>
    envelope list \<Rightarrow> 64 word \<Rightarrow> 64 word \<Rightarrow> (envelope \<times> string) list \<Rightarrow> bool" where
  "enqueued marshal now xs o1 o2 ys c c' assigned \<longleftrightarrow>
     ParseUint (ob_last_sequence o1) = Some c \<and> ys = sequenced c xs \<and> map fst assigned = ys \<and>
     unat c' = unat c + length xs \<and>
     (\<forall>(x, p)\<in>set assigned. encodeOutboxEnvelope marshal x = Inr p) \<and>
     o2 = o1\<lparr>ob_rows := ob_rows o1 @ rows_of (ob_next o1) now assigned,
             ob_next := ob_next o1 + length assigned, ob_last_sequence := FormatUint c'\<rparr> \<and>
     (distinct (map ob_batch_id (ob_rows o1)) \<longrightarrow> distinct (map ob_batch_id (ob_rows o2))) \<and>
     (\<exists>n. assign_sequences marshal c 0 xs = Inr (assigned, c', n) \<and> n \<le> i64 (ob_max_bytes o1 - queued_bytes o1))"

lemma EnqueueManyNext_Inr:
  assumes "EnqueueManyNext marshal fails now xs o1 = (o2, Inr ys)" "xs \<noteq> []"
  shows "\<exists>c c' assigned. enqueued marshal now xs o1 o2 ys c c' assigned"
proof -
  from assms obtain c assigned c' n o' where
    c: "ParseUint (ob_last_sequence o1) = Some c"
    and as: "assign_sequences marshal c 0 xs = Inr (assigned, c', n)"
    and n: "n \<le> i64 (ob_max_bytes o1 - queued_bytes o1)"
    and ins: "insert_payloads fails now assigned o1 = Inr o'"
    and o2: "o2 = o'\<lparr>ob_last_sequence := FormatUint c'\<rparr>" and ys: "ys = map fst assigned"
    by (auto simp: EnqueueManyNext_def split: if_splits option.splits sum.splits)
  from assign_sequences_Inr [OF as] insert_payloads_Inr [OF ins] c as n o2 ys
  have "enqueued marshal now xs o1 o2 ys c c' assigned"
    unfolding enqueued_def by (elim conjE) simp
  then show ?thesis by blast
qed

lemma enqueued_contents:
  assumes "enqueued marshal now xs o1 o2 ys c c' assigned"
  shows "queue_contents o2 = queue_contents o1 @ map (the \<circ> marshal) ys"
proof -
  have "\<forall>(x, p)\<in>set assigned. marshal x = Some p"
    using assms by (fastforce simp: enqueued_def encodeOutboxEnvelope_def
        split: list.splits option.splits if_splits)
  then have "map snd assigned = map (the \<circ> marshal) (map fst assigned)"
    by (auto simp: comp_def)
  moreover have "map fst assigned = ys" using assms by (simp add: enqueued_def)
  ultimately have "map snd assigned = map (the \<circ> marshal) ys" by metis
  then show ?thesis using assms by (auto simp: enqueued_def queue_contents_def)
qed

lemma enqueued_inv:
  assumes "ob_inv o1" "enqueued marshal now xs o1 o2 ys c c' assigned"
  shows "ob_inv o2"
proof -
  have "sorted_wrt (<) (map ob_id (ob_rows o1 @ rows_of (ob_next o1) now assigned))"
    using assms(1) rows_of_sorted [of "ob_next o1" now assigned]
    by (auto simp: sorted_wrt_append ob_inv_def dest!: rows_of_row)
  moreover have "\<forall>r\<in>set (ob_rows o1 @ rows_of (ob_next o1) now assigned).
      ob_id r < ob_next o1 + length assigned \<and> ob_payload_bytes r = int (length (ob_envelope r))"
    using assms(1) by (auto simp: ob_inv_def dest!: rows_of_row)
  ultimately show ?thesis
    using assms unfolding enqueued_def ob_inv_def by (elim conjE) simp
qed

lemma Enqueue_cases:
  assumes "Enqueue marshal fails now x o1 = (o2, err)"
  obtains (unchanged) "o2 = o1"
  | (queued) p where "err = None" "encodeOutboxEnvelope marshal x = Inr p"
      "\<forall>r\<in>set (ob_rows o1). ob_batch_id r \<noteq> ie_batch_id x"
      "int (length p) \<le> i64 (ob_max_bytes o1 - queued_bytes o1)"
      "o2 = o1\<lparr>ob_rows := ob_rows o1 @ rows_of (ob_next o1) now [(x, p)], ob_next := ob_next o1 + 1\<rparr>"
proof (cases "o2 = o1")
  case False
  from assms False obtain p where p: "encodeOutboxEnvelope marshal x = Inr p"
    and none: "sql_select (\<lambda>r. ob_batch_id r = ie_batch_id x) (ob_rows o1) = None"
    and cap: "int (length p) \<le> i64 (ob_max_bytes o1 - queued_bytes o1)"
    and ins: "insertNewPayloadTx fails (ie_batch_id x) p now o1 = Inr o2" and "err = None"
    by (auto simp: Enqueue_def enqueuePayloadTx_def split: if_splits option.splits sum.splits)
  moreover have "\<forall>r\<in>set (ob_rows o1). ob_batch_id r \<noteq> ie_batch_id x"
    using none by (auto simp: sql_select_def find_None_iff)
  ultimately show ?thesis using that(2) insertNewPayload_Inr [OF ins] by simp
qed (rule that)

lemma Enqueue_inv:
  assumes "ob_inv o1" shows "ob_inv (fst (Enqueue marshal fails now x o1))"
proof (cases "Enqueue marshal fails now x o1")
  case (Pair o2 err)
  then show ?thesis
  proof (cases rule: Enqueue_cases)
    case unchanged
    then show ?thesis using assms Pair by simp
  next
    case (queued p)
    then show ?thesis using assms Pair by (fastforce simp: ob_inv_def sorted_wrt_append)
  qed
qed

text \<open>An acknowledgement names exactly the envelope it is for.\<close>

definition ack_matches :: "ingest_ack \<Rightarrow> envelope \<Rightarrow> bool" where
  "ack_matches ack x \<longleftrightarrow> ak_protocol_version ack = ie_protocol_version x \<and>
     ak_device_id ack = ie_device_id x \<and> ak_batch_id ack = ie_batch_id x \<and>
     ak_sequence ack = ie_sequence x"

lemma Acknowledge_cases:
  assumes "ob_inv o1" "Acknowledge unmarshal fails ack o1 = (o2, err)"
  obtains (refused) e where "err = Some e" "o2 = o1"
  | (removed) r rs x where "err = None" "ob_rows o1 = r # rs" "unmarshal (ob_envelope r) = Some x"
      "ack_matches ack x" "o2 = o1\<lparr>ob_rows := rs\<rparr>"
proof (cases err)
  case (Some e)
  moreover have "o2 = o1" using assms Some
    by (auto simp: Acknowledge_def split: if_splits option.splits list.splits)
  ultimately show ?thesis by (rule that(1))
next
  case None
  with assms(2) obtain r x where r: "oldest_row (ob_rows o1) = Some r"
    and x: "unmarshal (ob_envelope r) = Some x" "ack_matches ack x"
    and o2: "o2 = o1\<lparr>ob_rows := filter (\<lambda>q. ob_id q \<noteq> ob_id r) (ob_rows o1)\<rparr>"
    by (auto simp: Acknowledge_def ack_matches_def split: if_splits option.splits)
  from r obtain rs where rs: "ob_rows o1 = r # rs"
    using ob_inv_oldest [OF assms(1)] by (auto split: list.splits)
  have "filter (\<lambda>q. ob_id q \<noteq> ob_id r) rs = rs"
    using assms(1) rs by (auto simp: ob_inv_def filter_id_conv)
  with None rs x o2 show ?thesis by (intro that(2)) auto
qed

lemma Acknowledge_inv:
  assumes "ob_inv o1" shows "ob_inv (fst (Acknowledge unmarshal fails ack o1))"
proof (cases "Acknowledge unmarshal fails ack o1")
  case (Pair o2 err)
  from assms Pair show ?thesis
    by (cases rule: Acknowledge_cases) (use assms Pair in \<open>simp_all add: ob_inv_def\<close>)
qed

lemma PeekBatch_Inr:
  assumes "ob_inv o1" "PeekBatch unmarshal fails o1 = Inr x"
  shows "\<exists>r rs. ob_rows o1 = r # rs \<and> unmarshal (ob_envelope r) = Some x"
  using assms ob_inv_oldest [OF assms(1)]
  by (auto simp: PeekBatch_def split: if_splits option.splits list.splits)


lemma EnqueueManyNext_inv:
  assumes "ob_inv o1" shows "ob_inv (fst (EnqueueManyNext marshal fails now xs o1))"
proof (cases "EnqueueManyNext marshal fails now xs o1")
  case (Pair o2 res)
  show ?thesis
  proof (cases res)
    case (Inl err)
    with assms Pair EnqueueManyNext_Inl [of marshal fails now xs o1] show ?thesis by simp
  next
    case (Inr ys)
    show ?thesis
    proof (cases "xs = []")
      case True
      with assms show ?thesis by (simp add: EnqueueManyNext_def)
    next
      case False
      from EnqueueManyNext_Inr [OF _ False] Pair Inr obtain c c' assigned where
        "enqueued marshal now xs o1 o2 ys c c' assigned" by blast
      from enqueued_inv [OF assms this] Pair show ?thesis by simp
    qed
  qed
qed

section \<open>Histories\<close>

text \<open>One call on the outbox, with the faults the driver has in store for it.\<close>

datatype outbox_op =
    OpEnqueueMany "outbox_step \<Rightarrow> bool" int "envelope list"
  | OpEnqueue "outbox_step \<Rightarrow> bool" int envelope
  | OpAck "outbox_step \<Rightarrow> bool" ingest_ack

fun op_step :: "(envelope \<Rightarrow> string option) \<Rightarrow> (string \<Rightarrow> envelope option) \<Rightarrow> outbox_op \<Rightarrow> outbox \<Rightarrow> outbox" where
  "op_step marshal unmarshal (OpEnqueueMany fails now xs) o1 = fst (EnqueueManyNext marshal fails now xs o1)"
| "op_step marshal unmarshal (OpEnqueue fails now x) o1 = fst (Enqueue marshal fails now x o1)"
| "op_step marshal unmarshal (OpAck fails ack) o1 = fst (Acknowledge unmarshal fails ack o1)"

text \<open>The payloads a call was told are durable, and the payload it was told is gone.\<close>

fun op_accepts :: "(envelope \<Rightarrow> string option) \<Rightarrow> outbox_op \<Rightarrow> outbox \<Rightarrow> string list" where
  "op_accepts marshal (OpEnqueueMany fails now xs) o1 =
     (case snd (EnqueueManyNext marshal fails now xs o1) of
        Inl err \<Rightarrow> [] | Inr ys \<Rightarrow> map (the \<circ> marshal) ys)"
| "op_accepts marshal (OpEnqueue fails now x) o1 =
     (if snd (Enqueue marshal fails now x o1) = None \<and>
         (\<forall>r\<in>set (ob_rows o1). ob_batch_id r \<noteq> ie_batch_id x)
      then [the (marshal x)] else [])"
| "op_accepts marshal (OpAck fails ack) o1 = []"

fun op_removes :: "(string \<Rightarrow> envelope option) \<Rightarrow> outbox_op \<Rightarrow> outbox \<Rightarrow> string list" where
  "op_removes unmarshal (OpAck fails ack) o1 =
     (if snd (Acknowledge unmarshal fails ack o1) = None then [hd (queue_contents o1)] else [])"
| "op_removes unmarshal op o1 = []"

lemma EnqueueMany_fifo:
  "queue_contents o1 @ op_accepts marshal (OpEnqueueMany fails now xs) o1 =
     queue_contents (fst (EnqueueManyNext marshal fails now xs o1))"
proof (cases "EnqueueManyNext marshal fails now xs o1")
  case (Pair o2 res)
  show ?thesis
  proof (cases res)
    case (Inl err)
    then show ?thesis using Pair EnqueueManyNext_Inl [of marshal fails now xs o1] by simp
  next
    case (Inr ys)
    show ?thesis
    proof (cases "xs = []")
      case False
      from EnqueueManyNext_Inr [OF _ False] Pair Inr obtain c c' assigned where
        "enqueued marshal now xs o1 o2 ys c c' assigned" by blast
      from enqueued_contents [OF this] show ?thesis using Pair Inr by simp
    qed (use Pair Inr in \<open>simp add: EnqueueManyNext_def\<close>)
  qed
qed

lemma Enqueue_fifo:
  "queue_contents o1 @ op_accepts marshal (OpEnqueue fails now x) o1 =
     queue_contents (fst (Enqueue marshal fails now x o1))"
proof (cases "Enqueue marshal fails now x o1")
  case (Pair o2 err)
  then show ?thesis
  proof (cases rule: Enqueue_cases)
    case (queued p)
    then have "marshal x = Some p"
      by (auto simp: encodeOutboxEnvelope_def split: list.splits option.splits if_splits)
    with queued Pair show ?thesis by (simp add: queue_contents_def)
  next
    case unchanged
    have "err = None \<longrightarrow> (\<exists>r\<in>set (ob_rows o1). ob_batch_id r = ie_batch_id x)"
    proof (rule ccontr)
      assume a: "\<not> (err = None \<longrightarrow> (\<exists>r\<in>set (ob_rows o1). ob_batch_id r = ie_batch_id x))"
      then have "sql_select (\<lambda>r. ob_batch_id r = ie_batch_id x) (ob_rows o1) = None"
        by (auto simp: sql_select_def find_None_iff)
      with a Pair obtain p where "insertNewPayloadTx fails (ie_batch_id x) p now o1 = Inr o2"
        by (auto simp: Enqueue_def enqueuePayloadTx_def split: if_splits sum.splits)
      from insertNewPayload_Inr [OF this] have "length (ob_rows o2) = length (ob_rows o1) + 1" by simp
      with unchanged show False by simp
    qed
    with unchanged Pair show ?thesis by auto
  qed
qed

lemma Acknowledge_fifo:
  assumes "ob_inv o1"
  shows "queue_contents o1 = op_removes unmarshal (OpAck fails ack) o1 @
    queue_contents (fst (Acknowledge unmarshal fails ack o1))"
proof (cases "Acknowledge unmarshal fails ack o1")
  case (Pair o2 err)
  from assms Pair show ?thesis
    by (cases rule: Acknowledge_cases) (use Pair in \<open>simp_all add: queue_contents_def\<close>)
qed

interpretation fifo: durable_fifo ob_inv queue_contents "op_step marshal unmarshal"
  "op_accepts marshal" "op_removes unmarshal" for marshal unmarshal
proof
  fix c s
  assume inv: "ob_inv s"
  show "ob_inv (op_step marshal unmarshal c s)"
    using inv by (cases c) (simp_all add: EnqueueManyNext_inv Enqueue_inv Acknowledge_inv)
  show "queue_contents s @ op_accepts marshal c s =
      op_removes unmarshal c s @ queue_contents (op_step marshal unmarshal c s)"
  proof (cases c)
    case (OpEnqueueMany fails now xs)
    then show ?thesis using EnqueueMany_fifo by simp
  next
    case (OpEnqueue fails now x)
    then show ?thesis using Enqueue_fifo by simp
  next
    case (OpAck fails ack)
    then show ?thesis using Acknowledge_fifo [OF inv] by simp
  qed
qed

end
