(* ===== verification/Agent.thy ===== *)
theory Agent
  imports Outbox_Facts
begin

text \<open>
  \<open>internal/agent/agent.go\<close>: from a batch of scanned events to durable envelopes
  (\<open>collapseRepeatedEventIDs\<close>, \<open>partitionEventEnvelopes\<close>, \<open>enqueueEvents\<close>), the upload of the
  oldest batch, the drain loop, the retry backoff and the relay's credential check.

  \<open>crypto/rand\<close> and the clock are inputs: a \<open>draw\<close> is what one call of \<open>prepareEnvelope\<close> reads,
  sixteen random bytes (\<open>None\<close> when the read fails) and the current millisecond.
\<close>

section \<open>Identifiers\<close>

text \<open>\<open>id[6] = (id[6] & 0x0f) | 0x40\<close> and \<open>id[8] = (id[8] & 0x3f) | 0x80\<close>, then the five groups.\<close>

definition stamp_uuid :: "8 word list \<Rightarrow> 8 word list" where
  "stamp_uuid r = (r[6 := or (and (r ! 6) 0x0f) 0x40])[8 := or (and (r ! 8) 0x3f) 0x80]"

definition uuid_text :: "8 word list \<Rightarrow> string" where
  "uuid_text i = concat (map hex_byte (take 4 i)) @ ''-'' @ concat (map hex_byte (take 2 (drop 4 i))) @ ''-'' @
     concat (map hex_byte (take 2 (drop 6 i))) @ ''-'' @ concat (map hex_byte (take 2 (drop 8 i))) @
     ''-'' @ concat (map hex_byte (take 6 (drop 10 i)))"

definition newUUID :: "8 word list \<Rightarrow> string" where
  "newUUID r = uuid_text (stamp_uuid r)"

section \<open>Collapsing and partitioning a batch\<close>

type_synonym draw = "8 word list option \<times> int"

record agent_cfg =
  cfg_device_id :: string
  cfg_boot_id :: string

definition collapseRepeatedEventIDs :: "event list \<Rightarrow> event list" where
  "collapseRepeatedEventIDs events = first_by ev_event_id [] events"

definition empty_envelope :: envelope where
  "empty_envelope = \<lparr>ie_protocol_version = 0, ie_device_id = [], ie_boot_id = [], ie_batch_id = [],
     ie_sequence = 0, ie_captured_at = 0, ie_kind = [], ie_events = [], ie_quotas = [], ie_procs = None\<rparr>"

fun prepareEnvelope :: "agent_cfg \<Rightarrow> envelope \<Rightarrow> draw list \<Rightarrow> (outbox_error + envelope) \<times> draw list" where
  "prepareEnvelope cfg x [] = (Inl UUIDFailed, [])"
| "prepareEnvelope cfg x ((None, now) # ds) = (Inl UUIDFailed, ds)"
| "prepareEnvelope cfg x ((Some r, now) # ds) =
     (Inr (x\<lparr>ie_protocol_version := IngestProtocolV2, ie_device_id := cfg_device_id cfg,
        ie_boot_id := cfg_boot_id cfg, ie_batch_id := newUUID r, ie_sequence := 0,
        ie_captured_at := now\<rparr>), ds)"

function partitionEventEnvelopes :: "agent_cfg \<Rightarrow> (envelope \<Rightarrow> string option) \<Rightarrow> event list \<Rightarrow>
    draw list \<Rightarrow> (outbox_error + envelope list) \<times> draw list" where
  "partitionEventEnvelopes cfg marshal events ds =
     (case prepareEnvelope cfg (empty_envelope\<lparr>ie_kind := IngestKindEvents, ie_events := events\<rparr>) ds of
        (Inl err, ds1) \<Rightarrow> (Inl err, ds1)
      | (Inr prepared, ds1) \<Rightarrow>
          (case marshal (prepared\<lparr>ie_sequence := - 1\<rparr>) of
             None \<Rightarrow> (Inl EncodeFailed, ds1)
           | Some payload \<Rightarrow>
               if length payload \<le> MaxIngestEnvelopeBytes then (Inr [prepared], ds1)
               else if length events \<le> 1 then (Inl ErrEnvelopeTooLarge, ds1)
               else
                 let middle = length events div 2
                 in (case partitionEventEnvelopes cfg marshal (take middle events) ds1 of
                       (Inl err, ds2) \<Rightarrow> (Inl err, ds2)
                     | (Inr left, ds2) \<Rightarrow>
                         (case partitionEventEnvelopes cfg marshal (drop middle events) ds2 of
                            (Inl err, ds3) \<Rightarrow> (Inl err, ds3)
                          | (Inr right, ds3) \<Rightarrow> (Inr (left @ right), ds3)))))"
  by pat_completeness auto
termination
  by (relation "measure (\<lambda>(cfg, marshal, events, ds). length events)") auto

declare partitionEventEnvelopes.simps [simp del]

definition enqueueEvents :: "agent_cfg \<Rightarrow> (envelope \<Rightarrow> string option) \<Rightarrow> (outbox_step \<Rightarrow> bool) \<Rightarrow>
    int \<Rightarrow> event list \<Rightarrow> draw list \<Rightarrow> outbox \<Rightarrow> outbox \<times> outbox_error option" where
  "enqueueEvents cfg marshal fails now events ds o1 =
     (case fst (partitionEventEnvelopes cfg marshal (collapseRepeatedEventIDs events) ds) of
        Inl err \<Rightarrow> (o1, Some err)
      | Inr envelopes \<Rightarrow>
          (case EnqueueManyNext marshal fails now envelopes o1 of
             (o2, Inl err) \<Rightarrow> (o2, Some err)
           | (o2, Inr assigned) \<Rightarrow> (o2, None)))"

definition enqueueEnvelope :: "agent_cfg \<Rightarrow> (envelope \<Rightarrow> string option) \<Rightarrow> (outbox_step \<Rightarrow> bool) \<Rightarrow>
    int \<Rightarrow> envelope \<Rightarrow> draw list \<Rightarrow> outbox \<Rightarrow> outbox \<times> outbox_error option" where
  "enqueueEnvelope cfg marshal fails now x ds o1 =
     (case fst (prepareEnvelope cfg x ds) of
        Inl err \<Rightarrow> (o1, Some err)
      | Inr prepared \<Rightarrow>
          (case EnqueueNext marshal fails now prepared o1 of
             (o2, Inl err) \<Rightarrow> (o2, Some err)
           | (o2, Inr assigned) \<Rightarrow> (o2, None)))"

text \<open>\<open>pushQuotas\<close> on a version 2 agent.\<close>

definition pushQuotas :: "agent_cfg \<Rightarrow> (envelope \<Rightarrow> string option) \<Rightarrow> (outbox_step \<Rightarrow> bool) \<Rightarrow>
    int \<Rightarrow> quota_snapshot list \<Rightarrow> draw list \<Rightarrow> outbox \<Rightarrow> outbox \<times> outbox_error option" where
  "pushQuotas cfg marshal fails now qs ds o1 =
     enqueueEnvelope cfg marshal fails now
       (empty_envelope\<lparr>ie_kind := IngestKindQuotas, ie_quotas := qs\<rparr>) ds o1"

section \<open>Upload\<close>

text \<open>
  What came back for one POST: nothing (a transport error), or a status and the decoded
  acknowledgement (\<open>None\<close> when the body is too large, malformed or has trailing data).
\<close>

datatype http_response = NoResponse | Response int "ingest_ack option"

datatype upload_error = UploadOutbox outbox_error | UploadMarshal | UploadTransport
  | UploadStatus int | UploadBody

definition uploadOldest :: "(envelope \<Rightarrow> string option) \<Rightarrow> (string \<Rightarrow> envelope option) \<Rightarrow>
    (outbox_step \<Rightarrow> bool) \<Rightarrow> (string \<Rightarrow> http_response) \<Rightarrow> outbox \<Rightarrow> outbox \<times> upload_error option" where
  "uploadOldest marshal unmarshal fails post o1 =
     (case PeekBatch unmarshal fails o1 of
        Inl err \<Rightarrow> (o1, Some (UploadOutbox err))
      | Inr x \<Rightarrow> (case marshal x of
          None \<Rightarrow> (o1, Some UploadMarshal)
        | Some body \<Rightarrow> (case post body of
            NoResponse \<Rightarrow> (o1, Some UploadTransport)
          | Response status reply \<Rightarrow>
              if status < 200 \<or> status \<ge> 300 then (o1, Some (UploadStatus status))
              else (case reply of
                None \<Rightarrow> (o1, Some UploadBody)
              | Some ack \<Rightarrow> (case Acknowledge unmarshal fails ack o1 of
                  (o2, Some err) \<Rightarrow> (o2, Some (UploadOutbox err))
                | (o2, None) \<Rightarrow> (o2, None))))))"

lemma oldest_row_in: "oldest_row rs = Some r \<Longrightarrow> r \<in> set rs"
  by (induction rs arbitrary: r) (auto split: option.splits if_splits)

lemma Acknowledge_shrinks:
  assumes "Acknowledge unmarshal fails ack o1 = (o2, None)"
  shows "length (ob_rows o2) < length (ob_rows o1)"
proof -
  from assms obtain r where r: "oldest_row (ob_rows o1) = Some r"
    and o2: "o2 = o1\<lparr>ob_rows := filter (\<lambda>q. ob_id q \<noteq> ob_id r) (ob_rows o1)\<rparr>"
    by (auto simp: Acknowledge_def split: if_splits option.splits)
  show ?thesis unfolding o2
    by simp (rule length_filter_less [OF oldest_row_in [OF r]], simp)
qed

lemma uploadOldest_shrinks:
  "uploadOldest marshal unmarshal fails post o1 = (o2, None) \<Longrightarrow>
     length (ob_rows o2) < length (ob_rows o1)"
  by (auto simp: uploadOldest_def split: sum.splits option.splits http_response.splits if_splits prod.splits
      intro: Acknowledge_shrinks)

text \<open>
  \<open>drainOutbox\<close>: upload until the outbox is empty or an upload fails. The network may answer each
  request differently, so \<open>post\<close> also takes the number of uploads done. The loop ends because
  every successful upload deletes a row.
\<close>

function drainOutbox :: "(envelope \<Rightarrow> string option) \<Rightarrow> (string \<Rightarrow> envelope option) \<Rightarrow>
    (nat \<Rightarrow> outbox_step \<Rightarrow> bool) \<Rightarrow> (nat \<Rightarrow> string \<Rightarrow> http_response) \<Rightarrow> nat \<Rightarrow> outbox \<Rightarrow>
    outbox \<times> nat \<times> upload_error option" where
  "drainOutbox marshal unmarshal fails post uploaded o1 =
     (case uploadOldest marshal unmarshal (fails uploaded) (post uploaded) o1 of
        (o2, Some err) \<Rightarrow>
          if err = UploadOutbox ErrOutboxEmpty then (o2, uploaded, None) else (o2, uploaded, Some err)
      | (o2, None) \<Rightarrow> drainOutbox marshal unmarshal fails post (uploaded + 1) o2)"
  by pat_completeness auto
termination
  by (relation "measure (\<lambda>(marshal, unmarshal, fails, post, uploaded, o1). length (ob_rows o1))")
    (auto dest: uploadOldest_shrinks [OF sym])

declare drainOutbox.simps [simp del]

section \<open>Retry backoff\<close>

record retry_backoff =
  bo_base :: int
  bo_max :: int
  bo_attempt :: "64 word"

fun backoff_loop :: "int \<Rightarrow> nat \<Rightarrow> int \<Rightarrow> int" where
  "backoff_loop mx 0 cap = cap"
| "backoff_loop mx (Suc k) cap =
     (if cap < mx then backoff_loop mx k (if cap > go_quot mx 2 then mx else i64 (cap * 2)) else cap)"

definition backoff_cap :: "retry_backoff \<Rightarrow> int" where
  "backoff_cap b =
     (let cap = backoff_loop (bo_max b) (unat (bo_attempt b)) (bo_base b)
      in if cap > bo_max b then bo_max b else cap)"

text \<open>\<open>jitter\<close> is \<open>time.Duration(b.jitter() * float64(cap))\<close> as a function of \<open>cap\<close>.\<close>

definition backoff_next :: "(int \<Rightarrow> int) \<Rightarrow> retry_backoff \<Rightarrow> int \<times> retry_backoff" where
  "backoff_next jitter b = (jitter (backoff_cap b), b\<lparr>bo_attempt := bo_attempt b + 1\<rparr>)"

definition backoff_reset :: "retry_backoff \<Rightarrow> retry_backoff" where
  "backoff_reset b = b\<lparr>bo_attempt := 0\<rparr>"

section \<open>The relay\<close>

definition relayCredentialOK :: "(string \<Rightarrow> 8 word list) \<Rightarrow> string \<Rightarrow> string \<Rightarrow> bool" where
  "relayCredentialOK sha256 got want =
     (if got = [] \<or> want = [] then False else sha256 got = sha256 want)"

definition relayUpstreamToken :: "string \<Rightarrow> string \<Rightarrow> string" where
  "relayUpstreamToken upstream own = (if upstream \<noteq> [] then upstream else own)"

text \<open>
  A request to the relay: the values of the relay header, the end device's \<open>Authorization\<close>, the
  declared length (\<open>-1\<close> unknown) and the body, \<open>None\<close> when reading it fails.
\<close>

record relay_request =
  rr_tokens :: "string list"
  rr_authorization :: string
  rr_length :: int
  rr_body :: "string option"

datatype relay_result = RelayStatus int | Forwarded relay_request

definition relayForward :: "(string \<Rightarrow> 8 word list) \<Rightarrow> string \<Rightarrow> string \<Rightarrow> nat \<Rightarrow> relay_request \<Rightarrow> relay_result" where
  "relayForward sha256 own upstream maxBytes r =
     (if length (rr_tokens r) \<noteq> 1 \<or> \<not> relayCredentialOK sha256 (hd (rr_tokens r)) own then RelayStatus 401
      else
        let r1 = r\<lparr>rr_tokens := [relayUpstreamToken upstream own]\<rparr>
        in if rr_length r > int maxBytes then RelayStatus 413
           else (case map_option (take (maxBytes + 1)) (rr_body r) of
             None \<Rightarrow> RelayStatus 400
           | Some body \<Rightarrow>
               if length body > maxBytes then RelayStatus 413
               else Forwarded (r1\<lparr>rr_length := int (length body), rr_body := Some body\<rparr>)))"

end
