(* ===== verification/Outbox_Properties.thy ===== *)
theory Outbox_Properties
  imports Outbox_Facts
begin

text \<open>
  The properties of the outbox over arbitrary histories of calls on a freshly opened one: FIFO,
  consecutive sequences, the byte capacity, and that nothing is queued which the hub would refuse
  for its shape; and the all-or-nothing contract of \<open>EnqueueManyNext\<close>.
\<close>

section \<open>Sequences over a history\<close>

fun op_assigned :: "(envelope \<Rightarrow> string option) \<Rightarrow> outbox_op \<Rightarrow> outbox \<Rightarrow> envelope list" where
  "op_assigned marshal (OpEnqueueMany fails now xs) o1 =
     (case snd (EnqueueManyNext marshal fails now xs o1) of Inl err \<Rightarrow> [] | Inr ys \<Rightarrow> ys)"
| "op_assigned marshal op o1 = []"

abbreviation outbox_run where
  "outbox_run marshal unmarshal \<equiv> run_steps (op_step marshal unmarshal)"

abbreviation all_accepted where
  "all_accepted marshal unmarshal \<equiv> collect_steps (op_step marshal unmarshal) (op_accepts marshal)"

abbreviation all_removed where
  "all_removed marshal unmarshal \<equiv> collect_steps (op_step marshal unmarshal) (op_removes unmarshal)"

abbreviation all_assigned where
  "all_assigned marshal unmarshal \<equiv> collect_steps (op_step marshal unmarshal) (op_assigned marshal)"

lemma unat64_less: "unat (c :: 64 word) < 2 ^ 64"
  using unsigned_less [where 'a = nat and 'b = 64, of c] by simp

lemma sequenced_sequences:
  "unat c + length xs < 2 ^ 64 \<Longrightarrow>
     map (\<lambda>x. unat (ie_sequence x)) (sequenced c xs) = [unat c + 1..<unat c + 1 + length xs]"
proof (induction xs arbitrary: c)
  case (Cons x xs)
  have "unat (- 1 :: 64 word) = 2 ^ 64 - 1"
    by (simp add: unsigned_minus_1_eq_mask mask_eq_exp_minus_1)
  with Cons.prems have "c \<noteq> - 1" by auto
  then have u: "unat (c + 1) = unat c + 1" by (rule unat_succ)
  then have "map (\<lambda>x. unat (ie_sequence x)) (sequenced (c + 1) xs) =
      [unat c + 1 + 1..<unat c + 1 + 1 + length xs]"
    using Cons.IH [of "c + 1"] Cons.prems by simp
  then show ?case using u by (simp add: upt_conv_Cons del: upt_Suc)
qed simp

lemma op_last_sequence:
  assumes "ob_inv o1" "ParseUint (ob_last_sequence o1) = Some c"
  shows "\<exists>c'. ParseUint (ob_last_sequence (op_step marshal unmarshal op o1)) = Some c' \<and>
    unat c' = unat c + length (op_assigned marshal op o1) \<and>
    map (\<lambda>x. unat (ie_sequence x)) (op_assigned marshal op o1) = [unat c + 1..<unat c' + 1]"
proof (cases op)
  case (OpEnqueueMany fails now xs)
  show ?thesis
  proof (cases "EnqueueManyNext marshal fails now xs o1")
    case (Pair o2 res)
    show ?thesis
    proof (cases res)
      case (Inl err)
      with Pair OpEnqueueMany assms(2) EnqueueManyNext_Inl [of marshal fails now xs o1] show ?thesis
        by simp
    next
      case (Inr ys)
      show ?thesis
      proof (cases "xs = []")
        case True
        with Pair Inr OpEnqueueMany assms(2) show ?thesis by (simp add: EnqueueManyNext_def)
      next
        case False
        from EnqueueManyNext_Inr [OF _ False] Pair Inr obtain d c' assigned where
          e: "enqueued marshal now xs o1 o2 ys d c' assigned" by blast
        have d: "d = c" "ys = sequenced c xs" "unat c' = unat c + length xs"
            "ParseUint (ob_last_sequence o2) = Some c'"
          using e assms(2) by (auto simp: enqueued_def)
        moreover have "unat c + length xs < 2 ^ 64"
          using d(3) unat64_less [of c'] by simp
        ultimately show ?thesis
          using sequenced_sequences [of c xs] Pair Inr OpEnqueueMany by simp
      qed
    qed
  qed
next
  case (OpEnqueue fails now x)
  obtain o2 err where p: "Enqueue marshal fails now x o1 = (o2, err)" by fastforce
  then have "ob_last_sequence o2 = ob_last_sequence o1"
    by (cases rule: Enqueue_cases) simp_all
  with OpEnqueue p assms(2) show ?thesis by simp
next
  case (OpAck fails ack)
  obtain o2 err where p: "Acknowledge unmarshal fails ack o1 = (o2, err)" by fastforce
  from assms(1) p have "ob_last_sequence o2 = ob_last_sequence o1"
    by (cases rule: Acknowledge_cases) simp_all
  with OpAck p assms(2) show ?thesis by simp
qed

lemma all_assigned_sequences:
  "ob_inv o1 \<Longrightarrow> ParseUint (ob_last_sequence o1) = Some c \<Longrightarrow>
     map (\<lambda>x. unat (ie_sequence x)) (all_assigned marshal unmarshal ops o1) =
     [unat c + 1..<unat c + 1 + length (all_assigned marshal unmarshal ops o1)]"
proof (induction ops arbitrary: o1 c)
  case (Cons op ops)
  from op_last_sequence [OF Cons.prems, of marshal unmarshal op] obtain c' where
    c': "ParseUint (ob_last_sequence (op_step marshal unmarshal op o1)) = Some c'"
      "unat c' = unat c + length (op_assigned marshal op o1)"
      "map (\<lambda>x. unat (ie_sequence x)) (op_assigned marshal op o1) = [unat c + 1..<unat c' + 1]"
    by blast
  note IH = Cons.IH [OF fifo.inv_step [OF Cons.prems(1)] c'(1)]
  show ?case
    unfolding collect_steps.simps map_append IH c'(3) using c'(2)
      upt_add_eq_append [of "unat c + 1" "unat c' + 1"
        "length (all_assigned marshal unmarshal ops (op_step marshal unmarshal op o1))"]
    by (simp add: add.assoc)
qed simp

section \<open>Capacity\<close>

lemma queued_bytes_nonneg: "ob_inv o1 \<Longrightarrow> 0 \<le> queued_bytes o1"
  unfolding queued_bytes_def ob_inv_def by (intro sum_list_nonneg) auto

definition within_capacity :: "outbox \<Rightarrow> bool" where
  "within_capacity o1 \<longleftrightarrow> ob_inv o1 \<and> queued_bytes o1 \<le> ob_max_bytes o1 \<and> ob_max_bytes o1 < 2 ^ 63"

lemma capacity_left:
  "within_capacity o1 \<Longrightarrow> i64 (ob_max_bytes o1 - queued_bytes o1) = ob_max_bytes o1 - queued_bytes o1"
  using queued_bytes_nonneg [of o1] by (intro i64_bounded) (auto simp: within_capacity_def)

text \<open>How many envelopes one call may carry before the byte counter could wrap: 2 to the 39.\<close>

fun op_bounded :: "outbox_op \<Rightarrow> bool" where
  "op_bounded (OpEnqueueMany fails now xs) = (length xs < 2 ^ 39)"
| "op_bounded op = True"

lemma op_capacity:
  assumes cap: "within_capacity o1" and "op_bounded op"
  shows "within_capacity (op_step marshal unmarshal op o1) \<and>
    ob_max_bytes (op_step marshal unmarshal op o1) = ob_max_bytes o1"
proof -
  have inv: "ob_inv o1" using cap by (simp add: within_capacity_def)
  have inv': "ob_inv (op_step marshal unmarshal op o1)" by (rule fifo.inv_step [OF inv])
  have "queued_bytes (op_step marshal unmarshal op o1) \<le> ob_max_bytes o1 \<and>
      ob_max_bytes (op_step marshal unmarshal op o1) = ob_max_bytes o1"
  proof (cases op)
    case (OpEnqueueMany fails now xs)
    show ?thesis
    proof (cases "EnqueueManyNext marshal fails now xs o1")
      case (Pair o2 res)
      show ?thesis
      proof (cases "xs = [] \<or> (\<exists>err. res = Inl err)")
        case True
        then have "o2 = o1"
          using Pair EnqueueManyNext_Inl [of marshal fails now xs o1] by (auto simp: EnqueueManyNext_def)
        with cap Pair OpEnqueueMany show ?thesis by (simp add: within_capacity_def)
      next
        case False
        then obtain ys where "res = Inr ys" "xs \<noteq> []" by (cases res) auto
        with EnqueueManyNext_Inr Pair obtain c c' assigned n where
          e: "enqueued marshal now xs o1 o2 ys c c' assigned"
          and as: "assign_sequences marshal c 0 xs = Inr (assigned, c', n)"
          and n: "n \<le> i64 (ob_max_bytes o1 - queued_bytes o1)"
          by (metis enqueued_def)
        have "length xs < 2 ^ 39" using assms(2) OpEnqueueMany by simp
        then have "n = payload_sum assigned"
          using assign_sequences_sum [OF as] by (simp add: MaxIngestEnvelopeBytes_def)
        moreover have "queued_bytes o2 = queued_bytes o1 + payload_sum assigned"
          using e by (auto simp: enqueued_def queued_bytes_def rows_of_bytes)
        moreover have "ob_max_bytes o2 = ob_max_bytes o1" using e by (simp add: enqueued_def)
        ultimately show ?thesis using n capacity_left [OF cap] Pair OpEnqueueMany by simp
      qed
    qed
  next
    case (OpEnqueue fails now x)
    obtain o2 err where p: "Enqueue marshal fails now x o1 = (o2, err)" by fastforce
    then have "queued_bytes o2 \<le> ob_max_bytes o1 \<and> ob_max_bytes o2 = ob_max_bytes o1"
    proof (cases rule: Enqueue_cases)
      case (queued p)
      then show ?thesis using capacity_left [OF cap] by (simp add: queued_bytes_def)
    qed (use cap in \<open>simp add: within_capacity_def\<close>)
    with OpEnqueue p show ?thesis by simp
  next
    case (OpAck fails ack)
    obtain o2 err where p: "Acknowledge unmarshal fails ack o1 = (o2, err)" by fastforce
    from inv p have "queued_bytes o2 \<le> ob_max_bytes o1 \<and> ob_max_bytes o2 = ob_max_bytes o1"
    proof (cases rule: Acknowledge_cases)
      case (removed r rs x)
      then have "0 \<le> ob_payload_bytes r" using inv by (simp add: ob_inv_def)
      with removed cap show ?thesis by (simp add: within_capacity_def queued_bytes_def)
    qed (use cap in \<open>simp add: within_capacity_def\<close>)
    with OpAck p show ?thesis by simp
  qed
  with inv' cap show ?thesis by (simp add: within_capacity_def)
qed

lemma run_capacity:
  "within_capacity o1 \<Longrightarrow> \<forall>op\<in>set ops. op_bounded op \<Longrightarrow>
     within_capacity (outbox_run marshal unmarshal ops o1) \<and>
     ob_max_bytes (outbox_run marshal unmarshal ops o1) = ob_max_bytes o1"
proof (induction ops arbitrary: o1)
  case (Cons op ops)
  then show ?case using op_capacity [of o1 op marshal unmarshal] by simp
qed simp

section \<open>What is queued is what the hub accepts\<close>

definition acceptable :: "(envelope \<Rightarrow> string option) \<Rightarrow> string \<Rightarrow> bool" where
  "acceptable marshal p \<longleftrightarrow> length p \<le> MaxIngestEnvelopeBytes \<and>
     (\<exists>x. marshal x = Some p \<and> ValidateIngestEnvelope x = [])"

lemma encode_acceptable: "encodeOutboxEnvelope marshal x = Inr p \<Longrightarrow> marshal x = Some p \<and> acceptable marshal p"
  by (auto simp: encodeOutboxEnvelope_def acceptable_def split: list.splits option.splits if_splits)

lemma op_accepts_acceptable:
  assumes "p \<in> set (op_accepts marshal op o1)" shows "acceptable marshal p"
proof (cases op)
  case (OpEnqueueMany fails now xs)
  with assms obtain o2 ys where call: "EnqueueManyNext marshal fails now xs o1 = (o2, Inr ys)"
    and p: "p \<in> (the \<circ> marshal) ` set ys"
    by (cases "EnqueueManyNext marshal fails now xs o1") (auto split: sum.splits)
  then have "xs \<noteq> []" by (auto simp: EnqueueManyNext_def)
  from EnqueueManyNext_Inr [OF call this] obtain c c' assigned where
    "map fst assigned = ys" "\<forall>(x, p)\<in>set assigned. encodeOutboxEnvelope marshal x = Inr p"
    by (auto simp: enqueued_def)
  with p show ?thesis by (fastforce dest: encode_acceptable)
next
  case (OpEnqueue fails now x)
  with assms have "snd (Enqueue marshal fails now x o1) = None" and p: "p = the (marshal x)"
    by (auto split: if_splits)
  then obtain q where "encodeOutboxEnvelope marshal x = Inr q"
    by (auto simp: Enqueue_def split: sum.splits)
  with p show ?thesis by (auto dest!: encode_acceptable)
qed (use assms in simp)

lemma all_accepted_acceptable:
  "p \<in> set (all_accepted marshal unmarshal ops o1) \<Longrightarrow> acceptable marshal p"
  by (induction ops arbitrary: o1) (auto dest: op_accepts_acceptable)


section \<open>When an enqueue succeeds\<close>

definition fits :: "(envelope \<Rightarrow> string option) \<Rightarrow> envelope \<Rightarrow> bool" where
  "fits marshal x \<longleftrightarrow> ValidateIngestEnvelope x = [] \<and>
     (case marshal x of None \<Rightarrow> False | Some p \<Rightarrow> length p \<le> MaxIngestEnvelopeBytes)"

lemma fits_encode: "fits marshal x \<Longrightarrow> encodeOutboxEnvelope marshal x = Inr (the (marshal x))"
  by (auto simp: fits_def encodeOutboxEnvelope_def split: option.splits)

definition wire_bytes :: "(envelope \<Rightarrow> string option) \<Rightarrow> envelope list \<Rightarrow> int" where
  "wire_bytes marshal xs = sum_list (map (\<lambda>x. int (length (the (marshal x)))) xs)"

lemma assign_sequences_succeeds:
  "unat c + length xs < 2 ^ 64 \<Longrightarrow> \<forall>x\<in>set (sequenced c xs). fits marshal x \<Longrightarrow>
     \<exists>c' n'. assign_sequences marshal c n xs =
       Inr (map (\<lambda>x. (x, the (marshal x))) (sequenced c xs), c', n')"
proof (induction xs arbitrary: c n)
  case (Cons x xs)
  have "unat (- 1 :: 64 word) = 2 ^ 64 - 1"
    by (simp add: unsigned_minus_1_eq_mask mask_eq_exp_minus_1)
  with Cons.prems(1) have c: "c \<noteq> - 1" by auto
  have "encodeOutboxEnvelope marshal (x\<lparr>ie_sequence := c + 1\<rparr>) =
      Inr (the (marshal (x\<lparr>ie_sequence := c + 1\<rparr>)))"
    using Cons.prems(2) by (intro fits_encode) simp
  moreover have "unat (c + 1) + length xs < 2 ^ 64"
    using Cons.prems(1) unat_succ [OF c] by simp
  ultimately show ?case
    using Cons.IH [of "c + 1" "i64 (n + int (length (the (marshal (x\<lparr>ie_sequence := c + 1\<rparr>)))))"]
      Cons.prems(2) c by (force simp: Let_def)
qed simp

lemma payload_sum_map: "payload_sum (map (\<lambda>x. (x, the (marshal x))) ys) = wire_bytes marshal ys"
  by (simp add: payload_sum_def wire_bytes_def comp_def)

lemma EnqueueManyNext_succeeds:
  assumes cap: "within_capacity o1" and faultless: "\<forall>st. \<not> fails st" and "xs \<noteq> []"
    and c: "ParseUint (ob_last_sequence o1) = Some c" "unat c + length xs < 2 ^ 64" "length xs < 2 ^ 39"
    and fit: "\<forall>x\<in>set (sequenced c xs). fits marshal x"
    and room: "queued_bytes o1 + wire_bytes marshal (sequenced c xs) \<le> ob_max_bytes o1"
    and fresh: "distinct (map ie_batch_id xs)"
      "ie_batch_id ` set xs \<inter> ob_batch_id ` set (ob_rows o1) = {}"
  shows "snd (EnqueueManyNext marshal fails now xs o1) = Inr (sequenced c xs)"
proof -
  let ?as = "map (\<lambda>x. (x, the (marshal x))) (sequenced c xs)"
  obtain c' n where as: "assign_sequences marshal c 0 xs = Inr (?as, c', n)"
    using assign_sequences_succeeds [OF c(2) fit] by blast
  have "n = wire_bytes marshal (sequenced c xs)"
    using assign_sequences_sum [OF as] c(3) by (simp add: MaxIngestEnvelopeBytes_def payload_sum_map)
  then have n: "\<not> n > i64 (ob_max_bytes o1 - queued_bytes o1)"
    using room capacity_left [OF cap] by simp
  have ids: "map (ie_batch_id \<circ> fst) ?as = map ie_batch_id xs"
    using sequenced_batch_ids [of c xs] by (simp add: comp_def)
  have "\<exists>o2. insert_payloads fails now ?as o1 = Inr o2"
  proof (rule insert_payloads_succeeds)
    show "\<not> fails ObInsert" using faultless by blast
    show "distinct (map (ie_batch_id \<circ> fst) ?as)" unfolding ids by (rule fresh(1))
    show "(ie_batch_id \<circ> fst) ` set ?as \<inter> ob_batch_id ` set (ob_rows o1) = {}"
      using fresh(2) arg_cong [OF ids, of set] unfolding set_map [symmetric] by argo
    show "\<forall>r\<in>set (ob_rows o1). ob_id r < ob_next o1"
      using cap by (simp add: within_capacity_def ob_inv_def)
  qed
  with as n c(1) faultless \<open>xs \<noteq> []\<close> show ?thesis
    by (auto simp: EnqueueManyNext_def comp_def)
qed


section \<open>Properties\<close>

text \<open>Sample data of the witnesses: one process report, encoded by its batch id.\<close>

definition wit_uuid :: string where "wit_uuid = ''00000000-0000-4000-8000-000000000001''"

definition wit_env :: envelope where
  "wit_env = \<lparr>ie_protocol_version = 2, ie_device_id = wit_uuid, ie_boot_id = wit_uuid,
     ie_batch_id = wit_uuid, ie_sequence = 1, ie_captured_at = 5, ie_kind = ''procs'',
     ie_events = [], ie_quotas = [],
     ie_procs = Some \<lparr>pr_device = wit_uuid, pr_observed_at = 5, pr_sessions = []\<rparr>\<rparr>"

definition wit_marshal :: "envelope \<Rightarrow> string option" where
  "wit_marshal x = Some (ie_batch_id x)"

definition wit_unmarshal :: "string \<Rightarrow> envelope option" where
  "wit_unmarshal p = (if p = wit_uuid then Some wit_env else None)"

definition no_faults :: "outbox_step \<Rightarrow> bool" where "no_faults st = False"

definition wit_ack :: ingest_ack where
  "wit_ack = \<lparr>ak_protocol_version = 2, ak_device_id = wit_uuid, ak_batch_id = wit_uuid,
     ak_sequence = 1, ak_accepted = 1, ak_duplicates = 0, ak_rejected = [], ak_server_time = 9\<rparr>"

lemmas wit_outbox = wit_uuid_def wit_env_def wit_marshal_def wit_unmarshal_def no_faults_def wit_ack_def

lemma wit_uuid_valid: "validUUID wit_uuid"
  by code_simp

lemma wit_env_valid: "ValidateIngestEnvelope wit_env = []"
  by (simp add: ValidateIngestEnvelope_Nil envelope_ok_def header_ok_def procs_ok_def
      wit_env_def validUUID_iff [symmetric] wit_uuid_valid)

lemma wit_enqueue:
  "EnqueueManyNext wit_marshal no_faults 1 [wit_env] (OpenOutbox 100) =
     (\<lparr>ob_rows = [\<lparr>ob_id = 1, ob_batch_id = wit_uuid, ob_envelope = wit_uuid,
         ob_payload_bytes = 36, ob_enqueued_at = 1\<rparr>],
       ob_next = 2, ob_last_sequence = FormatUint 1, ob_max_bytes = 100\<rparr>, Inr [wit_env])"
proof -
  have p: "ParseUint ''0'' = Some 0"
    by (simp add: ParseUint_def is_digit_def parse_digits_def digit_val_def)
  have "wit_env\<lparr>ie_sequence := 1\<rparr> = wit_env" by (simp add: wit_env_def)
  moreover have "length wit_uuid = 36" by (simp add: wit_uuid_def)
  moreover have "ie_batch_id wit_env = wit_uuid" by (simp add: wit_env_def)
  ultimately show ?thesis
    using wit_env_valid
    by (simp add: EnqueueManyNext_def OpenOutbox_def no_faults_def p encodeOutboxEnvelope_def
        wit_marshal_def MaxIngestEnvelopeBytes_def insertNewPayloadTx_def sql_insert_def
        queued_bytes_def i64_def)
qed

text \<open>
  C6. The outbox is a FIFO queue: over any history of enqueues and acknowledgements, with any
  driver faults, the payloads the callers were told are durable are, in order, those removed by
  an accepted acknowledgement followed by those still queued. Nothing is lost, duplicated or
  reordered.
\<close>

theorem outbox_is_fifo:
  "all_accepted marshal unmarshal ops (OpenOutbox n) =
     all_removed marshal unmarshal ops (OpenOutbox n) @
     queue_contents (outbox_run marshal unmarshal ops (OpenOutbox n))"
  using fifo.fifo_history [where marshal = marshal and unmarshal = unmarshal and cs = ops
      and s = "OpenOutbox n", OF ob_inv_open]
  by (simp add: queue_contents_def OpenOutbox_def)

text \<open>
  Protocol sequences and queue order cannot diverge: over any history the sequences handed
  out are exactly 1, 2, 3 and so on without a gap, in the order the envelopes were queued, and a
  call that fails consumes none.
\<close>

theorem sequences_are_consecutive:
  "map (\<lambda>x. unat (ie_sequence x)) (all_assigned marshal unmarshal ops (OpenOutbox n)) =
     [1..<length (all_assigned marshal unmarshal ops (OpenOutbox n)) + 1]"
proof -
  have "ParseUint (ob_last_sequence (OpenOutbox n)) = Some 0"
    by (simp add: OpenOutbox_def ParseUint_def is_digit_def parse_digits_def digit_val_def)
  from all_assigned_sequences [OF ob_inv_open this, of marshal unmarshal ops] show ?thesis
    by (simp del: upt_Suc)
qed

text \<open>
  The queued bytes never exceed the configured capacity, in any history of calls that carry
  fewer than 2 to the 39 envelopes each, with the subtraction and the running sum in 64 bits.
\<close>

theorem capacity_is_never_exceeded:
  assumes "n < 2 ^ 63" "\<forall>op\<in>set ops. op_bounded op"
  shows "queued_bytes (outbox_run marshal unmarshal ops (OpenOutbox n)) \<le>
    (if n \<le> 0 then DefaultOutboxMaxBytes else n)"
proof -
  have "within_capacity (OpenOutbox n)"
    using assms(1) ob_inv_open [of n]
    by (simp add: within_capacity_def OpenOutbox_def queued_bytes_def DefaultOutboxMaxBytes_def)
  from run_capacity [OF this assms(2), of marshal unmarshal] show ?thesis
    by (simp add: within_capacity_def OpenOutbox_def)
qed

theorem capacity_is_never_exceeded_witness:
  "queued_bytes (outbox_run wit_marshal wit_unmarshal [OpEnqueueMany no_faults 1 [wit_env]] (OpenOutbox 100)) \<le> 100"
  using capacity_is_never_exceeded [of 100 "[OpEnqueueMany no_faults 1 [wit_env]]" wit_marshal wit_unmarshal]
  by simp

text \<open>
  No poison batch: whatever is queued is within the protocol's byte limit and encodes an
  envelope the hub's validator has no objection to, so the head of the queue can never be
  refused for good on its shape.
\<close>

theorem queued_batches_are_acceptable:
  assumes "p \<in> set (queue_contents (outbox_run marshal unmarshal ops (OpenOutbox n)))"
  shows "length p \<le> MaxIngestEnvelopeBytes \<and> (\<exists>x. marshal x = Some p \<and> ValidateIngestEnvelope x = [])"
proof -
  have "p \<in> set (all_accepted marshal unmarshal ops (OpenOutbox n))"
    using fifo.fifo_history [where marshal = marshal and unmarshal = unmarshal and cs = ops
      and s = "OpenOutbox n", OF ob_inv_open] assms
    by (simp add: queue_contents_def OpenOutbox_def)
  from all_accepted_acceptable [OF this] show ?thesis by (simp add: acceptable_def)
qed

theorem queued_batches_are_acceptable_witness:
  "length wit_uuid \<le> MaxIngestEnvelopeBytes \<and> (\<exists>x. wit_marshal x = Some wit_uuid \<and> ValidateIngestEnvelope x = [])"
proof (rule queued_batches_are_acceptable)
  show "wit_uuid \<in> set (queue_contents
      (outbox_run wit_marshal wit_unmarshal [OpEnqueueMany no_faults 1 [wit_env]] (OpenOutbox 100)))"
    by (simp add: wit_enqueue queue_contents_def)
qed

text \<open>
  Splitting a delivery is all or nothing. A call of \<open>EnqueueManyNext\<close> that reports an error
  leaves the outbox exactly as it was; one that succeeds appended every envelope, in order, with
  the next sequences.
\<close>

theorem enqueue_is_all_or_nothing:
  assumes "EnqueueManyNext marshal fails now xs o1 = (o2, res)"
  shows "case res of Inl err \<Rightarrow> o2 = o1
    | Inr ys \<Rightarrow> queue_contents o2 = queue_contents o1 @ map (the \<circ> marshal) ys \<and>
        (xs \<noteq> [] \<longrightarrow> (\<exists>c. ParseUint (ob_last_sequence o1) = Some c \<and> ys = sequenced c xs))"
proof (cases res)
  case (Inl err)
  then show ?thesis using EnqueueManyNext_Inl [of marshal fails now xs o1 err] assms by simp
next
  case (Inr ys)
  show ?thesis
  proof (cases "xs = []")
    case True
    then show ?thesis using assms Inr by (auto simp: EnqueueManyNext_def)
  next
    case False
    from EnqueueManyNext_Inr [OF _ False] assms Inr obtain c c' assigned where
      e: "enqueued marshal now xs o1 o2 ys c c' assigned" by blast
    from enqueued_contents [OF e] e Inr show ?thesis by (auto simp: enqueued_def)
  qed
qed

theorem enqueue_is_all_or_nothing_witness:
  "\<exists>o2 ys. EnqueueManyNext wit_marshal no_faults 1 [wit_env] (OpenOutbox 100) = (o2, Inr ys) \<and>
     queue_contents o2 = queue_contents (OpenOutbox 100) @ map (the \<circ> wit_marshal) ys"
  using enqueue_is_all_or_nothing [OF wit_enqueue] wit_enqueue by simp

text \<open>
  An enqueue that can succeed does: with no driver fault, envelopes that are valid and fit
  the protocol limit, enough room and sequences left, and fresh batch ids, \<open>EnqueueManyNext\<close>
  returns them with consecutive sequences.
\<close>

theorem enqueue_succeeds:
  assumes "within_capacity o1" "\<forall>st. \<not> fails st" "xs \<noteq> []" "length xs < 2 ^ 39"
    and "ParseUint (ob_last_sequence o1) = Some c" "unat c + length xs < 2 ^ 64"
    and "\<forall>x\<in>set (sequenced c xs). fits marshal x"
    and "queued_bytes o1 + wire_bytes marshal (sequenced c xs) \<le> ob_max_bytes o1"
    and "distinct (map ie_batch_id xs)" "ie_batch_id ` set xs \<inter> ob_batch_id ` set (ob_rows o1) = {}"
  shows "snd (EnqueueManyNext marshal fails now xs o1) = Inr (sequenced c xs)"
  by (rule EnqueueManyNext_succeeds) (use assms in auto)

theorem enqueue_succeeds_witness:
  "snd (EnqueueManyNext wit_marshal no_faults 1 [wit_env] (OpenOutbox 100)) = Inr (sequenced 0 [wit_env])"
proof (rule enqueue_succeeds)
  show "within_capacity (OpenOutbox 100)"
    using ob_inv_open [of 100] by (simp add: within_capacity_def OpenOutbox_def queued_bytes_def)
  have e: "wit_env\<lparr>ie_sequence := 1\<rparr> = wit_env" by (simp add: wit_env_def)
  then show "\<forall>x\<in>set (sequenced 0 [wit_env]). fits wit_marshal x"
    by (simp add: fits_def wit_env_valid wit_marshal_def MaxIngestEnvelopeBytes_def)
      (simp add: wit_env_def wit_uuid_def)
  show "queued_bytes (OpenOutbox 100) + wire_bytes wit_marshal (sequenced 0 [wit_env]) \<le> ob_max_bytes (OpenOutbox 100)"
    using e by (simp add: OpenOutbox_def queued_bytes_def wire_bytes_def wit_marshal_def)
      (simp add: wit_env_def wit_uuid_def)
qed (simp_all add: no_faults_def OpenOutbox_def ParseUint_def is_digit_def parse_digits_def digit_val_def)

text \<open>
  An acknowledgement deletes at most the oldest batch, and only when its protocol version,
  device, batch id and sequence are those of that batch; a refused one changes nothing.
\<close>

theorem acknowledge_is_exact:
  assumes "ob_inv o1" "Acknowledge unmarshal fails ack o1 = (o2, err)"
  shows "case err of
      Some e \<Rightarrow> o2 = o1
    | None \<Rightarrow> \<exists>p x. queue_contents o1 = p # queue_contents o2 \<and> unmarshal p = Some x \<and> ack_matches ack x"
  using assms by (cases rule: Acknowledge_cases) (auto simp: queue_contents_def)

theorem acknowledge_is_exact_witness:
  "\<exists>p x o1 o2. queue_contents o1 = p # queue_contents o2 \<and> wit_unmarshal p = Some x \<and> ack_matches wit_ack x"
proof -
  define o1 where "o1 = fst (EnqueueManyNext wit_marshal no_faults 1 [wit_env] (OpenOutbox 100))"
  have inv: "ob_inv o1" unfolding o1_def by (rule EnqueueManyNext_inv [OF ob_inv_open])
  have "Acknowledge wit_unmarshal no_faults wit_ack o1 = (o1\<lparr>ob_rows := []\<rparr>, None)"
    unfolding o1_def wit_enqueue
    by (simp add: Acknowledge_def no_faults_def wit_unmarshal_def wit_env_def wit_ack_def)
  from acknowledge_is_exact [OF inv this] show ?thesis unfolding option.case by blast
qed

end
