(* ===== verification/Agent_Facts.thy ===== *)
theory Agent_Facts
  imports Agent Outbox_Properties "HOL-Library.Sublist"
begin

text \<open>
  Facts about the agent: fresh identifiers are canonical, the bisection of a batch keeps every
  event once and in order within the size limit, the drain loop empties the queue, the backoff
  is a capped doubling.
\<close>

section \<open>Identifiers\<close>

lemma hex_digit_ok: "n < 16 \<Longrightarrow> lower_hex (hex_digit n)"
  by (cases "n < 10") (simp_all add: hex_digit_def lower_hex_def less_eq_char_def)

lemma hex_byte_ok: "list_all lower_hex (hex_byte b)"
proof -
  have "unat b < 256" using unsigned_less [where 'a = nat and 'b = 8, of b] by simp
  then show ?thesis by (simp add: hex_byte_def hex_digit_ok less_mult_imp_div_less)
qed

lemma hex_bytes_ok: "list_all lower_hex (concat (map hex_byte bs))"
  by (induction bs) (simp_all add: hex_byte_ok)

lemma length_hex_bytes: "length (concat (map hex_byte bs)) = 2 * length bs"
  by (induction bs) (simp_all add: hex_byte_def)

lemma uuid_bytes_append:
  "uuid_bytes k (xs @ ys) \<longleftrightarrow> uuid_bytes k xs \<and> uuid_bytes (k + length xs) ys"
  by (induction xs arbitrary: k) auto

lemma uuid_bytes_group:
  assumes "list_all lower_hex xs" "\<forall>i<length xs. \<not> uuid_dash (k + i)"
  shows "uuid_bytes k xs"
  using assms by (auto simp: uuid_bytes_iff list_all_length)

lemma stamp_uuid_length [simp]: "length (stamp_uuid r) = length r"
  by (simp add: stamp_uuid_def)

text \<open>A version nibble: the upper half of the seventh byte after \<open>(b & 0x0f) | version\<close>.\<close>

lemma version_nibble:
  assumes "v \<in> {0x40, 0x80}"
  shows "unat (or (and b 0x0f) v :: 8 word) div 16 = unat v div 16"
proof -
  have "drop_bit 4 (or (and b 0x0f) v :: 8 word) = drop_bit 4 v"
    using assms by (elim insertE emptyE; simp only:) (rule bit_word_eqI; auto simp: bit_simps less_Suc_eq numeral_eq_Suc)+
  moreover have "unat (drop_bit 4 w) = unat w div 16" for w :: "8 word"
    unfolding unat_drop_bit_eq by (simp add: drop_bit_eq_div)
  ultimately show ?thesis by metis
qed

lemma hex_digit_version: "hex_digit 4 = CHR ''4''" "hex_digit 8 = CHR ''8''"
  by code_simp+

lemma uuid_text_version:
  assumes "length i = 16" shows "uuid_text i ! 14 = hex_digit (unat (i ! 6) div 16)"
    and "hex_digit (unat (i ! 6) div 16) \<noteq> CHR ''0'' \<Longrightarrow> validUUID (uuid_text i)"
proof -
  define a b c d e where "a = concat (map hex_byte (take 4 i))"
    and "b = concat (map hex_byte (take 2 (drop 4 i)))"
    and "c = concat (map hex_byte (take 2 (drop 6 i)))"
    and "d = concat (map hex_byte (take 2 (drop 8 i)))"
    and "e = concat (map hex_byte (take 6 (drop 10 i)))"
  note groups = a_def b_def c_def d_def e_def
  have len: "length a = 8" "length b = 4" "length c = 4" "length d = 4" "length e = 12"
    by (simp_all add: groups length_hex_bytes assms)
  have hex: "list_all lower_hex a" "list_all lower_hex b" "list_all lower_hex c"
    "list_all lower_hex d" "list_all lower_hex e"
    by (simp_all add: groups hex_bytes_ok)
  have u: "uuid_text i = a @ ''-'' @ b @ ''-'' @ c @ ''-'' @ d @ ''-'' @ e"
    by (simp add: uuid_text_def groups)
  have "uuid_bytes 0 a" "uuid_bytes 9 b" "uuid_bytes 14 c" "uuid_bytes 19 d" "uuid_bytes 24 e"
    by (rule uuid_bytes_group; use hex len in \<open>simp add: uuid_dash_def\<close>)+
  then have bytes: "uuid_bytes 0 (uuid_text i)"
    unfolding u uuid_bytes_append using len by (simp add: uuid_dash_def)
  have "c ! 0 = hd c" using len by (cases c) auto
  then have "uuid_text i ! 14 = hd c"
    unfolding u using len by (simp add: nth_append)
  also have "hd c = hex_digit (unat (i ! 6) div 16)"
  proof -
    have "take 2 (drop 6 i) = [i ! 6, i ! 7]"
      by (rule nth_equalityI) (use assms in \<open>auto simp: less_2_cases_iff\<close>)
    then show ?thesis by (simp add: groups hex_byte_def)
  qed
  finally show v: "uuid_text i ! 14 = hex_digit (unat (i ! 6) div 16)" .
  show "validUUID (uuid_text i)" if "hex_digit (unat (i ! 6) div 16) \<noteq> CHR ''0''"
  proof -
    have "uuid_text i \<noteq> nil_uuid" using v that by (auto simp: nil_uuid_def)
    with bytes show ?thesis unfolding validUUID_def using u len by simp
  qed
qed

lemma newUUID_version4:
  assumes "length r = 16" shows "validUUID (newUUID r) \<and> newUUID r ! 14 = CHR ''4''"
proof -
  have "unat (stamp_uuid r ! 6) div 16 = 4" using assms by (simp add: stamp_uuid_def version_nibble)
  then show ?thesis
    using uuid_text_version [of "stamp_uuid r"] assms by (simp add: newUUID_def hex_digit_version)
qed

lemma newUUID_canonical: "length r = 16 \<Longrightarrow> validUUID (newUUID r)"
  using newUUID_version4 by blast


section \<open>Collapsing and partitioning\<close>

lemma collapse_ids_distinct: "distinct (map ev_event_id (collapseRepeatedEventIDs events))"
  by (simp add: collapseRepeatedEventIDs_def first_by_distinct)

lemma collapse_ids: "ev_event_id ` set (collapseRepeatedEventIDs events) = ev_event_id ` set events"
  by (simp add: collapseRepeatedEventIDs_def first_by_set)

lemma collapse_subset: "set (collapseRepeatedEventIDs events) \<subseteq> set events"
  by (simp add: collapseRepeatedEventIDs_def first_by_subset)

text \<open>What every envelope of a partition looks like.\<close>

definition chunk_ok :: "agent_cfg \<Rightarrow> (envelope \<Rightarrow> string option) \<Rightarrow> envelope \<Rightarrow> bool" where
  "chunk_ok cfg marshal x \<longleftrightarrow> ie_kind x = IngestKindEvents \<and> ie_device_id x = cfg_device_id cfg \<and>
     ie_boot_id x = cfg_boot_id cfg \<and> ie_protocol_version x = IngestProtocolV2 \<and>
     ie_quotas x = [] \<and> ie_procs x = None \<and>
     (\<exists>p. marshal (x\<lparr>ie_sequence := - 1\<rparr>) = Some p \<and> length p \<le> MaxIngestEnvelopeBytes)"

lemma prepareEnvelope_Inr:
  "prepareEnvelope cfg x ds = (Inr y, ds') \<Longrightarrow>
     \<exists>r now. ds = (Some r, now) # ds' \<and> y = x\<lparr>ie_protocol_version := IngestProtocolV2,
       ie_device_id := cfg_device_id cfg, ie_boot_id := cfg_boot_id cfg, ie_batch_id := newUUID r,
       ie_sequence := 0, ie_captured_at := now\<rparr>"
  by (cases "(cfg, x, ds)" rule: prepareEnvelope.cases) auto

text \<open>One level of the bisection: a single envelope, or the two halves.\<close>

lemma partition_cases:
  assumes "partitionEventEnvelopes cfg marshal events ds = (Inr xs, ds')"
  obtains (single) prepared p where
      "prepareEnvelope cfg (empty_envelope\<lparr>ie_kind := IngestKindEvents, ie_events := events\<rparr>) ds = (Inr prepared, ds')"
      "marshal (prepared\<lparr>ie_sequence := - 1\<rparr>) = Some p" "length p \<le> MaxIngestEnvelopeBytes"
      "xs = [prepared]"
  | (split) prepared ds1 left ds2 right where
      "prepareEnvelope cfg (empty_envelope\<lparr>ie_kind := IngestKindEvents, ie_events := events\<rparr>) ds = (Inr prepared, ds1)"
      "1 < length events"
      "partitionEventEnvelopes cfg marshal (take (length events div 2) events) ds1 = (Inr left, ds2)"
      "partitionEventEnvelopes cfg marshal (drop (length events div 2) events) ds2 = (Inr right, ds')"
      "xs = left @ right"
  using assms
  by (subst (asm) partitionEventEnvelopes.simps)
    (auto simp: Let_def split: prod.splits sum.splits option.splits if_splits)

lemma partition_keeps:
  "partitionEventEnvelopes cfg marshal events ds = (Inr xs, ds') \<Longrightarrow>
     concat (map ie_events xs) = events \<and> list_all (chunk_ok cfg marshal) xs \<and>
     (events \<noteq> [] \<longrightarrow> list_all (\<lambda>x. ie_events x \<noteq> []) xs) \<and> xs \<noteq> []"
proof (induction "length events" arbitrary: events ds xs ds' rule: less_induct)
  case less
  from less.prems show ?case
  proof (cases rule: partition_cases)
    case (single prepared p)
    with prepareEnvelope_Inr [OF single(1)] show ?thesis
      by (auto simp: chunk_ok_def empty_envelope_def)
  next
    case (split prepared ds1 left ds2 right)
    let ?m = "length events div 2"
    have m: "0 < ?m" "?m < length events" using split(2) by auto
    have "length (take ?m events) < length events" "length (drop ?m events) < length events"
      using m by auto
    note IH = less.hyps [OF this(1) split(3)] less.hyps [OF this(2) split(4)]
    have "concat (map ie_events xs) = take ?m events @ drop ?m events"
      using IH split(5) by simp
    moreover have "take ?m events \<noteq> []" "drop ?m events \<noteq> []" using m by auto
    ultimately show ?thesis using IH split(5) by simp
  qed
qed

text \<open>The batch ids come from distinct draws, in order.\<close>

lemma partition_draws:
  "partitionEventEnvelopes cfg marshal events ds = (Inr xs, ds') \<Longrightarrow>
     \<exists>used. ds = used @ ds' \<and>
       (\<exists>rs. subseq (map ie_batch_id xs) (map newUUID rs) \<and> map fst used = map Some rs)"
proof (induction "length events" arbitrary: events ds xs ds' rule: less_induct)
  case less
  from less.prems show ?case
  proof (cases rule: partition_cases)
    case (single prepared p)
    from prepareEnvelope_Inr [OF single(1)] obtain r now where
      "ds = (Some r, now) # ds'" "ie_batch_id prepared = newUUID r" by auto
    with single show ?thesis
      by (intro exI [of _ "[(Some r, now)]"]) (auto intro!: exI [of _ "[r]"])
  next
    case (split prepared ds1 left ds2 right)
    let ?m = "length events div 2"
    have "length (take ?m events) < length events" "length (drop ?m events) < length events"
      using split(2) by auto
    from less.hyps [OF this(1) split(3)] less.hyps [OF this(2) split(4)]
    obtain u1 r1 u2 r2 where u: "ds1 = u1 @ ds2" "subseq (map ie_batch_id left) (map newUUID r1)"
        "map fst u1 = map Some r1" "ds2 = u2 @ ds'"
        "subseq (map ie_batch_id right) (map newUUID r2)" "map fst u2 = map Some r2"
      by blast
    from prepareEnvelope_Inr [OF split(1)] obtain r now where r: "ds = (Some r, now) # ds1" by blast
    have "subseq (map ie_batch_id xs) (map newUUID (r # r1 @ r2))"
      using u(2,5) split(5) by (auto intro: list_emb_append_mono)
    moreover have "map fst ((Some r, now) # u1 @ u2) = map Some (r # r1 @ r2)"
      using u by simp
    ultimately show ?thesis
      using u(1,4) r by (intro exI [of _ "(Some r, now) # u1 @ u2"]) (auto simp del: list.map)
  qed
qed


text \<open>The bisection succeeds whenever every single event fits on its own.\<close>

definition event_envelope :: "agent_cfg \<Rightarrow> 8 word list \<Rightarrow> int \<Rightarrow> event list \<Rightarrow> envelope" where
  "event_envelope cfg r now events = \<lparr>ie_protocol_version = IngestProtocolV2,
     ie_device_id = cfg_device_id cfg, ie_boot_id = cfg_boot_id cfg, ie_batch_id = newUUID r,
     ie_sequence = - 1, ie_captured_at = now, ie_kind = IngestKindEvents, ie_events = events,
     ie_quotas = [], ie_procs = None\<rparr>"

definition encodable :: "agent_cfg \<Rightarrow> (envelope \<Rightarrow> string option) \<Rightarrow> event list \<Rightarrow> bool" where
  "encodable cfg marshal events \<longleftrightarrow>
     (\<forall>r now es. set es \<subseteq> set events \<longrightarrow> marshal (event_envelope cfg r now es) \<noteq> None) \<and>
     (\<forall>r now e p. e \<in> set events \<longrightarrow> marshal (event_envelope cfg r now [e]) = Some p \<longrightarrow>
        length p \<le> MaxIngestEnvelopeBytes)"

lemma encodable_sub: "encodable cfg marshal events \<Longrightarrow> set es \<subseteq> set events \<Longrightarrow> encodable cfg marshal es"
  unfolding encodable_def by blast

lemma partition_step:
  "partitionEventEnvelopes cfg marshal events ((Some r, now) # ds) =
     (case marshal (event_envelope cfg r now events) of
        None \<Rightarrow> (Inl EncodeFailed, ds)
      | Some payload \<Rightarrow>
          if length payload \<le> MaxIngestEnvelopeBytes
          then (Inr [(event_envelope cfg r now events)\<lparr>ie_sequence := 0\<rparr>], ds)
          else if length events \<le> 1 then (Inl ErrEnvelopeTooLarge, ds)
          else (case partitionEventEnvelopes cfg marshal (take (length events div 2) events) ds of
                  (Inl err, ds2) \<Rightarrow> (Inl err, ds2)
                | (Inr left, ds2) \<Rightarrow>
                    (case partitionEventEnvelopes cfg marshal (drop (length events div 2) events) ds2 of
                       (Inl err, ds3) \<Rightarrow> (Inl err, ds3)
                     | (Inr right, ds3) \<Rightarrow> (Inr (left @ right), ds3))))"
  unfolding event_envelope_def
  by (subst partitionEventEnvelopes.simps) (unfold empty_envelope_def Let_def prepareEnvelope.simps, simp split: option.split)

lemma partition_succeeds:
  assumes "events \<noteq> []" "encodable cfg marshal events"
    and "2 * length events - 1 \<le> length ds" "\<forall>(r, now)\<in>set ds. r \<noteq> None"
  shows "\<exists>xs used ds'. partitionEventEnvelopes cfg marshal events ds = (Inr xs, ds') \<and>
    ds = used @ ds' \<and> length used \<le> 2 * length events - 1"
  using assms
proof (induction "length events" arbitrary: events ds rule: less_induct)
  case less
  have "1 \<le> length events" using less.prems(1) by (simp add: Suc_le_eq)
  then have "ds \<noteq> []" using less.prems(3) by auto
  then obtain r now ds1 where ds: "ds = (Some r, now) # ds1"
    using less.prems(4) by (cases ds) auto
  obtain p where p: "marshal (event_envelope cfg r now events) = Some p"
    using less.prems(2) unfolding encodable_def by blast
  show ?case
  proof (cases "length p \<le> MaxIngestEnvelopeBytes")
    case True
    then show ?thesis
      using p \<open>1 \<le> length events\<close> by (intro exI [of _ "[(Some r, now)]"] exI [of _ ds1] exI)
        (auto simp: ds partition_step)
  next
    case False
    have "length events \<noteq> 1"
    proof
      assume "length events = 1"
      then obtain e where "events = [e]" by (cases events) auto
      with less.prems(2) p False show False unfolding encodable_def by auto
    qed
    then have long: "1 < length events" using \<open>1 \<le> length events\<close> by simp
    define m where "m = length events div 2"
    have m: "0 < m" "m < length events" "2 * m \<le> length events" using long by (auto simp: m_def)
    have enc: "encodable cfg marshal (take m events)" "encodable cfg marshal (drop m events)"
      using less.prems(2) by (auto intro: encodable_sub dest: in_set_takeD in_set_dropD)
    have "take m events \<noteq> []" "drop m events \<noteq> []" using m by auto
    have l1: "length (take m events) < length events" using m by simp
    have "2 * length (take m events) - 1 \<le> length ds1"
      using less.prems(3) m by (simp add: ds)
    from less.hyps [OF l1 \<open>take m events \<noteq> []\<close> enc(1) this] less.prems(4) ds
    obtain left u1 ds2 where left: "partitionEventEnvelopes cfg marshal (take m events) ds1 = (Inr left, ds2)"
        "ds1 = u1 @ ds2" "length u1 \<le> 2 * m - 1"
      using m by auto
    have l2: "length (drop m events) < length events" using m by simp
    have "2 * length (drop m events) - 1 \<le> length ds2"
      using less.prems(3) m left(2,3) by (simp add: ds)
    from less.hyps [OF l2 \<open>drop m events \<noteq> []\<close> enc(2) this] less.prems(4) ds left(2)
    obtain right u2 ds3 where right: "partitionEventEnvelopes cfg marshal (drop m events) ds2 = (Inr right, ds3)"
        "ds2 = u2 @ ds3" "length u2 \<le> 2 * (length events - m) - 1"
      by auto
    have "partitionEventEnvelopes cfg marshal events ds = (Inr (left @ right), ds3)"
      using p False long left(1) right(1) by (simp add: ds partition_step m_def)
    moreover have "ds = ((Some r, now) # u1 @ u2) @ ds3" using ds left(2) right(2) by simp
    moreover have "length ((Some r, now) # u1 @ u2) \<le> 2 * length events - 1"
      using left(3) right(3) m by simp
    ultimately show ?thesis by blast
  qed
qed

section \<open>Enqueueing a scanned batch\<close>

lemma sequenced_keeps:
  "map ie_events (sequenced c xs) = map ie_events xs"
  "map ie_device_id (sequenced c xs) = map ie_device_id xs"
  by (induction xs arbitrary: c) auto

lemma enqueueEvents_Some:
  assumes "enqueueEvents cfg marshal fails now events ds o1 = (o2, Some err)"
  shows "o2 = o1"
proof (cases "fst (partitionEventEnvelopes cfg marshal (collapseRepeatedEventIDs events) ds)")
  case (Inl e)
  with assms show ?thesis by (simp add: enqueueEvents_def)
next
  case (Inr xs)
  with assms obtain e where "EnqueueManyNext marshal fails now xs o1 = (o2, Inl e)"
    by (auto simp: enqueueEvents_def split: prod.splits sum.splits)
  then show ?thesis using EnqueueManyNext_Inl [of marshal fails now xs o1 e] by simp
qed

lemma enqueueEvents_None:
  assumes "enqueueEvents cfg marshal fails now events ds o1 = (o2, None)"
  shows "\<exists>ys. queue_contents o2 = queue_contents o1 @ map (the \<circ> marshal) ys \<and>
    concat (map ie_events ys) = collapseRepeatedEventIDs events \<and>
    (\<forall>x\<in>set ys. ValidateIngestEnvelope x = [] \<and> ie_device_id x = cfg_device_id cfg \<and> ie_kind x = IngestKindEvents)"
proof -
  from assms obtain xs ys ds' where
    part: "partitionEventEnvelopes cfg marshal (collapseRepeatedEventIDs events) ds = (Inr xs, ds')"
    and enq: "EnqueueManyNext marshal fails now xs o1 = (o2, Inr ys)"
    by (cases "partitionEventEnvelopes cfg marshal (collapseRepeatedEventIDs events) ds")
      (auto simp: enqueueEvents_def split: sum.splits prod.splits)
  note keeps = partition_keeps [OF part]
  then have "xs \<noteq> []" by simp
  from EnqueueManyNext_Inr [OF enq this] obtain c c' assigned where
    e: "enqueued marshal now xs o1 o2 ys c c' assigned" by blast
  have ys: "ys = sequenced c xs" and as: "map fst assigned = ys"
    and enc: "\<forall>(x, p)\<in>set assigned. encodeOutboxEnvelope marshal x = Inr p"
    using e by (auto simp: enqueued_def)
  have chunks: "list_all (chunk_ok cfg marshal) xs" using keeps by simp
  have kind: "x \<in> set (sequenced c xs) \<Longrightarrow>
      ie_kind x = IngestKindEvents \<and> ie_device_id x = cfg_device_id cfg" for x
    using chunks by (induction xs arbitrary: c) (auto simp: chunk_ok_def)
  have "\<forall>x\<in>set ys. ValidateIngestEnvelope x = []"
  proof
    fix x assume "x \<in> set ys"
    then obtain p where "(x, p) \<in> set assigned" using as by force
    then have "encodeOutboxEnvelope marshal x = Inr p" using enc by fastforce
    then show "ValidateIngestEnvelope x = []"
      by (auto simp: encodeOutboxEnvelope_def split: list.splits)
  qed
  moreover have "concat (map ie_events ys) = collapseRepeatedEventIDs events"
    using keeps by (simp add: ys sequenced_keeps)
  ultimately show ?thesis
    using enqueued_contents [OF e] kind ys by blast
qed

lemma enqueueEvents_device:
  assumes "enqueueEvents cfg marshal fails now events ds o1 = (o2, None)"
    and "e \<in> set (collapseRepeatedEventIDs events)"
  shows "ev_device e = cfg_device_id cfg"
proof -
  from enqueueEvents_None [OF assms(1)] obtain ys where
    "concat (map ie_events ys) = collapseRepeatedEventIDs events"
    and ok: "\<forall>x\<in>set ys. ValidateIngestEnvelope x = [] \<and> ie_device_id x = cfg_device_id cfg \<and> ie_kind x = IngestKindEvents"
    by blast
  then have "e \<in> set (concat (map ie_events ys))" using assms(2) by simp
  then obtain x where "x \<in> set ys" "e \<in> set (ie_events x)" by auto
  with ok show ?thesis
    by (auto simp: ValidateIngestEnvelope_Nil envelope_ok_def events_ok_def kind_defs)
qed

section \<open>Draining\<close>

text \<open>A network that answers every POST of a queued batch with the acknowledgement it is due.\<close>

definition due_ack :: "envelope \<Rightarrow> ingest_ack \<Rightarrow> bool" where
  "due_ack x ack \<longleftrightarrow> ack_matches ack x"

definition answers :: "(envelope \<Rightarrow> string option) \<Rightarrow> (string \<Rightarrow> envelope option) \<Rightarrow> (string \<Rightarrow> http_response) \<Rightarrow> string \<Rightarrow> bool" where
  "answers marshal unmarshal post p \<longleftrightarrow>
     (\<exists>x body status ack. unmarshal p = Some x \<and> marshal x = Some body \<and>
        post body = Response status (Some ack) \<and> 200 \<le> status \<and> status < 300 \<and> ack_matches ack x)"

lemma uploadOldest_empty:
  "ob_rows o1 = [] \<Longrightarrow> \<not> fails ObReadOldest \<Longrightarrow>
     uploadOldest marshal unmarshal fails post o1 = (o1, Some (UploadOutbox ErrOutboxEmpty))"
  by (simp add: uploadOldest_def PeekBatch_def)

lemma uploadOldest_answered:
  assumes "ob_inv o1" "ob_rows o1 = r # rs" "\<forall>st. \<not> fails st"
    and "answers marshal unmarshal post (ob_envelope r)"
  shows "uploadOldest marshal unmarshal fails post o1 = (o1\<lparr>ob_rows := rs\<rparr>, None)"
proof -
  have old: "oldest_row (r # rs) = Some r" using ob_inv_oldest [OF assms(1)] assms(2) by simp
  have "filter (\<lambda>q. ob_id q \<noteq> ob_id r) rs = rs"
    using assms(1,2) by (auto simp: ob_inv_def filter_id_conv)
  then show ?thesis
    using assms(2-4) old
    by (auto simp: uploadOldest_def PeekBatch_def Acknowledge_def answers_def ack_matches_def)
qed

lemma drainOutbox_empties:
  assumes "ob_inv o1" "\<forall>k st. \<not> fails k st"
    and "\<forall>k. \<forall>p\<in>set (queue_contents o1). answers marshal unmarshal (post k) p"
  shows "drainOutbox marshal unmarshal fails post k o1 =
    (o1\<lparr>ob_rows := []\<rparr>, k + length (ob_rows o1), None)"
  using assms
proof (induction "ob_rows o1" arbitrary: o1 k)
  case Nil
  then show ?case
    by (subst drainOutbox.simps) (simp add: uploadOldest_empty Nil.hyps [symmetric])
next
  case (Cons r rs)
  note rows = Cons.hyps(2) [symmetric]
  have up: "uploadOldest marshal unmarshal (fails k) (post k) o1 = (o1\<lparr>ob_rows := rs\<rparr>, None)"
    by (rule uploadOldest_answered [OF Cons.prems(1) rows]) (use Cons.prems rows in \<open>auto simp: queue_contents_def\<close>)
  have inv: "ob_inv (o1\<lparr>ob_rows := rs\<rparr>)" using Cons.prems(1) rows by (auto simp: ob_inv_def)
  have "drainOutbox marshal unmarshal fails post (k + 1) (o1\<lparr>ob_rows := rs\<rparr>) =
      (o1\<lparr>ob_rows := rs\<rparr>\<lparr>ob_rows := []\<rparr>, k + 1 + length (ob_rows (o1\<lparr>ob_rows := rs\<rparr>)), None)"
    by (rule Cons.hyps(1) [OF _ inv]) (use Cons.prems rows in \<open>auto simp: queue_contents_def\<close>)
  with up rows show ?case by (subst drainOutbox.simps) simp
qed

section \<open>Backoff\<close>

lemma backoff_loop_min:
  assumes "0 < cap" "cap \<le> mx" "mx < 2 ^ 63"
  shows "backoff_loop mx k cap = min mx (cap * 2 ^ k)"
  using assms
proof (induction k arbitrary: cap)
  case (Suc k)
  show ?case
  proof (cases "cap < mx")
    case False
    with Suc.prems have "cap = mx" "mx \<le> cap * 2 ^ Suc k"
      using mult_left_mono [OF one_le_power [of "2::int" "Suc k"], of cap] by simp_all
    then show ?thesis using False by simp
  next
    case True
    have q: "go_quot mx 2 = mx div 2" using Suc.prems by (intro go_quot_nonneg) auto
    show ?thesis
    proof (cases "cap > mx div 2")
      case True
      have "mx \<le> cap * 2" using True by linarith
      moreover have "cap * 2 * 1 \<le> cap * 2 * 2 ^ k"
        using Suc.prems(1) by (intro mult_left_mono) auto
      ultimately have "mx \<le> cap * 2 * 2 ^ k" by simp
      moreover have "backoff_loop mx k mx = mx"
        using Suc.prems by (cases k) simp_all
      ultimately show ?thesis using \<open>cap < mx\<close> True q by (simp add: mult.assoc)
    next
      case False
      then have "cap * 2 \<le> mx" by linarith
      then have "i64 (cap * 2) = cap * 2" "backoff_loop mx k (cap * 2) = min mx (cap * 2 * 2 ^ k)"
        using Suc.IH [of "cap * 2"] Suc.prems by (auto intro!: i64_bounded)
      then show ?thesis using \<open>cap < mx\<close> False q by (simp add: mult.assoc)
    qed
  qed
qed simp

lemma backoff_cap_min:
  assumes "0 < bo_base b" "0 < bo_max b" "bo_max b < 2 ^ 63"
  shows "backoff_cap b = min (bo_max b) (bo_base b * 2 ^ unat (bo_attempt b))"
proof (cases "bo_base b \<le> bo_max b")
  case True
  then show ?thesis
    using assms by (simp add: backoff_cap_def Let_def backoff_loop_min)
next
  case False
  have "bo_base b * 1 \<le> bo_base b * 2 ^ unat (bo_attempt b)"
    using assms(1) by (intro mult_left_mono) auto
  moreover have "backoff_loop (bo_max b) k (bo_base b) = bo_base b" for k
    using False by (cases k) simp_all
  ultimately show ?thesis using False by (simp add: backoff_cap_def Let_def)
qed

end
