(* ===== verification/Event_Store_Properties.thy ===== *)
theory Event_Store_Properties
  imports Event_Store_Batch
begin

text \<open>
  The properties of the event store. \<open>run_inserts\<close> is a history of committed calls of
  \<open>InsertEventsFrom\<close>; the other statements are about single calls.
\<close>

fun run_inserts :: "event_row list \<Rightarrow> (event list \<times> int \<times> string) list \<Rightarrow> event_row list" where
  "run_inserts t [] = t"
| "run_inserts t ((es, recv, origin) # calls) =
     run_inserts (fst (InsertEventsFrom True t es recv origin)) calls"

definition delivered_ids :: "(event list \<times> int \<times> string) list \<Rightarrow> string set" where
  "delivered_ids calls = (\<Union>(es, recv, origin)\<in>set calls. ev_event_id ` set es) - {[]}"

definition effective_origin :: "string \<Rightarrow> string" where
  "effective_origin origin = (if origin = [] then OriginObserved else origin)"

lemma InsertEventsFrom_spec:
  assumes "table_ok stamp t" "\<forall>e\<in>set es. stamped stamp e"
  shows "fst (InsertEventsFrom True t es recv origin) =
    fst (spec_run (effective_origin origin) recv es (t, zeroApplyResult))"
  using insertEventsFromTx_spec [OF assms, of recv "effective_origin origin"]
  by (simp add: InsertEventsFrom_def effective_origin_def Let_def split: prod.split)

lemma run_inserts_survivors:
  "surv_inv stamp ids t \<Longrightarrow> \<forall>(es, recv, origin)\<in>set calls. \<forall>e\<in>set es. stamped stamp e \<Longrightarrow>
     surv_inv stamp (ids \<union> delivered_ids calls) (run_inserts t calls)"
proof (induction calls arbitrary: t ids)
  case Nil
  then show ?case by (simp add: delivered_ids_def)
next
  case (Cons c calls)
  obtain es recv origin where c: "c = (es, recv, origin)" by (cases c)
  have "fst (InsertEventsFrom True t es recv origin) =
      fst (spec_run (effective_origin origin) recv es (t, zeroApplyResult))"
    using Cons.prems c by (intro InsertEventsFrom_spec [of stamp]) (auto simp: surv_inv_def)
  moreover have "surv_inv stamp (ids \<union> (ev_event_id ` set es - {[]}))
      (fst (spec_run (effective_origin origin) recv es (t, zeroApplyResult)))"
    using Cons.prems c by (intro surv_inv_run) auto
  ultimately have "surv_inv stamp (ids \<union> (ev_event_id ` set es - {[]}) \<union> delivered_ids calls)
      (run_inserts t (c # calls))"
    using Cons.IH Cons.prems c by auto
  moreover have "ids \<union> (ev_event_id ` set es - {[]}) \<union> delivered_ids calls =
      ids \<union> delivered_ids (c # calls)"
    by (auto simp: c delivered_ids_def)
  ultimately show ?case by simp
qed

text \<open>Sample events of the witnesses: two log lines of one generation, the copy arriving first.\<close>

definition wit_event :: "string \<Rightarrow> int \<Rightarrow> int \<Rightarrow> event" where
  "wit_event i ts out = zero_event\<lparr>ev_event_id := i, ev_dedup_key := ''k'', ev_ts := ts,
     ev_device := ''d'', ev_source := ''codex'', ev_provider := ''openai'', ev_output_tokens := out\<rparr>"

definition wit_stamp :: "string \<Rightarrow> string \<times> int" where
  "wit_stamp i = (''k'', if i = ''b'' then 5 else 3)"

lemma wit_stamped: "stamped wit_stamp (wit_event ''b'' 5 n)" "stamped wit_stamp (wit_event ''a'' 3 n)"
  by (simp_all add: stamped_def wit_event_def wit_stamp_def zero_event_def)

lemma wit_table: "table_ok wit_stamp []"
  by (simp add: table_ok_def)

section \<open>Properties\<close>

text \<open>
  C1. Which log line of a generation survives does not depend on the order, the batching, the
  channel or the repetition of deliveries: after any history of inserts into an empty store the
  ids present are exactly those of the delivered events that no other delivered event with the
  same dedup key precedes in (timestamp, event id).
\<close>

theorem survivors_of_any_history:
  assumes "\<forall>(es, recv, origin)\<in>set calls. \<forall>e\<in>set es. stamped stamp e"
  shows "ev_event_id ` set (run_inserts [] calls) = survivors stamp (delivered_ids calls)"
  using run_inserts_survivors [OF surv_inv_empty assms] by (simp add: surv_inv_def)

theorem survivors_of_any_history_witness:
  "ev_event_id ` set (run_inserts [] [([wit_event ''b'' 5 9], 1, ''self''), ([wit_event ''a'' 3 9], 2, ''observed'')])
     = {''a''}"
proof -
  have h: "\<forall>(es, recv, origin)\<in>set [([wit_event ''b'' 5 9], 1, ''self''), ([wit_event ''a'' 3 9], 2, ''observed'')].
      \<forall>e\<in>set es. stamped wit_stamp e"
    by (simp add: wit_stamped)
  have ids: "delivered_ids [([wit_event ''b'' 5 9], 1, ''self''), ([wit_event ''a'' 3 9], 2, ''observed'')]
      = {''a'', ''b''}"
    by (auto simp: delivered_ids_def wit_event_def zero_event_def)
  have "survivors wit_stamp {''a'', ''b''} = {''a''}"
    by (auto simp: survivors_def beats_def wit_stamp_def)
  with survivors_of_any_history [OF h] ids show ?thesis by simp
qed

text \<open>
  C2. Re-delivering a batch the store has taken, at any later receive time, changes no row and
  counts nothing: not an insert, a fill, a reclassification, a re-attribution or a removal.
\<close>

theorem redelivery_is_absorbed:
  assumes "table_ok stamp t" "\<forall>e\<in>set es. stamped stamp e"
    and "insertEventsFromTx t es recv origin = Some (t', result)"
  shows "insertEventsFromTx t' es recv' origin = Some (t', zeroApplyResult)"
proof -
  from assms(3) insertEventsFromTx_spec [OF assms(1,2), of recv origin]
  have t': "t' = fst (spec_run origin recv es (t, zeroApplyResult))" by simp
  have ok: "table_ok stamp t'" unfolding t' using assms(1,2) by (intro spec_run_table_ok) auto
  have "\<forall>e\<in>set es. settled origin t' e"
    unfolding t' using assms(1,2) by (intro spec_run_settles) auto
  then have "spec_run origin recv' es (t', zeroApplyResult) = (t', zeroApplyResult)"
    using ok assms(2) by (intro spec_run_noop) auto
  with insertEventsFromTx_spec [OF ok assms(2)] show ?thesis by simp
qed

theorem redelivery_is_absorbed_witness:
  "\<exists>t' result. insertEventsFromTx [] [wit_event ''b'' 5 9, wit_event ''a'' 3 9] 1 ''self'' = Some (t', result) \<and>
     insertEventsFromTx t' [wit_event ''b'' 5 9, wit_event ''a'' 3 9] 2 ''self'' = Some (t', zeroApplyResult)"
proof -
  have s: "\<forall>e\<in>set [wit_event ''b'' 5 9, wit_event ''a'' 3 9]. stamped wit_stamp e"
    by (simp add: wit_stamped)
  obtain t' result where "insertEventsFromTx [] [wit_event ''b'' 5 9, wit_event ''a'' 3 9] 1 ''self'' = Some (t', result)"
    using insertEventsFromTx_spec [OF wit_table s, of 1 "''self''"]
    by (cases "spec_run ''self'' 1 [wit_event ''b'' 5 9, wit_event ''a'' 3 9] ([], zeroApplyResult)") simp
  with redelivery_is_absorbed [OF wit_table s this] show ?thesis by blast
qed

text \<open>
  C3. The gates in front of the statements, which read the state loaded before the batch, never
  suppress an effect: the batch does exactly what it would do with every probe run (an empty
  pre-load), rows and counters alike.
\<close>

theorem gates_suppress_nothing:
  assumes "table_ok stamp t" "\<forall>e\<in>set es. stamped stamp e"
  shows "insertEventsFromTx t es recv origin =
    apply_events origin recv (\<lambda>_. None) es (t, zeroApplyResult)"
  using insertEventsFromTx_spec [OF assms] unprobed_spec [OF assms] by simp

theorem gates_suppress_nothing_witness:
  "insertEventsFromTx [row_of (wit_event ''b'' 5 9) ''observed'' 0] [wit_event ''a'' 3 9, wit_event ''b'' 5 9] 1 ''self'' =
     apply_events ''self'' 1 (\<lambda>_. None) [wit_event ''a'' 3 9, wit_event ''b'' 5 9]
       ([row_of (wit_event ''b'' 5 9) ''observed'' 0], zeroApplyResult)"
proof -
  have "table_ok wit_stamp [row_of (wit_event ''b'' 5 9) ''observed'' 0]"
    by (simp add: table_ok_def row_of_stamped wit_stamped)
  then show ?thesis
    by (rule gates_suppress_nothing) (simp add: wit_stamped)
qed

text \<open>
  On a table that satisfies its two uniqueness constraints no batch whatsoever is refused,
  so the key backfill never collides, and the constraints hold afterwards.
\<close>

theorem inserts_never_violate_constraints:
  assumes "ev.uniq t"
  shows "snd (InsertEventsFrom committed t es recv origin) \<noteq> Inl ConstraintViolation \<and>
    ev.uniq (fst (InsertEventsFrom committed t es recv origin))"
proof -
  have "batch_accepted (insertEventsFromTx t es recv origin')" for origin'
    unfolding insertEventsFromTx_def by (rule apply_events_accepted) (simp add: assms)
  then obtain t' res where "insertEventsFromTx t es recv (effective_origin origin) = Some (t', res)" "ev.uniq t'"
    by (metis batch_accepted.simps option.exhaust surj_pair)
  with assms show ?thesis
    by (simp add: InsertEventsFrom_def effective_origin_def)
qed

theorem inserts_never_violate_constraints_witness:
  "ev.uniq [row_of (wit_event ''b'' 5 9) ''self'' 0] \<and>
   snd (InsertEventsFrom True [row_of (wit_event ''b'' 5 9) ''self'' 0] [wit_event ''a'' 3 9] 1 ''self'')
     \<noteq> Inl ConstraintViolation"
  using inserts_never_violate_constraints [of "[row_of (wit_event ''b'' 5 9) ''self'' 0]"] by simp

lemma spec_run_new_counts:
  assumes "table_ok stamp (fst s)" "\<forall>e\<in>set es. stamped stamp e"
    and "r' \<in> set (fst (spec_run origin recv es s))"
  shows "count_columns r' \<in> count_columns ` set (fst s) \<union> count_columns ` set es"
  using assms
proof (induction es arbitrary: s)
  case (Cons e es)
  let ?s = "spec_step origin recv e s"
  have ok: "table_ok stamp (fst ?s)"
    using spec_step_table_ok [of stamp "fst s" e origin recv "snd s"] Cons.prems by simp
  have "count_columns ` set (fst ?s) \<subseteq> count_columns ` set (fst s) \<union> {count_columns e}"
  proof (cases "ev_event_id e = []")
    case False
    have "ev.uniq (fst s)" using Cons.prems by (simp add: table_ok_def)
    from spec_step_rows [OF this False, of origin recv "snd s"] show ?thesis
      by (cases; simp; fastforce)
  qed (auto simp: spec_step_empty_id)
  with Cons.IH [OF ok] Cons.prems show ?case by fastforce
qed simp

text \<open>
  No observation moves a count: a row that survives a batch keeps its id, timestamp, model,
  account and all token columns, and a row that was not there before carries those of an event
  of the batch.
\<close>

theorem no_observation_moves_a_count:
  assumes "table_ok stamp t" "\<forall>e\<in>set es. stamped stamp e"
    and "insertEventsFromTx t es recv origin = Some (t', result)" "r' \<in> set t'"
  shows "(\<exists>r\<in>set t. ev_event_id r = ev_event_id r' \<and> count_columns r = count_columns r') \<or>
    (\<forall>r\<in>set t. ev_event_id r \<noteq> ev_event_id r') \<and> (\<exists>e\<in>set es. count_columns e = count_columns r')"
proof -
  have run: "r' \<in> set (fst (spec_run origin recv es (t, zeroApplyResult)))"
    using assms(3,4) insertEventsFromTx_spec [OF assms(1,2), of recv origin] by simp
  show ?thesis
  proof (cases "\<exists>r\<in>set t. ev_event_id r = ev_event_id r'")
    case True
    then obtain r where r: "r \<in> set t" "ev_event_id r = ev_event_id r'" by blast
    have "count_columns r' = count_columns r"
      by (rule spec_run_keeps [where Q = "\<lambda>x. count_columns x = count_columns r" and stamp = stamp
            and s = "(t, zeroApplyResult)" and es = es and origin = origin and recv = recv and r = r])
        (use assms(1,2) r run in simp_all)
    with r show ?thesis by auto
  next
    case False
    have "count_columns r' \<in> count_columns ` set t \<union> count_columns ` set es"
      using spec_run_new_counts [of stamp "(t, zeroApplyResult)" es r' origin recv] assms(1,2) run by simp
    with False show ?thesis by (auto simp: count_columns_def)
  qed
qed

theorem no_observation_moves_a_count_witness:
  "\<exists>t' result r'. insertEventsFromTx [] [wit_event ''a'' 3 9, wit_event ''a'' 3 9] 1 ''self'' = Some (t', result) \<and>
     r' \<in> set t' \<and> (\<exists>e\<in>set [wit_event ''a'' 3 9, wit_event ''a'' 3 9]. count_columns e = count_columns r')"
proof -
  have s: "\<forall>e\<in>set [wit_event ''a'' 3 9, wit_event ''a'' 3 9]. stamped wit_stamp e"
    by (simp add: wit_stamped)
  have run: "spec_run ''self'' 1 [wit_event ''a'' 3 9, wit_event ''a'' 3 9] ([], zeroApplyResult) =
      ([merge_row ''self'' (wit_event ''a'' 3 9) (row_of (wit_event ''a'' 3 9) ''self'' 1)],
       note_merge ''self'' (wit_event ''a'' 3 9) (Some (row_of (wit_event ''a'' 3 9) ''self'' 1))
         (zeroApplyResult\<lparr>er_inserted := er_inserted zeroApplyResult + 1\<rparr>))"
    by (simp add: spec_step_def spec_merge_or_insert_def owner_of_def row_at_def at_id_def is_copy_def
        wit_event_def zero_event_def)
  then have b: "insertEventsFromTx [] [wit_event ''a'' 3 9, wit_event ''a'' 3 9] 1 ''self'' =
      Some ([merge_row ''self'' (wit_event ''a'' 3 9) (row_of (wit_event ''a'' 3 9) ''self'' 1)],
       note_merge ''self'' (wit_event ''a'' 3 9) (Some (row_of (wit_event ''a'' 3 9) ''self'' 1))
         (zeroApplyResult\<lparr>er_inserted := er_inserted zeroApplyResult + 1\<rparr>))"
    using insertEventsFromTx_spec [OF wit_table s] by simp
  from no_observation_moves_a_count [OF wit_table s b, of "merge_row ''self'' (wit_event ''a'' 3 9)
      (row_of (wit_event ''a'' 3 9) ''self'' 1)"] b
  show ?thesis by (metis empty_iff list.set(1) list.set_intros(1))
qed

end
