(* ===== verification/Delivery.thy ===== *)
theory Delivery
  imports Hub_Server Agent_Facts Event_Store_Properties
begin

text \<open>
  The delivery pipeline as a whole: any number of agents, each with its durable outbox, a network
  that loses, delays, repeats and reorders requests and replies, and the hub. Each step is one
  call of the components' own operations, with any faults of their drivers. A request or a reply
  once put on the wire stays there, so it may be delivered any number of times, at any later
  time, or never.

  Three ghost fields record what happened: the envelopes ever made durable per device, those the
  agent has deleted, and those whose payload the hub has applied, in order.
\<close>

section \<open>The system\<close>

record network =
  nw_outbox :: "string \<Rightarrow> outbox"
  nw_hub :: hub
  nw_requests :: "(string \<times> string) set"
  nw_replies :: "(string \<times> ingest_ack) set"
  nw_enqueued :: "string \<Rightarrow> envelope list"
  nw_deleted :: "string \<Rightarrow> envelope list"
  nw_applied :: "envelope list"

definition empty_hub :: hub where
  "empty_hub = \<lparr>hu_db = \<lparr>hd_events = [], hd_quotas = [], hd_sessions = [], hd_reports = [], hd_receipts = []\<rparr>,
     hu_registry = \<lparr>rg_devices = [], rg_heartbeats = [], rg_bindings = []\<rparr>, hu_notified = 0\<rparr>"

definition initial_network :: "int \<Rightarrow> network" where
  "initial_network maxBytes = \<lparr>nw_outbox = (\<lambda>d. OpenOutbox maxBytes), nw_hub = empty_hub,
     nw_requests = {}, nw_replies = {}, nw_enqueued = (\<lambda>d. []), nw_deleted = (\<lambda>d. []), nw_applied = []\<rparr>"

definition hub_receipts :: "hub \<Rightarrow> receipt list" where
  "hub_receipts h = hd_receipts (hu_db h)"

text \<open>Ids of all batches ever made durable, by any device: what a fresh UUID avoids.\<close>

definition known_batches :: "network \<Rightarrow> string set" where
  "known_batches n = (\<Union>d. ie_batch_id ` set (nw_enqueued n d))"

text \<open>A device that posts the body it has, and is answered with a reply that is on the wire.\<close>

definition wire_post :: "network \<Rightarrow> string \<Rightarrow> ingest_ack \<Rightarrow> (string \<Rightarrow> http_response) \<Rightarrow> bool" where
  "wire_post n d ack post \<longleftrightarrow> (d, ack) \<in> nw_replies n \<and> (\<forall>body. post body = Response 200 (Some ack))"

inductive net_step :: "(envelope \<Rightarrow> string option) \<Rightarrow> (string \<Rightarrow> envelope option) \<Rightarrow>
    (string \<Rightarrow> 8 word list) \<Rightarrow> string \<Rightarrow> network \<Rightarrow> network \<Rightarrow> bool"
  for marshal unmarshal sha256 admin where
  enqueue:
    "EnqueueManyNext marshal fails now xs (nw_outbox n d) = (o2, Inr ys) \<Longrightarrow>
     \<forall>x\<in>set xs. ie_device_id x = d \<Longrightarrow> distinct (map ie_batch_id xs) \<Longrightarrow>
     ie_batch_id ` set xs \<inter> known_batches n = {} \<Longrightarrow>
     net_step marshal unmarshal sha256 admin n
       (n\<lparr>nw_outbox := (nw_outbox n)(d := o2),
          nw_enqueued := (nw_enqueued n)(d := nw_enqueued n d @ ys)\<rparr>)"
| send:
    "PeekBatch unmarshal fails (nw_outbox n d) = Inr x \<Longrightarrow> marshal x = Some body \<Longrightarrow>
     net_step marshal unmarshal sha256 admin n
       (n\<lparr>nw_requests := insert (authorization, body) (nw_requests n)\<rparr>)"
| hub_ingest:
    "(authorization, body) \<in> nw_requests n \<Longrightarrow> unmarshal body = Some x \<Longrightarrow>
     handleIngestV2 sha256 faults now authorization (Decoded x) (nw_hub n) = (h, reply) \<Longrightarrow>
     net_step marshal unmarshal sha256 admin n
       (n\<lparr>nw_hub := h,
          nw_replies := (case reply of
              ReplyAck status ack \<Rightarrow> if status = 200 then insert (ie_device_id x, ack) (nw_replies n)
                                    else nw_replies n
            | _ \<Rightarrow> nw_replies n),
          nw_applied := (if hub_receipts h = hub_receipts (nw_hub n) then nw_applied n
                         else nw_applied n @ [x])\<rparr>)"
| receive:
    "wire_post n d ack post \<Longrightarrow> PeekBatch unmarshal no_faults (nw_outbox n d) = Inr x \<Longrightarrow>
     uploadOldest marshal unmarshal fails post (nw_outbox n d) = (o2, None) \<Longrightarrow>
     net_step marshal unmarshal sha256 admin n
       (n\<lparr>nw_outbox := (nw_outbox n)(d := o2),
          nw_deleted := (nw_deleted n)(d := nw_deleted n d @ [x])\<rparr>)"
| heartbeat:
    "handleHeartbeatV2 sha256 faults now authorization hb (nw_hub n) = (h, reply) \<Longrightarrow>
     net_step marshal unmarshal sha256 admin n (n\<lparr>nw_hub := h\<rparr>)"
| enroll:
    "handleEnrollV2 sha256 admin faults now authorization q (nw_hub n) = (h, reply) \<Longrightarrow>
     net_step marshal unmarshal sha256 admin n (n\<lparr>nw_hub := h\<rparr>)"
| revoke:
    "handleRevokeDeviceV2 admin faults now d (nw_hub n) = (h, reply) \<Longrightarrow>
     net_step marshal unmarshal sha256 admin n (n\<lparr>nw_hub := h\<rparr>)"

inductive net_reachable :: "(envelope \<Rightarrow> string option) \<Rightarrow> (string \<Rightarrow> envelope option) \<Rightarrow>
    (string \<Rightarrow> 8 word list) \<Rightarrow> string \<Rightarrow> int \<Rightarrow> network \<Rightarrow> bool"
  for marshal unmarshal sha256 admin maxBytes where
  start: "net_reachable marshal unmarshal sha256 admin maxBytes (initial_network maxBytes)"
| step: "net_reachable marshal unmarshal sha256 admin maxBytes n \<Longrightarrow>
     net_step marshal unmarshal sha256 admin n n' \<Longrightarrow>
     net_reachable marshal unmarshal sha256 admin maxBytes n'"

text \<open>What the pipeline needs of the JSON codec: a valid envelope it encodes is decoded again.\<close>

definition codec_ok :: "(envelope \<Rightarrow> string option) \<Rightarrow> (string \<Rightarrow> envelope option) \<Rightarrow> bool" where
  "codec_ok marshal unmarshal \<longleftrightarrow>
     (\<forall>x p. marshal x = Some p \<and> ValidateIngestEnvelope x = [] \<longrightarrow> unmarshal p = Some x)"

section \<open>What a step does to the hub\<close>

text \<open>One call of the ingest handler: nothing, a replay, or a newly applied envelope.\<close>

lemma handleIngestV2_cases:
  assumes "handleIngestV2 sha256 faults now auth (Decoded x) h = (h', reply)"
  obtains (refused) "hu_db h' = hu_db h" "\<forall>ack. reply \<noteq> ReplyAck 200 ack"
  | (replayed) ack where "hu_db h' = hu_db h" "reply = ReplyAck 200 ack"
      "ingestReceiptTx (hub_receipts h) (ie_batch_id x) = Inr (Some ack)" "ak_device_id ack = ie_device_id x"
  | (applied) db1 accepted duplicates changed where
      "ValidateIngestEnvelope x = []" "\<forall>r\<in>set (hub_receipts h). rc_batch_id r \<noteq> ie_batch_id x"
      "apply_payload (hu_db h) x now = Inr (db1, accepted, duplicates, changed)"
      "hu_db h' = db1\<lparr>hd_receipts := hub_receipts h @ [receipt_of (applied_ack x accepted duplicates now)]\<rparr>"
      "reply = ReplyAck 200 (applied_ack x accepted duplicates now)"
proof (cases "ValidateIngestEnvelope x = []")
  case False
  with assms have "hu_db h' = hu_db h" "\<forall>ack. reply \<noteq> ReplyAck 200 ack"
    by (auto simp: handleIngestV2_def Let_def)
  then show ?thesis by (rule refused)
next
  case valid: True
  show ?thesis
  proof (cases "\<exists>r. authenticate sha256 (hf_auth faults) (hu_registry h) (ie_device_id x) auth = Inr (r, True)")
    case False
    with assms valid have "hu_db h' = hu_db h" "\<forall>ack. reply \<noteq> ReplyAck 200 ack"
      by (auto simp: handleIngestV2_def Let_def split: sum.splits prod.splits if_splits)
    then show ?thesis by (rule refused)
  next
    case True
    then obtain r where auth: "authenticate sha256 (hf_auth faults) (hu_registry h) (ie_device_id x) auth = Inr (r, True)"
      by blast
    obtain db' res where ap: "ApplyIngestV2 (hf_ingest faults) (hu_db h) x now = (db', res)" by fastforce
    from ap show ?thesis
    proof (cases rule: ApplyIngestV2_cases)
      case (failed err)
      with assms valid auth ap have "hu_db h' = hu_db h" "\<forall>ack. reply \<noteq> ReplyAck 200 ack"
        by (auto simp: handleIngestV2_def Let_def split: if_splits)
      then show ?thesis by (rule refused)
    next
      case (replayed ack)
      with assms valid auth ap show ?thesis
        by (intro that(2)) (auto simp: handleIngestV2_def Let_def hub_receipts_def)
    next
      case (applied db1 accepted duplicates changed)
      with assms valid auth ap show ?thesis
        by (intro that(3)) (auto simp: handleIngestV2_def Let_def hub_receipts_def notify_def split: if_splits)
    qed
  qed
qed

lemma ApplyProcReport_keeps:
  "hd_receipts (fst (ApplyProcReport io rep db)) = hd_receipts db \<and>
     hd_events (fst (ApplyProcReport io rep db)) = hd_events db"
  by (simp add: ApplyProcReport_def split: prod.splits)

lemma handleHeartbeat_keeps:
  "handleHeartbeatV2 sha256 faults now auth body h = (h', reply) \<Longrightarrow>
     hub_receipts h' = hub_receipts h \<and> hd_events (hu_db h') = hd_events (hu_db h)"
  by (auto simp: handleHeartbeatV2_def Let_def hub_receipts_def notify_def case_prod_beta
      ApplyProcReport_keeps split: decoded.splits if_splits sum.splits option.splits)

lemma handleEnroll_keeps:
  "handleEnrollV2 sha256 admin faults now auth q h = (h', reply) \<Longrightarrow> hu_db h' = hu_db h"
  by (auto simp: handleEnrollV2_def split: decoded.splits if_splits sum.splits option.splits prod.splits)

lemma handleRevoke_keeps:
  "handleRevokeDeviceV2 admin faults now d h = (h', reply) \<Longrightarrow> hu_db h' = hu_db h"
  by (auto simp: handleRevokeDeviceV2_def notify_def split: if_splits option.splits prod.splits)


section \<open>The invariant\<close>

text \<open>
  Each clause under its own name: the queue of a device is the part of its history not yet
  deleted; every durable envelope is valid and its device's; batch ids are unique; what is on the
  wire is an envelope up to the oldest queued one; what the hub has applied of a device is a
  prefix of its history that reaches the deleted part and at most one further; receipts and
  replies are those of applied envelopes.
\<close>

definition pending :: "network \<Rightarrow> string \<Rightarrow> envelope list" where
  "pending n d = drop (length (nw_deleted n d)) (nw_enqueued n d)"

definition applied_of :: "network \<Rightarrow> string \<Rightarrow> envelope list" where
  "applied_of n d = filter (\<lambda>x. ie_device_id x = d) (nw_applied n)"

definition inv_queue :: "(envelope \<Rightarrow> string option) \<Rightarrow> network \<Rightarrow> bool" where
  "inv_queue marshal n \<longleftrightarrow> (\<forall>d. ob_inv (nw_outbox n d) \<and>
     nw_enqueued n d = nw_deleted n d @ pending n d \<and>
     queue_contents (nw_outbox n d) = map (the \<circ> marshal) (pending n d))"

definition inv_valid :: "(envelope \<Rightarrow> string option) \<Rightarrow> network \<Rightarrow> bool" where
  "inv_valid marshal n \<longleftrightarrow> (\<forall>d. \<forall>x\<in>set (nw_enqueued n d).
     ie_device_id x = d \<and> ValidateIngestEnvelope x = [] \<and> marshal x \<noteq> None)"

definition inv_ids :: "network \<Rightarrow> bool" where
  "inv_ids n \<longleftrightarrow> (\<forall>d. distinct (map ie_batch_id (nw_enqueued n d))) \<and>
     (\<forall>d d' x y. x \<in> set (nw_enqueued n d) \<and> y \<in> set (nw_enqueued n d') \<and>
        ie_batch_id x = ie_batch_id y \<longrightarrow> x = y)"

definition reached :: "network \<Rightarrow> string \<Rightarrow> envelope \<Rightarrow> bool" where
  "reached n d x \<longleftrightarrow> (\<exists>i<length (nw_enqueued n d). i \<le> length (nw_deleted n d) \<and> nw_enqueued n d ! i = x)"

definition inv_wire :: "(envelope \<Rightarrow> string option) \<Rightarrow> network \<Rightarrow> bool" where
  "inv_wire marshal n \<longleftrightarrow> (\<forall>(auth, body)\<in>nw_requests n. \<exists>d x. reached n d x \<and> marshal x = Some body)"

definition inv_applied :: "network \<Rightarrow> bool" where
  "inv_applied n \<longleftrightarrow> (\<forall>d. \<exists>k\<le>length (nw_enqueued n d). applied_of n d = take k (nw_enqueued n d) \<and>
     length (nw_deleted n d) \<le> k \<and> k \<le> length (nw_deleted n d) + 1)"

definition inv_receipts :: "network \<Rightarrow> bool" where
  "inv_receipts n \<longleftrightarrow> (\<forall>i ack. ingestReceiptTx (hub_receipts (nw_hub n)) i = Inr (Some ack) \<longrightarrow>
       (\<exists>x\<in>set (nw_applied n). ack_matches ack x)) \<and>
     rc_batch_id ` set (hub_receipts (nw_hub n)) = ie_batch_id ` set (nw_applied n)"

definition inv_replies :: "network \<Rightarrow> bool" where
  "inv_replies n \<longleftrightarrow> (\<forall>(d, ack)\<in>nw_replies n. \<exists>x\<in>set (nw_applied n). ack_matches ack x)"

definition delivery_inv :: "(envelope \<Rightarrow> string option) \<Rightarrow> network \<Rightarrow> bool" where
  "delivery_inv marshal n \<longleftrightarrow> inv_queue marshal n \<and> inv_valid marshal n \<and> inv_ids n \<and>
     inv_wire marshal n \<and> inv_applied n \<and> inv_receipts n \<and> inv_replies n"

lemmas inv_defs = inv_queue_def inv_valid_def inv_ids_def inv_wire_def inv_applied_def
  inv_receipts_def inv_replies_def

lemma inv_initial: "delivery_inv marshal (initial_network maxBytes)"
proof -
  have "queue_contents (OpenOutbox maxBytes) = []" by (simp add: queue_contents_def OpenOutbox_def)
  then show ?thesis
    using ob_inv_open [of maxBytes]
    by (simp add: delivery_inv_def inv_defs initial_network_def pending_def applied_of_def
        hub_receipts_def empty_hub_def ingestReceiptTx_def sql_select_def)
qed

section \<open>Only the hub's receipts matter to the pipeline\<close>

lemma inv_other_hub:
  assumes "delivery_inv marshal n" "hub_receipts h = hub_receipts (nw_hub n)"
  shows "delivery_inv marshal (n\<lparr>nw_hub := h\<rparr>)"
proof -
  let ?n = "n\<lparr>nw_hub := h\<rparr>"
  have "inv_queue marshal ?n = inv_queue marshal n" by (simp add: inv_queue_def pending_def)
  moreover have "inv_valid marshal ?n = inv_valid marshal n" by (simp add: inv_valid_def)
  moreover have "inv_ids ?n = inv_ids n" by (simp add: inv_ids_def)
  moreover have "inv_wire marshal ?n = inv_wire marshal n" by (simp add: inv_wire_def reached_def)
  moreover have "inv_applied ?n = inv_applied n" by (simp add: inv_applied_def applied_of_def)
  moreover have "inv_receipts ?n = inv_receipts n" by (simp add: inv_receipts_def assms(2))
  moreover have "inv_replies ?n = inv_replies n" by (simp add: inv_replies_def)
  ultimately show ?thesis using assms(1) by (simp only: delivery_inv_def)
qed

section \<open>Enqueueing\<close>

lemma EnqueueManyNext_new:
  assumes "EnqueueManyNext marshal fails now xs o1 = (o2, Inr ys)"
  shows "queue_contents o2 = queue_contents o1 @ map (the \<circ> marshal) ys \<and>
    map ie_batch_id ys = map ie_batch_id xs \<and> map ie_device_id ys = map ie_device_id xs \<and>
    (\<forall>y\<in>set ys. ValidateIngestEnvelope y = [] \<and> marshal y \<noteq> None)"
proof (cases "xs = []")
  case True
  then show ?thesis using assms by (simp add: EnqueueManyNext_def)
next
  case False
  from EnqueueManyNext_Inr [OF assms False] obtain c c' assigned where
    e: "enqueued marshal now xs o1 o2 ys c c' assigned" by blast
  then have ys: "ys = sequenced c xs" and as: "map fst assigned = ys"
    and enc: "\<forall>(x, p)\<in>set assigned. encodeOutboxEnvelope marshal x = Inr p"
    by (auto simp: enqueued_def)
  have "ValidateIngestEnvelope y = [] \<and> marshal y \<noteq> None" if "y \<in> set ys" for y
  proof -
    from that as obtain p where "(y, p) \<in> set assigned" by force
    then have "encodeOutboxEnvelope marshal y = Inr p" using enc by fastforce
    then show ?thesis
      by (auto simp: encodeOutboxEnvelope_def split: list.splits option.splits if_splits)
  qed
  with enqueued_contents [OF e] show ?thesis
    by (simp add: ys sequenced_keeps)
qed

lemma pending_enqueue:
  assumes "inv_queue marshal n"
  shows "pending (n\<lparr>nw_outbox := ob', nw_enqueued := (nw_enqueued n)(d := nw_enqueued n d @ ys)\<rparr>) d' =
    (if d' = d then pending n d @ ys else pending n d')"
proof -
  have "length (nw_deleted n d) \<le> length (nw_enqueued n d)"
    using assms unfolding inv_queue_def by (metis length_append le_add1)
  then show ?thesis by (simp add: pending_def)
qed

lemma reached_enqueue:
  "reached n d' x \<Longrightarrow>
     reached (n\<lparr>nw_outbox := ob', nw_enqueued := (nw_enqueued n)(d := nw_enqueued n d @ ys)\<rparr>) d' x"
  unfolding reached_def by (auto simp: nth_append intro: trans_less_add1)


lemma inv_enqueue:
  assumes inv: "delivery_inv marshal n"
    and enq: "EnqueueManyNext marshal fails now xs (nw_outbox n d) = (o2, Inr ys)"
    and dev: "\<forall>x\<in>set xs. ie_device_id x = d" and ids: "distinct (map ie_batch_id xs)"
    and fresh: "ie_batch_id ` set xs \<inter> known_batches n = {}"
  shows "delivery_inv marshal (n\<lparr>nw_outbox := (nw_outbox n)(d := o2),
      nw_enqueued := (nw_enqueued n)(d := nw_enqueued n d @ ys)\<rparr>)" (is "delivery_inv marshal ?n")
proof -
  note new = EnqueueManyNext_new [OF enq]
  have q: "inv_queue marshal n" and v: "inv_valid marshal n" and i: "inv_ids n"
    and w: "inv_wire marshal n" and a: "inv_applied n" and r: "inv_receipts n" and p: "inv_replies n"
    using inv by (simp_all add: delivery_inv_def)
  note pend = pending_enqueue [OF q, where ob' = "(nw_outbox n)(d := o2)" and d = d and ys = ys]
  have "ob_inv o2"
    using q EnqueueManyNext_inv [of "nw_outbox n d" marshal fails now xs] enq by (auto simp: inv_queue_def)
  have "inv_queue marshal ?n"
    unfolding inv_queue_def pend
  proof
    fix e
    have "nw_enqueued n e = nw_deleted n e @ pending n e"
      "queue_contents (nw_outbox n e) = map (the \<circ> marshal) (pending n e)" "ob_inv (nw_outbox n e)"
      using q by (simp_all add: inv_queue_def)
    then show "ob_inv (nw_outbox ?n e) \<and>
        nw_enqueued ?n e = nw_deleted ?n e @ (if e = d then pending n d @ ys else pending n e) \<and>
        queue_contents (nw_outbox ?n e) = map (the \<circ> marshal) (if e = d then pending n d @ ys else pending n e)"
      using \<open>ob_inv o2\<close> new by (cases "e = d") simp_all
  qed
  moreover have "inv_valid marshal ?n"
  proof -
    have "ie_device_id ` set ys = ie_device_id ` set xs"
      using new by (metis set_map)
    then have "\<forall>y\<in>set ys. ie_device_id y = d" using dev by auto
    with v new show ?thesis by (auto simp: inv_valid_def)
  qed
  moreover have "inv_ids ?n"
  proof -
    have im: "ie_batch_id ` set ys = ie_batch_id ` set xs" using new by (metis set_map)
    have far: "ie_batch_id y \<noteq> ie_batch_id z" if "y \<in> set ys" "z \<in> set (nw_enqueued n e)" for y z e
    proof -
      have "ie_batch_id z \<in> known_batches n" using that(2) by (auto simp: known_batches_def)
      moreover have "ie_batch_id y \<notin> known_batches n" using that(1) im fresh by blast
      ultimately show ?thesis by metis
    qed
    have dist: "distinct (map ie_batch_id ys)" using new ids by simp
    have "ie_batch_id ` set (nw_enqueued n d) \<inter> ie_batch_id ` set ys = {}"
    proof (rule equals0I)
      fix b
      assume "b \<in> ie_batch_id ` set (nw_enqueued n d) \<inter> ie_batch_id ` set ys"
      then obtain y z where "y \<in> set ys" "z \<in> set (nw_enqueued n d)" "b = ie_batch_id y" "b = ie_batch_id z"
        by (elim IntE imageE)
      with far show False by metis
    qed
    then have "distinct (map ie_batch_id (nw_enqueued n d @ ys))"
      using i dist by (simp add: inv_ids_def)
    moreover have "x = y" if "x \<in> set (nw_enqueued ?n e)" "y \<in> set (nw_enqueued ?n e')"
        "ie_batch_id x = ie_batch_id y" for e e' x y
    proof -
      have "x \<in> set ys \<or> x \<in> set (nw_enqueued n e)" "y \<in> set ys \<or> y \<in> set (nw_enqueued n e')"
        using that(1,2) by (auto split: if_splits)
      moreover have "inj_on ie_batch_id (set ys)" using dist by (simp add: distinct_map)
      ultimately show ?thesis
        using that(3) far [of x y e'] far [of y x e] i unfolding inv_ids_def inj_on_def by metis
    qed
    moreover have "distinct (map ie_batch_id (nw_enqueued ?n e))" for e
      using i \<open>distinct (map ie_batch_id (nw_enqueued n d @ ys))\<close> by (simp add: inv_ids_def)
    ultimately show ?thesis unfolding inv_ids_def by blast
  qed
  moreover have "inv_wire marshal ?n"
    using w reached_enqueue [where n = n and ob' = "(nw_outbox n)(d := o2)" and d = d and ys = ys]
    unfolding inv_wire_def by fastforce
  moreover have "inv_applied ?n"
    unfolding inv_applied_def
  proof
    fix e
    from a obtain k where k: "k \<le> length (nw_enqueued n e)" "applied_of n e = take k (nw_enqueued n e)"
        "length (nw_deleted n e) \<le> k" "k \<le> length (nw_deleted n e) + 1"
      unfolding inv_applied_def by blast
    then show "\<exists>k\<le>length (nw_enqueued ?n e). applied_of ?n e = take k (nw_enqueued ?n e) \<and>
        length (nw_deleted ?n e) \<le> k \<and> k \<le> length (nw_deleted ?n e) + 1"
      by (intro exI [of _ k]) (auto simp: applied_of_def)
  qed
  moreover have "inv_receipts ?n" "inv_replies ?n"
    using r p by (simp_all add: inv_receipts_def inv_replies_def)
  ultimately show ?thesis by (simp add: delivery_inv_def)
qed

section \<open>Sending, receiving\<close>

text \<open>The oldest queued payload decodes to the first envelope not yet deleted.\<close>

lemma peek_pending:
  assumes "delivery_inv marshal n" "codec_ok marshal unmarshal"
    and "PeekBatch unmarshal fails (nw_outbox n d) = Inr x"
  shows "length (nw_deleted n d) < length (nw_enqueued n d) \<and>
    nw_enqueued n d ! length (nw_deleted n d) = x \<and> pending n d = x # tl (pending n d)"
proof -
  have q: "inv_queue marshal n" and v: "inv_valid marshal n" using assms(1) by (simp_all add: delivery_inv_def)
  have ob: "ob_inv (nw_outbox n d)" and c: "queue_contents (nw_outbox n d) = map (the \<circ> marshal) (pending n d)"
    and sp: "nw_enqueued n d = nw_deleted n d @ pending n d"
    using q by (simp_all add: inv_queue_def)
  from PeekBatch_Inr [OF ob assms(3)] obtain r rs where r: "ob_rows (nw_outbox n d) = r # rs"
    "unmarshal (ob_envelope r) = Some x" by blast
  then obtain y ys where y: "pending n d = y # ys" "ob_envelope r = the (marshal y)"
    using c by (auto simp: queue_contents_def)
  have "y \<in> set (nw_enqueued n d)" using sp y(1) by (metis in_set_conv_decomp)
  then have "unmarshal (the (marshal y)) = Some y"
    using v assms(2) by (auto simp: inv_valid_def codec_ok_def)
  then have "y = x" using r(2) y(2) by simp
  then show ?thesis using sp y(1) by (simp add: nth_append)
qed

lemma inv_send:
  assumes inv: "delivery_inv marshal n" and codec: "codec_ok marshal unmarshal"
    and peek: "PeekBatch unmarshal fails (nw_outbox n d) = Inr x" and body: "marshal x = Some body"
  shows "delivery_inv marshal (n\<lparr>nw_requests := insert (auth, body) (nw_requests n)\<rparr>)"
    (is "delivery_inv marshal ?n")
proof -
  have "reached n d x"
    using peek_pending [OF inv codec peek] unfolding reached_def by blast
  then have "inv_wire marshal ?n"
    using inv body unfolding delivery_inv_def inv_wire_def reached_def by auto
  moreover have "inv_queue marshal ?n = inv_queue marshal n" by (simp add: inv_queue_def pending_def)
  moreover have "inv_valid marshal ?n = inv_valid marshal n" by (simp add: inv_valid_def)
  moreover have "inv_ids ?n = inv_ids n" by (simp add: inv_ids_def)
  moreover have "inv_applied ?n = inv_applied n" by (simp add: inv_applied_def applied_of_def)
  moreover have "inv_receipts ?n = inv_receipts n" by (simp add: inv_receipts_def)
  moreover have "inv_replies ?n = inv_replies n" by (simp add: inv_replies_def)
  ultimately show ?thesis using inv by (simp add: delivery_inv_def)
qed

lemma uploadOldest_None:
  assumes "uploadOldest marshal unmarshal fails post o1 = (o2, None)" "\<forall>body. post body = Response 200 (Some ack)"
  shows "Acknowledge unmarshal fails ack o1 = (o2, None)"
  using assms
  by (auto simp: uploadOldest_def split: sum.splits option.splits prod.splits)

text \<open>Applied envelopes are durable ones.\<close>

lemma applied_enqueued:
  assumes "inv_applied n" "x \<in> set (nw_applied n)" shows "x \<in> set (nw_enqueued n (ie_device_id x))"
proof -
  from assms(1) obtain k where "applied_of n (ie_device_id x) = take k (nw_enqueued n (ie_device_id x))"
    unfolding inv_applied_def by blast
  moreover have "x \<in> set (applied_of n (ie_device_id x))" using assms(2) by (simp add: applied_of_def)
  ultimately show ?thesis by (metis in_set_takeD)
qed

lemma nth_in_take:
  "distinct xs \<Longrightarrow> i < length xs \<Longrightarrow> xs ! i \<in> set (take k xs) \<Longrightarrow> i < k"
  by (auto simp: in_set_conv_nth nth_eq_iff_index_eq)

lemma reached_delete:
  "reached n e z \<Longrightarrow>
     reached (n\<lparr>nw_outbox := ob', nw_deleted := (nw_deleted n)(d := nw_deleted n d @ [y])\<rparr>) e z"
  unfolding reached_def by (auto intro: le_SucI)

lemma inv_receive:
  assumes inv: "delivery_inv marshal n" and codec: "codec_ok marshal unmarshal"
    and wire: "wire_post n d ack post" and peek: "PeekBatch unmarshal no_faults (nw_outbox n d) = Inr x"
    and up: "uploadOldest marshal unmarshal fails post (nw_outbox n d) = (o2, None)"
  shows "delivery_inv marshal (n\<lparr>nw_outbox := (nw_outbox n)(d := o2),
      nw_deleted := (nw_deleted n)(d := nw_deleted n d @ [x])\<rparr>)" (is "delivery_inv marshal ?n")
proof -
  have q: "inv_queue marshal n" and v: "inv_valid marshal n" and i: "inv_ids n"
    and w: "inv_wire marshal n" and a: "inv_applied n" and r: "inv_receipts n" and p: "inv_replies n"
    using inv by (simp_all add: delivery_inv_def)
  have ob: "ob_inv (nw_outbox n d)" using q by (simp add: inv_queue_def)
  have ackd: "Acknowledge unmarshal fails ack (nw_outbox n d) = (o2, None)"
    using uploadOldest_None [OF up] wire by (simp add: wire_post_def)
  note px = peek_pending [OF inv codec peek]
  from ob ackd obtain r0 rs x0 where rows: "ob_rows (nw_outbox n d) = r0 # rs"
    and x0: "unmarshal (ob_envelope r0) = Some x0" "ack_matches ack x0" and o2: "o2 = (nw_outbox n d)\<lparr>ob_rows := rs\<rparr>"
    by (cases rule: Acknowledge_cases) auto
  have "x0 = x"
    using PeekBatch_Inr [OF ob peek] rows x0(1) by auto
  have pend: "pending ?n e = (if e = d then tl (pending n d) else pending n e)" for e
    by (simp add: pending_def tl_drop drop_Suc)
  have "inv_queue marshal ?n"
    unfolding inv_queue_def pend
  proof
    fix e
    show "ob_inv (nw_outbox ?n e) \<and>
        nw_enqueued ?n e = nw_deleted ?n e @ (if e = d then tl (pending n d) else pending n e) \<and>
        queue_contents (nw_outbox ?n e) =
          map (the \<circ> marshal) (if e = d then tl (pending n d) else pending n e)"
    proof (cases "e = d")
      case True
      have "ob_inv o2" using Acknowledge_inv [OF ob, of unmarshal fails ack] ackd by simp
      moreover have "nw_enqueued n d = nw_deleted n d @ x # tl (pending n d)"
        using q px unfolding inv_queue_def by metis
      moreover have "queue_contents o2 = map (the \<circ> marshal) (tl (pending n d))"
      proof -
        have "queue_contents (nw_outbox n d) = map (the \<circ> marshal) (pending n d)"
          using q by (simp add: inv_queue_def)
        then show ?thesis by (simp add: o2 queue_contents_def rows) (metis list.sel(3) map_tl)
      qed
      ultimately show ?thesis using True by simp
    qed (use q in \<open>simp add: inv_queue_def\<close>)
  qed
  moreover have "inv_applied ?n"
    unfolding inv_applied_def
  proof
    fix e
    from a obtain k where k: "k \<le> length (nw_enqueued n e)" "applied_of n e = take k (nw_enqueued n e)"
        "length (nw_deleted n e) \<le> k" "k \<le> length (nw_deleted n e) + 1"
      unfolding inv_applied_def by blast
    have "length (nw_deleted n d) < k" if "e = d"
    proof -
      from p wire obtain y where y: "y \<in> set (nw_applied n)" "ack_matches ack y"
        unfolding inv_replies_def wire_post_def by auto
      have "x \<in> set (nw_enqueued n d)" using px by (metis nth_mem)
      then have "y = x"
        using i applied_enqueued [OF a y(1)] y(2) x0(2) \<open>x0 = x\<close>
        unfolding inv_ids_def ack_matches_def by metis
      moreover have "ie_device_id x = d" using v \<open>x \<in> set (nw_enqueued n d)\<close> by (auto simp: inv_valid_def)
      ultimately have "x \<in> set (applied_of n d)" using y(1) by (simp add: applied_of_def)
      moreover have "distinct (nw_enqueued n d)" using i by (auto simp: inv_ids_def distinct_map)
      ultimately show ?thesis using nth_in_take px k(2) that by metis
    qed
    with k show "\<exists>k\<le>length (nw_enqueued ?n e). applied_of ?n e = take k (nw_enqueued ?n e) \<and>
        length (nw_deleted ?n e) \<le> k \<and> k \<le> length (nw_deleted ?n e) + 1"
      by (intro exI [of _ k]) (auto simp: applied_of_def)
  qed
  moreover have "inv_wire marshal ?n"
    using w reached_delete [where n = n and ob' = "(nw_outbox n)(d := o2)" and d = d and y = x]
    unfolding inv_wire_def by fastforce
  moreover have "inv_valid marshal ?n = inv_valid marshal n" by (simp add: inv_valid_def)
  moreover have "inv_ids ?n = inv_ids n" by (simp add: inv_ids_def)
  moreover have "inv_receipts ?n = inv_receipts n" by (simp add: inv_receipts_def)
  moreover have "inv_replies ?n = inv_replies n" by (simp add: inv_replies_def)
  ultimately show ?thesis using v i r p by (simp add: delivery_inv_def)
qed

section \<open>The hub receives\<close>

text \<open>A request on the wire is an envelope of the sender's history, up to its oldest queued one.\<close>

lemma wire_envelope:
  assumes inv: "delivery_inv marshal n" and codec: "codec_ok marshal unmarshal"
    and req: "(auth, body) \<in> nw_requests n" and dec: "unmarshal body = Some x"
  shows "reached n (ie_device_id x) x"
proof -
  have "inv_wire marshal n" and v: "inv_valid marshal n" using inv by (simp_all add: delivery_inv_def)
  then obtain d z where z: "reached n d z" "marshal z = Some body"
    using req unfolding inv_wire_def by auto
  then have "z \<in> set (nw_enqueued n d)" unfolding reached_def by auto
  then have "ie_device_id z = d" "ValidateIngestEnvelope z = []" using v by (auto simp: inv_valid_def)
  moreover from this have "z = x" using codec z(2) dec unfolding codec_ok_def by (metis option.inject)
  ultimately show ?thesis using z(1) by simp
qed

text \<open>An envelope on the wire without a receipt is the device's next one.\<close>

lemma unreceipted_is_next:
  assumes inv: "delivery_inv marshal n" and x: "reached n d x" and d: "ie_device_id x = d"
    and fresh: "\<forall>r\<in>set (hub_receipts (nw_hub n)). rc_batch_id r \<noteq> ie_batch_id x"
  shows "length (nw_deleted n d) < length (nw_enqueued n d) \<and>
    applied_of n d = take (length (nw_deleted n d)) (nw_enqueued n d) \<and>
    nw_enqueued n d ! length (nw_deleted n d) = x"
proof -
  have a: "inv_applied n" and r: "inv_receipts n" using inv by (simp_all add: delivery_inv_def)
  from x obtain i where i: "i < length (nw_enqueued n d)" "i \<le> length (nw_deleted n d)" "nw_enqueued n d ! i = x"
    unfolding reached_def by blast
  from a obtain k where k: "k \<le> length (nw_enqueued n d)" "applied_of n d = take k (nw_enqueued n d)"
      "length (nw_deleted n d) \<le> k" "k \<le> length (nw_deleted n d) + 1"
    unfolding inv_applied_def by blast
  have "x \<notin> set (nw_applied n)" using r fresh unfolding inv_receipts_def by force
  then have "x \<notin> set (applied_of n d)" by (simp add: applied_of_def)
  then have "\<not> i < k" using i(1,3) k(2) by (metis in_set_conv_nth length_take min_less_iff_conj nth_take)
  then have "k = i" "i = length (nw_deleted n d)" using k(3) i(2) by simp_all
  with i k show ?thesis by simp
qed

definition answered :: "envelope \<Rightarrow> reply \<Rightarrow> (string \<times> ingest_ack) set \<Rightarrow> (string \<times> ingest_ack) set" where
  "answered x reply replies = (case reply of
       ReplyAck status ack \<Rightarrow> if status = 200 then insert (ie_device_id x, ack) replies else replies
     | _ \<Rightarrow> replies)"

lemma answered_refused: "\<forall>ack. reply \<noteq> ReplyAck 200 ack \<Longrightarrow> answered x reply replies = replies"
  by (auto simp: answered_def split: reply.splits)

lemma answered_ack [simp]: "answered x (ReplyAck 200 ack) replies = insert (ie_device_id x, ack) replies"
  by (simp add: answered_def)

lemma inv_new_reply:
  assumes "delivery_inv marshal n" "y \<in> set (nw_applied n)" "ack_matches ack y"
  shows "delivery_inv marshal (n\<lparr>nw_replies := insert (d, ack) (nw_replies n)\<rparr>)"
proof -
  let ?n = "n\<lparr>nw_replies := insert (d, ack) (nw_replies n)\<rparr>"
  have "inv_queue marshal ?n = inv_queue marshal n" by (simp add: inv_queue_def pending_def)
  moreover have "inv_valid marshal ?n = inv_valid marshal n" by (simp add: inv_valid_def)
  moreover have "inv_ids ?n = inv_ids n" by (simp add: inv_ids_def)
  moreover have "inv_wire marshal ?n = inv_wire marshal n" by (simp add: inv_wire_def reached_def)
  moreover have "inv_applied ?n = inv_applied n" by (simp add: inv_applied_def applied_of_def)
  moreover have "inv_receipts ?n = inv_receipts n" by (simp add: inv_receipts_def)
  moreover have "inv_replies ?n" using assms by (auto simp: delivery_inv_def inv_replies_def)
  ultimately show ?thesis using assms(1) by (simp add: delivery_inv_def)
qed

lemma applied_ack_matches: "ack_matches (applied_ack x a b now) x"
  by (simp add: ack_matches_def)

lemma inv_apply:
  assumes inv: "delivery_inv marshal n" and x: "reached n (ie_device_id x) x"
    and fresh: "\<forall>r\<in>set (hub_receipts (nw_hub n)). rc_batch_id r \<noteq> ie_batch_id x"
    and h: "hub_receipts h = hub_receipts (nw_hub n) @ [receipt_of (applied_ack x a b now)]"
  shows "delivery_inv marshal (n\<lparr>nw_hub := h, nw_applied := nw_applied n @ [x]\<rparr>)" (is "delivery_inv marshal ?n")
proof -
  have ap: "inv_applied n" and r: "inv_receipts n" and p: "inv_replies n"
    using inv by (simp_all add: delivery_inv_def)
  note nxt = unreceipted_is_next [OF inv x refl fresh]
  have "inv_applied ?n"
    unfolding inv_applied_def
  proof
    fix e
    from ap obtain k where k: "k \<le> length (nw_enqueued n e)" "applied_of n e = take k (nw_enqueued n e)"
        "length (nw_deleted n e) \<le> k" "k \<le> length (nw_deleted n e) + 1"
      unfolding inv_applied_def by blast
    show "\<exists>k\<le>length (nw_enqueued ?n e). applied_of ?n e = take k (nw_enqueued ?n e) \<and>
        length (nw_deleted ?n e) \<le> k \<and> k \<le> length (nw_deleted ?n e) + 1"
    proof (cases "e = ie_device_id x")
      case True
      then have "applied_of ?n e = take (Suc (length (nw_deleted n e))) (nw_enqueued n e)"
        using nxt by (simp add: applied_of_def take_Suc_conv_app_nth)
      with True nxt show ?thesis by (intro exI [of _ "Suc (length (nw_deleted n e))"]) simp
    next
      case False
      with k show ?thesis by (intro exI [of _ k]) (simp add: applied_of_def)
    qed
  qed
  moreover have "inv_receipts ?n"
    unfolding inv_receipts_def
  proof (intro conjI allI impI)
    fix i ack
    assume rc: "ingestReceiptTx (hub_receipts (nw_hub ?n)) i = Inr (Some ack)"
    show "\<exists>y\<in>set (nw_applied ?n). ack_matches ack y"
    proof (cases "ingestReceiptTx (hub_receipts (nw_hub n)) i = Inr None")
      case False
      with rc h have "ingestReceiptTx (hub_receipts (nw_hub n)) i = Inr (Some ack)"
        by (simp add: ingestReceiptTx_append)
      with r show ?thesis by (auto simp: inv_receipts_def)
    next
      case True
      let ?new = "applied_ack x a b now"
      have "i \<in> rc_batch_id ` set (hub_receipts (nw_hub ?n))"
      proof (rule ccontr)
        assume "i \<notin> rc_batch_id ` set (hub_receipts (nw_hub ?n))"
        then have "ingestReceiptTx (hub_receipts (nw_hub ?n)) i = Inr None"
          unfolding ingestReceiptTx_None by auto
        with rc show False by simp
      qed
      then have "i = ak_batch_id ?new" using True h by (auto simp: ingestReceiptTx_None)
      then have "ack = ?new"
        using rc h fresh ingestReceiptTx_new [of "hub_receipts (nw_hub n)" ?new] by simp
      then show ?thesis using applied_ack_matches by auto
    qed
  next
    show "rc_batch_id ` set (hub_receipts (nw_hub ?n)) = ie_batch_id ` set (nw_applied ?n)"
      using r h by (auto simp: inv_receipts_def)
  qed
  moreover have "inv_replies ?n" using p by (auto simp: inv_replies_def)
  moreover have "inv_queue marshal ?n = inv_queue marshal n" by (simp add: inv_queue_def pending_def)
  moreover have "inv_valid marshal ?n = inv_valid marshal n" by (simp add: inv_valid_def)
  moreover have "inv_ids ?n = inv_ids n" by (simp add: inv_ids_def)
  moreover have "inv_wire marshal ?n = inv_wire marshal n" by (simp add: inv_wire_def reached_def)
  ultimately show ?thesis using inv by (simp add: delivery_inv_def)
qed

lemma inv_ingest:
  assumes inv: "delivery_inv marshal n" and codec: "codec_ok marshal unmarshal"
    and req: "(auth, body) \<in> nw_requests n" and dec: "unmarshal body = Some x"
    and hd: "handleIngestV2 sha256 faults now auth (Decoded x) (nw_hub n) = (h, reply)"
  shows "delivery_inv marshal (n\<lparr>nw_hub := h, nw_replies := answered x reply (nw_replies n),
      nw_applied := (if hub_receipts h = hub_receipts (nw_hub n) then nw_applied n else nw_applied n @ [x])\<rparr>)"
  using hd
proof (cases rule: handleIngestV2_cases)
  case refused
  then have "hub_receipts h = hub_receipts (nw_hub n)" by (simp add: hub_receipts_def)
  with refused inv_other_hub [OF inv this] show ?thesis by (simp add: answered_refused)
next
  case (replayed ack)
  then have same: "hub_receipts h = hub_receipts (nw_hub n)" by (simp add: hub_receipts_def)
  from inv replayed(3) obtain y where "y \<in> set (nw_applied n)" "ack_matches ack y"
    unfolding delivery_inv_def inv_receipts_def by metis
  then have "delivery_inv marshal (n\<lparr>nw_hub := h, nw_replies := insert (ie_device_id x, ack) (nw_replies n)\<rparr>)"
    using inv_new_reply [OF inv_other_hub [OF inv same], of y ack "ie_device_id x"] by simp
  with replayed same show ?thesis by simp
next
  case (applied db1 a b changed)
  then have rc: "hub_receipts h = hub_receipts (nw_hub n) @ [receipt_of (applied_ack x a b now)]"
    by (simp add: hub_receipts_def)
  note step = inv_apply [OF inv wire_envelope [OF inv codec req dec] applied(2) rc]
  have "delivery_inv marshal (n\<lparr>nw_hub := h, nw_applied := nw_applied n @ [x],
      nw_replies := insert (ie_device_id x, applied_ack x a b now) (nw_replies n)\<rparr>)"
    using inv_new_reply [OF step _ applied_ack_matches [of x a b now], of "ie_device_id x"] by simp
  moreover have "n\<lparr>nw_hub := h, nw_applied := nw_applied n @ [x],
        nw_replies := insert (ie_device_id x, applied_ack x a b now) (nw_replies n)\<rparr> =
      n\<lparr>nw_hub := h, nw_replies := insert (ie_device_id x, applied_ack x a b now) (nw_replies n),
        nw_applied := nw_applied n @ [x]\<rparr>"
    by simp
  ultimately show ?thesis using applied rc by simp
qed

section \<open>Every reachable state\<close>

lemma net_step_inv:
  assumes "net_step marshal unmarshal sha256 admin n n'" "delivery_inv marshal n" "codec_ok marshal unmarshal"
  shows "delivery_inv marshal n'"
  using assms(1)
proof (cases rule: net_step.cases)
  case (enqueue fails now xs d o2 ys)
  then show ?thesis using inv_enqueue [OF assms(2)] by blast
next
  case (send fails d x body authorization)
  then show ?thesis using inv_send [OF assms(2,3)] by blast
next
  case (hub_ingest authorization body x faults now h reply)
  then show ?thesis using inv_ingest [OF assms(2,3) hub_ingest(2-4)] by (simp add: answered_def)
next
  case (receive d ack post x fails o2)
  then show ?thesis using inv_receive [OF assms(2,3)] by blast
next
  case (heartbeat faults now authorization hb h reply)
  then show ?thesis using inv_other_hub [OF assms(2)] handleHeartbeat_keeps by blast
next
  case (enroll faults now authorization q h reply)
  then have "hub_receipts h = hub_receipts (nw_hub n)" using handleEnroll_keeps by (metis hub_receipts_def)
  with enroll show ?thesis using inv_other_hub [OF assms(2)] by blast
next
  case (revoke faults now d h reply)
  then have "hub_receipts h = hub_receipts (nw_hub n)" using handleRevoke_keeps by (metis hub_receipts_def)
  with revoke show ?thesis using inv_other_hub [OF assms(2)] by blast
qed

lemma reachable_inv:
  assumes "net_reachable marshal unmarshal sha256 admin maxBytes n" "codec_ok marshal unmarshal"
  shows "delivery_inv marshal n"
  using assms(1)
  by (induction rule: net_reachable.induct) (auto intro: inv_initial net_step_inv assms(2))

end
