(* ===== verification/Delivery_Properties.thy ===== *)
theory Delivery_Properties
  imports Delivery Outbox_Properties
begin

text \<open>
  The end-to-end properties of the delivery pipeline of \<open>Delivery\<close>: exactly once and in order per
  device, and the convergence of the hub's event table to the survivors of what was delivered,
  whatever the network and the drivers did in between.
\<close>

section \<open>The hub's event table\<close>

definition envelope_events :: "envelope list \<Rightarrow> event set" where
  "envelope_events xs = (\<Union>x\<in>set xs. set (ie_events x))"

definition envelope_ids :: "envelope list \<Rightarrow> string set" where
  "envelope_ids xs = ev_event_id ` envelope_events xs - {[]}"

definition hub_events :: "network \<Rightarrow> event_row list" where
  "hub_events n = hd_events (hu_db (nw_hub n))"

definition events_inv :: "(string \<Rightarrow> string \<times> int) \<Rightarrow> network \<Rightarrow> bool" where
  "events_inv stamp n \<longleftrightarrow> ((\<forall>e\<in>envelope_events (nw_applied n). stamped stamp e) \<longrightarrow>
     surv_inv stamp (envelope_ids (nw_applied n)) (hub_events n))"

lemma envelope_events_append [simp]:
  "envelope_events (xs @ ys) = envelope_events xs \<union> envelope_events ys"
  by (auto simp: envelope_events_def)

lemma envelope_events_single [simp]: "envelope_events [x] = set (ie_events x)"
  by (simp add: envelope_events_def)

lemma events_inv_same:
  "events_inv stamp n \<Longrightarrow> nw_applied n' = nw_applied n \<Longrightarrow> hub_events n' = hub_events n \<Longrightarrow>
     events_inv stamp n'"
  by (simp add: events_inv_def)

text \<open>What one applied envelope does to the event table.\<close>

lemma apply_payload_events:
  assumes ap: "apply_payload db x now = Inr (db1, a, b, c)" and valid: "ValidateIngestEnvelope x = []"
    and inv: "surv_inv stamp ids (hd_events db)" and st: "\<forall>e\<in>set (ie_events x). stamped stamp e"
  shows "surv_inv stamp (ids \<union> (ev_event_id ` set (ie_events x) - {[]})) (hd_events db1)"
proof (cases "ie_kind x = IngestKindEvents")
  case True
  with ap obtain r where r: "insertEventsFromTx (hd_events db) (ie_events x) now OriginSelf = Some (hd_events db1, r)"
    by (auto simp: apply_payload_def split: option.splits)
  have "table_ok stamp (hd_events db)" using inv by (simp add: surv_inv_def)
  from insertEventsFromTx_spec [OF this st] r
  have "hd_events db1 = fst (spec_run OriginSelf now (ie_events x) (hd_events db, zeroApplyResult))"
    by simp
  with surv_inv_run [of stamp ids "(hd_events db, zeroApplyResult)" "ie_events x" OriginSelf now] inv st
  show ?thesis by simp
next
  case False
  then have "ie_events x = []"
    using valid by (auto simp: ValidateIngestEnvelope_Nil envelope_ok_def kind_defs quotas_ok_def procs_ok_def)
  moreover have "hd_events db1 = hd_events db"
    using ap False by (auto simp: apply_payload_def split: if_splits option.splits prod.splits)
  ultimately show ?thesis using inv by simp
qed

lemma events_inv_ingest:
  assumes inv: "events_inv stamp n"
    and hd: "handleIngestV2 sha256 faults now auth (Decoded x) (nw_hub n) = (h, reply)"
    and n': "hub_events n' = hd_events (hu_db h)"
      "nw_applied n' = (if hub_receipts h = hub_receipts (nw_hub n) then nw_applied n else nw_applied n @ [x])"
  shows "events_inv stamp n'"
  using hd
proof (cases rule: handleIngestV2_cases)
  case refused
  then show ?thesis using inv n' by (intro events_inv_same [OF inv]) (simp_all add: hub_events_def hub_receipts_def)
next
  case (replayed ack)
  then show ?thesis using inv n' by (intro events_inv_same [OF inv]) (simp_all add: hub_events_def hub_receipts_def)
next
  case (applied db1 a b changed)
  then have ap: "nw_applied n' = nw_applied n @ [x]" and ev: "hub_events n' = hd_events db1"
    using n' by (auto simp: hub_receipts_def)
  show ?thesis unfolding events_inv_def
  proof
    assume st: "\<forall>e\<in>envelope_events (nw_applied n'). stamped stamp e"
    then have "surv_inv stamp (envelope_ids (nw_applied n)) (hd_events (hu_db (nw_hub n)))"
      using inv ap by (simp add: events_inv_def hub_events_def)
    from apply_payload_events [OF applied(3,1) this] st ap ev
    have "surv_inv stamp (envelope_ids (nw_applied n) \<union> (ev_event_id ` set (ie_events x) - {[]})) (hub_events n')"
      by simp
    moreover have "envelope_ids (nw_applied n') = envelope_ids (nw_applied n) \<union> (ev_event_id ` set (ie_events x) - {[]})"
      by (auto simp: ap envelope_ids_def)
    ultimately show "surv_inv stamp (envelope_ids (nw_applied n')) (hub_events n')" by simp
  qed
qed

lemma events_inv_step:
  assumes "net_step marshal unmarshal sha256 admin n n'" "events_inv stamp n"
  shows "events_inv stamp n'"
  using assms(1)
proof (cases rule: net_step.cases)
  case (hub_ingest authorization body x faults now h reply)
  then show ?thesis by (intro events_inv_ingest [OF assms(2) hub_ingest(4)]) (simp_all add: hub_events_def)
next
  case (heartbeat faults now authorization hb h reply)
  then show ?thesis using handleHeartbeat_keeps [OF heartbeat(2)]
    by (intro events_inv_same [OF assms(2)]) (simp_all add: hub_events_def)
next
  case (enroll faults now authorization q h reply)
  then show ?thesis using handleEnroll_keeps [OF enroll(2)]
    by (intro events_inv_same [OF assms(2)]) (simp_all add: hub_events_def)
next
  case (revoke faults now d h reply)
  then show ?thesis using handleRevoke_keeps [OF revoke(2)]
    by (intro events_inv_same [OF assms(2)]) (simp_all add: hub_events_def)
qed (auto intro!: events_inv_same [OF assms(2)] simp: hub_events_def)

lemma reachable_events_inv:
  assumes "net_reachable marshal unmarshal sha256 admin maxBytes n"
  shows "events_inv stamp n"
  using assms
proof (induction rule: net_reachable.induct)
  case start
  then show ?case
    using surv_inv_empty [of stamp]
    by (simp add: events_inv_def hub_events_def initial_network_def empty_hub_def envelope_ids_def envelope_events_def)
next
  case (step n n')
  then show ?case by (blast intro: events_inv_step)
qed

section \<open>What has reached the hub\<close>

definition all_enqueued :: "network \<Rightarrow> event set" where
  "all_enqueued n = (\<Union>d. envelope_events (nw_enqueued n d))"

lemma applied_all_enqueued:
  assumes "inv_applied n" shows "envelope_events (nw_applied n) \<subseteq> all_enqueued n"
  using applied_enqueued [OF assms] unfolding envelope_events_def all_enqueued_def by blast

lemma drained_all_applied:
  assumes inv: "delivery_inv marshal n" and drained: "\<forall>d. queue_contents (nw_outbox n d) = []"
  shows "envelope_events (nw_applied n) = all_enqueued n"
proof
  have a: "inv_applied n" and q: "inv_queue marshal n" using inv by (simp_all add: delivery_inv_def)
  show "envelope_events (nw_applied n) \<subseteq> all_enqueued n" by (rule applied_all_enqueued [OF a])
  have "set (nw_enqueued n d) \<subseteq> set (nw_applied n)" for d
  proof -
    have "pending n d = []" "nw_enqueued n d = nw_deleted n d @ pending n d"
      using q drained by (simp_all add: inv_queue_def)
    moreover obtain k where "applied_of n d = take k (nw_enqueued n d)" "length (nw_deleted n d) \<le> k"
      using a unfolding inv_applied_def by blast
    ultimately have "applied_of n d = nw_enqueued n d" by simp
    then show ?thesis by (metis applied_of_def filter_is_subset)
  qed
  then show "all_enqueued n \<subseteq> envelope_events (nw_applied n)"
    unfolding all_enqueued_def envelope_events_def by blast
qed

section \<open>A sample run\<close>

text \<open>
  One device enrolls, queues one event, sends it, the hub applies it, and the reply deletes it from
  the outbox: the last state has nothing queued and one event at the hub.
\<close>

definition run_env :: envelope where
  "run_env = \<lparr>ie_protocol_version = 2, ie_device_id = wit_uuid, ie_boot_id = wit_uuid,
     ie_batch_id = wit_uuid, ie_sequence = 1, ie_captured_at = 5, ie_kind = ''events'',
     ie_events = [(wit_event ''a'' 3 9)\<lparr>ev_device := wit_uuid\<rparr>], ie_quotas = [], ie_procs = None\<rparr>"

definition run_marshal :: "envelope \<Rightarrow> string option" where
  "run_marshal x = (if x = run_env then Some wit_uuid else None)"

definition run_unmarshal :: "string \<Rightarrow> envelope option" where
  "run_unmarshal p = (if p = wit_uuid then Some run_env else None)"

definition run_sha :: "string \<Rightarrow> 8 word list" where
  "run_sha s = replicate 32 0"

definition run_faults :: hub_faults where
  "run_faults = \<lparr>hf_auth = False, hf_ingest = (\<lambda>_. False), hf_procs = False, hf_heartbeat = False,
     hf_metadata = False, hf_touch = False, hf_registry = False\<rparr>"

definition run_device :: device_record where
  "run_device = \<lparr>dr_device_id = wit_uuid, dr_display_name = ''n'',
     dr_token_hash = hashDeviceToken run_sha ''tok'', dr_capabilities = [], dr_created_at = 1,
     dr_last_seen_at = 0, dr_revoked_at = 0\<rparr>"

definition run_request :: enrollment_request where
  "run_request = \<lparr>er_machine_id = [], er_device_id = wit_uuid, er_device_token = ''tok'',
     er_display_name = ''n'', er_capabilities = []\<rparr>"

definition run_hub1 :: hub where
  "run_hub1 = empty_hub\<lparr>hu_registry := \<lparr>rg_devices = [run_device], rg_heartbeats = [], rg_bindings = []\<rparr>\<rparr>"

lemma run_codec: "codec_ok run_marshal run_unmarshal"
  by (simp add: codec_ok_def run_marshal_def run_unmarshal_def)

lemma run_env_valid: "ValidateIngestEnvelope run_env = []"
  by (simp add: ValidateIngestEnvelope_Nil envelope_ok_def header_ok_def events_ok_def MaxIngestBatchEvents_def
      run_env_def validUUID_iff [symmetric] wit_uuid_valid wit_event_def zero_event_def)

lemma run_enroll:
  "handleEnrollV2 run_sha ''admin'' run_faults 1 ''Bearer admin'' (Decoded run_request) empty_hub =
     (run_hub1, ReplyDevice 201 run_device)"
proof -
  have v: "validCanonicalUUID wit_uuid" "isCanonicalUUID wit_uuid"
    using wit_uuid_valid by (simp_all add: validCanonicalUUID_eq isCanonicalUUID_eq)
  then show ?thesis
    by (simp add: handleEnrollV2_def credentialOK_def run_request_def run_faults_def deviceByID_def
        sql_select_def empty_hub_def RegisterDevice_def sql_insert_def run_hub1_def run_device_def Let_def)
qed

definition run_outbox :: outbox where
  "run_outbox = \<lparr>ob_rows = [\<lparr>ob_id = 1, ob_batch_id = wit_uuid, ob_envelope = wit_uuid,
         ob_payload_bytes = 36, ob_enqueued_at = 1\<rparr>],
       ob_next = 2, ob_last_sequence = FormatUint 1, ob_max_bytes = 100\<rparr>"

lemma run_enqueue: "EnqueueManyNext run_marshal no_faults 1 [run_env] (OpenOutbox 100) = (run_outbox, Inr [run_env])"
proof -
  have p: "ParseUint ''0'' = Some 0"
    by (simp add: ParseUint_def is_digit_def parse_digits_def digit_val_def)
  have "run_env\<lparr>ie_sequence := 1\<rparr> = run_env" by (simp add: run_env_def)
  moreover have "length wit_uuid = 36" by (simp add: wit_uuid_def)
  moreover have "ie_batch_id run_env = wit_uuid" by (simp add: run_env_def)
  ultimately show ?thesis
    using run_env_valid
    by (simp add: EnqueueManyNext_def OpenOutbox_def no_faults_def p encodeOutboxEnvelope_def
        run_marshal_def MaxIngestEnvelopeBytes_def insertNewPayloadTx_def sql_insert_def
        queued_bytes_def i64_def run_outbox_def)
qed

lemma run_peek: "PeekBatch run_unmarshal no_faults run_outbox = Inr run_env"
  by (simp add: PeekBatch_def run_outbox_def no_faults_def run_unmarshal_def)

definition run_ack :: ingest_ack where
  "run_ack = applied_ack run_env 1 0 9"

lemma run_authenticates: "authenticate run_sha False (hu_registry run_hub1) wit_uuid ''Bearer tok'' = Inr (Some run_device, True)"
proof -
  have "bearerCredential ''Bearer tok'' = Some ''tok''" by code_simp
  moreover have "length (run_sha t) = 32" for t by (simp add: run_sha_def)
  ultimately show ?thesis
    by (simp add: authenticate_def AuthenticateDevice_hash run_hub1_def deviceByID_def sql_select_def
        run_device_def)
qed

definition run_hub2 :: hub where
  "run_hub2 = run_hub1\<lparr>hu_db := (hu_db run_hub1)\<lparr>
       hd_events := [row_of ((wit_event ''a'' 3 9)\<lparr>ev_device := wit_uuid\<rparr>) OriginSelf 9],
       hd_receipts := [receipt_of run_ack]\<rparr>, hu_notified := 1\<rparr>"

lemma run_insert:
  "insertEventsFromTx [] (ie_events run_env) 9 OriginSelf =
     Some ([row_of ((wit_event ''a'' 3 9)\<lparr>ev_device := wit_uuid\<rparr>) OriginSelf 9],
       zeroApplyResult\<lparr>er_inserted := 1\<rparr>)"
proof -
  have e: "ie_events run_env = [(wit_event ''a'' 3 9)\<lparr>ev_device := wit_uuid\<rparr>]" by (simp add: run_env_def)
  have "\<forall>e\<in>set (ie_events run_env). stamped wit_stamp e"
    unfolding e by (simp add: stamped_def wit_event_def wit_stamp_def zero_event_def)
  from insertEventsFromTx_spec [OF wit_table this, of 9 OriginSelf] show ?thesis
    unfolding e
    by (simp add: spec_step_def spec_merge_or_insert_def owner_of_def row_at_def at_id_def is_copy_def
        wit_event_def zero_event_def zeroApplyResult_def)
qed

lemma run_ingest:
  "handleIngestV2 run_sha run_faults 9 ''Bearer tok'' (Decoded run_env) run_hub1 = (run_hub2, ReplyAck 200 run_ack)"
proof -
  have f: "ie_device_id run_env = wit_uuid" "ie_kind run_env = IngestKindEvents" "length (ie_events run_env) = 1"
    by (simp_all add: run_env_def kind_defs)
  have db: "hd_events (hu_db run_hub1) = []" "hd_receipts (hu_db run_hub1) = []"
    by (simp_all add: run_hub1_def empty_hub_def)
  have "apply_payload (hu_db run_hub1) run_env 9 =
      Inr ((hu_db run_hub1)\<lparr>hd_events := [row_of ((wit_event ''a'' 3 9)\<lparr>ev_device := wit_uuid\<rparr>) OriginSelf 9]\<rparr>, 1, 0, True)"
    by (simp add: apply_payload_def f db run_insert mutated_def)
  then have "ApplyIngestV2 (\<lambda>_. False) (hu_db run_hub1) run_env 9 =
      ((hu_db run_hub1)\<lparr>hd_events := [row_of ((wit_event ''a'' 3 9)\<lparr>ev_device := wit_uuid\<rparr>) OriginSelf 9],
         hd_receipts := [receipt_of run_ack]\<rparr>,
       Inr \<lparr>ir_ack = run_ack, ir_replay = False, ir_mutated = True\<rparr>)"
    by (simp add: ApplyIngestV2_def db ingestReceiptTx_def sql_select_def sql_insert_def Let_def
        run_ack_def applied_ack_def [symmetric])
  then show ?thesis
    by (simp add: handleIngestV2_def run_env_valid f run_authenticates run_faults_def [THEN arg_cong, of hf_auth]
        run_faults_def [THEN arg_cong, of hf_ingest] run_hub2_def notify_def)
      (simp add: run_hub1_def empty_hub_def)
qed

lemma run_upload:
  "uploadOldest run_marshal run_unmarshal no_faults (\<lambda>_. Response 200 (Some run_ack)) run_outbox =
     (run_outbox\<lparr>ob_rows := []\<rparr>, None)"
proof -
  have "Acknowledge run_unmarshal no_faults run_ack run_outbox = (run_outbox\<lparr>ob_rows := []\<rparr>, None)"
    by (simp add: Acknowledge_def no_faults_def run_outbox_def run_unmarshal_def run_ack_def)
  then show ?thesis by (simp add: uploadOldest_def run_peek run_marshal_def)
qed

definition run_network :: network where
  "run_network = \<lparr>nw_outbox = (\<lambda>d. OpenOutbox 100)(wit_uuid := run_outbox\<lparr>ob_rows := []\<rparr>), nw_hub = run_hub2,
     nw_requests = {(''Bearer tok'', wit_uuid)}, nw_replies = {(wit_uuid, run_ack)},
     nw_enqueued = (\<lambda>d. [])(wit_uuid := [run_env]), nw_deleted = (\<lambda>d. [])(wit_uuid := [run_env]),
     nw_applied = [run_env]\<rparr>"

lemma run_reachable: "net_reachable run_marshal run_unmarshal run_sha ''admin'' 100 run_network"
proof -
  let ?step = "net_step run_marshal run_unmarshal run_sha ''admin''"
  let ?n0 = "initial_network 100"
  let ?n1 = "?n0\<lparr>nw_hub := run_hub1\<rparr>"
  let ?n2 = "?n1\<lparr>nw_outbox := (nw_outbox ?n1)(wit_uuid := run_outbox),
      nw_enqueued := (nw_enqueued ?n1)(wit_uuid := nw_enqueued ?n1 wit_uuid @ [run_env])\<rparr>"
  let ?n3 = "?n2\<lparr>nw_requests := insert (''Bearer tok'', wit_uuid) (nw_requests ?n2)\<rparr>"
  let ?n4 = "?n3\<lparr>nw_hub := run_hub2, nw_replies := {(wit_uuid, run_ack)}, nw_applied := [run_env]\<rparr>"
  have dev: "ie_device_id run_env = wit_uuid" by (simp add: run_env_def)
  have hub: "nw_hub ?n0 = empty_hub" "nw_hub ?n3 = run_hub1" by (simp_all add: initial_network_def)
  have s1: "?step ?n0 ?n1"
    by (rule net_step.enroll) (unfold hub, rule run_enroll)
  have s2: "?step ?n1 ?n2"
    by (rule net_step.enqueue [where xs = "[run_env]" and fails = no_faults and now = 1])
      (use run_enqueue dev in \<open>simp_all add: initial_network_def known_batches_def\<close>)
  have s3: "?step ?n2 ?n3"
    by (rule net_step.send [where fails = no_faults and d = wit_uuid and x = run_env])
      (simp_all add: run_peek run_marshal_def)
  have rc: "hub_receipts run_hub2 \<noteq> hub_receipts run_hub1"
    by (simp add: hub_receipts_def run_hub2_def run_hub1_def empty_hub_def)
  have "?step ?n3 (?n3\<lparr>nw_hub := run_hub2,
      nw_replies := (case ReplyAck 200 run_ack of
          ReplyAck status ack \<Rightarrow> if status = 200 then insert (ie_device_id run_env, ack) (nw_replies ?n3)
                                else nw_replies ?n3
        | _ \<Rightarrow> nw_replies ?n3),
      nw_applied := (if hub_receipts run_hub2 = hub_receipts (nw_hub ?n3) then nw_applied ?n3
                     else nw_applied ?n3 @ [run_env])\<rparr>)"
    by (rule net_step.hub_ingest [where body = wit_uuid and authorization = "''Bearer tok''" and now = 9
          and faults = run_faults and x = run_env])
      (simp_all add: run_unmarshal_def run_ingest)
  then have s4: "?step ?n3 ?n4" using rc dev by (simp add: initial_network_def)
  have "?step ?n4 (?n4\<lparr>nw_outbox := (nw_outbox ?n4)(wit_uuid := run_outbox\<lparr>ob_rows := []\<rparr>),
      nw_deleted := (nw_deleted ?n4)(wit_uuid := nw_deleted ?n4 wit_uuid @ [run_env])\<rparr>)"
    by (rule net_step.receive [where ack = run_ack and post = "\<lambda>_. Response 200 (Some run_ack)" and fails = no_faults])
      (simp_all add: wire_post_def run_peek run_upload)
  then have s5: "?step ?n4 run_network" by (simp add: run_network_def initial_network_def)
  show ?thesis
    by (rule net_reachable.step [OF net_reachable.step [OF net_reachable.step [OF net_reachable.step
          [OF net_reachable.step [OF net_reachable.start s1] s2] s3] s4] s5])
qed

lemma run_network_sel [simp]:
  "nw_enqueued run_network wit_uuid = [run_env]" "nw_deleted run_network wit_uuid = [run_env]"
  "nw_applied run_network = [run_env]" "nw_hub run_network = run_hub2"
  by (simp_all add: run_network_def)

section \<open>Properties\<close>

text \<open>
  C4. Exactly once, in order, without loss: in every state of the pipeline that agents, the hub and
  a network which loses, delays, repeats and reorders can reach, with any driver faults and any
  enrollments, heartbeats and revocations in between, the batches the hub has applied of a device
  are a prefix of those the device made durable, each applied once; they contain every batch the
  device has deleted and are at most one ahead of it; and what is not yet deleted is still queued.
\<close>

theorem delivery_is_exactly_once:
  assumes "net_reachable marshal unmarshal sha256 admin maxBytes n" "codec_ok marshal unmarshal"
  shows "nw_enqueued n d = nw_deleted n d @ pending n d \<and>
    queue_contents (nw_outbox n d) = map (the \<circ> marshal) (pending n d) \<and>
    prefix (nw_deleted n d) (applied_of n d) \<and> prefix (applied_of n d) (nw_enqueued n d) \<and>
    length (applied_of n d) \<le> length (nw_deleted n d) + 1 \<and> distinct (map ie_batch_id (applied_of n d))"
proof -
  have inv: "delivery_inv marshal n" by (rule reachable_inv [OF assms])
  then have q: "inv_queue marshal n" and a: "inv_applied n" and i: "inv_ids n"
    by (simp_all add: delivery_inv_def)
  from a obtain k where k: "k \<le> length (nw_enqueued n d)" "applied_of n d = take k (nw_enqueued n d)"
      "length (nw_deleted n d) \<le> k" "k \<le> length (nw_deleted n d) + 1"
    unfolding inv_applied_def by blast
  have sp: "nw_enqueued n d = nw_deleted n d @ pending n d" using q by (simp add: inv_queue_def)
  have "applied_of n d = nw_deleted n d @ take (k - length (nw_deleted n d)) (pending n d)"
    using k(2,3) by (subst (asm) sp) simp
  then have "prefix (nw_deleted n d) (applied_of n d)" by simp
  moreover have "prefix (applied_of n d) (nw_enqueued n d)" using k(2) by (simp add: take_is_prefix)
  moreover have "distinct (map ie_batch_id (applied_of n d))"
    using i k(2) by (simp add: inv_ids_def take_map [symmetric])
  moreover have "length (applied_of n d) \<le> length (nw_deleted n d) + 1" using k by simp
  moreover have "queue_contents (nw_outbox n d) = map (the \<circ> marshal) (pending n d)"
    using q by (simp add: inv_queue_def)
  ultimately show ?thesis using sp by blast
qed

theorem delivery_is_exactly_once_witness:
  "prefix [run_env] (applied_of run_network wit_uuid) \<and> prefix (applied_of run_network wit_uuid) [run_env]"
  using delivery_is_exactly_once [OF run_reachable run_codec, of wit_uuid] by simp

text \<open>
  C5. The hub converges: once every outbox is empty, the events in the hub's table are exactly the
  survivors (the earliest by timestamp and id of each dedup key) of all events any device ever made
  durable, whatever the network, the drivers and the order of deliveries did on the way.
\<close>

theorem hub_converges:
  assumes "net_reachable marshal unmarshal sha256 admin maxBytes n" "codec_ok marshal unmarshal"
    and "\<forall>d. queue_contents (nw_outbox n d) = []" "\<forall>e\<in>all_enqueued n. stamped stamp e"
  shows "ev_event_id ` set (hub_events n) = survivors stamp (ev_event_id ` all_enqueued n - {[]})"
proof -
  have "envelope_events (nw_applied n) = all_enqueued n"
    by (rule drained_all_applied [OF reachable_inv [OF assms(1,2)] assms(3)])
  with reachable_events_inv [OF assms(1), of stamp] assms(4) show ?thesis
    by (simp add: events_inv_def envelope_ids_def surv_inv_def)
qed

theorem hub_converges_witness:
  "ev_event_id ` set (hub_events run_network) = survivors wit_stamp (ev_event_id ` all_enqueued run_network - {[]}) \<and>
   ''a'' \<in> ev_event_id ` set (hub_events run_network)"
proof -
  have "queue_contents (nw_outbox run_network d) = []" for d
    by (simp add: run_network_def queue_contents_def OpenOutbox_def)
  moreover have "all_enqueued run_network = set (ie_events run_env)"
    by (auto simp: all_enqueued_def run_network_def envelope_events_def split: if_splits)
  then have "\<forall>e\<in>all_enqueued run_network. stamped wit_stamp e"
    by (simp add: run_env_def stamped_def wit_event_def wit_stamp_def zero_event_def)
  moreover have "''a'' \<in> ev_event_id ` set (hub_events run_network)"
    by (simp add: hub_events_def run_hub2_def row_of_def wit_event_def)
  ultimately show ?thesis using hub_converges [OF run_reachable run_codec, of wit_stamp] by simp
qed

end
