(* ===== verification/Hub_Properties.thy ===== *)
theory Hub_Properties
  imports Delivery_Properties
begin

text \<open>
  The properties of identity and access on the hub: the id checks of the four places that make one,
  who may write, what a credential opens, that a revocation is final, and that a machine keeps its
  principal.
\<close>

section \<open>Identifiers\<close>

text \<open>
  The four checks of a device id (the envelope validator, the agent's start-up check, the device
  registry, the enrollment and heartbeat endpoints) accept the same texts: 36 bytes of lowercase
  hexadecimal digits with dashes at the four places, other than the nil UUID.
\<close>

theorem uuid_checks_agree:
  "validUUID v = canonical_uuid v \<and> validEnrollmentDeviceID v = canonical_uuid v \<and>
   isCanonicalUUID v = canonical_uuid v \<and> validCanonicalUUID v = canonical_uuid v"
  by (simp add: validUUID_iff validEnrollmentDeviceID_eq isCanonicalUUID_eq validCanonicalUUID_eq)

section \<open>Who may write\<close>

definition authorized :: "(string \<Rightarrow> 8 word list) \<Rightarrow> hub \<Rightarrow> string \<Rightarrow> string \<Rightarrow> bool" where
  "authorized sha256 h deviceID authorization \<longleftrightarrow>
     (\<exists>credential r. bearerCredential authorization = Some credential \<and>
        deviceByID (hu_registry h) deviceID = Some r \<and> dr_revoked_at r = 0 \<and>
        hex_decode (dr_token_hash r) = Some (sha256 credential))"

lemma authenticate_authorized:
  assumes "authenticate sha256 io (hu_registry h) d auth = Inr (r, True)"
  shows "authorized sha256 h d auth"
  using assms
  by (auto simp: authenticate_def AuthenticateDevice_def authorized_def hashDeviceToken_def Let_def
      split: option.splits if_splits)

text \<open>
  Nothing is written without the device's own credential: if an ingest or a heartbeat request
  changes anything at the hub, it names a registered, unrevoked device and carries, as its Bearer
  credential, a text with the digest stored for that device.
\<close>

theorem only_the_device_itself_writes:
  "(fst (handleIngestV2 sha256 faults now auth body h) \<noteq> h \<longrightarrow>
     (\<exists>x. body = Decoded x \<and> ValidateIngestEnvelope x = [] \<and> authorized sha256 h (ie_device_id x) auth)) \<and>
   (fst (handleHeartbeatV2 sha256 faults now auth hbody h) \<noteq> h \<longrightarrow>
     (\<exists>hb. hbody = Decoded hb \<and> heartbeatValid hb \<and> authorized sha256 h (hb_device_id hb) auth))"
proof (intro conjI impI)
  assume "fst (handleIngestV2 sha256 faults now auth body h) \<noteq> h"
  then obtain x r where "body = Decoded x" "ValidateIngestEnvelope x = []"
      "authenticate sha256 (hf_auth faults) (hu_registry h) (ie_device_id x) auth = Inr (r, True)"
    by (auto simp: handleIngestV2_def Let_def split: decoded.splits sum.splits if_splits)
  with authenticate_authorized show "\<exists>x. body = Decoded x \<and> ValidateIngestEnvelope x = [] \<and>
      authorized sha256 h (ie_device_id x) auth" by blast
next
  assume "fst (handleHeartbeatV2 sha256 faults now auth hbody h) \<noteq> h"
  then obtain hb r where "hbody = Decoded hb" "heartbeatValid hb"
      "authenticate sha256 (hf_auth faults) (hu_registry h) (hb_device_id hb) auth = Inr (r, True)"
    by (auto simp: handleHeartbeatV2_def split: decoded.splits sum.splits if_splits option.splits)
  with authenticate_authorized show "\<exists>hb. hbody = Decoded hb \<and> heartbeatValid hb \<and>
      authorized sha256 h (hb_device_id hb) auth" by blast
qed

theorem only_the_device_itself_writes_witness:
  "authorized run_sha run_hub1 wit_uuid ''Bearer tok''"
proof -
  have "run_hub2 \<noteq> run_hub1" by (simp add: run_hub2_def run_hub1_def empty_hub_def)
  then have "fst (handleIngestV2 run_sha run_faults 9 ''Bearer tok'' (Decoded run_env) run_hub1) \<noteq> run_hub1"
    by (simp add: run_ingest)
  with only_the_device_itself_writes [of run_sha run_faults 9 "''Bearer tok''" "Decoded run_env" run_hub1]
  show ?thesis by (auto simp: run_env_def)
qed

section \<open>Credentials and revocation\<close>

text \<open>
  A registered device is opened by its token and by no text of another digest: after a
  successful registration, authentication of any text answers whether its digest is the token's.
\<close>

theorem registration_opens_to_its_token:
  assumes "\<And>x. length (sha256 x) = 32" "registry_inv s"
    and "RegisterDevice sha256 io i name tok caps now s = (s', Inr d)"
  shows "AuthenticateDevice sha256 s' i tok' = Inr (Some d, sha256 tok = sha256 tok')"
  by (rule Register_authenticates [OF assms])

definition empty_registry :: registry where
  "empty_registry = \<lparr>rg_devices = [], rg_heartbeats = [], rg_bindings = []\<rparr>"

lemma empty_registry_inv: "registry_inv empty_registry"
  by (simp add: registry_inv_def empty_registry_def)

lemma run_register:
  "RegisterDevice run_sha False wit_uuid ''n'' ''tok'' [] 1 empty_registry =
     (empty_registry\<lparr>rg_devices := [run_device]\<rparr>, Inr run_device)"
  using wit_uuid_valid
  by (simp add: RegisterDevice_def isCanonicalUUID_eq sql_insert_def empty_registry_def run_device_def Let_def)

theorem registration_opens_to_its_token_witness:
  "AuthenticateDevice run_sha (empty_registry\<lparr>rg_devices := [run_device]\<rparr>) wit_uuid ''tok'' = Inr (Some run_device, True)"
  using registration_opens_to_its_token [OF _ empty_registry_inv run_register, of "''tok''"]
  by (simp add: run_sha_def)

text \<open>
  C13. A revocation is final: once a device's row is revoked, no history of registrations, machine
  enrollments, heartbeats, metadata updates and further revocations makes any credential open that
  device again.
\<close>

theorem revocation_is_final:
  assumes "registry_inv s" "d \<in> set (rg_devices s)" "dr_revoked_at d \<noteq> 0" "\<forall>op\<in>set ops. stamped_op op"
  shows "AuthenticateDevice sha256 (run_steps (registry_step sha256) ops s) (dr_device_id d) tok \<noteq> Inr (r, True)"
proof -
  let ?s = "run_steps (registry_step sha256) ops s"
  have ext: "devices_extend (rg_devices s) (rg_devices ?s)" "registry_inv ?s"
    using run_extend [OF assms(4,1), of sha256] by blast+
  then obtain d' where "d' \<in> set (rg_devices ?s)" "dr_device_id d' = dr_device_id d" "dr_revoked_at d' \<noteq> 0"
    using assms(2,3) unfolding devices_extend_def by blast
  with revoked_never_authenticates [of ?s d' sha256 tok r] ext(2) show ?thesis
    by (simp add: registry_inv_def)
qed

theorem revocation_is_final_witness:
  "\<forall>r. AuthenticateDevice run_sha
     (run_steps (registry_step run_sha) [OpEnroll False wit_uuid wit_uuid ''n'' ''tok'' [] 8]
       (empty_registry\<lparr>rg_devices := [run_device\<lparr>dr_revoked_at := 7\<rparr>]\<rparr>))
     wit_uuid ''tok'' \<noteq> Inr (r, True)"
proof -
  have "registry_inv (empty_registry\<lparr>rg_devices := [run_device\<lparr>dr_revoked_at := 7\<rparr>]\<rparr>)"
    by (simp add: registry_inv_def empty_registry_def)
  from revocation_is_final [OF this, of "run_device\<lparr>dr_revoked_at := 7\<rparr>"
      "[OpEnroll False wit_uuid wit_uuid ''n'' ''tok'' [] 8]" run_sha "''tok''"]
  show ?thesis by (simp add: run_device_def)
qed

text \<open>
  A machine keeps its principal, and no two machines share one: of two successful enrollments,
  with any history of registry operations between them, those of the same machine answer the same
  device id and those of different machines different ones.
\<close>

theorem machines_and_principals_are_one_to_one:
  assumes "registry_inv s" "EnrollMachineDevice sha256 io m i name tok caps now s = (s1, Inr d)"
    and "\<forall>op\<in>set ops. stamped_op op"
    and "EnrollMachineDevice sha256 io' m' i' name' tok' caps' now' (run_steps (registry_step sha256) ops s1) = (s3, Inr d')"
  shows "dr_device_id d' = dr_device_id d \<longleftrightarrow> m' = m"
proof -
  let ?s2 = "run_steps (registry_step sha256) ops s1"
  have inv1: "registry_inv s1"
    using step_inv [OF assms(1), of "OpEnroll io m i name tok caps now" sha256] assms(2) by simp
  from run_extend [OF assms(3) inv1, of sha256]
  have ext: "bindings_extend (rg_bindings s1) (rg_bindings ?s2)" and inv2: "registry_inv ?s2" by blast+
  have b: "\<lparr>mb_machine_id = m, mb_device_id = dr_device_id d\<rparr> \<in> set (rg_bindings ?s2)"
    using Enroll_binds [OF assms(1,2)] ext by (auto simp: bindings_extend_def)
  have u2: "mb.uniq (rg_bindings ?s2)" using inv2 by (simp add: registry_inv_def)
  have inv3: "registry_inv s3"
    using step_inv [OF inv2, of "OpEnroll io' m' i' name' tok' caps' now'" sha256] assms(4) by simp
  have "set (rg_bindings ?s2) \<subseteq> set (rg_bindings s3)"
    using Enroll_extend [OF assms(4)] by (simp add: bindings_extend_def)
  then have b3: "\<lparr>mb_machine_id = m, mb_device_id = dr_device_id d\<rparr> \<in> set (rg_bindings s3)" using b by blast
  note b3' = Enroll_binds [OF inv2 assms(4)]
  have "m' = m" if "dr_device_id d' = dr_device_id d"
    using mb.uniq_same [OF _ b3 b3'] inv3 that by (auto simp: registry_inv_def binding_conflict_def)
  moreover have "dr_device_id d' = dr_device_id d" if "m' = m"
    using Enroll_same_principal [OF u2 b, of m'] assms(4) that by simp
  ultimately show ?thesis by blast
qed

definition bound_registry :: registry where
  "bound_registry = \<lparr>rg_devices = [run_device], rg_heartbeats = [],
     rg_bindings = [\<lparr>mb_machine_id = wit_uuid, mb_device_id = wit_uuid\<rparr>]\<rparr>"

lemma run_machine_enroll:
  "EnrollMachineDevice run_sha False wit_uuid wit_uuid ''n'' ''tok'' [] 1 empty_registry = (bound_registry, Inr run_device)"
  "EnrollMachineDevice run_sha False wit_uuid wit_uuid ''n'' ''tok'' [] 1 bound_registry = (bound_registry, Inr run_device)"
  using wit_uuid_valid
  by (simp_all add: EnrollMachineDevice_def isCanonicalUUID_eq enroll_tx_def bind_machine_def sql_select_def
      sql_insert_def deviceByID_def empty_registry_def bound_registry_def run_device_def Let_def)

theorem machines_and_principals_are_one_to_one_witness:
  "\<exists>s1 s3 d d'. EnrollMachineDevice run_sha False wit_uuid wit_uuid ''n'' ''tok'' [] 1 empty_registry = (s1, Inr d) \<and>
     EnrollMachineDevice run_sha False wit_uuid wit_uuid ''n'' ''tok'' [] 1 s1 = (s3, Inr d') \<and>
     dr_device_id d' = dr_device_id d"
proof -
  have again: "EnrollMachineDevice run_sha False wit_uuid wit_uuid ''n'' ''tok'' [] 1
      (run_steps (registry_step run_sha) [] bound_registry) = (bound_registry, Inr run_device)"
    by (simp add: run_machine_enroll)
  from machines_and_principals_are_one_to_one [OF empty_registry_inv run_machine_enroll(1) _ again] run_machine_enroll
  show ?thesis by auto
qed

end
