(* ===== verification/Agent_Properties.thy ===== *)
theory Agent_Properties
  imports Agent_Facts Outbox_Properties
begin

text \<open>
  The properties of the agent: what of a scanned batch becomes durable, that splitting succeeds
  whenever it can, which events a version 2 agent can report at all, that the drain loop empties the
  outbox, the retry delays, and what the relay lets through.
\<close>

section \<open>From a scanned batch to durable envelopes\<close>

text \<open>
  C9. A scanned batch becomes durable as a whole or not at all: when \<open>enqueueEvents\<close> reports an
  error the outbox is unchanged; when it succeeds, valid event envelopes of this device were appended
  whose events, read in order, are the first observations of every event id of the batch.
\<close>

theorem enqueue_carries_first_observations:
  assumes "enqueueEvents cfg marshal fails now events ds o1 = (o2, res)"
  shows "case res of Some err \<Rightarrow> o2 = o1
    | None \<Rightarrow> \<exists>ys. queue_contents o2 = queue_contents o1 @ map (the \<circ> marshal) ys \<and>
        concat (map ie_events ys) = first_by ev_event_id [] events \<and>
        (\<forall>x\<in>set ys. ValidateIngestEnvelope x = [] \<and> ie_device_id x = cfg_device_id cfg)"
proof (cases res)
  case (Some err)
  then show ?thesis using enqueueEvents_Some assms by fastforce
next
  case None
  then have "enqueueEvents cfg marshal fails now events ds o1 = (o2, None)" using assms by simp
  from enqueueEvents_None [OF this] show ?thesis
    unfolding collapseRepeatedEventIDs_def None option.case by blast
qed

definition wit_cfg :: agent_cfg where
  "wit_cfg = \<lparr>cfg_device_id = wit_uuid, cfg_boot_id = wit_uuid\<rparr>"

definition wit_scan :: event where
  "wit_scan = zero_event\<lparr>ev_event_id := ''a'', ev_device := wit_uuid\<rparr>"

lemma wit_enqueue_events:
  "snd (enqueueEvents wit_cfg wit_marshal no_faults 1 [wit_scan, wit_scan] [(Some (replicate 16 255), 7)] (OpenOutbox 100)) = None"
proof -
  let ?x = "(event_envelope wit_cfg (replicate 16 255) 7 [wit_scan])\<lparr>ie_sequence := 0\<rparr>"
  have uuid: "validUUID (newUUID (replicate 16 255))" by (rule newUUID_canonical) simp
  then have len: "length (newUUID (replicate 16 255)) = 36" by (simp add: validUUID_def split: if_splits)
  have part: "partitionEventEnvelopes wit_cfg wit_marshal [wit_scan] [(Some (replicate 16 255), 7)] = (Inr [?x], [])"
    by (simp add: partition_step wit_marshal_def event_envelope_def MaxIngestEnvelopeBytes_def len)
  have coll: "collapseRepeatedEventIDs [wit_scan, wit_scan] = [wit_scan]"
    by (simp add: collapseRepeatedEventIDs_def)
  have valid: "ValidateIngestEnvelope (?x\<lparr>ie_sequence := 1\<rparr>) = []"
    using uuid wit_uuid_valid
    by (simp add: ValidateIngestEnvelope_Nil envelope_ok_def header_ok_def events_ok_def MaxIngestBatchEvents_def
        event_envelope_def wit_cfg_def wit_scan_def zero_event_def kind_defs validUUID_iff [symmetric] IngestProtocolV2_def)
  have "snd (EnqueueManyNext wit_marshal no_faults 1 [?x] (OpenOutbox 100)) = Inr (sequenced 0 [?x])"
  proof (rule EnqueueManyNext_succeeds)
    show "within_capacity (OpenOutbox 100)"
      using ob_inv_open [of 100] by (simp add: within_capacity_def OpenOutbox_def queued_bytes_def)
    show "\<forall>x\<in>set (sequenced 0 [?x]). fits wit_marshal x"
      using valid by (simp add: fits_def wit_marshal_def MaxIngestEnvelopeBytes_def event_envelope_def len)
    show "queued_bytes (OpenOutbox 100) + wire_bytes wit_marshal (sequenced 0 [?x]) \<le> ob_max_bytes (OpenOutbox 100)"
      by (simp add: OpenOutbox_def queued_bytes_def wire_bytes_def wit_marshal_def event_envelope_def len)
  qed (simp_all add: no_faults_def OpenOutbox_def ParseUint_def is_digit_def parse_digits_def digit_val_def)
  then obtain o2 where "EnqueueManyNext wit_marshal no_faults 1 [?x] (OpenOutbox 100) = (o2, Inr (sequenced 0 [?x]))"
    by (metis prod.collapse)
  then show ?thesis by (simp add: enqueueEvents_def coll part)
qed

theorem enqueue_carries_first_observations_witness:
  "\<exists>o2 ys. enqueueEvents wit_cfg wit_marshal no_faults 1 [wit_scan, wit_scan] [(Some (replicate 16 255), 7)]
      (OpenOutbox 100) = (o2, None) \<and> queue_contents o2 = map (the \<circ> wit_marshal) ys \<and>
    concat (map ie_events ys) = [wit_scan]"
proof -
  obtain o2 where call: "enqueueEvents wit_cfg wit_marshal no_faults 1 [wit_scan, wit_scan]
      [(Some (replicate 16 255), 7)] (OpenOutbox 100) = (o2, None)"
    using wit_enqueue_events by (metis prod.collapse)
  from enqueue_carries_first_observations [OF call] call show ?thesis
    by (auto simp: queue_contents_def OpenOutbox_def)
qed

text \<open>
  Bisection succeeds whenever it can: if every envelope of these events can be encoded, no
  single event is too large alone, and the random source answers, a non-empty batch of \<open>n\<close> events is
  split with at most \<open>2n - 1\<close> fresh ids into envelopes that carry the same events in the same order,
  none empty and each within the byte limit even with the longest sequence.
\<close>

theorem bisection_succeeds:
  assumes "events \<noteq> []" "encodable cfg marshal events"
    and "2 * length events - 1 \<le> length ds" "\<forall>(r, now)\<in>set ds. r \<noteq> None"
  shows "\<exists>xs used ds'. partitionEventEnvelopes cfg marshal events ds = (Inr xs, ds') \<and>
    ds = used @ ds' \<and> length used \<le> 2 * length events - 1 \<and> concat (map ie_events xs) = events \<and>
    list_all (\<lambda>x. ie_events x \<noteq> []) xs \<and> list_all (chunk_ok cfg marshal) xs"
proof -
  from partition_succeeds [OF assms] obtain xs used ds' where
    p: "partitionEventEnvelopes cfg marshal events ds = (Inr xs, ds')" "ds = used @ ds'"
      "length used \<le> 2 * length events - 1"
    by blast
  with partition_keeps [OF p(1)] assms(1) show ?thesis by blast
qed

definition wit_size :: "envelope \<Rightarrow> string option" where
  "wit_size x = Some (replicate (length (ie_events x) * 524288) CHR ''x'')"

theorem bisection_succeeds_witness:
  "\<exists>xs ds'. partitionEventEnvelopes wit_cfg wit_size [zero_event, zero_event, zero_event]
      (replicate 5 (Some (replicate 16 0), 1)) = (Inr xs, ds') \<and>
    concat (map ie_events xs) = [zero_event, zero_event, zero_event]"
proof -
  have "encodable wit_cfg wit_size [zero_event, zero_event, zero_event]"
    by (auto simp: encodable_def wit_size_def event_envelope_def MaxIngestEnvelopeBytes_def)
  then show ?thesis
    using bisection_succeeds [of "[zero_event, zero_event, zero_event]" wit_cfg wit_size
        "replicate 5 (Some (replicate 16 0), 1)"] by auto
qed

text \<open>
  A version 2 agent can only report events of its own device id: a batch with an event of any
  other device name is refused as a whole, and nothing is queued.
\<close>

theorem foreign_events_are_refused:
  assumes "e \<in> set (collapseRepeatedEventIDs events)" "ev_device e \<noteq> cfg_device_id cfg"
  shows "\<exists>err. enqueueEvents cfg marshal fails now events ds o1 = (o1, Some err)"
proof (cases "enqueueEvents cfg marshal fails now events ds o1")
  case (Pair o2 res)
  show ?thesis
  proof (cases res)
    case None
    with Pair enqueueEvents_device [of cfg marshal fails now events ds o1 o2 e] assms show ?thesis by simp
  next
    case (Some err)
    with Pair enqueueEvents_Some show ?thesis by metis
  qed
qed

theorem foreign_events_are_refused_witness:
  "\<exists>err. enqueueEvents wit_cfg wit_marshal no_faults 1 [zero_event\<lparr>ev_device := ''laptop''\<rparr>] [(Some (replicate 16 255), 7)]
     (OpenOutbox 100) = (OpenOutbox 100, Some err)"
proof (rule foreign_events_are_refused)
  show "zero_event\<lparr>ev_device := ''laptop''\<rparr> \<in> set (collapseRepeatedEventIDs [zero_event\<lparr>ev_device := ''laptop''\<rparr>])"
    by (simp add: collapseRepeatedEventIDs_def)
  show "ev_device (zero_event\<lparr>ev_device := ''laptop''\<rparr>) \<noteq> cfg_device_id wit_cfg"
    by (simp add: wit_cfg_def wit_uuid_def)
qed

text \<open>
  Every id an agent draws is one the hub accepts: whatever the sixteen random bytes, the text is
  a canonical non-nil UUID with version nibble 4.
\<close>

theorem drawn_ids_are_canonical:
  assumes "length r = 16"
  shows "validUUID (newUUID r) \<and> isCanonicalUUID (newUUID r) \<and> newUUID r ! 14 = CHR ''4''"
  using newUUID_version4 [OF assms] by (simp add: isCanonicalUUID_eq)

theorem drawn_ids_are_canonical_witness:
  "isCanonicalUUID (newUUID (replicate 16 255))"
  using drawn_ids_are_canonical [of "replicate 16 255"] by simp

section \<open>Uploading\<close>

text \<open>
  C10. The drain loop delivers everything: when no driver call fails and the hub answers each queued
  batch with its acknowledgement under a success status, it returns with an empty outbox after
  exactly as many uploads as there were batches.
\<close>

theorem drain_empties_the_outbox:
  assumes "ob_inv o1" "\<forall>k st. \<not> fails k st"
    and "\<forall>k. \<forall>p\<in>set (queue_contents o1). answers marshal unmarshal (post k) p"
  shows "drainOutbox marshal unmarshal fails post 0 o1 = (o1\<lparr>ob_rows := []\<rparr>, length (ob_rows o1), None)"
  using drainOutbox_empties [OF assms, of 0] by simp

theorem drain_empties_the_outbox_witness:
  "\<exists>o1 o2. queue_contents o1 = [wit_uuid] \<and>
     drainOutbox wit_marshal wit_unmarshal (\<lambda>k. no_faults) (\<lambda>k body. Response 200 (Some wit_ack)) 0 o1 = (o2, 1, None) \<and>
     queue_contents o2 = []"
proof -
  define o1 where "o1 = fst (EnqueueManyNext wit_marshal no_faults 1 [wit_env] (OpenOutbox 100))"
  have rows: "ob_rows o1 = [\<lparr>ob_id = 1, ob_batch_id = wit_uuid, ob_envelope = wit_uuid,
      ob_payload_bytes = 36, ob_enqueued_at = 1\<rparr>]"
    unfolding o1_def wit_enqueue by simp
  have inv: "ob_inv o1" unfolding o1_def by (rule EnqueueManyNext_inv [OF ob_inv_open])
  have ans: "answers wit_marshal wit_unmarshal (\<lambda>body. Response 200 (Some wit_ack)) wit_uuid"
    by (simp add: answers_def wit_unmarshal_def wit_marshal_def)
      (simp add: ack_matches_def wit_ack_def wit_env_def)
  have "drainOutbox wit_marshal wit_unmarshal (\<lambda>k. no_faults) (\<lambda>k body. Response 200 (Some wit_ack)) 0 o1 =
      (o1\<lparr>ob_rows := []\<rparr>, length (ob_rows o1), None)"
    by (rule drain_empties_the_outbox [OF inv]) (use ans in \<open>simp_all add: no_faults_def queue_contents_def rows\<close>)
  then show ?thesis
    by (intro exI [of _ o1] exI [of _ "o1\<lparr>ob_rows := []\<rparr>"]) (simp add: queue_contents_def rows)
qed

text \<open>
  The bound of the \<open>n\<close>-th retry delay is \<open>base * 2^n\<close>, but never more than the maximum, for every
  attempt number: the doubling loop cannot overflow 64 bits on the way.
\<close>

theorem backoff_doubles_up_to_the_maximum:
  assumes "0 < bo_base b" "0 < bo_max b" "bo_max b < 2 ^ 63"
  shows "backoff_cap b = min (bo_max b) (bo_base b * 2 ^ unat (bo_attempt b))"
  by (rule backoff_cap_min [OF assms])

theorem backoff_doubles_up_to_the_maximum_witness:
  "backoff_cap \<lparr>bo_base = 1000000000, bo_max = 60000000000, bo_attempt = 5\<rparr> = 32000000000"
  using backoff_doubles_up_to_the_maximum [of "\<lparr>bo_base = 1000000000, bo_max = 60000000000, bo_attempt = 5\<rparr>"]
  by simp

section \<open>The relay\<close>

text \<open>
  The relay passes on only requests that carry exactly one relay token with the digest of its
  own non-empty one, never that token itself when an upstream one is configured, with the end
  device's credential and body unchanged and the body within the limit.
\<close>

theorem relay_forwards_only_credentialed:
  assumes "relayForward sha256 own upstream maxBytes r = Forwarded r'"
  shows "\<exists>token. rr_tokens r = [token] \<and> token \<noteq> [] \<and> own \<noteq> [] \<and> sha256 token = sha256 own \<and>
    rr_tokens r' = [if upstream = [] then own else upstream] \<and> rr_authorization r' = rr_authorization r \<and>
    rr_body r' = rr_body r \<and> (\<exists>body. rr_body r = Some body \<and> length body \<le> maxBytes \<and> rr_length r' = int (length body))"
proof -
  from assms have one: "length (rr_tokens r) = 1" "relayCredentialOK sha256 (hd (rr_tokens r)) own"
    by (auto simp: relayForward_def split: if_splits)
  then obtain token where t: "rr_tokens r = [token]" by (auto simp: length_Suc_conv)
  from assms one obtain body where b: "rr_body r = Some body" and "length (take (maxBytes + 1) body) \<le> maxBytes"
    and r': "r' = r\<lparr>rr_tokens := [relayUpstreamToken upstream own], rr_length := int (length (take (maxBytes + 1) body)),
        rr_body := Some (take (maxBytes + 1) body)\<rparr>"
    by (auto simp: relayForward_def Let_def split: if_splits option.splits)
  moreover from this have "length body \<le> maxBytes" by auto
  ultimately show ?thesis
    using one(2) t by (auto simp: relayCredentialOK_def relayUpstreamToken_def split: if_splits)
qed

theorem relay_forwards_only_credentialed_witness:
  "\<exists>r'. relayForward (\<lambda>s. map of_char s) ''own'' ''up'' 4
     \<lparr>rr_tokens = [''own''], rr_authorization = ''a'', rr_length = 2, rr_body = Some ''ok''\<rparr> = Forwarded r' \<and>
     rr_tokens r' = [''up''] \<and> rr_body r' = Some ''ok''"
proof -
  obtain r' where f: "relayForward (\<lambda>s. map of_char s) ''own'' ''up'' 4
     \<lparr>rr_tokens = [''own''], rr_authorization = ''a'', rr_length = 2, rr_body = Some ''ok''\<rparr> = Forwarded r'"
    by (simp add: relayForward_def relayCredentialOK_def relayUpstreamToken_def)
  from relay_forwards_only_credentialed [OF f] f show ?thesis by auto
qed

end
