(* ===== verification/Ingest_Properties.thy ===== *)
theory Ingest_Properties
  imports Ingest_Facts Outbox_Properties
begin

text \<open>
  The properties of the receiving side: what the validator decides, that a delivery can be repeated
  at any time, that a failed one leaves no trace, and what a payload of each kind does to its table.
\<close>

section \<open>Validation\<close>

text \<open>
  The validator accepts exactly the envelopes of the protocol: it returns no rejection if and
  only if the version is 2, the three ids are canonical non-nil lowercase UUIDs, the capture time is
  a positive timestamp before the year 10000, and the payload is of the announced kind and no other,
  within the batch limit, with distinct non-empty event ids and records of the sending device only.
\<close>

theorem validator_accepts_exactly:
  "ValidateIngestEnvelope x = [] \<longleftrightarrow> envelope_ok x"
  by (rule ValidateIngestEnvelope_Nil)

text \<open>
  A rejection that names a record names an offending one: its index is in range and that
  record has the defect its code says, with the record's own event id.
\<close>

theorem rejections_name_offenders:
  assumes "r \<in> set (ValidateIngestEnvelope x)" "rj_index r = Some i"
  shows "offends x r i"
  by (rule ValidateIngestEnvelope_offends [OF assms])

definition wit_bad :: envelope where
  "wit_bad = wit_env\<lparr>ie_kind := ''quotas'', ie_procs := None,
     ie_quotas := [\<lparr>q_device = ''other'', q_source = ''codex'', q_limit_id = [], q_scope = [],
       q_window_minutes = 1, q_used_percent = 0, q_resets_at = 0, q_observed_at = 1, q_plan_type = []\<rparr>]\<rparr>"

theorem rejections_name_offenders_witness:
  "\<exists>r\<in>set (ValidateIngestEnvelope wit_bad). rj_index r = Some 0 \<and> offends wit_bad r 0"
proof -
  have "recordRejection RejectionQuotaDeviceMismatch 0 [] \<in> set (ValidateIngestEnvelope wit_bad)"
    using wit_uuid_valid
    by (simp add: ValidateIngestEnvelope_def Let_def validate_payload_def kind_defs wit_bad_def wit_env_def
        reject_if_def)
      (simp add: wit_uuid_def)
  moreover have "rj_index (recordRejection RejectionQuotaDeviceMismatch 0 []) = Some 0"
    by (simp add: recordRejection_def)
  ultimately show ?thesis using rejections_name_offenders by blast
qed

section \<open>Redelivery and failure\<close>

definition ingest_call :: "((ingest_step \<Rightarrow> bool) \<times> envelope \<times> int) \<Rightarrow> hub_db \<Rightarrow> hub_db" where
  "ingest_call c db = fst (ApplyIngestV2 (fst c) db (fst (snd c)) (snd (snd c)))"

lemma ingest_call_deliver: "ingest_call = receiver.deliver_step"
proof (intro ext)
  fix c :: "(ingest_step \<Rightarrow> bool) \<times> envelope \<times> int" and db
  obtain f x recv where "c = (f, x, recv)" by (cases c)
  then show "ingest_call c db = receiver.deliver_step c db"
    by (cases "ApplyIngestV2 f db x recv")
      (simp add: ingest_call_def receiver.deliver_step_def ingest_deliver_def split: sum.splits)
qed

lemma ApplyIngestV2_deliver:
  "ApplyIngestV2 f db x recv = (db', Inr r) \<Longrightarrow> ingest_deliver f (x, recv) db = (db', Inr (ir_ack r))"
  by (simp add: ingest_deliver_def)

text \<open>
  C7. A batch may be sent again at any time: after it was acknowledged once and any further history
  of deliveries, of it and of others, with any driver faults, a delivery of it that succeeds returns
  the very same acknowledgement and changes nothing.
\<close>

theorem replay_returns_the_same_ack:
  assumes "ApplyIngestV2 f db x recv = (db1, Inr r1)"
    and "ApplyIngestV2 g (run_steps ingest_call calls db1) x recv' = (db2, Inr r2)"
  shows "db2 = run_steps ingest_call calls db1 \<and> ir_ack r2 = ir_ack r1"
proof -
  have first: "ingest_deliver f (x, recv) db = (db1, Inr (ir_ack r1))"
    by (rule ApplyIngestV2_deliver [OF assms(1)])
  have answer: "receipt_answer (run_steps ingest_call calls db1) (x, recv) = Some (ir_ack r1)"
    unfolding ingest_call_deliver by (rule receiver.answer_forever [OF receiver.accepted_answered [OF first]])
  then have "receipt_answer (run_steps ingest_call calls db1) (x, recv') = Some (ir_ack r1)"
    by (simp add: receipt_answer_Some)
  from receiver.answered_noop [OF this ApplyIngestV2_deliver [OF assms(2)]] show ?thesis .
qed

definition no_ingest_faults :: "ingest_step \<Rightarrow> bool" where "no_ingest_faults st = False"

definition empty_db :: hub_db where
  "empty_db = \<lparr>hd_events = [], hd_quotas = [], hd_sessions = [], hd_reports = [], hd_receipts = []\<rparr>"

lemma wit_ingest:
  "\<exists>db1. ApplyIngestV2 no_ingest_faults empty_db wit_env 9 =
     (db1, Inr \<lparr>ir_ack = wit_ack, ir_replay = False, ir_mutated = False\<rparr>) \<and>
     hd_receipts db1 = [receipt_of wit_ack]"
  by (simp add: ApplyIngestV2_def no_ingest_faults_def empty_db_def wit_env_def wit_ack_def ingestReceiptTx_def
      sql_select_def sql_insert_def apply_payload_def kind_defs applyProcReportTx_def Let_def
      IngestProtocolV2_def split: prod.splits)

lemma wit_replay:
  "hd_receipts db1 = [receipt_of wit_ack] \<Longrightarrow> ApplyIngestV2 no_ingest_faults db1 wit_env 50 =
     (db1, Inr \<lparr>ir_ack = wit_ack, ir_replay = True, ir_mutated = False\<rparr>)"
  by (simp add: ApplyIngestV2_def no_ingest_faults_def ingestReceiptTx_def sql_select_def receipt_of_def
      wit_env_def wit_ack_def)

theorem replay_returns_the_same_ack_witness:
  "\<exists>db1 db2. ApplyIngestV2 no_ingest_faults empty_db wit_env 9 =
      (db1, Inr \<lparr>ir_ack = wit_ack, ir_replay = False, ir_mutated = False\<rparr>) \<and>
    ApplyIngestV2 no_ingest_faults db1 wit_env 50 =
      (db2, Inr \<lparr>ir_ack = wit_ack, ir_replay = True, ir_mutated = False\<rparr>) \<and> db2 = db1"
proof -
  obtain db1 where one: "ApplyIngestV2 no_ingest_faults empty_db wit_env 9 =
     (db1, Inr \<lparr>ir_ack = wit_ack, ir_replay = False, ir_mutated = False\<rparr>)"
    and rc: "hd_receipts db1 = [receipt_of wit_ack]"
    using wit_ingest by blast
  obtain db2 where two: "ApplyIngestV2 no_ingest_faults db1 wit_env 50 =
      (db2, Inr \<lparr>ir_ack = wit_ack, ir_replay = True, ir_mutated = False\<rparr>)"
    using wit_replay [OF rc] by blast
  then have "ApplyIngestV2 no_ingest_faults (run_steps ingest_call [] db1) wit_env 50 =
      (db2, Inr \<lparr>ir_ack = wit_ack, ir_replay = True, ir_mutated = False\<rparr>)"
    by simp
  from replay_returns_the_same_ack [OF one this] one two show ?thesis by simp
qed

text \<open>
  C8. A delivery is one transaction: one that fails, at any step, changes nothing; one that succeeds
  leaves the receipt from which the same acknowledgement is read again.
\<close>

theorem delivery_is_one_transaction:
  assumes "ApplyIngestV2 f db x recv = (db', res)"
  shows "case res of Inl err \<Rightarrow> db' = db
    | Inr r \<Rightarrow> ingestReceiptTx (hd_receipts db') (ie_batch_id x) = Inr (Some (ir_ack r)) \<and>
        ak_device_id (ir_ack r) = ie_device_id x"
proof (cases res)
  case (Inl err)
  with assms show ?thesis by (cases rule: ApplyIngestV2_cases) auto
next
  case (Inr r)
  with assms have "ApplyIngestV2 f db x recv = (db', Inr r)" by simp
  from receiver.accepted_answered [OF ApplyIngestV2_deliver [OF this]] Inr show ?thesis
    by (simp add: receipt_answer_Some)
qed

theorem delivery_is_one_transaction_witness:
  "\<exists>db1 :: hub_db. ingestReceiptTx (hd_receipts db1) wit_uuid = Inr (Some wit_ack)"
proof -
  obtain db1 where "ApplyIngestV2 no_ingest_faults empty_db wit_env 9 =
     (db1, Inr \<lparr>ir_ack = wit_ack, ir_replay = False, ir_mutated = False\<rparr>)"
    using wit_ingest by blast
  from delivery_is_one_transaction [OF this] show ?thesis by (auto simp: wit_env_def)
qed

section \<open>The payloads\<close>

text \<open>
  Quota snapshots keep the first observation of a key: a batch appends, in order, exactly the
  snapshots whose (device, source, limit, scope, window, observation time) neither the table nor an
  earlier snapshot of the batch has, and reports their number.
\<close>

theorem quotas_keep_the_first_observation:
  "insertQuotasTx t qs = (t @ first_by quota_key (map quota_key t) qs,
     length (first_by quota_key (map quota_key t) qs))"
  by (rule insertQuotasTx_first)

text \<open>
  A process report is a snapshot: one that is newer than the device's last replaces all its
  sessions by exactly those reported and touches no other device's; and whatever the report, every
  session kept is covered by a report of its device at least as recent.
\<close>

theorem process_report_is_a_snapshot:
  assumes "procs_inv ss rs" "distinct (map ps_pid (pr_sessions rep))"
    and "applyProcReportTx ss rs rep = (ss', rs', changed)"
  shows "procs_inv ss' rs' \<and>
    (pr_device rep \<noteq> [] \<and> pr_observed_at rep \<noteq> 0 \<and> last_report rs (pr_device rep) < pr_observed_at rep \<longrightarrow>
      {s \<in> set ss'. ls_device s = pr_device rep} = session_row rep ` set (pr_sessions rep) \<and>
      {s \<in> set ss'. ls_device s \<noteq> pr_device rep} = {s \<in> set ss. ls_device s \<noteq> pr_device rep})"
  using applyProcReportTx_inv [OF assms(1,3,2)] applyProcReportTx_snapshot [OF assms(1) _ _ _ assms(2,3)]
  by blast

definition wit_report :: "int list \<Rightarrow> int \<Rightarrow> proc_report" where
  "wit_report pids now = \<lparr>pr_device = ''d'', pr_observed_at = now, pr_sessions =
     map (\<lambda>p. \<lparr>ps_pid = p, ps_source = ''codex'', ps_started_at = 1\<rparr>) pids\<rparr>"

theorem process_report_is_a_snapshot_witness:
  "\<exists>ss' rs' changed. applyProcReportTx
      [\<lparr>ls_device = ''d'', ls_pid = 1, ls_source = ''codex'', ls_started_at = 1, ls_observed_at = 4\<rparr>]
      [\<lparr>lr_device = ''d'', lr_observed_at = 4\<rparr>] (wit_report [2] 5) = (ss', rs', changed) \<and>
    {s \<in> set ss'. ls_device s = ''d''} = {session_row (wit_report [2] 5) \<lparr>ps_pid = 2, ps_source = ''codex'', ps_started_at = 1\<rparr>}"
proof -
  let ?ss = "[\<lparr>ls_device = ''d'', ls_pid = 1, ls_source = ''codex'', ls_started_at = 1, ls_observed_at = 4\<rparr>]"
  let ?rs = "[\<lparr>lr_device = ''d'', lr_observed_at = 4\<rparr>]"
  have inv: "procs_inv ?ss ?rs"
    by (simp add: procs_inv_def session_conflict_def report_conflict_def)
  have pids: "distinct (map ps_pid (pr_sessions (wit_report [2] 5)))" by (simp add: wit_report_def)
  obtain ss' rs' changed where app: "applyProcReportTx ?ss ?rs (wit_report [2] 5) = (ss', rs', changed)"
    by (metis prod_cases3)
  from process_report_is_a_snapshot [OF inv pids app] app show ?thesis
    by (auto simp: wit_report_def last_report_def sql_select_def)
qed

end
