(* ===== verification/Device_Merge.thy ===== *)
theory Device_Merge
  imports Ingest_Facts
begin

text \<open>
  \<open>internal/store/devicemerge.go\<close> with the settings table of \<open>settings.go\<close>: folding one device
  identity into another, in one transaction, with the preview computed by the same code. The JSON
  of the two settings documents (display labels, audit log) is a parameter: \<open>label_codec\<close> and
  \<open>history_codec\<close>. \<open>fails\<close> says which calls the database driver refuses.
\<close>

section \<open>Settings\<close>

type_synonym settings = "(string \<times> string) list"

definition settingValue :: "settings \<Rightarrow> string \<Rightarrow> string" where
  "settingValue t key = (case map_of t key of None \<Rightarrow> [] | Some v \<Rightarrow> v)"

text \<open>\<open>INSERT ... ON CONFLICT(key) DO UPDATE\<close>\<close>

definition set_setting :: "string \<Rightarrow> string \<Rightarrow> settings \<Rightarrow> settings" where
  "set_setting key v t = AList.update key v t"

definition DeviceLabelsKey :: string where "DeviceLabelsKey = ''device_labels''"
definition DeviceMergesKey :: string where "DeviceMergesKey = ''device_merges''"

type_synonym labels = "(string \<times> string) list"

record merge_record =
  mr_from :: string
  mr_to :: string
  mr_at :: int
  mr_actor :: string
  mr_events :: int
  mr_quota_snapshots :: int
  mr_quota_dropped :: int
  mr_live_rows_dropped :: int

record 'a codec =
  enc :: "'a \<Rightarrow> string"
  dec :: "string \<Rightarrow> 'a option"

section \<open>The plan\<close>

record identity_stats =
  is_device :: string
  is_events :: int
  is_total_tokens :: int
  is_first_ts :: int
  is_last_ts :: int
  is_quota_snapshots :: int
  is_live_rows :: int

record merge_plan =
  mp_from :: identity_stats
  mp_to :: identity_stats
  mp_events_moved :: int
  mp_quota_moved :: int
  mp_quota_dropped :: int
  mp_live_rows_dropped :: int
  mp_label_moved :: bool

record merge_db =
  md_db :: hub_db
  md_settings :: settings

datatype merge_step = MgEnsure | MgBegin | MgExists | MgStats | MgCollisions | MgReadLabels
  | MgDropQuota | MgMoveQuota | MgDropSessions | MgDropReports | MgMoveEvents | MgReadMoveLabels
  | MgWriteLabels | MgReadHistory | MgWriteHistory | MgCommit

datatype merge_error = ErrDeviceMergeUnknownIdentity string | ErrDeviceMergeSameIdentity
  | MergeIO merge_step | SumOverflow | LabelsUnreadable | HistoryUnreadable | QuotaKeyTaken | PlanMismatch

text \<open>
  SQLite adds integers in 64 bits: an overflowing row expression turns into a float, which does not
  scan into an \<open>int64\<close>, and \<open>SUM\<close> reports an overflow. Both end the query with an error.
\<close>

fun sql_sum :: "int \<Rightarrow> int list \<Rightarrow> int option" where
  "sql_sum acc [] = Some acc"
| "sql_sum acc (x # xs) = (if is_i64 (acc + x) then sql_sum (acc + x) xs else None)"

definition row_tokens :: "event_row \<Rightarrow> int option" where
  "row_tokens r = sql_sum 0 [ev_input_tokens r, ev_output_tokens r, ev_cache_read_tokens r,
     ev_cache_creation_tokens r]"

definition token_sum :: "event_row list \<Rightarrow> int option" where
  "token_sum rs = (if list_ex (\<lambda>r. row_tokens r = None) rs then None
     else sql_sum 0 (map (the \<circ> row_tokens) rs))"

definition events_of :: "hub_db \<Rightarrow> string \<Rightarrow> event_row list" where
  "events_of db d = filter (\<lambda>r. ev_device r = d) (hd_events db)"

definition deviceIdentityExists :: "hub_db \<Rightarrow> string \<Rightarrow> bool" where
  "deviceIdentityExists db d \<longleftrightarrow> list_ex (\<lambda>r. ev_device r = d) (hd_events db) \<or>
     list_ex (\<lambda>q. q_device q = d) (hd_quotas db) \<or>
     list_ex (\<lambda>s. ls_device s = d) (hd_sessions db) \<or>
     list_ex (\<lambda>r. lr_device r = d) (hd_reports db)"

definition deviceIdentityStats :: "hub_db \<Rightarrow> string \<Rightarrow> merge_error + identity_stats" where
  "deviceIdentityStats db d =
     (case token_sum (events_of db d) of
        None \<Rightarrow> Inl SumOverflow
      | Some tokens \<Rightarrow>
          let tss = map ev_ts (events_of db d)
          in Inr \<lparr>is_device = d, is_events = int (length tss), is_total_tokens = tokens,
               is_first_ts = (if tss = [] then 0 else Min (set tss)),
               is_last_ts = (if tss = [] then 0 else Max (set tss)),
               is_quota_snapshots = int (sql_count (\<lambda>q. q_device q = d) (hd_quotas db)),
               is_live_rows = int (sql_count (\<lambda>s. ls_device s = d) (hd_sessions db) +
                 sql_count (\<lambda>r. lr_device r = d) (hd_reports db))\<rparr>)"

text \<open>Is there a row of \<open>to\<close> with the rest of this row's primary key?\<close>

definition quota_taken :: "hub_db \<Rightarrow> string \<Rightarrow> quota_snapshot \<Rightarrow> bool" where
  "quota_taken db to q \<longleftrightarrow> list_ex (\<lambda>t. q_device t = to \<and> q_source t = q_source q \<and>
     q_limit_id t = q_limit_id q \<and> q_scope t = q_scope q \<and>
     q_window_minutes t = q_window_minutes q \<and> q_observed_at t = q_observed_at q) (hd_quotas db)"

definition quotaCollisionCount :: "hub_db \<Rightarrow> string \<Rightarrow> string \<Rightarrow> int" where
  "quotaCollisionCount db from to = int (sql_count (\<lambda>q. q_device q = from \<and> quota_taken db to q) (hd_quotas db))"

definition deviceLabels :: "labels codec \<Rightarrow> settings \<Rightarrow> merge_error + labels" where
  "deviceLabels c t =
     (let raw = settingValue t DeviceLabelsKey
      in if raw = [] then Inr []
         else (case dec c raw of None \<Rightarrow> Inl LabelsUnreadable | Some l \<Rightarrow> Inr l))"

definition planDeviceMerge :: "labels codec \<Rightarrow> (merge_step \<Rightarrow> bool) \<Rightarrow> merge_db \<Rightarrow> string \<Rightarrow> string \<Rightarrow>
    merge_error + merge_plan" where
  "planDeviceMerge c fails m from to =
     (let db = md_db m
      in if from = [] \<or> to = [] then Inl (ErrDeviceMergeUnknownIdentity [])
         else if from = to then Inl ErrDeviceMergeSameIdentity
         else if fails MgExists then Inl (MergeIO MgExists)
         else if \<not> deviceIdentityExists db from then Inl (ErrDeviceMergeUnknownIdentity from)
         else if \<not> deviceIdentityExists db to then Inl (ErrDeviceMergeUnknownIdentity to)
         else if fails MgStats then Inl (MergeIO MgStats)
         else (case deviceIdentityStats db from of Inl err \<Rightarrow> Inl err | Inr sf \<Rightarrow>
           (case deviceIdentityStats db to of Inl err \<Rightarrow> Inl err | Inr st \<Rightarrow>
             if fails MgCollisions then Inl (MergeIO MgCollisions)
             else if fails MgReadLabels then Inl (MergeIO MgReadLabels)
             else (case deviceLabels c (md_settings m) of Inl err \<Rightarrow> Inl err | Inr l \<Rightarrow>
               let dropped = quotaCollisionCount db from to
               in Inr \<lparr>mp_from = sf, mp_to = st, mp_events_moved = is_events sf,
                    mp_quota_moved = is_quota_snapshots sf - dropped, mp_quota_dropped = dropped,
                    mp_live_rows_dropped = is_live_rows sf,
                    mp_label_moved = (map_of l from \<noteq> None \<and> map_of l to = None)\<rparr>))))"

definition PlanDeviceMerge :: "labels codec \<Rightarrow> (merge_step \<Rightarrow> bool) \<Rightarrow> merge_db \<Rightarrow> string \<Rightarrow> string \<Rightarrow>
    merge_error + merge_plan" where
  "PlanDeviceMerge c fails m from to =
     (if fails MgEnsure then Inl (MergeIO MgEnsure) else planDeviceMerge c fails m from to)"

section \<open>The merge\<close>

definition mergeDeviceLabel :: "labels codec \<Rightarrow> (merge_step \<Rightarrow> bool) \<Rightarrow> string \<Rightarrow> string \<Rightarrow> settings \<Rightarrow>
    merge_error + settings" where
  "mergeDeviceLabel c fails from to t =
     (if fails MgReadMoveLabels then Inl (MergeIO MgReadMoveLabels)
      else (case deviceLabels c t of
        Inl err \<Rightarrow> Inl err
      | Inr l \<Rightarrow>
          (case map_of l from of
             None \<Rightarrow> Inr t
           | Some label \<Rightarrow>
               let l1 = AList.delete from l;
                   l2 = (if map_of l1 to = None then AList.update to label l1 else l1)
               in if fails MgWriteLabels then Inl (MergeIO MgWriteLabels)
                  else Inr (set_setting DeviceLabelsKey (enc c l2) t))))"

definition deviceMergeHistory :: "merge_record list codec \<Rightarrow> settings \<Rightarrow> merge_error + merge_record list" where
  "deviceMergeHistory c t =
     (let raw = settingValue t DeviceMergesKey
      in if raw = [] then Inr []
         else (case dec c raw of None \<Rightarrow> Inl HistoryUnreadable | Some h \<Rightarrow> Inr h))"

definition appendDeviceMergeRecord :: "merge_record list codec \<Rightarrow> (merge_step \<Rightarrow> bool) \<Rightarrow> merge_record \<Rightarrow>
    settings \<Rightarrow> merge_error + settings" where
  "appendDeviceMergeRecord c fails r t =
     (if fails MgReadHistory then Inl (MergeIO MgReadHistory)
      else (case deviceMergeHistory c t of
        Inl err \<Rightarrow> Inl err
      | Inr h \<Rightarrow> if fails MgWriteHistory then Inl (MergeIO MgWriteHistory)
                 else Inr (set_setting DeviceMergesKey (enc c (h @ [r])) t)))"

text \<open>
  The five statements on the tables: the new tables and the row counts the driver reports, in the
  order dropped snapshots, moved snapshots, dropped live rows, moved events.
\<close>

definition move_quota :: "string \<Rightarrow> quota_snapshot \<Rightarrow> quota_snapshot" where
  "move_quota to q = q\<lparr>q_device := to\<rparr>"

definition merge_tables :: "(merge_step \<Rightarrow> bool) \<Rightarrow> string \<Rightarrow> string \<Rightarrow> hub_db \<Rightarrow>
    merge_error + hub_db \<times> int \<times> int \<times> int \<times> int" where
  "merge_tables fails from to db =
     (if fails MgDropQuota then Inl (MergeIO MgDropQuota)
      else
        let (q1, dropped) = sql_delete (\<lambda>q. q_device q = from \<and> quota_taken db to q) (hd_quotas db)
        in if fails MgMoveQuota then Inl (MergeIO MgMoveQuota)
           else
             let (q2, movedQuota) = sql_update (\<lambda>q. q_device q = from) (move_quota to) q1
             in if \<not> rows_unique quota_conflict q2 then Inl QuotaKeyTaken
                else if fails MgDropSessions then Inl (MergeIO MgDropSessions)
                else
                  let (ss, droppedSessions) = sql_delete (\<lambda>s. ls_device s = from) (hd_sessions db)
                  in if fails MgDropReports then Inl (MergeIO MgDropReports)
                     else
                       let (rs, droppedReports) = sql_delete (\<lambda>r. lr_device r = from) (hd_reports db)
                       in if fails MgMoveEvents then Inl (MergeIO MgMoveEvents)
                          else
                            let (es, movedEvents) = sql_update (\<lambda>r. ev_device r = from)
                                  (\<lambda>r. r\<lparr>ev_device := to\<rparr>) (hd_events db)
                            in Inr (db\<lparr>hd_events := es, hd_quotas := q2, hd_sessions := ss, hd_reports := rs\<rparr>,
                                 int dropped, int movedQuota, int (droppedSessions + droppedReports), int movedEvents))"

definition MergeDeviceIdentity :: "labels codec \<Rightarrow> merge_record list codec \<Rightarrow> (merge_step \<Rightarrow> bool) \<Rightarrow>
    string \<Rightarrow> string \<Rightarrow> string \<Rightarrow> int \<Rightarrow> merge_db \<Rightarrow> merge_db \<times> (merge_error + merge_plan)" where
  "MergeDeviceIdentity lc hc fails from to actor now m =
     (if fails MgEnsure then (m, Inl (MergeIO MgEnsure))
      else if fails MgBegin then (m, Inl (MergeIO MgBegin))
      else (case planDeviceMerge lc fails m from to of
        Inl err \<Rightarrow> (m, Inl err)
      | Inr plan \<Rightarrow>
        (case merge_tables fails from to (md_db m) of
          Inl err \<Rightarrow> (m, Inl err)
        | Inr (db1, dropped, movedQuota, droppedLive, movedEvents) \<Rightarrow>
          (if movedEvents \<noteq> mp_events_moved plan \<or> movedQuota \<noteq> mp_quota_moved plan \<or>
              dropped \<noteq> mp_quota_dropped plan \<or> droppedLive \<noteq> mp_live_rows_dropped plan
           then (m, Inl PlanMismatch)
           else (case mergeDeviceLabel lc fails from to (md_settings m) of
             Inl err \<Rightarrow> (m, Inl err)
           | Inr t1 \<Rightarrow>
             (case appendDeviceMergeRecord hc fails
                 \<lparr>mr_from = from, mr_to = to, mr_at = now, mr_actor = actor,
                  mr_events = mp_events_moved plan, mr_quota_snapshots = mp_quota_moved plan,
                  mr_quota_dropped = mp_quota_dropped plan,
                  mr_live_rows_dropped = mp_live_rows_dropped plan\<rparr> t1 of
               Inl err \<Rightarrow> (m, Inl err)
             | Inr t2 \<Rightarrow>
               if fails MgCommit then (m, Inl (MergeIO MgCommit))
               else (\<lparr>md_db = db1, md_settings = t2\<rparr>, Inr plan)))))))"

definition DeviceMergeHistory :: "merge_record list codec \<Rightarrow> merge_db \<Rightarrow> merge_error + merge_record list" where
  "DeviceMergeHistory c m = deviceMergeHistory c (md_settings m)"

definition SelfReportedDevices :: "hub_db \<Rightarrow> string list" where
  "SelfReportedDevices db =
     sort (remdups (map ev_device (filter (\<lambda>r. device_origin r = OriginSelf \<and> ev_device r \<noteq> []) (hd_events db))))"

end
