(* ===== verification/Device_Merge_Properties.thy ===== *)
theory Device_Merge_Properties
  imports Device_Merge
begin

text \<open>
  A device merge moves attribution and nothing else, does exactly what its preview said, and appends
  to the audit log.
\<close>

section \<open>What the statements do\<close>

definition moved_events :: "string \<Rightarrow> string \<Rightarrow> event_row list \<Rightarrow> event_row list" where
  "moved_events from to rs = map (\<lambda>r. if ev_device r = from then r\<lparr>ev_device := to\<rparr> else r) rs"

definition moved_quotas :: "hub_db \<Rightarrow> string \<Rightarrow> string \<Rightarrow> quota_snapshot list" where
  "moved_quotas db from to = map (\<lambda>q. if q_device q = from then move_quota to q else q)
     (filter (\<lambda>q. \<not> (q_device q = from \<and> quota_taken db to q)) (hd_quotas db))"

definition merged_db :: "string \<Rightarrow> string \<Rightarrow> hub_db \<Rightarrow> hub_db" where
  "merged_db from to db = db\<lparr>hd_events := moved_events from to (hd_events db),
     hd_quotas := moved_quotas db from to,
     hd_sessions := filter (\<lambda>s. ls_device s \<noteq> from) (hd_sessions db),
     hd_reports := filter (\<lambda>r. lr_device r \<noteq> from) (hd_reports db)\<rparr>"

definition live_rows :: "hub_db \<Rightarrow> string \<Rightarrow> int" where
  "live_rows db d = int (sql_count (\<lambda>s. ls_device s = d) (hd_sessions db) +
     sql_count (\<lambda>r. lr_device r = d) (hd_reports db))"

definition quotas_of :: "hub_db \<Rightarrow> string \<Rightarrow> int" where
  "quotas_of db d = int (sql_count (\<lambda>q. q_device q = d) (hd_quotas db))"

lemma move_quota_sel [simp]:
  "q_device (move_quota to q) = to" "q_source (move_quota to q) = q_source q"
  "q_limit_id (move_quota to q) = q_limit_id q" "q_scope (move_quota to q) = q_scope q"
  "q_window_minutes (move_quota to q) = q_window_minutes q" "q_observed_at (move_quota to q) = q_observed_at q"
  by (simp_all add: move_quota_def)

lemma quota_taken_key: "quota_taken db to q \<longleftrightarrow> (\<exists>t\<in>set (hd_quotas db). quota_key t = quota_key (move_quota to q))"
  by (auto simp: quota_taken_def list_ex_iff quota_key_def)

lemma move_quota_key: "quota_key (move_quota to x) = quota_key (move_quota to y) \<Longrightarrow> q_device x = q_device y \<Longrightarrow>
    quota_key x = quota_key y"
  by (simp add: quota_key_def)

lemma moved_quotas_uniq:
  assumes "qt.uniq (hd_quotas db)" shows "qt.uniq (moved_quotas db from to)"
  unfolding moved_quotas_def
proof (rule qt.uniq_map [OF qt.uniq_filter [OF assms]])
  fix x y
  assume x: "x \<in> set (filter (\<lambda>q. \<not> (q_device q = from \<and> quota_taken db to q)) (hd_quotas db))"
    and y: "y \<in> set (filter (\<lambda>q. \<not> (q_device q = from \<and> quota_taken db to q)) (hd_quotas db))"
    and c: "quota_conflict (if q_device x = from then move_quota to x else x)
        (if q_device y = from then move_quota to y else y)"
  show "quota_conflict x y"
  proof (cases "q_device x = from"; cases "q_device y = from")
    assume "q_device x = from" "q_device y = from"
    with c show ?thesis by (auto simp: quota_conflict_def intro: move_quota_key)
  next
    assume "q_device x = from" "q_device y \<noteq> from"
    with c x y show ?thesis by (auto simp: quota_conflict_def quota_taken_key)
  next
    assume "q_device x \<noteq> from" "q_device y = from"
    with c x y show ?thesis by (auto simp: quota_conflict_def quota_taken_key)
  next
    assume "q_device x \<noteq> from" "q_device y \<noteq> from"
    with c show ?thesis by simp
  qed
qed

lemma count_split: "sql_count P t = sql_count (\<lambda>x. P x \<and> Q x) t + sql_count (\<lambda>x. P x \<and> \<not> Q x) t"
  by (induction t) (auto simp: sql_count_def)

lemma moved_quota_count:
  "int (sql_count (\<lambda>q. q_device q = from) (filter (\<lambda>q. \<not> (q_device q = from \<and> quota_taken db to q)) (hd_quotas db))) =
     quotas_of db from - quotaCollisionCount db from to"
proof -
  have "sql_count (\<lambda>q. q_device q = from) (filter (\<lambda>q. \<not> (q_device q = from \<and> quota_taken db to q)) (hd_quotas db)) =
      sql_count (\<lambda>q. q_device q = from \<and> \<not> quota_taken db to q) (hd_quotas db)"
    unfolding sql_count_def filter_filter by (rule arg_cong [where f = length]) (rule filter_cong, auto)
  with count_split [of "\<lambda>q. q_device q = from" "hd_quotas db" "quota_taken db to"] show ?thesis
    by (simp add: quotas_of_def quotaCollisionCount_def)
qed

text \<open>The statements touch exactly the planned numbers of rows.\<close>

lemma merge_tables_cases:
  assumes "merge_tables fails from to db = res"
  obtains (failed) st where "fails st" "res = Inl (MergeIO st)"
  | (taken) "res = Inl QuotaKeyTaken" "\<not> qt.uniq (hd_quotas db)"
  | (merged) "res = Inr (merged_db from to db, quotaCollisionCount db from to,
      quotas_of db from - quotaCollisionCount db from to, live_rows db from, int (length (events_of db from)))"
proof -
  have q: "map (\<lambda>q. if q_device q = from then move_quota to q else q)
      (filter (\<lambda>q. q_device q = from \<longrightarrow> \<not> quota_taken db to q) (hd_quotas db)) = moved_quotas db from to"
    by (simp add: moved_quotas_def)
  have n: "int (sql_count (\<lambda>q. q_device q = from) (filter (\<lambda>q. q_device q = from \<longrightarrow> \<not> quota_taken db to q) (hd_quotas db))) =
      quotas_of db from - quotaCollisionCount db from to"
    using moved_quota_count [of "from" db to] by simp
  consider (f) st where "fails st" "res = Inl (MergeIO st)"
    | (t) "res = Inl QuotaKeyTaken" "\<not> qt.uniq (moved_quotas db from to)"
    | (m) "res = Inr (merged_db from to db, quotaCollisionCount db from to,
      quotas_of db from - quotaCollisionCount db from to, live_rows db from, int (length (events_of db from)))"
    using assms [symmetric] n
    by (auto simp: merge_tables_def Let_def case_prod_beta q merged_db_def moved_events_def live_rows_def
        quotaCollisionCount_def events_of_def sql_count_def split: if_splits)
  then show thesis
  proof cases
    case t
    with moved_quotas_uniq [of db "from" to] show thesis by (intro taken) auto
  qed (auto intro: failed merged)
qed

text \<open>What a plan says.\<close>

lemma planDeviceMerge_Inr:
  assumes "planDeviceMerge c fails m from to = Inr plan"
  shows "from \<noteq> [] \<and> to \<noteq> [] \<and> from \<noteq> to \<and> deviceIdentityExists (md_db m) from \<and> deviceIdentityExists (md_db m) to \<and>
    mp_events_moved plan = int (length (events_of (md_db m) from)) \<and>
    mp_quota_dropped plan = quotaCollisionCount (md_db m) from to \<and>
    mp_quota_moved plan = quotas_of (md_db m) from - quotaCollisionCount (md_db m) from to \<and>
    mp_live_rows_dropped plan = live_rows (md_db m) from \<and> (\<exists>l. deviceLabels c (md_settings m) = Inr l)"
  using assms
  by (auto simp: planDeviceMerge_def deviceIdentityStats_def Let_def live_rows_def quotas_of_def
      split: if_splits sum.splits option.splits)

definition merge_audit :: "string \<Rightarrow> string \<Rightarrow> string \<Rightarrow> int \<Rightarrow> merge_plan \<Rightarrow> merge_record" where
  "merge_audit from to actor now plan = \<lparr>mr_from = from, mr_to = to, mr_at = now, mr_actor = actor,
     mr_events = mp_events_moved plan, mr_quota_snapshots = mp_quota_moved plan,
     mr_quota_dropped = mp_quota_dropped plan, mr_live_rows_dropped = mp_live_rows_dropped plan\<rparr>"

text \<open>The ways a merge ends.\<close>

lemma MergeDeviceIdentity_cases:
  assumes "MergeDeviceIdentity lc hc fails from to actor now m = (m', res)"
  obtains (failed) err where "res = Inl err" "m' = m" "err \<noteq> PlanMismatch"
      "err = QuotaKeyTaken \<longrightarrow> \<not> qt.uniq (hd_quotas (md_db m))"
  | (merged) plan t1 t2 where "res = Inr plan" "planDeviceMerge lc fails m from to = Inr plan"
      "mergeDeviceLabel lc fails from to (md_settings m) = Inr t1"
      "appendDeviceMergeRecord hc fails (merge_audit from to actor now plan) t1 = Inr t2"
      "m' = \<lparr>md_db = merged_db from to (md_db m), md_settings = t2\<rparr>"
proof (cases "planDeviceMerge lc fails m from to")
  case (Inl err)
  then have "err \<noteq> PlanMismatch" "err \<noteq> QuotaKeyTaken"
    by (auto simp: planDeviceMerge_def deviceIdentityStats_def deviceLabels_def Let_def
        split: if_splits sum.splits option.splits)
  moreover consider st where "res = Inl (MergeIO st)" "m' = m" | "res = Inl err" "m' = m"
    using Inl assms by (auto simp: MergeDeviceIdentity_def split: if_splits)
  ultimately show ?thesis using failed by cases auto
next
  case plan: (Inr plan)
  note counts = planDeviceMerge_Inr [OF plan]
  obtain tables where tables: "merge_tables fails from to (md_db m) = tables" by simp
  then show ?thesis
  proof (cases rule: merge_tables_cases)
    case (failed st)
    with tables plan assms have "\<exists>st. res = Inl (MergeIO st) \<and> m' = m"
      by (auto simp: MergeDeviceIdentity_def split: if_splits)
    then show ?thesis using that(1) by blast
  next
    case taken
    with tables plan assms have "(\<exists>st. res = Inl (MergeIO st) \<and> m' = m) \<or> res = Inl QuotaKeyTaken \<and> m' = m"
      by (auto simp: MergeDeviceIdentity_def split: if_splits)
    then show ?thesis using that(1) taken(2) by blast
  next
    case merged
    show ?thesis
    proof (cases res)
      case (Inr p)
      with assms plan merged tables counts have "p = plan \<and>
          (\<exists>t1 t2. mergeDeviceLabel lc fails from to (md_settings m) = Inr t1 \<and>
             appendDeviceMergeRecord hc fails (merge_audit from to actor now plan) t1 = Inr t2 \<and>
             m' = \<lparr>md_db = merged_db from to (md_db m), md_settings = t2\<rparr>)"
        by (auto simp: MergeDeviceIdentity_def merge_audit_def split: if_splits sum.splits)
      with Inr plan show ?thesis using that(2) by blast
    next
      case (Inl err)
      moreover have "m' = m \<and> err \<noteq> PlanMismatch \<and> err \<noteq> QuotaKeyTaken"
        using assms Inl plan merged tables counts
        by (auto simp: MergeDeviceIdentity_def mergeDeviceLabel_def appendDeviceMergeRecord_def deviceLabels_def
            deviceMergeHistory_def Let_def split: if_splits sum.splits option.splits)
      ultimately show ?thesis by (intro that(1)) auto
    qed
  qed
qed

section \<open>The audit log\<close>

lemma settingValue_set [simp]:
  "settingValue (set_setting k v t) k' = (if k' = k then v else settingValue t k')"
  by (simp add: settingValue_def set_setting_def update_conv')

text \<open>What is needed of the JSON codec: the document that is written is read back.\<close>

definition codec_at :: "'a codec \<Rightarrow> 'a \<Rightarrow> bool" where
  "codec_at c x \<longleftrightarrow> dec c (enc c x) = Some x \<and> enc c x \<noteq> []"

lemma mergeDeviceLabel_history:
  "mergeDeviceLabel lc fails from to t = Inr t1 \<Longrightarrow> deviceMergeHistory hc t1 = deviceMergeHistory hc t"
  by (auto simp: mergeDeviceLabel_def deviceMergeHistory_def Let_def DeviceLabelsKey_def DeviceMergesKey_def
      split: if_splits sum.splits option.splits)

lemma appendDeviceMergeRecord_history:
  assumes "appendDeviceMergeRecord hc fails r t = Inr t2" "deviceMergeHistory hc t = Inr h" "codec_at hc (h @ [r])"
  shows "deviceMergeHistory hc t2 = Inr (h @ [r])"
proof -
  have "t2 = set_setting DeviceMergesKey (enc hc (h @ [r])) t"
    using assms(1,2) by (auto simp: appendDeviceMergeRecord_def split: if_splits)
  then show ?thesis using assms(3) by (simp add: deviceMergeHistory_def codec_at_def Let_def)
qed

section \<open>Properties\<close>

text \<open>
  C15. A merge moves attribution and nothing else. A failed one changes nothing. After a successful
  one every event row is the row it was except that \<open>from\<close> reads \<open>to\<close> in the device column; the
  quota snapshots are those of other devices and of \<open>from\<close> under the new name, where the target's own
  observation of the same key wins; receipts are untouched, and nothing is filed under \<open>from\<close> any more.
\<close>

theorem merge_moves_attribution_only:
  assumes "MergeDeviceIdentity lc hc fails from to actor now m = (m', res)"
  shows "case res of Inl err \<Rightarrow> m' = m
    | Inr plan \<Rightarrow>
        hd_events (md_db m') = map (\<lambda>r. if ev_device r = from then r\<lparr>ev_device := to\<rparr> else r) (hd_events (md_db m)) \<and>
        set (hd_quotas (md_db m')) = {q \<in> set (hd_quotas (md_db m)). q_device q \<noteq> from} \<union>
          move_quota to ` {q \<in> set (hd_quotas (md_db m)). q_device q = from \<and> \<not> quota_taken (md_db m) to q} \<and>
        hd_receipts (md_db m') = hd_receipts (md_db m) \<and> \<not> deviceIdentityExists (md_db m') from"
  using assms
proof (cases rule: MergeDeviceIdentity_cases)
  case (failed err)
  then show ?thesis by simp
next
  case (merged plan t1 t2)
  have "from \<noteq> to" using planDeviceMerge_Inr [OF merged(2)] by simp
  then have "\<not> deviceIdentityExists (merged_db from to (md_db m)) from"
    by (auto simp: deviceIdentityExists_def merged_db_def moved_events_def moved_quotas_def list_ex_iff
        split: if_splits)
  moreover have "set (moved_quotas (md_db m) from to) = {q \<in> set (hd_quotas (md_db m)). q_device q \<noteq> from} \<union>
      move_quota to ` {q \<in> set (hd_quotas (md_db m)). q_device q = from \<and> \<not> quota_taken (md_db m) to q}"
    unfolding moved_quotas_def by (auto simp: image_iff split: if_splits) 
  ultimately show ?thesis using merged by (simp add: merged_db_def moved_events_def)
qed

definition copied_row :: "string \<Rightarrow> string \<Rightarrow> event_row" where
  "copied_row i d = row_of (zero_event\<lparr>ev_event_id := i, ev_device := d, ev_output_tokens := 7\<rparr>) ''self'' 1"

definition merge_wit :: merge_db where
  "merge_wit = \<lparr>md_db = \<lparr>hd_events = [copied_row ''1'' ''a'', copied_row ''2'' ''b''], hd_quotas = [], hd_sessions = [],
     hd_reports = [], hd_receipts = []\<rparr>, md_settings = []\<rparr>"

definition merge_stats :: "string \<Rightarrow> identity_stats" where
  "merge_stats d = \<lparr>is_device = d, is_events = 1, is_total_tokens = 7, is_first_ts = 0, is_last_ts = 0,
     is_quota_snapshots = 0, is_live_rows = 0\<rparr>"

definition merge_wit_plan :: merge_plan where
  "merge_wit_plan = \<lparr>mp_from = merge_stats ''a'', mp_to = merge_stats ''b'', mp_events_moved = 1, mp_quota_moved = 0,
     mp_quota_dropped = 0, mp_live_rows_dropped = 0, mp_label_moved = False\<rparr>"

definition wit_labels :: "labels codec" where
  "wit_labels = \<lparr>enc = (\<lambda>l. ''{}''), dec = (\<lambda>s. Some [])\<rparr>"

definition wit_history :: "merge_record list codec" where
  "wit_history = \<lparr>enc = (\<lambda>h. ''log''), dec = (\<lambda>s. Some [merge_audit ''a'' ''b'' ''me'' 9 merge_wit_plan])\<rparr>"

definition no_merge_faults :: "merge_step \<Rightarrow> bool" where "no_merge_faults st = False"

lemma wit_plan: "planDeviceMerge wit_labels no_merge_faults merge_wit ''a'' ''b'' = Inr merge_wit_plan"
  by (simp add: planDeviceMerge_def merge_wit_def copied_row_def row_of_def zero_event_def no_merge_faults_def
      deviceIdentityExists_def deviceIdentityStats_def events_of_def token_sum_def row_tokens_def is_i64_def
      sql_count_def deviceLabels_def settingValue_def quotaCollisionCount_def merge_wit_plan_def merge_stats_def)

lemma wit_tables: "merge_tables no_merge_faults ''a'' ''b'' (md_db merge_wit) =
    Inr ((md_db merge_wit)\<lparr>hd_events := [copied_row ''1'' ''b'', copied_row ''2'' ''b'']\<rparr>, 0, 0, 0, 1)"
  by (simp add: merge_tables_def merge_wit_def copied_row_def row_of_def zero_event_def no_merge_faults_def
      sql_count_def sql_update_def sql_delete_def)

lemma wit_merge:
  "MergeDeviceIdentity wit_labels wit_history no_merge_faults ''a'' ''b'' ''me'' 9 merge_wit =
     (\<lparr>md_db = (md_db merge_wit)\<lparr>hd_events := [copied_row ''1'' ''b'', copied_row ''2'' ''b'']\<rparr>,
        md_settings = [(DeviceMergesKey, ''log'')]\<rparr>, Inr merge_wit_plan)"
  by (simp add: MergeDeviceIdentity_def wit_plan wit_tables)
    (simp add: merge_wit_plan_def merge_wit_def no_merge_faults_def mergeDeviceLabel_def deviceLabels_def
      settingValue_def appendDeviceMergeRecord_def deviceMergeHistory_def set_setting_def wit_history_def)

theorem merge_moves_attribution_only_witness:
  "\<exists>m' plan. MergeDeviceIdentity wit_labels wit_history no_merge_faults ''a'' ''b'' ''me'' 9 merge_wit = (m', Inr plan) \<and>
     \<not> deviceIdentityExists (md_db m') ''a''"
proof -
  obtain m' plan where run: "MergeDeviceIdentity wit_labels wit_history no_merge_faults ''a'' ''b'' ''me'' 9 merge_wit = (m', Inr plan)"
    using wit_merge by blast
  from merge_moves_attribution_only [OF run] run show ?thesis by auto
qed

section \<open>The plan and what was done\<close>

text \<open>The labels after a merge: the source's goes, to the target where that has none.\<close>

definition merged_labels :: "string \<Rightarrow> string \<Rightarrow> labels \<Rightarrow> labels" where
  "merged_labels from to l =
     (case map_of l from of
        None \<Rightarrow> l
      | Some label \<Rightarrow>
          let l1 = AList.delete from l in if map_of l1 to = None then AList.update to label l1 else l1)"

lemma mergeDeviceLabel_labels:
  assumes "mergeDeviceLabel lc fails from to t = Inr t1" "deviceLabels lc t = Inr l" "codec_at lc (merged_labels from to l)"
  shows "deviceLabels lc t1 = Inr (merged_labels from to l)"
proof (cases "map_of l from")
  case None
  then show ?thesis using assms(1,2) by (auto simp: mergeDeviceLabel_def merged_labels_def split: if_splits)
next
  case (Some label)
  then have "t1 = set_setting DeviceLabelsKey (enc lc (merged_labels from to l)) t"
    using assms(1,2) by (auto simp: mergeDeviceLabel_def merged_labels_def Let_def split: if_splits)
  then show ?thesis using assms(3) by (simp add: deviceLabels_def codec_at_def Let_def)
qed

lemma appendDeviceMergeRecord_labels:
  "appendDeviceMergeRecord hc fails r t = Inr t2 \<Longrightarrow> deviceLabels lc t2 = deviceLabels lc t"
  by (auto simp: appendDeviceMergeRecord_def deviceLabels_def Let_def DeviceLabelsKey_def DeviceMergesKey_def split: if_splits sum.splits)

lemma merged_labels_of:
  "from \<noteq> to \<Longrightarrow> map_of (merged_labels from to l) = (map_of l)(from := None, to := (if map_of l to = None then map_of l from else map_of l to))"
  by (auto simp: merged_labels_def Let_def update_conv' delete_conv' fun_eq_iff split: option.split)

lemma plan_label: "planDeviceMerge c fails m from to = Inr plan \<Longrightarrow> deviceLabels c (md_settings m) = Inr l \<Longrightarrow>
    mp_label_moved plan = (map_of l from \<noteq> None \<and> map_of l to = None)"
  by (auto simp: planDeviceMerge_def Let_def split: if_splits sum.splits)

definition count_of :: "('a \<Rightarrow> string) \<Rightarrow> string \<Rightarrow> 'a list \<Rightarrow> int" where
  "count_of device d rows = int (sql_count (\<lambda>r. device r = d) rows)"

text \<open>
  What a plan says of the database before and after: the rows that come to the target, those that are dropped, and the
  label that is carried over.
\<close>

definition plan_fulfilled :: "labels codec \<Rightarrow> string \<Rightarrow> string \<Rightarrow> merge_plan \<Rightarrow> merge_db \<Rightarrow> merge_db \<Rightarrow> bool" where
  "plan_fulfilled lc from to plan m m' \<longleftrightarrow>
     (let db = md_db m; db' = md_db m'
      in count_of ev_device to (hd_events db') = count_of ev_device to (hd_events db) + mp_events_moved plan \<and>
         count_of ev_device from (hd_events db) = mp_events_moved plan \<and> length (hd_events db') = length (hd_events db) \<and>
         count_of q_device to (hd_quotas db') = count_of q_device to (hd_quotas db) + mp_quota_moved plan \<and>
         int (length (hd_quotas db')) = int (length (hd_quotas db)) - mp_quota_dropped plan \<and>
         int (length (hd_sessions db') + length (hd_reports db')) =
           int (length (hd_sessions db) + length (hd_reports db)) - mp_live_rows_dropped plan \<and>
         (\<exists>l l'. deviceLabels lc (md_settings m) = Inr l \<and> deviceLabels lc (md_settings m') = Inr l' \<and>
            map_of l' = (map_of l)(from := None, to := (if mp_label_moved plan then map_of l from else map_of l to))))"

lemma length_filter_out: "int (length (filter (\<lambda>x. \<not> P x) t)) = int (length t) - int (sql_count P t)"
  using sum_length_filter_compl [of P t] by (simp add: sql_count_def)

lemma count_moved: "from \<noteq> to \<Longrightarrow> count_of ev_device to (moved_events from to rs) = count_of ev_device to rs + count_of ev_device from rs"
  by (induction rs) (auto simp: count_of_def moved_events_def sql_count_def)

lemma count_renamed:
  assumes "from \<noteq> to"
  shows "count_of q_device to (map (\<lambda>q. if q_device q = from then move_quota to q else q) qs) = count_of q_device to qs + count_of q_device from qs"
  using assms by (induction qs) (auto simp: count_of_def sql_count_def)

lemma merged_db_counts:
  assumes "from \<noteq> to"
  shows "count_of q_device to (moved_quotas db from to) = count_of q_device to (hd_quotas db) + (quotas_of db from - quotaCollisionCount db from to)"
    and "int (length (moved_quotas db from to)) = int (length (hd_quotas db)) - quotaCollisionCount db from to"
    and "int (length (filter (\<lambda>s. ls_device s \<noteq> from) (hd_sessions db)) + length (filter (\<lambda>r. lr_device r \<noteq> from) (hd_reports db))) =
      int (length (hd_sessions db) + length (hd_reports db)) - live_rows db from"
proof -
  let ?kept = "filter (\<lambda>q. \<not> (q_device q = from \<and> quota_taken db to q)) (hd_quotas db)"
  have "filter (\<lambda>q. q_device q = to) ?kept = filter (\<lambda>q. q_device q = to) (hd_quotas db)"
    unfolding filter_filter by (rule filter_cong) (use assms in auto)
  then have "count_of q_device to ?kept = count_of q_device to (hd_quotas db)" by (simp add: count_of_def sql_count_def)
  moreover have "count_of q_device from ?kept = quotas_of db from - quotaCollisionCount db from to"
    unfolding count_of_def by (rule moved_quota_count)
  ultimately show "count_of q_device to (moved_quotas db from to) =
      count_of q_device to (hd_quotas db) + (quotas_of db from - quotaCollisionCount db from to)"
    unfolding moved_quotas_def count_renamed [OF assms] by simp
  show "int (length (moved_quotas db from to)) = int (length (hd_quotas db)) - quotaCollisionCount db from to"
    by (simp add: moved_quotas_def quotaCollisionCount_def length_filter_out del: de_Morgan_conj)
  show "int (length (filter (\<lambda>s. ls_device s \<noteq> from) (hd_sessions db)) + length (filter (\<lambda>r. lr_device r \<noteq> from) (hd_reports db))) =
      int (length (hd_sessions db) + length (hd_reports db)) - live_rows db from"
    using length_filter_out [of "\<lambda>s. ls_device s = from" "hd_sessions db"] length_filter_out [of "\<lambda>r. lr_device r = from" "hd_reports db"]
    by (simp add: live_rows_def)
qed

lemma merge_fulfils_plan:
  assumes "planDeviceMerge lc fails m from to = Inr plan" "mergeDeviceLabel lc fails from to (md_settings m) = Inr t1"
    and "appendDeviceMergeRecord hc fails r t1 = Inr t2"
    and "\<forall>l. deviceLabels lc (md_settings m) = Inr l \<longrightarrow> codec_at lc (merged_labels from to l)"
  shows "plan_fulfilled lc from to plan m \<lparr>md_db = merged_db from to (md_db m), md_settings = t2\<rparr>"
proof -
  note counts = planDeviceMerge_Inr [OF assms(1)]
  then have ne: "from \<noteq> to" by blast
  obtain l where l: "deviceLabels lc (md_settings m) = Inr l" using counts by blast
  have "deviceLabels lc t2 = Inr (merged_labels from to l)"
    using appendDeviceMergeRecord_labels [OF assms(3)] mergeDeviceLabel_labels [OF assms(2) l] assms(4) l by simp
  moreover have "map_of (merged_labels from to l) =
      (map_of l)(from := None, to := (if mp_label_moved plan then map_of l from else map_of l to))"
    unfolding merged_labels_of [OF ne] plan_label [OF assms(1) l] by (auto simp: fun_eq_iff)
  moreover have "count_of ev_device from (hd_events (md_db m)) = mp_events_moved plan"
    using counts by (simp add: count_of_def events_of_def sql_count_def)
  moreover have "length (moved_events from to (hd_events (md_db m))) = length (hd_events (md_db m))" by (simp add: moved_events_def)
  ultimately show ?thesis
    using counts l merged_db_counts [OF ne, of "md_db m"] count_moved [OF ne] unfolding plan_fulfilled_def Let_def
    by (simp add: merged_db_def)
qed

text \<open>
  C16. The preview is the merge: with no driver fault, on a table that satisfies its key, with a readable audit log and documents that
  are read back as they are written, a merge succeeds or fails exactly as its preview does, with the same plan. A
  successful one does what the plan says: so many event rows and snapshots more are the target's, so many duplicate snapshots and
  live rows are gone, the source's label is gone, carried to the target exactly where the plan said, and every other label stands; and it appends one
  record with the planned counts to the audit log. So the source's own check of the counts never fails.
\<close>

theorem merge_does_what_the_preview_said:
  assumes "\<forall>st. \<not> fails st" "qt.uniq (hd_quotas (md_db m))" "DeviceMergeHistory hc m = Inr h"
    and "\<forall>plan. PlanDeviceMerge lc fails m from to = Inr plan \<longrightarrow> codec_at hc (h @ [merge_audit from to actor now plan])"
    and "\<forall>l. deviceLabels lc (md_settings m) = Inr l \<longrightarrow> codec_at lc (merged_labels from to l)"
  shows "snd (MergeDeviceIdentity lc hc fails from to actor now m) = PlanDeviceMerge lc fails m from to \<and>
    (case PlanDeviceMerge lc fails m from to of Inl err \<Rightarrow> True
     | Inr plan \<Rightarrow>
         DeviceMergeHistory hc (fst (MergeDeviceIdentity lc hc fails from to actor now m)) = Inr (h @ [merge_audit from to actor now plan]) \<and>
         plan_fulfilled lc from to plan m (fst (MergeDeviceIdentity lc hc fails from to actor now m)))"
proof (cases "PlanDeviceMerge lc fails m from to")
  case (Inl err)
  then show ?thesis using assms(1) by (simp add: PlanDeviceMerge_def MergeDeviceIdentity_def)
next
  case (Inr plan)
  then have plan: "planDeviceMerge lc fails m from to = Inr plan" using assms(1) by (simp add: PlanDeviceMerge_def)
  obtain m' res where run: "MergeDeviceIdentity lc hc fails from to actor now m = (m', res)" by fastforce
  then have "res = Inr plan \<and> DeviceMergeHistory hc m' = Inr (h @ [merge_audit from to actor now plan]) \<and> plan_fulfilled lc from to plan m m'"
  proof (cases rule: MergeDeviceIdentity_cases)
    case (failed err)
    obtain l where labels: "deviceLabels lc (md_settings m) = Inr l" using planDeviceMerge_Inr [OF plan] by blast
    obtain t1 where t1: "mergeDeviceLabel lc fails from to (md_settings m) = Inr t1"
      using labels assms(1) by (cases "map_of l from") (auto simp: mergeDeviceLabel_def Let_def)
    then have "deviceMergeHistory hc t1 = Inr h"
      using assms(3) mergeDeviceLabel_history by (metis DeviceMergeHistory_def)
    then have "\<exists>t2. appendDeviceMergeRecord hc fails (merge_audit from to actor now plan) t1 = Inr t2"
      using assms(1) by (simp add: appendDeviceMergeRecord_def)
    with run failed plan t1 assms(1) have False
      using planDeviceMerge_Inr [OF plan]
      by (cases rule: merge_tables_cases [of fails "from" to "md_db m", OF refl])
        (auto simp: MergeDeviceIdentity_def merge_audit_def assms(2))
    then show ?thesis ..
  next
    case (merged p t1 t2)
    then have "p = plan" using plan by simp
    moreover have "deviceMergeHistory hc t1 = Inr h"
      using assms(3) mergeDeviceLabel_history [OF merged(3)] by (simp add: DeviceMergeHistory_def)
    moreover have "codec_at hc (h @ [merge_audit from to actor now plan])" using assms(4) Inr by blast
    moreover have "plan_fulfilled lc from to plan m m'"
      unfolding merged(5) by (rule merge_fulfils_plan [OF plan merged(3,4) assms(5)])
    ultimately show ?thesis
      using appendDeviceMergeRecord_history [OF merged(4)] merged by (simp add: DeviceMergeHistory_def)
  qed
  with run Inr show ?thesis by simp
qed

text \<open>A merge that carries a label over.\<close>

definition label_wit :: merge_db where
  "label_wit = merge_wit\<lparr>md_settings := [(DeviceLabelsKey, ''L'')]\<rparr>"

definition label_codec :: "labels codec" where
  "label_codec = \<lparr>enc = (\<lambda>l. if l = [(''b'', ''A'')] then ''M'' else ''N''),
     dec = (\<lambda>s. if s = ''L'' then Some [(''a'', ''A'')] else if s = ''M'' then Some [(''b'', ''A'')] else None)\<rparr>"

definition label_plan :: merge_plan where
  "label_plan = merge_wit_plan\<lparr>mp_label_moved := True\<rparr>"

definition label_history :: "merge_record list codec" where
  "label_history = \<lparr>enc = (\<lambda>h. ''log''), dec = (\<lambda>s. Some [merge_audit ''a'' ''b'' ''me'' 9 label_plan])\<rparr>"

lemma label_wit_plan: "PlanDeviceMerge label_codec no_merge_faults label_wit ''a'' ''b'' = Inr label_plan"
  by (simp add: PlanDeviceMerge_def planDeviceMerge_def label_wit_def merge_wit_def copied_row_def row_of_def zero_event_def no_merge_faults_def
      deviceIdentityExists_def deviceIdentityStats_def events_of_def token_sum_def row_tokens_def is_i64_def
      sql_count_def deviceLabels_def settingValue_def quotaCollisionCount_def label_plan_def merge_wit_plan_def merge_stats_def label_codec_def)

theorem merge_does_what_the_preview_said_witness:
  "snd (MergeDeviceIdentity label_codec label_history no_merge_faults ''a'' ''b'' ''me'' 9 label_wit) = Inr label_plan \<and>
   (\<exists>l. deviceLabels label_codec (md_settings (fst (MergeDeviceIdentity label_codec label_history no_merge_faults ''a'' ''b'' ''me'' 9 label_wit))) = Inr l \<and>
     map_of l ''b'' = Some ''A'' \<and> map_of l ''a'' = None)"
proof -
  have labels: "deviceLabels label_codec (md_settings label_wit) = Inr [(''a'', ''A'')]"
    by (simp add: deviceLabels_def label_wit_def settingValue_def label_codec_def)
  have merged: "merged_labels ''a'' ''b'' [(''a'', ''A'')] = [(''b'', ''A'')]" by code_simp
  have "qt.uniq (hd_quotas (md_db label_wit))" "DeviceMergeHistory label_history label_wit = Inr []"
    by (simp_all add: label_wit_def merge_wit_def DeviceMergeHistory_def deviceMergeHistory_def settingValue_def DeviceMergesKey_def DeviceLabelsKey_def)
  from merge_does_what_the_preview_said [OF _ this, of no_merge_faults label_codec "''a''" "''b''" "''me''" 9] labels merged
  show ?thesis
    by (simp add: label_wit_plan no_merge_faults_def) (auto simp: codec_at_def label_history_def label_codec_def plan_fulfilled_def Let_def label_plan_def)
qed

end
