(* ===== verification/Collect_State.thy ===== *)
theory Collect_State
  imports Event_Model Go_Strconv
begin

text \<open>
  \<open>internal/collect/state.go\<close> and the parser contract of \<open>internal/model/parse.go\<close>: the scan
  cursor of every log file, in memory and on disk. \<open>saveLocked\<close> replaces the file atomically or
  fails; every operation takes whether it succeeds (\<open>ok\<close>). A Go map is a map; a lookup of a missing
  key reads the zero value, as in the source.
\<close>

record parse_result =
  res_events :: "event list"
  res_quotas :: "quota_snapshot list"
  res_consumed :: int
  res_turn_start :: int

record in_flight_scan =
  if_start :: int
  if_end :: int
  if_turn_start :: int
  if_delivered :: "string \<Rightarrow> bool"

record scan_state =
  st_files :: "string \<Rightarrow> int option"
  st_repo_by_cwd :: "string \<Rightarrow> string option"
  st_turn_start :: "string \<Rightarrow> int option"
  st_in_flight :: "string \<Rightarrow> in_flight_scan option"
  st_chunks :: "string \<Rightarrow> (nat \<Rightarrow> string option) option"

text \<open>The state in memory and the one the file holds (\<open>None\<close>: absent or corrupt).\<close>

record scan_store =
  sv_mem :: scan_state
  sv_disk :: "scan_state option"

definition newState :: scan_state where
  "newState = \<lparr>st_files = Map.empty, st_repo_by_cwd = Map.empty, st_turn_start = Map.empty,
     st_in_flight = Map.empty, st_chunks = Map.empty\<rparr>"

text \<open>The entries \<open>LoadState\<close> keeps of \<open>InFlight\<close>.\<close>

definition sound_scan :: "string \<Rightarrow> in_flight_scan \<Rightarrow> bool" where
  "sound_scan file scan \<longleftrightarrow> \<not> (file = [] \<or> if_start scan < 0 \<or> if_end scan < if_start scan)"

definition LoadState :: "scan_state option \<Rightarrow> scan_state" where
  "LoadState disk =
     (case disk of
        None \<Rightarrow> newState
      | Some s \<Rightarrow> s\<lparr>st_in_flight := (\<lambda>file. case st_in_flight s file of
            None \<Rightarrow> None | Some scan \<Rightarrow> if sound_scan file scan then Some scan else None)\<rparr>)"

definition saveLocked :: "bool \<Rightarrow> scan_store \<Rightarrow> scan_store" where
  "saveLocked ok v = (if ok then v\<lparr>sv_disk := Some (sv_mem v)\<rparr> else v)"

section \<open>Reading\<close>

definition Offset :: "scan_state \<Rightarrow> string \<Rightarrow> int" where
  "Offset s file = (case st_files s file of None \<Rightarrow> 0 | Some n \<Rightarrow> n)"

definition TurnStartFor :: "scan_state \<Rightarrow> string \<Rightarrow> int" where
  "TurnStartFor s file = (case st_turn_start s file of None \<Rightarrow> 0 | Some n \<Rightarrow> n)"

definition InFlightFor :: "scan_state \<Rightarrow> string \<Rightarrow> in_flight_scan option" where
  "InFlightFor s file = st_in_flight s file"

definition DeliveryDone :: "scan_state \<Rightarrow> string \<Rightarrow> string \<Rightarrow> bool" where
  "DeliveryDone s file key = (case st_in_flight s file of None \<Rightarrow> False | Some scan \<Rightarrow> if_delivered scan key)"

definition ChunkDelivered :: "scan_state \<Rightarrow> string \<Rightarrow> nat \<Rightarrow> string \<Rightarrow> bool" where
  "ChunkDelivered s file ordinal key \<longleftrightarrow>
     (case st_chunks s file of None \<Rightarrow> []
      | Some m \<Rightarrow> (case m ordinal of None \<Rightarrow> [] | Some k \<Rightarrow> k)) = key"

section \<open>Writing\<close>

definition ResetOffsets :: "bool \<Rightarrow> scan_store \<Rightarrow> scan_store \<times> bool" where
  "ResetOffsets ok v =
     (let old = sv_mem v;
          v1 = saveLocked ok (v\<lparr>sv_mem := old\<lparr>st_files := Map.empty, st_turn_start := Map.empty,
                 st_in_flight := Map.empty, st_chunks := Map.empty\<rparr>\<rparr>)
      in if ok then (v1, True)
         else (v1\<lparr>sv_mem := (sv_mem v1)\<lparr>st_files := st_files old, st_turn_start := st_turn_start old,
                 st_in_flight := st_in_flight old, st_chunks := st_chunks old\<rparr>\<rparr>, False))"

definition BeginScan :: "bool \<Rightarrow> string \<Rightarrow> int \<Rightarrow> int \<Rightarrow> int \<Rightarrow> scan_store \<Rightarrow> scan_store \<times> bool" where
  "BeginScan ok file start end1 turnStart v =
     (let s = sv_mem v
      in if st_in_flight s file \<noteq> None then (v, True)
         else
           let scan = \<lparr>if_start = start, if_end = end1, if_turn_start = turnStart, if_delivered = (\<lambda>_. False)\<rparr>;
               v1 = saveLocked ok (v\<lparr>sv_mem := s\<lparr>st_in_flight := (st_in_flight s)(file \<mapsto> scan)\<rparr>\<rparr>)
           in if ok then (v1, True)
              else (v1\<lparr>sv_mem := (sv_mem v1)\<lparr>st_in_flight := (st_in_flight (sv_mem v1))(file := None)\<rparr>\<rparr>, False))"

text \<open>\<open>None\<close> is success; a missing in-flight scan is \<open>os.ErrInvalid\<close>.\<close>

datatype state_error = ErrInvalid | SaveFailed

definition MarkDeliveryDone :: "bool \<Rightarrow> string \<Rightarrow> string \<Rightarrow> scan_store \<Rightarrow> scan_store \<times> state_error option" where
  "MarkDeliveryDone ok file key v =
     (let s = sv_mem v
      in (case st_in_flight s file of
            None \<Rightarrow> (v, Some ErrInvalid)
          | Some scan \<Rightarrow>
              if if_delivered scan key then (v, None)
              else
                let scan1 = scan\<lparr>if_delivered := (if_delivered scan)(key := True)\<rparr>;
                    v1 = saveLocked ok (v\<lparr>sv_mem := s\<lparr>st_in_flight := (st_in_flight s)(file \<mapsto> scan1)\<rparr>\<rparr>)
                in if ok then (v1, None)
                   else (v1\<lparr>sv_mem := (sv_mem v1)\<lparr>st_in_flight := (st_in_flight (sv_mem v1))
                           (file \<mapsto> scan1\<lparr>if_delivered := if_delivered scan\<rparr>)\<rparr>\<rparr>, Some SaveFailed)))"

definition restore_key :: "'a option \<Rightarrow> string \<Rightarrow> (string \<Rightarrow> 'a option) \<Rightarrow> string \<Rightarrow> 'a option" where
  "restore_key old file m = (case old of None \<Rightarrow> m | Some x \<Rightarrow> m(file \<mapsto> x))"

definition DiscardScan :: "bool \<Rightarrow> string \<Rightarrow> scan_store \<Rightarrow> scan_store \<times> bool" where
  "DiscardScan ok file v =
     (let s = sv_mem v; scan = st_in_flight s file; chunks = st_chunks s file
      in if scan = None \<and> chunks = None then (v, True)
         else
           let v1 = saveLocked ok (v\<lparr>sv_mem := s\<lparr>st_in_flight := (st_in_flight s)(file := None),
                      st_chunks := (st_chunks s)(file := None)\<rparr>\<rparr>)
           in if ok then (v1, True)
              else (v1\<lparr>sv_mem := (sv_mem v1)\<lparr>
                      st_in_flight := restore_key scan file (st_in_flight (sv_mem v1)),
                      st_chunks := restore_key chunks file (st_chunks (sv_mem v1))\<rparr>\<rparr>, False))"

text \<open>The value \<open>chunks\<close> is \<open>nil\<close> for a scan that leaves the chunk keys alone.\<close>

definition Commit :: "bool \<Rightarrow> string \<Rightarrow> int \<Rightarrow> int \<Rightarrow> (nat \<Rightarrow> string option) option \<Rightarrow> scan_store \<Rightarrow>
    scan_store \<times> bool" where
  "Commit ok file offset turnStart chunks v =
     (let s = sv_mem v;
          s1 = s\<lparr>st_files := (st_files s)(file \<mapsto> offset),
                 st_turn_start := (if turnStart > 0 then (st_turn_start s)(file \<mapsto> turnStart) else st_turn_start s),
                 st_in_flight := (st_in_flight s)(file := None),
                 st_chunks := (case chunks of None \<Rightarrow> st_chunks s | Some c \<Rightarrow> (st_chunks s)(file \<mapsto> c))\<rparr>;
          v1 = saveLocked ok (v\<lparr>sv_mem := s1\<rparr>);
          m1 = sv_mem v1
      in if ok then (v1, True)
         else (v1\<lparr>sv_mem := m1\<lparr>
                 st_files := (case st_files s file of Some n \<Rightarrow> (st_files m1)(file \<mapsto> n)
                              | None \<Rightarrow> (st_files m1)(file := None)),
                 st_turn_start := (case st_turn_start s file of Some n \<Rightarrow> (st_turn_start m1)(file \<mapsto> n)
                              | None \<Rightarrow> (st_turn_start m1)(file := None)),
                 st_in_flight := restore_key (st_in_flight s file) file (st_in_flight m1),
                 st_chunks := (if chunks \<noteq> None then
                     (case st_chunks s file of Some c \<Rightarrow> (st_chunks m1)(file \<mapsto> c)
                      | None \<Rightarrow> (st_chunks m1)(file := None)) else st_chunks m1)\<rparr>\<rparr>, False))"

definition RepoFor :: "bool \<Rightarrow> string \<Rightarrow> string \<Rightarrow> (string \<Rightarrow> string) \<Rightarrow> scan_store \<Rightarrow> scan_store \<times> string" where
  "RepoFor ok device cwd resolve v =
     (let key = device @ ''|'' @ cwd; s = sv_mem v
      in (case st_repo_by_cwd s key of
            Some repo \<Rightarrow> (v, repo)
          | None \<Rightarrow>
              let repo = resolve cwd
              in (saveLocked ok (v\<lparr>sv_mem := s\<lparr>st_repo_by_cwd := (st_repo_by_cwd s)(key \<mapsto> repo)\<rparr>\<rparr>), repo)))"

section \<open>A failed save changes nothing\<close>

lemma saveLocked_mem [simp]: "sv_mem (saveLocked ok v) = sv_mem v"
  by (simp add: saveLocked_def)

lemma saveLocked_disk: "sv_disk (saveLocked ok v) = (if ok then Some (sv_mem v) else sv_disk v)"
  by (simp add: saveLocked_def)

lemma restore_key_same: "restore_key (m file) file (m(file := None)) = m"
  by (auto simp: restore_key_def fun_eq_iff split: option.splits)

lemma upd_same: "m file = Some x \<Longrightarrow> m(file \<mapsto> x) = m" "m file = None \<Longrightarrow> m(file := None) = m"
  by (auto simp: fun_eq_iff)

lemma BeginScan_failed: "BeginScan ok file a b t v = (v', False) \<Longrightarrow> v' = v"
  by (cases v) (auto simp: BeginScan_def Let_def saveLocked_def upd_same split: if_splits)

lemma DiscardScan_failed: "DiscardScan ok file v = (v', False) \<Longrightarrow> v' = v"
  by (cases v) (auto simp: DiscardScan_def Let_def saveLocked_def restore_key_same split: if_splits)

lemma MarkDeliveryDone_failed: "MarkDeliveryDone ok file key v = (v', Some e) \<Longrightarrow> v' = v"
  by (cases v) (auto simp: MarkDeliveryDone_def Let_def saveLocked_def upd_same split: if_splits option.splits)

lemma ResetOffsets_failed: "ResetOffsets ok v = (v', False) \<Longrightarrow> v' = v"
  by (cases v) (auto simp: ResetOffsets_def Let_def saveLocked_def split: if_splits)

lemma Commit_failed: "Commit ok file off ts c v = (v', False) \<Longrightarrow> v' = v"
  by (cases v) (auto simp: Commit_def Let_def saveLocked_def upd_same restore_key_same split: if_splits option.splits)

end
