(* ===== verification/Collect_Scan.thy ===== *)
theory Collect_Scan
  imports Collect_State Event_Store
begin

text \<open>
  \<open>internal/collect/scan.go\<close>: one incremental pass over a log file, from \<open>os.Stat\<close> to the commit of
  its cursor, and the pass over all files. What the file system and the sinks do in one pass is the
  record \<open>scan_io\<close>; the sinks' successful calls are logged in \<open>wd_sent\<close> and \<open>wd_quotas\<close>.
  \<open>encoding/json\<close> and \<open>crypto/sha256\<close> are parameters.
\<close>

definition sinkBatch :: nat where "sinkBatch = 2000"

datatype scan_step = ScDiscardTruncated | ScDiscardReplaced | ScBegin | ScSaveRepo nat
  | ScSinkEvents nat | ScMarkEvents nat | ScSinkQuotas | ScMarkQuotas | ScCommit

datatype scan_error = DiscardFailed | BeginFailed | ResumeMismatch | KeyFailed | SinkFailed
  | MarkFailed | QuotaSinkFailed | CommitFailed

text \<open>
  The size \<open>os.Stat\<close> reports (\<open>None\<close>: an error), the bytes the opened file yields (\<open>None\<close>: opening
  or seeking fails), and which saves and sink calls fail.
\<close>

record scan_io =
  io_size :: "int option"
  io_content :: "string option"
  io_fails :: "scan_step \<Rightarrow> bool"

record source_spec =
  sp_parse :: "string \<Rightarrow> string \<Rightarrow> int \<Rightarrow> parse_result"
  sp_full_reparse :: bool

record scan_world =
  wd_store :: scan_store
  wd_sent :: "event list list"
  wd_quotas :: "quota_snapshot list list"

text \<open>What is fixed for a machine: its id, the codecs, the repo resolver, the quota sink, the window.\<close>

record scan_cfg =
  sc_device :: string
  sc_sha256 :: "string \<Rightarrow> 8 word list"
  sc_marshal_events :: "event list \<Rightarrow> string option"
  sc_marshal_quotas :: "quota_snapshot list \<Rightarrow> string option"
  sc_resolve :: "(string \<Rightarrow> string) option"
  sc_quota_sink :: bool
  sc_not_before :: "int option"

definition dropBefore :: "int option \<Rightarrow> event list \<Rightarrow> event list" where
  "dropBefore notBefore events =
     (case notBefore of None \<Rightarrow> events | Some cutoff \<Rightarrow> filter (\<lambda>e. ev_ts e \<ge> cutoff) events)"

definition logicalDeliveryKey :: "(string \<Rightarrow> 8 word list) \<Rightarrow> string \<Rightarrow> nat \<Rightarrow> string option \<Rightarrow> string option" where
  "logicalDeliveryKey sha256 kind ordinal canonical =
     map_option (\<lambda>c. kind @ '':'' @ format_nat ordinal @ '':'' @ hex_encode (sha256 c)) canonical"

definition event_key :: "scan_cfg \<Rightarrow> nat \<Rightarrow> event list \<Rightarrow> string option" where
  "event_key cfg ordinal es = logicalDeliveryKey (sc_sha256 cfg) ''events'' ordinal (sc_marshal_events cfg es)"

definition quota_batch_key :: "scan_cfg \<Rightarrow> quota_snapshot list \<Rightarrow> string option" where
  "quota_batch_key cfg qs = logicalDeliveryKey (sc_sha256 cfg) ''quotas'' 0 (sc_marshal_quotas cfg qs)"

text \<open>The loop that fills in \<open>Repo\<close>.\<close>

fun resolve_repos :: "scan_cfg \<Rightarrow> (scan_step \<Rightarrow> bool) \<Rightarrow> nat \<Rightarrow> event list \<Rightarrow> scan_store \<Rightarrow>
    event list \<times> scan_store" where
  "resolve_repos cfg fails i [] v = ([], v)"
| "resolve_repos cfg fails i (e # es) v =
     (case sc_resolve cfg of
        None \<Rightarrow> (let (rest, v') = resolve_repos cfg fails (i + 1) es v in (e # rest, v'))
      | Some resolve \<Rightarrow>
          if ev_cwd e = [] then (let (rest, v') = resolve_repos cfg fails (i + 1) es v in (e # rest, v'))
          else
            let (v1, repo) = RepoFor (\<not> fails (ScSaveRepo i)) (sc_device cfg) (ev_cwd e) resolve v;
                (rest, v') = resolve_repos cfg fails (i + 1) es v1
            in (e\<lparr>ev_repo := repo\<rparr> # rest, v'))"

text \<open>The delivery loop: the world reached and the keys of all chunks, or the error that ended it.\<close>

fun deliver_events :: "scan_cfg \<Rightarrow> (scan_step \<Rightarrow> bool) \<Rightarrow> string \<Rightarrow> bool \<Rightarrow> nat \<Rightarrow> event list list \<Rightarrow>
    (nat \<Rightarrow> string option) \<Rightarrow> scan_world \<Rightarrow> scan_world \<times> (scan_error + (nat \<Rightarrow> string option))" where
  "deliver_events cfg fails path crossScan ordinal [] keys w = (w, Inr keys)"
| "deliver_events cfg fails path crossScan ordinal (c # cs) keys w =
     (case event_key cfg ordinal c of
        None \<Rightarrow> (w, Inl KeyFailed)
      | Some key \<Rightarrow>
          let keys' = (if crossScan then keys(ordinal \<mapsto> key) else keys);
              mem = sv_mem (wd_store w)
          in if crossScan \<and> ChunkDelivered mem path ordinal key
             then deliver_events cfg fails path crossScan (ordinal + 1) cs keys' w
             else if DeliveryDone mem path key
             then deliver_events cfg fails path crossScan (ordinal + 1) cs keys' w
             else if fails (ScSinkEvents ordinal) then (w, Inl SinkFailed)
             else (case MarkDeliveryDone (\<not> fails (ScMarkEvents ordinal)) path key (wd_store w) of
                 (v', Some err) \<Rightarrow> (w\<lparr>wd_store := v', wd_sent := wd_sent w @ [c]\<rparr>, Inl MarkFailed)
               | (v', None) \<Rightarrow>
                   deliver_events cfg fails path crossScan (ordinal + 1) cs keys'
                     (w\<lparr>wd_store := v', wd_sent := wd_sent w @ [c]\<rparr>)))"

definition deliver_quotas :: "scan_cfg \<Rightarrow> (scan_step \<Rightarrow> bool) \<Rightarrow> string \<Rightarrow> quota_snapshot list \<Rightarrow>
    scan_world \<Rightarrow> scan_world \<times> scan_error option" where
  "deliver_quotas cfg fails path qs w =
     (if \<not> (sc_quota_sink cfg \<and> length qs > 0) then (w, None)
      else (case quota_batch_key cfg qs of
        None \<Rightarrow> (w, Some KeyFailed)
      | Some key \<Rightarrow>
          if DeliveryDone (sv_mem (wd_store w)) path key then (w, None)
          else if fails ScSinkQuotas then (w, Some QuotaSinkFailed)
          else (case MarkDeliveryDone (\<not> fails ScMarkQuotas) path key (wd_store w) of
              (v', Some err) \<Rightarrow> (w\<lparr>wd_store := v', wd_quotas := wd_quotas w @ [qs]\<rparr>, Some MarkFailed)
            | (v', None) \<Rightarrow> (w\<lparr>wd_store := v', wd_quotas := wd_quotas w @ [qs]\<rparr>, None))))"

text \<open>\<open>DiscardScan\<close> when a condition on the file holds.\<close>

definition discard_if :: "bool \<Rightarrow> bool \<Rightarrow> string \<Rightarrow> scan_world \<Rightarrow> scan_world \<times> bool" where
  "discard_if c ok path w =
     (if c then (let (v', saved) = DiscardScan ok path (wd_store w) in (w\<lparr>wd_store := v'\<rparr>, saved)) else (w, True))"

text \<open>From the first delivery to the commit.\<close>

definition deliver_scan :: "scan_cfg \<Rightarrow> (scan_step \<Rightarrow> bool) \<Rightarrow> string \<Rightarrow> bool \<Rightarrow> int \<Rightarrow> int \<Rightarrow>
    parse_result \<Rightarrow> scan_world \<Rightarrow> scan_world \<times> (scan_error + nat)" where
  "deliver_scan cfg fails path crossScan end1 turnStart res w =
     (let (events, v1) = resolve_repos cfg fails 0 (dropBefore (sc_not_before cfg) (res_events res)) (wd_store w)
      in (case deliver_events cfg fails path crossScan 0 (chunks_of sinkBatch events) Map.empty (w\<lparr>wd_store := v1\<rparr>) of
           (w1, Inl err) \<Rightarrow> (w1, Inl err)
         | (w1, Inr keys) \<Rightarrow>
             (case deliver_quotas cfg fails path (res_quotas res) w1 of
                (w2, Some err) \<Rightarrow> (w2, Inl err)
              | (w2, None) \<Rightarrow>
                  let (v3, saved) = Commit (\<not> fails ScCommit) path end1 turnStart
                        (if crossScan then Some keys else None) (wd_store w2)
                  in (w2\<lparr>wd_store := v3\<rparr>, if saved then Inr (length events) else Inl CommitFailed))))"

definition read_section :: "int \<Rightarrow> int \<Rightarrow> string \<Rightarrow> string" where
  "read_section start end1 content = take (nat (end1 - start)) (drop (nat start) content)"

definition scanFile :: "scan_cfg \<Rightarrow> scan_io \<Rightarrow> source_spec \<Rightarrow> string \<Rightarrow> scan_world \<Rightarrow>
    scan_world \<times> (scan_error + nat)" where
  "scanFile cfg io spec path w0 =
     (case io_size io of
        None \<Rightarrow> (w0, Inr 0)
      | Some sz \<Rightarrow>
        let committed = Offset (sv_mem (wd_store w0)) path;
            truncated = sz < committed;
            offset = (if truncated then 0 else committed);
            (w1, ok1) = discard_if truncated (\<not> io_fails io ScDiscardTruncated) path w0
        in if \<not> ok1 then (w1, Inl DiscardFailed)
           else
             let found = InFlightFor (sv_mem (wd_store w1)) path;
                 replaced = (case found of None \<Rightarrow> False | Some scan \<Rightarrow> sz < if_end scan);
                 (w2, ok2) = discard_if replaced (\<not> io_fails io ScDiscardReplaced) path w1
             in if \<not> ok2 then (w2, Inl DiscardFailed)
                else
                  let resume = (if replaced then None else found)
                  in if resume = None \<and> sz = offset then (w2, Inr 0)
                     else
                       let (start, end0) = (case resume of Some scan \<Rightarrow> (if_start scan, if_end scan)
                             | None \<Rightarrow> (if sp_full_reparse spec then 0 else offset, sz))
                       in (case io_content io of
                            None \<Rightarrow> (w2, Inr 0)
                          | Some content \<Rightarrow>
                              let res = sp_parse spec (read_section start end0 content) (sc_device cfg)
                                    (TurnStartFor (sv_mem (wd_store w2)) path)
                              in (case resume of
                                   Some scan \<Rightarrow>
                                     if start + res_consumed res \<noteq> end0 then (w2, Inl ResumeMismatch)
                                     else deliver_scan cfg (io_fails io) path False end0 (if_turn_start scan) res w2
                                 | None \<Rightarrow>
                                     let end1 = start + res_consumed res;
                                         (v3, ok3) = BeginScan (\<not> io_fails io ScBegin) path start end1
                                           (res_turn_start res) (wd_store w2);
                                         w3 = w2\<lparr>wd_store := v3\<rparr>
                                     in if \<not> ok3 then (w3, Inl BeginFailed)
                                        else deliver_scan cfg (io_fails io) path (sp_full_reparse spec) end1
                                          (res_turn_start res) res w3)))"

text \<open>The pass over the listed files, which ends at the first error.\<close>

fun ScanSources :: "scan_cfg \<Rightarrow> (string \<Rightarrow> scan_io) \<Rightarrow> (source_spec \<times> string) list \<Rightarrow> nat \<Rightarrow>
    scan_world \<Rightarrow> scan_world \<times> nat \<times> scan_error option" where
  "ScanSources cfg io [] n w = (w, n, None)"
| "ScanSources cfg io ((spec, path) # files) n w =
     (case scanFile cfg (io path) spec path w of
        (w', Inl err) \<Rightarrow> (w', n, Some err)
      | (w', Inr k) \<Rightarrow> ScanSources cfg io files (n + k) w')"

end
