(* ===== verification/Collect_Properties.thy ===== *)
theory Collect_Properties
  imports Collect_Scan
begin

text \<open>
  The cursor of a log file never moves past events the sink has not accepted, over any sequence of
  scans, failures, restarts and resets. The invariant: every delivery key on record, in memory or on
  disk, is the key of a batch that was accepted.
\<close>

section \<open>Keys on record\<close>

definition key_sent :: "scan_cfg \<Rightarrow> scan_world \<Rightarrow> string \<Rightarrow> bool" where
  "key_sent cfg w key \<longleftrightarrow> (\<exists>b\<in>set (wd_sent w). \<exists>i. event_key cfg i b = Some key) \<or>
     (\<exists>q\<in>set (wd_quotas w). quota_batch_key cfg q = Some key)"

definition state_inv :: "(string \<Rightarrow> bool) \<Rightarrow> scan_state \<Rightarrow> bool" where
  "state_inv sent s \<longleftrightarrow>
     (\<forall>file scan. st_in_flight s file = Some scan \<longrightarrow>
        (\<forall>key. if_delivered scan key \<longrightarrow> sent key) \<and> (if_start scan = 0 \<or> if_start scan = Offset s file)) \<and>
     (\<forall>file m i key. st_chunks s file = Some m \<longrightarrow> m i = Some key \<longrightarrow> sent key)"

definition store_inv :: "(string \<Rightarrow> bool) \<Rightarrow> scan_store \<Rightarrow> bool" where
  "store_inv sent v \<longleftrightarrow> state_inv sent (sv_mem v) \<and> (\<forall>d. sv_disk v = Some d \<longrightarrow> state_inv sent d)"

lemma state_inv_mono: "state_inv P s \<Longrightarrow> (\<And>k. P k \<Longrightarrow> Q k) \<Longrightarrow> state_inv Q s"
  unfolding state_inv_def by blast

lemma store_inv_mono: "store_inv P v \<Longrightarrow> (\<And>k. P k \<Longrightarrow> Q k) \<Longrightarrow> store_inv Q v"
  unfolding store_inv_def by (blast intro: state_inv_mono)

lemma state_inv_new: "state_inv P newState"
  by (simp add: state_inv_def newState_def)

lemma store_inv_saved: "state_inv P (sv_mem v) \<Longrightarrow> store_inv P (saveLocked True v)"
  by (simp add: store_inv_def saveLocked_disk)

text \<open>The keys of events and of quotas differ in their first byte.\<close>

lemma keys_disjoint: "event_key cfg i b = Some k \<Longrightarrow> quota_batch_key cfg q \<noteq> Some k"
  by (auto simp: event_key_def quota_batch_key_def logicalDeliveryKey_def)

lemma event_key_nonempty: "event_key cfg i b = Some k \<Longrightarrow> k \<noteq> []"
  by (auto simp: event_key_def logicalDeliveryKey_def)

section \<open>What each operation of the state keeps\<close>

lemma BeginScan_inv:
  assumes "BeginScan ok file a b t v = (v', r)" "store_inv P v" "a = 0 \<or> a = Offset (sv_mem v) file"
  shows "store_inv P v'"
proof (cases "r \<and> st_in_flight (sv_mem v) file = None")
  case False
  then have "v' = v"
  proof (cases r)
    case True
    with False assms(1) show ?thesis by (simp add: BeginScan_def Let_def)
  next
    case False
    with assms(1) show ?thesis by (simp add: BeginScan_failed)
  qed
  with assms(2) show ?thesis by simp
next
  case True
  then have ok: ok using assms(1) by (simp add: BeginScan_def Let_def split: if_splits)
  with assms(1) True have v': "v' = saveLocked True (v\<lparr>sv_mem := (sv_mem v)\<lparr>st_in_flight := (st_in_flight (sv_mem v))
      (file \<mapsto> \<lparr>if_start = a, if_end = b, if_turn_start = t, if_delivered = (\<lambda>_. False)\<rparr>)\<rparr>\<rparr>)"
    by (simp add: BeginScan_def Let_def)
  show ?thesis unfolding v'
    using assms(2,3) by (intro store_inv_saved) (auto simp: store_inv_def state_inv_def Offset_def)
qed

lemma MarkDeliveryDone_inv:
  assumes "MarkDeliveryDone ok file key v = (v', None)" "store_inv P v" "P key"
  shows "store_inv P v'"
proof (cases "v' = v")
  case False
  with assms(1) obtain scan where scan: "st_in_flight (sv_mem v) file = Some scan"
    and v': "v' = saveLocked True (v\<lparr>sv_mem := (sv_mem v)\<lparr>st_in_flight := (st_in_flight (sv_mem v))
      (file \<mapsto> scan\<lparr>if_delivered := (if_delivered scan)(key := True)\<rparr>)\<rparr>\<rparr>)"
    by (auto simp: MarkDeliveryDone_def Let_def split: option.splits if_splits)
  have "state_inv P (sv_mem v)" using assms(2) by (simp add: store_inv_def)
  with scan have "(\<forall>key. if_delivered scan key \<longrightarrow> P key) \<and> (if_start scan = 0 \<or> if_start scan = Offset (sv_mem v) file)"
    by (auto simp: state_inv_def)
  then show ?thesis unfolding v'
    using assms(2,3) by (intro store_inv_saved) (auto simp: store_inv_def state_inv_def Offset_def)
qed (use assms(2) in simp)

lemma DiscardScan_inv:
  assumes "DiscardScan ok file v = (v', done_ok)" "store_inv P v"
  shows "store_inv P v'"
proof (cases "v' = v")
  case False
  then have "done_ok" using assms(1) DiscardScan_failed by (cases done_ok) auto
  with assms(1) False have v': "v' = saveLocked True (v\<lparr>sv_mem := (sv_mem v)\<lparr>
      st_in_flight := (st_in_flight (sv_mem v))(file := None), st_chunks := (st_chunks (sv_mem v))(file := None)\<rparr>\<rparr>)"
    by (auto simp: DiscardScan_def Let_def split: if_splits)
  show ?thesis unfolding v'
    using assms(2) by (intro store_inv_saved) (auto simp: store_inv_def state_inv_def Offset_def split: if_splits)
qed (use assms(2) in simp)

lemma Commit_saved:
  assumes "Commit ok file off ts chunks v = (v', True)"
  shows "sv_disk v' = Some (sv_mem v') \<and> Offset (sv_mem v') file = off"
  using assms by (auto simp: Commit_def Let_def saveLocked_disk Offset_def split: if_splits)

lemma Commit_inv:
  assumes "Commit ok file off ts chunks v = (v', done_ok)" "store_inv P v"
    and "\<And>m i key. chunks = Some m \<Longrightarrow> m i = Some key \<Longrightarrow> P key"
  shows "store_inv P v'"
proof (cases done_ok)
  case False
  with assms(1) have "v' = v" by (simp add: Commit_failed)
  with assms(2) show ?thesis by simp
next
  case True
  let ?s = "(sv_mem v)\<lparr>st_files := (st_files (sv_mem v))(file \<mapsto> off),
      st_turn_start := (if ts > 0 then (st_turn_start (sv_mem v))(file \<mapsto> ts) else st_turn_start (sv_mem v)),
      st_in_flight := (st_in_flight (sv_mem v))(file := None),
      st_chunks := (case chunks of None \<Rightarrow> st_chunks (sv_mem v) | Some c \<Rightarrow> (st_chunks (sv_mem v))(file \<mapsto> c))\<rparr>"
  have v': "v' = saveLocked True (v\<lparr>sv_mem := ?s\<rparr>)"
    using assms(1) True by (auto simp: Commit_def Let_def split: if_splits)
  have "state_inv P (sv_mem v)" using assms(2) by (simp add: store_inv_def)
  then have "state_inv P ?s"
    using assms(3) by (auto simp: state_inv_def Offset_def split: if_splits option.splits)
  then show ?thesis unfolding v' by (intro store_inv_saved) simp
qed

lemma RepoFor_inv:
  assumes "store_inv P v" shows "store_inv P (fst (RepoFor ok device cwd f v))"
proof -
  have "state_inv P (s\<lparr>st_repo_by_cwd := m\<rparr>) = state_inv P s" for s m
    by (simp add: state_inv_def Offset_def)
  with assms show ?thesis
    by (auto simp: RepoFor_def Let_def store_inv_def saveLocked_disk split: option.splits)
qed

lemma RepoFor_keeps:
  "st_in_flight (sv_mem (fst (RepoFor ok device cwd f v))) = st_in_flight (sv_mem v) \<and>
   st_files (sv_mem (fst (RepoFor ok device cwd f v))) = st_files (sv_mem v)"
  by (auto simp: RepoFor_def Let_def split: option.splits)

lemma LoadState_inv: "(\<And>d. disk = Some d \<Longrightarrow> state_inv P d) \<Longrightarrow> state_inv P (LoadState disk)"
  by (cases disk) (auto simp: LoadState_def newState_def state_inv_def Offset_def split: option.splits if_splits)

lemma ResetOffsets_inv:
  assumes "store_inv P v" shows "store_inv P (fst (ResetOffsets ok v))"
proof (cases "ResetOffsets ok v")
  case (Pair v' b)
  show ?thesis
  proof (cases b)
    case False
    with Pair have "v' = v" by (simp add: ResetOffsets_failed)
    with Pair assms show ?thesis by simp
  next
    case True
    then show ?thesis using Pair
      by (auto simp: ResetOffsets_def Let_def state_inv_def intro!: store_inv_saved split: if_splits)
  qed
qed

section \<open>The delivery loops\<close>

definition clear_repo :: "event \<Rightarrow> event" where
  "clear_repo e = e\<lparr>ev_repo := []\<rparr>"

lemma resolve_repos_keeps:
  "resolve_repos cfg fails i es v = (es', v') \<Longrightarrow>
     map clear_repo es' = map clear_repo es \<and> (store_inv P v \<longrightarrow> store_inv P v') \<and>
     st_in_flight (sv_mem v') = st_in_flight (sv_mem v)"
proof (induction es arbitrary: i v es' v')
  case (Cons e es)
  show ?case
  proof (cases "sc_resolve cfg = None \<or> ev_cwd e = []")
    case True
    then obtain r where "resolve_repos cfg fails (i + 1) es v = (r, v')" "es' = e # r"
      using Cons.prems by (cases "resolve_repos cfg fails (i + 1) es v") (auto split: option.splits if_splits)
    from Cons.IH [OF this(1)] this(2) show ?thesis by simp
  next
    case False
    then obtain f where f: "sc_resolve cfg = Some f" "ev_cwd e \<noteq> []" by auto
    let ?v1 = "fst (RepoFor (\<not> fails (ScSaveRepo i)) (sc_device cfg) (ev_cwd e) f v)"
    obtain r repo where r: "resolve_repos cfg fails (i + 1) es ?v1 = (r, v')" "es' = e\<lparr>ev_repo := repo\<rparr> # r"
      using Cons.prems f by (cases "resolve_repos cfg fails (i + 1) es ?v1") (auto simp: case_prod_beta)
    from Cons.IH [OF r(1)] r(2) RepoFor_inv [of P v] RepoFor_keeps [of _ _ _ f v] show ?thesis
      by (simp add: clear_repo_def)
  qed
qed simp

definition accepted_batch :: "scan_cfg \<Rightarrow> scan_world \<Rightarrow> event list \<Rightarrow> bool" where
  "accepted_batch cfg w c \<longleftrightarrow>
     (\<exists>b\<in>set (wd_sent w). \<exists>i j key. event_key cfg i b = Some key \<and> event_key cfg j c = Some key)"

definition grown :: "scan_world \<Rightarrow> scan_world \<Rightarrow> bool" where
  "grown w w' \<longleftrightarrow> set (wd_sent w) \<subseteq> set (wd_sent w') \<and> set (wd_quotas w) \<subseteq> set (wd_quotas w')"

lemma grown_refl [simp]: "grown w w" by (simp add: grown_def)

lemma grown_trans: "grown u v \<Longrightarrow> grown v w \<Longrightarrow> grown u w" by (auto simp: grown_def)

lemma grown_key: "grown w w' \<Longrightarrow> key_sent cfg w k \<Longrightarrow> key_sent cfg w' k"
  unfolding grown_def key_sent_def by blast

lemma key_sent_store [simp]: "key_sent cfg (u\<lparr>wd_store := v\<rparr>) = key_sent cfg u"
  by (simp add: key_sent_def fun_eq_iff)

lemma grown_batch: "grown w w' \<Longrightarrow> accepted_batch cfg w c \<Longrightarrow> accepted_batch cfg w' c"
  unfolding grown_def accepted_batch_def by blast

lemma key_sent_batch: "key_sent cfg w key \<Longrightarrow> event_key cfg i c = Some key \<Longrightarrow> accepted_batch cfg w c"
  using keys_disjoint unfolding key_sent_def accepted_batch_def by blast

definition world_inv :: "scan_cfg \<Rightarrow> scan_world \<Rightarrow> bool" where
  "world_inv cfg w \<longleftrightarrow> store_inv (key_sent cfg w) (wd_store w)"

lemma world_inv_grown:
  "store_inv (key_sent cfg w) v \<Longrightarrow> grown w w' \<Longrightarrow> wd_store w' = v \<Longrightarrow> world_inv cfg w'"
  unfolding world_inv_def by (blast intro: store_inv_mono grown_key)

text \<open>A recorded key is a sent one.\<close>

lemma done_key: "world_inv cfg w \<Longrightarrow> DeliveryDone (sv_mem (wd_store w)) path key \<Longrightarrow> key_sent cfg w key"
  by (auto simp: DeliveryDone_def world_inv_def store_inv_def state_inv_def split: option.splits)

lemma recorded_key:
  assumes "world_inv cfg w" "event_key cfg i c = Some key"
    and "ChunkDelivered (sv_mem (wd_store w)) path j key \<or> DeliveryDone (sv_mem (wd_store w)) path key"
  shows "key_sent cfg w key"
  using assms(3)
proof
  assume "DeliveryDone (sv_mem (wd_store w)) path key"
  with assms(1) show ?thesis by (rule done_key)
next
  assume "ChunkDelivered (sv_mem (wd_store w)) path j key"
  with event_key_nonempty [OF assms(2)] obtain m where "st_chunks (sv_mem (wd_store w)) path = Some m" "m j = Some key"
    by (auto simp: ChunkDelivered_def split: option.splits)
  with assms(1) show ?thesis unfolding world_inv_def store_inv_def state_inv_def by blast
qed

text \<open>One accepted batch.\<close>

lemma sent_batch:
  assumes "world_inv cfg w" "event_key cfg i c = Some key"
    and "MarkDeliveryDone ok path key (wd_store w) = (v', err)"
  shows "world_inv cfg (w\<lparr>wd_store := v', wd_sent := wd_sent w @ [c]\<rparr>) \<and>
    key_sent cfg (w\<lparr>wd_store := v', wd_sent := wd_sent w @ [c]\<rparr>) key \<and>
    grown w (w\<lparr>wd_store := v', wd_sent := wd_sent w @ [c]\<rparr>)"
proof -
  let ?w = "w\<lparr>wd_store := v', wd_sent := wd_sent w @ [c]\<rparr>"
  have g: "grown w ?w" by (auto simp: grown_def)
  have k: "key_sent cfg ?w key" using assms(2) by (auto simp: key_sent_def)
  have "store_inv (key_sent cfg ?w) (wd_store w)"
    using assms(1) g unfolding world_inv_def by (blast intro: store_inv_mono grown_key)
  then have "store_inv (key_sent cfg ?w) v'"
    using assms(3) k by (cases err) (auto dest: MarkDeliveryDone_failed intro: MarkDeliveryDone_inv)
  then show ?thesis using g k by (simp add: world_inv_def)
qed

lemma deliver_events_sent:
  "deliver_events cfg fails path cross i cs keys w = (w', res) \<Longrightarrow> world_inv cfg w \<Longrightarrow>
     (\<And>j key. keys j = Some key \<Longrightarrow> key_sent cfg w key) \<Longrightarrow>
     world_inv cfg w' \<and> grown w w' \<and>
     (\<forall>keys'. res = Inr keys' \<longrightarrow> (\<forall>c\<in>set cs. accepted_batch cfg w' c) \<and>
        (\<forall>j key. keys' j = Some key \<longrightarrow> key_sent cfg w' key))"
proof (induction cs arbitrary: i keys w)
  case (Cons c cs)
  show ?case
  proof (cases "event_key cfg i c")
    case None
    with Cons.prems show ?thesis by auto
  next
    case (Some key)
    let ?keys = "if cross then keys(i \<mapsto> key) else keys"
    let ?mem = "sv_mem (wd_store w)"
    show ?thesis
    proof (cases "cross \<and> ChunkDelivered ?mem path i key \<or> DeliveryDone ?mem path key")
      case True
      then have k: "key_sent cfg w key" using recorded_key [OF Cons.prems(2) Some] by blast
      from True Some Cons.prems(1) have "deliver_events cfg fails path cross (i + 1) cs ?keys w = (w', res)"
        by (auto simp: Let_def split: if_splits)
      moreover have "key_sent cfg w q" if "?keys j = Some q" for j q
        using that Cons.prems(3) [of j q] k by (auto split: if_splits)
      ultimately have "world_inv cfg w' \<and> grown w w' \<and> (\<forall>keys'. res = Inr keys' \<longrightarrow>
          (\<forall>c\<in>set cs. accepted_batch cfg w' c) \<and> (\<forall>j key. keys' j = Some key \<longrightarrow> key_sent cfg w' key))"
        by (rule Cons.IH [OF _ Cons.prems(2)])
      with key_sent_batch [OF k Some] show ?thesis by (auto dest: grown_batch)
    next
      case False
      show ?thesis
      proof (cases "fails (ScSinkEvents i)")
        case True
        with False Some Cons.prems(1,2) show ?thesis by (auto simp: Let_def)
      next
        case sink: False
        obtain v' err where mark: "MarkDeliveryDone (\<not> fails (ScMarkEvents i)) path key (wd_store w) = (v', err)"
          by fastforce
        let ?w = "w\<lparr>wd_store := v', wd_sent := wd_sent w @ [c]\<rparr>"
        note sent = sent_batch [OF Cons.prems(2) Some mark]
        show ?thesis
        proof (cases err)
          case (Some e)
          with False sink \<open>event_key cfg i c = Some key\<close> mark Cons.prems(1) sent show ?thesis
            by (auto simp: Let_def)
        next
          case None
          with False sink Some mark Cons.prems(1)
          have rec: "deliver_events cfg fails path cross (i + 1) cs ?keys ?w = (w', res)"
            by (auto simp: Let_def split: if_splits)
          have ks: "key_sent cfg ?w k" if "?keys j = Some k" for j k
            using that Cons.prems(3) [of j k] sent grown_key by (auto split: if_splits)
          have "accepted_batch cfg ?w c" using key_sent_batch [OF _ Some] sent by blast
          moreover have "world_inv cfg w' \<and> grown ?w w' \<and> (\<forall>keys'. res = Inr keys' \<longrightarrow>
              (\<forall>c\<in>set cs. accepted_batch cfg w' c) \<and> (\<forall>j key. keys' j = Some key \<longrightarrow> key_sent cfg w' key))"
            by (rule Cons.IH [OF rec conjunct1 [OF sent] ks])
          ultimately have tail: "world_inv cfg w'" "grown ?w w'" "accepted_batch cfg ?w c"
            "\<forall>keys'. res = Inr keys' \<longrightarrow> (\<forall>c\<in>set cs. accepted_batch cfg w' c) \<and> (\<forall>j key. keys' j = Some key \<longrightarrow> key_sent cfg w' key)"
            by blast+
          have "grown w w'" using sent tail(2) by (blast intro: grown_trans)
          moreover have "accepted_batch cfg w' c" using tail(2,3) by (rule grown_batch)
          ultimately show ?thesis using tail(1,4) by simp
        qed
      qed
    qed
  qed
qed auto

section \<open>A whole scan\<close>

definition accepted_quotas :: "scan_cfg \<Rightarrow> scan_world \<Rightarrow> quota_snapshot list \<Rightarrow> bool" where
  "accepted_quotas cfg w qs \<longleftrightarrow>
     (\<exists>b\<in>set (wd_quotas w). \<exists>key. quota_batch_key cfg b = Some key \<and> quota_batch_key cfg qs = Some key)"

lemma key_sent_quotas: "key_sent cfg w key \<Longrightarrow> quota_batch_key cfg qs = Some key \<Longrightarrow> accepted_quotas cfg w qs"
  using keys_disjoint unfolding key_sent_def accepted_quotas_def by blast

lemma deliver_quotas_sent:
  assumes "deliver_quotas cfg fails path qs w = (w', res)" "world_inv cfg w"
  shows "world_inv cfg w' \<and> grown w w' \<and> (res = None \<longrightarrow> sc_quota_sink cfg \<longrightarrow> qs \<noteq> [] \<longrightarrow> accepted_quotas cfg w' qs)"
proof (cases "quota_batch_key cfg qs")
  case None
  with assms show ?thesis by (auto simp: deliver_quotas_def split: if_splits)
next
  case (Some key)
  show ?thesis
  proof (cases "DeliveryDone (sv_mem (wd_store w)) path key \<or> fails ScSinkQuotas \<or> \<not> (sc_quota_sink cfg \<and> length qs > 0)")
    case True
    have "accepted_quotas cfg w qs" if "DeliveryDone (sv_mem (wd_store w)) path key"
      by (rule key_sent_quotas [OF done_key [OF assms(2) that] Some])
    with True Some assms show ?thesis by (auto simp: deliver_quotas_def split: if_splits)
  next
    case False
    obtain v' err where mark: "MarkDeliveryDone (\<not> fails ScMarkQuotas) path key (wd_store w) = (v', err)" by fastforce
    let ?w = "w\<lparr>wd_store := v', wd_quotas := wd_quotas w @ [qs]\<rparr>"
    have g: "grown w ?w" by (auto simp: grown_def)
    have k: "key_sent cfg ?w key" using Some by (auto simp: key_sent_def)
    have "store_inv (key_sent cfg ?w) (wd_store w)"
      using assms(2) g unfolding world_inv_def by (blast intro: store_inv_mono grown_key)
    then have "world_inv cfg ?w"
      using mark k by (cases err) (auto simp: world_inv_def dest: MarkDeliveryDone_failed intro: MarkDeliveryDone_inv)
    moreover have "w' = ?w" using False Some mark assms(1) by (auto simp: deliver_quotas_def split: option.splits)
    ultimately show ?thesis using g k key_sent_quotas Some by simp
  qed
qed

text \<open>What a scan that returns without an error has made durable.\<close>

definition scan_durable :: "scan_cfg \<Rightarrow> string \<Rightarrow> int \<Rightarrow> parse_result \<Rightarrow> scan_world \<Rightarrow> nat \<Rightarrow> bool" where
  "scan_durable cfg path end1 res w n \<longleftrightarrow>
     Offset (sv_mem (wd_store w)) path = end1 \<and> sv_disk (wd_store w) = Some (sv_mem (wd_store w)) \<and>
     (\<exists>events. map clear_repo events = map clear_repo (dropBefore (sc_not_before cfg) (res_events res)) \<and>
        n = length events \<and> (\<forall>c\<in>set (chunks_of sinkBatch events). accepted_batch cfg w c)) \<and>
     (sc_quota_sink cfg \<longrightarrow> res_quotas res \<noteq> [] \<longrightarrow> accepted_quotas cfg w (res_quotas res))"

lemma deliver_scan_durable:
  assumes "deliver_scan cfg fails path cross end1 ts res w = (w', r)" "world_inv cfg w"
  shows "world_inv cfg w' \<and> grown w w' \<and> (\<forall>n. r = Inr n \<longrightarrow> scan_durable cfg path end1 res w' n)"
proof -
  let ?nb = "dropBefore (sc_not_before cfg) (res_events res)"
  obtain es v1 where repos: "resolve_repos cfg fails 0 ?nb (wd_store w) = (es, v1)" by fastforce
  let ?w1 = "w\<lparr>wd_store := v1\<rparr>"
  have w1: "world_inv cfg ?w1" "grown w ?w1" "map clear_repo es = map clear_repo ?nb"
    using resolve_repos_keeps [OF repos, of "key_sent cfg w"] assms(2) by (simp_all add: world_inv_def grown_def)
  obtain w2 d where ev: "deliver_events cfg fails path cross 0 (chunks_of sinkBatch es) Map.empty ?w1 = (w2, d)" by fastforce
  have d1: "world_inv cfg w2" "grown ?w1 w2" "\<And>keys. d = Inr keys \<Longrightarrow> (\<forall>c\<in>set (chunks_of sinkBatch es). accepted_batch cfg w2 c)"
    "\<And>keys j key. d = Inr keys \<Longrightarrow> keys j = Some key \<Longrightarrow> key_sent cfg w2 key"
    using deliver_events_sent [OF ev w1(1)] by simp_all
  have g2: "grown w w2" by (rule grown_trans [OF w1(2) d1(2)])
  show ?thesis
  proof (cases d)
    case (Inl e)
    with assms(1) repos ev have "w' = w2" "r = Inl e" by (simp_all add: deliver_scan_def)
    with d1(1) g2 show ?thesis by simp
  next
    case (Inr keys)
    obtain w3 q where qu: "deliver_quotas cfg fails path (res_quotas res) w2 = (w3, q)" by fastforce
    note d2 = deliver_quotas_sent [OF qu d1(1)]
    have g3: "grown w w3" using g2 d2 by (blast intro: grown_trans)
    show ?thesis
    proof (cases q)
      case (Some e)
      with Inr assms(1) repos ev qu have "w' = w3" "r = Inl e" by (simp_all add: deliver_scan_def)
      with d2 g3 show ?thesis by simp
    next
      case None
      obtain v4 saved where co: "Commit (\<not> fails ScCommit) path end1 ts (if cross then Some keys else None) (wd_store w3) = (v4, saved)"
        by fastforce
      let ?w4 = "w3\<lparr>wd_store := v4\<rparr>"
      have w': "w' = ?w4" "r = (if saved then Inr (length es) else Inl CommitFailed)"
        using assms(1) repos ev Inr qu None co by (simp_all add: deliver_scan_def)
      have "key_sent cfg w3 key" if "(if cross then Some keys else None) = Some m" "m i = Some key" for m i key
        using that d1(4) [OF Inr] d2 grown_key [of w2 w3 cfg key] by (simp split: if_splits)
      with Commit_inv [OF co, of "key_sent cfg w3"] d2 have "world_inv cfg ?w4"
        by (simp add: world_inv_def)
      moreover have g34: "grown w3 ?w4" by (simp add: grown_def)
      moreover have "scan_durable cfg path end1 res ?w4 (length es)" if saved
      proof -
        have "accepted_batch cfg ?w4 c" if "c \<in> set (chunks_of sinkBatch es)" for c
          using that d1(3) [OF Inr] d2 grown_batch g34 by blast
        moreover have "accepted_quotas cfg ?w4 qs = accepted_quotas cfg w3 qs" for qs by (simp add: accepted_quotas_def)
        ultimately show ?thesis
          using Commit_saved [of _ path end1 ts _ "wd_store w3" v4] co that w1(3) d2 None
          by (simp add: scan_durable_def) blast
      qed
      moreover have "grown w ?w4" using g3 g34 by (rule grown_trans)
      ultimately show ?thesis using w' by simp
    qed
  qed
qed

section \<open>The cursor moves by a commit alone\<close>

abbreviation cursor_of :: "scan_world \<Rightarrow> string \<Rightarrow> int" where
  "cursor_of w path \<equiv> Offset (sv_mem (wd_store w)) path"

lemma BeginScan_files: "BeginScan ok file a b t v = (v', r) \<Longrightarrow> st_files (sv_mem v') = st_files (sv_mem v)"
  by (auto simp: BeginScan_def Let_def split: if_splits)

lemma DiscardScan_files: "DiscardScan ok file v = (v', r) \<Longrightarrow> st_files (sv_mem v') = st_files (sv_mem v) \<and>
    st_turn_start (sv_mem v') = st_turn_start (sv_mem v)"
  by (auto simp: DiscardScan_def Let_def split: if_splits)

lemma MarkDeliveryDone_files: "MarkDeliveryDone ok file key v = (v', r) \<Longrightarrow> st_files (sv_mem v') = st_files (sv_mem v)"
  by (auto simp: MarkDeliveryDone_def Let_def split: if_splits option.splits)

lemma resolve_repos_files: "resolve_repos cfg fails i es v = (es', v') \<Longrightarrow> st_files (sv_mem v') = st_files (sv_mem v)"
proof (induction es arbitrary: i v es' v')
  case (Cons e es)
  obtain r u where "resolve_repos cfg fails (i + 1) es v = (r, u)" by fastforce
  moreover obtain r1 u1 where "resolve_repos cfg fails (i + 1) es
      (fst (RepoFor (\<not> fails (ScSaveRepo i)) (sc_device cfg) (ev_cwd e) (the (sc_resolve cfg)) v)) = (r1, u1)" by fastforce
  ultimately show ?case using Cons RepoFor_keeps
    by (auto simp: case_prod_beta split: option.splits if_splits)
qed simp

lemma deliver_events_files:
  "deliver_events cfg fails path cross i cs keys w = (w', res) \<Longrightarrow>
     st_files (sv_mem (wd_store w')) = st_files (sv_mem (wd_store w))"
proof (induction cs arbitrary: i keys w)
  case (Cons c cs)
  show ?case
  proof (cases "event_key cfg i c")
    case (Some key)
    obtain v' err where mark: "MarkDeliveryDone (\<not> fails (ScMarkEvents i)) path key (wd_store w) = (v', err)" by fastforce
    with MarkDeliveryDone_files [OF mark] Cons Some show ?thesis
      by (auto simp: Let_def split: if_splits option.splits)
  qed (use Cons.prems in auto)
qed simp

lemma deliver_quotas_files:
  assumes "deliver_quotas cfg fails path qs w = (w', res)"
  shows "st_files (sv_mem (wd_store w')) = st_files (sv_mem (wd_store w))"
proof (cases "quota_batch_key cfg qs")
  case (Some key)
  obtain v' err where mark: "MarkDeliveryDone (\<not> fails ScMarkQuotas) path key (wd_store w) = (v', err)" by fastforce
  with MarkDeliveryDone_files [OF mark] assms Some show ?thesis
    by (auto simp: deliver_quotas_def split: if_splits option.splits)
qed (use assms in \<open>auto simp: deliver_quotas_def split: if_splits\<close>)

lemma deliver_scan_error:
  assumes "deliver_scan cfg fails path cross end1 ts res w = (w', Inl err)"
  shows "st_files (sv_mem (wd_store w')) = st_files (sv_mem (wd_store w))"
  using assms unfolding deliver_scan_def Let_def
  by (auto dest!: resolve_repos_files deliver_events_files deliver_quotas_files Commit_failed
      split: prod.splits sum.splits option.splits if_splits)

section \<open>Reachable worlds\<close>

text \<open>
  A collector starts with no state and then scans files, in any order and with any failures, is
  restarted (from its state file, or without one if that is lost or corrupt) and is reset.
\<close>

inductive scan_reachable :: "scan_cfg \<Rightarrow> scan_world \<Rightarrow> bool" for cfg where
  fresh: "scan_reachable cfg \<lparr>wd_store = \<lparr>sv_mem = newState, sv_disk = None\<rparr>, wd_sent = [], wd_quotas = []\<rparr>"
| scanned: "scan_reachable cfg w \<Longrightarrow> scan_reachable cfg (fst (scanFile cfg io spec path w))"
| reset: "scan_reachable cfg w \<Longrightarrow> scan_reachable cfg (w\<lparr>wd_store := fst (ResetOffsets ok (wd_store w))\<rparr>)"
| restarted: "scan_reachable cfg w \<Longrightarrow> scan_reachable cfg
    (w\<lparr>wd_store := (wd_store w)\<lparr>sv_mem := LoadState (if lost then None else sv_disk (wd_store w)),
         sv_disk := (if lost then None else sv_disk (wd_store w))\<rparr>\<rparr>)"

text \<open>A scan of a file: what it returns, and where its cursor then stands.\<close>

definition scan_result :: "scan_cfg \<Rightarrow> scan_io \<Rightarrow> source_spec \<Rightarrow> string \<Rightarrow> scan_world \<Rightarrow> scan_world \<Rightarrow>
    scan_error + nat \<Rightarrow> bool" where
  "scan_result cfg io spec path w w' r \<longleftrightarrow>
     (case r of
        Inl _ \<Rightarrow> cursor_of w' path = cursor_of w path
      | Inr n \<Rightarrow> n = 0 \<and> cursor_of w' path = cursor_of w path \<or>
          (\<exists>start limit content res. io_content io = Some content \<and> (start = 0 \<or> start = cursor_of w path) \<and>
             res = sp_parse spec (read_section start limit content) (sc_device cfg)
               (TurnStartFor (sv_mem (wd_store w)) path) \<and>
             scan_durable cfg path (start + res_consumed res) res w' n))"

lemma discard_if_keeps:
  assumes "discard_if c ok path w = (w', r)"
  shows "(world_inv cfg w \<longrightarrow> world_inv cfg w') \<and> grown w w' \<and>
    st_files (sv_mem (wd_store w')) = st_files (sv_mem (wd_store w)) \<and>
    st_turn_start (sv_mem (wd_store w')) = st_turn_start (sv_mem (wd_store w)) \<and> (\<not> c \<longrightarrow> w' = w)"
proof (cases c)
  case True
  obtain v' where d: "DiscardScan ok path (wd_store w) = (v', r)" "w' = w\<lparr>wd_store := v'\<rparr>"
    using assms True by (auto simp: discard_if_def split: prod.splits)
  with DiscardScan_files [OF d(1)] DiscardScan_inv [OF d(1)] True show ?thesis
    by (simp add: world_inv_def grown_def)
qed (use assms in \<open>simp add: discard_if_def\<close>)

lemma deliver_scan_result:
  assumes "deliver_scan cfg fails path cross (start + res_consumed res) ts res u = (w', r)" "world_inv cfg u"
    and "grown w u" "st_files (sv_mem (wd_store u)) = st_files (sv_mem (wd_store w))"
    and "io_content io = Some content" "start = 0 \<or> start = cursor_of w path"
    and "res = sp_parse spec (read_section start limit content) (sc_device cfg) (TurnStartFor (sv_mem (wd_store w)) path)"
  shows "world_inv cfg w' \<and> grown w w' \<and> scan_result cfg io spec path w w' r"
proof (cases r)
  case (Inl err)
  with assms(1) deliver_scan_error have "st_files (sv_mem (wd_store w')) = st_files (sv_mem (wd_store u))" by blast
  with Inl assms(3,4) deliver_scan_durable [OF assms(1,2)] show ?thesis
    by (auto simp: scan_result_def Offset_def intro: grown_trans)
next
  case (Inr n)
  with deliver_scan_durable [OF assms(1,2)] have "world_inv cfg w'" "grown u w'"
    "scan_durable cfg path (start + res_consumed res) res w' n" by blast+
  moreover from this have "scan_result cfg io spec path w w' (Inr n)"
    unfolding scan_result_def using assms(5-7) by auto
  ultimately show ?thesis using Inr assms(3) by (blast intro: grown_trans)
qed

lemma scanFile_result:
  assumes "scanFile cfg io spec path w = (w', r)" "world_inv cfg w"
  shows "world_inv cfg w' \<and> grown w w' \<and> scan_result cfg io spec path w w' r"
proof (cases "io_size io")
  case None
  with assms show ?thesis by (auto simp: scanFile_def scan_result_def)
next
  case (Some sz)
  let ?trunc = "sz < cursor_of w path"
  obtain w1 ok1 where d1: "discard_if ?trunc (\<not> io_fails io ScDiscardTruncated) path w = (w1, ok1)" by fastforce
  note k1 = discard_if_keeps [OF d1, of cfg]
  let ?found = "InFlightFor (sv_mem (wd_store w1)) path"
  let ?repl = "case ?found of None \<Rightarrow> False | Some scan \<Rightarrow> sz < if_end scan"
  obtain w2 ok2 where d2: "discard_if ?repl (\<not> io_fails io ScDiscardReplaced) path w1 = (w2, ok2)" by fastforce
  note k2 = discard_if_keeps [OF d2, of cfg]
  have inv2: "world_inv cfg w2" using k1 k2 assms(2) by blast
  have g2: "grown w w2" using k1 k2 by (blast intro: grown_trans)
  have same: "st_files (sv_mem (wd_store w2)) = st_files (sv_mem (wd_store w))"
    "TurnStartFor (sv_mem (wd_store w2)) path = TurnStartFor (sv_mem (wd_store w)) path"
    using k1 k2 by (simp_all add: TurnStartFor_def)
  have unmoved: "scan_result cfg io spec path w u (Inr 0)" "scan_result cfg io spec path w u (Inl e)"
    if "st_files (sv_mem (wd_store u)) = st_files (sv_mem (wd_store w))" for u e
    using that by (simp_all add: scan_result_def Offset_def)
  let ?off = "if ?trunc then 0 else cursor_of w path"
  let ?resume = "if ?repl then None else ?found"
  consider (stop1) "\<not> ok1" "w' = w1" "r = Inl DiscardFailed"
    | (stop2) "w' = w2" "r = Inl DiscardFailed \<or> r = Inr 0 \<or> r = Inl ResumeMismatch"
    | (resumed) scan content where "?resume = Some scan" "io_content io = Some content"
        "deliver_scan cfg (io_fails io) path False (if_end scan) (if_turn_start scan)
           (sp_parse spec (read_section (if_start scan) (if_end scan) content) (sc_device cfg)
             (TurnStartFor (sv_mem (wd_store w2)) path)) w2 = (w', r)"
        "if_start scan + res_consumed (sp_parse spec (read_section (if_start scan) (if_end scan) content)
           (sc_device cfg) (TurnStartFor (sv_mem (wd_store w2)) path)) = if_end scan"
    | (new) start content res v3 ok3 where "?resume = None" "io_content io = Some content"
        "start = (if sp_full_reparse spec then 0 else ?off)"
        "res = sp_parse spec (read_section start sz content) (sc_device cfg) (TurnStartFor (sv_mem (wd_store w2)) path)"
        "BeginScan (\<not> io_fails io ScBegin) path start (start + res_consumed res) (res_turn_start res) (wd_store w2) = (v3, ok3)"
        "(if \<not> ok3 then (w2\<lparr>wd_store := v3\<rparr>, Inl BeginFailed)
          else deliver_scan cfg (io_fails io) path (sp_full_reparse spec) (start + res_consumed res)
            (res_turn_start res) res (w2\<lparr>wd_store := v3\<rparr>)) = (w', r)"
  proof -
    note body = assms(1) [unfolded scanFile_def Let_def Some option.case(2), unfolded d1 prod.case, unfolded d2 prod.case]
    show ?thesis
    proof (cases "ok1 \<and> ok2")
      case False
      then show ?thesis using body stop1 stop2 by (cases ok1) simp_all
    next
      case ok: True
      show ?thesis
      proof (cases "io_content io = None \<or> ?resume = None \<and> sz = ?off")
        case True
        then show ?thesis using body ok stop2 by (cases ?resume) (auto split: if_splits prod.splits)
      next
        case False
        then obtain content where content: "io_content io = Some content" by auto
        show ?thesis
        proof (cases ?resume)
          case None
          with False have ne: "sz \<noteq> ?off" by simp
          let ?start = "if sp_full_reparse spec then 0 else ?off"
          let ?res = "sp_parse spec (read_section ?start sz content) (sc_device cfg) (TurnStartFor (sv_mem (wd_store w2)) path)"
          obtain v3 ok3 where b: "BeginScan (\<not> io_fails io ScBegin) path ?start (?start + res_consumed ?res)
              (res_turn_start ?res) (wd_store w2) = (v3, ok3)" by fastforce
          from body have "(if \<not> ok3 then (w2\<lparr>wd_store := v3\<rparr>, Inl BeginFailed)
              else deliver_scan cfg (io_fails io) path (sp_full_reparse spec) (?start + res_consumed ?res)
                (res_turn_start ?res) ?res (w2\<lparr>wd_store := v3\<rparr>)) = (w', r)"
            unfolding None using ne ok b content by simp
          with None content b show ?thesis by (intro new) auto
        next
          case (Some scan)
          from body show ?thesis unfolding Some using ok content Some stop2 resumed
            by (simp split: if_splits)
        qed
      qed
    qed
  qed
  then show ?thesis
  proof cases
    case stop1
    with k1 assms(2) unmoved show ?thesis by simp
  next
    case stop2
    with inv2 g2 same unmoved show ?thesis by auto
  next
    case (resumed scan content)
    then have f: "?found = Some scan" "\<not> ?repl" by (auto split: if_splits)
    then have "w2 = w1" using k2 by blast
    then have "state_inv (key_sent cfg w2) (sv_mem (wd_store w2))" "st_in_flight (sv_mem (wd_store w2)) path = Some scan"
      using inv2 f(1) by (simp_all add: world_inv_def store_inv_def InFlightFor_def)
    then have "if_start scan = 0 \<or> if_start scan = cursor_of w2 path" by (auto simp: state_inv_def)
    moreover have "cursor_of w2 path = cursor_of w path" using same by (simp add: Offset_def)
    ultimately have start: "if_start scan = 0 \<or> if_start scan = cursor_of w path" by simp
    let ?res = "sp_parse spec (read_section (if_start scan) (if_end scan) content) (sc_device cfg)
      (TurnStartFor (sv_mem (wd_store w2)) path)"
    have "deliver_scan cfg (io_fails io) path False (if_start scan + res_consumed ?res) (if_turn_start scan) ?res w2 = (w', r)"
      using resumed(3) by (simp only: resumed(4))
    from deliver_scan_result [OF this inv2 g2 same(1) resumed(2) start] same(2) show ?thesis by simp
  next
    case (new start content res v3 ok3)
    let ?u = "w2\<lparr>wd_store := v3\<rparr>"
    have start: "start = 0 \<or> start = cursor_of w path" using new(3) by simp
    moreover have "cursor_of w2 path = cursor_of w path" using same by (simp add: Offset_def)
    ultimately have "store_inv (key_sent cfg w2) v3"
      using BeginScan_inv [OF new(5)] inv2 by (simp add: world_inv_def)
    then have u: "world_inv cfg ?u" "grown w ?u" using g2 by (simp_all add: world_inv_def grown_def)
    have f: "st_files (sv_mem (wd_store ?u)) = st_files (sv_mem (wd_store w))"
      using BeginScan_files [OF new(5)] same by simp
    show ?thesis
    proof (cases ok3)
      case False
      with new(6) have "w' = ?u" "r = Inl BeginFailed" by simp_all
      with u unmoved(2) [OF f] show ?thesis by simp
    next
      case True
      with new(6) have "deliver_scan cfg (io_fails io) path (sp_full_reparse spec) (start + res_consumed res)
          (res_turn_start res) res ?u = (w', r)" by simp
      from deliver_scan_result [OF this u f new(2) start new(4) [unfolded same(2)]] show ?thesis .
    qed
  qed
qed

lemma scan_reachable_inv: "scan_reachable cfg w \<Longrightarrow> world_inv cfg w"
proof (induction rule: scan_reachable.induct)
  case fresh
  show ?case by (simp add: world_inv_def store_inv_def state_inv_new)
next
  case (scanned w io spec path)
  then show ?case by (metis scanFile_result prod.collapse)
next
  case (reset w ok)
  then show ?case by (simp add: world_inv_def ResetOffsets_inv)
next
  case (restarted w lost)
  then show ?case by (auto simp: world_inv_def store_inv_def intro!: LoadState_inv split: if_splits)
qed

section \<open>The property\<close>

text \<open>C17. In every state a collector can reach, over failed saves, failed sinks, crashes, a lost state
  file and resets, a scan moves the cursor of its file only when everything it parsed is accepted: an
  error leaves the cursor, and a success either leaves it and counts no event or puts it at the end of
  what the parser consumed from byte 0 or the old cursor, durably, with every chunk of the window's
  events, and the quotas if there is a sink, under the delivery key of a batch the sink accepted.\<close>

theorem scan_commits_only_accepted:
  assumes "scan_reachable cfg w" and "scanFile cfg io spec path w = (w', r)"
  shows "scan_result cfg io spec path w w' r"
  using scanFile_result [OF assms(2) scan_reachable_inv [OF assms(1)]] by blast

text \<open>A three-byte file of one event: the first scan cannot save its commit, the second resumes it.\<close>

definition sample_cfg :: scan_cfg where
  "sample_cfg = \<lparr>sc_device = ''m'', sc_sha256 = (\<lambda>_. []), sc_marshal_events = (\<lambda>es. Some (concat (map ev_event_id es))),
     sc_marshal_quotas = (\<lambda>_. Some ''q''), sc_resolve = None, sc_quota_sink = False, sc_not_before = Some 5\<rparr>"

definition sample_spec :: source_spec where
  "sample_spec = \<lparr>sp_parse = (\<lambda>s _ _. \<lparr>res_events = [zero_event\<lparr>ev_event_id := s, ev_ts := 7\<rparr>, zero_event],
     res_quotas = [], res_consumed = int (length s), res_turn_start = 0\<rparr>), sp_full_reparse = True\<rparr>"

definition sample_io :: "bool \<Rightarrow> scan_io" where
  "sample_io fails = \<lparr>io_size = Some 3, io_content = Some ''abc'', io_fails = (\<lambda>k. fails \<and> k = ScCommit)\<rparr>"

definition fresh_world :: scan_world where
  "fresh_world = \<lparr>wd_store = \<lparr>sv_mem = newState, sv_disk = None\<rparr>, wd_sent = [], wd_quotas = []\<rparr>"

lemmas scan_eval = scanFile_def discard_if_def deliver_scan_def deliver_quotas_def read_section_def
  BeginScan_def Commit_def MarkDeliveryDone_def saveLocked_def restore_key_def InFlightFor_def DeliveryDone_def
  ChunkDelivered_def Offset_def TurnStartFor_def event_key_def logicalDeliveryKey_def dropBefore_def sinkBatch_def Let_def

lemmas scan_sample = sample_cfg_def sample_spec_def sample_io_def fresh_world_def newState_def zero_event_def

theorem scan_commits_only_accepted_witness:
  "(let (w1, r1) = scanFile sample_cfg (sample_io True) sample_spec ''f'' fresh_world;
        (w2, r2) = scanFile sample_cfg (sample_io False) sample_spec ''f'' w1
    in r1 = Inl CommitFailed \<and> cursor_of w1 ''f'' = 0 \<and> r2 = Inr 1 \<and> cursor_of w2 ''f'' = 3 \<and>
       length (wd_sent w2) = 1 \<and> scan_result sample_cfg (sample_io False) sample_spec ''f'' w1 w2 r2)"
proof -
  let ?s1 = "scanFile sample_cfg (sample_io True) sample_spec ''f'' fresh_world"
  let ?s2 = "scanFile sample_cfg (sample_io False) sample_spec ''f'' (fst ?s1)"
  have "scan_reachable sample_cfg (fst ?s1)"
    unfolding fresh_world_def by (intro scan_reachable.intros)
  note result = scan_commits_only_accepted [OF this prod.collapse [symmetric], of "sample_io False" sample_spec "''f''"]
  have "snd ?s1 = Inl CommitFailed" "cursor_of (fst ?s1) ''f'' = 0"
    by (simp_all add: scan_eval scan_sample chunks_of.simps)
  moreover have "snd ?s2 = Inr 1" "cursor_of (fst ?s2) ''f'' = 3" "length (wd_sent (fst ?s2)) = 1"
    by (simp_all add: scan_eval scan_sample chunks_of.simps)
  ultimately show ?thesis using result by (simp add: case_prod_beta)
qed

end
