(* ===== verification/Go_Strings.thy ===== *)
theory Go_Strings
  imports Go_Strconv
begin

text \<open>
  What the log parsers use of Go's \<open>strings\<close>, \<open>strconv\<close> and \<open>bufio\<close>: substring search,
  \<open>TrimSpace\<close> on UTF-8 bytes, \<open>ParseInt\<close> of a run of digits, and the loop over \<open>ReadString('\n')\<close>,
  which yields the complete lines and leaves a partial last one.
\<close>

section \<open>Searching\<close>

definition HasPrefix :: "string \<Rightarrow> string \<Rightarrow> bool" where
  "HasPrefix s p \<longleftrightarrow> take (length p) s = p"

fun Index :: "string \<Rightarrow> string \<Rightarrow> nat option" where
  "Index [] sub = (if sub = [] then Some 0 else None)"
| "Index (c # s) sub = (if HasPrefix (c # s) sub then Some 0 else map_option Suc (Index s sub))"

fun LastIndex :: "string \<Rightarrow> string \<Rightarrow> nat option" where
  "LastIndex [] sub = (if sub = [] then Some 0 else None)"
| "LastIndex (c # s) sub =
     (case LastIndex s sub of
        Some i \<Rightarrow> Some (Suc i)
      | None \<Rightarrow> if HasPrefix (c # s) sub then Some 0 else None)"

definition str_contains :: "string \<Rightarrow> string \<Rightarrow> bool" where
  "str_contains s sub \<longleftrightarrow> Index s sub \<noteq> None"

section \<open>Trimming\<close>

text \<open>The UTF-8 encodings of the runes \<open>unicode.IsSpace\<close> accepts.\<close>

definition go_spaces :: "string list" where
  "go_spaces = map (\<lambda>c. [c]) [CHR 0x09, CHR 0x0A, CHR 0x0B, CHR 0x0C, CHR 0x0D, CHR 0x20] @
     [[CHR 0xC2, CHR 0x85], [CHR 0xC2, CHR 0xA0], [CHR 0xE1, CHR 0x9A, CHR 0x80]] @
     map (\<lambda>c. [CHR 0xE2, CHR 0x80, c]) [CHR 0x80, CHR 0x81, CHR 0x82, CHR 0x83, CHR 0x84, CHR 0x85,
       CHR 0x86, CHR 0x87, CHR 0x88, CHR 0x89, CHR 0x8A, CHR 0xA8, CHR 0xA9, CHR 0xAF] @
     [[CHR 0xE2, CHR 0x81, CHR 0x9F], [CHR 0xE3, CHR 0x80, CHR 0x80]]"

text \<open>Strips any of the words \<open>ws\<close> from the front, as often as one is there.\<close>

function trim_words :: "string list \<Rightarrow> string \<Rightarrow> string" where
  "trim_words ws s =
     (case find (\<lambda>w. w \<noteq> [] \<and> HasPrefix s w) ws of
        None \<Rightarrow> s
      | Some w \<Rightarrow> trim_words ws (drop (length w) s))"
  by auto
termination
proof (relation "measure (length \<circ> snd)")
  fix ws s w
  assume "find (\<lambda>w. w \<noteq> [] \<and> HasPrefix s w) ws = Some w"
  then have "w \<noteq> []" "HasPrefix s w" by (auto dest: find_Some_D)
  then show "((ws, drop (length w) s), ws, s) \<in> measure (length \<circ> snd)"
    by (cases s; cases w) (auto simp: HasPrefix_def)
qed simp

declare trim_words.simps [simp del]

definition TrimSpace :: "string \<Rightarrow> string" where
  "TrimSpace s = rev (trim_words (map rev go_spaces) (rev (trim_words go_spaces s)))"

lemma trim_words_id:
  assumes "\<forall>w\<in>set ws. w \<noteq> [] \<longrightarrow> \<not> HasPrefix s w" shows "trim_words ws s = s"
proof -
  have "find (\<lambda>w. w \<noteq> [] \<and> HasPrefix s w) ws = None" using assms by (auto simp: find_None_iff)
  then show ?thesis by (simp add: trim_words.simps [of ws s])
qed

text \<open>A word whose first and last bytes belong to no space is left alone.\<close>

lemma TrimSpace_id:
  assumes "\<forall>w\<in>set go_spaces. \<not> HasPrefix s w \<and> \<not> HasPrefix (rev s) (rev w)"
  shows "TrimSpace s = s"
  unfolding TrimSpace_def using assms by (simp add: trim_words_id)

lemma TrimSpace_Nil [simp]: "TrimSpace [] = []"
  by (rule TrimSpace_id) (auto simp: go_spaces_def HasPrefix_def)

text \<open>A character that is neither white space nor part of one.\<close>

definition printable :: "char \<Rightarrow> bool" where
  "printable c \<longleftrightarrow> 32 < (of_char c :: nat) \<and> (of_char c :: nat) < 128"

lemma printable_space: "printable c \<Longrightarrow> w \<in> set go_spaces \<Longrightarrow> \<not> HasPrefix (c # s) w \<and> \<not> HasPrefix (c # s) (rev w)"
  by (auto simp: go_spaces_def HasPrefix_def printable_def)

definition ascii_space :: "char \<Rightarrow> bool" where
  "ascii_space c \<longleftrightarrow> c \<in> {CHR '' '', CHR 0x09, CHR 0x0A, CHR 0x0D}"

lemma find_space:
  assumes "ascii_space c"
  shows "find (\<lambda>w. w \<noteq> [] \<and> HasPrefix (c # s) w) go_spaces = Some [c]"
    "find (\<lambda>w. w \<noteq> [] \<and> HasPrefix (c # s) w) (map rev go_spaces) = Some [c]"
proof -
  consider "c = CHR '' ''" | "c = CHR 0x09" | "c = CHR 0x0A" | "c = CHR 0x0D"
    using assms unfolding ascii_space_def by blast
  then show "find (\<lambda>w. w \<noteq> [] \<and> HasPrefix (c # s) w) go_spaces = Some [c]"
    by cases (simp_all add: go_spaces_def HasPrefix_def)
  from \<open>ascii_space c\<close> consider "c = CHR '' ''" | "c = CHR 0x09" | "c = CHR 0x0A" | "c = CHR 0x0D"
    unfolding ascii_space_def by blast
  then show "find (\<lambda>w. w \<noteq> [] \<and> HasPrefix (c # s) w) (map rev go_spaces) = Some [c]"
    by cases (simp_all add: go_spaces_def HasPrefix_def)
qed

lemma trim_words_space:
  "ascii_space c \<Longrightarrow> trim_words go_spaces (c # s) = trim_words go_spaces s"
  "ascii_space c \<Longrightarrow> trim_words (map rev go_spaces) (c # s) = trim_words (map rev go_spaces) s"
  using find_space [of c s] by (simp_all add: trim_words.simps [of _ "c # s"])

lemma trim_words_spaces:
  "list_all ascii_space pre \<Longrightarrow> trim_words go_spaces (pre @ s) = trim_words go_spaces s"
  "list_all ascii_space pre \<Longrightarrow> trim_words (map rev go_spaces) (pre @ s) = trim_words (map rev go_spaces) s"
  by (induction pre) (simp_all add: trim_words_space)

lemma trim_words_printable:
  assumes "s \<noteq> []" "printable (hd s)"
  shows "trim_words go_spaces (s @ t) = s @ t" "trim_words (map rev go_spaces) (s @ t) = s @ t"
  using assms printable_space by (cases s; auto intro!: trim_words_id)+

lemma TrimSpace_around:
  assumes "list_all ascii_space pre" "list_all ascii_space post" "s \<noteq> []" "printable (hd s)" "printable (last s)"
  shows "TrimSpace (pre @ s @ post) = s"
proof -
  have "trim_words go_spaces (pre @ s @ post) = s @ post"
    using assms by (simp add: trim_words_spaces trim_words_printable)
  moreover have "trim_words (map rev go_spaces) (rev post @ rev s) = rev s"
    using trim_words_printable(2) [of "rev s" "[]"] assms by (simp add: trim_words_spaces hd_rev list_all_iff)
  ultimately show ?thesis by (simp add: TrimSpace_def)
qed

definition TrimPrefix :: "string \<Rightarrow> string \<Rightarrow> string" where
  "TrimPrefix s p = (if HasPrefix s p then drop (length p) s else s)"

section \<open>Numbers\<close>

text \<open>\<open>ParseInt(s, 10, 64)\<close> of a non-empty run of digits.\<close>

definition parse_int_digits :: "string \<Rightarrow> int option" where
  "parse_int_digits s = (if parse_digits s < 2 ^ 63 then Some (int (parse_digits s)) else None)"

text \<open>The verb \<open>%d\<close>.\<close>

definition format_int :: "int \<Rightarrow> string" where
  "format_int n = (if n < 0 then ''-'' @ format_nat (nat (- n)) else format_nat (nat n))"

text \<open>Fields joined by a bar, the payload the parsers hash.\<close>

definition bar_join :: "string list \<Rightarrow> string" where
  "bar_join ss = concat (map (\<lambda>(i, s). if i = 0 then s else CHR 0x7C # s) (enumerate 0 ss))"

section \<open>Lines\<close>

text \<open>The complete lines of a file, newline included, and the bytes after the last newline.\<close>

fun log_lines :: "string \<Rightarrow> string list \<times> string" where
  "log_lines [] = ([], [])"
| "log_lines (c # s) =
     (let (ls, rest) = log_lines s
      in if c = CHR 0x0A then ([c] # ls, rest)
         else (case ls of
             [] \<Rightarrow> ([], c # rest)
           | l # ls' \<Rightarrow> ((c # l) # ls', rest)))"

lemma log_lines_empty: "fst (log_lines s) = [] \<longleftrightarrow> CHR 0x0A \<notin> set s"
  by (induction s) (auto simp: case_prod_beta split: list.splits)

lemma log_lines_concat: "concat (fst (log_lines s)) @ snd (log_lines s) = s"
proof (induction s)
  case (Cons c s)
  then show ?case using log_lines_empty [of s] by (auto simp: case_prod_beta split: list.splits)
qed simp

lemma log_lines_rest: "CHR 0x0A \<notin> set (snd (log_lines s))"
proof (induction s)
  case (Cons c s)
  then show ?case using log_lines_empty [of s] by (auto simp: case_prod_beta split: list.splits)
qed simp

lemma log_lines_line: "l \<in> set (fst (log_lines s)) \<Longrightarrow> l \<noteq> [] \<and> last l = CHR 0x0A"
proof (induction s arbitrary: l)
  case (Cons c s)
  then show ?case by (auto simp: case_prod_beta split: list.splits if_splits)
qed simp

text \<open>Reading on from the partial line sees the lines a single pass would have seen.\<close>

lemma log_lines_append:
  "log_lines (a @ b) =
     (fst (log_lines a) @ fst (log_lines (snd (log_lines a) @ b)), snd (log_lines (snd (log_lines a) @ b)))"
proof (induction a)
  case (Cons c a)
  show ?case
  proof (cases "CHR 0x0A \<in> set a")
    case True
    then obtain l ls where "fst (log_lines a) = l # ls" using log_lines_empty [of a] by (cases "fst (log_lines a)") auto
    then show ?thesis using Cons by (simp add: case_prod_beta)
  next
    case False
    then have a: "fst (log_lines a) = []" "snd (log_lines a) = a"
      using log_lines_empty [of a] log_lines_concat [of a] by auto
    then show ?thesis using False by (auto simp: case_prod_beta)
  qed
qed simp

lemma drop_lines: "drop (length (concat (fst (log_lines a)))) (a @ b) = snd (log_lines a) @ b"
  by (subst (2) log_lines_concat [of a, symmetric]) simp

end
