(* ===== verification/Claude_Parser.thy ===== *)
theory Claude_Parser
  imports Event_Model Go_Strings Collect_State
begin

text \<open>
  \<open>internal/parser/claudecode/parser.go\<close>: Claude Code session logs to usage events and limit hits.
  \<open>json.Unmarshal\<close> into the \<open>entry\<close> struct and \<open>time.Parse(time.RFC3339Nano, _)\<close> followed by
  \<open>UnixMilli\<close> are the parameters \<open>cl_unmarshal\<close> and \<open>cl_time\<close> (\<open>None\<close>: an error).
\<close>

record claude_entry =
  ce_type :: string
  ce_uuid :: string
  ce_request_id :: string
  ce_timestamp :: string
  ce_cwd :: string
  ce_git_branch :: string
  ce_session_id :: string
  ce_version :: string
  ce_message_id :: string
  ce_model :: string
  ce_input_tokens :: int
  ce_output_tokens :: int
  ce_cache_read_tokens :: int
  ce_cache_creation_tokens :: int
  ce_ephemeral_1h :: int
  ce_ephemeral_5m :: int

record claude_std =
  cl_unmarshal :: "string \<Rightarrow> claude_entry option"
  cl_time :: "string \<Rightarrow> int option"

definition ClaudeSource :: string where "ClaudeSource = ''claude-code''"

definition maxSpanMS :: int where "maxSpanMS = 30 * 60 * 1000"

definition limitMarker :: string where "limitMarker = ''Claude AI usage limit reached|''"

text \<open>The bits of the \<open>float64\<close> 100.\<close>

definition float64_100 :: float64 where "float64_100 = 0x4059000000000000"

definition parseLimitHit :: "string \<Rightarrow> string \<Rightarrow> int \<Rightarrow> quota_snapshot option" where
  "parseLimitHit line device lineMS =
     (case Index line limitMarker of
        None \<Rightarrow> None
      | Some i \<Rightarrow>
          if \<not> str_contains line ''\"isApiErrorMessage\":true'' then None
          else
            let digits = takeWhile is_digit (drop (i + length limitMarker) line)
            in if digits = [] then None
               else (case parse_int_digits digits of
                   None \<Rightarrow> None
                 | Some secs \<Rightarrow>
                     if secs \<le> 0 \<or> lineMS = 0 then None
                     else Some \<lparr>q_device = device, q_source = ClaudeSource, q_limit_id = ''claude-usage-limit'',
                       q_scope = ''limit-hit'', q_window_minutes = 0, q_used_percent = float64_100,
                       q_resets_at = i64 (secs * 1000), q_observed_at = lineMS, q_plan_type = []\<rparr>))"

definition isUserLine :: "string \<Rightarrow> bool" where
  "isUserLine line = str_contains line ''\"type\":\"user\"''"

definition timestampKey :: string where "timestampKey = ''\"timestamp\":\"''"

definition extractTimestampMS :: "claude_std \<Rightarrow> string \<Rightarrow> int" where
  "extractTimestampMS std line =
     (case LastIndex line timestampKey of
        None \<Rightarrow> 0
      | Some i \<Rightarrow>
          let rest = drop (i + length timestampKey) line
          in (case Index rest [CHR 0x22] of
                None \<Rightarrow> 0
              | Some j \<Rightarrow> (case cl_time std (take j rest) of None \<Rightarrow> 0 | Some ms \<Rightarrow> ms)))"

definition endpointProvider :: "string \<Rightarrow> string" where
  "endpointProvider requestID = (if TrimSpace requestID = [] then ProviderRelay else ProviderAnthropic)"

definition claudeEventID :: "claude_entry \<Rightarrow> string" where
  "claudeEventID e =
     (if ce_message_id e \<noteq> [] then ''cc:'' @ ce_message_id e @ '':'' @ ce_request_id e
      else ''cc:uuid:'' @ ce_uuid e)"

definition parseLine :: "claude_std \<Rightarrow> string \<Rightarrow> string \<Rightarrow> event option" where
  "parseLine std line0 device =
     (let line = TrimSpace line0
      in if line = [] \<or> \<not> str_contains line ''\"assistant\"'' then None
         else (case cl_unmarshal std line of
             None \<Rightarrow> None
           | Some e \<Rightarrow>
               if ce_type e \<noteq> ''assistant'' then None
               else if ce_model e = [] \<or> ce_model e = ''<synthetic>'' then None
               else if i64 (ce_input_tokens e + ce_output_tokens e + ce_cache_read_tokens e + ce_cache_creation_tokens e) = 0
               then None
               else (case cl_time std (ce_timestamp e) of
                   None \<Rightarrow> None
                 | Some ts \<Rightarrow> Some (zero_event\<lparr>ev_event_id := claudeEventID e, ev_ts := ts, ev_device := device,
                     ev_source := ClaudeSource, ev_model := ce_model e, ev_provider := endpointProvider (ce_request_id e),
                     ev_input_tokens := ce_input_tokens e, ev_output_tokens := ce_output_tokens e,
                     ev_cache_read_tokens := ce_cache_read_tokens e, ev_cache_creation_tokens := ce_cache_creation_tokens e,
                     ev_cache_1h_tokens := ce_ephemeral_1h e, ev_cache_5m_tokens := ce_ephemeral_5m e,
                     ev_session_id := ce_session_id e, ev_cwd := ce_cwd e, ev_git_branch := ce_git_branch e,
                     ev_app_version := ce_version e\<rparr>))))"

text \<open>The length of \<open>[from, ts]\<close>, clamped; 0 when there is no start or the clock ran backwards.\<close>

definition span_ms :: "int \<Rightarrow> int \<Rightarrow> int" where
  "span_ms start ts = (if start > 0 \<and> ts > start then min (ts - start) maxSpanMS else 0)"

text \<open>The loop of \<open>Parse\<close> over the complete lines, with \<open>prevMS\<close> and \<open>turnStartMS\<close>.\<close>

fun claude_loop :: "claude_std \<Rightarrow> string \<Rightarrow> int \<Rightarrow> int \<Rightarrow> string list \<Rightarrow>
    event list \<times> quota_snapshot list \<times> int" where
  "claude_loop std device prevMS turnStartMS [] = ([], [], turnStartMS)"
| "claude_loop std device prevMS turnStartMS (line # lines) =
     (let lineMS = extractTimestampMS std line;
          turn1 = (if isUserLine line \<and> lineMS > 0 then lineMS else turnStartMS);
          events = (case parseLine std line device of
              None \<Rightarrow> []
            | Some ev \<Rightarrow> [ev\<lparr>ev_duration_ms := span_ms prevMS (ev_ts ev), ev_gen_ms := span_ms turn1 (ev_ts ev)\<rparr>]);
          quotas = (case parseLimitHit line device lineMS of None \<Rightarrow> [] | Some q \<Rightarrow> [q]);
          (es, qs, turn2) = claude_loop std device (if lineMS > 0 then lineMS else prevMS) turn1 lines
      in (events @ es, quotas @ qs, turn2))"

definition claude_Parse :: "claude_std \<Rightarrow> string \<Rightarrow> string \<Rightarrow> int \<Rightarrow> parse_result" where
  "claude_Parse std content device turnStartMS =
     (let lines = fst (log_lines content);
          (es, qs, turn) = claude_loop std device 0 turnStartMS lines
      in \<lparr>res_events = es, res_quotas = qs, res_consumed = int (length (concat lines)), res_turn_start = turn\<rparr>)"

section \<open>Reading a file in two scans\<close>

text \<open>
  The second scan starts without the clock of the last line of the first, so its events up to the
  first timestamped line have no duration: \<open>same_but_duration\<close>.
\<close>

definition same_but_duration :: "event \<Rightarrow> event \<Rightarrow> bool" where
  "same_but_duration e e' \<longleftrightarrow> e'\<lparr>ev_duration_ms := ev_duration_ms e\<rparr> = e \<and>
     (ev_duration_ms e' = ev_duration_ms e \<or> ev_duration_ms e' = 0)"

lemma same_but_duration_refl [simp]: "same_but_duration e e"
  by (simp add: same_but_duration_def)

lemma same_but_duration_span [simp]:
  "same_but_duration (ev\<lparr>ev_duration_ms := span_ms p t, ev_gen_ms := g\<rparr>) (ev\<lparr>ev_duration_ms := span_ms 0 t, ev_gen_ms := g\<rparr>)"
  by (simp add: same_but_duration_def span_ms_def)

lemma list_all2_same_refl [simp]: "list_all2 same_but_duration es es"
  by (simp add: list_all2_same)

lemma claude_loop_append:
  "claude_loop std device prev turn (ls @ ms) =
     (let (es, qs, turn1) = claude_loop std device prev turn ls;
          prev1 = foldl (\<lambda>p l. if extractTimestampMS std l > 0 then extractTimestampMS std l else p) prev ls;
          (es', qs', turn2) = claude_loop std device prev1 turn1 ms
      in (es @ es', qs @ qs', turn2))"
  by (induction ls arbitrary: prev turn) (simp_all add: Let_def case_prod_beta)

lemma claude_loop_prev:
  "list_all2 same_but_duration (fst (claude_loop std device prev turn ls)) (fst (claude_loop std device 0 turn ls)) \<and>
     snd (claude_loop std device prev turn ls) = snd (claude_loop std device 0 turn ls)"
proof (induction ls arbitrary: turn)
  case (Cons l ls)
  then show ?case
    by (cases "extractTimestampMS std l > 0")
      (auto simp: Let_def case_prod_beta split: option.splits)
qed simp

text \<open>C18. A log read in two scans, the second from the byte the first reports as consumed and with the
  turn start it hands back, yields what one scan of the whole file yields: the same events in the same
  order, down to their ids, tokens and generation times, the same limit hits, the same cursor. Only a
  duration may differ, and then it is 0 in the two-scan reading (the clock before the cursor is gone).\<close>

theorem claude_scan_is_incremental:
  "let r1 = claude_Parse std A device turn0;
       r2 = claude_Parse std (drop (nat (res_consumed r1)) (A @ B)) device (res_turn_start r1);
       r = claude_Parse std (A @ B) device turn0
   in list_all2 same_but_duration (res_events r) (res_events r1 @ res_events r2) \<and>
      res_quotas r = res_quotas r1 @ res_quotas r2 \<and>
      res_consumed r = res_consumed r1 + res_consumed r2 \<and> res_turn_start r = res_turn_start r2"
proof -
  let ?la = "fst (log_lines A)" and ?lb = "fst (log_lines (snd (log_lines A) @ B))"
  have ab: "fst (log_lines (A @ B)) = ?la @ ?lb" by (subst log_lines_append) simp
  have dr: "drop (nat (res_consumed (claude_Parse std A device turn0))) (A @ B) = snd (log_lines A) @ B"
    by (simp only: claude_Parse_def Let_def case_prod_beta parse_result.simps nat_int drop_lines)
  obtain es qs t1 where l1: "claude_loop std device 0 turn0 ?la = (es, qs, t1)" by (cases rule: prod_cases3)
  define p where "p = foldl (\<lambda>p l. if extractTimestampMS std l > 0 then extractTimestampMS std l else p) 0 ?la"
  show ?thesis using claude_loop_prev [of std device p t1 ?lb] l1
    unfolding Let_def dr unfolding claude_Parse_def ab
    by (auto simp: claude_loop_append Let_def case_prod_beta p_def [symmetric] intro!: list_all2_appendI)
qed

end
