(* ===== verification/Codex_Parser.thy ===== *)
theory Codex_Parser
  imports Claude_Parser
begin

text \<open>
  \<open>internal/parser/codex/parser.go\<close>: Codex rollout logs to usage events and quota snapshots. The file is
  read whole; \<open>codex_state\<close> is what the loop of \<open>parse\<close> keeps. \<open>json.Unmarshal\<close>, \<open>time.Parse\<close> and
  \<open>crypto/sha1\<close> are parameters.
\<close>

definition CodexSource :: string where "CodexSource = ''codex''"

record codex_usage =
  cu_input :: int
  cu_cached :: int
  cu_cache_write :: int
  cu_output :: int
  cu_reasoning :: int
  cu_total :: int

record limit_state =
  lm_used_percent :: float64
  lm_window_minutes :: int
  lm_resets_at :: int

record rate_limits =
  rl_limit_id :: string
  rl_primary :: "limit_state option"
  rl_secondary :: "limit_state option"
  rl_plan_type :: string
  rl_credits :: "string option"

record codex_info =
  ci_model :: string
  ci_last :: "codex_usage option"
  ci_total :: "codex_usage option"

record codex_entry =
  xe_timestamp :: string
  xe_type :: string
  xe_id :: string
  xe_session_id :: string
  xe_cwd :: string
  xe_cli_version :: string
  xe_model_provider :: string
  xe_model :: string
  xe_payload_type :: string
  xe_info :: "codex_info option"
  xe_turn_id :: string
  xe_completed_at :: int
  xe_duration_ms :: int
  xe_ttft_ms :: int
  xe_rate_limits :: "rate_limits option"

record open_turn =
  ot_id :: string
  ot_idx :: "nat list"
  ot_ts :: "int list"

record codex_std =
  cx_unmarshal :: "string \<Rightarrow> codex_entry option"
  cx_time :: "string \<Rightarrow> int option"
  cx_sha1 :: "string \<Rightarrow> 8 word list"

section \<open>Identity\<close>

definition codexEventID :: "codex_std \<Rightarrow> string \<Rightarrow> string \<Rightarrow> int \<Rightarrow> codex_usage \<Rightarrow> string" where
  "codexEventID std rolloutID ts seq u =
     ''cx:'' @ hex_encode (take 12 (cx_sha1 std (bar_join [rolloutID, ts, format_int seq, format_int (cu_input u),
       format_int (cu_cached u), format_int (cu_output u), format_int (cu_total u)])))"

fun uuid_form :: "nat \<Rightarrow> string \<Rightarrow> bool" where
  "uuid_form i [] \<longleftrightarrow> True"
| "uuid_form i (c # s) \<longleftrightarrow>
     (if i = 8 \<or> i = 13 \<or> i = 18 \<or> i = 23 then c = CHR 0x2D
      else is_digit c \<or> (97 \<le> (of_char c :: nat) \<and> (of_char c :: nat) \<le> 102)) \<and> uuid_form (i + 1) s"

definition isUUID :: "string \<Rightarrow> bool" where
  "isUUID s \<longleftrightarrow> length s = 36 \<and> uuid_form 0 s"

definition codexDedupKey :: "codex_std \<Rightarrow> string \<Rightarrow> codex_usage option \<Rightarrow> string" where
  "codexDedupKey std turnID tot =
     (case tot of
        None \<Rightarrow> []
      | Some t \<Rightarrow>
          if \<not> isUUID turnID then []
          else ''cxg:'' @ hex_encode (take 12 (cx_sha1 std (bar_join [turnID, format_int (cu_input t),
            format_int (cu_cached t), format_int (cu_cache_write t), format_int (cu_output t),
            format_int (cu_reasoning t), format_int (cu_total t)]))))"

section \<open>Usage of one request\<close>

definition usage_diff :: "codex_usage \<Rightarrow> codex_usage \<Rightarrow> codex_usage" where
  "usage_diff t p = \<lparr>cu_input = max (i64 (cu_input t - cu_input p)) 0, cu_cached = max (i64 (cu_cached t - cu_cached p)) 0,
     cu_cache_write = max (i64 (cu_cache_write t - cu_cache_write p)) 0, cu_output = max (i64 (cu_output t - cu_output p)) 0,
     cu_reasoning = max (i64 (cu_reasoning t - cu_reasoning p)) 0, cu_total = max (i64 (cu_total t - cu_total p)) 0\<rparr>"

definition deltaUsage :: "codex_usage option \<Rightarrow> codex_usage option \<Rightarrow> codex_usage option \<Rightarrow>
    codex_usage option \<times> codex_usage option" where
  "deltaUsage recent tot prevTotal =
     (let advanced = (tot = None \<or> prevTotal = None \<or> tot \<noteq> prevTotal)
      in if recent \<noteq> None \<and> advanced then (recent, tot)
         else (case (tot, prevTotal) of
             (Some t, Some p) \<Rightarrow> if advanced then (Some (usage_diff t p), tot) else (None, tot)
           | (Some t, None) \<Rightarrow> (tot, tot)
           | (None, _) \<Rightarrow> (None, tot)))"

section \<open>Quota snapshots and the billing channel\<close>

definition quota_of_limit :: "rate_limits \<Rightarrow> string \<Rightarrow> int \<Rightarrow> string \<Rightarrow> limit_state option \<Rightarrow> quota_snapshot list" where
  "quota_of_limit q device observedMS scope st =
     (case st of
        None \<Rightarrow> []
      | Some s \<Rightarrow>
          if lm_window_minutes s \<le> 0 then []
          else [\<lparr>q_device = device, q_source = CodexSource, q_limit_id = rl_limit_id q, q_scope = scope,
             q_window_minutes = lm_window_minutes s, q_used_percent = lm_used_percent s,
             q_resets_at = i64 (lm_resets_at s * 1000), q_observed_at = observedMS, q_plan_type = rl_plan_type q\<rparr>])"

definition quotaSnapshots :: "rate_limits \<Rightarrow> string \<Rightarrow> int \<Rightarrow> quota_snapshot list" where
  "quotaSnapshots q device observedMS =
     quota_of_limit q device observedMS ''primary'' (rl_primary q) @
     quota_of_limit q device observedMS ''secondary'' (rl_secondary q)"

definition builtinOpenAIProvider :: string where "builtinOpenAIProvider = ''openai''"

definition codexProviderLabel :: "string \<Rightarrow> string" where
  "codexProviderLabel p = (if TrimSpace p = [] then ProviderUnknown else TrimSpace p)"

definition planEvidence :: "rate_limits \<Rightarrow> bool" where
  "planEvidence q \<longleftrightarrow> rl_plan_type q \<noteq> [] \<or> rl_credits q \<noteq> None"

definition applySessionChannel :: "event list \<Rightarrow> string \<Rightarrow> bool \<Rightarrow> (string \<Rightarrow> bool) option \<Rightarrow> event list" where
  "applySessionChannel events provider subscription trusted =
     (let p = TrimSpace provider
      in if \<not> subscription then events
         else if p \<noteq> builtinOpenAIProvider \<and> (case trusted of None \<Rightarrow> True | Some f \<Rightarrow> \<not> f p) then events
         else map (\<lambda>e. e\<lparr>ev_provider := ProviderOpenAIChatGPT\<rparr>) events)"

section \<open>The generation interval of a turn\<close>

definition replayToleranceMS :: int where "replayToleranceMS = 60 * 1000"

text \<open>Differences of neighbours: \<open>f t\<^sub>0 t\<^sub>1, f t\<^sub>1 t\<^sub>2, \<dots>\<close>.\<close>

fun gaps :: "(int \<Rightarrow> int \<Rightarrow> int) \<Rightarrow> int list \<Rightarrow> int list" where
  "gaps f (s # t # ts) = f s t # gaps f (t # ts)"
| "gaps f ts = []"

text \<open>The \<open>shares\<close> of a turn of two events or more, before and after the lower bound of one millisecond.\<close>

definition raw_shares :: "int \<Rightarrow> int list \<Rightarrow> int list" where
  "raw_shares genMS ts =
     (let spread = i64 (last ts - hd ts)
      in if spread \<le> genMS then i64 (genMS - max spread 0) # gaps (\<lambda>s t. i64 (t - s)) ts
         else
           let shares = gaps (\<lambda>s t. go_quot (i64 (max (i64 (t - s)) 0 * genMS)) spread) ts
           in i64 (genMS - foldl (\<lambda>a s. i64 (a + s)) 0 shares) # shares)"

definition turn_shares :: "int \<Rightarrow> int list \<Rightarrow> int list" where
  "turn_shares genMS ts = map (\<lambda>s. max s 1) (raw_shares genMS ts)"

definition set_gen :: "event list \<Rightarrow> nat \<Rightarrow> int \<Rightarrow> event list" where
  "set_gen events i g = events[i := (events ! i)\<lparr>ev_gen_ms := g\<rparr>]"

definition closeTurn :: "event list \<Rightarrow> open_turn option \<Rightarrow> int \<Rightarrow> int \<Rightarrow> int \<Rightarrow> int \<Rightarrow> event list" where
  "closeTurn events t closeMS completedAtSec durationMS ttftMS =
     (case t of
        None \<Rightarrow> events
      | Some turn \<Rightarrow>
          if ot_idx turn = [] then events
          else if durationMS \<le> 0 \<or> ttftMS \<le> 0 \<or> ttftMS \<ge> durationMS \<or> completedAtSec \<le> 0 then events
          else
            let completedMS = i64 (completedAtSec * 1000)
            in if i64 (closeMS - completedMS) > replayToleranceMS \<or> i64 (completedMS - closeMS) > replayToleranceMS
               then events
               else
                 let lo = i64 (i64 (closeMS - durationMS) - replayToleranceMS);
                     hi = i64 (closeMS + replayToleranceMS)
                 in if list_ex (\<lambda>ms. ms < lo \<or> ms > hi) (ot_ts turn) then events
                    else
                      let genMS = durationMS - ttftMS;
                          i0 = hd (ot_idx turn);
                          events1 = events[i0 := (events ! i0)\<lparr>ev_ttft_ms := ttftMS\<rparr>]
                      in if length (ot_idx turn) = 1 then set_gen events1 i0 genMS
                         else foldl (\<lambda>es (i, g). set_gen es i g) events1
                                (zip (ot_idx turn) (turn_shares genMS (ot_ts turn))))"

section \<open>The loop\<close>

record codex_state =
  x_rollout_id :: string
  x_session_id :: string
  x_cwd :: string
  x_version :: string
  x_provider :: string
  x_model :: string
  x_prev_total :: "codex_usage option"
  x_prev_ms :: int
  x_turn :: "open_turn option"
  x_subscription :: bool
  x_seq :: int
  x_events :: "event list"
  x_quotas :: "quota_snapshot list"

definition codex_start :: codex_state where
  "codex_start = \<lparr>x_rollout_id = [], x_session_id = [], x_cwd = [], x_version = [], x_provider = [], x_model = [],
     x_prev_total = None, x_prev_ms = 0, x_turn = None, x_subscription = False, x_seq = 0, x_events = [], x_quotas = []\<rparr>"

text \<open>The rate limits of a \<open>token_count\<close> record.\<close>

definition codex_limits :: "string \<Rightarrow> codex_entry \<Rightarrow> codex_state \<Rightarrow> codex_state" where
  "codex_limits device e s =
     (case xe_rate_limits e of
        None \<Rightarrow> s
      | Some q \<Rightarrow> s\<lparr>x_subscription := x_subscription s \<or> planEvidence q,
          x_quotas := (if x_prev_ms s > 0 then x_quotas s @ quotaSnapshots q device (x_prev_ms s) else x_quotas s)\<rparr>)"

text \<open>The event of a usage \<open>u\<close> observed at \<open>ts\<close>.\<close>

definition codex_event :: "codex_std \<Rightarrow> string \<Rightarrow> codex_entry \<Rightarrow> codex_info \<Rightarrow> codex_usage \<Rightarrow> codex_usage option \<Rightarrow>
    int \<Rightarrow> int \<Rightarrow> int \<Rightarrow> codex_state \<Rightarrow> event" where
  "codex_event std device e info u tot ts prevTick seq s =
     (let cached = min (cu_cached u) (cu_input u);
          turnID = (case x_turn s of None \<Rightarrow> [] | Some t \<Rightarrow> ot_id t)
      in zero_event\<lparr>ev_event_id := codexEventID std (x_rollout_id s) (xe_timestamp e) seq u,
           ev_dedup_key := codexDedupKey std turnID tot, ev_ts := ts, ev_device := device, ev_source := CodexSource,
           ev_model := (if ci_model info = [] then x_model s else ci_model info),
           ev_provider := codexProviderLabel (x_provider s), ev_input_tokens := i64 (cu_input u - cached),
           ev_output_tokens := cu_output u, ev_cache_read_tokens := cached, ev_cache_creation_tokens := cu_cache_write u,
           ev_duration_ms := span_ms prevTick ts, ev_session_id := x_session_id s, ev_cwd := x_cwd s,
           ev_app_version := x_version s\<rparr>)"

definition empty_usage :: "codex_usage \<Rightarrow> bool" where
  "empty_usage u \<longleftrightarrow> cu_input u = 0 \<and> cu_cached u = 0 \<and> cu_output u = 0 \<and> cu_reasoning u = 0"

definition codex_usage_line :: "codex_std \<Rightarrow> string \<Rightarrow> codex_entry \<Rightarrow> int \<Rightarrow> codex_state \<Rightarrow> codex_state" where
  "codex_usage_line std device e prevTick s =
     (case xe_info e of
        None \<Rightarrow> s
      | Some info \<Rightarrow>
          let (u, tot) = deltaUsage (ci_last info) (ci_total info) (x_prev_total s);
              s1 = (if tot = None then s else s\<lparr>x_prev_total := tot\<rparr>)
          in (case u of
                None \<Rightarrow> s1
              | Some u1 \<Rightarrow>
                  if empty_usage u1 then s1
                  else (case cx_time std (xe_timestamp e) of
                      None \<Rightarrow> s1
                    | Some ts \<Rightarrow>
                        let seq = i64 (x_seq s1 + 1)
                        in s1\<lparr>x_seq := seq,
                             x_turn := map_option (\<lambda>t. t\<lparr>ot_idx := ot_idx t @ [length (x_events s1)],
                               ot_ts := ot_ts t @ [ts]\<rparr>) (x_turn s1),
                             x_events := x_events s1 @ [codex_event std device e info u1 tot ts prevTick seq s1]\<rparr>)))"

definition codex_entry_step :: "codex_std \<Rightarrow> string \<Rightarrow> codex_entry \<Rightarrow> codex_state \<Rightarrow> codex_state" where
  "codex_entry_step std device e s0 =
     (let prevTick = x_prev_ms s0;
          lineMS = (case cx_time std (xe_timestamp e) of None \<Rightarrow> 0 | Some ms \<Rightarrow> ms);
          s = (if cx_time std (xe_timestamp e) = None then s0 else s0\<lparr>x_prev_ms := lineMS\<rparr>)
      in if xe_type e = ''session_meta'' then
           s\<lparr>x_rollout_id := xe_id e, x_session_id := xe_session_id e, x_cwd := xe_cwd e, x_version := xe_cli_version e,
             x_provider := xe_model_provider e, x_prev_total := None\<rparr>
         else if xe_type e = ''turn_context'' then
           s\<lparr>x_model := (if xe_model e \<noteq> [] then xe_model e else x_model s),
             x_cwd := (if xe_cwd e \<noteq> [] then xe_cwd e else x_cwd s)\<rparr>
         else if xe_type e = ''event_msg'' then
           (if xe_payload_type e = ''task_started'' then
              s\<lparr>x_turn := Some \<lparr>ot_id = xe_turn_id e, ot_idx = [], ot_ts = []\<rparr>\<rparr>
            else if xe_payload_type e = ''task_complete'' \<or> xe_payload_type e = ''turn_aborted'' then
              s\<lparr>x_events := closeTurn (x_events s) (x_turn s) lineMS (xe_completed_at e) (xe_duration_ms e) (xe_ttft_ms e),
                x_turn := None\<rparr>
            else if xe_payload_type e = ''token_count'' then
              codex_usage_line std device e prevTick (codex_limits device e s)
            else s)
         else s)"

definition codex_step :: "codex_std \<Rightarrow> string \<Rightarrow> codex_state \<Rightarrow> string \<Rightarrow> codex_state" where
  "codex_step std device s line =
     (case cx_unmarshal std line of None \<Rightarrow> s | Some e \<Rightarrow> codex_entry_step std device e s)"

definition ParseWith :: "codex_std \<Rightarrow> (string \<Rightarrow> bool) option \<Rightarrow> string \<Rightarrow> string \<Rightarrow> int \<Rightarrow> parse_result" where
  "ParseWith std trusted content device turnStartMS =
     (let lines = fst (log_lines content);
          s = foldl (codex_step std device) codex_start lines
      in \<lparr>res_events = applySessionChannel (x_events s) (x_provider s) (x_subscription s) trusted,
          res_quotas = x_quotas s, res_consumed = int (length (concat lines)), res_turn_start = 0\<rparr>)"

definition codex_Parse :: "codex_std \<Rightarrow> string \<Rightarrow> string \<Rightarrow> int \<Rightarrow> parse_result" where
  "codex_Parse std = ParseWith std None"

end
