(* ===== verification/Codex_Facts.thy ===== *)
theory Codex_Facts
  imports Codex_Parser
begin

text \<open>
  What the Codex loop keeps: the open turn points at the events it collected, closing a turn changes
  only timings, and the shares of a turn tile its generation interval.
\<close>

section \<open>Closing a turn changes only timings\<close>

definition untimed :: "event \<Rightarrow> event" where
  "untimed e = e\<lparr>ev_gen_ms := 0, ev_ttft_ms := 0\<rparr>"

lemma untimed_fields [simp]: "untimed (e\<lparr>ev_gen_ms := g\<rparr>) = untimed e" "untimed (e\<lparr>ev_ttft_ms := g\<rparr>) = untimed e"
  by (simp_all add: untimed_def)

lemma untimed_update: "untimed e = untimed (es ! i) \<Longrightarrow> map untimed (es[i := e]) = map untimed es"
  by (cases "i < length es") (simp_all add: map_update list_update_same_conv list_update_beyond)

lemma set_gen_untimed: "map untimed (set_gen es i g) = map untimed es"
  by (simp add: set_gen_def untimed_update)

lemma set_gens_untimed: "map untimed (foldl (\<lambda>es (i, g). set_gen es i g) es ps) = map untimed es"
  by (induction ps arbitrary: es) (auto simp: set_gen_untimed)

lemma closeTurn_untimed: "map untimed (closeTurn es t c a d f) = map untimed es"
proof -
  have "map untimed (es[i := (es ! i)\<lparr>ev_ttft_ms := f\<rparr>]) = map untimed es" for i
    by (simp add: untimed_update)
  then show ?thesis
    by (auto simp: closeTurn_def Let_def set_gen_untimed set_gens_untimed split: option.split)
qed

lemma closeTurn_length [simp]: "length (closeTurn es t c a d f) = length es"
  using closeTurn_untimed [of es t c a d f] by (metis length_map)

text \<open>A projection that does not read the timings.\<close>

lemma closeTurn_proj: "(\<And>e. f (untimed e) = f e) \<Longrightarrow> map f (closeTurn es t c a d g) = map f es"
  by (metis (mono_tags, lifting) closeTurn_untimed comp_apply list.map_comp map_cong)

section \<open>The open turn\<close>

definition turn_ok :: "codex_state \<Rightarrow> bool" where
  "turn_ok s \<longleftrightarrow> (\<forall>t. x_turn s = Some t \<longrightarrow> distinct (ot_idx t) \<and> (\<forall>i\<in>set (ot_idx t). i < length (x_events s)) \<and>
     ot_ts t = map (\<lambda>i. ev_ts (x_events s ! i)) (ot_idx t))"

lemma codex_limits_keeps [simp]:
  "x_turn (codex_limits device e s) = x_turn s" "x_events (codex_limits device e s) = x_events s"
  "x_prev_total (codex_limits device e s) = x_prev_total s" "x_provider (codex_limits device e s) = x_provider s"
  "x_prev_ms (codex_limits device e s) = x_prev_ms s"
  by (simp_all add: codex_limits_def split: option.splits)

text \<open>A \<open>token_count\<close> record adds at most one event, which the open turn records.\<close>

lemma codex_usage_line_cases:
  obtains (quiet) "x_events (codex_usage_line std device e tick s) = x_events s"
      "x_turn (codex_usage_line std device e tick s) = x_turn s"
  | (counted) info u tot ts seq s1 where "xe_info e = Some info" "deltaUsage (ci_last info) (ci_total info) (x_prev_total s) = (Some u, tot)"
      "\<not> empty_usage u" "cx_time std (xe_timestamp e) = Some ts" "s1 = (if tot = None then s else s\<lparr>x_prev_total := tot\<rparr>)"
      "x_events (codex_usage_line std device e tick s) = x_events s @ [codex_event std device e info u tot ts tick seq s1]"
      "x_turn (codex_usage_line std device e tick s) = map_option (\<lambda>t. t\<lparr>ot_idx := ot_idx t @ [length (x_events s)], ot_ts := ot_ts t @ [ts]\<rparr>) (x_turn s)"
proof (cases "xe_info e")
  case None
  then show ?thesis by (intro quiet) (simp_all add: codex_usage_line_def)
next
  case (Some info)
  obtain u tot where d: "deltaUsage (ci_last info) (ci_total info) (x_prev_total s) = (u, tot)" by fastforce
  show ?thesis
  proof (cases "u = None \<or> empty_usage (the u) \<or> cx_time std (xe_timestamp e) = None")
    case True
    with Some d show ?thesis
      by (intro quiet) (auto simp: codex_usage_line_def Let_def split: option.splits)
  next
    case False
    then obtain u1 ts where "u = Some u1" "\<not> empty_usage u1" "cx_time std (xe_timestamp e) = Some ts" by auto
    with Some d show ?thesis
      by (intro counted [of info u1 tot ts "if tot = None then s else s\<lparr>x_prev_total := tot\<rparr>" "i64 (x_seq s + 1)"])
        (simp_all add: codex_usage_line_def Let_def)
  qed
qed

lemma codex_event_fields [simp]:
  "ev_ts (codex_event std device e info u tot ts tick seq s) = ts"
  "ev_provider (codex_event std device e info u tot ts tick seq s) = codexProviderLabel (x_provider s)"
  "ev_device (codex_event std device e info u tot ts tick seq s) = device"
  "ev_source (codex_event std device e info u tot ts tick seq s) = CodexSource"
  "ev_output_tokens (codex_event std device e info u tot ts tick seq s) = cu_output u"
  "ev_gen_ms (codex_event std device e info u tot ts tick seq s) = ev_gen_ms zero_event"
  by (simp_all add: codex_event_def Let_def)

lemma turn_ok_usage_line:
  assumes "turn_ok s"
  shows "turn_ok (codex_usage_line std device e tick s)"
proof (cases rule: codex_usage_line_cases [where s = s and std = std and device = device and e = e and tick = tick])
  case quiet
  with assms show ?thesis by (simp add: turn_ok_def)
next
  case (counted info u tot ts seq s1)
  show ?thesis
  proof (cases "x_turn s")
    case None
    with counted(7) show ?thesis by (simp add: turn_ok_def)
  next
    case (Some t)
    with assms have "distinct (ot_idx t)" "\<forall>i\<in>set (ot_idx t). i < length (x_events s)"
      "ot_ts t = map (\<lambda>i. ev_ts (x_events s ! i)) (ot_idx t)" by (auto simp: turn_ok_def)
    then show ?thesis using Some counted(6,7) by (auto simp: turn_ok_def nth_append)
  qed
qed

lemma turn_ok_closed: "x_turn s = None \<Longrightarrow> turn_ok s" "x_turn s = Some \<lparr>ot_id = i, ot_idx = [], ot_ts = []\<rparr> \<Longrightarrow> turn_ok s"
  by (simp_all add: turn_ok_def)

lemma turn_ok_step:
  assumes "turn_ok s0"
  shows "turn_ok (codex_entry_step std device e s0)"
proof -
  define s where "s = (if cx_time std (xe_timestamp e) = None then s0
    else s0\<lparr>x_prev_ms := (case cx_time std (xe_timestamp e) of None \<Rightarrow> 0 | Some ms \<Rightarrow> ms)\<rparr>)"
  have s: "turn_ok s" using assms by (simp add: s_def turn_ok_def)
  then have "turn_ok (codex_usage_line std device e (x_prev_ms s0) (codex_limits device e s))"
    by (intro turn_ok_usage_line) (simp add: turn_ok_def)
  then show ?thesis using s unfolding codex_entry_step_def Let_def s_def [symmetric]
    by (simp add: turn_ok_closed) (simp add: turn_ok_def)
qed

lemma turn_ok_run: "turn_ok (foldl (codex_step std device) codex_start lines)"
proof (induction lines rule: rev_induct)
  case (snoc l ls)
  then show ?case by (simp add: codex_step_def turn_ok_step split: option.split)
qed (simp add: turn_ok_def codex_start_def)

section \<open>The shares of a turn\<close>

abbreviation steps_of :: "int list \<Rightarrow> int list" where
  "steps_of \<equiv> gaps (\<lambda>s t. t - s)"

lemma gaps_length [simp]: "length (gaps f ts) = length ts - 1"
  by (induction f ts rule: gaps.induct) auto

lemma gaps_of_steps: "gaps (\<lambda>s t. F (t - s)) ts = map F (steps_of ts)"
  by (induction "\<lambda>s t. F (t - s)" ts rule: gaps.induct) auto

lemma steps_sum: "ts \<noteq> [] \<Longrightarrow> sum_list (steps_of ts) = last ts - hd ts"
  by (induction "\<lambda>s t::int. t - s" ts rule: gaps.induct) auto

lemma steps_nonneg: "sorted ts \<Longrightarrow> d \<in> set (steps_of ts) \<Longrightarrow> 0 \<le> d"
  by (induction "\<lambda>s t::int. t - s" ts rule: gaps.induct) auto

lemma member_le_sum: "(\<And>x. x \<in> set xs \<Longrightarrow> 0 \<le> x) \<Longrightarrow> d \<in> set xs \<Longrightarrow> d \<le> sum_list (xs :: int list)"
  by (rule member_le_sum_list)

lemma steps_le: "sorted ts \<Longrightarrow> d \<in> set (steps_of ts) \<Longrightarrow> d \<le> last ts - hd ts"
  by (metis empty_iff empty_set gaps.simps(2) member_le_sum steps_nonneg steps_sum)

lemma div_sum_le: "0 < (c::int) \<Longrightarrow> a div c + b div c \<le> (a + b) div c"
  using div_add1_eq [of a b c] by (simp add: pos_imp_zdiv_nonneg_iff)

lemma scaled_sum_le:
  "0 < c \<Longrightarrow> sum_list (map (\<lambda>d. d * g div c) ds) \<le> (sum_list ds * g) div (c :: int)"
proof (induction ds)
  case (Cons d ds)
  then show ?case using div_sum_le [of c "d * g" "sum_list ds * g"] by (simp add: distrib_right)
qed simp

lemma in_range: "(a::int) \<le> b \<Longrightarrow> b < 2 ^ 62 \<Longrightarrow> a < 2 ^ 63"
  by simp

lemma i64_below: "0 \<le> a \<Longrightarrow> a \<le> b \<Longrightarrow> b < 2 ^ 62 \<Longrightarrow> i64 a = a"
  by (intro i64_bounded) simp_all

text \<open>Within the range of \<open>int64\<close> the shares before the lower bound add up to the interval.\<close>

lemma raw_shares_sum:
  assumes "sorted ts" "ts \<noteq> []" "0 < gen" "gen < 2 ^ 62" "last ts - hd ts < 2 ^ 62" "(last ts - hd ts) * gen < 2 ^ 63"
  defines "spread \<equiv> last ts - hd ts"
  shows "spread \<le> gen \<Longrightarrow> raw_shares gen ts = (gen - spread) # steps_of ts"
    and "gen < spread \<Longrightarrow> \<exists>rs. raw_shares gen ts = (gen - sum_list rs) # rs \<and> length rs = length ts - 1 \<and>
      sum_list rs \<le> gen \<and> (\<forall>r\<in>set rs. 0 \<le> r)"
proof -
  have d: "0 \<le> d \<and> d \<le> spread" if "d \<in> set (steps_of ts)" for d
    using that assms(1) steps_nonneg steps_le unfolding spread_def by blast
  have sp: "0 \<le> spread" using assms(1,2) unfolding spread_def
    by (metis diff_ge_0_iff_ge hd_in_set last_in_set list.collapse last_ConsL last_ConsR sorted_simps(2) order_refl)
  have sp64: "i64 spread = spread" using sp assms(5) unfolding spread_def by (intro i64_bounded) auto
  have steps64: "gaps (\<lambda>s t. i64 (t - s)) ts = steps_of ts"
    unfolding gaps_of_steps [of i64] using d assms(5) unfolding spread_def [symmetric]
    by (intro map_idI i64_bounded) fastforce+
  have g64: "i64 (gen - spread) = gen - spread" using sp assms(3-5) unfolding spread_def [symmetric] by (intro i64_bounded) auto
  show "spread \<le> gen \<Longrightarrow> raw_shares gen ts = (gen - spread) # steps_of ts"
    using sp by (simp add: raw_shares_def spread_def [symmetric] sp64 steps64 g64 max_absorb1)
  assume gs: "gen < spread"
  let ?rs = "map (\<lambda>d. d * gen div spread) (steps_of ts)"
  have "go_quot (i64 (max (i64 e) 0 * gen)) spread = e * gen div spread" if "e \<in> set (steps_of ts)" for e
  proof -
    have e: "0 \<le> e" "e \<le> spread" using d [OF that] by auto
    then have "e * gen \<le> spread * gen" using assms(3) by (intro mult_right_mono) auto
    moreover have "0 \<le> e * gen" using e assms(3) by simp
    ultimately have "i64 (e * gen) = e * gen" using assms(6) unfolding spread_def [symmetric] by (intro i64_bounded) auto
    moreover have "i64 e = e" using e assms(5) unfolding spread_def [symmetric] by (intro i64_bounded) auto
    ultimately show ?thesis using e gs assms(3) \<open>0 \<le> e * gen\<close> by (simp add: max_absorb1 go_quot_nonneg)
  qed
  then have rs: "gaps (\<lambda>s t. go_quot (i64 (max (i64 (t - s)) 0 * gen)) spread) ts = ?rs"
    by (subst gaps_of_steps [of "\<lambda>e. go_quot (i64 (max (i64 e) 0 * gen)) spread"]) (rule map_cong, simp_all)
  have nn: "0 \<le> r" if "r \<in> set ?rs" for r
    using that d gs assms(3) by (auto intro!: pos_imp_zdiv_nonneg_iff [THEN iffD2])
  have le: "sum_list ?rs \<le> gen"
    using scaled_sum_le [of spread gen "steps_of ts"] gs assms(3) steps_sum [OF assms(2)] by (simp add: spread_def)
  have "0 + sum_list ?rs < 2 ^ 63" unfolding add_0 by (rule in_range [OF le assms(4)])
  then have f: "foldl (\<lambda>a s. i64 (a + s)) 0 ?rs = sum_list ?rs"
    using fold_i64_sum [of ?rs 0, OF nn order_refl] by (simp only: add_0)
  have "0 \<le> sum_list ?rs" using nn by (rule sum_list_nonneg)
  then have g: "i64 (gen - sum_list ?rs) = gen - sum_list ?rs"
    by (intro i64_below [OF _ _ assms(4)]) (simp_all only: diff_ge_0_iff_ge le diff_le_eq le_add_same_cancel1)
  have "\<not> spread \<le> gen" using gs by simp
  then have "raw_shares gen ts = (gen - sum_list ?rs) # ?rs"
    unfolding raw_shares_def Let_def spread_def [symmetric] sp64 by (simp only: if_False rs f g)
  moreover have "length ?rs = length ts - 1" by (simp only: length_map gaps_length)
  ultimately show "\<exists>rs. raw_shares gen ts = (gen - sum_list rs) # rs \<and> length rs = length ts - 1 \<and>
      sum_list rs \<le> gen \<and> (\<forall>r\<in>set rs. 0 \<le> r)"
    using le nn by blast
qed

text \<open>The slices \<open>[t - g, t)\<close>.\<close>

definition slice_union :: "int list \<Rightarrow> int list \<Rightarrow> int set" where
  "slice_union ts gs = (\<Union>(t, g)\<in>set (zip ts gs). {t - g..<t})"

lemma slices_tile:
  "sorted (s # ts) \<Longrightarrow> lo < s \<Longrightarrow>
     {lo..<s} \<union> slice_union ts (map (\<lambda>g. max g 1) (steps_of (s # ts))) = {lo..<last (s # ts)}"
proof (induction ts arbitrary: s)
  case (Cons t ts)
  then have "s \<le> t" by simp
  then have "{lo..<s} \<union> {t - max (t - s) 1..<t} = {lo..<t}" using Cons.prems(2) by (auto simp: max_def)
  moreover have "{lo..<t} \<union> slice_union ts (map (\<lambda>g. max g 1) (steps_of (t # ts))) = {lo..<last (t # ts)}"
    using Cons.prems \<open>s \<le> t\<close> by (intro Cons.IH) auto
  ultimately show ?case by (simp add: slice_union_def Un_assoc [symmetric])
qed (simp add: slice_union_def)

lemma max_one_sum:
  "(\<And>x. x \<in> set xs \<Longrightarrow> 0 \<le> x) \<Longrightarrow>
     sum_list xs \<le> sum_list (map (\<lambda>s. max s 1) xs) \<and> sum_list (map (\<lambda>s. max s 1) xs) \<le> sum_list xs + int (length (xs :: int list))"
proof (induction xs)
  case (Cons x xs)
  then have "0 \<le> x" "sum_list xs \<le> sum_list (map (\<lambda>s. max s 1) xs) \<and> sum_list (map (\<lambda>s. max s 1) xs) \<le> sum_list xs + int (length xs)"
    by auto
  then show ?case by (auto simp: max_def)
qed simp

lemma turn_shares_tile:
  assumes "sorted ts" "ts \<noteq> []" "0 < gen" "gen < 2 ^ 62" "last ts - hd ts < 2 ^ 62" "(last ts - hd ts) * gen < 2 ^ 63"
  shows "length (turn_shares gen ts) = length ts" "\<forall>g\<in>set (turn_shares gen ts). 1 \<le> g"
    "gen \<le> sum_list (turn_shares gen ts)" "sum_list (turn_shares gen ts) \<le> gen + int (length ts)"
    "last ts - hd ts < gen \<Longrightarrow> slice_union ts (turn_shares gen ts) = {last ts - gen..<last ts}"
proof -
  note raw = raw_shares_sum [OF assms]
  have r: "length (raw_shares gen ts) = length ts \<and> sum_list (raw_shares gen ts) = gen \<and> (\<forall>x\<in>set (raw_shares gen ts). 0 \<le> x)"
  proof (cases "last ts - hd ts \<le> gen")
    case True
    with raw(1) assms(1,2) steps_sum [OF assms(2)] show ?thesis
      by (auto simp: Suc_le_eq intro: steps_nonneg)
  next
    case False
    with raw(2) assms(2) show ?thesis by (force simp: Suc_le_eq)
  qed
  show "length (turn_shares gen ts) = length ts" using r by (simp add: turn_shares_def)
  show "\<forall>g\<in>set (turn_shares gen ts). 1 \<le> g" by (auto simp: turn_shares_def)
  show "gen \<le> sum_list (turn_shares gen ts)" "sum_list (turn_shares gen ts) \<le> gen + int (length ts)"
    using max_one_sum [of "raw_shares gen ts"] r by (auto simp: turn_shares_def)
  assume lt: "last ts - hd ts < gen"
  obtain s us where ts: "ts = s # us" using assms(2) by (cases ts) auto
  let ?spread = "last ts - hd ts"
  have "max (gen - ?spread) 1 = gen - ?spread" using lt by simp
  then have "turn_shares gen ts = (gen - ?spread) # map (\<lambda>g. max g 1) (steps_of ts)"
    using raw(1) lt by (simp add: turn_shares_def)
  moreover have "{s - (gen - ?spread)..<s} \<union> slice_union us (map (\<lambda>g. max g 1) (steps_of ts)) = {s - (gen - ?spread)..<last ts}"
    using slices_tile [of s us "s - (gen - ?spread)"] assms(1) lt ts by simp
  ultimately show "slice_union ts (turn_shares gen ts) = {last ts - gen..<last ts}"
    using ts by (simp add: slice_union_def)
qed

end
