(* ===== verification/Codex_Properties.thy ===== *)
theory Codex_Properties
  imports Codex_Facts
begin

text \<open>
  What a Codex rollout contributes: each turn's generation interval, tokens that are counted once and a
  subscription label that needs evidence.
\<close>

section \<open>Closing a live turn\<close>

lemma set_gens_nth:
  "distinct is \<Longrightarrow> \<forall>i\<in>set is. i < length es \<Longrightarrow> length gs = length is \<Longrightarrow>
     map (\<lambda>i. ev_gen_ms (foldl (\<lambda>es (i, g). set_gen es i g) es (zip is gs) ! i)) is = gs \<and>
     (\<forall>j. j \<notin> set is \<longrightarrow> foldl (\<lambda>es (i, g). set_gen es i g) es (zip is gs) ! j = es ! j) \<and>
     map (\<lambda>e. e\<lparr>ev_gen_ms := 0\<rparr>) (foldl (\<lambda>es (i, g). set_gen es i g) es (zip is gs)) = map (\<lambda>e. e\<lparr>ev_gen_ms := 0\<rparr>) es"
proof (induction "is" arbitrary: es gs)
  case (Cons i "is")
  then obtain g gs' where gs: "gs = g # gs'" by (cases gs) auto
  have i: "i < length es" "i \<notin> set is" using Cons.prems by auto
  have "map (\<lambda>e. e\<lparr>ev_gen_ms := 0\<rparr>) (set_gen es i g) = map (\<lambda>e. e\<lparr>ev_gen_ms := 0\<rparr>) es"
    using i by (intro nth_equalityI) (auto simp: set_gen_def nth_list_update)
  moreover have "set_gen es i g ! i = (es ! i)\<lparr>ev_gen_ms := g\<rparr>" "\<And>j. j \<noteq> i \<Longrightarrow> set_gen es i g ! j = es ! j"
    using i by (simp_all add: set_gen_def)
  moreover have "length (set_gen es i g) = length es" by (simp add: set_gen_def)
  ultimately show ?case using Cons.IH [of "set_gen es i g" gs'] Cons.prems gs i by auto
qed simp

definition live_turn :: "int list \<Rightarrow> int \<Rightarrow> int \<Rightarrow> int \<Rightarrow> int \<Rightarrow> bool" where
  "live_turn ts closeMS completedAtSec durationMS ttftMS \<longleftrightarrow>
     0 < ttftMS \<and> ttftMS < durationMS \<and> durationMS \<le> 2 ^ 31 \<and> 0 < completedAtSec \<and> completedAtSec \<le> 2 ^ 50 \<and>
     \<bar>closeMS - completedAtSec * 1000\<bar> \<le> replayToleranceMS \<and>
     (\<forall>ms\<in>set ts. closeMS - durationMS - replayToleranceMS \<le> ms \<and> ms \<le> closeMS + replayToleranceMS)"

lemma closeTurn_live:
  assumes live: "live_turn (ot_ts t) closeMS completed duration ttft"
    and t: "ot_idx t \<noteq> []" "distinct (ot_idx t)" "\<forall>i\<in>set (ot_idx t). i < length es" "length (ot_ts t) = length (ot_idx t)"
  shows "closeTurn es (Some t) closeMS completed duration ttft =
    foldl (\<lambda>es (i, g). set_gen es i g) (es[hd (ot_idx t) := (es ! hd (ot_idx t))\<lparr>ev_ttft_ms := ttft\<rparr>])
      (zip (ot_idx t) (turn_shares (duration - ttft) (ot_ts t)))"
proof -
  have b: "0 < duration" "duration \<le> 2147483648" "\<bar>closeMS - completed * 1000\<bar> \<le> 60000" "0 < completed * 1000"
    "completed * 1000 \<le> 1125899906842624000"
    using live by (simp_all add: live_turn_def replayToleranceMS_def)
  have w: "i64 (completed * 1000) = completed * 1000" "i64 (closeMS - completed * 1000) = closeMS - completed * 1000"
    "i64 (completed * 1000 - closeMS) = completed * 1000 - closeMS" "i64 (closeMS - duration) = closeMS - duration"
    "i64 (closeMS - duration - replayToleranceMS) = closeMS - duration - replayToleranceMS"
    "i64 (closeMS + replayToleranceMS) = closeMS + replayToleranceMS" "i64 (duration - ttft) = duration - ttft"
    using b live by (auto intro!: i64_bounded simp: live_turn_def replayToleranceMS_def)
  have off: "\<not> list_ex (\<lambda>ms. ms < closeMS - duration - replayToleranceMS \<or> ms > closeMS + replayToleranceMS) (ot_ts t)"
    using live by (auto simp: live_turn_def list_ex_iff)
  have guards: "\<not> (duration \<le> 0 \<or> ttft \<le> 0 \<or> ttft \<ge> duration \<or> completed \<le> 0)"
    "\<not> (closeMS - completed * 1000 > replayToleranceMS \<or> completed * 1000 - closeMS > replayToleranceMS)"
    using live by (auto simp: live_turn_def)
  have single: "zip (ot_idx t) (turn_shares (duration - ttft) (ot_ts t)) = [(hd (ot_idx t), duration - ttft)]"
    if "length (ot_idx t) = 1"
  proof -
    obtain i ms where "ot_idx t = [i]" "ot_ts t = [ms]"
      using \<open>length (ot_idx t) = 1\<close> t(4) by (metis One_nat_def length_0_conv length_Suc_conv)
    moreover have "0 < duration - ttft" "i64 (duration - ttft) = duration - ttft" using live w by (simp_all add: live_turn_def)
    ultimately show ?thesis by (simp add: turn_shares_def raw_shares_def i64_def)
  qed
  show ?thesis
    unfolding closeTurn_def option.case Let_def w using t(1) guards off single by (simp only: if_False) simp
qed

lemma turn_spread:
  assumes "live_turn ts closeMS completed duration ttft" "ts \<noteq> []"
  shows "0 < duration - ttft" "duration - ttft < 2 ^ 62" "last ts - hd ts < 2 ^ 62" "(last ts - hd ts) * (duration - ttft) < 2 ^ 63"
proof -
  have ends: "closeMS - duration - 60000 \<le> hd ts" "last ts \<le> closeMS + 60000" and d: "0 < ttft" "ttft < duration" "duration \<le> 2147483648"
    using assms by (auto simp: live_turn_def replayToleranceMS_def)
  then have s: "last ts - hd ts \<le> 2147483648 + 120000" by linarith
  have g: "0 < duration - ttft" "duration - ttft \<le> 2147483648" using d by linarith+
  have "(last ts - hd ts) * (duration - ttft) \<le> (2147483648 + 120000) * 2147483648"
  proof (cases "0 \<le> last ts - hd ts")
    case True
    with s g show ?thesis by (intro mult_mono) auto
  next
    case False
    then have "(last ts - hd ts) * (duration - ttft) \<le> 0" using g by (simp add: mult_le_0_iff)
    then show ?thesis by simp
  qed
  with s g show "0 < duration - ttft" "duration - ttft < 2 ^ 62" "last ts - hd ts < 2 ^ 62" "(last ts - hd ts) * (duration - ttft) < 2 ^ 63"
    by auto
qed

text \<open>C19. When a turn that was lived rather than replayed closes (its record's clocks agree, it took at
  most 24 days, its lines are in order), every usage event inside it gets a generation time of at
  least one millisecond; together they last the turn's own \<open>duration - ttft\<close>, plus at most a millisecond
  per event; if the lines span less than that, the slices cover exactly the interval that ends at the
  last line. The first event alone gets the latency, and nothing else of any event changes.\<close>

theorem codex_turn_is_tiled:
  assumes run: "foldl (codex_step std device) codex_start lines = s" and turn: "x_turn s = Some t" "ot_idx t \<noteq> []"
    and live: "live_turn (ot_ts t) closeMS completed duration ttft" and sorted: "sorted (ot_ts t)"
    and closed: "closeTurn (x_events s) (x_turn s) closeMS completed duration ttft = es"
  shows "let gens = map (\<lambda>i. ev_gen_ms (es ! i)) (ot_idx t); ts = map (\<lambda>i. ev_ts (es ! i)) (ot_idx t); gen = duration - ttft
    in (\<forall>g\<in>set gens. 1 \<le> g) \<and> gen \<le> sum_list gens \<and> sum_list gens \<le> gen + int (length gens) \<and>
       (last ts - hd ts < gen \<longrightarrow> slice_union ts gens = {last ts - gen..<last ts}) \<and>
       ev_ttft_ms (es ! hd (ot_idx t)) = ttft \<and> map untimed es = map untimed (x_events s) \<and>
       (\<forall>j. j \<notin> set (ot_idx t) \<longrightarrow> es ! j = x_events s ! j)"
proof -
  let ?es1 = "(x_events s)[hd (ot_idx t) := (x_events s ! hd (ot_idx t))\<lparr>ev_ttft_ms := ttft\<rparr>]"
  let ?gs = "turn_shares (duration - ttft) (ot_ts t)"
  have ok: "distinct (ot_idx t)" "\<forall>i\<in>set (ot_idx t). i < length (x_events s)" "ot_ts t = map (\<lambda>i. ev_ts (x_events s ! i)) (ot_idx t)"
    using turn_ok_run [of std device lines] turn(1) unfolding run turn_ok_def by auto
  then have ne: "ot_ts t \<noteq> []" using turn(2) by simp
  note tile = turn_shares_tile [OF sorted ne turn_spread [OF live ne]]
  have es: "es = foldl (\<lambda>es (i, g). set_gen es i g) ?es1 (zip (ot_idx t) ?gs)"
    using closeTurn_live [OF live turn(2) ok(1,2)] closed turn(1) ok(3) by simp
  have len: "length ?gs = length (ot_idx t)" using tile(1) ok(3) by simp
  have gens: "map (\<lambda>i. ev_gen_ms (es ! i)) (ot_idx t) = ?gs" "\<And>j. j \<notin> set (ot_idx t) \<Longrightarrow> es ! j = ?es1 ! j"
    "map (\<lambda>e. e\<lparr>ev_gen_ms := 0\<rparr>) es = map (\<lambda>e. e\<lparr>ev_gen_ms := 0\<rparr>) ?es1"
    using set_gens_nth [of "ot_idx t" ?es1 ?gs] ok len unfolding es by auto
  have unt: "map untimed es = map untimed (x_events s)" using closeTurn_untimed closed by metis
  then have ln: "length es = length (x_events s)" by (metis length_map)
  have "ev_ts (es ! i) = ev_ts (x_events s ! i)" if "i \<in> set (ot_idx t)" for i
  proof -
    have "untimed (es ! i) = untimed (x_events s ! i)" using unt that ok(2) ln by (metis nth_map)
    then have "ev_ts (untimed (es ! i)) = ev_ts (untimed (x_events s ! i))" by simp
    then show ?thesis by (simp add: untimed_def)
  qed
  then have ts: "map (\<lambda>i. ev_ts (es ! i)) (ot_idx t) = ot_ts t" using ok(3) by simp
  have hd: "hd (ot_idx t) < length (x_events s)" using ok(2) turn(2) by simp
  then have "(es ! hd (ot_idx t))\<lparr>ev_gen_ms := 0\<rparr> = (?es1 ! hd (ot_idx t))\<lparr>ev_gen_ms := 0\<rparr>"
    using gens(3) ln by (metis length_list_update nth_map)
  then have "ev_ttft_ms ((es ! hd (ot_idx t))\<lparr>ev_gen_ms := 0\<rparr>) = ev_ttft_ms ((?es1 ! hd (ot_idx t))\<lparr>ev_gen_ms := 0\<rparr>)" by simp
  then have "ev_ttft_ms (es ! hd (ot_idx t)) = ttft" using hd by simp
  moreover have "es ! j = x_events s ! j" if "j \<notin> set (ot_idx t)" for j
    using gens(2) [OF that] that turn(2) by (metis hd_in_set nth_list_update_neq)
  moreover have "length (ot_ts t) = length (ot_idx t)" using ok(3) by simp
  ultimately show ?thesis
    using tile(2-5) len unt by (simp add: Let_def gens(1) ts)
qed

text \<open>A turn with two requests, 600 ms and 1000 ms after its start, whose latency was 250 ms.\<close>

definition bare_entry :: codex_entry where
  "bare_entry = \<lparr>xe_timestamp = ''z'', xe_type = ''event_msg'', xe_id = [], xe_session_id = [], xe_cwd = [],
     xe_cli_version = [], xe_model_provider = [], xe_model = [], xe_payload_type = ''token_count'', xe_info = None,
     xe_turn_id = [], xe_completed_at = 0, xe_duration_ms = 0, xe_ttft_ms = 0, xe_rate_limits = None\<rparr>"

definition usage_of :: "int \<Rightarrow> codex_usage" where
  "usage_of n = \<lparr>cu_input = n, cu_cached = 0, cu_cache_write = 0, cu_output = n, cu_reasoning = 0, cu_total = n + n\<rparr>"

definition total_line :: "string \<Rightarrow> int \<Rightarrow> codex_entry" where
  "total_line at n = bare_entry\<lparr>xe_timestamp := at, xe_info := Some \<lparr>ci_model = ''m'', ci_last = None, ci_total = Some (usage_of n)\<rparr>\<rparr>"

definition sample_std :: codex_std where
  "sample_std = \<lparr>cx_unmarshal = (\<lambda>line. map_of [(''s'', bare_entry\<lparr>xe_payload_type := ''task_started''\<rparr>), (''u'', total_line ''a'' 3),
       (''v'', total_line ''b'' 5), (''w'', total_line ''b'' 5)] (filter (\<lambda>c. c \<noteq> CHR 0x0A) line)),
     cx_time = map_of [(''a'', 1600), (''b'', 2000)], cx_sha1 = (\<lambda>_. [])\<rparr>"

theorem codex_turn_is_tiled_witness:
  "let s = foldl (codex_step sample_std ''m'') codex_start [''s'', ''u'', ''v''];
       es = closeTurn (x_events s) (x_turn s) 2000 2 1000 250
   in map ev_gen_ms es = [350, 400] \<and> slice_union [1600, 2000] [350, 400] = {1250..<2000} \<and>
      map untimed es = map untimed (x_events s)"
proof -
  let ?s = "foldl (codex_step sample_std ''m'') codex_start [''s'', ''u'', ''v'']"
  let ?es = "closeTurn (x_events ?s) (x_turn ?s) 2000 2 1000 250"
  let ?t = "\<lparr>ot_id = [], ot_idx = [0, 1], ot_ts = [1600, 2000]\<rparr>"
  note eval = codex_step_def sample_std_def bare_entry_def total_line_def usage_of_def codex_entry_step_def codex_start_def
    codex_usage_line_def codex_limits_def deltaUsage_def usage_diff_def empty_usage_def i64_def Let_def
  have t: "x_turn ?s = Some ?t" "map ev_ts (x_events ?s) = [1600, 2000]" by (simp_all add: eval)
  have live: "live_turn (ot_ts ?t) 2000 2 1000 250" by (simp add: live_turn_def replayToleranceMS_def)
  have "closeTurn (x_events ?s) (Some ?t) 2000 2 1000 250 =
      foldl (\<lambda>es (i, g). set_gen es i g) ((x_events ?s)[0 := (x_events ?s ! 0)\<lparr>ev_ttft_ms := 250\<rparr>]) [(0, 350), (1, 400)]"
    using t by (subst closeTurn_live [OF live]) (auto simp: turn_shares_def raw_shares_def i64_def dest: map_eq_imp_length_eq)
  moreover obtain e1 e2 where es: "x_events ?s = [e1, e2]" "ev_ts e1 = 1600" "ev_ts e2 = 2000" using t(2) by auto
  ultimately have cl: "?es = [e1\<lparr>ev_ttft_ms := 250, ev_gen_ms := 350\<rparr>, e2\<lparr>ev_gen_ms := 400\<rparr>]"
    unfolding t(1) by (simp add: set_gen_def)
  then have gens: "map ev_gen_ms ?es = [350, 400]" "map ev_ts ?es = [1600, 2000]" using es by simp_all
  have "(\<lambda>es. slice_union [1600, 2000] [350, 400] = {1250..<2000} \<and> map untimed es = map untimed (x_events ?s)) ?es"
    using codex_turn_is_tiled [OF refl t(1) _ live _ refl] gens cl es t(1) by (simp add: Let_def)
  with gens show ?thesis by (simp only: Let_def)
qed

text \<open>Where the claim of the source's comment stops: once a slice is rounded up from nothing, the union
  is longer than the interval, when the lines span more than the generation and when they span exactly it.\<close>

lemma scaled_turn_is_longer:
  "slice_union [0, 1, 1000] (turn_shares 10 [0, 1, 1000]) = {-1..<1} \<union> {991..<1000}"
proof -
  have "turn_shares 10 [0, 1, 1000] = [1, 1, 9]"
    by code_simp
  then show ?thesis by (auto simp: slice_union_def)
qed

lemma exact_turn_is_longer: "slice_union [0, 10] (turn_shares 10 [0, 10]) = {-1..<10}"
proof -
  have "turn_shares 10 [0, 10] = [1, 10]" by (simp add: turn_shares_def raw_shares_def i64_def)
  then show ?thesis by (auto simp: slice_union_def)
qed

section \<open>Tokens are counted once\<close>

definition no_usage :: codex_usage where
  "no_usage = \<lparr>cu_input = 0, cu_cached = 0, cu_cache_write = 0, cu_output = 0, cu_reasoning = 0, cu_total = 0\<rparr>"

definition running :: "codex_usage option \<Rightarrow> codex_usage" where
  "running prev = (case prev of None \<Rightarrow> no_usage | Some p \<Rightarrow> p)"

definition token_count :: "codex_entry \<Rightarrow> bool" where
  "token_count e \<longleftrightarrow> xe_type e = ''event_msg'' \<and> xe_payload_type e = ''token_count''"

definition reported_total :: "codex_entry \<Rightarrow> codex_usage option" where
  "reported_total e = (if token_count e then (case xe_info e of None \<Rightarrow> None | Some info \<Rightarrow> ci_total info) else None)"

definition next_total :: "codex_usage option \<Rightarrow> codex_entry \<Rightarrow> codex_usage option" where
  "next_total prev e = (case reported_total e of None \<Rightarrow> prev | Some t \<Rightarrow> Some t)"

text \<open>The running total grows within \<open>int64\<close>.\<close>

definition usage_le :: "codex_usage \<Rightarrow> codex_usage \<Rightarrow> bool" where
  "usage_le p t \<longleftrightarrow> list_all (\<lambda>f. 0 \<le> f p \<and> f p \<le> f t \<and> f t < 2 ^ 63)
     [cu_input, cu_cached, cu_cache_write, cu_output, cu_reasoning, cu_total]"

text \<open>
  A record that fits the thread so far: it names a total that did not shrink, and its per-request
  usage, if given, is the difference to the previous total, or the total repeats and it is stale.
\<close>

definition fits :: "codex_std \<Rightarrow> codex_usage option \<Rightarrow> codex_entry \<Rightarrow> bool" where
  "fits std prev e \<longleftrightarrow> (xe_type e = ''session_meta'' \<longrightarrow> prev = None) \<and>
     (token_count e \<longrightarrow> (case xe_info e of
        None \<Rightarrow> True
      | Some info \<Rightarrow> (case ci_total info of
            None \<Rightarrow> False
          | Some t \<Rightarrow> usage_le (running prev) t \<and> cx_time std (xe_timestamp e) \<noteq> None \<and>
              (Some t = prev \<or> ci_last info = None \<or> ci_last info = Some (usage_diff t (running prev))))))"

fun thread_ok :: "codex_std \<Rightarrow> codex_usage option \<Rightarrow> codex_entry list \<Rightarrow> bool" where
  "thread_ok std prev [] = True"
| "thread_ok std prev (e # es) \<longleftrightarrow> fits std prev e \<and> thread_ok std (next_total prev e) es"

definition input_tokens :: "event list \<Rightarrow> int" where
  "input_tokens es = sum_list (map (\<lambda>e. ev_input_tokens e + ev_cache_read_tokens e) es)"

definition output_tokens :: "event list \<Rightarrow> int" where
  "output_tokens es = sum_list (map ev_output_tokens es)"

lemma closeTurn_tokens:
  "input_tokens (closeTurn es t c a d f) = input_tokens es" "output_tokens (closeTurn es t c a d f) = output_tokens es"
  unfolding input_tokens_def output_tokens_def by (simp_all add: closeTurn_proj untimed_def)

lemma usage_diff_fields:
  assumes "usage_le p t"
  shows "usage_diff t p = \<lparr>cu_input = cu_input t - cu_input p, cu_cached = cu_cached t - cu_cached p,
    cu_cache_write = cu_cache_write t - cu_cache_write p, cu_output = cu_output t - cu_output p,
    cu_reasoning = cu_reasoning t - cu_reasoning p, cu_total = cu_total t - cu_total p\<rparr>"
proof -
  have "max (i64 (f t - f p)) 0 = f t - f p" if "0 \<le> f p" "f p \<le> f t" "f t < 2 ^ 63" for f :: "codex_usage \<Rightarrow> int"
  proof -
    have "i64 (f t - f p) = f t - f p" using that by (intro i64_bounded) auto
    with that show ?thesis by simp
  qed
  with assms show ?thesis by (simp add: usage_le_def usage_diff_def)
qed

lemma fitting_delta:
  assumes "usage_le (running prev) t" "Some t \<noteq> prev" "last1 = None \<or> last1 = Some (usage_diff t (running prev))"
  shows "deltaUsage last1 (Some t) prev = (Some (usage_diff t (running prev)), Some t)"
proof (cases prev)
  case None
  have "usage_diff t no_usage = t"
    using assms(1) None by (subst usage_diff_fields) (simp_all add: running_def no_usage_def)
  with None assms(3) show ?thesis by (auto simp: deltaUsage_def running_def)
qed (use assms in \<open>auto simp: deltaUsage_def running_def Let_def\<close>)

lemma codex_event_tokens:
  assumes "usage_le p t"
  shows "ev_input_tokens (codex_event std device e info (usage_diff t p) tot ts tick seq s) +
    ev_cache_read_tokens (codex_event std device e info (usage_diff t p) tot ts tick seq s) = cu_input t - cu_input p"
proof -
  define c where "c = min (cu_cached t - cu_cached p) (cu_input t - cu_input p)"
  have "0 \<le> cu_input t - cu_input p - c" "cu_input t - cu_input p - c < 2 ^ 63"
    using assms unfolding c_def usage_le_def by auto
  then have "i64 (cu_input t - cu_input p - c) = cu_input t - cu_input p - c" by (intro i64_bounded) auto
  then show ?thesis
    by (simp add: codex_event_def Let_def usage_diff_fields [OF assms] c_def)
qed

lemma usage_line_counts:
  assumes "x_prev_total s = prev" "token_count e" "fits std prev e"
    and s'_def: "s' = codex_usage_line std device e tick s"
  shows "x_prev_total s' = next_total prev e \<and>
    input_tokens (x_events s') - cu_input (running (next_total prev e)) = input_tokens (x_events s) - cu_input (running prev) \<and>
    output_tokens (x_events s') - cu_output (running (next_total prev e)) = output_tokens (x_events s) - cu_output (running prev)"
proof (cases "xe_info e")
  case None
  with assms(1,2) show ?thesis by (simp add: s'_def codex_usage_line_def next_total_def reported_total_def)
next
  case (Some info)
  with assms(2,3) obtain t ts where t: "ci_total info = Some t" "usage_le (running prev) t" "cx_time std (xe_timestamp e) = Some ts"
    "Some t = prev \<or> ci_last info = None \<or> ci_last info = Some (usage_diff t (running prev))"
    by (auto simp: fits_def split: option.splits)
  have nt: "next_total prev e = Some t" using Some t(1) assms(2) by (simp add: next_total_def reported_total_def)
  show ?thesis
  proof (cases "Some t = prev")
    case True
    have "deltaUsage (ci_last info) (ci_total info) (x_prev_total s) = (None, Some t)"
      unfolding t(1) assms(1) True [symmetric] by (simp add: deltaUsage_def)
    with Some have "s' = s\<lparr>x_prev_total := Some t\<rparr>"
      by (simp add: s'_def codex_usage_line_def)
    with nt True show ?thesis by (simp add: running_def)
  next
    case False
    let ?u = "usage_diff t (running prev)"
    have d: "deltaUsage (ci_last info) (ci_total info) (x_prev_total s) = (Some ?u, Some t)"
      using fitting_delta [OF t(2) False] t(1,4) assms(1) False by auto
    have run: "running (Some t) = t" by (simp add: running_def)
    show ?thesis
    proof (cases "empty_usage ?u")
      case True
      then have "cu_input t = cu_input (running prev)" "cu_output t = cu_output (running prev)"
        by (simp_all add: empty_usage_def usage_diff_fields [OF t(2)])
      moreover have "s' = s\<lparr>x_prev_total := Some t\<rparr>" using True Some d by (simp add: s'_def codex_usage_line_def)
      ultimately show ?thesis using nt run by simp
    next
      case False
      obtain seq where "x_events s' = x_events s @ [codex_event std device e info ?u (Some t) ts tick seq (s\<lparr>x_prev_total := Some t\<rparr>)]"
        "x_prev_total s' = Some t"
        using False Some d t(3) by (simp add: s'_def codex_usage_line_def Let_def)
      then show ?thesis
        using codex_event_tokens [OF t(2)] usage_diff_fields [OF t(2)] nt run
        by (simp add: input_tokens_def output_tokens_def)
    qed
  qed
qed

lemma entry_step_counts:
  assumes "x_prev_total s = prev" "fits std prev e"
    and s'_def: "s' = codex_entry_step std device e s"
  shows "x_prev_total s' = next_total prev e \<and>
    input_tokens (x_events s') - cu_input (running (next_total prev e)) = input_tokens (x_events s) - cu_input (running prev) \<and>
    output_tokens (x_events s') - cu_output (running (next_total prev e)) = output_tokens (x_events s) - cu_output (running prev)"
proof (cases "token_count e")
  case True
  let ?s = "if cx_time std (xe_timestamp e) = None then s
    else s\<lparr>x_prev_ms := (case cx_time std (xe_timestamp e) of None \<Rightarrow> 0 | Some ms \<Rightarrow> ms)\<rparr>"
  have "s' = codex_usage_line std device e (x_prev_ms s) (codex_limits device e ?s)"
    using True by (simp add: s'_def codex_entry_step_def Let_def token_count_def)
  with usage_line_counts [OF _ True assms(2), where s = "codex_limits device e ?s" and s' = s'] assms(1) show ?thesis
    by simp
next
  case False
  then have nt: "next_total prev e = prev" by (simp add: next_total_def reported_total_def)
  have "x_prev_total s' = prev" "input_tokens (x_events s') = input_tokens (x_events s)"
    "output_tokens (x_events s') = output_tokens (x_events s)"
    using False assms(1,2) unfolding s'_def codex_entry_step_def Let_def
    by (simp_all add: token_count_def fits_def closeTurn_tokens)
  with nt show ?thesis by simp
qed

definition rollout_entries :: "codex_std \<Rightarrow> string \<Rightarrow> codex_entry list" where
  "rollout_entries std content = List.map_filter (cx_unmarshal std) (fst (log_lines content))"

lemma codex_steps_entries:
  "foldl (codex_step std device) s lines =
     foldl (\<lambda>s e. codex_entry_step std device e s) s (List.map_filter (cx_unmarshal std) lines)"
  by (induction lines arbitrary: s) (auto simp: codex_step_def List.map_filter_simps split: option.splits)

lemma thread_counts:
  "x_prev_total s = prev \<Longrightarrow> thread_ok std prev es \<Longrightarrow>
     (let s' = foldl (\<lambda>s e. codex_entry_step std device e s) s es; final = foldl next_total prev es
      in input_tokens (x_events s') - cu_input (running final) = input_tokens (x_events s) - cu_input (running prev) \<and>
         output_tokens (x_events s') - cu_output (running final) = output_tokens (x_events s) - cu_output (running prev))"
proof (induction es arbitrary: s prev)
  case (Cons e es)
  from Cons.prems have "fits std prev e" "thread_ok std (next_total prev e) es" by simp_all
  with entry_step_counts [OF Cons.prems(1) _ refl, of std e device] Cons.IH [of "codex_entry_step std device e s" "next_total prev e"]
  show ?case by (simp add: Let_def)
qed simp

lemma applySessionChannel_proj:
  "(\<And>e p. f (e\<lparr>ev_provider := p\<rparr>) = f e) \<Longrightarrow> map f (applySessionChannel es p sub trusted) = map f es"
  by (auto simp: applySessionChannel_def Let_def)

text \<open>C20. In a rollout whose records fit together (the running total never shrinks, and a per-request
  usage is what the total advanced by, or repeats next to a total that stands still), the tokens of all
  events add up to the last running total, input with cached input and output alike: nothing that is
  reported twice is counted twice, and nothing the total covers is lost.\<close>

theorem codex_tokens_counted_once:
  assumes "thread_ok std None (rollout_entries std content)"
  shows "let es = res_events (ParseWith std trusted content device turn0);
             final = running (foldl next_total None (rollout_entries std content))
         in input_tokens es = cu_input final \<and> output_tokens es = cu_output final"
proof -
  let ?s = "foldl (codex_step std device) codex_start (fst (log_lines content))"
  have "input_tokens (applySessionChannel es p sub trusted) = input_tokens es"
    "output_tokens (applySessionChannel es p sub trusted) = output_tokens es" for es p sub
    by (simp_all add: input_tokens_def output_tokens_def applySessionChannel_proj)
  moreover have "x_prev_total codex_start = None" "x_events codex_start = []" by (simp_all add: codex_start_def)
  ultimately show ?thesis
    using thread_counts [of codex_start None std "rollout_entries std content" device] assms
    by (simp add: ParseWith_def Let_def codex_steps_entries rollout_entries_def [symmetric])
      (simp add: input_tokens_def output_tokens_def running_def no_usage_def)
qed

theorem codex_tokens_counted_once_witness:
  "let content = concat (map (\<lambda>l. l @ [CHR 0x0A]) [''s'', ''u'', ''v'', ''x'', ''w'']);
       es = res_events (ParseWith sample_std None content ''m'' 0)
   in running (foldl next_total None (rollout_entries sample_std content)) = usage_of 5 \<and>
      input_tokens es = 5 \<and> output_tokens es = 5"
proof -
  let ?c = "concat (map (\<lambda>l. l @ [CHR 0x0A]) [''s'', ''u'', ''v'', ''x'', ''w''])"
  have e: "rollout_entries sample_std ?c = [bare_entry\<lparr>xe_payload_type := ''task_started''\<rparr>, total_line ''a'' 3,
      total_line ''b'' 5, total_line ''b'' 5]"
    by (simp add: rollout_entries_def sample_std_def List.map_filter_simps)
  note eval = total_line_def bare_entry_def usage_of_def next_total_def reported_total_def token_count_def running_def
  have "thread_ok sample_std None (rollout_entries sample_std ?c)"
    unfolding e by (simp add: eval fits_def usage_le_def no_usage_def sample_std_def)
  moreover have "running (foldl next_total None (rollout_entries sample_std ?c)) = usage_of 5"
    unfolding e by (simp add: eval)
  ultimately show ?thesis
    using codex_tokens_counted_once [of sample_std ?c None "''m''" 0] by (simp add: Let_def usage_of_def)
qed

section \<open>A subscription needs both signals\<close>

definition declared_providers :: "codex_entry list \<Rightarrow> string set" where
  "declared_providers es = insert [] {xe_model_provider e |e. e \<in> set es \<and> xe_type e = ''session_meta''}"

definition plan_evidenced :: "codex_entry list \<Rightarrow> bool" where
  "plan_evidenced es \<longleftrightarrow> (\<exists>e\<in>set es. \<exists>q. token_count e \<and> xe_rate_limits e = Some q \<and> planEvidence q)"

definition labelled :: "codex_entry list \<Rightarrow> codex_state \<Rightarrow> bool" where
  "labelled es s \<longleftrightarrow> (x_subscription s \<longrightarrow> plan_evidenced es) \<and> x_provider s \<in> declared_providers es \<and>
     ev_provider ` set (x_events s) \<subseteq> codexProviderLabel ` declared_providers es \<and> ev_source ` set (x_events s) \<subseteq> {CodexSource}"

lemma labelled_usage_line:
  assumes "labelled es s" shows "labelled es (codex_usage_line std device e tick s)"
proof -
  have "x_subscription (codex_usage_line std device e tick s) = x_subscription s \<and>
      x_provider (codex_usage_line std device e tick s) = x_provider s"
    by (auto simp: codex_usage_line_def Let_def case_prod_beta split: option.splits)
  then show ?thesis using assms
    by (cases rule: codex_usage_line_cases [where s = s and std = std and device = device and e = e and tick = tick])
      (auto simp: labelled_def)
qed

lemma labelled_mono: "labelled es s \<Longrightarrow> labelled (es @ [e]) s"
proof -
  have "declared_providers es \<subseteq> declared_providers (es @ [e])" by (auto simp: declared_providers_def)
  moreover have "plan_evidenced es \<Longrightarrow> plan_evidenced (es @ [e])" by (auto simp: plan_evidenced_def)
  ultimately show "labelled es s \<Longrightarrow> labelled (es @ [e]) s" unfolding labelled_def by blast
qed

lemma labelled_step:
  assumes "labelled es s0" shows "labelled (es @ [e]) (codex_entry_step std device e s0)"
proof -
  define s where "s = (if cx_time std (xe_timestamp e) = None then s0
    else s0\<lparr>x_prev_ms := (case cx_time std (xe_timestamp e) of None \<Rightarrow> 0 | Some ms \<Rightarrow> ms)\<rparr>)"
  have s: "labelled (es @ [e]) s" using labelled_mono [OF assms] by (simp add: s_def labelled_def)
  show ?thesis
  proof (cases "token_count e")
    case True
    have "labelled (es @ [e]) (codex_limits device e s)"
      using s True by (auto simp: codex_limits_def labelled_def plan_evidenced_def split: option.split)
    then show ?thesis using True unfolding codex_entry_step_def Let_def s_def [symmetric]
      by (simp add: token_count_def labelled_usage_line)
  next
    case False
    have cl: "ev_provider ` set (closeTurn evs t a b c d) = ev_provider ` set evs" for evs t a b c d
      using closeTurn_proj [of ev_provider evs t a b c d] by (simp add: untimed_def flip: set_map)
    have cl_source: "ev_source ` set (closeTurn evs t a b c d) = ev_source ` set evs" for evs t a b c d
      using closeTurn_proj [of ev_source evs t a b c d] by (simp add: untimed_def flip: set_map)
    have "xe_type e = ''session_meta'' \<Longrightarrow> xe_model_provider e \<in> declared_providers (es @ [e])"
      by (auto simp: declared_providers_def)
    then show ?thesis using False s unfolding codex_entry_step_def Let_def s_def [symmetric]
      by (simp add: token_count_def labelled_def cl cl_source)
  qed
qed

lemma labelled_run: "labelled es (foldl (\<lambda>s e. codex_entry_step std device e s) codex_start es)"
proof (induction es rule: rev_induct)
  case Nil
  show ?case by (simp add: labelled_def codex_start_def declared_providers_def)
qed (simp add: labelled_step)

lemma codex_sources: "ev_source ` set (res_events (ParseWith std trusted content device turn0)) \<subseteq> {CodexSource}"
proof -
  let ?s = "foldl (\<lambda>s e. codex_entry_step std device e s) codex_start (rollout_entries std content)"
  have "ev_source ` set (x_events ?s) \<subseteq> {CodexSource}" using labelled_run unfolding labelled_def by blast
  moreover have "ev_source ` set (applySessionChannel es p b t) = ev_source ` set es" for es p b t
    by (auto simp: applySessionChannel_def Let_def image_image split: option.split)
  ultimately show ?thesis by (simp add: ParseWith_def Let_def codex_steps_entries rollout_entries_def [symmetric])
qed

text \<open>What a subscription label of a rollout rests on.\<close>

lemma subscription_evidence:
  assumes "ev \<in> set (res_events (ParseWith std trusted content device turn0))"
    and "BillingChannel (ev_provider ev) = ChannelSubscription"
  shows "let es = rollout_entries std content
    in plan_evidenced es \<and> (\<exists>p\<in>declared_providers es. TrimSpace p = builtinOpenAIProvider \<or>
          (\<exists>f. trusted = Some f \<and> f (TrimSpace p))) \<or>
       (\<exists>p\<in>declared_providers es. TrimSpace p \<in> {ProviderAnthropicOAuth, ProviderOpenAIChatGPT})"
proof -
  let ?es = "rollout_entries std content"
  let ?s = "foldl (\<lambda>s e. codex_entry_step std device e s) codex_start ?es"
  have ev: "ev \<in> set (applySessionChannel (x_events ?s) (x_provider ?s) (x_subscription ?s) trusted)"
    using assms(1) by (simp add: ParseWith_def Let_def codex_steps_entries rollout_entries_def [symmetric])
  have lab: "x_subscription ?s \<longrightarrow> plan_evidenced ?es" "x_provider ?s \<in> declared_providers ?es"
    "ev_provider ` set (x_events ?s) \<subseteq> codexProviderLabel ` declared_providers ?es"
    using labelled_run [of ?es std device] by (auto simp: labelled_def)
  show ?thesis
  proof (cases "x_subscription ?s \<and> (TrimSpace (x_provider ?s) = builtinOpenAIProvider \<or>
      (\<exists>f. trusted = Some f \<and> f (TrimSpace (x_provider ?s))))")
    case True
    with lab show ?thesis by (auto simp: Let_def)
  next
    case False
    then have "applySessionChannel (x_events ?s) (x_provider ?s) (x_subscription ?s) trusted = x_events ?s"
      by (auto simp: applySessionChannel_def Let_def split: option.splits)
    then obtain p where p: "p \<in> declared_providers ?es" "ev_provider ev = codexProviderLabel p"
      using ev lab(3) by auto
    have words: "BillingChannel q = ChannelSubscription \<Longrightarrow> q \<in> {ProviderAnthropicOAuth, ProviderOpenAIChatGPT}" for q
      by (auto simp: BillingChannel_def providerChannel_def channel_defs split: if_splits)
    then have "codexProviderLabel p \<in> {ProviderAnthropicOAuth, ProviderOpenAIChatGPT}" using assms(2) p(2) by simp
    then have "TrimSpace p \<in> {ProviderAnthropicOAuth, ProviderOpenAIChatGPT}"
      by (auto simp: codexProviderLabel_def ProviderUnknown_def ProviderAnthropicOAuth_def ProviderOpenAIChatGPT_def split: if_splits)
    with p(1) show ?thesis by (auto simp: Let_def)
  qed
qed

text \<open>C21. A usage event of a rollout is billed to the subscription only if a real account's plan state
  was seen in a rate-limit record and the rollout declared the built-in provider or one this machine
  trusts; or if it declared, as its own provider name, one of the two words the billing taxonomy
  reserves for a subscription.\<close>

theorem codex_subscription_needs_evidence:
  assumes "ev \<in> set (res_events (ParseWith std trusted content device turn0))"
    and "BillingChannel (ev_provider ev) = ChannelSubscription"
  shows "let es = rollout_entries std content
    in plan_evidenced es \<and> (\<exists>p\<in>declared_providers es. TrimSpace p = builtinOpenAIProvider \<or>
          (\<exists>f. trusted = Some f \<and> f (TrimSpace p))) \<or>
       (\<exists>p\<in>declared_providers es. TrimSpace p \<in> {ProviderAnthropicOAuth, ProviderOpenAIChatGPT})"
  using assms by (rule subscription_evidence)

text \<open>A rollout of one request whose declared provider is \<open>name\<close>, with or without a plan in its rate limits.\<close>

definition provider_std :: "string \<Rightarrow> string \<Rightarrow> codex_std" where
  "provider_std name plan = sample_std\<lparr>cx_unmarshal := (\<lambda>line.
     if line = [CHR ''m'', CHR 0x0A] then Some (bare_entry\<lparr>xe_type := ''session_meta'', xe_model_provider := name\<rparr>)
     else Some ((total_line ''a'' 3)\<lparr>xe_rate_limits := Some \<lparr>rl_limit_id = [], rl_primary = None, rl_secondary = None,
       rl_plan_type = plan, rl_credits = None\<rparr>\<rparr>))\<rparr>"

definition two_lines :: string where "two_lines = [CHR ''m'', CHR 0x0A, CHR ''u'', CHR 0x0A]"

lemma provider_run:
  "map ev_provider (x_events (foldl (codex_step (provider_std name plan) d) codex_start (fst (log_lines two_lines)))) =
     [codexProviderLabel name]"
  "x_provider (foldl (codex_step (provider_std name plan) d) codex_start (fst (log_lines two_lines))) = name"
  "x_subscription (foldl (codex_step (provider_std name plan) d) codex_start (fst (log_lines two_lines))) = (plan \<noteq> [])"
  by (simp_all add: two_lines_def provider_std_def sample_std_def codex_step_def codex_entry_step_def codex_start_def Let_def
    bare_entry_def total_line_def usage_of_def codex_limits_def codex_usage_line_def deltaUsage_def empty_usage_def planEvidence_def)

lemma trim_names: "TrimSpace ''openai'' = ''openai''" "TrimSpace ''anthropic-oauth'' = ''anthropic-oauth''"
  by (rule TrimSpace_id, simp add: go_spaces_def HasPrefix_def)+

theorem codex_subscription_needs_evidence_witness:
  "let r = ParseWith (provider_std ''openai'' ''plus'') None two_lines ''m'' 0;
       es = rollout_entries (provider_std ''openai'' ''plus'') two_lines
   in length (res_events r) = 1 \<and> BillingChannel (ev_provider (hd (res_events r))) = ChannelSubscription \<and>
      plan_evidenced es"
proof -
  let ?std = "provider_std ''openai'' ''plus''"
  let ?r = "ParseWith ?std None two_lines ''m'' 0"
  let ?s = "foldl (codex_step ?std ''m'') codex_start (fst (log_lines two_lines))"
  have "res_events ?r = map (\<lambda>e. e\<lparr>ev_provider := ProviderOpenAIChatGPT\<rparr>) (x_events ?s)"
    using provider_run [of "''openai''" "''plus''" "''m''"]
    by (simp add: ParseWith_def Let_def applySessionChannel_def trim_names builtinOpenAIProvider_def)
  moreover obtain e where "x_events ?s = [e]" using provider_run(1) [of "''openai''" "''plus''" "''m''"] by auto
  ultimately have ev: "res_events ?r = [e\<lparr>ev_provider := ProviderOpenAIChatGPT\<rparr>]" by simp
  have ch: "BillingChannel ProviderOpenAIChatGPT = ChannelSubscription" by code_simp
  have es: "declared_providers (rollout_entries ?std two_lines) \<subseteq> {[], ''openai''}"
    by (auto simp: declared_providers_def rollout_entries_def two_lines_def provider_std_def List.map_filter_simps
        bare_entry_def total_line_def)
  have tn: "TrimSpace p \<notin> {ProviderAnthropicOAuth, ProviderOpenAIChatGPT}" if "p \<in> {[], ''openai''}" for p
  proof -
    from that show ?thesis by (auto simp: trim_names ProviderAnthropicOAuth_def ProviderOpenAIChatGPT_def)
  qed
  have "plan_evidenced (rollout_entries ?std two_lines)"
    using codex_subscription_needs_evidence [of "hd (res_events ?r)" ?std None two_lines "''m''" 0] ev ch es tn
    unfolding Let_def by auto
  with ev ch show ?thesis by (simp add: Let_def)
qed

text \<open>A provider block the user happens to call by a reserved word is billed to the subscription, with no
  evidence at all: the source's comments say any such name maps to a relay.\<close>

lemma reserved_name_is_a_subscription:
  "let r = ParseWith (provider_std ''anthropic-oauth'' []) None two_lines ''m'' 0
   in \<exists>e. res_events r = [e] \<and> BillingChannel (ev_provider e) = ChannelSubscription"
proof -
  let ?std = "provider_std ''anthropic-oauth'' []"
  let ?s = "foldl (codex_step ?std ''m'') codex_start (fst (log_lines two_lines))"
  have "res_events (ParseWith ?std None two_lines ''m'' 0) = x_events ?s"
    using provider_run [of "''anthropic-oauth''" "[]" "''m''"]
    by (simp add: ParseWith_def Let_def applySessionChannel_def)
  moreover obtain e where "x_events ?s = [e]" "ev_provider e = codexProviderLabel ''anthropic-oauth''"
    using provider_run(1) [of "''anthropic-oauth''" "[]" "''m''"] by auto
  moreover have "BillingChannel ''anthropic-oauth'' = ChannelSubscription" by code_simp
  ultimately show ?thesis by (simp add: Let_def codexProviderLabel_def trim_names)
qed

end
