(* ===== verification/Dsh_Parser.thy ===== *)
theory Dsh_Parser
  imports Codex_Parser
begin

text \<open>
  \<open>internal/parser/dsh/parser.go\<close>: DeepSeek Harness session files to usage events. The zstd decoder is a
  parameter: \<open>None\<close> when it rejects the file, else the bytes it produces before it ends or fails.
  \<open>json.Unmarshal\<close> into each of the file's structs and \<open>crypto/sha1\<close> are parameters too.
\<close>

definition DshSource :: string where "DshSource = ''dsh''"

record dsh_record =
  dr_type :: string
  dr_seq :: int
  dr_time :: int
  dr_time0 :: int
  dr_data :: string
  dr_id :: string
  dr_cwd :: string

record model_config =
  mc_provider :: string
  mc_model :: string

record dsh_usage =
  du_input :: int
  du_output :: int
  du_cache_read :: int
  du_cache_write :: int

record step_ref =
  sr_turn :: string
  sr_step :: string

record stream_chunk =
  ch_time :: int
  ch_time0 :: int

record assistant_message =
  am_usage :: "dsh_usage option"
  am_turn :: string
  am_step :: string
  am_stream :: "stream_chunk list"

record step_timing =
  sg_request_start :: int
  sg_first_chunk :: int

record dsh_std =
  ds_zstd :: "string \<Rightarrow> string option"
  ds_record :: "string \<Rightarrow> dsh_record option"
  ds_model_config :: "string \<Rightarrow> model_config option"
  ds_request_header :: "string \<Rightarrow> model_config option"
  ds_step_ref :: "string \<Rightarrow> step_ref option"
  ds_message :: "string \<Rightarrow> assistant_message option"
  ds_usage_only :: "string \<Rightarrow> dsh_usage option option"
  ds_sha1 :: "string \<Rightarrow> 8 word list"

definition step_key :: "step_ref \<Rightarrow> string" where
  "step_key s = sr_turn s @ ''/'' @ sr_step s"

definition earliest :: "int \<Rightarrow> int list \<Rightarrow> int" where
  "earliest cur ts = foldl (\<lambda>cur t. if t > 0 \<and> (cur = 0 \<or> t < cur) then t else cur) cur ts"

definition generationTiming :: "int \<Rightarrow> stream_chunk list \<Rightarrow> step_timing option \<Rightarrow> int \<times> int" where
  "generationTiming msgTime stream st =
     (let first0 = foldl (\<lambda>f c. earliest f [ch_time c, ch_time0 c]) 0 stream;
          first = (case st of Some s \<Rightarrow> if first0 = 0 then sg_first_chunk s else first0 | None \<Rightarrow> first0)
      in if first \<le> 0 then (0, 0)
         else (if msgTime > first then msgTime - first else 0,
               case st of
                 Some s \<Rightarrow> if sg_request_start s > 0 \<and> first > sg_request_start s then first - sg_request_start s else 0
               | None \<Rightarrow> 0))"

definition usage_fields :: "dsh_usage \<Rightarrow> string list" where
  "usage_fields u = map format_int [du_input u, du_output u, du_cache_read u, du_cache_write u]"

definition dshEventID :: "dsh_std \<Rightarrow> string \<Rightarrow> int \<Rightarrow> dsh_usage \<Rightarrow> string" where
  "dshEventID std sessionID seq u =
     ''dsh:'' @ hex_encode (take 12 (ds_sha1 std (bar_join (sessionID # format_int seq # usage_fields u))))"

definition dshDedupKey :: "dsh_std \<Rightarrow> string \<Rightarrow> int \<Rightarrow> dsh_usage \<Rightarrow> string" where
  "dshDedupKey std sessionID ts u =
     (if sessionID = [] \<or> ts \<le> 0 then []
      else ''dsg:'' @ hex_encode (take 12 (ds_sha1 std (bar_join (sessionID # format_int ts # usage_fields u)))))"

definition dshProviderLabel :: "string \<Rightarrow> string" where
  "dshProviderLabel p = (if p = [] then ProviderUnknown else p)"

section \<open>The loop\<close>

record dsh_state =
  dh_session_id :: string
  dh_cwd :: string
  dh_provider :: string
  dh_model :: string
  dh_steps :: "string \<Rightarrow> step_timing option"
  dh_events :: "event list"

definition dsh_start :: dsh_state where
  "dsh_start = \<lparr>dh_session_id = [], dh_cwd = [], dh_provider = [], dh_model = [], dh_steps = Map.empty, dh_events = []\<rparr>"

definition use_config :: "model_config option \<Rightarrow> dsh_state \<Rightarrow> dsh_state" where
  "use_config c s =
     (case c of
        None \<Rightarrow> s
      | Some mc \<Rightarrow> s\<lparr>dh_provider := (if mc_provider mc \<noteq> [] then mc_provider mc else dh_provider s),
          dh_model := (if mc_model mc \<noteq> [] then mc_model mc else dh_model s)\<rparr>)"

definition counted_usage :: "dsh_usage \<Rightarrow> bool" where
  "counted_usage u \<longleftrightarrow> du_input u \<noteq> 0 \<or> du_output u \<noteq> 0 \<or> du_cache_read u \<noteq> 0 \<or> du_cache_write u \<noteq> 0"

definition dsh_event :: "dsh_std \<Rightarrow> string \<Rightarrow> dsh_record \<Rightarrow> dsh_usage \<Rightarrow> int \<Rightarrow> int \<Rightarrow> dsh_state \<Rightarrow> event" where
  "dsh_event std device rc u genMS ttftMS s =
     zero_event\<lparr>ev_event_id := dshEventID std (dh_session_id s) (dr_seq rc) u,
       ev_dedup_key := dshDedupKey std (dh_session_id s) (dr_time rc) u, ev_ts := dr_time rc, ev_device := device,
       ev_source := DshSource, ev_model := dh_model s, ev_provider := dshProviderLabel (dh_provider s),
       ev_input_tokens := du_input u, ev_output_tokens := du_output u, ev_cache_read_tokens := du_cache_read u,
       ev_cache_creation_tokens := du_cache_write u, ev_gen_ms := genMS, ev_ttft_ms := ttftMS,
       ev_session_id := dh_session_id s, ev_cwd := dh_cwd s\<rparr>"

text \<open>An \<open>assistant/message\<close>: the timing is lost, not the usage, when only the usage decodes.\<close>

definition dsh_message :: "dsh_std \<Rightarrow> string \<Rightarrow> dsh_record \<Rightarrow> dsh_state \<Rightarrow> dsh_state" where
  "dsh_message std device rc s =
     (let (ok, usage, genMS, ttftMS, steps) =
        (case ds_message std (dr_data rc) of
           Some m \<Rightarrow>
             let key = step_key \<lparr>sr_turn = am_turn m, sr_step = am_step m\<rparr>;
                 (g, f) = generationTiming (dr_time rc) (am_stream m) (dh_steps s key)
             in (True, am_usage m, g, f, (dh_steps s)(key := None))
         | None \<Rightarrow>
             (case ds_usage_only std (dr_data rc) of
                Some u \<Rightarrow> (True, u, 0, 0, dh_steps s)
              | None \<Rightarrow> (False, None, 0, 0, dh_steps s)));
          s1 = s\<lparr>dh_steps := steps\<rparr>
      in (case usage of
            None \<Rightarrow> s1
          | Some u \<Rightarrow> if ok \<and> counted_usage u then s1\<lparr>dh_events := dh_events s1 @ [dsh_event std device rc u genMS ttftMS s1]\<rparr>
              else s1))"

definition dsh_record_step :: "dsh_std \<Rightarrow> string \<Rightarrow> dsh_record \<Rightarrow> dsh_state \<Rightarrow> dsh_state" where
  "dsh_record_step std device rc s =
     (if dr_type rc = ''session'' then s\<lparr>dh_session_id := dr_id rc, dh_cwd := dr_cwd rc\<rparr>
      else if dr_type rc = ''request/context'' then use_config (ds_model_config std (dr_data rc)) s
      else if dr_type rc = ''request/header'' then use_config (ds_request_header std (dr_data rc)) s
      else if dr_type rc = ''step/start'' \<or> dr_type rc = ''llm/retry-started'' then
        (case ds_step_ref std (dr_data rc) of
           None \<Rightarrow> s
         | Some r \<Rightarrow> s\<lparr>dh_steps := (dh_steps s)(step_key r \<mapsto> \<lparr>sg_request_start = dr_time rc, sg_first_chunk = 0\<rparr>)\<rparr>)
      else if dr_type rc = ''assistant/chunk'' \<or> dr_type rc = ''text-chunks'' \<or> dr_type rc = ''reasoning-chunks'' \<or>
          dr_type rc = ''tool-call-chunks'' then
        (case ds_step_ref std (dr_data rc) of
           None \<Rightarrow> s
         | Some r \<Rightarrow>
             let st = (case dh_steps s (step_key r) of None \<Rightarrow> \<lparr>sg_request_start = 0, sg_first_chunk = 0\<rparr> | Some t \<Rightarrow> t)
             in s\<lparr>dh_steps := (dh_steps s)(step_key r \<mapsto>
                  st\<lparr>sg_first_chunk := earliest (sg_first_chunk st) [dr_time rc, dr_time0 rc]\<rparr>)\<rparr>)
      else if dr_type rc = ''assistant/message'' then dsh_message std device rc s
      else s)"

definition dsh_step :: "dsh_std \<Rightarrow> string \<Rightarrow> dsh_state \<Rightarrow> string \<Rightarrow> dsh_state" where
  "dsh_step std device s text =
     (if text = [] then s
      else (case ds_record std text of None \<Rightarrow> s | Some rc \<Rightarrow> dsh_record_step std device rc s))"

text \<open>Unlike the other parsers, the partial last line is parsed. \<open>ok\<close> is whether \<open>ReadAll\<close> reached the end.\<close>

definition dsh_Parse :: "dsh_std \<Rightarrow> bool \<Rightarrow> string \<Rightarrow> string \<Rightarrow> int \<Rightarrow> parse_result" where
  "dsh_Parse std ok raw device turnStartMS =
     (let events = (case if ok then ds_zstd std raw else None of
          None \<Rightarrow> []
        | Some content \<Rightarrow>
            let (lines, rest) = log_lines content
            in dh_events (foldl (dsh_step std device) dsh_start (lines @ [rest])))
      in \<lparr>res_events = events, res_quotas = [], res_consumed = int (length raw), res_turn_start = 0\<rparr>)"

end
