(* ===== verification/Parser_Properties.thy ===== *)
theory Parser_Properties
  imports Codex_Properties Dsh_Parser
begin

text \<open>What every event of the three log parsers satisfies, whatever the log says.\<close>

definition id_prefixes :: "string \<Rightarrow> string \<Rightarrow> bool" where
  "id_prefixes source i \<longleftrightarrow> (source = ClaudeSource \<and> HasPrefix i ''cc:'') \<or> (source = CodexSource \<and> HasPrefix i ''cx:'') \<or>
     (source = DshSource \<and> HasPrefix i ''dsh:'')"

definition parsed_ok :: "string \<Rightarrow> event \<Rightarrow> bool" where
  "parsed_ok device e \<longleftrightarrow> ev_device e = device \<and> id_prefixes (ev_source e) (ev_event_id e) \<and>
     0 \<le> ev_duration_ms e \<and> ev_duration_ms e \<le> maxSpanMS \<and> 0 \<le> ev_gen_ms e \<and> 0 \<le> ev_ttft_ms e \<and>
     ev_provider e \<noteq> [] \<and> ev_account_label e = [] \<and> ev_repo e = [] \<and>
     (ev_dedup_key e = [] \<or> HasPrefix (ev_dedup_key e) ''cxg:'' \<or> HasPrefix (ev_dedup_key e) ''dsg:'')"

lemma HasPrefix_append [simp]: "HasPrefix (p @ s) p"
  by (simp add: HasPrefix_def)

lemma HasPrefix_char [simp]: "HasPrefix (c # s) (d # p) \<longleftrightarrow> c = d \<and> HasPrefix s p" "HasPrefix s []"
  by (auto simp: HasPrefix_def)

lemma span_ms_bounds: "0 \<le> span_ms a b \<and> span_ms a b \<le> maxSpanMS"
  by (simp add: span_ms_def maxSpanMS_def)

section \<open>Claude Code\<close>

lemma parseLine_ok:
  assumes "parseLine std line device = Some ev"
  shows "parsed_ok device (ev\<lparr>ev_duration_ms := span_ms a b, ev_gen_ms := span_ms c d\<rparr>)"
proof -
  from assms obtain e ts where "ev = zero_event\<lparr>ev_event_id := claudeEventID e, ev_ts := ts, ev_device := device,
     ev_source := ClaudeSource, ev_model := ce_model e, ev_provider := endpointProvider (ce_request_id e),
     ev_input_tokens := ce_input_tokens e, ev_output_tokens := ce_output_tokens e,
     ev_cache_read_tokens := ce_cache_read_tokens e, ev_cache_creation_tokens := ce_cache_creation_tokens e,
     ev_cache_1h_tokens := ce_ephemeral_1h e, ev_cache_5m_tokens := ce_ephemeral_5m e,
     ev_session_id := ce_session_id e, ev_cwd := ce_cwd e, ev_git_branch := ce_git_branch e,
     ev_app_version := ce_version e\<rparr>"
    by (auto simp: parseLine_def Let_def split: if_splits option.splits)
  then show ?thesis using span_ms_bounds [of a b] span_ms_bounds [of c d]
    by (simp add: parsed_ok_def zero_event_def id_prefixes_def claudeEventID_def endpointProvider_def ProviderRelay_def ProviderAnthropic_def)
qed

lemma claude_loop_ok: "list_all (parsed_ok device) (fst (claude_loop std device prev turn lines))"
  by (induction lines arbitrary: prev turn)
    (auto simp: Let_def case_prod_beta parseLine_ok split: option.splits)

section \<open>Codex\<close>

lemma list_all_update: "list_all P es \<Longrightarrow> (\<And>e. e \<in> set es \<Longrightarrow> P e \<Longrightarrow> P (f e)) \<Longrightarrow> list_all P (es[i := f (es ! i)])"
  by (cases "i < length es") (auto simp: list_all_iff list_update_beyond dest!: set_update_subset_insert [THEN subsetD])

lemma parsed_ok_timings:
  "parsed_ok device e \<Longrightarrow> 0 \<le> g \<Longrightarrow> parsed_ok device (e\<lparr>ev_gen_ms := g\<rparr>)"
  "parsed_ok device e \<Longrightarrow> 0 \<le> g \<Longrightarrow> parsed_ok device (e\<lparr>ev_ttft_ms := g\<rparr>)"
  by (simp_all add: parsed_ok_def)

lemma set_gen_ok: "list_all (parsed_ok device) es \<Longrightarrow> 0 \<le> g \<Longrightarrow> list_all (parsed_ok device) (set_gen es i g)"
  unfolding set_gen_def by (intro list_all_update [where f = "\<lambda>e. e\<lparr>ev_gen_ms := g\<rparr>"] parsed_ok_timings)

lemma set_gens_ok:
  "list_all (parsed_ok device) es \<Longrightarrow> (\<And>g. g \<in> set gs \<Longrightarrow> 0 \<le> g) \<Longrightarrow>
     list_all (parsed_ok device) (foldl (\<lambda>es (i, g). set_gen es i g) es (zip is gs))"
proof (induction "is" arbitrary: es gs)
  case (Cons i "is")
  then show ?case by (cases gs) (auto intro: set_gen_ok)
qed simp

lemma closeTurn_ok:
  assumes "list_all (parsed_ok device) es"
  shows "list_all (parsed_ok device) (closeTurn es t closeMS completed duration ttft)"
proof (cases "0 < ttft \<and> ttft < duration")
  case False
  with assms show ?thesis by (auto simp: closeTurn_def split: option.split)
next
  case True
  have es1: "list_all (parsed_ok device) (es[i := (es ! i)\<lparr>ev_ttft_ms := ttft\<rparr>])" for i
    using assms True by (intro list_all_update [where f = "\<lambda>e. e\<lparr>ev_ttft_ms := ttft\<rparr>"] parsed_ok_timings) auto
  have shares: "list_all (parsed_ok device) (foldl (\<lambda>es (i, g). set_gen es i g) es (zip is (turn_shares x ts)))"
    if "list_all (parsed_ok device) es" for es x ts "is"
    using that by (rule set_gens_ok) (auto simp: turn_shares_def)
  show ?thesis using assms True es1
    by (auto simp: closeTurn_def Let_def intro!: set_gen_ok shares split: option.split)
qed

lemma codex_event_ok: "parsed_ok device (codex_event std device e info u tot ts tick seq s)"
  using span_ms_bounds [of tick ts]
  by (auto simp: parsed_ok_def codex_event_def Let_def zero_event_def id_prefixes_def codexEventID_def codexDedupKey_def
      codexProviderLabel_def ProviderUnknown_def split: option.splits)

lemma codex_step_ok:
  assumes "list_all (parsed_ok device) (x_events s)"
  shows "list_all (parsed_ok device) (x_events (codex_entry_step std device e s))"
proof -
  have "list_all (parsed_ok device) (x_events (codex_usage_line std device e tick s'))"
    if "x_events s' = x_events s" for tick s'
    using assms that codex_event_ok
    by (cases rule: codex_usage_line_cases [where s = s' and std = std and device = device and e = e and tick = tick]) auto
  with assms show ?thesis by (simp add: codex_entry_step_def Let_def closeTurn_ok)
qed

lemma codex_run_ok:
  "list_all (parsed_ok device) (x_events (foldl (codex_step std device) codex_start lines))"
proof (induction lines rule: rev_induct)
  case (snoc l ls)
  then show ?case by (simp add: codex_step_def codex_step_ok split: option.split)
qed (simp add: codex_start_def)

lemma applySessionChannel_ok:
  "list_all (parsed_ok device) es \<Longrightarrow> list_all (parsed_ok device) (applySessionChannel es p sub trusted)"
  by (auto simp: applySessionChannel_def Let_def list_all_iff parsed_ok_def ProviderOpenAIChatGPT_def)

section \<open>dsh\<close>

lemma generationTiming_nonneg: "generationTiming m stream st = (g, f) \<Longrightarrow> 0 \<le> g \<and> 0 \<le> f"
  by (auto simp: generationTiming_def Let_def split: if_splits option.splits)

lemma dsh_event_ok: "0 \<le> g \<Longrightarrow> 0 \<le> f \<Longrightarrow> parsed_ok device (dsh_event std device rc u g f s)"
  by (simp add: parsed_ok_def dsh_event_def zero_event_def id_prefixes_def dshEventID_def dshDedupKey_def
      dshProviderLabel_def ProviderUnknown_def maxSpanMS_def)

lemma dsh_message_ok:
  assumes "list_all (parsed_ok device) (dh_events s)"
  shows "list_all (parsed_ok device) (dh_events (dsh_message std device rc s))"
  using assms by (auto simp: dsh_message_def Let_def intro!: dsh_event_ok dest: generationTiming_nonneg
      split: option.splits prod.splits)

lemma dsh_step_ok:
  assumes "list_all (parsed_ok device) (dh_events s)"
  shows "list_all (parsed_ok device) (dh_events (dsh_step std device s text))"
  using assms
  by (auto simp: dsh_step_def dsh_record_step_def use_config_def Let_def dsh_message_ok split: option.split)

lemma dsh_run_ok: "list_all (parsed_ok device) (dh_events (foldl (dsh_step std device) dsh_start lines))"
  by (induction lines rule: rev_induct) (simp_all add: dsh_start_def dsh_step_ok)

text \<open>C22. Whatever a log contains, every event a parser emits is well formed: it names the scanning
  device and its tool, its id lies in the name space of that tool, its work interval is within the
  clamp and no time is negative, its provider is named, its dedup key is empty or in one of the two
  key spaces, and what only the store may fill is empty.\<close>

theorem parsed_events_are_well_formed:
  "list_all (parsed_ok device) (res_events (claude_Parse cstd content device turn0)) \<and>
   list_all (parsed_ok device) (res_events (ParseWith xstd trusted content device turn0)) \<and>
   list_all (parsed_ok device) (res_events (dsh_Parse dstd ok content device turn0))"
proof (intro conjI)
  show "list_all (parsed_ok device) (res_events (claude_Parse cstd content device turn0))"
    using claude_loop_ok by (simp add: claude_Parse_def Let_def case_prod_beta)
  show "list_all (parsed_ok device) (res_events (ParseWith xstd trusted content device turn0))"
    by (simp add: ParseWith_def Let_def applySessionChannel_ok codex_run_ok)
  show "list_all (parsed_ok device) (res_events (dsh_Parse dstd ok content device turn0))"
    using dsh_run_ok by (simp add: dsh_Parse_def Let_def case_prod_beta del: foldl_append split: option.split)
qed

end
