(* ===== verification/Log_Parsers.thy ===== *)
theory Log_Parsers
  imports Collect_Properties Parser_Properties
begin

text \<open>
  The contract between the scan and a log parser (\<open>ParseFunc\<close> in \<open>collect/scan.go\<close>): it consumes no more
  than it is given, and attributes every event to the device it is told. The scan's cursor then stays
  inside the file. The three parsers interpret it.
\<close>

locale log_parser =
  fixes parse :: "string \<Rightarrow> string \<Rightarrow> int \<Rightarrow> parse_result"
  assumes consumed_range: "0 \<le> res_consumed (parse content device turn) \<and>
      res_consumed (parse content device turn) \<le> int (length content)"
    and attributed: "e \<in> set (res_events (parse content device turn)) \<Longrightarrow> ev_device e = device"
begin

lemma section_in_file:
  "start + res_consumed (parse (read_section start limit content) device turn) \<le> max start (int (length content))"
proof -
  have "int (length (read_section start limit content)) \<le> int (length content - nat start)"
    by (simp add: read_section_def)
  moreover have "res_consumed (parse (read_section start limit content) device turn) \<le> int (length (read_section start limit content))"
    using consumed_range by blast
  ultimately show ?thesis by (cases "0 \<le> start"; cases "nat start \<le> length content") auto
qed

text \<open>A scan that succeeds leaves the cursor inside the file, or where it was.\<close>

lemma cursor_in_file:
  assumes "scan_reachable cfg w" "scanFile cfg io spec path w = (w', Inr n)" "sp_parse spec = parse"
    and "io_content io = Some content"
  shows "cursor_of w' path \<le> max (max 0 (cursor_of w path)) (int (length content))"
proof -
  have "scan_result cfg io spec path w w' (Inr n)"
    using scanFile_result [OF assms(2) scan_reachable_inv [OF assms(1)]] by blast
  then consider "cursor_of w' path = cursor_of w path"
    | start limit res where "start = 0 \<or> start = cursor_of w path"
        "res = parse (read_section start limit content) (sc_device cfg) (TurnStartFor (sv_mem (wd_store w)) path)"
        "cursor_of w' path = start + res_consumed res"
    using assms(3,4) by (auto simp: scan_result_def scan_durable_def)
  then show ?thesis
  proof cases
    case (2 start limit res)
    with section_in_file [of start limit content] show ?thesis by (auto simp: max_def split: if_splits) (smt (verit))+
  qed simp
qed

text \<open>What becomes durable was attributed to the scanning device.\<close>

lemma scanned_for_device:
  "res = parse content (sc_device cfg) turn \<Longrightarrow> map clear_repo events = map clear_repo (dropBefore nb (res_events res)) \<Longrightarrow>
     e \<in> set events \<Longrightarrow> ev_device e = sc_device cfg"
proof -
  assume r: "res = parse content (sc_device cfg) turn" and m: "map clear_repo events = map clear_repo (dropBefore nb (res_events res))"
    and e: "e \<in> set events"
  have "clear_repo e \<in> clear_repo ` set (dropBefore nb (res_events res))"
    using e m by (metis image_eqI list.set_map)
  then obtain e' where e': "e' \<in> set (res_events res)" "clear_repo e = clear_repo e'"
    by (auto simp: dropBefore_def split: option.splits)
  have "ev_device e' = sc_device cfg" using e'(1) attributed unfolding r by blast
  moreover have "ev_device (clear_repo x) = ev_device x" for x by (simp add: clear_repo_def)
  ultimately show ?thesis using e'(2) by metis
qed

end

lemma lines_in_file: "length (concat (fst (log_lines s))) \<le> length s"
  by (metis le_add1 length_append log_lines_concat)

interpretation claude: log_parser "claude_Parse std" for std
proof
  show "0 \<le> res_consumed (claude_Parse std content device turn) \<and> res_consumed (claude_Parse std content device turn) \<le> int (length content)"
    for content device turn
    using lines_in_file by (simp add: claude_Parse_def Let_def case_prod_beta)
  show "e \<in> set (res_events (claude_Parse std content device turn)) \<Longrightarrow> ev_device e = device" for content device turn e
    using claude_loop_ok [of device std 0 turn "fst (log_lines content)"]
    by (simp add: claude_Parse_def Let_def case_prod_beta list_all_iff parsed_ok_def)
qed

interpretation codex: log_parser "ParseWith std trusted" for std trusted
proof
  show "0 \<le> res_consumed (ParseWith std trusted content device turn) \<and> res_consumed (ParseWith std trusted content device turn) \<le> int (length content)"
    for content device turn
    using lines_in_file by (simp add: ParseWith_def Let_def)
  show "e \<in> set (res_events (ParseWith std trusted content device turn)) \<Longrightarrow> ev_device e = device" for content device turn e
    using applySessionChannel_ok [OF codex_run_ok]
    by (fastforce simp: ParseWith_def Let_def list_all_iff parsed_ok_def)
qed

interpretation dsh: log_parser "dsh_Parse std ok" for std ok
proof
  show "0 \<le> res_consumed (dsh_Parse std ok content device turn) \<and> res_consumed (dsh_Parse std ok content device turn) \<le> int (length content)"
    for content device turn by (simp add: dsh_Parse_def)
  show "e \<in> set (res_events (dsh_Parse std ok content device turn)) \<Longrightarrow> ev_device e = device" for content device turn e
    using dsh_run_ok [of device std]
    by (auto simp: dsh_Parse_def Let_def case_prod_beta list_all_iff parsed_ok_def simp del: foldl_append split: option.splits)
qed

end
