(* ===== verification/Work_Time.thy ===== *)
theory Work_Time
  imports Event_Store "HOL-Library.Product_Lexorder"
begin

text \<open>
  \<open>internal/store/worktime.go\<close> and \<open>internal/store/blocks.go\<close>: work intervals per repository, and the
  five-hour billing blocks of a Claude subscription. Both read the events in the order the query
  sorts them. Timestamps are milliseconds of the epoch, far inside \<open>int64\<close>; \<open>sort.Slice\<close> is
  taken as the stable sort; the measure does not depend on how it orders ties (\<open>unionMS_card\<close>). The maps of the result are functions, so the order
  in which \<open>WorkTime\<close> lists them is left out.
\<close>

section \<open>Spans\<close>

record span =
  sp_start :: int
  sp_end :: int

record ev_point =
  ep_ts :: int
  ep_dur :: int

fun bridge_loop :: "int \<Rightarrow> span \<Rightarrow> ev_point list \<Rightarrow> span list" where
  "bridge_loop idleMS cur [] = [cur]"
| "bridge_loop idleMS cur (p # ps) =
     (let start = ep_ts p - ep_dur p; end1 = ep_ts p
      in if start - sp_end cur \<le> idleMS
         then bridge_loop idleMS (if end1 > sp_end cur then cur\<lparr>sp_end := end1\<rparr> else cur) ps
         else cur # bridge_loop idleMS \<lparr>sp_start = start, sp_end = end1\<rparr> ps)"

definition bridgeSpans :: "ev_point list \<Rightarrow> int \<Rightarrow> span list" where
  "bridgeSpans points idleMS =
     (case points of [] \<Rightarrow> [] | p # ps \<Rightarrow> bridge_loop idleMS \<lparr>sp_start = ep_ts p - ep_dur p, sp_end = ep_ts p\<rparr> ps)"

fun merge_loop :: "span \<Rightarrow> span list \<Rightarrow> span list" where
  "merge_loop cur [] = [cur]"
| "merge_loop cur (s # ss) =
     (if sp_start s > sp_end cur then cur # merge_loop s ss
      else if sp_end s > sp_end cur then merge_loop (cur\<lparr>sp_end := sp_end s\<rparr>) ss
      else merge_loop cur ss)"

definition mergeSpans :: "span list \<Rightarrow> span list" where
  "mergeSpans spans = (case sort_key sp_start spans of [] \<Rightarrow> [] | s # ss \<Rightarrow> merge_loop s ss)"

definition sumMS :: "span list \<Rightarrow> int" where
  "sumMS spans = sum_list (map (\<lambda>s. sp_end s - sp_start s) spans)"

definition unionMS :: "span list \<Rightarrow> int" where
  "unionMS spans = sumMS (mergeSpans spans)"

section \<open>Work time\<close>

record repo_work =
  rw_union_seconds :: int
  rw_sum_seconds :: int
  rw_sessions :: nat

text \<open>\<open>WHERE ts >= from AND ts < to ORDER BY device, repo, session_id, ts\<close>\<close>

type_synonym work_key = "string \<times> string \<times> string"

definition work_key :: "event_row \<Rightarrow> work_key" where
  "work_key r = (ev_device r, ev_repo r, ev_session_id r)"

definition key_repo :: "work_key \<Rightarrow> string" where "key_repo k = fst (snd k)"

definition point_of :: "event_row \<Rightarrow> ev_point" where
  "point_of r = \<lparr>ep_ts = ev_ts r, ep_dur = ev_duration_ms r\<rparr>"

definition work_rows :: "event_row list \<Rightarrow> int \<Rightarrow> int \<Rightarrow> event_row list" where
  "work_rows t from1 to1 =
     sort_key (\<lambda>r. (work_key r, ev_ts r)) (filter (\<lambda>r. from1 \<le> ev_ts r \<and> ev_ts r < to1) t)"

text \<open>The loop over the rows: \<open>flush\<close> closes the points of one (device, repo, session).\<close>

fun session_runs :: "work_key \<Rightarrow> ev_point list \<Rightarrow> event_row list \<Rightarrow> (work_key \<times> ev_point list) list" where
  "session_runs k pts [] = [(k, pts)]"
| "session_runs k pts (r # rs) =
     (if work_key r \<noteq> k then (k, pts) # session_runs (work_key r) [point_of r] rs
      else session_runs k (pts @ [point_of r]) rs)"

definition runs_of :: "event_row list \<Rightarrow> (work_key \<times> ev_point list) list" where
  "runs_of rs = (case rs of [] \<Rightarrow> [] | r # rs' \<Rightarrow> session_runs (work_key r) [point_of r] rs')"

definition spans_where :: "(work_key \<Rightarrow> bool) \<Rightarrow> int \<Rightarrow> (work_key \<times> ev_point list) list \<Rightarrow> span list" where
  "spans_where P idleMS runs = concat (map (\<lambda>(k, pts). bridgeSpans pts idleMS) (filter (\<lambda>(k, pts). P k) runs))"

definition WorkTime :: "event_row list \<Rightarrow> int \<Rightarrow> int \<Rightarrow> int \<Rightarrow>
    (string \<Rightarrow> repo_work option) \<times> (string \<times> string \<Rightarrow> int option)" where
  "WorkTime t from1 to1 idleMS =
     (let runs = runs_of (work_rows t from1 to1)
      in (\<lambda>repo.
            let mine = filter (\<lambda>(k, pts). key_repo k = repo) runs; spans = spans_where (\<lambda>k. key_repo k = repo) idleMS runs
            in if mine = [] then None
               else Some \<lparr>rw_union_seconds = go_quot (unionMS spans) 1000,
                 rw_sum_seconds = go_quot (sum_list (map (\<lambda>(k, pts). sumMS (bridgeSpans pts idleMS)) mine)) 1000,
                 rw_sessions = length mine\<rparr>,
          \<lambda>(dev, repo).
            let mine = filter (\<lambda>(k, pts). fst k = dev \<and> key_repo k = repo) runs
            in if mine = [] then None
               else Some (go_quot (unionMS (spans_where (\<lambda>k. fst k = dev \<and> key_repo k = repo) idleMS runs)) 1000)))"

section \<open>Billing blocks\<close>

definition BlockDuration :: int where "BlockDuration = 5 * 3600000"

record block =
  bk_start :: int
  bk_end :: int
  bk_last :: int
  bk_tokens :: int
  bk_out_tokens :: int
  bk_events :: int
  bk_active :: bool

record block_entry =
  be_ts :: int
  be_tokens :: int
  be_out :: int

text \<open>Go's \<open>%\<close> truncates towards zero.\<close>

definition floorToHourMS :: "int \<Rightarrow> int" where
  "floorToHourMS ms = ms - (ms - 3600000 * go_quot ms 3600000)"

definition open_block :: "int \<Rightarrow> int \<Rightarrow> block" where
  "open_block durMS ts = \<lparr>bk_start = floorToHourMS ts, bk_end = floorToHourMS ts + durMS, bk_last = 0, bk_tokens = 0,
     bk_out_tokens = 0, bk_events = 0, bk_active = False\<rparr>"

definition block_add :: "block_entry \<Rightarrow> block \<Rightarrow> block" where
  "block_add e b = b\<lparr>bk_last := be_ts e, bk_tokens := i64 (bk_tokens b + be_tokens e),
     bk_out_tokens := i64 (bk_out_tokens b + be_out e), bk_events := bk_events b + 1\<rparr>"

fun block_loop :: "int \<Rightarrow> int \<Rightarrow> block \<Rightarrow> block_entry list \<Rightarrow> block list" where
  "block_loop durMS nowMS cur [] =
     [if nowMS < bk_end cur \<and> nowMS - bk_last cur \<le> durMS then cur\<lparr>bk_active := True\<rparr> else cur]"
| "block_loop durMS nowMS cur (e # es) =
     (if be_ts e - bk_start cur > durMS \<or> be_ts e - bk_last cur > durMS
      then cur # block_loop durMS nowMS (block_add e (open_block durMS (be_ts e))) es
      else block_loop durMS nowMS (block_add e cur) es)"

definition identifyBlocks :: "block_entry list \<Rightarrow> int \<Rightarrow> int \<Rightarrow> block list" where
  "identifyBlocks entries durMS nowMS =
     (case entries of [] \<Rightarrow> []
      | e # es \<Rightarrow> block_loop durMS nowMS (block_add e (open_block durMS (be_ts e))) es)"

definition block_rows :: "event_row list \<Rightarrow> int \<Rightarrow> event_row list" where
  "block_rows t from1 = sort_key ev_ts (filter (\<lambda>r. from1 \<le> ev_ts r \<and> ev_source r = ''claude-code'' \<and>
     ev_provider r = ProviderAnthropicOAuth) t)"

definition entry_of :: "event_row \<Rightarrow> block_entry" where
  "entry_of r = \<lparr>be_ts = ev_ts r, be_tokens = ev_input_tokens r + ev_output_tokens r + ev_cache_read_tokens r +
     ev_cache_creation_tokens r, be_out = ev_output_tokens r\<rparr>"

text \<open>A row whose four columns overflow 64 bits is a float in SQLite, which does not scan into an \<open>int64\<close>.\<close>

definition Blocks :: "event_row list \<Rightarrow> int \<Rightarrow> int \<Rightarrow> block list option" where
  "Blocks t from1 now =
     (let entries = map entry_of (block_rows t from1)
      in if list_all (\<lambda>e. is_i64 (be_tokens e)) entries then Some (identifyBlocks entries BlockDuration now) else None)"

end
