(* ===== verification/Work_Properties.thy ===== *)
theory Work_Properties
  imports Work_Time
begin

text \<open>
  Work time is the measure of a set of milliseconds: merging spans measures their union, bridging a
  session covers its events and its short pauses, and the rows of a query fall into sessions.
\<close>

section \<open>Merging spans measures their union\<close>

definition cells :: "span list \<Rightarrow> int set" where
  "cells ss = (\<Union>s\<in>set ss. {sp_start s..<sp_end s})"

lemma cells_simps [simp]: "cells [] = {}" "cells (s # ss) = {sp_start s..<sp_end s} \<union> cells ss"
  "cells (as @ bs) = cells as \<union> cells bs"
  by (auto simp: cells_def)

lemma finite_cells [simp]: "finite (cells ss)"
  by (simp add: cells_def)

definition proper :: "span list \<Rightarrow> bool" where
  "proper ss \<longleftrightarrow> list_all (\<lambda>s. sp_start s \<le> sp_end s) ss"

lemma cells_ge: "(\<And>s. s \<in> set ss \<Longrightarrow> a \<le> sp_start s) \<Longrightarrow> x \<in> cells ss \<Longrightarrow> a \<le> x"
  by (force simp: cells_def)

lemma merge_loop_cells:
  "sorted (map sp_start (cur # ss)) \<Longrightarrow> proper (cur # ss) \<Longrightarrow>
     cells (merge_loop cur ss) = cells (cur # ss) \<and> sumMS (merge_loop cur ss) = int (card (cells (cur # ss)))"
proof (induction ss arbitrary: cur)
  case Nil
  then show ?case by (simp add: sumMS_def proper_def)
next
  case (Cons s ss)
  consider (gap) "sp_start s > sp_end cur" | (longer) "sp_start s \<le> sp_end cur" "sp_end s > sp_end cur"
    | (inside) "sp_start s \<le> sp_end cur" "sp_end s \<le> sp_end cur" by linarith
  then show ?case
  proof cases
    case gap
    have IH: "cells (merge_loop s ss) = cells (s # ss)" "sumMS (merge_loop s ss) = int (card (cells (s # ss)))"
      using Cons by (simp_all add: proper_def)
    have ge: "sp_start s \<le> sp_start u" if "u \<in> set (s # ss)" for u using that Cons.prems(1) by auto
    have "sp_start s \<le> x" if "x \<in> cells (s # ss)" for x using ge that by (rule cells_ge)
    then have "sp_end cur < x" if "x \<in> cells (s # ss)" for x using that gap less_le_trans by blast
    then have "{sp_start cur..<sp_end cur} \<inter> cells (s # ss) = {}"
      by (auto simp only: disjoint_iff atLeastLessThan_iff dest: less_asym)
    then have "card ({sp_start cur..<sp_end cur} \<union> cells (s # ss)) = card {sp_start cur..<sp_end cur} + card (cells (s # ss))"
      by (intro card_Un_disjoint) auto
    moreover have "sumMS (merge_loop cur (s # ss)) = (sp_end cur - sp_start cur) + sumMS (merge_loop s ss)"
      using gap by (simp add: sumMS_def)
    moreover have "cells (merge_loop cur (s # ss)) = {sp_start cur..<sp_end cur} \<union> cells (s # ss)"
      using gap IH(1) by simp
    moreover have "sp_start cur \<le> sp_end cur" using Cons.prems(2) by (simp add: proper_def)
    ultimately show ?thesis using IH(2) by (simp only: cells_simps(2) [of cur "s # ss"]) simp
  next
    case longer
    let ?c = "cur\<lparr>sp_end := sp_end s\<rparr>"
    have "cells (?c # ss) = cells (cur # s # ss)" using longer Cons.prems by auto
    moreover have "cells (merge_loop ?c ss) = cells (?c # ss) \<and> sumMS (merge_loop ?c ss) = int (card (cells (?c # ss)))"
      using Cons.prems longer by (intro Cons.IH) (auto simp: proper_def)
    ultimately show ?thesis using longer by simp
  next
    case inside
    have "cells (cur # ss) = cells (cur # s # ss)" using inside Cons.prems by auto
    moreover have "cells (merge_loop cur ss) = cells (cur # ss) \<and> sumMS (merge_loop cur ss) = int (card (cells (cur # ss)))"
      using Cons.prems by (intro Cons.IH) (auto simp: proper_def)
    ultimately show ?thesis using inside by simp
  qed
qed

lemma cells_set: "set xs = set ys \<Longrightarrow> cells xs = cells ys"
  by (simp add: cells_def)

lemma unionMS_card:
  assumes "proper ss" shows "unionMS ss = int (card (cells ss))"
proof (cases "sort_key sp_start ss")
  case Nil
  then have "ss = []" by (metis length_0_conv length_sort)
  then show ?thesis by (simp add: unionMS_def mergeSpans_def sumMS_def)
next
  case (Cons c cs)
  have "sorted (map sp_start (c # cs))" by (metis Cons sorted_sort_key)
  moreover have "proper (c # cs)" using assms unfolding proper_def list_all_iff by (metis Cons set_sort)
  moreover have "cells (c # cs) = cells ss" by (rule cells_set) (metis Cons set_sort)
  ultimately show ?thesis using merge_loop_cells [of c cs] Cons by (simp add: unionMS_def mergeSpans_def)
qed

section \<open>Bridging\<close>

lemma bridge_proper:
  "sp_start cur \<le> sp_end cur \<Longrightarrow> (\<And>p. p \<in> set ps \<Longrightarrow> 0 \<le> ep_dur p) \<Longrightarrow> proper (bridge_loop idleMS cur ps)"
proof (induction ps arbitrary: cur)
  case (Cons p ps)
  then have "0 \<le> ep_dur p" by simp
  with Cons show ?case by (auto simp: Let_def proper_def)
qed (simp add: proper_def)

lemma bridgeSpans_proper: "(\<And>p. p \<in> set ps \<Longrightarrow> 0 \<le> ep_dur p) \<Longrightarrow> proper (bridgeSpans ps idleMS)"
  by (cases ps) (auto simp: bridgeSpans_def proper_def intro!: bridge_proper [unfolded proper_def])

lemma bridge_disjoint:
  "sp_start cur \<le> sp_end cur \<Longrightarrow> 0 \<le> idleMS \<Longrightarrow> (\<And>p. p \<in> set ps \<Longrightarrow> 0 \<le> ep_dur p) \<Longrightarrow>
     sumMS (bridge_loop idleMS cur ps) = int (card (cells (bridge_loop idleMS cur ps))) \<and>
     (\<forall>s\<in>set (bridge_loop idleMS cur ps). sp_start cur \<le> sp_start s)"
proof (induction ps arbitrary: cur)
  case Nil
  then show ?case by (simp add: sumMS_def)
next
  case (Cons p ps)
  show ?case
  proof (cases "ep_ts p - ep_dur p - sp_end cur \<le> idleMS")
    case True
    let ?c = "if ep_ts p > sp_end cur then cur\<lparr>sp_end := ep_ts p\<rparr> else cur"
    have "sumMS (bridge_loop idleMS ?c ps) = int (card (cells (bridge_loop idleMS ?c ps))) \<and>
        (\<forall>s\<in>set (bridge_loop idleMS ?c ps). sp_start ?c \<le> sp_start s)"
      using Cons.prems by (intro Cons.IH) auto
    moreover have "sp_start ?c = sp_start cur" by simp
    ultimately show ?thesis using True by (simp add: Let_def del: if_split_asm)
  next
    case False
    let ?c = "\<lparr>sp_start = ep_ts p - ep_dur p, sp_end = ep_ts p\<rparr>"
    let ?rest = "bridge_loop idleMS ?c ps"
    have IH: "sumMS ?rest = int (card (cells ?rest))" "\<And>s. s \<in> set ?rest \<Longrightarrow> sp_start ?c \<le> sp_start s"
      using Cons.IH [of ?c] Cons.prems by auto
    have "sp_end cur < x" if "x \<in> cells ?rest" for x
    proof -
      have "sp_start ?c \<le> x" using IH(2) that by (rule cells_ge)
      with False Cons.prems(2) show ?thesis by simp
    qed
    then have "{sp_start cur..<sp_end cur} \<inter> cells ?rest = {}" by fastforce
    then have "card ({sp_start cur..<sp_end cur} \<union> cells ?rest) = card {sp_start cur..<sp_end cur} + card (cells ?rest)"
      by (intro card_Un_disjoint) auto
    moreover have "bridge_loop idleMS cur (p # ps) = cur # ?rest" using False by (simp add: Let_def)
    moreover have "sp_start cur \<le> sp_start s" if "s \<in> set ?rest" for s
      using IH(2) [OF that] False Cons.prems(1,2) by simp
    ultimately show ?thesis using IH(1) Cons.prems(1) by (simp add: sumMS_def)
  qed
qed

lemma bridgeSpans_sum:
  "0 \<le> idleMS \<Longrightarrow> (\<And>p. p \<in> set ps \<Longrightarrow> 0 \<le> ep_dur p) \<Longrightarrow>
     sumMS (bridgeSpans ps idleMS) = int (card (cells (bridgeSpans ps idleMS)))"
proof (cases ps)
  case (Cons p ps')
  assume a: "0 \<le> idleMS" "\<And>p. p \<in> set ps \<Longrightarrow> 0 \<le> ep_dur p"
  have "0 \<le> ep_dur p" using a(2) Cons by simp
  then show ?thesis
    using bridge_disjoint [of "\<lparr>sp_start = ep_ts p - ep_dur p, sp_end = ep_ts p\<rparr>" idleMS ps'] a Cons
    by (simp add: bridgeSpans_def)
qed (simp add: bridgeSpans_def sumMS_def)

section \<open>Sessions\<close>

lemma sorted_keys_between:
  "sorted (a # xs) \<Longrightarrow> remdups_adj (a # xs) = a # remdups_adj (filter (\<lambda>x. x \<noteq> a) xs)"
proof (induction xs)
  case (Cons x xs)
  show ?case
  proof (cases "x = a")
    case True
    with Cons show ?thesis by simp
  next
    case False
    then have "a < x" "sorted (x # xs)" using Cons.prems by auto
    then have "filter (\<lambda>y. y \<noteq> a) (x # xs) = x # xs" by (intro filter_True) force
    with False show ?thesis by simp
  qed
qed simp

lemma distinct_adjacent: "sorted xs \<Longrightarrow> distinct (remdups_adj xs)"
  by (induction xs rule: remdups_adj.induct) auto

lemma session_runs_sorted:
  "sorted (k # map work_key rs) \<Longrightarrow>
     session_runs k pts rs = (k, pts @ map point_of (filter (\<lambda>r. work_key r = k) rs)) #
       map (\<lambda>k'. (k', map point_of (filter (\<lambda>r. work_key r = k') rs)))
         (remdups_adj (filter (\<lambda>k'. k' \<noteq> k) (map work_key rs)))"
proof (induction rs arbitrary: k pts)
  case (Cons r rs)
  show ?case
  proof (cases "work_key r = k")
    case True
    have "map (\<lambda>k'. (k', map point_of (filter (\<lambda>r. work_key r = k') rs))) (remdups_adj (filter (\<lambda>k'. k' \<noteq> k) (map work_key rs))) =
        map (\<lambda>k'. (k', map point_of (filter (\<lambda>r. work_key r = k') (r # rs)))) (remdups_adj (filter (\<lambda>k'. k' \<noteq> k) (map work_key rs)))"
      using True by (intro map_cong) auto
    with True Cons show ?thesis by simp
  next
    case False
    have srt: "sorted (work_key r # map work_key rs)" "k < work_key r" using Cons.prems False by auto
    then have none: "x \<noteq> k" if "x \<in> set (map work_key (r # rs))" for x using that by fastforce
    have f1: "filter (\<lambda>k'. k' \<noteq> k) (map work_key (r # rs)) = map work_key (r # rs)" using none by (intro filter_True) auto
    have f2: "filter (\<lambda>r'. work_key r' = k) (r # rs) = []" using none by (intro filter_False) auto
    let ?ks = "remdups_adj (filter (\<lambda>k'. k' \<noteq> work_key r) (map work_key rs))"
    have "session_runs (work_key r) [point_of r] rs = (work_key r, [point_of r] @ map point_of (filter (\<lambda>r'. work_key r' = work_key r) rs)) #
       map (\<lambda>k'. (k', map point_of (filter (\<lambda>r. work_key r = k') rs))) ?ks"
      using srt(1) by (rule Cons.IH)
    moreover have "map (\<lambda>k'. (k', map point_of (filter (\<lambda>r. work_key r = k') rs))) ?ks =
        map (\<lambda>k'. (k', map point_of (filter (\<lambda>r. work_key r = k') (r # rs)))) ?ks"
      by (intro map_cong) auto
    moreover have "remdups_adj (map work_key (r # rs)) = work_key r # ?ks"
      using sorted_keys_between [OF srt(1)] by simp
    ultimately show ?thesis using False by (simp only: session_runs.simps f1 f2) simp
  qed
qed simp

definition session_points :: "event_row list \<Rightarrow> work_key \<Rightarrow> ev_point list" where
  "session_points rs k = map point_of (filter (\<lambda>r. work_key r = k) rs)"

lemma runs_of_sorted:
  assumes "sorted (map work_key rs)"
  shows "runs_of rs = map (\<lambda>k. (k, session_points rs k)) (remdups_adj (map work_key rs))"
proof (cases rs)
  case (Cons r rs')
  then have srt: "sorted (work_key r # map work_key rs')" using assms by simp
  have "map (\<lambda>k'. (k', map point_of (filter (\<lambda>r. work_key r = k') rs'))) (remdups_adj (filter (\<lambda>k'. k' \<noteq> work_key r) (map work_key rs'))) =
      map (\<lambda>k'. (k', session_points rs k')) (remdups_adj (filter (\<lambda>k'. k' \<noteq> work_key r) (map work_key rs')))"
    using Cons by (intro map_cong) (auto simp: session_points_def)
  then show ?thesis
    using session_runs_sorted [OF srt, of "[point_of r]"] sorted_keys_between [OF srt] Cons
    by (simp add: runs_of_def session_points_def)
qed (simp add: runs_of_def)

lemma work_rows_sorted: "sorted (map work_key (work_rows t a b))"
proof -
  have "sorted (map (\<lambda>r. (work_key r, ev_ts r)) (work_rows t a b))" unfolding work_rows_def by (rule sorted_sort_key)
  then show ?thesis by (simp add: sorted_iff_nth_mono less_eq_prod_simp) (metis order.strict_implies_order)
qed

section \<open>What a session covers\<close>

abbreviation began :: "ev_point \<Rightarrow> int" where "began p \<equiv> ep_ts p - ep_dur p"

text \<open>The reference: every event's own interval, and every pause of at most \<open>idleMS\<close> between neighbours.\<close>

fun active_cells :: "int \<Rightarrow> ev_point list \<Rightarrow> int set" where
  "active_cells idleMS (p # q # ps) = {began p..<ep_ts p} \<union>
     (if began q - ep_ts p \<le> idleMS then {ep_ts p..<began q} else {}) \<union> active_cells idleMS (q # ps)"
| "active_cells idleMS ps = (\<Union>p\<in>set ps. {began p..<ep_ts p})"

lemma bridge_loop_active:
  "sorted (map ep_ts (p # ps)) \<Longrightarrow> sorted (map began (p # ps)) \<Longrightarrow> (\<And>q. q \<in> set (p # ps) \<Longrightarrow> 0 \<le> ep_dur q) \<Longrightarrow>
     sp_end cur = ep_ts p \<Longrightarrow> sp_start cur \<le> began p \<Longrightarrow>
     cells (bridge_loop idleMS cur ps) = {sp_start cur..<ep_ts p} \<union> active_cells idleMS (p # ps)"
proof (induction ps arbitrary: p cur)
  case Nil
  then show ?case by auto
next
  case (Cons q ps)
  have q: "ep_ts p \<le> ep_ts q" "began p \<le> began q" "0 \<le> ep_dur q" "0 \<le> ep_dur p" using Cons.prems(1-3) by auto
  show ?case
  proof (cases "began q - ep_ts p \<le> idleMS")
    case True
    let ?c = "if ep_ts q > sp_end cur then cur\<lparr>sp_end := ep_ts q\<rparr> else cur"
    have c: "sp_end ?c = ep_ts q" "sp_start ?c = sp_start cur" using Cons.prems(4) q(1) by auto
    have "cells (bridge_loop idleMS ?c ps) = {sp_start ?c..<ep_ts q} \<union> active_cells idleMS (q # ps)"
      using Cons.prems q c by (intro Cons.IH) auto
    moreover have "bridge_loop idleMS cur (q # ps) = bridge_loop idleMS ?c ps" using True Cons.prems(4) by (simp add: Let_def)
    moreover have "{sp_start cur..<ep_ts q} = {sp_start cur..<ep_ts p} \<union> {began p..<ep_ts p} \<union> {ep_ts p..<began q} \<union> {began q..<ep_ts q}"
      using Cons.prems(5) q by auto
    moreover have "{began q..<ep_ts q} \<subseteq> active_cells idleMS (q # ps)" by (cases ps) auto
    ultimately show ?thesis using True c(2) by auto
  next
    case False
    let ?c = "\<lparr>sp_start = began q, sp_end = ep_ts q\<rparr>"
    have "cells (bridge_loop idleMS ?c ps) = {sp_start ?c..<ep_ts q} \<union> active_cells idleMS (q # ps)"
      using Cons.prems by (intro Cons.IH) auto
    moreover have "bridge_loop idleMS cur (q # ps) = cur # bridge_loop idleMS ?c ps" using False Cons.prems(4) by (simp add: Let_def)
    moreover have "{began q..<ep_ts q} \<subseteq> active_cells idleMS (q # ps)" by (cases ps) auto
    ultimately show ?thesis using False Cons.prems(4,5) by auto
  qed
qed

lemma bridgeSpans_active:
  assumes "sorted (map ep_ts ps)" "sorted (map began ps)" "\<And>p. p \<in> set ps \<Longrightarrow> 0 \<le> ep_dur p"
  shows "cells (bridgeSpans ps idleMS) = active_cells idleMS ps"
proof (cases ps)
  case (Cons p ps')
  have "{began p..<ep_ts p} \<subseteq> active_cells idleMS (p # ps')" by (cases ps') auto
  with bridge_loop_active [of p ps' "\<lparr>sp_start = began p, sp_end = ep_ts p\<rparr>" idleMS] assms Cons show ?thesis
    by (auto simp: bridgeSpans_def)
qed (simp add: bridgeSpans_def)

text \<open>Why the order of beginnings matters: a later event that began before its predecessor loses the part before it.\<close>

lemma earlier_beginning_is_lost:
  "cells (bridgeSpans [\<lparr>ep_ts = 100, ep_dur = 0\<rparr>, \<lparr>ep_ts = 200, ep_dur = 150\<rparr>] 300) = {100..<200}"
  by (simp add: bridgeSpans_def)

lemma cells_concat: "cells (concat sss) = (\<Union>ss\<in>set sss. cells ss)"
  by (auto simp: cells_def)

lemma session_points_sorted:
  assumes "sorted (map (\<lambda>r. (work_key r, ev_ts r)) rs)"
  shows "sorted (map ep_ts (session_points rs k))"
proof -
  have "sorted (map (\<lambda>r. (work_key r, ev_ts r)) (filter (\<lambda>r. work_key r = k) rs))"
    using assms by (rule sorted_filter)
  moreover have "map (\<lambda>r. (work_key r, ev_ts r)) (filter (\<lambda>r. work_key r = k) rs) = map (\<lambda>x. (k, x)) (map ev_ts (filter (\<lambda>r. work_key r = k) rs))"
    by (simp add: comp_def)
  ultimately have "sorted (map (\<lambda>x. (k, x)) (map ev_ts (filter (\<lambda>r. work_key r = k) rs)))" by simp
  then have "sorted (map ev_ts (filter (\<lambda>r. work_key r = k) rs))"
    by (simp add: sorted_iff_nth_mono)
  then show ?thesis by (simp add: session_points_def point_of_def comp_def)
qed

text \<open>The (device, session) pairs that worked on a repository in a period.\<close>

definition repo_sessions :: "event_row list \<Rightarrow> int \<Rightarrow> int \<Rightarrow> string \<Rightarrow> work_key set" where
  "repo_sessions t from1 to1 repo = work_key ` {r \<in> set t. from1 \<le> ev_ts r \<and> ev_ts r < to1 \<and> ev_repo r = repo}"

text \<open>C23. The work time of a repository: if no event of a session began before its predecessor did, the
  union is the number of milliseconds in which some session was active, an overlap of sessions or
  devices counting once, the sum adds each session's own active milliseconds, both in whole seconds,
  and the count is the number of its (device, session) pairs; active means within an event's interval
  or within a pause of at most \<open>idleMS\<close> between two events of the session.\<close>

theorem work_time_measures_activity:
  assumes dur: "\<forall>r\<in>set t. 0 \<le> ev_duration_ms r" and idle: "0 \<le> idleMS"
    and ordered: "\<forall>k. sorted (map began (session_points (work_rows t from1 to1) k))"
    and w: "fst (WorkTime t from1 to1 idleMS) repo = Some w"
  shows "let ks = repo_sessions t from1 to1 repo; act = (\<lambda>k. active_cells idleMS (session_points (work_rows t from1 to1) k))
    in rw_union_seconds w = int (card (\<Union>k\<in>ks. act k)) div 1000 \<and>
       rw_sum_seconds w = (\<Sum>k\<in>ks. int (card (act k))) div 1000 \<and> rw_sessions w = card ks"
proof -
  let ?rs = "work_rows t from1 to1" and ?runs = "runs_of (work_rows t from1 to1)"
  let ?pts = "session_points ?rs" and ?act = "\<lambda>k. active_cells idleMS (session_points ?rs k)"
  define kl where "kl = filter (\<lambda>k. key_repo k = repo) (remdups_adj (map work_key ?rs))"
  have set_rs: "set ?rs = {r \<in> set t. from1 \<le> ev_ts r \<and> ev_ts r < to1}" by (simp add: work_rows_def)
  have srt: "sorted (map (\<lambda>r. (work_key r, ev_ts r)) ?rs)" unfolding work_rows_def by (rule sorted_sort_key)
  have kl: "distinct kl" "set kl = repo_sessions t from1 to1 repo"
  proof -
    show "distinct kl" unfolding kl_def by (intro distinct_filter distinct_adjacent work_rows_sorted)
    show "set kl = repo_sessions t from1 to1 repo"
      by (auto simp: kl_def repo_sessions_def set_rs key_repo_def work_key_def)
  qed
  have mine: "filter (\<lambda>(k, pts). key_repo k = repo) ?runs = map (\<lambda>k. (k, ?pts k)) kl"
    unfolding runs_of_sorted [OF work_rows_sorted] kl_def by (simp add: filter_map comp_def)
  have nn: "0 \<le> ep_dur p" if "p \<in> set (?pts k)" for p k
    using that dur set_rs by (auto simp: session_points_def point_of_def)
  have act: "cells (bridgeSpans (?pts k) idleMS) = ?act k" for k
    by (rule bridgeSpans_active [OF session_points_sorted [OF srt] ordered [rule_format] nn])
  have sum1: "sumMS (bridgeSpans (?pts k) idleMS) = int (card (?act k))" for k
    unfolding act [symmetric] by (rule bridgeSpans_sum [OF idle nn])
  let ?spans = "spans_where (\<lambda>k. key_repo k = repo) idleMS ?runs"
  have spans: "?spans = concat (map (\<lambda>k. bridgeSpans (?pts k) idleMS) kl)"
    unfolding spans_where_def mine by (simp add: comp_def)
  have "proper ?spans"
    unfolding spans using bridgeSpans_proper [OF nn] by (auto simp: proper_def list_all_iff)
  then have un: "unionMS ?spans = int (card (\<Union>k\<in>set kl. ?act k))"
    by (simp add: unionMS_card spans cells_concat act)
  have "sum_list (map (\<lambda>(k, pts). sumMS (bridgeSpans pts idleMS)) (map (\<lambda>k. (k, ?pts k)) kl)) = (\<Sum>k\<in>set kl. int (card (?act k)))"
    using kl(1) by (simp add: comp_def sum1 sum_list_distinct_conv_sum_set)
  moreover have "0 \<le> (\<Sum>k\<in>set kl. int (card (?act k)))" by (intro sum_nonneg) simp
  moreover have "length kl = card (set kl)" using kl(1) by (simp add: distinct_card)
  moreover have "w = \<lparr>rw_union_seconds = go_quot (unionMS ?spans) 1000,
      rw_sum_seconds = go_quot (sum_list (map (\<lambda>(k, pts). sumMS (bridgeSpans pts idleMS)) (map (\<lambda>k. (k, ?pts k)) kl))) 1000,
      rw_sessions = length kl\<rparr>"
    using w unfolding mine [symmetric] length_map [of "\<lambda>k. (k, ?pts k)" kl, symmetric]
    by (auto simp: WorkTime_def Let_def split: if_splits)
  ultimately show ?thesis using un by (simp add: Let_def kl(2) [symmetric] go_quot_nonneg)
qed

text \<open>Two sessions of one repository overlap; one of them pauses for two seconds.\<close>

definition work_sample :: "event_row list" where
  "work_sample = map (\<lambda>(s, ts, d). row_of (zero_event\<lparr>ev_session_id := s, ev_repo := ''r'', ev_ts := ts,
     ev_duration_ms := d\<rparr>) OriginSelf 0) [([], 1000, 1000), ([], 4000, 1000), (''b'', 2000, 2000)]"

theorem work_time_measures_activity_witness:
  "fst (WorkTime work_sample 0 10000 2500) ''r'' = Some \<lparr>rw_union_seconds = 4, rw_sum_seconds = 6, rw_sessions = 2\<rparr> \<and>
   card (repo_sessions work_sample 0 10000 ''r'') = 2"
proof -
  have rows: "work_rows work_sample 0 10000 = work_sample"
    by (simp add: work_rows_def work_sample_def row_of_def work_key_def zero_event_def less_eq_prod_simp)
  have ordered: "\<forall>k. sorted (map began (session_points (work_rows work_sample 0 10000) k))"
    unfolding rows by (auto simp: session_points_def work_sample_def row_of_def point_of_def zero_event_def work_key_def)
  have w: "fst (WorkTime work_sample 0 10000 2500) ''r'' = Some \<lparr>rw_union_seconds = 4, rw_sum_seconds = 6, rw_sessions = 2\<rparr>"
    unfolding WorkTime_def Let_def rows
    by (simp add: work_sample_def row_of_def zero_event_def runs_of_def work_key_def key_repo_def point_of_def spans_where_def
        bridgeSpans_def unionMS_def mergeSpans_def sumMS_def go_quot_def)
  have "\<forall>r\<in>set work_sample. 0 \<le> ev_duration_ms r" by (simp add: work_sample_def row_of_def)
  from work_time_measures_activity [OF this _ ordered w] w show ?thesis by (simp add: Let_def)
qed

end
