(* ===== verification/Block_Properties.thy ===== *)
theory Block_Properties
  imports Work_Time
begin

text \<open>The billing blocks of \<open>Blocks\<close> cut the subscription's events, in time order, into windows.\<close>

definition block_part :: "int \<Rightarrow> event_row list \<Rightarrow> block \<Rightarrow> bool" where
  "block_part durMS part b \<longleftrightarrow> part \<noteq> [] \<and> bk_start b = floorToHourMS (ev_ts (hd part)) \<and> bk_end b = bk_start b + durMS \<and>
     bk_last b = ev_ts (last part) \<and> bk_events b = int (length part) \<and>
     bk_tokens b = i64 (sum_list (map (be_tokens \<circ> entry_of) part)) \<and>
     bk_out_tokens b = i64 (sum_list (map (be_out \<circ> entry_of) part)) \<and>
     (\<forall>r\<in>set (tl part). ev_ts r - bk_start b \<le> durMS)"

text \<open>A block ends only when the next event is past its window or after a pause longer than it.\<close>

fun block_cuts :: "int \<Rightarrow> block list \<Rightarrow> event_row list list \<Rightarrow> bool" where
  "block_cuts durMS (b # c # bs) (p # q # ps) \<longleftrightarrow>
     (ev_ts (hd q) - bk_start b > durMS \<or> ev_ts (hd q) - bk_last b > durMS) \<and> \<not> bk_active b \<and> block_cuts durMS (c # bs) (q # ps)"
| "block_cuts durMS bs ps \<longleftrightarrow> True"

definition last_active :: "int \<Rightarrow> int \<Rightarrow> block list \<Rightarrow> bool" where
  "last_active durMS now bs \<longleftrightarrow> bs \<noteq> [] \<and> (bk_active (last bs) \<longleftrightarrow> now < bk_end (last bs) \<and> now - bk_last (last bs) \<le> durMS)"

lemma i64_add_left: "i64 (i64 a + b) = i64 (a + b)"
proof -
  have "(i64 a + b + 2 ^ 63) mod 2 ^ 64 = (a + b + 2 ^ 63) mod 2 ^ 64"
    unfolding i64_def by (simp add: mod_simps algebra_simps)
  then show ?thesis by (simp add: i64_def)
qed

lemma block_add_part:
  assumes "block_part durMS part b" "ev_ts r - bk_start b \<le> durMS"
  shows "block_part durMS (part @ [r]) (block_add (entry_of r) b)"
proof -
  from assms(1) have ne: "part \<noteq> []" by (simp add: block_part_def)
  with assms show ?thesis by (auto simp: block_part_def block_add_def i64_add_left entry_of_def tl_append split: list.split)
qed

lemma open_part: "block_part durMS [r] (block_add (entry_of r) (open_block durMS (ev_ts r)))"
  by (simp add: block_part_def block_add_def open_block_def entry_of_def)

lemma block_loop_parts:
  assumes "block_part durMS part cur" "\<not> bk_active cur"
  shows "\<exists>parts. concat parts = part @ rs \<and> list_all2 (block_part durMS) parts (block_loop durMS now cur (map entry_of rs)) \<and>
    block_cuts durMS (block_loop durMS now cur (map entry_of rs)) parts \<and>
    last_active durMS now (block_loop durMS now cur (map entry_of rs)) \<and> parts \<noteq> [] \<and> hd (hd parts) = hd part"
  using assms
proof (induction rs arbitrary: part cur)
  case Nil
  let ?b = "if now < bk_end cur \<and> now - bk_last cur \<le> durMS then cur\<lparr>bk_active := True\<rparr> else cur"
  have "block_part durMS part ?b" using Nil.prems(1) by (auto simp: block_part_def)
  moreover have "last_active durMS now [?b]" using Nil.prems(2) by (simp add: last_active_def)
  ultimately show ?case by (intro exI [of _ "[part]"]) simp
next
  case (Cons r rs)
  have ts: "be_ts (entry_of r) = ev_ts r" by (simp add: entry_of_def)
  show ?case
  proof (cases "ev_ts r - bk_start cur > durMS \<or> ev_ts r - bk_last cur > durMS")
    case True
    let ?c = "block_add (entry_of r) (open_block durMS (ev_ts r))"
    let ?bs = "block_loop durMS now ?c (map entry_of rs)"
    have "\<not> bk_active ?c" by (simp add: block_add_def open_block_def)
    with Cons.IH [OF open_part] obtain parts where p: "concat parts = [r] @ rs" "list_all2 (block_part durMS) parts ?bs"
      "block_cuts durMS ?bs parts" "last_active durMS now ?bs" "parts \<noteq> []" "hd (hd parts) = r"
      by auto
    obtain b bs where bs: "?bs = b # bs" using p(4) by (cases ?bs) (auto simp: last_active_def)
    obtain q qs where qs: "parts = q # qs" using p(5) by (cases parts) auto
    have "block_cuts durMS (cur # ?bs) (part # parts)"
      using p(3,6) True Cons.prems(2) unfolding bs qs by simp
    moreover have "block_loop durMS now cur (map entry_of (r # rs)) = cur # ?bs" using True ts by simp
    moreover have "last_active durMS now (cur # ?bs)" using p(4) by (simp add: last_active_def)
    ultimately show ?thesis using p(1,2) Cons.prems(1) by (intro exI [of _ "part # parts"]) simp
  next
    case False
    have "block_part durMS (part @ [r]) (block_add (entry_of r) cur)" using Cons.prems(1) False by (intro block_add_part) auto
    moreover have "\<not> bk_active (block_add (entry_of r) cur)" using Cons.prems(2) by (simp add: block_add_def)
    moreover have "hd (part @ [r]) = hd part" using Cons.prems(1) by (simp add: block_part_def)
    ultimately show ?thesis using Cons.IH [of "part @ [r]" "block_add (entry_of r) cur"] False ts by simp
  qed
qed

text \<open>C24. The subscription's events of a period fall, in time order, into consecutive blocks: every event
  is in exactly one, no relay or key-billed event is in any; a block starts at the hour of its first
  event, holds no event later than five hours after that, counts its events and adds up their tokens,
  ends where it should, and the next one opens only past its window or after a longer pause. Only the
  last can be active, exactly while its window lasts and its last event is within five hours.\<close>

theorem billing_blocks_partition:
  assumes "Blocks t from1 now = Some bs" "block_rows t from1 \<noteq> []"
  shows "\<exists>parts. concat parts = block_rows t from1 \<and> list_all2 (block_part BlockDuration) parts bs \<and>
    block_cuts BlockDuration bs parts \<and> last_active BlockDuration now bs"
proof -
  obtain r rs where rows: "block_rows t from1 = r # rs" using assms(2) by (cases "block_rows t from1") auto
  have bs: "bs = block_loop BlockDuration now (block_add (entry_of r) (open_block BlockDuration (ev_ts r))) (map entry_of rs)"
    using assms(1) by (simp add: Blocks_def identifyBlocks_def rows Let_def entry_of_def split: if_splits)
  have "\<not> bk_active (block_add (entry_of r) (open_block BlockDuration (ev_ts r)))" by (simp add: block_add_def open_block_def)
  with block_loop_parts [OF open_part, where rs = rs and now = now] show ?thesis
    unfolding bs rows by auto
qed

text \<open>Three events: two in one block, one after a pause of more than five hours.\<close>

definition block_sample :: "event_row list" where
  "block_sample = map (\<lambda>(ts, n). row_of (zero_event\<lparr>ev_source := ''claude-code'', ev_provider := ProviderAnthropicOAuth, ev_ts := ts,
     ev_input_tokens := n\<rparr>) OriginSelf 0) [(3700000, 5), (3800000, 6), (40000000, 7)]"

theorem billing_blocks_partition_witness:
  "\<exists>bs parts. Blocks block_sample 0 40000001 = Some bs \<and> map bk_tokens bs = [11, 7] \<and> map bk_active bs = [False, True] \<and>
     concat parts = block_sample \<and> list_all2 (block_part BlockDuration) parts bs"
proof -
  have rows: "block_rows block_sample 0 = block_sample"
    by (simp add: block_rows_def block_sample_def row_of_def zero_event_def)
  obtain bs where bs: "Blocks block_sample 0 40000001 = Some bs" "map bk_tokens bs = [11, 7]" "map bk_active bs = [False, True]"
    by (simp add: Blocks_def rows) (simp add: block_sample_def row_of_def zero_event_def entry_of_def is_i64_def identifyBlocks_def
        block_add_def open_block_def floorToHourMS_def go_quot_def BlockDuration_def i64_def)
  have "block_rows block_sample 0 \<noteq> []" unfolding rows by (simp add: block_sample_def)
  from billing_blocks_partition [OF bs(1) this] bs rows show ?thesis by auto
qed

end
