(* ===== verification/Canonical.thy ===== *)
theory Canonical
  imports Go_Strings
begin

text \<open>
  \<open>internal/model/canonical.go\<close>: the name a model is shown and grouped by. Each regular expression is
  anchored, so what it removes is written as a function on the text.
\<close>

text \<open>\<open>^(us|eu|apac|jp|au|ca|sa|global)\.\<close>\<close>

definition bedrock_regions :: "string list" where
  "bedrock_regions = [''us.'', ''eu.'', ''apac.'', ''jp.'', ''au.'', ''ca.'', ''sa.'', ''global.'']"

definition strip_bedrock_region :: "string \<Rightarrow> string" where
  "strip_bedrock_region m = (case find (HasPrefix m) bedrock_regions of None \<Rightarrow> m | Some p \<Rightarrow> drop (length p) m)"

text \<open>\<open>-v\d+(:\d+)?$\<close>: read from the end, digits and then \<open>-v\<close>, or digits, a colon, digits and \<open>-v\<close>.\<close>

definition digits_then :: "string \<Rightarrow> string \<Rightarrow> string option" where
  "digits_then mark s =
     (let rest = dropWhile is_digit s
      in if takeWhile is_digit s \<noteq> [] \<and> HasPrefix rest mark then Some (drop (length mark) rest) else None)"

definition strip_bedrock_version :: "string \<Rightarrow> string" where
  "strip_bedrock_version m =
     (case digits_then ''v-'' (rev m) of
        Some r \<Rightarrow> rev r
      | None \<Rightarrow>
          (case digits_then '':'' (rev m) of
             None \<Rightarrow> m
           | Some r \<Rightarrow> (case digits_then ''v-'' r of None \<Rightarrow> m | Some q \<Rightarrow> rev q)))"

text \<open>\<open>-(\d{8}|\d{4}-\d{2}-\d{2})$\<close>: the shape of the text's last characters, a digit per \<open>0\<close>.\<close>

definition has_shape :: "string \<Rightarrow> string \<Rightarrow> bool" where
  "has_shape shape s \<longleftrightarrow> list_all2 (\<lambda>c d. if d = CHR ''0'' then is_digit c else c = d) s shape"

definition ends_with_shape :: "string \<Rightarrow> string \<Rightarrow> bool" where
  "ends_with_shape shape m \<longleftrightarrow> has_shape shape (drop (length m - length shape) m)"

definition strip_release_date :: "string \<Rightarrow> string" where
  "strip_release_date m =
     (if ends_with_shape ''-00000000'' m then take (length m - 9) m
      else if ends_with_shape ''-0000-00-00'' m then take (length m - 11) m
      else m)"

definition CanonicalModel :: "string \<Rightarrow> string" where
  "CanonicalModel model =
     (let m = TrimSpace model
      in if m = [] then []
         else
           let m1 = TrimPrefix (strip_bedrock_region m) ''anthropic.'';
               m2 = (case Index m1 ''@'' of Some i \<Rightarrow> if i > 0 then take i m1 else m1 | None \<Rightarrow> m1);
               m3 = (case LastIndex m2 ''/'' of Some i \<Rightarrow> if i < length m2 - 1 then drop (i + 1) m2 else m2 | None \<Rightarrow> m2);
               m4 = strip_release_date (strip_bedrock_version m3)
           in if m4 = [] then model else m4)"

definition CanonicalSource :: "string \<Rightarrow> string" where
  "CanonicalSource source = (if source = ''claude-code'' then ''claude'' else source)"

section \<open>A model and its routing variants\<close>

text \<open>A bare model name: nothing in it is routing or a release date.\<close>

definition bare_model :: "string \<Rightarrow> bool" where
  "bare_model b \<longleftrightarrow> b \<noteq> [] \<and> list_all printable b \<and> strip_bedrock_region b = b \<and> \<not> HasPrefix b ''anthropic.'' \<and>
     CHR ''@'' \<notin> set b \<and> CHR ''/'' \<notin> set b \<and> strip_bedrock_version b = b \<and> strip_release_date b = b"

lemma Index_char: "CHR ''@'' \<notin> set s \<Longrightarrow> Index s ''@'' = None"
  by (induction s) (auto simp: HasPrefix_def)

lemma LastIndex_char: "CHR ''/'' \<notin> set s \<Longrightarrow> LastIndex s ''/'' = None"
  by (induction s) (auto simp: HasPrefix_def)

definition date_suffix :: "string \<Rightarrow> bool" where
  "date_suffix d \<longleftrightarrow> d = [] \<or> has_shape ''-00000000'' d \<or> has_shape ''-0000-00-00'' d"

definition version_suffix :: "string \<Rightarrow> bool" where
  "version_suffix v \<longleftrightarrow> v = [] \<or>
     (\<exists>n. n \<noteq> [] \<and> list_all is_digit n \<and>
        (v = ''-v'' @ n \<or> (\<exists>k. k \<noteq> [] \<and> list_all is_digit k \<and> v = ''-v'' @ n @ '':'' @ k)))"

lemma TrimSpace_printable: "s \<noteq> [] \<Longrightarrow> list_all printable s \<Longrightarrow> TrimSpace s = s"
  using TrimSpace_around [of "[]" "[]" s] by (auto simp: list_all_iff)

lemma digit_printable: "is_digit c \<Longrightarrow> printable c \<and> c \<noteq> CHR ''@'' \<and> c \<noteq> CHR ''/''"
  by (auto simp: is_digit_def printable_def)

lemma has_shape_length: "has_shape shape s \<Longrightarrow> length s = length shape"
  by (auto simp: has_shape_def dest: list_all2_lengthD)

lemma shape_chars: "has_shape shape s \<Longrightarrow> list_all (\<lambda>c. c = CHR ''-'' \<or> c = CHR ''0'') shape \<Longrightarrow> list_all (\<lambda>c. is_digit c \<or> c = CHR ''-'') s"
  unfolding has_shape_def by (induction rule: list_all2_induct) (auto split: if_splits)

lemma suffix_chars:
  assumes "date_suffix d" "version_suffix v"
  shows "list_all printable (d @ v)" "CHR ''@'' \<notin> set (d @ v)" "CHR ''/'' \<notin> set (d @ v)" "d @ v \<noteq> [] \<Longrightarrow> hd (d @ v) = CHR ''-''"
proof -
  have "list_all (\<lambda>c. is_digit c \<or> c = CHR ''-'') d"
    using assms(1) shape_chars by (auto simp: date_suffix_def)
  moreover have "list_all (\<lambda>c. is_digit c \<or> c = CHR ''-'' \<or> c = CHR ''v'' \<or> c = CHR '':'') v"
    using assms(2) by (auto simp: version_suffix_def list_all_iff)
  ultimately have all: "\<forall>c\<in>set (d @ v). is_digit c \<or> c = CHR ''-'' \<or> c = CHR ''v'' \<or> c = CHR '':''"
    by (auto simp: list_all_iff)
  have marks: "printable CHR ''-''" "printable CHR ''v''" "printable CHR '':''" by (simp_all add: printable_def)
  show "list_all printable (d @ v)" unfolding list_all_iff using all digit_printable marks by blast
  show "CHR ''@'' \<notin> set (d @ v)"
  proof
    assume "CHR ''@'' \<in> set (d @ v)"
    with all have "is_digit CHR ''@''" by auto
    then show False using digit_printable by blast
  qed
  show "CHR ''/'' \<notin> set (d @ v)"
  proof
    assume "CHR ''/'' \<in> set (d @ v)"
    with all have "is_digit CHR ''/''" by auto
    then show False using digit_printable by blast
  qed
  have "d = [] \<or> hd d = CHR ''-''" using assms(1) by (auto simp: date_suffix_def has_shape_def list_all2_Cons2)
  moreover have "v = [] \<or> hd v = CHR ''-''" using assms(2) by (auto simp: version_suffix_def)
  ultimately show "d @ v \<noteq> [] \<Longrightarrow> hd (d @ v) = CHR ''-''" by (cases d) auto
qed

lemma HasPrefix_self: "HasPrefix (p @ s) p"
  by (simp add: HasPrefix_def)

lemma HasPrefix_suffix:
  assumes "HasPrefix (b @ s) p" "\<not> HasPrefix b p" "CHR ''-'' \<notin> set p" "s \<noteq> [] \<Longrightarrow> hd s = CHR ''-''"
  shows False
proof -
  have len: "length b < length p"
  proof (rule ccontr)
    assume "\<not> length b < length p"
    then have same: "take (length p) (b @ s) = take (length p) b" by simp
    show False using assms(1,2) unfolding HasPrefix_def same by blast
  qed
  have "s \<noteq> []" using assms(1,2) by auto
  then have "(b @ s) ! length b = CHR ''-''" using assms(4) by (simp add: nth_append hd_conv_nth)
  moreover have "p ! length b = (b @ s) ! length b"
    using assms(1) len unfolding HasPrefix_def by (metis nth_take)
  ultimately show False using assms(3) len by (metis nth_mem)
qed

lemma digits_then_mark:
  assumes "n \<noteq> []" "list_all is_digit n" "mark \<noteq> []" "\<not> is_digit (hd mark)"
  shows "digits_then mark (n @ mark @ rest) = Some rest"
proof -
  have "takeWhile is_digit (n @ mark @ rest) = n" "dropWhile is_digit (n @ mark @ rest) = mark @ rest"
    using assms by (cases mark; simp add: list_all_iff)+
  then show ?thesis using assms by (simp add: digits_then_def HasPrefix_self)
qed

lemma digits_then_other:
  assumes "list_all is_digit n" "\<not> is_digit c" "mark \<noteq> []" "hd mark \<noteq> c"
  shows "digits_then mark (n @ c # rest) = None"
proof -
  have "dropWhile is_digit (n @ c # rest) = c # rest" using assms by (simp add: list_all_iff)
  then show ?thesis using assms by (cases mark) (auto simp: digits_then_def HasPrefix_def)
qed

lemma strip_version_suffix:
  assumes "version_suffix v" "v \<noteq> []"
  shows "strip_bedrock_version (x @ v) = x"
proof -
  obtain n where n: "n \<noteq> []" "list_all is_digit n"
    and v: "v = ''-v'' @ n \<or> (\<exists>k. k \<noteq> [] \<and> list_all is_digit k \<and> v = ''-v'' @ n @ '':'' @ k)"
    using assms by (auto simp: version_suffix_def)
  have rn: "rev n \<noteq> []" "list_all is_digit (rev n)" using n by (simp_all add: list_all_iff)
  from v show ?thesis
  proof
    assume "v = ''-v'' @ n"
    then have "rev (x @ v) = rev n @ ''v-'' @ rev x" by simp
    then show ?thesis
      using digits_then_mark [OF rn, of "''v-''" "rev x"] by (simp add: strip_bedrock_version_def is_digit_def)
  next
    assume "\<exists>k. k \<noteq> [] \<and> list_all is_digit k \<and> v = ''-v'' @ n @ '':'' @ k"
    then obtain k where k: "k \<noteq> []" "list_all is_digit k" "v = ''-v'' @ n @ '':'' @ k" by blast
    have rk: "rev k \<noteq> []" "list_all is_digit (rev k)" using k by (simp_all add: list_all_iff)
    have "rev (x @ v) = rev k @ '':'' @ rev n @ ''v-'' @ rev x" using k(3) by simp
    then show ?thesis
      using digits_then_mark [OF rk, of "'':''" "rev n @ ''v-'' @ rev x"] digits_then_mark [OF rn, of "''v-''" "rev x"]
        digits_then_other [OF rk(2), of "CHR '':''" "''v-''" "rev n @ ''v-'' @ rev x"]
      by (simp add: strip_bedrock_version_def is_digit_def)
  qed
qed

lemma shape_8: "has_shape ''-00000000'' d \<Longrightarrow> \<exists>n. d = CHR ''-'' # n \<and> length n = 8 \<and> list_all is_digit n"
  by (auto simp: has_shape_def list_all2_Cons2)

lemma shape_10:
  "has_shape ''-0000-00-00'' d \<Longrightarrow> \<exists>y m n. d = CHR ''-'' # y @ CHR ''-'' # m @ CHR ''-'' # n \<and> length y = 4 \<and> length m = 2 \<and> length n = 2 \<and>
     list_all is_digit y \<and> list_all is_digit n"
proof -
  assume "has_shape ''-0000-00-00'' d"
  then obtain a1 a2 a3 a4 b1 b2 c1 c2 where d: "d = [CHR ''-'', a1, a2, a3, a4, CHR ''-'', b1, b2, CHR ''-'', c1, c2]"
    and digits: "is_digit a1" "is_digit a2" "is_digit a3" "is_digit a4" "is_digit c1" "is_digit c2"
    by (auto simp: has_shape_def list_all2_Cons2)
  show ?thesis
    by (rule exI [of _ "[a1, a2, a3, a4]"], rule exI [of _ "[b1, b2]"], rule exI [of _ "[c1, c2]"]) (simp add: d digits)
qed

lemma date_tail: "date_suffix d \<Longrightarrow> d \<noteq> [] \<Longrightarrow> \<exists>u n. d = u @ CHR ''-'' # n \<and> n \<noteq> [] \<and> list_all is_digit n"
proof -
  assume d: "date_suffix d" "d \<noteq> []"
  then consider "has_shape ''-00000000'' d" | "has_shape ''-0000-00-00'' d" by (auto simp: date_suffix_def)
  then show ?thesis
  proof cases
    case 1
    then obtain n where "d = [] @ CHR ''-'' # n" "length n = 8" "list_all is_digit n" using shape_8 by fastforce
    then show ?thesis by (intro exI [of _ "[]"] exI [of _ n]) auto
  next
    case 2
    then obtain y m n where "d = (CHR ''-'' # y @ CHR ''-'' # m) @ CHR ''-'' # n" "length n = 2" "list_all is_digit n"
      using shape_10 [OF 2] by auto
    then show ?thesis by (intro exI [of _ "CHR ''-'' # y @ CHR ''-'' # m"] exI [of _ n]) auto
  qed
qed

lemma strip_version_date:
  assumes "date_suffix d" "strip_bedrock_version b = b"
  shows "strip_bedrock_version (b @ d) = b @ d"
proof (cases "d = []")
  case False
  then obtain u n where d: "d = u @ CHR ''-'' # n" and n: "list_all is_digit n"
    using date_tail assms(1) by blast
  have rn: "list_all is_digit (rev n)" using n by (simp add: list_all_iff)
  have "rev (b @ d) = rev n @ CHR ''-'' # (rev u @ rev b)" by (simp add: d)
  then have "digits_then ''v-'' (rev (b @ d)) = None" "digits_then '':'' (rev (b @ d)) = None"
    using digits_then_other [OF rn, of "CHR ''-''"] by (simp_all add: is_digit_def)
  then show ?thesis by (simp add: strip_bedrock_version_def)
qed (simp add: assms(2))

lemma strip_date_suffix:
  assumes "date_suffix d" "strip_release_date b = b"
  shows "strip_release_date (b @ d) = b"
proof -
  consider "d = []" | "has_shape ''-00000000'' d" | "has_shape ''-0000-00-00'' d"
    using assms(1) by (auto simp: date_suffix_def)
  then show ?thesis
  proof cases
    case 3
    obtain y m n where d: "d = CHR ''-'' # y @ CHR ''-'' # m @ CHR ''-'' # n"
      and lens: "length y = 4" "length m = 2" "length n = 2" "list_all is_digit y"
      using shape_10 [OF 3] by blast
    obtain y1 y2 y' where y: "y = y1 # y2 # y'" "is_digit y2"
      using lens(1,4) by (cases y; cases "tl y") auto
    have "drop (length (b @ d) - length ''-00000000'') (b @ d) = y2 # y' @ CHR ''-'' # m @ CHR ''-'' # n"
      using lens by (simp add: d y)
    moreover have "\<not> has_shape ''-00000000'' (y2 # y' @ CHR ''-'' # m @ CHR ''-'' # n)"
      using y(2) by (auto simp: has_shape_def is_digit_def)
    ultimately have "\<not> ends_with_shape ''-00000000'' (b @ d)"
      by (simp only: ends_with_shape_def not_False_eq_True)
    moreover have "ends_with_shape ''-0000-00-00'' (b @ d)"
      using has_shape_length [OF 3] 3 by (simp add: ends_with_shape_def)
    ultimately show ?thesis using has_shape_length [OF 3] by (simp add: strip_release_date_def)
  next
    case 2
    then have "ends_with_shape ''-00000000'' (b @ d)"
      using has_shape_length [OF 2] by (simp add: ends_with_shape_def)
    then show ?thesis using has_shape_length [OF 2] by (simp add: strip_release_date_def)
  qed (simp add: assms(2))
qed

lemma no_dash_regions: "\<forall>p\<in>set bedrock_regions. CHR ''-'' \<notin> set p"
  by (simp add: bedrock_regions_def)

lemma strip_region_suffix:
  assumes "strip_bedrock_region b = b" "s \<noteq> [] \<Longrightarrow> hd s = CHR ''-''"
  shows "strip_bedrock_region (b @ s) = b @ s"
proof -
  have "find (HasPrefix b) bedrock_regions = None"
  proof (rule ccontr)
    assume "find (HasPrefix b) bedrock_regions \<noteq> None"
    then obtain p where p: "find (HasPrefix b) bedrock_regions = Some p" by auto
    then have "HasPrefix b p" "p \<in> set bedrock_regions" by (auto simp: find_Some_iff)
    moreover have "drop (length p) b = b" using assms(1) p by (simp add: strip_bedrock_region_def)
    ultimately show False by (auto simp: HasPrefix_def bedrock_regions_def drop_eq_Nil2 dest: arg_cong [where f = length])
  qed
  then have "\<forall>p\<in>set bedrock_regions. \<not> HasPrefix b p" by (simp add: find_None_iff)
  then have "\<forall>p\<in>set bedrock_regions. \<not> HasPrefix (b @ s) p"
    using HasPrefix_suffix no_dash_regions assms(2) by blast
  then have "find (HasPrefix (b @ s)) bedrock_regions = None" by (simp add: find_None_iff)
  then show ?thesis by (simp add: strip_bedrock_region_def)
qed

lemma regions_apart:
  "\<forall>p\<in>set bedrock_regions. \<forall>q\<in>set bedrock_regions. take (length q) p = take (length p) q \<longrightarrow> p = q"
  by code_simp

lemma strip_region_added:
  assumes "region \<in> set bedrock_regions"
  shows "strip_bedrock_region (region @ m) = m"
proof -
  obtain p where p: "find (HasPrefix (region @ m)) bedrock_regions = Some p"
    using assms HasPrefix_self by (metis find_None_iff not_Some_eq)
  then have mem: "p \<in> set bedrock_regions" and pre: "take (length p) (region @ m) = p"
    by (auto simp: find_Some_iff HasPrefix_def)
  have "take (length region) (take (length p) (region @ m)) = take (length p) (take (length region) (region @ m))"
    by (simp only: take_take min.commute)
  then have "take (length region) p = take (length p) region" unfolding pre by simp
  then have "p = region" using regions_apart mem assms by blast
  then show ?thesis using p by (simp add: strip_bedrock_region_def)
qed

lemma regions_printable: "region = [] \<or> region \<in> set bedrock_regions \<Longrightarrow> list_all printable region"
  by (auto simp: bedrock_regions_def printable_def)

lemma strip_vendor:
  assumes "bare_model b" "s \<noteq> [] \<Longrightarrow> hd s = CHR ''-''" "vendor = [] \<or> vendor = ''anthropic.''"
  shows "TrimPrefix (vendor @ b @ s) ''anthropic.'' = b @ s"
proof (cases "vendor = []")
  case True
  have "\<not> HasPrefix (b @ s) ''anthropic.''"
    using HasPrefix_suffix [of b s "''anthropic.''"] assms(1,2) by (auto simp: bare_model_def)
  then show ?thesis using True by (simp add: TrimPrefix_def)
qed (use assms(3) in \<open>simp add: TrimPrefix_def HasPrefix_def\<close>)

lemma strip_routing:
  assumes "bare_model b" "s \<noteq> [] \<Longrightarrow> hd s = CHR ''-''"
    and "region = [] \<or> region \<in> set bedrock_regions" "vendor = [] \<or> vendor = ''anthropic.''"
  shows "TrimPrefix (strip_bedrock_region (region @ vendor @ b @ s)) ''anthropic.'' = b @ s"
proof -
  have "strip_bedrock_region (vendor @ b @ s) = vendor @ b @ s"
  proof (cases "vendor = []")
    case True
    then show ?thesis using strip_region_suffix [of b s] assms(1,2) by (simp add: bare_model_def)
  next
    case False
    then show ?thesis
      using assms(4) by (auto simp: strip_bedrock_region_def bedrock_regions_def HasPrefix_def)
  qed
  then have "strip_bedrock_region (region @ vendor @ b @ s) = vendor @ b @ s"
    using assms(3) strip_region_added by fastforce
  then show ?thesis using strip_vendor [OF assms(1,2,4)] by simp
qed

text \<open>
  A bare model name is a fixed point, and every spelling a router gives it folds back onto it: with or
  without a Bedrock region, with or without the vendor, with a pinned release date in either shape, with a
  Bedrock version, and with any of these together.
\<close>
theorem routing_variants_fold:
  assumes "bare_model b" "date_suffix d" "version_suffix v"
    and "region = [] \<or> region \<in> set bedrock_regions" "vendor = [] \<or> vendor = ''anthropic.''"
  shows "CanonicalModel (region @ vendor @ b @ d @ v) = b"
proof -
  note tail = suffix_chars [OF assms(2,3)]
  have b: "b \<noteq> []" "list_all printable b" "CHR ''@'' \<notin> set b" "CHR ''/'' \<notin> set b"
    "strip_bedrock_version b = b" "strip_release_date b = b" using assms(1) by (auto simp: bare_model_def)
  have "list_all printable vendor" using assms(5) by (auto simp: printable_def)
  then have trim: "TrimSpace (region @ vendor @ b @ d @ v) = region @ vendor @ b @ d @ v"
    using TrimSpace_printable regions_printable [OF assms(4)] b tail(1) by simp
  have routed: "TrimPrefix (strip_bedrock_region (region @ vendor @ b @ d @ v)) ''anthropic.'' = b @ d @ v"
    using strip_routing [OF assms(1) tail(4) assms(4,5)] by simp
  have marks: "Index (b @ d @ v) ''@'' = None" "LastIndex (b @ d @ v) ''/'' = None"
    using Index_char LastIndex_char b(3,4) tail(2,3) by simp_all
  have "strip_bedrock_version (b @ d @ v) = b @ d"
  proof (cases "v = []")
    case True
    then show ?thesis using strip_version_date [OF assms(2) b(5)] by simp
  next
    case False
    then show ?thesis using strip_version_suffix [OF assms(3), of "b @ d"] by simp
  qed
  then have "strip_release_date (strip_bedrock_version (b @ d @ v)) = b"
    using strip_date_suffix [OF assms(2) b(6)] by simp
  then show ?thesis
    using trim routed marks b(1) by (simp add: CanonicalModel_def Let_def)
qed

lemma routing_variants_fold_witness:
  "CanonicalModel ''eu.anthropic.claude-sonnet-4-5-20250929-v1:0'' = ''claude-sonnet-4-5''"
proof -
  have bare: "bare_model ''claude-sonnet-4-5''" by code_simp
  have date: "date_suffix ''-20250929''" by code_simp
  have "''1'' \<noteq> [] \<and> list_all is_digit ''1'' \<and> ''0'' \<noteq> [] \<and> list_all is_digit ''0'' \<and> ''-v1:0'' = ''-v'' @ ''1'' @ '':'' @ ''0''"
    by (simp add: is_digit_def)
  then have version: "version_suffix ''-v1:0''" unfolding version_suffix_def by blast
  show ?thesis
    using routing_variants_fold [OF bare date version, of "''eu.''" "''anthropic.''"] by (simp add: bedrock_regions_def)
qed

lemma canonical_samples:
  "CanonicalModel ''us.anthropic.claude-opus-4-8-20251001-v1:0'' = ''claude-opus-4-8''"
  "CanonicalModel ''claude-opus-4-8@20250514'' = ''claude-opus-4-8''"
  "CanonicalModel ''openai/gpt-4o-2024-08-06'' = ''gpt-4o''"
  "CanonicalModel ''claude-opus-4-5'' = ''claude-opus-4-5''"
  by code_simp+

end
