(* ===== verification/Usage_Queries.thy ===== *)
theory Usage_Queries
  imports Event_Store Canonical "HOL-Library.Product_Lexorder"
begin

text \<open>
  The views of a period: \<open>internal/store/query.go\<close>, \<open>window.go\<close>, \<open>models.go\<close>, \<open>devices.go\<close>, \<open>heatmap.go\<close> and
  \<open>reports.go\<close>. A period is \<open>[from, to)\<close> in milliseconds; the calendar day of an instant, SQLite's
  \<open>date(..., 'localtime')\<close>, is the parameter \<open>day\<close>. Sums are exact: SQLite refuses one outside 64 bits.
  Where the source leaves the order of equal rows to the database or to \<open>sort.Slice\<close>, they keep the order in
  which their groups appear.
\<close>

section \<open>Grouping\<close>

definition sql_group :: "('r \<Rightarrow> 'k) \<Rightarrow> 'r list \<Rightarrow> ('k \<times> 'r list) list" where
  "sql_group f rows = map (\<lambda>k. (k, filter (\<lambda>r. f r = k) rows)) (rev (remdups (rev (map f rows))))"

definition sql_max :: "'a \<Rightarrow> 'a list \<Rightarrow> 'a::linorder" where
  "sql_max z xs = (case xs of [] \<Rightarrow> z | x # ys \<Rightarrow> fold max ys x)"

definition sql_min :: "'a \<Rightarrow> 'a list \<Rightarrow> 'a::linorder" where
  "sql_min z xs = (case xs of [] \<Rightarrow> z | x # ys \<Rightarrow> fold min ys x)"

text \<open>\<open>LIMIT\<close>: a negative one is none.\<close>

definition sql_limit :: "int \<Rightarrow> 'r list \<Rightarrow> 'r list" where
  "sql_limit n rows = (if n < 0 then rows else take (nat n) rows)"

section \<open>Totals\<close>

record totals =
  tt_events :: int
  tt_input :: int
  tt_output :: int
  tt_cache_read :: int
  tt_cache_creation :: int
  tt_total :: int

definition zero_totals :: totals where
  "zero_totals = \<lparr>tt_events = 0, tt_input = 0, tt_output = 0, tt_cache_read = 0, tt_cache_creation = 0, tt_total = 0\<rparr>"

definition addTotals :: "totals \<Rightarrow> totals \<Rightarrow> totals" where
  "addTotals a b = \<lparr>tt_events = tt_events a + tt_events b, tt_input = tt_input a + tt_input b,
     tt_output = tt_output a + tt_output b, tt_cache_read = tt_cache_read a + tt_cache_read b,
     tt_cache_creation = tt_cache_creation a + tt_cache_creation b, tt_total = tt_total a + tt_total b\<rparr>"

definition usage_tokens :: "event_row \<Rightarrow> int" where
  "usage_tokens r = ev_input_tokens r + ev_output_tokens r + ev_cache_read_tokens r + ev_cache_creation_tokens r"

definition sums :: "event_row list \<Rightarrow> totals" where
  "sums rows = \<lparr>tt_events = int (length rows), tt_input = sum_list (map ev_input_tokens rows),
     tt_output = sum_list (map ev_output_tokens rows), tt_cache_read = sum_list (map ev_cache_read_tokens rows),
     tt_cache_creation = sum_list (map ev_cache_creation_tokens rows), tt_total = sum_list (map usage_tokens rows)\<rparr>"

definition in_period :: "int \<Rightarrow> int \<Rightarrow> event_row list \<Rightarrow> event_row list" where
  "in_period from1 to1 t = filter (\<lambda>r. from1 \<le> ev_ts r \<and> ev_ts r < to1) t"

definition Summary :: "event_row list \<Rightarrow> int \<Rightarrow> int \<Rightarrow> totals" where
  "Summary t from1 to1 = sums (in_period from1 to1 t)"

definition Daily :: "(int \<Rightarrow> string) \<Rightarrow> event_row list \<Rightarrow> int \<Rightarrow> int \<Rightarrow> (string \<times> totals) list" where
  "Daily day t from1 to1 = map (\<lambda>(d, rows). (d, sums rows)) (sort_key fst (sql_group (\<lambda>r. day (ev_ts r)) (in_period from1 to1 t)))"

record model_usage =
  mu_model :: string
  mu_provider :: string
  mu_totals :: totals
  mu_cache_1h :: int
  mu_cache_5m :: int
  mu_min_ts :: int

definition usage_row :: "string \<Rightarrow> string \<Rightarrow> event_row list \<Rightarrow> model_usage" where
  "usage_row m p rows = \<lparr>mu_model = m, mu_provider = p, mu_totals = sums rows,
     mu_cache_1h = sum_list (map ev_cache_1h_tokens rows), mu_cache_5m = sum_list (map ev_cache_5m_tokens rows),
     mu_min_ts = sql_min 0 (map ev_ts rows)\<rparr>"

definition ModelUsage :: "event_row list \<Rightarrow> int \<Rightarrow> int \<Rightarrow> model_usage list" where
  "ModelUsage t from1 to1 =
     map (\<lambda>((m, p), rows). usage_row m p rows) (sql_group (\<lambda>r. (ev_model r, ev_provider r)) (in_period from1 to1 t))"

text \<open>\<open>UsageByProvider\<close> adds the source to the key.\<close>

definition UsageByProvider :: "event_row list \<Rightarrow> int \<Rightarrow> int \<Rightarrow> (string \<times> model_usage) list" where
  "UsageByProvider t from1 to1 =
     map (\<lambda>((s, p, m), rows). (s, usage_row m p rows))
       (sql_group (\<lambda>r. (ev_source r, ev_provider r, ev_model r)) (in_period from1 to1 t))"

definition IsSubscription :: "string \<Rightarrow> string \<Rightarrow> bool" where
  "IsSubscription source provider \<longleftrightarrow> BillingChannel provider = ChannelSubscription"

section \<open>Channels\<close>

text \<open>The loop over the providers; \<open>None\<close> is the nil dereference of a channel that is not in the map.\<close>

fun channel_add :: "(string \<times> totals) list \<Rightarrow> string \<Rightarrow> totals \<Rightarrow> (string \<times> totals) list option" where
  "channel_add [] ch t = None"
| "channel_add ((c, u) # m) ch t =
     (if c = ch then Some ((c, addTotals u t) # m) else map_option ((#) (c, u)) (channel_add m ch t))"

fun channel_loop :: "(string \<times> totals) list \<Rightarrow> (string \<times> event_row list) list \<Rightarrow> (string \<times> totals) list option" where
  "channel_loop m [] = Some m"
| "channel_loop m ((provider, rows) # gs) =
     (case channel_add m (BillingChannel provider) (sums rows) of None \<Rightarrow> None | Some m1 \<Rightarrow> channel_loop m1 gs)"

definition ChannelBreakdown :: "event_row list \<Rightarrow> int \<Rightarrow> int \<Rightarrow> (string \<times> totals) list option" where
  "ChannelBreakdown t from1 to1 =
     channel_loop (map (\<lambda>ch. (ch, zero_totals)) Channels) (sql_group ev_provider (in_period from1 to1 t))"

section \<open>Breakdowns\<close>

record breakdown_row =
  bd_key :: string
  bd_last_seen :: int
  bd_totals :: totals

definition breakdownDims :: "(string \<times> (event_row \<Rightarrow> string)) list" where
  "breakdownDims = [(''device'', ev_device), (''model'', ev_model), (''source'', ev_source), (''provider'', ev_provider),
     (''repo'', ev_repo), (''branch'', ev_git_branch)]"

definition merge_rows :: "breakdown_row \<Rightarrow> breakdown_row \<Rightarrow> breakdown_row" where
  "merge_rows acc r = acc\<lparr>bd_totals := addTotals (bd_totals acc) (bd_totals r),
     bd_last_seen := (if bd_last_seen r > bd_last_seen acc then bd_last_seen r else bd_last_seen acc)\<rparr>"

text \<open>\<open>byKey\<close> and \<open>order\<close> together: the merged rows in the order their keys appear.\<close>

fun fold_row :: "breakdown_row list \<Rightarrow> string \<Rightarrow> breakdown_row \<Rightarrow> breakdown_row list" where
  "fold_row [] k r = [r\<lparr>bd_key := k\<rparr>]"
| "fold_row (acc # accs) k r = (if bd_key acc = k then merge_rows acc r # accs else acc # fold_row accs k r)"

definition foldModelRows :: "breakdown_row list \<Rightarrow> int \<Rightarrow> breakdown_row list" where
  "foldModelRows rows limit =
     (let folded = sort_key (\<lambda>r. - tt_total (bd_totals r)) (foldl (\<lambda>accs r. fold_row accs (CanonicalModel (bd_key r)) r) [] rows)
      in if limit > 0 \<and> int (length folded) > limit then take (nat limit) folded else folded)"

definition Breakdown :: "event_row list \<Rightarrow> string \<Rightarrow> int \<Rightarrow> int \<Rightarrow> int \<Rightarrow> string + breakdown_row list" where
  "Breakdown t dim from1 to1 limit0 =
     (case map_of breakdownDims dim of
        None \<Rightarrow> Inl dim
      | Some col \<Rightarrow>
          let limit = (if limit0 \<le> 0 then 50 else limit0);
              sqlLimit = (if dim = ''model'' then -1 else limit);
              rows = sql_limit sqlLimit (sort_key (\<lambda>r. - tt_total (bd_totals r))
                (map (\<lambda>(k, rs). \<lparr>bd_key = k, bd_last_seen = sql_max 0 (map ev_ts rs), bd_totals = sums rs\<rparr>)
                  (sql_group col (in_period from1 to1 t))))
          in Inr (if dim = ''model'' then foldModelRows rows limit else rows))"

section \<open>The models' daily chart\<close>

definition defaultModelTopN :: int where "defaultModelTopN = 6"

text \<open>The name of the row that holds every other model, in UTF-8.\<close>

definition ModelOther :: string where
  "ModelOther = [CHR 0xE5, CHR 0x85, CHR 0xB6, CHR 0xE4, CHR 0xBB, CHR 0x96]"

definition topModels :: "(string \<times> int) list \<Rightarrow> int \<Rightarrow> string list" where
  "topModels tokens n =
     (let names = map fst (sort_key (\<lambda>(m, t). (- t, m)) tokens)
      in if int (length names) > n then take (nat n) names else names)"

record model_day =
  md_bucket :: string
  md_model :: string
  md_totals :: totals

definition model_days :: "(int \<Rightarrow> string) \<Rightarrow> event_row list \<Rightarrow> model_day list" where
  "model_days day rows =
     map (\<lambda>((d, m), rs). \<lparr>md_bucket = d, md_model = CanonicalModel m, md_totals = sums rs\<rparr>)
       (sql_group (\<lambda>r. (day (ev_ts r), ev_model r)) rows)"

definition range_total :: "model_day list \<Rightarrow> (string \<times> int) list" where
  "range_total raw = map (\<lambda>(m, rs). (m, sum_list (map (\<lambda>r. tt_total (md_totals r)) rs))) (sql_group md_model raw)"

definition chart_name :: "string list \<Rightarrow> model_day \<Rightarrow> string" where
  "chart_name keep r = (if md_model r \<in> set keep then md_model r else ModelOther)"

definition chart_order :: "(string \<times> int) list \<Rightarrow> model_day \<Rightarrow> string \<times> bool \<times> int \<times> string" where
  "chart_order rangeTotal r =
     (md_bucket r, md_model r = ModelOther, - (case map_of rangeTotal (md_model r) of None \<Rightarrow> 0 | Some v \<Rightarrow> v), md_model r)"

definition ModelDaily :: "(int \<Rightarrow> string) \<Rightarrow> event_row list \<Rightarrow> int \<Rightarrow> int \<Rightarrow> int \<Rightarrow> model_day list" where
  "ModelDaily day t from1 to1 topN0 =
     (let topN = (if topN0 \<le> 0 then defaultModelTopN else topN0);
          raw = model_days day (in_period from1 to1 t);
          rangeTotal = range_total raw;
          keep = topModels rangeTotal topN
      in sort_key (chart_order rangeTotal)
        (map (\<lambda>((d, m), rs). \<lparr>md_bucket = d, md_model = m, md_totals = foldl addTotals zero_totals (map md_totals rs)\<rparr>)
          (sql_group (\<lambda>r. (md_bucket r, chart_name keep r)) raw)))"

end
