(* ===== verification/Usage_Views.thy ===== *)
theory Usage_Views
  imports Usage_Queries
begin

text \<open>
  The device, session and telemetry views: \<open>internal/store/devices.go\<close>, \<open>heatmap.go\<close>, \<open>models.go\<close>,
  \<open>reports.go\<close> and the usage half of \<open>telemetry.go\<close>. The \<open>float64\<close> ratios of a row (share, change
  percentage) are quotients of the integers modelled here and are left out. The telemetry queries group by the
  stored name and the program then adds the groups of one display name; the two steps are one grouping here.
\<close>

section \<open>Calendar views\<close>

definition HeatmapDays :: "(int \<Rightarrow> string) \<Rightarrow> event_row list \<Rightarrow> int \<Rightarrow> int \<Rightarrow> (string \<times> int \<times> int) list" where
  "HeatmapDays day t from1 to1 =
     map (\<lambda>(d, rows). (d, sum_list (map usage_tokens rows), int (length rows)))
       (sort_key fst (sql_group (\<lambda>r. day (ev_ts r)) (in_period from1 to1 t)))"

definition DeviceDaily :: "(int \<Rightarrow> string) \<Rightarrow> event_row list \<Rightarrow> int \<Rightarrow> int \<Rightarrow> (string \<times> string \<times> int \<times> int) list" where
  "DeviceDaily day t from1 to1 =
     map (\<lambda>((d, dev), rows). (d, dev, sum_list (map usage_tokens rows), int (length rows)))
       (sort_key fst (sql_group (\<lambda>r. (day (ev_ts r), ev_device r)) (in_period from1 to1 t)))"

text \<open>The names of a period's buckets; \<open>week\<close> and \<open>month\<close> are \<open>strftime\<close> on the local time.\<close>

definition periodExpr :: "(int \<Rightarrow> string) \<Rightarrow> (int \<Rightarrow> string) \<Rightarrow> (int \<Rightarrow> string) \<Rightarrow> string \<Rightarrow> string + (int \<Rightarrow> string)" where
  "periodExpr day week month granularity =
     (if granularity = ''daily'' then Inr day
      else if granularity = ''weekly'' then Inr week
      else if granularity = ''monthly'' then Inr month
      else Inl granularity)"

definition PeriodRows :: "(int \<Rightarrow> string) \<Rightarrow> (int \<Rightarrow> string) \<Rightarrow> (int \<Rightarrow> string) \<Rightarrow> string \<Rightarrow> event_row list \<Rightarrow> int \<Rightarrow> int \<Rightarrow>
    string + (string \<times> totals) list" where
  "PeriodRows day week month granularity t from1 to1 =
     (if granularity = ''daily'' then Inr (Daily day t from1 to1)
      else case periodExpr day week month granularity of
        Inl e \<Rightarrow> Inl e
      | Inr bucket \<Rightarrow> Inr (map (\<lambda>(b, rows). (b, sums rows))
          (sort_key fst (sql_group (\<lambda>r. bucket (ev_ts r)) (in_period from1 to1 t)))))"

definition PeriodModelUsage :: "(int \<Rightarrow> string) \<Rightarrow> (int \<Rightarrow> string) \<Rightarrow> (int \<Rightarrow> string) \<Rightarrow> string \<Rightarrow> event_row list \<Rightarrow> int \<Rightarrow> int \<Rightarrow>
    string + (string \<times> model_usage) list" where
  "PeriodModelUsage day week month granularity t from1 to1 =
     (case periodExpr day week month granularity of
        Inl e \<Rightarrow> Inl e
      | Inr bucket \<Rightarrow> Inr (map (\<lambda>((b, m, p), rows). (b, usage_row m p rows))
          (sql_group (\<lambda>r. (bucket (ev_ts r), ev_model r, ev_provider r)) (in_period from1 to1 t))))"

section \<open>Models by source\<close>

record model_source =
  ms_model :: string
  ms_source :: string
  ms_usage :: model_usage

definition tokens_where :: "(model_source \<Rightarrow> bool) \<Rightarrow> model_source list \<Rightarrow> int" where
  "tokens_where P rows = sum_list (map (\<lambda>r. tt_total (mu_totals (ms_usage r))) (filter P rows))"

definition ModelBySource :: "event_row list \<Rightarrow> int \<Rightarrow> int \<Rightarrow> model_source list" where
  "ModelBySource t from1 to1 =
     (let out = map (\<lambda>((m, s), rows). \<lparr>ms_model = m, ms_source = s, ms_usage = usage_row m s rows\<rparr>)
            (sql_group (\<lambda>r. (ev_model r, ev_source r)) (in_period from1 to1 t));
          folded = (\<lambda>r. CanonicalModel (ms_model r));
          byModel = (\<lambda>f. tokens_where (\<lambda>r. folded r = f) out);
          bySlice = (\<lambda>f s. tokens_where (\<lambda>r. folded r = f \<and> ms_source r = s) out)
      in sort_key (\<lambda>r. (- byModel (folded r), folded r, - bySlice (folded r) (ms_source r), ms_source r, ms_model r)) out)"

section \<open>Devices\<close>

definition deviceModelUsage :: "event_row list \<Rightarrow> int \<Rightarrow> int \<Rightarrow> string \<Rightarrow> model_usage list" where
  "deviceModelUsage t from1 to1 dev =
     sort_key (\<lambda>m. - tt_total (mu_totals m))
       (map (\<lambda>((d, m), rows). usage_row m (sql_max [] (map ev_provider rows)) rows)
         (filter (\<lambda>((d, m), rows). d = dev) (sql_group (\<lambda>r. (ev_device r, ev_model r)) (in_period from1 to1 t))))"

text \<open>The loop of \<open>topFoldedModel\<close> over its map, in whatever order.\<close>

fun top_loop :: "string \<times> int \<Rightarrow> (string \<times> int) list \<Rightarrow> string \<times> int" where
  "top_loop acc [] = acc"
| "top_loop (name, best) ((m, t) # ms) = top_loop (if t > best \<or> (t = best \<and> m < name) then (m, t) else (name, best)) ms"

definition folded_tokens :: "model_usage list \<Rightarrow> (string \<times> int) list" where
  "folded_tokens rows =
     map (\<lambda>(m, rs). (m, sum_list (map (\<lambda>r. tt_total (mu_totals r)) rs))) (sql_group (\<lambda>r. CanonicalModel (mu_model r)) rows)"

definition topFoldedModel :: "model_usage list \<Rightarrow> string \<times> int" where
  "topFoldedModel rows = top_loop ([], 0) (folded_tokens rows)"

record device_summary =
  ds_device :: string
  ds_totals :: totals
  ds_last_ts :: int
  ds_repos :: nat
  ds_top_model :: string
  ds_top_tokens :: int
  ds_models :: "model_usage list"

definition DeviceSummary :: "event_row list \<Rightarrow> int \<Rightarrow> int \<Rightarrow> device_summary list" where
  "DeviceSummary t from1 to1 =
     sort_key (\<lambda>r. (- tt_total (ds_totals r), ds_device r))
       (map (\<lambda>(dev, rows).
          let models = deviceModelUsage t from1 to1 dev; (name, best) = topFoldedModel models
          in \<lparr>ds_device = dev, ds_totals = sums rows, ds_last_ts = sql_max 0 (map ev_ts rows),
              ds_repos = length (remdups (filter (\<lambda>x. x \<noteq> []) (map ev_repo rows))),
              ds_top_model = name, ds_top_tokens = best, ds_models = models\<rparr>)
         (sql_group ev_device (in_period from1 to1 t)))"

section \<open>Sessions\<close>

record session_view =
  sv_session :: string
  sv_device :: string
  sv_source :: string
  sv_repo :: string
  sv_model :: string
  sv_first :: int
  sv_last :: int
  sv_totals :: totals

definition SessionRows :: "event_row list \<Rightarrow> int \<Rightarrow> int \<Rightarrow> int \<Rightarrow> session_view list" where
  "SessionRows t from1 to1 limit0 =
     sql_limit (if limit0 \<le> 0 then 200 else limit0)
       (sort_key (\<lambda>r. - sv_last r)
         (map (\<lambda>((s, d), rows). \<lparr>sv_session = s, sv_device = d, sv_source = sql_max [] (map ev_source rows),
             sv_repo = sql_max [] (map ev_repo rows), sv_model = CanonicalModel (sql_max [] (map ev_model rows)),
             sv_first = sql_min 0 (map ev_ts rows), sv_last = sql_max 0 (map ev_ts rows), sv_totals = sums rows\<rparr>)
           (sql_group (\<lambda>r. (ev_session_id r, ev_device r)) (in_period from1 to1 t))))"

text \<open>\<open>WITH shown AS ...\<close>: the sessions that \<open>SessionRows\<close> selects, and the models of each.\<close>

definition shown_sessions :: "event_row list \<Rightarrow> int \<Rightarrow> int \<Rightarrow> int \<Rightarrow> (string \<times> string) list" where
  "shown_sessions t from1 to1 limit =
     sql_limit limit (map fst (sort_key (\<lambda>(k, rows). - sql_max 0 (map ev_ts rows))
       (sql_group (\<lambda>r. (ev_session_id r, ev_device r)) (in_period from1 to1 t))))"

definition SessionModelUsage :: "event_row list \<Rightarrow> int \<Rightarrow> int \<Rightarrow> int \<Rightarrow> ((string \<times> string) \<times> model_usage) list" where
  "SessionModelUsage t from1 to1 limit0 =
     (let shown = shown_sessions t from1 to1 (if limit0 \<le> 0 then 200 else limit0)
      in map (\<lambda>((s, d, m, p), rows). ((s, d), usage_row m p rows))
        (sql_group (\<lambda>r. (ev_session_id r, ev_device r, ev_model r, ev_provider r))
          (filter (\<lambda>r. (ev_session_id r, ev_device r) \<in> set shown) (in_period from1 to1 t))))"

section \<open>Telemetry\<close>

definition speedSourceKey :: "string \<Rightarrow> string" where
  "speedSourceKey source = (if source \<in> {''claude-code'', ''codex'', ''dsh''} then source else ''api'')"

definition model_label :: "string \<Rightarrow> string" where
  "model_label m = (if CanonicalModel m = [] then ''unknown'' else CanonicalModel m)"

definition upto_now :: "int \<Rightarrow> int \<Rightarrow> event_row list \<Rightarrow> event_row list" where
  "upto_now lo hi t = filter (\<lambda>r. lo \<le> ev_ts r \<and> ev_ts r \<le> hi) t"

text \<open>The models of a set of rows, positive ones only, the largest first.\<close>

definition model_shares :: "event_row list \<Rightarrow> (string \<times> int) list" where
  "model_shares rows =
     sort_key (\<lambda>(m, n). (- n, m)) (filter (\<lambda>(m, n). n > 0)
       (map (\<lambda>(m, rs). (m, sum_list (map usage_tokens rs))) (sql_group (\<lambda>r. model_label (ev_model r)) rows)))"

record telemetry_source =
  ts_source :: string
  ts_tokens :: int
  ts_previous :: int
  ts_models :: "(string \<times> int) list"

definition telemetryDailySources :: "event_row list \<Rightarrow> int \<Rightarrow> int \<Rightarrow> int \<Rightarrow> int \<Rightarrow> telemetry_source list" where
  "telemetryDailySources t todayStart now previousStart previousEnd =
     (let rows = upto_now previousStart now t;
          acc = (\<lambda>s. filter (\<lambda>r. speedSourceKey (ev_source r) = s) rows);
          cur = (\<lambda>s. filter (\<lambda>r. ev_ts r \<ge> todayStart) (acc s));
          current = (\<lambda>s. sum_list (map usage_tokens (cur s)));
          previous = (\<lambda>s. sum_list (map usage_tokens (filter (\<lambda>r. ev_ts r \<le> previousEnd \<and> ev_ts r < todayStart) (acc s))));
          extra = sort (filter (\<lambda>s. s \<notin> {''claude-code'', ''codex'', ''dsh''} \<and> (current s > 0 \<or> previous s > 0))
            (remdups (map (\<lambda>r. speedSourceKey (ev_source r)) rows)))
      in map (\<lambda>s. \<lparr>ts_source = s, ts_tokens = current s, ts_previous = previous s, ts_models = model_shares (cur s)\<rparr>)
        ([''claude-code'', ''codex'', ''dsh''] @ extra))"

record telemetry_usage =
  tu_total :: int
  tu_models :: "(string \<times> int) list"
  tu_sources :: "telemetry_source list"
  tu_rolling_total :: int
  tu_rolling :: "(string \<times> int \<times> int) list"

definition hours5 :: int where "hours5 = 5 * 3600000"

text \<open>\<open>previousStart\<close> and \<open>previousEnd\<close> are the same instants one calendar day earlier.\<close>

definition TelemetryUsage :: "event_row list \<Rightarrow> int \<Rightarrow> int \<Rightarrow> int \<Rightarrow> int \<Rightarrow> telemetry_usage" where
  "TelemetryUsage t todayStart now previousStart previousEnd =
     (let today = upto_now todayStart now t;
          start5 = now - hours5; prev5 = now - 2 * hours5;
          window = upto_now prev5 now t;
          bySource = (\<lambda>s. filter (\<lambda>r. speedSourceKey (ev_source r) = s) window);
          extra = sort (filter (\<lambda>s. s \<notin> {''claude-code'', ''codex''}) (remdups (map (\<lambda>r. speedSourceKey (ev_source r)) window)))
      in \<lparr>tu_total = sum_list (map usage_tokens today), tu_models = model_shares today,
          tu_sources = telemetryDailySources t todayStart now previousStart previousEnd,
          tu_rolling_total = sum_list (map usage_tokens (upto_now start5 now t)),
          tu_rolling = map (\<lambda>s. (s, sum_list (map usage_tokens (filter (\<lambda>r. ev_ts r \<ge> start5) (bySource s))),
              sum_list (map usage_tokens (filter (\<lambda>r. ev_ts r \<ge> prev5 \<and> ev_ts r < start5) (bySource s)))))
            ([''claude-code'', ''codex''] @ extra)\<rparr>)"

end
