(* ===== verification/Usage_Properties.thy ===== *)
theory Usage_Properties
  imports Usage_Views "HOL-Library.Multiset"
begin

text \<open>
  The views of a period add up to its summary: by channel, by day, by model, by any dimension.
\<close>

section \<open>Totals add up\<close>

interpretation tt: comm_monoid addTotals zero_totals
  by unfold_locales (simp_all add: addTotals_def zero_totals_def)

lemmas totals_ac = tt.assoc tt.commute tt.left_commute

definition grand_total :: "totals list \<Rightarrow> totals" where
  "grand_total ts = foldl addTotals zero_totals ts"

lemma grand_total_from: "foldl addTotals z ts = addTotals z (grand_total ts)"
proof (induction ts arbitrary: z)
  case (Cons t ts)
  show ?case using Cons [of "addTotals z t"] Cons [of t] by (simp add: grand_total_def tt.assoc)
qed (simp add: grand_total_def)

lemma grand_total_simps [simp]:
  "grand_total [] = zero_totals" "grand_total (t # ts) = addTotals t (grand_total ts)"
  using grand_total_from [of t ts] by (simp_all add: grand_total_def)

lemma grand_total_append: "grand_total (xs @ ys) = addTotals (grand_total xs) (grand_total ys)"
  by (induction xs) (simp_all add: tt.assoc)

lemma grand_total_mset: "mset xs = mset ys \<Longrightarrow> grand_total xs = grand_total ys"
proof (induction xs arbitrary: ys)
  case (Cons x xs)
  then have "x \<in> set ys" by (metis list.set_intros(1) mset_eq_setD)
  then obtain us vs where ys: "ys = us @ x # vs" by (meson split_list)
  then have "grand_total xs = grand_total (us @ vs)" using Cons by simp
  then show ?case by (simp add: ys grand_total_append tt.left_commute)
qed simp

lemma grand_total_sort: "grand_total (map f (sort_key g xs)) = grand_total (map f xs)"
  by (rule grand_total_mset) simp

definition row_totals :: "event_row \<Rightarrow> totals" where
  "row_totals r = \<lparr>tt_events = 1, tt_input = ev_input_tokens r, tt_output = ev_output_tokens r,
     tt_cache_read = ev_cache_read_tokens r, tt_cache_creation = ev_cache_creation_tokens r, tt_total = usage_tokens r\<rparr>"

lemma sums_grand: "sums rows = grand_total (map row_totals rows)"
proof (induction rows)
  case (Cons r rows)
  have "sums (r # rows) = addTotals (row_totals r) (sums rows)" by (simp add: sums_def row_totals_def addTotals_def)
  then show ?case using Cons by simp
qed (simp add: sums_def zero_totals_def)

section \<open>Groups partition the rows\<close>

lemma mset_groups:
  "distinct ks \<Longrightarrow> f ` set rows \<subseteq> set ks \<Longrightarrow> mset (concat (map (\<lambda>k. filter (\<lambda>r. f r = k) rows) ks)) = mset rows"
proof (induction rows)
  case Nil
  have "concat (map (\<lambda>k. []) ks) = []" for ks :: "'b list" by (induction ks) auto
  then show ?case by simp
next
  case (Cons r rows)
  have split: "distinct ks \<Longrightarrow> mset (concat (map (\<lambda>k. filter (\<lambda>r. f r = k) (r # rows)) ks)) =
      (if f r \<in> set ks then {#r#} else {#}) + mset (concat (map (\<lambda>k. filter (\<lambda>r. f r = k) rows) ks))" for ks
    by (induction ks) auto
  show ?case using Cons split [of ks] by simp
qed

lemma sql_group_keys [simp]: "map fst (sql_group f rows) = rev (remdups (rev (map f rows)))"
  by (simp add: sql_group_def comp_def)

lemma sql_group_distinct: "distinct (map fst (sql_group f rows))"
  by simp

lemma sql_group_mset: "mset (concat (map snd (sql_group f rows))) = mset rows"
  unfolding sql_group_def map_map comp_def snd_conv by (rule mset_groups) auto

lemma sql_group_filter: "(k, rs) \<in> set (sql_group f rows) \<Longrightarrow> rs = filter (\<lambda>r. f r = k) rows"
  by (auto simp: sql_group_def)

lemma grand_concat: "grand_total (map (\<lambda>rs. grand_total (map h rs)) gs) = grand_total (map h (concat gs))"
  by (induction gs) (simp_all add: grand_total_append)

lemma sql_group_where:
  "filter (\<lambda>g. P (fst g)) (sql_group f rows) = sql_group f (filter (\<lambda>r. P (f r)) rows)"
proof -
  have "filter P (rev (remdups (rev (map f rows)))) = rev (remdups (rev (map f (filter (\<lambda>r. P (f r)) rows))))"
    by (simp add: rev_filter [symmetric] remdups_filter [symmetric] filter_map comp_def)
  then have "sql_group f (filter (\<lambda>r. P (f r)) rows) =
      map (\<lambda>k. (k, filter (\<lambda>r. P (f r) \<and> f r = k) rows)) (filter P (rev (remdups (rev (map f rows)))))"
    by (simp add: sql_group_def)
  also have "\<dots> = map (\<lambda>k. (k, filter (\<lambda>r. f r = k) rows)) (filter P (rev (remdups (rev (map f rows)))))"
    by (rule map_cong) (auto intro!: filter_cong)
  also have "\<dots> = filter (\<lambda>g. P (fst g)) (sql_group f rows)" by (simp add: sql_group_def filter_map comp_def)
  finally show ?thesis ..
qed

lemma group_total: "grand_total (map (\<lambda>g. grand_total (map h (snd g))) (sql_group f rows)) = grand_total (map h rows)"
proof -
  have "grand_total (map (\<lambda>g. grand_total (map h (snd g))) (sql_group f rows)) =
      grand_total (map h (concat (map snd (sql_group f rows))))"
    unfolding grand_concat [symmetric] by (simp add: comp_def)
  also have "\<dots> = grand_total (map h rows)" by (rule grand_total_mset) (simp add: sql_group_mset)
  finally show ?thesis .
qed

lemma group_total_where:
  "grand_total (map (\<lambda>g. grand_total (map h (snd g))) (filter (\<lambda>g. P (fst g)) (sql_group f rows))) =
     grand_total (map h (filter (\<lambda>r. P (f r)) rows))"
  unfolding sql_group_where by (rule group_total)

lemma group_sums: "grand_total (map (\<lambda>g. sums (snd g)) (sql_group f rows)) = sums rows"
  using group_total [of row_totals f rows] by (simp add: sums_grand)

section \<open>Channels\<close>

lemma channel_add_ok:
  "ch \<in> set (map fst m) \<Longrightarrow> \<exists>m'. channel_add m ch t = Some m' \<and> map fst m' = map fst m \<and>
     grand_total (map snd m') = addTotals t (grand_total (map snd m))"
proof (induction m ch t rule: channel_add.induct)
  case (2 c u m ch t)
  show ?case
  proof (cases "c = ch")
    case False
    then obtain m' where "channel_add m ch t = Some m'" "map fst m' = map fst m"
      "grand_total (map snd m') = addTotals t (grand_total (map snd m))" using 2 by auto
    then show ?thesis using False by (simp add: tt.left_commute)
  qed (simp add: totals_ac)
qed simp

lemma channel_loop_ok:
  "set Channels \<subseteq> set (map fst m) \<Longrightarrow> \<exists>m'. channel_loop m gs = Some m' \<and> map fst m' = map fst m \<and>
     grand_total (map snd m') = addTotals (grand_total (map snd m)) (grand_total (map (\<lambda>g. sums (snd g)) gs))"
proof (induction m gs rule: channel_loop.induct)
  case (2 m provider rows gs)
  have "BillingChannel provider \<in> set (map fst m)" using 2(2) BillingChannel_in_Channels by blast
  from channel_add_ok [OF this, of "sums rows"] obtain m1 where m1: "channel_add m (BillingChannel provider) (sums rows) = Some m1"
    "map fst m1 = map fst m" "grand_total (map snd m1) = addTotals (sums rows) (grand_total (map snd m))" by blast
  then have "set Channels \<subseteq> set (map fst m1)" using 2(2) by simp
  from 2(1) [OF m1(1) this] show ?case using m1 by (auto simp: totals_ac)
qed simp

lemma channels_add_up:
  "\<exists>m. ChannelBreakdown t a b = Some m \<and> map fst m = Channels \<and> grand_total (map snd m) = Summary t a b"
proof -
  let ?m = "map (\<lambda>ch. (ch, zero_totals)) Channels"
  have z: "grand_total (map snd ?m) = zero_totals" by (simp add: Channels_def)
  have "set Channels \<subseteq> set (map fst ?m)" by simp
  from channel_loop_ok [OF this, of "sql_group ev_provider (in_period a b t)"]
  show ?thesis unfolding z group_sums by (auto simp: ChannelBreakdown_def Summary_def comp_def)
qed

section \<open>Days and models\<close>

lemma days_add_up: "grand_total (map snd (Daily day t a b)) = Summary t a b"
proof -
  have "grand_total (map snd (Daily day t a b)) =
      grand_total (map (\<lambda>g. sums (snd g)) (sort_key fst (sql_group (\<lambda>r. day (ev_ts r)) (in_period a b t))))"
    by (simp add: Daily_def comp_def split_beta')
  then show ?thesis by (simp add: grand_total_sort group_sums Summary_def)
qed

lemma fold_row_total:
  "grand_total (map bd_totals (fold_row accs k r)) = addTotals (bd_totals r) (grand_total (map bd_totals accs))"
  by (induction accs k r rule: fold_row.induct) (auto simp: merge_rows_def totals_ac)

lemma fold_rows_total:
  "grand_total (map bd_totals (foldl (\<lambda>accs r. fold_row accs (h r) r) accs rows)) =
     addTotals (grand_total (map bd_totals accs)) (grand_total (map bd_totals rows))"
  by (induction rows arbitrary: accs) (simp_all add: fold_row_total totals_ac)

lemma breakdown_adds_up:
  assumes "Breakdown t dim a b limit0 = Inr rows" "int (length rows) < (if limit0 \<le> 0 then 50 else limit0)"
  shows "grand_total (map bd_totals rows) = Summary t a b"
proof -
  let ?limit = "if limit0 \<le> 0 then 50 else limit0"
  obtain col where col: "map_of breakdownDims dim = Some col" using assms(1) by (auto simp: Breakdown_def split: option.splits)
  let ?all = "sort_key (\<lambda>r. - tt_total (bd_totals r))
      (map (\<lambda>(k, rs). \<lparr>bd_key = k, bd_last_seen = sql_max 0 (map ev_ts rs), bd_totals = sums rs\<rparr>) (sql_group col (in_period a b t)))"
  have all: "grand_total (map bd_totals ?all) = Summary t a b"
    unfolding grand_total_sort Summary_def using group_sums [of col "in_period a b t"] by (simp add: comp_def split_beta')
  show ?thesis
  proof (cases "dim = ''model''")
    case True
    let ?folded = "sort_key (\<lambda>r. - tt_total (bd_totals r)) (foldl (\<lambda>accs r. fold_row accs (CanonicalModel (bd_key r)) r) [] ?all)"
    have rows: "rows = foldModelRows ?all ?limit" using assms(1) col True by (simp add: Breakdown_def sql_limit_def Let_def)
    then have "rows = ?folded" using assms(2) by (auto simp: foldModelRows_def Let_def split: if_splits)
    then show ?thesis using fold_rows_total [of "\<lambda>r. CanonicalModel (bd_key r)" "[]" ?all] all by (simp add: grand_total_sort)
  next
    case False
    then have "rows = take (nat ?limit) ?all" using assms(1) col by (auto simp: Breakdown_def sql_limit_def Let_def)
    then have "rows = ?all" using assms(2) by (auto simp: min_def split: if_splits)
    then show ?thesis using all by simp
  qed
qed

text \<open>A day of the models' chart holds what the day's bar holds.\<close>

lemma day_of_chart:
  "grand_total (map md_totals (filter (\<lambda>r. md_bucket r = d) (ModelDaily day t a b n))) =
     sums (filter (\<lambda>r. day (ev_ts r) = d) (in_period a b t))"
proof -
  let ?raw = "model_days day (in_period a b t)"
  obtain name where md: "mset (ModelDaily day t a b n) =
      mset (map (\<lambda>((d, m), rs). \<lparr>md_bucket = d, md_model = m, md_totals = foldl addTotals zero_totals (map md_totals rs)\<rparr>)
        (sql_group (\<lambda>r. (md_bucket r, name r)) ?raw))"
    by (simp add: ModelDaily_def Let_def)
  have "grand_total (map md_totals (filter (\<lambda>r. md_bucket r = d) (ModelDaily day t a b n))) =
      grand_total (map md_totals (filter (\<lambda>r. md_bucket r = d)
        (map (\<lambda>((d, m), rs). \<lparr>md_bucket = d, md_model = m, md_totals = foldl addTotals zero_totals (map md_totals rs)\<rparr>)
        (sql_group (\<lambda>r. (md_bucket r, name r)) ?raw))))"
    by (rule grand_total_mset) (simp only: mset_map [of md_totals] mset_filter md)
  also have "\<dots> = grand_total (map (\<lambda>g. grand_total (map md_totals (snd g)))
      (filter (\<lambda>g. fst (fst g) = d) (sql_group (\<lambda>r. (md_bucket r, name r)) ?raw)))"
    by (simp add: filter_map comp_def split_beta' grand_total_def)
  also have "\<dots> = grand_total (map md_totals (filter (\<lambda>r. md_bucket r = d) ?raw))"
    using group_total_where [of md_totals "\<lambda>k. fst k = d" "\<lambda>r. (md_bucket r, name r)" ?raw] by simp
  also have "\<dots> = grand_total (map (\<lambda>g. sums (snd g))
      (filter (\<lambda>g. fst (fst g) = d) (sql_group (\<lambda>r. (day (ev_ts r), ev_model r)) (in_period a b t))))"
    by (simp add: model_days_def filter_map comp_def split_beta')
  also have "\<dots> = sums (filter (\<lambda>r. day (ev_ts r) = d) (in_period a b t))"
    using group_total_where [of row_totals "\<lambda>k. fst k = d" "\<lambda>r. (day (ev_ts r), ev_model r)" "in_period a b t"]
    by (simp add: sums_grand)
  finally show ?thesis .
qed

section \<open>Price splits\<close>

lemma split_sums:
  assumes "\<And>r. h (e r) = f r"
  shows "grand_total (map (\<lambda>g. sums (snd g)) (filter (\<lambda>g. h (fst g) = k) (sql_group e rows))) = sums (filter (\<lambda>r. f r = k) rows)"
  using group_total_where [of row_totals "\<lambda>x. h x = k" e rows] by (simp add: sums_grand assms)

lemma insort_key_map: "insort_key f (g x) (map g xs) = map g (insort_key (\<lambda>x. f (g x)) x xs)"
  by (induction xs) auto

lemma sort_key_map: "sort_key f (map g xs) = map g (sort_key (\<lambda>x. f (g x)) xs)"
  by (induction xs) (simp_all add: insort_key_map)

lemma sql_limit_map: "sql_limit n (map f xs) = map f (sql_limit n xs)"
  by (simp add: sql_limit_def take_map)

lemma sql_limit_subset: "set (sql_limit n xs) \<subseteq> set xs"
  by (auto simp: sql_limit_def dest: in_set_takeD)

definition session_groups :: "event_row list \<Rightarrow> int \<Rightarrow> int \<Rightarrow> int \<Rightarrow> ((string \<times> string) \<times> event_row list) list" where
  "session_groups t a b n = sql_limit (if n \<le> 0 then 200 else n)
     (sort_key (\<lambda>g. - sql_max 0 (map ev_ts (snd g))) (sql_group (\<lambda>r. (ev_session_id r, ev_device r)) (in_period a b t)))"

lemma session_groups_in: "g \<in> set (session_groups t a b n) \<Longrightarrow>
    snd g = filter (\<lambda>r. (ev_session_id r, ev_device r) = fst g) (in_period a b t) \<and> fst g \<in> (\<lambda>r. (ev_session_id r, ev_device r)) ` set (in_period a b t)"
  using sql_limit_subset by (fastforce simp: session_groups_def sql_group_def)

lemma shown_sessions_eq: "shown_sessions t a b (if n \<le> 0 then 200 else n) = map fst (session_groups t a b n)"
  by (simp only: shown_sessions_def session_groups_def sql_limit_map split_beta')

lemma SessionRows_eq:
  "map (\<lambda>v. ((sv_session v, sv_device v), sv_totals v)) (SessionRows t a b n) = map (\<lambda>g. (fst g, sums (snd g))) (session_groups t a b n)"
  by (simp add: SessionRows_def session_groups_def sort_key_map sql_limit_map split_beta' comp_def)

lemma periods_reconcile:
  "(case PeriodRows day week month g t a b of
      Inl e \<Rightarrow> PeriodModelUsage day week month g t a b = Inl e
    | Inr rows \<Rightarrow> \<exists>ms. PeriodModelUsage day week month g t a b = Inr ms \<and>
        map (\<lambda>r. (fst r, grand_total (map (\<lambda>m. mu_totals (snd m)) (filter (\<lambda>m. fst m = fst r) ms)))) rows = rows)"
proof (cases "periodExpr day week month g")
  case (Inl e)
  then show ?thesis by (auto simp: PeriodRows_def PeriodModelUsage_def periodExpr_def split: if_splits)
next
  case (Inr bucket)
  let ?G = "sort_key fst (sql_group (\<lambda>r. bucket (ev_ts r)) (in_period a b t))"
  let ?ms = "map (\<lambda>((b, m, p), rows). (b, usage_row m p rows))
      (sql_group (\<lambda>r. (bucket (ev_ts r), ev_model r, ev_provider r)) (in_period a b t))"
  have rows: "PeriodRows day week month g t a b = Inr (map (\<lambda>g. (fst g, sums (snd g))) ?G)"
    using Inr by (auto simp: PeriodRows_def periodExpr_def Daily_def split_beta' split: if_splits)
  have split: "grand_total (map (\<lambda>m. mu_totals (snd m)) (filter (\<lambda>m. fst m = k) ?ms)) =
      sums (filter (\<lambda>r. bucket (ev_ts r) = k) (in_period a b t))" for k
    using split_sums [of fst "\<lambda>r. (bucket (ev_ts r), ev_model r, ev_provider r)" "\<lambda>r. bucket (ev_ts r)" k "in_period a b t"]
    by (simp add: filter_map comp_def split_beta' usage_row_def)
  have "\<forall>g\<in>set ?G. snd g = filter (\<lambda>r. bucket (ev_ts r) = fst g) (in_period a b t)"
    using sql_group_filter by fastforce
  then have "map (\<lambda>r. (fst r, grand_total (map (\<lambda>m. mu_totals (snd m)) (filter (\<lambda>m. fst m = fst r) ?ms))))
      (map (\<lambda>g. (fst g, sums (snd g))) ?G) = map (\<lambda>g. (fst g, sums (snd g))) ?G"
    unfolding split map_map by (intro map_cong [OF refl]) simp
  then show ?thesis
    using Inr unfolding rows PeriodModelUsage_def sum.case by (intro exI [of _ ?ms]) simp
qed

section \<open>Telemetry\<close>

lemma sum_by_key:
  fixes f :: "'r \<Rightarrow> int"
  assumes "distinct ks" "\<And>r. r \<in> set rows \<Longrightarrow> key r \<in> set ks \<or> f r = 0"
  shows "(\<Sum>k\<leftarrow>ks. \<Sum>r\<leftarrow>filter (\<lambda>r. key r = k) rows. f r) = (\<Sum>r\<leftarrow>rows. f r)"
  using assms(2)
proof (induction rows)
  case (Cons r rows)
  have "(\<Sum>k\<leftarrow>ks. \<Sum>r\<leftarrow>filter (\<lambda>r. key r = k) (r # rows). f r) =
      (\<Sum>k\<leftarrow>ks. (if key r = k then f r else 0) + (\<Sum>r\<leftarrow>filter (\<lambda>r. key r = k) rows. f r))"
    by (rule arg_cong [where f = sum_list], rule map_cong) auto
  also have "\<dots> = (\<Sum>k\<leftarrow>ks. if key r = k then f r else 0) + (\<Sum>r\<leftarrow>rows. f r)"
    using Cons by (simp add: sum_list_addf)
  also have "(\<Sum>k\<leftarrow>ks. if key r = k then f r else 0) = (\<Sum>k\<in>set ks. if key r = k then f r else 0)"
    using assms(1) by (rule sum_list_distinct_conv_sum_set)
  also have "\<dots> = f r" using Cons.prems [of r] by (auto simp: sum.delta')
  finally show ?case by simp
qed simp

lemma group_sum:
  fixes f :: "'r \<Rightarrow> int"
  shows "(\<Sum>g\<leftarrow>sql_group key rows. \<Sum>r\<leftarrow>snd g. f r) = (\<Sum>r\<leftarrow>rows. f r)"
  using sum_by_key [of "rev (remdups (rev (map key rows)))" rows key f] by (simp add: sql_group_def comp_def)

lemma sum_list_sort_key: "(\<Sum>x\<leftarrow>sort_key g xs. f x) = (\<Sum>x\<leftarrow>xs. f x :: int)"
  by (metis mset_map mset_sort sum_mset_sum_list)

lemma sum_list_positive: "\<forall>x\<in>set xs. 0 \<le> f x \<Longrightarrow> (\<Sum>x\<leftarrow>filter (\<lambda>x. 0 < f x) xs. f x) = (\<Sum>x\<leftarrow>xs. f x :: int)"
  by (induction xs) auto

lemma model_shares_sum:
  assumes "\<forall>r\<in>set rows. 0 \<le> usage_tokens r"
  shows "(\<Sum>x\<leftarrow>model_shares rows. snd x) = (\<Sum>r\<leftarrow>rows. usage_tokens r)"
proof -
  let ?g = "map (\<lambda>(m, rs). (m, sum_list (map usage_tokens rs))) (sql_group (\<lambda>r. model_label (ev_model r)) rows)"
  have "\<forall>x\<in>set ?g. 0 \<le> snd x"
    using assms by (auto simp: sql_group_def intro!: sum_list_nonneg)
  then have "(\<Sum>x\<leftarrow>filter (\<lambda>x. 0 < snd x) ?g. snd x) = (\<Sum>x\<leftarrow>?g. snd x)" by (rule sum_list_positive)
  also have "\<dots> = (\<Sum>g\<leftarrow>sql_group (\<lambda>r. model_label (ev_model r)) rows. \<Sum>r\<leftarrow>snd g. usage_tokens r)"
    by (simp add: comp_def split_beta')
  finally show ?thesis by (simp add: model_shares_def sum_list_sort_key group_sum split_beta')
qed

lemma daily_sources_sum:
  assumes "\<forall>r\<in>set t. 0 \<le> usage_tokens r" "previousStart \<le> todayStart"
  shows "(\<Sum>s\<leftarrow>telemetryDailySources t todayStart now previousStart previousEnd. ts_tokens s) =
      (\<Sum>r\<leftarrow>upto_now todayStart now t. usage_tokens r)"
    and "\<forall>s\<in>set (telemetryDailySources t todayStart now previousStart previousEnd). (\<Sum>x\<leftarrow>ts_models s. snd x) = ts_tokens s"
proof -
  let ?rows = "upto_now previousStart now t"
  let ?key = "\<lambda>r. speedSourceKey (ev_source r)"
  let ?cur = "\<lambda>s. filter (\<lambda>r. ev_ts r \<ge> todayStart) (filter (\<lambda>r. ?key r = s) ?rows)"
  let ?prev = "\<lambda>s. sum_list (map usage_tokens (filter (\<lambda>r. ev_ts r \<le> previousEnd \<and> ev_ts r < todayStart) (filter (\<lambda>r. ?key r = s) ?rows)))"
  let ?keys = "[''claude-code'', ''codex'', ''dsh''] @ sort (filter (\<lambda>s. s \<notin> {''claude-code'', ''codex'', ''dsh''} \<and>
      (sum_list (map usage_tokens (?cur s)) > 0 \<or> ?prev s > 0)) (remdups (map ?key ?rows)))"
  let ?today = "upto_now todayStart now t"
  have today: "?today = filter (\<lambda>r. ev_ts r \<ge> todayStart) ?rows"
    using assms(2) by (auto simp: upto_now_def intro!: filter_cong)
  have cur: "?cur s = filter (\<lambda>r. ?key r = s) ?today" for s
    unfolding today by (simp add: conj_commute)
  have nonneg: "\<forall>r\<in>set (?cur s). 0 \<le> usage_tokens r" for s using assms(1) by (simp add: upto_now_def)
  have "?key r \<in> set ?keys \<or> usage_tokens r = 0" if "r \<in> set ?today" for r
  proof (rule ccontr)
    assume no: "\<not> (?key r \<in> set ?keys \<or> usage_tokens r = 0)"
    have r: "r \<in> set (?cur (?key r))" "?key r \<in> set (map ?key ?rows)" using that unfolding today by auto
    then have "usage_tokens r \<le> sum_list (map usage_tokens (?cur (?key r)))"
      using nonneg by (intro member_le_sum_list) auto
    moreover have "sum_list (map usage_tokens (?cur (?key r))) \<le> 0" using no r(2) by auto
    moreover have "0 \<le> usage_tokens r" using nonneg r(1) by blast
    ultimately show False using no by simp
  qed
  then have "(\<Sum>s\<leftarrow>?keys. \<Sum>r\<leftarrow>filter (\<lambda>r. ?key r = s) ?today. usage_tokens r) = (\<Sum>r\<leftarrow>?today. usage_tokens r)"
    by (intro sum_by_key) auto
  then show "(\<Sum>s\<leftarrow>telemetryDailySources t todayStart now previousStart previousEnd. ts_tokens s) = (\<Sum>r\<leftarrow>?today. usage_tokens r)"
    unfolding telemetryDailySources_def Let_def map_map comp_def cur by (simp only: telemetry_source.simps)
  show "\<forall>s\<in>set (telemetryDailySources t todayStart now previousStart previousEnd). (\<Sum>x\<leftarrow>ts_models s. snd x) = ts_tokens s"
    using model_shares_sum [OF nonneg] by (auto simp: telemetryDailySources_def Let_def)
qed

lemma rolling_sum:
  "(\<Sum>x\<leftarrow>tu_rolling (TelemetryUsage t todayStart now previousStart previousEnd). fst (snd x)) =
     tu_rolling_total (TelemetryUsage t todayStart now previousStart previousEnd)"
proof -
  let ?key = "\<lambda>r. speedSourceKey (ev_source r)"
  let ?window = "upto_now (now - 2 * hours5) now t" and ?last = "upto_now (now - hours5) now t"
  let ?keys = "[''claude-code'', ''codex''] @ sort (filter (\<lambda>s. s \<notin> {''claude-code'', ''codex''}) (remdups (map ?key ?window)))"
  have last: "?last = filter (\<lambda>r. ev_ts r \<ge> now - hours5) ?window"
    by (auto simp: upto_now_def hours5_def intro!: filter_cong)
  have "(\<Sum>s\<leftarrow>?keys. \<Sum>r\<leftarrow>filter (\<lambda>r. ?key r = s) ?last. usage_tokens r) = (\<Sum>r\<leftarrow>?last. usage_tokens r)"
    by (rule sum_by_key) (auto simp: last)
  moreover have "filter (\<lambda>r. ?key r = s) ?last = filter (\<lambda>r. ev_ts r \<ge> now - hours5) (filter (\<lambda>r. ?key r = s) ?window)" for s
    unfolding last by (simp add: conj_commute)
  ultimately show ?thesis
    unfolding TelemetryUsage_def Let_def telemetry_usage.simps map_map comp_def by (simp only: fst_conv snd_conv)
qed

section \<open>The properties\<close>

text \<open>
  C30. Every view of a period adds up to its summary, in every column: the four billing channels, each present
  and each event in exactly one; the days; the rows of any breakdown that the limit does not cut, with routing
  variants of a model folded first; and each day of the models' chart, the other models' row included.
\<close>

theorem views_add_up:
  "(\<exists>m. ChannelBreakdown t a b = Some m \<and> map fst m = Channels \<and> grand_total (map snd m) = Summary t a b) \<and>
   grand_total (map snd (Daily day t a b)) = Summary t a b \<and>
   grand_total (map mu_totals (ModelUsage t a b)) = Summary t a b \<and>
   (case Breakdown t dim a b n of
      Inl e \<Rightarrow> map_of breakdownDims dim = None
    | Inr rows \<Rightarrow> (if n \<le> 0 then 50 else n) \<le> int (length rows) \<or> grand_total (map bd_totals rows) = Summary t a b) \<and>
   grand_total (map md_totals (filter (\<lambda>r. md_bucket r = d) (ModelDaily day t a b k))) =
     sums (filter (\<lambda>r. day (ev_ts r) = d) (in_period a b t))"
proof (intro conjI)
  show "grand_total (map mu_totals (ModelUsage t a b)) = Summary t a b"
    using group_sums [of "\<lambda>r. (ev_model r, ev_provider r)" "in_period a b t"]
    by (simp add: ModelUsage_def usage_row_def Summary_def comp_def split_beta')
  show "case Breakdown t dim a b n of
      Inl e \<Rightarrow> map_of breakdownDims dim = None
    | Inr rows \<Rightarrow> (if n \<le> 0 then 50 else n) \<le> int (length rows) \<or> grand_total (map bd_totals rows) = Summary t a b"
  proof (cases "Breakdown t dim a b n")
    case (Inl e)
    then show ?thesis by (auto simp: Breakdown_def Let_def split: option.splits)
  next
    case (Inr rows)
    then show ?thesis
      using breakdown_adds_up [OF Inr] by (cases "int (length rows) < (if n \<le> 0 then 50 else n)") simp_all
  qed
qed (rule channels_add_up days_add_up day_of_chart)+

text \<open>
  What is priced is what is shown: the per-model rows of a report add up to each of its buckets, a report
  of an unknown granularity is refused by both, and the per-model rows of the session list belong to exactly
  the sessions it shows and add up to each of them.
\<close>

theorem price_splits_reconcile:
  "(case PeriodRows day week month g t a b of
      Inl e \<Rightarrow> PeriodModelUsage day week month g t a b = Inl e
    | Inr rows \<Rightarrow> \<exists>ms. PeriodModelUsage day week month g t a b = Inr ms \<and>
        map (\<lambda>r. (fst r, grand_total (map (\<lambda>m. mu_totals (snd m)) (filter (\<lambda>m. fst m = fst r) ms)))) rows = rows) \<and>
   fst ` set (SessionModelUsage t a b n) = (\<lambda>v. (sv_session v, sv_device v)) ` set (SessionRows t a b n) \<and>
   map (\<lambda>v. ((sv_session v, sv_device v), grand_total (map (\<lambda>m. mu_totals (snd m))
       (filter (\<lambda>m. fst m = (sv_session v, sv_device v)) (SessionModelUsage t a b n))))) (SessionRows t a b n) =
     map (\<lambda>v. ((sv_session v, sv_device v), sv_totals v)) (SessionRows t a b n)"
proof (intro conjI)
  let ?e = "\<lambda>r. (ev_session_id r, ev_device r)" and ?S = "session_groups t a b n"
  let ?rows = "filter (\<lambda>r. ?e r \<in> set (map fst ?S)) (in_period a b t)"
  let ?key = "\<lambda>v. (sv_session v, sv_device v)"
  have usage: "SessionModelUsage t a b n = map (\<lambda>((s, d, m, p), rows). ((s, d), usage_row m p rows))
      (sql_group (\<lambda>r. (ev_session_id r, ev_device r, ev_model r, ev_provider r)) ?rows)"
    unfolding SessionModelUsage_def Let_def shown_sessions_eq ..
  have keys: "map ?key (SessionRows t a b n) = map fst ?S"
    using arg_cong [OF SessionRows_eq [of t a b n], of "map fst"] by (simp add: comp_def)
  have "fst ` set (SessionModelUsage t a b n) = ?e ` set ?rows"
    unfolding usage by (force simp: sql_group_def)
  also have "\<dots> = fst ` set ?S"
  proof
    show "fst ` set ?S \<subseteq> ?e ` set ?rows"
    proof
      fix k assume k: "k \<in> fst ` set ?S"
      then have "k \<in> ?e ` set (in_period a b t)" using session_groups_in [of _ t a b n] by blast
      then obtain r where r: "k = ?e r" "r \<in> set (in_period a b t)" by blast
      with k have "r \<in> set ?rows" by simp
      with r(1) show "k \<in> ?e ` set ?rows" by blast
    qed
  qed auto
  also have "\<dots> = ?key ` set (SessionRows t a b n)" using arg_cong [OF keys, of set] by simp
  finally show "fst ` set (SessionModelUsage t a b n) = ?key ` set (SessionRows t a b n)" .
  have split: "grand_total (map (\<lambda>m. mu_totals (snd m)) (filter (\<lambda>m. fst m = k) (SessionModelUsage t a b n))) =
      sums (filter (\<lambda>r. ?e r = k) ?rows)" for k
    using split_sums [of "\<lambda>x. (fst x, fst (snd x))" "\<lambda>r. (ev_session_id r, ev_device r, ev_model r, ev_provider r)" ?e k ?rows]
    unfolding usage by (simp add: filter_map comp_def split_beta' usage_row_def)
  have "map (\<lambda>k. (k, sums (filter (\<lambda>r. ?e r = k) ?rows))) (map fst ?S) = map (\<lambda>g. (fst g, sums (snd g))) ?S"
    unfolding map_map
  proof (rule map_cong [OF refl])
    fix g assume g: "g \<in> set ?S"
    then have "filter (\<lambda>r. ?e r = fst g) ?rows = snd g"
      using session_groups_in [OF g] by (auto intro!: filter_cong)
    then show "((\<lambda>k. (k, sums (filter (\<lambda>r. ?e r = k) ?rows))) \<circ> fst) g = (fst g, sums (snd g))" by simp
  qed
  then show "map (\<lambda>v. (?key v, grand_total (map (\<lambda>m. mu_totals (snd m)) (filter (\<lambda>m. fst m = ?key v) (SessionModelUsage t a b n)))))
      (SessionRows t a b n) = map (\<lambda>v. (?key v, sv_totals v)) (SessionRows t a b n)"
    unfolding split SessionRows_eq keys [symmetric] by (simp add: comp_def)
qed (rule periods_reconcile)

text \<open>
  The telemetry panel's rows reconcile: today's sources and today's models each add up to today's total,
  each source's models to the source, and the five-hour sources to the five-hour total. Token counts are not
  negative, and the day before begins before the day.
\<close>

theorem telemetry_rows_reconcile:
  assumes "\<forall>r\<in>set t. 0 \<le> usage_tokens r" "previousStart \<le> todayStart"
  shows "let u = TelemetryUsage t todayStart now previousStart previousEnd
    in (\<Sum>s\<leftarrow>tu_sources u. ts_tokens s) = tu_total u \<and> (\<Sum>x\<leftarrow>tu_models u. snd x) = tu_total u \<and>
       (\<forall>s\<in>set (tu_sources u). (\<Sum>x\<leftarrow>ts_models s. snd x) = ts_tokens s) \<and>
       (\<Sum>x\<leftarrow>tu_rolling u. fst (snd x)) = tu_rolling_total u"
proof -
  have "\<forall>r\<in>set (upto_now todayStart now t). 0 \<le> usage_tokens r" using assms(1) by (simp add: upto_now_def)
  from model_shares_sum [OF this] daily_sources_sum [OF assms, of now previousEnd]
  show ?thesis unfolding Let_def using rolling_sum by (simp add: TelemetryUsage_def Let_def)
qed

end
