(* ===== verification/Proxy.thy ===== *)
theory Proxy
  imports Claude_Parser
begin

text \<open>
  \<open>internal/proxy/proxy.go\<close>: the local forwarding proxy, from the path prefix to the event it emits, the
  usage observer on the teed response and the retry ring. \<open>http.Header.Get\<close> is a function from the
  header's name; the clock readings, \<open>json.Unmarshal\<close> and the hashes are parameters. What the network
  does in one exchange is the record \<open>exchange\<close>.
\<close>

definition ProxySource :: string where "ProxySource = ''proxy''"
definition proxyRingCap :: nat where "proxyRingCap = 1000"
definition proxyCaptureMax :: nat where "proxyCaptureMax = 4 * 2 ^ 20"

type_synonym header = "string \<Rightarrow> string"

definition defaultUpstreams :: "(string \<times> string) list" where
  "defaultUpstreams = [(''anthropic'', ''https://api.anthropic.com''), (''openai'', ''https://api.openai.com'')]"

definition splitProxyPrefix :: "string \<Rightarrow> string \<times> string" where
  "splitProxyPrefix path =
     (let p = TrimPrefix path ''/''
      in (case Index p ''/'' of Some i \<Rightarrow> (take i p, drop i p) | None \<Rightarrow> (p, ''/'')))"

section \<open>The billing channel, read off the credential\<close>

definition credAPIKey :: string where "credAPIKey = ''api-key''"
definition credOAuth :: string where "credOAuth = ''oauth''"

definition credentialKind :: "header \<Rightarrow> string" where
  "credentialKind h =
     (if h ''x-api-key'' \<noteq> [] then credAPIKey
      else
        let tok = TrimSpace (TrimPrefix (h ''Authorization'') ''Bearer '')
        in if tok = [] then []
           else if HasPrefix tok ''sk-ant-oat'' then credOAuth
           else if HasPrefix tok ''eyJ'' then credOAuth
           else if HasPrefix tok ''sk-'' then credAPIKey
           else [])"

definition proxyProvider :: "string \<Rightarrow> header \<Rightarrow> string" where
  "proxyProvider pre h =
     (if pre = ''anthropic'' then
        (if credentialKind h = credAPIKey then ''anthropic-api''
         else if credentialKind h = credOAuth then ''anthropic-oauth''
         else ''anthropic'')
      else if pre = ''openai'' then
        (if credentialKind h = credAPIKey then ''openai-api''
         else if credentialKind h = credOAuth then ProviderOpenAIChatGPT
         else ''openai'')
      else pre)"

definition proxyAccountLabel :: "(string \<Rightarrow> 8 word list) \<Rightarrow> header \<Rightarrow> string" where
  "proxyAccountLabel sha256 h =
     (let key = (if h ''Authorization'' = [] then h ''x-api-key'' else h ''Authorization'')
      in if key = [] then [] else take 12 (hex_encode (sha256 key)))"

section \<open>Identity\<close>

definition sharedEventID :: "string \<Rightarrow> string \<Rightarrow> header \<Rightarrow> string" where
  "sharedEventID pre msgID respHeader =
     (if pre \<noteq> ''anthropic'' \<or> msgID = [] then []
      else
        let reqID = (if respHeader ''request-id'' = [] then respHeader ''anthropic-request-id'' else respHeader ''request-id'')
        in if reqID = [] then [] else ''cc:'' @ msgID @ '':'' @ reqID)"

definition proxyEventID :: "(string \<Rightarrow> 8 word list) \<Rightarrow> string \<Rightarrow> string \<Rightarrow> int \<Rightarrow> 64 word \<Rightarrow> string" where
  "proxyEventID sha1 device pre startNano seq =
     ''px:'' @ hex_encode (take 12 (sha1 (bar_join [device, pre, format_int startNano, FormatUint seq])))"

section \<open>Usage observation\<close>

record wire_usage =
  wu_input :: int
  wu_output :: int
  wu_cache_read :: int
  wu_cache_creation :: int
  wu_prompt :: int
  wu_completion :: int
  wu_cached :: "int option"

record proxy_tokens =
  pt_input :: int
  pt_output :: int
  pt_cache_read :: int
  pt_cache_create :: int

text \<open>One SSE event: \<open>model\<close>, \<open>message\<close> (its id, model and usage) and \<open>usage\<close>; and a whole JSON body.\<close>

record sse_event =
  se_model :: string
  se_message :: "(string \<times> string \<times> wire_usage option) option"
  se_usage :: "wire_usage option"

record body_json =
  bj_id :: string
  bj_model :: string
  bj_usage :: "wire_usage option"

record proxy_std =
  px_event :: "string \<Rightarrow> sse_event option"
  px_body :: "string \<Rightarrow> body_json option"
  px_model :: "string \<Rightarrow> string option"
  px_sha1 :: "string \<Rightarrow> 8 word list"
  px_sha256 :: "string \<Rightarrow> 8 word list"

record usage_observer =
  ob_sse :: bool
  ob_raw :: string
  ob_line :: string
  ob_acc :: proxy_tokens
  ob_model :: string
  ob_msg_id :: string

definition newUsageObserver :: "bool \<Rightarrow> usage_observer" where
  "newUsageObserver sse = \<lparr>ob_sse = sse, ob_raw = [], ob_line = [],
     ob_acc = \<lparr>pt_input = 0, pt_output = 0, pt_cache_read = 0, pt_cache_create = 0\<rparr>, ob_model = [], ob_msg_id = []\<rparr>"

definition merge_usage :: "wire_usage \<Rightarrow> proxy_tokens \<Rightarrow> proxy_tokens" where
  "merge_usage u acc =
     (if wu_prompt u > 0 \<or> wu_completion u > 0 \<or> wu_cached u \<noteq> None then
        let cached = (case wu_cached u of None \<Rightarrow> 0 | Some c \<Rightarrow> min c (wu_prompt u))
        in acc\<lparr>pt_input := i64 (wu_prompt u - cached), pt_cache_read := cached, pt_output := wu_completion u\<rparr>
      else
        \<lparr>pt_input = (if wu_input u > 0 then wu_input u else pt_input acc),
         pt_output = (if wu_output u > 0 then wu_output u else pt_output acc),
         pt_cache_read = (if wu_cache_read u > 0 then wu_cache_read u else pt_cache_read acc),
         pt_cache_create = (if wu_cache_creation u > 0 then wu_cache_creation u else pt_cache_create acc)\<rparr>)"

definition merge_opt :: "wire_usage option \<Rightarrow> usage_observer \<Rightarrow> usage_observer" where
  "merge_opt u ob = (case u of None \<Rightarrow> ob | Some v \<Rightarrow> ob\<lparr>ob_acc := merge_usage v (ob_acc ob)\<rparr>)"

definition or_else :: "string \<Rightarrow> string \<Rightarrow> string" where
  "or_else new old = (if new \<noteq> [] then new else old)"

definition sseLine :: "proxy_std \<Rightarrow> string \<Rightarrow> usage_observer \<Rightarrow> usage_observer" where
  "sseLine std line ob =
     (if \<not> HasPrefix line ''data:'' then ob
      else
        let payload = TrimSpace (drop 5 line)
        in if payload = [] \<or> payload = ''[DONE]'' then ob
           else (case px_event std payload of
               None \<Rightarrow> ob
             | Some ev \<Rightarrow>
                 let o1 = ob\<lparr>ob_model := or_else (se_model ev) (ob_model ob)\<rparr>;
                     o2 = (case se_message ev of
                         None \<Rightarrow> o1
                       | Some (i, m, u) \<Rightarrow>
                           merge_opt u (o1\<lparr>ob_msg_id := or_else i (ob_msg_id o1), ob_model := or_else m (ob_model o1)\<rparr>))
                 in merge_opt (se_usage ev) o2))"

definition trim_cr :: "string \<Rightarrow> string" where
  "trim_cr s = rev (dropWhile (\<lambda>c. c = CHR 0x0D) (rev s))"

definition feed :: "proxy_std \<Rightarrow> usage_observer \<Rightarrow> string \<Rightarrow> usage_observer" where
  "feed std ob b =
     (if \<not> ob_sse ob then (if length (ob_raw ob) < proxyCaptureMax then ob\<lparr>ob_raw := ob_raw ob @ b\<rparr> else ob)
      else
        let (ls, rest) = log_lines (ob_line ob @ b)
        in (foldl (\<lambda>q l. sseLine std (trim_cr (butlast l)) q) ob ls)\<lparr>ob_line := rest\<rparr>)"

definition observed :: "proxy_std \<Rightarrow> usage_observer \<Rightarrow> proxy_tokens \<times> string \<times> string" where
  "observed std ob =
     (let o1 = (if \<not> ob_sse ob \<and> ob_raw ob \<noteq> [] then
          (case px_body std (ob_raw ob) of
             None \<Rightarrow> ob
           | Some v \<Rightarrow> merge_opt (bj_usage v)
               (ob\<lparr>ob_msg_id := or_else (bj_id v) (ob_msg_id ob), ob_model := or_else (bj_model v) (ob_model ob)\<rparr>))
          else ob)
      in (ob_acc o1, ob_model o1, ob_msg_id o1))"

section \<open>The relay\<close>

text \<open>The copying loop: each read chunk and whether the client took it; the bytes written and the observer.\<close>

fun relay :: "proxy_std \<Rightarrow> (string \<times> bool) list \<Rightarrow> usage_observer \<Rightarrow> string \<times> usage_observer" where
  "relay std [] ob = ([], ob)"
| "relay std ((chunk, taken) # cs) ob =
     (let o1 = (if chunk = [] then ob else feed std ob chunk)
      in if chunk \<noteq> [] \<and> \<not> taken then ([], o1)
         else (let (sent, o2) = relay std cs o1 in (chunk @ sent, o2)))"

record exchange =
  ex_prefix :: string
  ex_request_header :: header
  ex_request_body :: string
  ex_response_header :: header
  ex_chunks :: "(string \<times> bool) list"
  ex_start_ms :: int
  ex_start_nano :: int
  ex_ttft_ms :: int
  ex_duration_ms :: int
  ex_seq :: "64 word"

definition extractProxyModel :: "proxy_std \<Rightarrow> string \<Rightarrow> string" where
  "extractProxyModel std body = (case px_model std body of None \<Rightarrow> [] | Some m \<Rightarrow> m)"

text \<open>What \<open>ServeHTTP\<close> does once the upstream has answered: the bytes forwarded and the event emitted.\<close>

definition serve_exchange :: "proxy_std \<Rightarrow> string \<Rightarrow> exchange \<Rightarrow> string \<times> event" where
  "serve_exchange std device x =
     (let sse = str_contains (ex_response_header x ''Content-Type'') ''text/event-stream'';
          (sent, ob) = relay std (ex_chunks x) (newUsageObserver sse);
          (u, obsModel, msgID) = observed std ob;
          reqModel = extractProxyModel std (ex_request_body x);
          shared = sharedEventID (ex_prefix x) msgID (ex_response_header x);
          ev = zero_event\<lparr>ev_ts := ex_start_ms x, ev_device := device, ev_source := ProxySource,
             ev_model := (if reqModel = [] then obsModel else reqModel),
             ev_provider := proxyProvider (ex_prefix x) (ex_request_header x),
             ev_account_label := proxyAccountLabel (px_sha256 std) (ex_request_header x),
             ev_input_tokens := pt_input u, ev_output_tokens := pt_output u, ev_cache_read_tokens := pt_cache_read u,
             ev_cache_creation_tokens := pt_cache_create u, ev_gen_ms := ex_duration_ms x, ev_ttft_ms := ex_ttft_ms x\<rparr>
      in (sent,
          if shared \<noteq> [] then ev\<lparr>ev_event_id := shared\<rparr>
          else ev\<lparr>ev_event_id := proxyEventID (px_sha1 std) device (ex_prefix x) (ex_start_nano x) (ex_seq x),
                 ev_duration_ms := ex_duration_ms x\<rparr>))"

section \<open>The retry ring\<close>

text \<open>\<open>ok\<close> is whether the sink takes the batch; the result is the new buffer and the batch it was handed.\<close>

definition emit :: "event \<Rightarrow> bool \<Rightarrow> event list \<Rightarrow> event list \<times> event list" where
  "emit ev ok buf0 =
     (let buf1 = buf0 @ [ev];
          buf = (if length buf1 > proxyRingCap then drop (length buf1 - proxyRingCap) buf1 else buf1)
      in (if ok then [] else buf, buf))"

end
