(* ===== verification/Proxy_Properties.thy ===== *)
theory Proxy_Properties
  imports Proxy Event_Store
begin

text \<open>
  The proxy forwards what it reads, its accounting does not depend on how the network cuts the stream,
  a request also found in a log has one id, and its ring delivers in order.
\<close>

section \<open>Feeding a stream in pieces\<close>

lemma merge_opt_line: "merge_opt u (ob\<lparr>ob_line := r\<rparr>) = (merge_opt u ob)\<lparr>ob_line := r\<rparr>"
  by (simp add: merge_opt_def split: option.split)

lemma sseLine_line: "sseLine std l (ob\<lparr>ob_line := r\<rparr>) = (sseLine std l ob)\<lparr>ob_line := r\<rparr>"
  by (cases ob) (auto simp: sseLine_def Let_def merge_opt_def split: option.split)

lemma merge_opt_keeps [simp]: "ob_sse (merge_opt u ob) = ob_sse ob" "ob_line (merge_opt u ob) = ob_line ob" "ob_raw (merge_opt u ob) = ob_raw ob"
  by (simp_all add: merge_opt_def split: option.split)

lemma sseLine_keeps [simp]: "ob_sse (sseLine std l ob) = ob_sse ob" "ob_line (sseLine std l ob) = ob_line ob"
  by (auto simp: sseLine_def Let_def split: option.split)

definition sse_lines :: "proxy_std \<Rightarrow> string list \<Rightarrow> usage_observer \<Rightarrow> usage_observer" where
  "sse_lines std ls ob = foldl (\<lambda>q l. sseLine std (trim_cr (butlast l)) q) ob ls"

lemma sse_lines_line: "sse_lines std ls (ob\<lparr>ob_line := r\<rparr>) = (sse_lines std ls ob)\<lparr>ob_line := r\<rparr>"
  unfolding sse_lines_def by (induction ls arbitrary: ob) (simp_all add: sseLine_line)

lemma sse_lines_sse [simp]: "ob_sse (sse_lines std ls ob) = ob_sse ob"
  unfolding sse_lines_def by (induction ls arbitrary: ob) simp_all

lemma feed_sse:
  "ob_sse ob \<Longrightarrow> feed std ob b =
     (sse_lines std (fst (log_lines (ob_line ob @ b))) ob)\<lparr>ob_line := snd (log_lines (ob_line ob @ b))\<rparr>"
  by (simp add: feed_def sse_lines_def case_prod_beta)

lemma feed_sse_append: "ob_sse ob \<Longrightarrow> feed std (feed std ob a) b = feed std ob (a @ b)"
proof -
  assume sse: "ob_sse ob"
  let ?la = "log_lines (ob_line ob @ a)"
  have sse1: "ob_sse (feed std ob a)" using sse by (simp add: feed_sse)
  have "feed std (feed std ob a) b = (sse_lines std (fst (log_lines (snd ?la @ b))) (sse_lines std (fst ?la) ob))
      \<lparr>ob_line := snd (log_lines (snd ?la @ b))\<rparr>"
    unfolding feed_sse [OF sse1] using sse by (simp add: feed_sse sse_lines_line)
  also have "\<dots> = feed std ob (a @ b)"
    using sse log_lines_append [of "ob_line ob @ a" b] by (simp add: feed_sse sse_lines_def)
  finally show ?thesis .
qed

lemma relay_taken:
  "list_all snd cs \<Longrightarrow> relay std cs ob =
     (concat (map fst cs), foldl (feed std) ob (filter (\<lambda>c. c \<noteq> []) (map fst cs)))"
  by (induction cs arbitrary: ob) (auto simp: Let_def case_prod_beta)

lemma feeds_sse:
  "ob_sse ob \<Longrightarrow> cs \<noteq> [] \<Longrightarrow> foldl (feed std) ob cs = feed std ob (concat cs)"
proof (induction cs arbitrary: ob)
  case (Cons c cs)
  have "ob_sse (feed std ob c)" using Cons.prems(1) by (simp add: feed_sse)
  with Cons.IH [of "feed std ob c"] feed_sse_append [OF Cons.prems(1), of std c "concat cs"] show ?case
    by (cases "cs = []") simp_all
qed simp

lemma feeds_raw:
  "\<not> ob_sse ob \<Longrightarrow> length (ob_raw ob) + length (concat cs) \<le> proxyCaptureMax \<Longrightarrow>
     foldl (feed std) ob cs = ob\<lparr>ob_raw := ob_raw ob @ concat cs\<rparr>"
proof (induction cs arbitrary: ob)
  case (Cons c cs)
  have "feed std ob c = ob\<lparr>ob_raw := ob_raw ob @ c\<rparr>"
  proof (cases "length (ob_raw ob) < proxyCaptureMax")
    case False
    with Cons.prems(2) have "length c = 0" unfolding concat.simps length_append by linarith
    then have "c = []" by simp
    with Cons.prems(1) show ?thesis by (simp add: feed_def)
  qed (use Cons.prems(1) in \<open>simp add: feed_def\<close>)
  with Cons.IH [of "ob\<lparr>ob_raw := ob_raw ob @ c\<rparr>"] Cons.prems show ?case by simp
qed simp

lemma concat_nonempty: "concat (filter (\<lambda>c. c \<noteq> []) cs) = concat cs"
  by (induction cs) auto

lemma feeds_whole:
  assumes "ob_sse ob \<or> length (ob_raw ob) + length (concat cs) \<le> proxyCaptureMax"
  shows "foldl (feed std) ob (filter (\<lambda>c. c \<noteq> []) cs) = (if concat cs = [] then ob else feed std ob (concat cs))"
proof (cases "concat cs = []")
  case True
  then have "filter (\<lambda>c. c \<noteq> []) cs = []" by (auto simp: filter_empty_conv)
  with True show ?thesis by simp
next
  case False
  then have ne: "filter (\<lambda>c. c \<noteq> []) cs \<noteq> []" by (auto simp: filter_empty_conv)
  show ?thesis
  proof (cases "ob_sse ob")
    case True
    from feeds_sse [OF True ne, of std] False show ?thesis by (simp only: concat_nonempty if_False)
  next
    case raw: False
    then have len: "length (ob_raw ob) + length (concat cs) \<le> proxyCaptureMax" using assms by simp
    then have "foldl (feed std) ob (filter (\<lambda>c. c \<noteq> []) cs) = ob\<lparr>ob_raw := ob_raw ob @ concat cs\<rparr>"
      using feeds_raw [OF raw, of "filter (\<lambda>c. c \<noteq> []) cs" std] by (simp only: concat_nonempty)
    moreover have "feed std ob (concat cs) = ob\<lparr>ob_raw := ob_raw ob @ concat cs\<rparr>"
      using feeds_raw [OF raw, of "[concat cs]" std] len by simp
    ultimately show ?thesis using False by simp
  qed
qed

lemma serve_exchange_relay:
  assumes "newUsageObserver (str_contains (ex_response_header x ''Content-Type'') ''text/event-stream'') = ob0"
    and "relay std (ex_chunks x) ob0 = relay std cs ob0" "fst (relay std (ex_chunks x) ob0) = sent"
  shows "serve_exchange std device x = serve_exchange std device (x\<lparr>ex_chunks := cs\<rparr>) \<and> fst (serve_exchange std device x) = sent"
proof
  obtain ob where l: "relay std (ex_chunks x) ob0 = (sent, ob)" using assms(3) by (cases "relay std (ex_chunks x) ob0") auto
  then have r: "relay std cs ob0 = (sent, ob)" using assms(2) by simp
  obtain u m i where o: "observed std ob = (u, m, i)" by (cases "observed std ob") auto
  have fields: "ex_chunks (x\<lparr>ex_chunks := cs\<rparr>) = cs"
    "ex_response_header (x\<lparr>ex_chunks := cs\<rparr>) = ex_response_header x"
    "ex_request_body (x\<lparr>ex_chunks := cs\<rparr>) = ex_request_body x"
    "ex_prefix (x\<lparr>ex_chunks := cs\<rparr>) = ex_prefix x"
    "ex_start_ms (x\<lparr>ex_chunks := cs\<rparr>) = ex_start_ms x"
    "ex_request_header (x\<lparr>ex_chunks := cs\<rparr>) = ex_request_header x"
    "ex_duration_ms (x\<lparr>ex_chunks := cs\<rparr>) = ex_duration_ms x"
    "ex_ttft_ms (x\<lparr>ex_chunks := cs\<rparr>) = ex_ttft_ms x"
    "ex_start_nano (x\<lparr>ex_chunks := cs\<rparr>) = ex_start_nano x"
    "ex_seq (x\<lparr>ex_chunks := cs\<rparr>) = ex_seq x"
    by simp_all
  show "serve_exchange std device x = serve_exchange std device (x\<lparr>ex_chunks := cs\<rparr>)"
    by (simp only: serve_exchange_def Let_def fields assms(1) l r o prod.case)
  show "fst (serve_exchange std device x) = sent"
    by (simp only: serve_exchange_def Let_def assms(1) l o prod.case fst_conv)
qed

text \<open>C25. When the client takes everything, it receives exactly the bytes the upstream sent, and the event
  of the exchange does not depend on how the network cut them into reads: it is the event of the same
  body read in one piece, for a stream of any length and for any other body up to the capture limit.\<close>

theorem proxy_accounting_ignores_chunking:
  assumes "list_all snd (ex_chunks x)"
    and "str_contains (ex_response_header x ''Content-Type'') ''text/event-stream'' \<or>
      length (concat (map fst (ex_chunks x))) \<le> proxyCaptureMax"
  shows "serve_exchange std device x = serve_exchange std device (x\<lparr>ex_chunks := [(concat (map fst (ex_chunks x)), True)]\<rparr>) \<and>
    fst (serve_exchange std device x) = concat (map fst (ex_chunks x))"
proof -
  let ?sse = "str_contains (ex_response_header x ''Content-Type'') ''text/event-stream''"
  let ?cs = "map fst (ex_chunks x)"
  have "relay std (ex_chunks x) (newUsageObserver ?sse) = relay std [(concat ?cs, True)] (newUsageObserver ?sse)"
  proof -
    have "ob_sse (newUsageObserver ?sse) \<or> length (ob_raw (newUsageObserver ?sse)) + length (concat ?cs) \<le> proxyCaptureMax"
      using assms(2) by (simp add: newUsageObserver_def)
    from feeds_whole [OF this, of std] relay_taken [OF assms(1), of std "newUsageObserver ?sse"] show ?thesis
      by (cases "concat ?cs = []") (simp_all add: Let_def)
  qed
  moreover have "fst (relay std (ex_chunks x) (newUsageObserver ?sse)) = concat ?cs"
    using relay_taken [OF assms(1), of std "newUsageObserver ?sse"] by simp
  ultimately show ?thesis
    by (intro serve_exchange_relay [OF refl])
qed

section \<open>One request, one row\<close>

lemma serve_exchange_shared:
  assumes "observed std (snd (relay std (ex_chunks x) (newUsageObserver
      (str_contains (ex_response_header x ''Content-Type'') ''text/event-stream'')))) = (u, m, msgID)"
    and "sharedEventID (ex_prefix x) msgID (ex_response_header x) \<noteq> []"
  shows "ev_event_id (snd (serve_exchange std device x)) = sharedEventID (ex_prefix x) msgID (ex_response_header x)"
  using assms by (simp add: serve_exchange_def Let_def case_prod_beta)

text \<open>C26. A request to the Anthropic upstream whose response carried a message id and a request id gets the
  event id that the Claude Code parser derives from the log line of that message and request, so the
  hub keeps the two observations in one row.\<close>

theorem proxy_and_log_share_a_row:
  assumes "ex_prefix x = ''anthropic''" "msgID \<noteq> []" "reqID \<noteq> []"
    and "reqID = ex_response_header x ''request-id'' \<or>
      ex_response_header x ''request-id'' = [] \<and> reqID = ex_response_header x ''anthropic-request-id''"
    and "observed pstd (snd (relay pstd (ex_chunks x) (newUsageObserver
      (str_contains (ex_response_header x ''Content-Type'') ''text/event-stream'')))) = (u, m, msgID)"
    and "cl_unmarshal cstd (TrimSpace line) = Some e" "ce_message_id e = msgID" "ce_request_id e = reqID"
    and "parseLine cstd line device2 = Some logged"
  shows "ev_event_id (snd (serve_exchange pstd device1 x)) = ev_event_id logged \<and>
    event_conflict (row_of (snd (serve_exchange pstd device1 x)) o1 r1) (row_of logged o2 r2)"
proof -
  have shared: "sharedEventID (ex_prefix x) msgID (ex_response_header x) = ''cc:'' @ msgID @ '':'' @ reqID"
    using assms(1-4) by (auto simp: sharedEventID_def Let_def)
  have "ev_event_id logged = claudeEventID e"
    using assms(6,9) by (auto simp: parseLine_def Let_def split: if_splits option.splits)
  then have "ev_event_id logged = ''cc:'' @ msgID @ '':'' @ reqID"
    using assms(2,7,8) by (simp add: claudeEventID_def)
  with serve_exchange_shared [OF assms(5), of device1] shared show ?thesis
    by (simp add: event_conflict_def row_of_def)
qed

section \<open>The ring\<close>

text \<open>A history of events and of whether the sink took the batch: the buffer and what was taken, in order.\<close>

definition emit_step :: "event list \<times> event list \<Rightarrow> event \<times> bool \<Rightarrow> event list \<times> event list" where
  "emit_step s c =
     (let (buf, taken) = s; (ev, ok) = c; (buf', batch) = emit ev ok buf
      in (buf', if ok then taken @ batch else taken))"

definition emit_all :: "(event \<times> bool) list \<Rightarrow> event list \<times> event list" where
  "emit_all hist = foldl emit_step ([], []) hist"

text \<open>The events since the sink last took a batch.\<close>

definition unsent :: "(event \<times> bool) list \<Rightarrow> event list" where
  "unsent hist = map fst (rev (takeWhile (\<lambda>c. \<not> snd c) (rev hist)))"

lemma unsent_snoc: "unsent (hist @ [(ev, ok)]) = (if ok then [] else unsent hist @ [ev])"
  by (simp add: unsent_def)

definition newest :: "nat \<Rightarrow> 'a list \<Rightarrow> 'a list" where
  "newest n xs = drop (length xs - n) xs"

lemma newest_Nil: "newest n [] = []"
  by (simp add: newest_def)

lemma newest_snoc: "newest n (newest n xs @ [x]) = newest n (xs @ [x])"
  by (cases "length xs \<le> n") (auto simp: newest_def Suc_diff_le not_le)

lemma emit_newest: "emit ev ok (newest proxyRingCap xs) =
    (if ok then [] else newest proxyRingCap (xs @ [ev]), newest proxyRingCap (xs @ [ev]))"
proof -
  have "(if length b > proxyRingCap then drop (length b - proxyRingCap) b else b) = newest proxyRingCap b" for b :: "event list"
    by (simp add: newest_def)
  then show ?thesis by (simp add: emit_def Let_def newest_snoc)
qed

lemma emit_all_buf: "fst (emit_all hist) = newest proxyRingCap (unsent hist)"
proof (induction hist rule: rev_induct)
  case (snoc c hist)
  obtain ev ok where c: "c = (ev, ok)" by fastforce
  have "fst (emit_all (hist @ [c])) = fst (emit ev ok (fst (emit_all hist)))"
    by (simp add: emit_all_def emit_step_def c case_prod_beta)
  with snoc show ?case by (cases ok) (simp_all add: emit_newest c unsent_snoc newest_Nil)
qed (simp add: emit_all_def unsent_def newest_def)

text \<open>The ring holds the newest thousand of the events emitted since the sink last took a batch; as
  long as no run of failures exceeds that, what the sink has taken followed by the ring is every event
  emitted, once and in order.\<close>

theorem proxy_ring_loses_nothing:
  assumes "\<And>pre ev ok post. hist = pre @ (ev, ok) # post \<Longrightarrow> length (unsent pre) < proxyRingCap"
  shows "fst (emit_all hist) = newest proxyRingCap (unsent hist) \<and>
    snd (emit_all hist) @ fst (emit_all hist) = map fst hist"
proof -
  have "snd (emit_all hist) @ unsent hist = map fst hist"
    using assms
  proof (induction hist rule: rev_induct)
    case Nil
    show ?case by (simp add: emit_all_def unsent_def)
  next
    case (snoc c hist)
    obtain ev ok where c: "c = (ev, ok)" by fastforce
    have small: "length (unsent hist) < proxyRingCap" using snoc.prems [of hist ev ok "[]"] c by simp
    have IH: "snd (emit_all hist) @ unsent hist = map fst hist"
    proof (rule snoc.IH)
      fix pre ev' ok' post
      assume "hist = pre @ (ev', ok') # post"
      then show "length (unsent pre) < proxyRingCap" using snoc.prems [of pre ev' ok' "post @ [c]"] by simp
    qed
    have "newest proxyRingCap (unsent hist @ [ev]) = unsent hist @ [ev]" using small by (simp add: newest_def)
    then have "snd (emit_all (hist @ [c])) = (if ok then snd (emit_all hist) @ unsent hist @ [ev] else snd (emit_all hist))"
      using emit_newest [of ev ok "unsent hist"] emit_all_buf [of hist]
      by (cases ok) (simp_all add: emit_all_def emit_step_def c case_prod_beta)
    with IH show ?case by (simp add: unsent_snoc c)
  qed
  moreover have "length (unsent hist) \<le> proxyRingCap"
  proof (cases hist rule: rev_cases)
    case (snoc pre c)
    with assms [of pre "fst c" "snd c" "[]"] show ?thesis by (cases c) (simp add: unsent_snoc)
  qed (simp add: unsent_def)
  ultimately show ?thesis by (simp add: emit_all_buf newest_def)
qed

section \<open>Witnesses\<close>

definition one_exchange :: "string \<Rightarrow> (string \<times> bool) list \<Rightarrow> exchange" where
  "one_exchange ctype chunks = \<lparr>ex_prefix = ''anthropic'', ex_request_header = (\<lambda>_. []), ex_request_body = [],
     ex_response_header = (\<lambda>k. if k = ''Content-Type'' then ctype else if k = ''request-id'' then ''r'' else []),
     ex_chunks = chunks, ex_start_ms = 1, ex_start_nano = 1, ex_ttft_ms = 0, ex_duration_ms = 2, ex_seq = 0\<rparr>"

definition one_std :: proxy_std where
  "one_std = \<lparr>px_event = (\<lambda>_. None), px_body = (\<lambda>_. Some \<lparr>bj_id = ''i'', bj_model = ''m'', bj_usage = None\<rparr>),
     px_model = (\<lambda>_. None), px_sha1 = (\<lambda>_. []), px_sha256 = (\<lambda>_. [])\<rparr>"

theorem proxy_accounting_ignores_chunking_witness:
  "let x = one_exchange ''text/event-stream'' [(''da'', True), (''ta:'', True)]
   in serve_exchange one_std ''d'' x = serve_exchange one_std ''d'' (x\<lparr>ex_chunks := [(''data:'', True)]\<rparr>) \<and>
      fst (serve_exchange one_std ''d'' x) = ''data:''"
proof -
  let ?x = "one_exchange ''text/event-stream'' [(''da'', True), (''ta:'', True)]"
  have x: "list_all snd (ex_chunks ?x)" "str_contains (ex_response_header ?x ''Content-Type'') ''text/event-stream''"
    "concat (map fst (ex_chunks ?x)) = ''data:''"
    by (simp_all add: one_exchange_def str_contains_def HasPrefix_def)
  show ?thesis unfolding Let_def
    by (rule proxy_accounting_ignores_chunking [OF x(1) disjI1, OF x(2), of one_std "''d''", unfolded x(3)])
qed

definition one_entry :: claude_entry where
  "one_entry = \<lparr>ce_type = ''assistant'', ce_uuid = [], ce_request_id = ''r'', ce_timestamp = [], ce_cwd = [], ce_git_branch = [],
     ce_session_id = [], ce_version = [], ce_message_id = ''i'', ce_model = ''m'', ce_input_tokens = 1, ce_output_tokens = 1,
     ce_cache_read_tokens = 0, ce_cache_creation_tokens = 0, ce_ephemeral_1h = 0, ce_ephemeral_5m = 0\<rparr>"

definition one_claude :: claude_std where
  "one_claude = \<lparr>cl_unmarshal = (\<lambda>_. Some one_entry), cl_time = (\<lambda>_. Some 5)\<rparr>"

theorem proxy_and_log_share_a_row_witness:
  "\<exists>logged. parseLine one_claude ''\"assistant\"'' ''d'' = Some logged \<and>
     ev_event_id (snd (serve_exchange one_std ''d'' (one_exchange [] [(''b'', True)]))) = ev_event_id logged"
proof -
  let ?x = "one_exchange [] [(''b'', True)]"
  have trim: "TrimSpace ''\"assistant\"'' = ''\"assistant\"''"
    by (rule TrimSpace_id) (simp add: go_spaces_def HasPrefix_def)
  then obtain logged where l: "parseLine one_claude ''\"assistant\"'' ''d'' = Some logged"
    by (simp add: parseLine_def Let_def one_claude_def one_entry_def str_contains_def HasPrefix_def i64_def)
  obtain u where ob: "observed one_std (snd (relay one_std (ex_chunks ?x) (newUsageObserver
      (str_contains (ex_response_header ?x ''Content-Type'') ''text/event-stream'')))) = (u, ''m'', ''i'')"
    by (simp add: one_exchange_def one_std_def newUsageObserver_def feed_def observed_def str_contains_def
        proxyCaptureMax_def or_else_def merge_opt_def Let_def)
  have "ev_event_id (snd (serve_exchange one_std ''d'' ?x)) = ev_event_id logged"
    by (rule proxy_and_log_share_a_row [where msgID = "''i''" and reqID = "''r''" and e = one_entry, OF _ _ _ _ ob _ _ _ l,
          THEN conjunct1])
      (simp_all add: one_exchange_def one_claude_def one_entry_def)
  with l show ?thesis by blast
qed

theorem proxy_ring_loses_nothing_witness:
  "let hist = [(zero_event, False), (zero_event\<lparr>ev_ts := 1\<rparr>, True), (zero_event\<lparr>ev_ts := 2\<rparr>, False)]
   in snd (emit_all hist) @ fst (emit_all hist) = map fst hist \<and> length (fst (emit_all hist)) = 1"
proof -
  let ?h = "[(zero_event, False), (zero_event\<lparr>ev_ts := 1\<rparr>, True), (zero_event\<lparr>ev_ts := 2\<rparr>, False)]"
  have small: "length (unsent pre) < proxyRingCap" if "?h = pre @ (ev, ok) # post" for pre ev ok post
  proof -
    have "length ?h = length (pre @ (ev, ok) # post)" using that by (rule arg_cong)
    then have "length pre \<le> 3" by simp
    moreover have "length (unsent pre) \<le> length pre"
      unfolding unsent_def using length_takeWhile_le [of _ "rev pre"] by simp
    ultimately show ?thesis by (simp add: proxyRingCap_def)
  qed
  have "fst (emit_all ?h) = newest proxyRingCap (unsent ?h) \<and> snd (emit_all ?h) @ fst (emit_all ?h) = map fst ?h"
    by (rule proxy_ring_loses_nothing) (rule small)
  moreover have "length (newest proxyRingCap (unsent ?h)) = 1" by (simp add: unsent_def newest_def proxyRingCap_def)
  ultimately show ?thesis unfolding Let_def by metis
qed

end
