(* ===== verification/Site_Auth.thy ===== *)
theory Site_Auth
  imports Sql_Table Go_Strings
begin

text \<open>
  \<open>internal/siteauth/auth.go\<close> and \<open>http.go\<close>: the owner's browser sign-in. Login codes, sessions,
  passkey challenges and credentials are tables of the authentication database; the rate limiter is in
  memory. SHA-256, the JSON codecs, the Unicode part of \<open>strings.ToUpper\<close> and the WebAuthn library are
  parameters; what the random source, the clock and the database driver do in one call is its input.
  An instant is in nanoseconds since Go's zero time.
\<close>

section \<open>Time\<close>

definition Second :: int where "Second = 10 ^ 9"
definition Minute :: int where "Minute = 60 * Second"
definition Hour :: int where "Hour = 60 * Minute"

definition Unix :: "int \<Rightarrow> int" where "Unix t = t div Second - 62135596800"
definition time_Unix :: "int \<Rightarrow> int" where "time_Unix s = (s + 62135596800) * Second"

definition sessionLifetime :: int where "sessionLifetime = 30 * 24 * Hour"
definition challengeLifetime :: int where "challengeLifetime = 5 * Minute"

section \<open>Tokens and codes\<close>

definition byte_bits :: "char \<Rightarrow> bool list" where
  "byte_bits c = map (bit (of_char c :: nat)) [7, 6, 5, 4, 3, 2, 1, 0]"

text \<open>Groups of \<open>n\<close> bits, the last one padded with zeros.\<close>

function bit_groups :: "nat \<Rightarrow> bool list \<Rightarrow> nat list" where
  "bit_groups n bs =
     (if bs = [] \<or> n = 0 then []
      else foldl (\<lambda>v b. 2 * v + of_bool b) 0 (take n (bs @ replicate n False)) # bit_groups n (drop n bs))"
  by auto
termination by (relation "measure (length \<circ> snd)") auto

declare bit_groups.simps [simp del]

definition base32_alphabet :: string where "base32_alphabet = ''ABCDEFGHIJKLMNOPQRSTUVWXYZ234567''"

definition base64url_alphabet :: string where
  "base64url_alphabet = ''ABCDEFGHIJKLMNOPQRSTUVWXYZabcdefghijklmnopqrstuvwxyz0123456789-_''"

definition radix_text :: "nat \<Rightarrow> string \<Rightarrow> string \<Rightarrow> string" where
  "radix_text n alphabet bytes = map ((!) alphabet) (bit_groups n (concat (map byte_bits bytes)))"

definition base32 :: "string \<Rightarrow> string" where "base32 = radix_text 5 base32_alphabet"
definition base64url :: "string \<Rightarrow> string" where "base64url = radix_text 6 base64url_alphabet"

datatype auth_error = AuDenied | AuLifetime | AuRandom | AuIO | AuConflict | AuJSON | AuUnavailable

definition randomToken :: "string option \<Rightarrow> auth_error + string" where
  "randomToken bytes = (case bytes of None \<Rightarrow> Inl AuRandom | Some b \<Rightarrow> Inr (base64url b))"

definition ascii_upper :: "char \<Rightarrow> char" where
  "ascii_upper c = (if CHR ''a'' \<le> c \<and> c \<le> CHR ''z'' then char_of (of_char c - 32 :: nat) else c)"

definition ToUpper :: "(string \<Rightarrow> string) \<Rightarrow> string \<Rightarrow> string" where
  "ToUpper unicode s = (if list_all (\<lambda>c. (of_char c :: nat) < 128) s then map ascii_upper s else unicode s)"

definition normalizeCode :: "(string \<Rightarrow> string) \<Rightarrow> string \<Rightarrow> string" where
  "normalizeCode unicode s = ToUpper unicode (filter (\<lambda>c. c \<noteq> CHR ''-'') (TrimSpace s))"

function code_groups :: "string \<Rightarrow> string list" where
  "code_groups code = (if code = [] then [] else take 4 code # code_groups (drop 4 code))"
  by auto
termination by (relation "measure length") auto

declare code_groups.simps [simp del]

fun str_join :: "string \<Rightarrow> string list \<Rightarrow> string" where
  "str_join sep [] = []"
| "str_join sep [s] = s"
| "str_join sep (s # t # ss) = s @ sep @ str_join sep (t # ss)"

section \<open>State\<close>

record login_code =
  lc_hash :: string
  lc_expires :: int

record signin_row =
  ss_hash :: string
  ss_expires :: int
  ss_auth_at :: int

record credential_row =
  cw_id :: string
  cw_data :: string
  cw_updated :: int

record challenge_row =
  ch_hash :: string
  ch_kind :: string
  ch_session :: string
  ch_data :: string
  ch_expires :: int

record attempt =
  at_start :: int
  at_count :: int

record site_auth =
  au_origin :: string
  au_user_id :: string
  au_codes :: "login_code list"
  au_sessions :: "signin_row list"
  au_credentials :: "credential_row list"
  au_challenges :: "challenge_row list"
  au_attempts :: "(string \<times> attempt) list"

definition code_conflict :: "login_code \<Rightarrow> login_code \<Rightarrow> bool" where
  "code_conflict a b \<longleftrightarrow> lc_hash a = lc_hash b"

definition token_conflict :: "signin_row \<Rightarrow> signin_row \<Rightarrow> bool" where
  "token_conflict a b \<longleftrightarrow> ss_hash a = ss_hash b"

definition credential_conflict :: "credential_row \<Rightarrow> credential_row \<Rightarrow> bool" where
  "credential_conflict a b \<longleftrightarrow> cw_id a = cw_id b"

definition challenge_conflict :: "challenge_row \<Rightarrow> challenge_row \<Rightarrow> bool" where
  "challenge_conflict a b \<longleftrightarrow> ch_hash a = ch_hash b"

interpretation lc: unique_rows code_conflict by unfold_locales (simp add: code_conflict_def)
interpretation ss: unique_rows token_conflict by unfold_locales (simp add: token_conflict_def)
interpretation cw: unique_rows credential_conflict by unfold_locales (simp add: credential_conflict_def)
interpretation ch: unique_rows challenge_conflict by unfold_locales (simp add: challenge_conflict_def)

datatype auth_step = AsBegin | AsDeleteCodes | AsInsertCode | AsInsertSession | AsCommit | AsReadSession
  | AsDeleteSession | AsReadUser | AsReadCredentials | AsSaveCredential | AsPurgeChallenges | AsInsertChallenge
  | AsTakeChallenge

section \<open>Login codes\<close>

definition GenerateCode :: "(string \<Rightarrow> string) \<Rightarrow> (auth_step \<Rightarrow> bool) \<Rightarrow> int \<Rightarrow> string option \<Rightarrow> int \<Rightarrow> site_auth \<Rightarrow>
    site_auth \<times> (auth_error + string)" where
  "GenerateCode digest fails ttl bytes now a =
     (if ttl \<le> 0 \<or> ttl > Hour then (a, Inl AuLifetime)
      else case bytes of
        None \<Rightarrow> (a, Inl AuRandom)
      | Some b \<Rightarrow>
          if fails AsBegin \<or> fails AsDeleteCodes \<or> fails AsInsertCode then (a, Inl AuIO)
          else case sql_insert code_conflict \<lparr>lc_hash = digest (base32 b), lc_expires = Unix (now + ttl)\<rparr>
                      (fst (sql_delete (\<lambda>_. True) (au_codes a))) of
            None \<Rightarrow> (a, Inl AuConflict)
          | Some codes \<Rightarrow>
              if fails AsCommit then (a, Inl AuIO)
              else (a\<lparr>au_codes := codes\<rparr>, Inr (str_join ''-'' (code_groups (base32 b)))))"

definition insert_session :: "(string \<Rightarrow> string) \<Rightarrow> string \<Rightarrow> int \<Rightarrow> int \<Rightarrow> signin_row list \<Rightarrow> signin_row list option" where
  "insert_session digest token now1 now2 t =
     sql_insert token_conflict \<lparr>ss_hash = digest token, ss_expires = Unix (now1 + sessionLifetime), ss_auth_at = Unix now2\<rparr> t"

text \<open>The clock is read when the code is deleted and twice for the session.\<close>

definition consumeCode :: "(string \<Rightarrow> string) \<Rightarrow> (string \<Rightarrow> string) \<Rightarrow> (auth_step \<Rightarrow> bool) \<Rightarrow> string option \<Rightarrow> int \<Rightarrow> int \<Rightarrow> int \<Rightarrow>
    string \<Rightarrow> site_auth \<Rightarrow> site_auth \<times> (auth_error + string)" where
  "consumeCode digest unicode fails bytes now1 now2 now3 code a =
     (case randomToken bytes of
        Inl e \<Rightarrow> (a, Inl e)
      | Inr token \<Rightarrow>
          if fails AsBegin \<or> fails AsDeleteCodes then (a, Inl AuIO)
          else let (codes, n) = sql_delete (\<lambda>c. lc_hash c = digest (normalizeCode unicode code) \<and> lc_expires c > Unix now1) (au_codes a)
            in if n \<noteq> 1 then (a, Inl AuDenied)
               else if fails AsInsertSession then (a, Inl AuIO)
               else case insert_session digest token now2 now3 (au_sessions a) of
                 None \<Rightarrow> (a, Inl AuConflict)
               | Some sessions \<Rightarrow>
                   if fails AsCommit then (a, Inl AuIO)
                   else (a\<lparr>au_codes := codes, au_sessions := sessions\<rparr>, Inr token))"

definition newSession :: "(string \<Rightarrow> string) \<Rightarrow> (auth_step \<Rightarrow> bool) \<Rightarrow> string option \<Rightarrow> int \<Rightarrow> int \<Rightarrow> site_auth \<Rightarrow>
    site_auth \<times> (auth_error + string)" where
  "newSession digest fails bytes now1 now2 a =
     (case randomToken bytes of
        Inl e \<Rightarrow> (a, Inl e)
      | Inr token \<Rightarrow>
          if fails AsInsertSession then (a, Inl AuIO)
          else case insert_session digest token now1 now2 (au_sessions a) of
            None \<Rightarrow> (a, Inl AuConflict)
          | Some sessions \<Rightarrow> (a\<lparr>au_sessions := sessions\<rparr>, Inr token))"

section \<open>Credentials\<close>

text \<open>What the program reads of a \<open>webauthn.Credential\<close>; \<open>wc_rest\<close> stands for its other fields.\<close>

record credential =
  wc_id :: string
  wc_clone_warning :: bool
  wc_rest :: string

record auth_user =
  us_id :: string
  us_credentials :: "credential list"

text \<open>The WebAuthn library and the codecs. \<open>None\<close> is an error; a finished ceremony without a credential counts
  as one. The options a ceremony begins with go to the browser unread and are left out.\<close>

record 'd webauthn =
  wa_decode_id :: "string \<Rightarrow> string option"
  wa_encode_id :: "string \<Rightarrow> string"
  wa_marshal_credential :: "credential \<Rightarrow> string option"
  wa_unmarshal_credential :: "string \<Rightarrow> credential option"
  wa_marshal_data :: "'d \<Rightarrow> string option"
  wa_unmarshal_data :: "string \<Rightarrow> 'd option"
  wa_begin_registration :: "auth_user \<Rightarrow> 'd option"
  wa_finish_registration :: "auth_user \<Rightarrow> 'd \<Rightarrow> string \<Rightarrow> credential option"
  wa_begin_login :: "'d option"
  wa_finish_login :: "(string \<Rightarrow> string \<Rightarrow> auth_user option) \<Rightarrow> 'd \<Rightarrow> string \<Rightarrow> credential option"

fun decode_all :: "('a \<Rightarrow> 'b option) \<Rightarrow> 'a list \<Rightarrow> 'b list option" where
  "decode_all f [] = Some []"
| "decode_all f (x # xs) =
     (case f x of None \<Rightarrow> None | Some y \<Rightarrow> map_option ((#) y) (decode_all f xs))"

definition loadUser :: "'d webauthn \<Rightarrow> (auth_step \<Rightarrow> bool) \<Rightarrow> site_auth \<Rightarrow> auth_user option" where
  "loadUser wa fails a =
     (if fails AsReadUser then None
      else case wa_decode_id wa (au_user_id a) of
        None \<Rightarrow> None
      | Some uid \<Rightarrow>
          if fails AsReadCredentials then None
          else map_option (\<lambda>cs. \<lparr>us_id = uid, us_credentials = cs\<rparr>)
            (decode_all (wa_unmarshal_credential wa) (map cw_data (sort_key cw_id (au_credentials a)))))"

definition saveCredential :: "'d webauthn \<Rightarrow> (auth_step \<Rightarrow> bool) \<Rightarrow> int \<Rightarrow> credential \<Rightarrow> bool \<Rightarrow> site_auth \<Rightarrow>
    site_auth \<times> auth_error option" where
  "saveCredential wa fails now c insertion a =
     (case wa_marshal_credential wa c of
        None \<Rightarrow> (a, Some AuJSON)
      | Some raw \<Rightarrow>
          if fails AsSaveCredential then (a, Some AuIO)
          else if insertion then
            (case sql_insert credential_conflict \<lparr>cw_id = wa_encode_id wa (wc_id c), cw_data = raw, cw_updated = Unix now\<rparr>
                (au_credentials a) of
               None \<Rightarrow> (a, Some AuConflict)
             | Some t \<Rightarrow> (a\<lparr>au_credentials := t\<rparr>, None))
          else let (t, n) = sql_update (\<lambda>w. cw_id w = wa_encode_id wa (wc_id c))
                 (\<lambda>w. w\<lparr>cw_data := raw, cw_updated := Unix now\<rparr>) (au_credentials a)
            in (a\<lparr>au_credentials := t\<rparr>, if n \<noteq> 1 then Some AuDenied else None))"

section \<open>Challenges\<close>

definition storeChallenge :: "(string \<Rightarrow> string) \<Rightarrow> 'd webauthn \<Rightarrow> (auth_step \<Rightarrow> bool) \<Rightarrow> string option \<Rightarrow> int \<Rightarrow> int \<Rightarrow>
    string \<Rightarrow> string \<Rightarrow> 'd \<Rightarrow> site_auth \<Rightarrow> site_auth \<times> (auth_error + string)" where
  "storeChallenge digest wa fails bytes now1 now2 kind binding data a =
     (case wa_marshal_data wa data of
        None \<Rightarrow> (a, Inl AuJSON)
      | Some raw \<Rightarrow>
          (case randomToken bytes of
             Inl e \<Rightarrow> (a, Inl e)
           | Inr token \<Rightarrow>
               if fails AsPurgeChallenges then (a, Inl AuIO)
               else let a1 = a\<lparr>au_challenges := fst (sql_delete (\<lambda>c. ch_expires c \<le> Unix now1) (au_challenges a))\<rparr>
                 in if fails AsInsertChallenge then (a1, Inl AuIO)
                    else case sql_insert challenge_conflict
                        \<lparr>ch_hash = digest token, ch_kind = kind, ch_session = binding, ch_data = raw,
                         ch_expires = Unix (now2 + challengeLifetime)\<rparr> (au_challenges a1) of
                      None \<Rightarrow> (a1, Inl AuConflict)
                    | Some t \<Rightarrow> (a1\<lparr>au_challenges := t\<rparr>, Inr token)))"

definition takeChallenge :: "(string \<Rightarrow> string) \<Rightarrow> 'd webauthn \<Rightarrow> (auth_step \<Rightarrow> bool) \<Rightarrow> int \<Rightarrow> string \<Rightarrow> string \<Rightarrow> string \<Rightarrow>
    site_auth \<Rightarrow> site_auth \<times> (auth_error + 'd)" where
  "takeChallenge digest wa fails now token kind binding a =
     (let P = (\<lambda>c. ch_hash c = digest token \<and> ch_kind c = kind \<and> ch_session c = binding \<and> ch_expires c > Unix now)
      in if fails AsTakeChallenge then (a, Inl AuIO)
         else case sql_select P (au_challenges a) of
           None \<Rightarrow> (a, Inl AuUnavailable)
         | Some c \<Rightarrow>
             (a\<lparr>au_challenges := fst (sql_delete P (au_challenges a))\<rparr>,
              case wa_unmarshal_data wa (ch_data c) of None \<Rightarrow> Inl AuJSON | Some d \<Rightarrow> Inr d))"

section \<open>Rate limit\<close>

definition attempts_max :: nat where "attempts_max = 4096"
definition attempts_per_minute :: int where "attempts_per_minute = 20"

text \<open>A lookup of a missing key reads the zero \<open>attempt\<close>, whose \<open>start.IsZero()\<close> holds.\<close>

definition attempt_of :: "(string \<times> attempt) list \<Rightarrow> string \<Rightarrow> attempt" where
  "attempt_of m key = (case map_of m key of None \<Rightarrow> \<lparr>at_start = 0, at_count = 0\<rparr> | Some v \<Rightarrow> v)"

definition put_attempt :: "string \<Rightarrow> attempt \<Rightarrow> (string \<times> attempt) list \<Rightarrow> (string \<times> attempt) list" where
  "put_attempt key v m = (key, v) # filter (\<lambda>(k, _). k \<noteq> key) m"

definition allowAttempt :: "string \<Rightarrow> int \<Rightarrow> (string \<times> attempt) list \<Rightarrow> (string \<times> attempt) list \<times> bool" where
  "allowAttempt key now m =
     (let m1 = filter (\<lambda>(_, v). \<not> now - at_start v \<ge> Minute) m;
          v = attempt_of m1 key;
          fresh = (at_start v = 0)
      in if fresh \<and> length m1 \<ge> attempts_max then (m1, False)
         else let v1 = (if fresh then v\<lparr>at_start := now\<rparr> else v);
                  v2 = v1\<lparr>at_count := at_count v1 + 1\<rparr>
           in (put_attempt key v2 m1, at_count v2 \<le> attempts_per_minute))"

end
