(* ===== verification/Site_Auth_Http.thy ===== *)
theory Site_Auth_Http
  imports Site_Auth
begin

text \<open>
  \<open>internal/siteauth/http.go\<close>: the sign-in endpoints, each handler from its request to the reply's status
  and cookies and the new state. The decoder of the login-code body and \<open>net.SplitHostPort\<close> are
  parameters. \<open>call_env\<close> is what the surroundings do during one call: the clock, read in order, the random
  source, the driver's refusals and the WebAuthn library.
\<close>

record auth_request =
  rq_origin :: string
  rq_remote :: string
  rq_session :: "string option"
  rq_challenge :: "string option"
  rq_body :: string

record auth_reply =
  ap_status :: int
  ap_cookies :: "(string \<times> string \<times> int) list"

record auth_cfg =
  cf_digest :: "string \<Rightarrow> string"
  cf_unicode :: "string \<Rightarrow> string"
  cf_split_host :: "string \<Rightarrow> string option"
  cf_decode_code :: "string \<Rightarrow> string option"

record 'd call_env =
  ce_fails :: "auth_step \<Rightarrow> bool"
  ce_clock :: "nat \<Rightarrow> int"
  ce_random :: "string option"
  ce_webauthn :: "'d webauthn"

definition sessionCookie :: string where "sessionCookie = ''__Host-omnitoken''"
definition challengeCookie :: string where "challengeCookie = ''__Host-omnitoken-challenge''"

definition auth_failure :: "int \<Rightarrow> auth_reply" where
  "auth_failure status = \<lparr>ap_status = status, ap_cookies = []\<rparr>"

definition clear_cookie :: "string \<Rightarrow> string \<times> string \<times> int" where
  "clear_cookie name = (name, [], -1)"

section \<open>Sessions\<close>

definition auth_session :: "(string \<Rightarrow> string) \<Rightarrow> (auth_step \<Rightarrow> bool) \<Rightarrow> int \<Rightarrow> auth_request \<Rightarrow> site_auth \<Rightarrow> (string \<times> int) option" where
  "auth_session digest fails now req a =
     (case rq_session req of
        None \<Rightarrow> None
      | Some v \<Rightarrow>
          if length v \<noteq> 43 \<or> fails AsReadSession then None
          else map_option (\<lambda>s. (digest v, ss_auth_at s))
            (sql_select (\<lambda>s. ss_hash s = digest v \<and> ss_expires s > Unix now) (au_sessions a)))"

definition Authenticated :: "(string \<Rightarrow> string) \<Rightarrow> (auth_step \<Rightarrow> bool) \<Rightarrow> int \<Rightarrow> auth_request \<Rightarrow> site_auth \<Rightarrow> bool" where
  "Authenticated digest fails now req a \<longleftrightarrow> auth_session digest fails now req a \<noteq> None"

text \<open>\<open>None\<close>: the request reaches the handler behind it; otherwise it is sent to the sign-in page.\<close>

definition Protect :: "(string \<Rightarrow> string) \<Rightarrow> (auth_step \<Rightarrow> bool) \<Rightarrow> int \<Rightarrow> auth_request \<Rightarrow> site_auth \<Rightarrow> auth_reply option" where
  "Protect digest fails now req a = (if \<not> Authenticated digest fails now req a then Some (auth_failure 303) else None)"

text \<open>The error of the \<open>DELETE\<close> that rotates a session is ignored.\<close>

definition delete_session :: "(auth_step \<Rightarrow> bool) \<Rightarrow> string \<Rightarrow> site_auth \<Rightarrow> site_auth" where
  "delete_session fails hash a =
     (if fails AsDeleteSession then a
      else a\<lparr>au_sessions := fst (sql_delete (\<lambda>s. ss_hash s = hash) (au_sessions a))\<rparr>)"

definition rotate_session :: "auth_cfg \<Rightarrow> 'd call_env \<Rightarrow> int \<Rightarrow> auth_request \<Rightarrow> site_auth \<Rightarrow> site_auth" where
  "rotate_session cfg env now req a =
     (case auth_session (cf_digest cfg) (ce_fails env) now req a of
        None \<Rightarrow> a
      | Some (hash, _) \<Rightarrow> delete_session (ce_fails env) hash a)"

definition signed_in :: "string \<Rightarrow> auth_reply" where
  "signed_in token = \<lparr>ap_status = 200, ap_cookies = [(sessionCookie, token, sessionLifetime div Second)]\<rparr>"

section \<open>Login codes and logout\<close>

definition code_handler :: "auth_cfg \<Rightarrow> 'd call_env \<Rightarrow> auth_request \<Rightarrow> site_auth \<Rightarrow> site_auth \<times> auth_reply" where
  "code_handler cfg env req a =
     (case cf_decode_code cfg (rq_body req) of
        None \<Rightarrow> (a, auth_failure 400)
      | Some code \<Rightarrow>
          (case consumeCode (cf_digest cfg) (cf_unicode cfg) (ce_fails env) (ce_random env)
              (ce_clock env 1) (ce_clock env 2) (ce_clock env 3) code a of
             (a1, Inl _) \<Rightarrow> (a1, auth_failure 401)
           | (a1, Inr token) \<Rightarrow> (rotate_session cfg env (ce_clock env 4) req a1, signed_in token)))"

definition logout_handler :: "auth_cfg \<Rightarrow> 'd call_env \<Rightarrow> auth_request \<Rightarrow> site_auth \<Rightarrow> site_auth \<times> auth_reply" where
  "logout_handler cfg env req a =
     (case auth_session (cf_digest cfg) (ce_fails env) (ce_clock env 1) req a of
        None \<Rightarrow> (a, auth_failure 401)
      | Some (hash, _) \<Rightarrow>
          if ce_fails env AsDeleteSession then (a, auth_failure 500)
          else (delete_session (ce_fails env) hash a,
                \<lparr>ap_status = 200, ap_cookies = [clear_cookie sessionCookie, clear_cookie challengeCookie]\<rparr>))"

section \<open>Passkeys\<close>

definition recentSession :: "auth_cfg \<Rightarrow> 'd call_env \<Rightarrow> auth_request \<Rightarrow> site_auth \<Rightarrow> auth_reply + string" where
  "recentSession cfg env req a =
     (case auth_session (cf_digest cfg) (ce_fails env) (ce_clock env 1) req a of
        None \<Rightarrow> Inl (auth_failure 401)
      | Some (hash, at) \<Rightarrow>
          if ce_clock env 2 - time_Unix at > 10 * Minute then Inl (auth_failure 401) else Inr hash)"

text \<open>The cookie is cleared whether or not the challenge was there.\<close>

definition challenge_handler :: "auth_cfg \<Rightarrow> 'd call_env \<Rightarrow> int \<Rightarrow> auth_request \<Rightarrow> string \<Rightarrow> string \<Rightarrow> site_auth \<Rightarrow>
    site_auth \<times> (auth_reply + 'd)" where
  "challenge_handler cfg env now req kind binding a =
     (case rq_challenge req of
        None \<Rightarrow> (a, Inl (auth_failure 400))
      | Some v \<Rightarrow>
          (case takeChallenge (cf_digest cfg) (ce_webauthn env) (ce_fails env) now v kind binding a of
             (a1, Inl _) \<Rightarrow> (a1, Inl \<lparr>ap_status = 400, ap_cookies = [clear_cookie challengeCookie]\<rparr>)
           | (a1, Inr d) \<Rightarrow> (a1, Inr d)))"

definition challenge_reply :: "(auth_error + string) \<Rightarrow> auth_reply" where
  "challenge_reply r =
     (case r of
        Inl _ \<Rightarrow> auth_failure 500
      | Inr token \<Rightarrow> \<lparr>ap_status = 200, ap_cookies = [(challengeCookie, token, challengeLifetime div Second)]\<rparr>)"

text \<open>A reply after the challenge cookie has been cleared.\<close>

definition cleared :: "auth_reply \<Rightarrow> auth_reply" where
  "cleared r = r\<lparr>ap_cookies := clear_cookie challengeCookie # ap_cookies r\<rparr>"

definition credentials_max :: nat where "credentials_max = 10"

definition registerBegin :: "auth_cfg \<Rightarrow> 'd call_env \<Rightarrow> auth_request \<Rightarrow> site_auth \<Rightarrow> site_auth \<times> auth_reply" where
  "registerBegin cfg env req a =
     (case recentSession cfg env req a of
        Inl r \<Rightarrow> (a, r)
      | Inr hash \<Rightarrow>
          (case loadUser (ce_webauthn env) (ce_fails env) a of
             None \<Rightarrow> (a, auth_failure 500)
           | Some u \<Rightarrow>
               if length (us_credentials u) \<ge> credentials_max then (a, auth_failure 400)
               else case wa_begin_registration (ce_webauthn env) u of
                 None \<Rightarrow> (a, auth_failure 500)
               | Some data \<Rightarrow>
                   let (a1, r) = storeChallenge (cf_digest cfg) (ce_webauthn env) (ce_fails env) (ce_random env)
                         (ce_clock env 3) (ce_clock env 4) ''register'' hash data a
                   in (a1, challenge_reply r)))"

definition registerFinish :: "auth_cfg \<Rightarrow> 'd call_env \<Rightarrow> auth_request \<Rightarrow> site_auth \<Rightarrow> site_auth \<times> auth_reply" where
  "registerFinish cfg env req a =
     (case recentSession cfg env req a of
        Inl r \<Rightarrow> (a, r)
      | Inr hash \<Rightarrow>
          (case challenge_handler cfg env (ce_clock env 3) req ''register'' hash a of
             (a1, Inl r) \<Rightarrow> (a1, r)
           | (a1, Inr data) \<Rightarrow>
               (case loadUser (ce_webauthn env) (ce_fails env) a1 of
                  None \<Rightarrow> (a1, cleared (auth_failure 500))
                | Some u \<Rightarrow>
                    if length (us_credentials u) \<ge> credentials_max then (a1, cleared (auth_failure 400))
                    else case wa_finish_registration (ce_webauthn env) u data (rq_body req) of
                      None \<Rightarrow> (a1, cleared (auth_failure 400))
                    | Some c \<Rightarrow>
                        (case saveCredential (ce_webauthn env) (ce_fails env) (ce_clock env 4) c True a1 of
                           (a2, Some _) \<Rightarrow> (a2, cleared (auth_failure 500))
                         | (a2, None) \<Rightarrow> (a2, cleared \<lparr>ap_status = 200, ap_cookies = []\<rparr>)))))"

definition loginBegin :: "auth_cfg \<Rightarrow> 'd call_env \<Rightarrow> auth_request \<Rightarrow> site_auth \<Rightarrow> site_auth \<times> auth_reply" where
  "loginBegin cfg env req a =
     (case wa_begin_login (ce_webauthn env) of
        None \<Rightarrow> (a, auth_failure 500)
      | Some data \<Rightarrow>
          let (a1, r) = storeChallenge (cf_digest cfg) (ce_webauthn env) (ce_fails env) (ce_random env)
                (ce_clock env 1) (ce_clock env 2) ''login'' [] data a
          in (a1, challenge_reply r))"

text \<open>The function \<open>loginFinish\<close> hands to the library to find the user of a credential.\<close>

definition find_user :: "auth_user \<Rightarrow> string \<Rightarrow> string \<Rightarrow> auth_user option" where
  "find_user u rawID userHandle =
     (if userHandle \<noteq> us_id u then None
      else if list_ex (\<lambda>c. wc_id c = rawID) (us_credentials u) then Some u else None)"

definition loginFinish :: "auth_cfg \<Rightarrow> 'd call_env \<Rightarrow> auth_request \<Rightarrow> site_auth \<Rightarrow> site_auth \<times> auth_reply" where
  "loginFinish cfg env req a =
     (case challenge_handler cfg env (ce_clock env 1) req ''login'' [] a of
        (a1, Inl r) \<Rightarrow> (a1, r)
      | (a1, Inr data) \<Rightarrow>
          (case loadUser (ce_webauthn env) (ce_fails env) a1 of
             None \<Rightarrow> (a1, cleared (auth_failure 500))
           | Some u \<Rightarrow>
               (case wa_finish_login (ce_webauthn env) (find_user u) data (rq_body req) of
                  None \<Rightarrow> (a1, cleared (auth_failure 401))
                | Some c \<Rightarrow>
                    if wc_clone_warning c then (a1, cleared (auth_failure 401))
                    else case saveCredential (ce_webauthn env) (ce_fails env) (ce_clock env 2) c False a1 of
                      (a2, Some _) \<Rightarrow> (a2, cleared (auth_failure 500))
                    | (a2, None) \<Rightarrow>
                        (case newSession (cf_digest cfg) (ce_fails env) (ce_random env) (ce_clock env 3) (ce_clock env 4) a2 of
                           (a3, Inl _) \<Rightarrow> (a3, cleared (auth_failure 500))
                         | (a3, Inr token) \<Rightarrow>
                             (rotate_session cfg env (ce_clock env 5) req a3, cleared (signed_in token))))))"

section \<open>Routes\<close>

datatype auth_route = RtCode | RtLogout | RtRegisterBegin | RtRegisterFinish | RtLoginBegin | RtLoginFinish

definition write_guard :: "auth_cfg \<Rightarrow> 'd call_env \<Rightarrow> bool \<Rightarrow> auth_request \<Rightarrow> (site_auth \<Rightarrow> site_auth \<times> auth_reply) \<Rightarrow>
    site_auth \<Rightarrow> site_auth \<times> auth_reply" where
  "write_guard cfg env limited req handler a =
     (if rq_origin req \<noteq> au_origin a then (a, auth_failure 403)
      else if limited then
        let ip = (case cf_split_host cfg (rq_remote req) of None \<Rightarrow> rq_remote req | Some h \<Rightarrow> h);
            (m, ok) = allowAttempt ip (ce_clock env 0) (au_attempts a);
            a1 = a\<lparr>au_attempts := m\<rparr>
        in if \<not> ok then (a1, auth_failure 429) else handler a1
      else handler a)"

fun auth_serve :: "auth_cfg \<Rightarrow> 'd call_env \<Rightarrow> auth_route \<Rightarrow> auth_request \<Rightarrow> site_auth \<Rightarrow> site_auth \<times> auth_reply" where
  "auth_serve cfg env RtCode req a = write_guard cfg env True req (code_handler cfg env req) a"
| "auth_serve cfg env RtLogout req a = write_guard cfg env False req (logout_handler cfg env req) a"
| "auth_serve cfg env RtRegisterBegin req a = write_guard cfg env False req (registerBegin cfg env req) a"
| "auth_serve cfg env RtRegisterFinish req a = write_guard cfg env False req (registerFinish cfg env req) a"
| "auth_serve cfg env RtLoginBegin req a = write_guard cfg env True req (loginBegin cfg env req) a"
| "auth_serve cfg env RtLoginFinish req a = write_guard cfg env True req (loginFinish cfg env req) a"

end
