(* ===== verification/Site_Auth_Facts.thy ===== *)
theory Site_Auth_Facts
  imports Site_Auth_Http
begin

text \<open>
  What one call of the sign-in does: the text of tokens and codes, how a typed code is read back, the
  effect of each operation on the tables, and the rate limiter's accounting.
\<close>

section \<open>Texts\<close>

lemma fold_bits_less: "foldl (\<lambda>v b. 2 * v + of_bool b) (v :: nat) bs < (v + 1) * 2 ^ length bs"
proof (induction bs arbitrary: v)
  case (Cons b bs)
  have "foldl (\<lambda>v b. 2 * v + of_bool b) v (b # bs) < (2 * v + of_bool b + 1) * 2 ^ length bs"
    using Cons.IH by simp
  also have "\<dots> \<le> (2 * v + 2) * 2 ^ length bs" by (intro mult_right_mono) auto
  finally show ?case by (simp add: algebra_simps)
qed simp

lemma bit_groups_less: "v \<in> set (bit_groups n bs) \<Longrightarrow> v < 2 ^ n"
proof (induction n bs rule: bit_groups.induct)
  case (1 n bs)
  show ?case
  proof (cases "bs = [] \<or> n = 0")
    case False
    have "foldl (\<lambda>v b. 2 * v + of_bool b) (0 :: nat) (take n (bs @ replicate n False)) < 2 ^ n"
      using fold_bits_less [of 0 "take n (bs @ replicate n False)"] by (simp del: take_append)
    then show ?thesis using 1 False by (auto simp: bit_groups.simps [of n bs])
  qed (use 1 in \<open>simp add: bit_groups.simps [of n bs]\<close>)
qed

lemma length_bit_groups: "0 < n \<Longrightarrow> length (bit_groups n bs) = (length bs + n - 1) div n"
proof (induction n bs rule: bit_groups.induct)
  case (1 n bs)
  show ?case
  proof (cases "bs = []")
    case False
    then have "length (bit_groups n bs) = Suc ((length bs - n + n - 1) div n)"
      using 1 by (simp add: bit_groups.simps [of n bs])
    also have "\<dots> = (length bs + n - 1) div n"
    proof (cases "n \<le> length bs")
      case True
      then have "length bs + n - 1 = (length bs - n + n - 1) + n" using 1(2) by simp
      then show ?thesis using 1(2) by (metis div_add_self2 add.commute Suc_eq_plus1 less_not_refl)
    next
      case short: False
      then have "(n - 1) div n = 0" "(length bs + n - 1) div n = 1"
        using 1(2) \<open>bs \<noteq> []\<close> by (cases bs; auto intro!: div_nat_eqI)+
      then show ?thesis using short by simp
    qed
    finally show ?thesis .
  qed (use 1 in \<open>simp add: bit_groups.simps [of n "[]"]\<close>)
qed

lemma length_byte_bits: "length (concat (map byte_bits s)) = 8 * length s"
  by (induction s) (simp_all add: byte_bits_def)

lemma length_token: "length b = 32 \<Longrightarrow> length (base64url b) = 43"
  by (simp add: base64url_def radix_text_def length_bit_groups length_byte_bits)

lemma length_base32: "length b = 16 \<Longrightarrow> length (base32 b) = 26"
  by (simp add: base32_def radix_text_def length_bit_groups length_byte_bits)

lemma length_base32_alphabet: "length base32_alphabet = 32"
  by (simp add: base32_alphabet_def)

lemma base32_chars: "c \<in> set (base32 b) \<Longrightarrow> c \<in> set base32_alphabet"
proof -
  assume "c \<in> set (base32 b)"
  then obtain v where "v \<in> set (bit_groups 5 (concat (map byte_bits b)))" "c = base32_alphabet ! v"
    by (auto simp: base32_def radix_text_def)
  moreover from this have "v < length base32_alphabet"
    using bit_groups_less [of v 5 "concat (map byte_bits b)"] length_base32_alphabet by simp
  ultimately show ?thesis by simp
qed

lemma base32_alphabet_chars: "c \<in> set base32_alphabet \<Longrightarrow> printable c \<and> ascii_upper c = c \<and> c \<noteq> CHR ''-''"
proof -
  have "list_all (\<lambda>c. printable c \<and> ascii_upper c = c \<and> c \<noteq> CHR ''-'') base32_alphabet"
    by (simp add: base32_alphabet_def printable_def ascii_upper_def less_eq_char_def)
  then show "c \<in> set base32_alphabet \<Longrightarrow> printable c \<and> ascii_upper c = c \<and> c \<noteq> CHR ''-''"
    by (simp only: list_all_iff) blast
qed

lemma ascii_upper_printable: "printable (ascii_upper c) \<Longrightarrow> printable c"
  by (auto simp: ascii_upper_def printable_def less_eq_char_def split: if_splits)

section \<open>Reading a typed code\<close>

text \<open>A code typed with dashes anywhere, in any case, with white space around it.\<close>

definition types_code :: "string \<Rightarrow> string \<Rightarrow> bool" where
  "types_code code s \<longleftrightarrow>
     (\<exists>pre t post. s = pre @ t @ post \<and> list_all ascii_space pre \<and> list_all ascii_space post \<and>
        map ascii_upper (filter (\<lambda>c. c \<noteq> CHR ''-'') t) = code)"

lemma normalizeCode_typed:
  assumes "types_code (base32 b) s" "b \<noteq> []"
  shows "normalizeCode unicode s = base32 b"
proof -
  from assms(1) obtain pre t post where s: "s = pre @ t @ post" "list_all ascii_space pre" "list_all ascii_space post"
    and t: "map ascii_upper (filter (\<lambda>c. c \<noteq> CHR ''-'') t) = base32 b" by (auto simp: types_code_def)
  have p: "printable c" if "c \<in> set t" for c
  proof (cases "c = CHR ''-''")
    case False
    then have "ascii_upper c \<in> set (base32 b)" using that by (auto simp flip: t)
    then show ?thesis using base32_chars base32_alphabet_chars ascii_upper_printable by blast
  qed (simp add: printable_def)
  have "8 \<le> 8 * length b" using assms(2) by (cases b) simp_all
  then have "length (base32 b) > 0" by (simp add: base32_def radix_text_def length_bit_groups length_byte_bits div_greater_zero_iff)
  then have "t \<noteq> []" using t by auto
  then have "TrimSpace s = t" unfolding s(1) using s(2,3) p by (intro TrimSpace_around) auto
  then show ?thesis using t p by (auto simp: normalizeCode_def ToUpper_def list_all_iff printable_def)
qed

lemma shown_code: "filter (\<lambda>c. c \<noteq> CHR ''-'') (str_join ''-'' (code_groups s)) = filter (\<lambda>c. c \<noteq> CHR ''-'') s"
proof (induction s rule: code_groups.induct)
  case (1 s)
  show ?case
  proof (cases "s = []")
    case False
    have "filter (\<lambda>c. c \<noteq> CHR ''-'') (str_join ''-'' (g # gs)) =
        filter (\<lambda>c. c \<noteq> CHR ''-'') g @ filter (\<lambda>c. c \<noteq> CHR ''-'') (str_join ''-'' gs)" for g gs
      by (cases gs) auto
    then have "filter (\<lambda>c. c \<noteq> CHR ''-'') (str_join ''-'' (code_groups s)) =
        filter (\<lambda>c. c \<noteq> CHR ''-'') (take 4 s) @ filter (\<lambda>c. c \<noteq> CHR ''-'') (drop 4 s)"
      using 1 False by (simp add: code_groups.simps [of s])
    then show ?thesis by (metis append_take_drop_id filter_append)
  qed (simp add: code_groups.simps)
qed

lemma shown_base32: "filter (\<lambda>c. c \<noteq> CHR ''-'') (str_join ''-'' (code_groups (base32 b))) = base32 b"
  unfolding shown_code using base32_chars base32_alphabet_chars by (auto simp: filter_id_conv)

section \<open>The rate limiter\<close>

definition attempts_ok :: "(string \<times> attempt) list \<Rightarrow> bool" where
  "attempts_ok m \<longleftrightarrow> distinct (map fst m) \<and> length m \<le> attempts_max \<and> (\<forall>(k, v)\<in>set m. at_start v \<noteq> 0 \<and> 0 \<le> at_count v)"

definition alive :: "int \<Rightarrow> (string \<times> attempt) list \<Rightarrow> (string \<times> attempt) list" where
  "alive now m = filter (\<lambda>(_, v). \<not> now - at_start v \<ge> Minute) m"

lemma map_of_filter:
  "distinct (map fst m) \<Longrightarrow> map_of (filter (\<lambda>(k, v). P k v) m) k = (case map_of m k of None \<Rightarrow> None | Some v \<Rightarrow> if P k v then Some v else None)"
proof (induction m)
  case (Cons kv m)
  then show ?case by (cases kv) (auto split: option.splits dest: map_of_SomeD simp: rev_image_eqI)
qed simp

lemma map_of_alive:
  "attempts_ok m \<Longrightarrow> map_of (alive now m) k = (case map_of m k of None \<Rightarrow> None | Some v \<Rightarrow> if now - at_start v < Minute then Some v else None)"
  by (simp add: alive_def attempts_ok_def map_of_filter not_le)

lemma map_of_put: "map_of (put_attempt key v m) k = (if k = key then Some v else map_of m k)"
proof -
  have "map_of (filter (\<lambda>(k, _). k \<noteq> key) m) k = map_of m k" if "k \<noteq> key"
    using that by (induction m) auto
  then show ?thesis by (simp add: put_attempt_def)
qed

lemma alive_ok: "attempts_ok m \<Longrightarrow> attempts_ok (alive now m)"
  unfolding attempts_ok_def alive_def
  by (auto simp: distinct_map inj_on_def intro: order_trans [OF length_filter_le])

lemma put_ok:
  assumes "attempts_ok m" "map_of m key \<noteq> None \<or> length m < attempts_max" "at_start v \<noteq> 0" "0 \<le> at_count v"
  shows "attempts_ok (put_attempt key v m)"
proof -
  have "length (filter (\<lambda>(k, _). k \<noteq> key) m) < length m" if "map_of m key \<noteq> None"
    using that by (intro length_filter_less [of "(key, the (map_of m key))"]) (auto dest: map_of_SomeD)
  moreover have "length (filter (\<lambda>(k, _). k \<noteq> key) m) \<le> length m" by (rule length_filter_le)
  moreover have "distinct (map fst (filter (\<lambda>(k, _). k \<noteq> key) m))"
    using assms(1) by (auto simp: attempts_ok_def distinct_map inj_on_def)
  ultimately have "Suc (length (filter (\<lambda>(k, _). k \<noteq> key) m)) \<le> attempts_max"
    using assms(1,2) le_less_trans [OF length_filter_le, of m attempts_max "\<lambda>(k, _). k \<noteq> key"]
    by (cases "map_of m key = None") (auto simp: attempts_ok_def)
  then show ?thesis
    using assms \<open>distinct (map fst (filter (\<lambda>(k, _). k \<noteq> key) m))\<close> by (auto simp: attempts_ok_def put_attempt_def)
qed

text \<open>One call: a key whose minute has passed starts anew, unless the table is full.\<close>

lemma allowAttempt_cases:
  assumes "attempts_ok m" "now \<noteq> 0"
  obtains (full) "map_of (alive now m) key = None" "allowAttempt key now m = (alive now m, False)"
  | (first) "map_of (alive now m) key = None" "length (alive now m) < attempts_max"
      "allowAttempt key now m = (put_attempt key \<lparr>at_start = now, at_count = 1\<rparr> (alive now m), True)"
  | (again) v where "map_of (alive now m) key = Some v"
      "allowAttempt key now m = (put_attempt key (v\<lparr>at_count := at_count v + 1\<rparr>) (alive now m), at_count v + 1 \<le> attempts_per_minute)"
proof (cases "map_of (alive now m) key")
  case None
  then show thesis
    using full first
    by (cases "attempts_max \<le> length (alive now m)")
      (simp_all add: allowAttempt_def Let_def attempt_of_def attempts_per_minute_def flip: alive_def)
next
  case (Some v)
  then have "at_start v \<noteq> 0" using alive_ok [OF assms(1)] by (force simp: attempts_ok_def dest: map_of_SomeD)
  then show thesis
    using again [OF Some] Some by (simp add: allowAttempt_def Let_def attempt_of_def flip: alive_def)
qed

lemma allowAttempt_ok:
  assumes "attempts_ok m" "now \<noteq> 0" shows "attempts_ok (fst (allowAttempt key now m))"
  using assms
proof (cases rule: allowAttempt_cases [where key = key])
  case (again v)
  then have "at_start v \<noteq> 0" "0 \<le> at_count v"
    using alive_ok [OF assms(1), of now] by (force simp: attempts_ok_def dest: map_of_SomeD)+
  then show ?thesis using again assms by (auto intro!: put_ok alive_ok)
qed (use assms in \<open>auto intro!: put_ok alive_ok\<close>)

text \<open>How many more attempts of a key can pass before \<open>hi\<close>, one minute after \<open>lo\<close>.\<close>

definition budget :: "int \<Rightarrow> (string \<times> attempt) list \<Rightarrow> string \<Rightarrow> nat" where
  "budget lo m key =
     (case map_of m key of
        None \<Rightarrow> 20
      | Some v \<Rightarrow> nat (20 - at_count v) + (if at_start v < lo then 20 else 0))"

lemma budget_step:
  assumes "attempts_ok m" "now \<noteq> 0" "lo \<le> now" "now < lo + Minute"
  shows "budget lo (fst (allowAttempt k now m)) key + of_bool (k = key \<and> snd (allowAttempt k now m)) \<le> budget lo m key"
proof -
  note alv = map_of_alive [OF assms(1), of now key]
  have dead: "20 \<le> budget lo m key" if "map_of (alive now m) key = None"
    using that assms(3,4) unfolding alv budget_def by (auto split: option.splits if_splits)
  have still: "map_of m key = Some v" if "map_of (alive now m) key = Some v" for v
    using that unfolding alv by (auto split: option.splits if_splits)
  have gone: "budget lo (alive now m) key \<le> budget lo m key"
    using dead still by (cases "map_of (alive now m) key") (auto simp: budget_def)
  show ?thesis
    using assms(1,2)
  proof (cases rule: allowAttempt_cases [where key = k])
    case full
    then show ?thesis using gone by simp
  next
    case first
    then show ?thesis using gone dead assms(3) by (cases "k = key") (auto simp: budget_def map_of_put)
  next
    case (again v)
    then show ?thesis
      using gone still by (cases "k = key") (auto simp: budget_def map_of_put attempts_per_minute_def)
  qed
qed

fun attempt_log :: "(string \<times> attempt) list \<Rightarrow> (string \<times> int) list \<Rightarrow> (string \<times> int \<times> bool) list" where
  "attempt_log m [] = []"
| "attempt_log m ((key, now) # cs) = (key, now, snd (allowAttempt key now m)) # attempt_log (fst (allowAttempt key now m)) cs"

definition passed :: "string \<Rightarrow> int \<Rightarrow> int \<Rightarrow> (string \<times> int \<times> bool) list \<Rightarrow> nat" where
  "passed key lo hi log = length (filter (\<lambda>(k, t, ok). k = key \<and> ok \<and> lo \<le> t \<and> t < hi) log)"

lemma attempt_log_times: "map (\<lambda>(k, t, ok). (k, t)) (attempt_log m cs) = cs"
  by (induction cs arbitrary: m) auto

lemma passed_later:
  assumes "\<forall>(k, t)\<in>set cs. hi \<le> t" shows "passed key lo hi (attempt_log m cs) = 0"
proof -
  have "set cs = (\<lambda>(k, t, ok). (k, t)) ` set (attempt_log m cs)" by (subst attempt_log_times [of m cs, symmetric]) simp
  then show ?thesis using assms by (fastforce simp: passed_def filter_empty_conv)
qed

lemma passed_budget:
  "attempts_ok m \<Longrightarrow> sorted (map snd cs) \<Longrightarrow> \<forall>(k, t)\<in>set cs. t \<noteq> 0 \<and> lo \<le> t \<Longrightarrow>
     passed key lo (lo + Minute) (attempt_log m cs) \<le> budget lo m key"
proof (induction cs arbitrary: m)
  case (Cons c cs)
  obtain k t where c: "c = (k, t)" by (cases c)
  show ?case
  proof (cases "t < lo + Minute")
    case True
    then show ?thesis
      using Cons.IH [OF allowAttempt_ok [OF Cons.prems(1)], of t k] Cons.prems budget_step [OF Cons.prems(1), of t lo k key]
      by (auto simp: c passed_def split: if_splits)
  next
    case False
    then have "\<forall>(k, t)\<in>set (c # cs). lo + Minute \<le> t" using Cons.prems(2) by (auto simp: c)
    then show ?thesis by (simp only: passed_later)
  qed
qed (simp add: passed_def)

lemma passed_window:
  "attempts_ok m \<Longrightarrow> sorted (map snd cs) \<Longrightarrow> \<forall>(k, t)\<in>set cs. t \<noteq> 0 \<Longrightarrow> passed key lo (lo + Minute) (attempt_log m cs) \<le> 40"
proof (induction cs arbitrary: m)
  case (Cons c cs)
  obtain k t where c: "c = (k, t)" by (cases c)
  show ?case
  proof (cases "t < lo")
    case True
    then show ?thesis using Cons.IH [OF allowAttempt_ok [OF Cons.prems(1)], of t k] Cons.prems by (auto simp: c passed_def)
  next
    case False
    then have "\<forall>(k, t)\<in>set (c # cs). t \<noteq> 0 \<and> lo \<le> t" using Cons.prems(2,3) by (force simp: c)
    moreover have "budget lo m key \<le> 40"
      using Cons.prems(1) by (auto simp: budget_def attempts_ok_def split: option.splits dest!: map_of_SomeD)
    ultimately show ?thesis using passed_budget [OF Cons.prems(1,2)] order_trans by blast
  qed
qed (simp add: passed_def)

end
