(* ===== verification/Site_Auth_Properties.thy ===== *)
theory Site_Auth_Properties
  imports Site_Auth_Facts
begin

text \<open>
  What any history of the sign-in shows: a login code logs in once, whoever types it gets a session, a
  session stems from a sign-in and ends with its logout, and attempts are bounded.
\<close>

section \<open>Histories\<close>

datatype 'd auth_op = OpGenerate "auth_step \<Rightarrow> bool" int "string option" int
  | OpServe "'d call_env" auth_route auth_request

datatype auth_out = OutCode "auth_error + string" | OutReply auth_reply

fun auth_op_step :: "auth_cfg \<Rightarrow> 'd auth_op \<Rightarrow> site_auth \<Rightarrow> site_auth \<times> auth_out" where
  "auth_op_step cfg (OpGenerate fails ttl bytes now) a = map_prod (\<lambda>x. x) OutCode (GenerateCode (cf_digest cfg) fails ttl bytes now a)"
| "auth_op_step cfg (OpServe env route req) a = map_prod (\<lambda>x. x) OutReply (auth_serve cfg env route req a)"

fun auth_run :: "auth_cfg \<Rightarrow> 'd auth_op list \<Rightarrow> site_auth \<Rightarrow> site_auth \<times> ('d auth_op \<times> auth_out) list" where
  "auth_run cfg [] a = (a, [])"
| "auth_run cfg (x # xs) a =
     (let (a1, out) = auth_op_step cfg x a; (a2, outs) = auth_run cfg xs a1 in (a2, (x, out) # outs))"

section \<open>The tables a call touches\<close>

lemma rotate_session_frame [simp]:
  "au_codes (rotate_session cfg env now req a) = au_codes a"
  "au_credentials (rotate_session cfg env now req a) = au_credentials a"
  by (auto simp: rotate_session_def delete_session_def split: option.splits)

lemma rotate_session_subset: "set (au_sessions (rotate_session cfg env now req a)) \<subseteq> set (au_sessions a)"
  by (auto simp: rotate_session_def delete_session_def split: option.splits)

lemma saveCredential_frame:
  "saveCredential wa fails now c ins a = (a1, r) \<Longrightarrow> au_codes a1 = au_codes a \<and> au_sessions a1 = au_sessions a"
  by (auto simp: saveCredential_def Let_def split: option.splits if_splits prod.splits)

lemma storeChallenge_frame:
  "storeChallenge digest wa fails bytes n1 n2 kind binding data a = (a1, r) \<Longrightarrow>
     au_codes a1 = au_codes a \<and> au_sessions a1 = au_sessions a \<and> au_credentials a1 = au_credentials a"
  by (auto simp: storeChallenge_def Let_def split: option.splits if_splits sum.splits)

lemma takeChallenge_frame:
  "takeChallenge digest wa fails now token kind binding a = (a1, r) \<Longrightarrow>
     au_codes a1 = au_codes a \<and> au_sessions a1 = au_sessions a \<and> au_credentials a1 = au_credentials a"
  by (auto simp: takeChallenge_def Let_def split: option.splits if_splits)

lemma challenge_handler_frame:
  "challenge_handler cfg env now req kind binding a = (a1, r) \<Longrightarrow>
     au_codes a1 = au_codes a \<and> au_sessions a1 = au_sessions a \<and> au_credentials a1 = au_credentials a"
  by (auto simp: challenge_handler_def split: option.splits prod.splits sum.splits dest: takeChallenge_frame)

lemma newSession_cases:
  assumes "newSession digest fails bytes n1 n2 a = (a1, r)"
  shows "au_codes a1 = au_codes a \<and> au_credentials a1 = au_credentials a \<and>
     (case r of Inl _ \<Rightarrow> a1 = a
      | Inr token \<Rightarrow> au_sessions a1 = au_sessions a @
          [\<lparr>ss_hash = digest token, ss_expires = Unix (n1 + sessionLifetime), ss_auth_at = Unix n2\<rparr>])"
  using assms by (auto simp: newSession_def insert_session_def sql_insert_def split: sum.splits if_splits)

lemma consumeCode_cases:
  assumes "consumeCode digest unicode fails bytes n1 n2 n3 code a = (a1, r)"
  shows "au_credentials a1 = au_credentials a \<and>
     (case r of Inl _ \<Rightarrow> a1 = a
      | Inr token \<Rightarrow>
          sql_count (\<lambda>c. lc_hash c = digest (normalizeCode unicode code) \<and> lc_expires c > Unix n1) (au_codes a) = 1 \<and>
          au_codes a1 = filter (\<lambda>c. \<not> (lc_hash c = digest (normalizeCode unicode code) \<and> lc_expires c > Unix n1)) (au_codes a) \<and>
          au_sessions a1 = au_sessions a @
          [\<lparr>ss_hash = digest token, ss_expires = Unix (n2 + sessionLifetime), ss_auth_at = Unix n3\<rparr>])"
  using assms
  by (auto simp: consumeCode_def sql_delete_def Let_def insert_session_def sql_insert_def split: sum.splits if_splits)

text \<open>The session a reply hands out, and the reading of the clock it lasts from.\<close>

definition signs_in :: "string \<Rightarrow> auth_reply \<Rightarrow> bool" where
  "signs_in token r \<longleftrightarrow> ap_status r = 200 \<and> (sessionCookie, token, sessionLifetime div Second) \<in> set (ap_cookies r)"

fun issue_clock :: "'d call_env \<Rightarrow> auth_route \<Rightarrow> int" where
  "issue_clock env RtCode = ce_clock env 2"
| "issue_clock env _ = ce_clock env 3"

definition handler_of :: "auth_cfg \<Rightarrow> 'd call_env \<Rightarrow> auth_route \<Rightarrow> auth_request \<Rightarrow> site_auth \<Rightarrow> site_auth \<times> auth_reply" where
  "handler_of cfg env route req =
     (case route of RtCode \<Rightarrow> code_handler cfg env req | RtLogout \<Rightarrow> logout_handler cfg env req
      | RtRegisterBegin \<Rightarrow> registerBegin cfg env req | RtRegisterFinish \<Rightarrow> registerFinish cfg env req
      | RtLoginBegin \<Rightarrow> loginBegin cfg env req | RtLoginFinish \<Rightarrow> loginFinish cfg env req)"

text \<open>A request either is turned away by the guard or reaches its handler, the tables unchanged.\<close>

lemma auth_serve_cases:
  assumes "auth_serve cfg env route req a = (a', r)"
  obtains (refused) st m where "a' = a\<lparr>au_attempts := m\<rparr>" "r = auth_failure st" "st \<noteq> 200"
  | (handled) m where "handler_of cfg env route req (a\<lparr>au_attempts := m\<rparr>) = (a', r)" "rq_origin req = au_origin a"
proof -
  have "(\<exists>st m. a' = a\<lparr>au_attempts := m\<rparr> \<and> r = auth_failure st \<and> st \<noteq> 200) \<or>
        (\<exists>m. handler_of cfg env route req (a\<lparr>au_attempts := m\<rparr>) = (a', r) \<and> rq_origin req = au_origin a)"
    if "write_guard cfg env limited req (handler_of cfg env route req) a = (a', r)" for limited
  proof (cases "rq_origin req = au_origin a")
    case False
    then have "a' = a\<lparr>au_attempts := au_attempts a\<rparr> \<and> r = auth_failure 403 \<and> (403 :: int) \<noteq> 200"
      using that by (auto simp: write_guard_def)
    then show ?thesis by blast
  next
    case True
    show ?thesis
    proof (cases limited)
      case False
      then have "handler_of cfg env route req (a\<lparr>au_attempts := au_attempts a\<rparr>) = (a', r)" using that True by (simp add: write_guard_def)
      then show ?thesis using True by blast
    next
      case lim: True
      obtain m ok where "allowAttempt (case cf_split_host cfg (rq_remote req) of None \<Rightarrow> rq_remote req | Some h \<Rightarrow> h)
          (ce_clock env 0) (au_attempts a) = (m, ok)" by fastforce
      then show ?thesis using that True lim by (cases ok) (auto simp: write_guard_def intro!: exI [of _ "429 :: int"])
    qed
  qed
  moreover have "\<exists>limited. write_guard cfg env limited req (handler_of cfg env route req) a = (a', r)"
    using assms by (cases route) (auto simp: handler_of_def)
  ultimately show thesis using refused handled by blast
qed

lemma code_handler_cases:
  assumes "code_handler cfg env req a = (a', r)"
  obtains (no) st where "a' = a" "r = auth_failure st" "st \<noteq> 200"
  | (yes) code token a1 where "cf_decode_code cfg (rq_body req) = Some code"
      "consumeCode (cf_digest cfg) (cf_unicode cfg) (ce_fails env) (ce_random env) (ce_clock env 1) (ce_clock env 2) (ce_clock env 3) code a = (a1, Inr token)"
      "a' = rotate_session cfg env (ce_clock env 4) req a1" "r = signed_in token"
proof (cases "cf_decode_code cfg (rq_body req)")
  case None
  then show thesis using assms by (intro no [of 400]) (simp_all add: code_handler_def)
next
  case (Some code)
  obtain a1 q where c: "consumeCode (cf_digest cfg) (cf_unicode cfg) (ce_fails env) (ce_random env) (ce_clock env 1)
      (ce_clock env 2) (ce_clock env 3) code a = (a1, q)" by fastforce
  show thesis
  proof (cases q)
    case (Inl e)
    then show thesis using assms c Some consumeCode_cases [OF c] by (intro no [of 401]) (simp_all add: code_handler_def)
  next
    case (Inr token)
    then show thesis using assms c Some by (intro yes [of code a1 token]) (simp_all add: code_handler_def)
  qed
qed

lemma handler_sessions:
  assumes "handler_of cfg env route req a = (a', r)" "s \<in> set (au_sessions a')"
  shows "s \<in> set (au_sessions a) \<or> (route \<in> {RtCode, RtLoginFinish} \<and>
     (\<exists>token. signs_in token r \<and> ss_hash s = cf_digest cfg token \<and> ss_expires s = Unix (issue_clock env route + sessionLifetime)))"
proof (cases route)
  case RtCode
  then have "code_handler cfg env req a = (a', r)" using assms(1) by (simp add: handler_of_def)
  then show ?thesis
  proof (cases rule: code_handler_cases)
    case no
    then show ?thesis using assms(2) by simp
  next
    case (yes code token a1)
    moreover have "s \<in> set (au_sessions a1)" using yes(3) assms(2) rotate_session_subset by blast
    ultimately show ?thesis using consumeCode_cases [OF yes(2)] RtCode by (auto simp: signed_in_def signs_in_def)
  qed
next
  case RtLogout
  then show ?thesis
    using assms by (auto simp: handler_of_def logout_handler_def delete_session_def split: option.splits if_splits)
next
  case RtRegisterBegin
  then show ?thesis
    using assms by (auto simp: handler_of_def registerBegin_def split: option.splits sum.splits if_splits prod.splits dest: storeChallenge_frame)
next
  case RtRegisterFinish
  then show ?thesis
    using assms
    by (auto simp: handler_of_def registerFinish_def split: option.splits sum.splits if_splits prod.splits
        dest!: challenge_handler_frame saveCredential_frame)
next
  case RtLoginBegin
  then show ?thesis
    using assms by (auto simp: handler_of_def loginBegin_def split: option.splits prod.splits dest: storeChallenge_frame)
next
  case RtLoginFinish
  obtain a1 q where h: "challenge_handler cfg env (ce_clock env 1) req ''login'' [] a = (a1, q)" by fastforce
  note frame = challenge_handler_frame [OF h]
  have lf: "loginFinish cfg env req a = (a', r)" using assms(1) RtLoginFinish by (simp add: handler_of_def)
  show ?thesis
  proof (cases "s \<in> set (au_sessions a1)")
    case False
    then obtain data u c a2 a3 token where sv: "saveCredential (ce_webauthn env) (ce_fails env) (ce_clock env 2) c False a1 = (a2, None)"
      and nw: "newSession (cf_digest cfg) (ce_fails env) (ce_random env) (ce_clock env 3) (ce_clock env 4) a2 = (a3, Inr token)"
      and a': "a' = rotate_session cfg env (ce_clock env 5) req a3" and rr: "r = cleared (signed_in token)"
      using lf h assms(2)
      by (auto simp: loginFinish_def split: sum.splits option.splits if_splits prod.splits
          dest!: saveCredential_frame newSession_cases)
    then have "s \<in> set (au_sessions a3)" using assms(2) rotate_session_subset by blast
    then show ?thesis
      using newSession_cases [OF nw] saveCredential_frame [OF sv] False rr RtLoginFinish
      by (auto simp: cleared_def signed_in_def signs_in_def)
  qed (use frame in simp)
qed

lemma handler_codes:
  assumes "handler_of cfg env route req a = (a', r)" "route \<noteq> RtCode"
  shows "au_codes a' = au_codes a"
  using assms
  by (cases route)
    (auto simp: handler_of_def logout_handler_def delete_session_def registerBegin_def registerFinish_def loginBegin_def loginFinish_def
      split: option.splits sum.splits if_splits prod.splits
      dest!: storeChallenge_frame challenge_handler_frame saveCredential_frame newSession_cases)

lemma serve_sessions:
  assumes "auth_serve cfg env route req a = (a', r)" "s \<in> set (au_sessions a')"
  shows "s \<in> set (au_sessions a) \<or> (route \<in> {RtCode, RtLoginFinish} \<and>
     (\<exists>token. signs_in token r \<and> ss_hash s = cf_digest cfg token \<and> ss_expires s = Unix (issue_clock env route + sessionLifetime)))"
  using assms(1)
proof (cases rule: auth_serve_cases)
  case (handled m)
  then show ?thesis using handler_sessions [OF handled(1) assms(2)] by simp
qed (use assms(2) in simp)

lemma GenerateCode_sessions: "au_sessions (fst (GenerateCode digest fails ttl bytes now a)) = au_sessions a"
  by (auto simp: GenerateCode_def split: option.splits)

text \<open>The log entry of a sign-in that issued the session \<open>s\<close>.\<close>

definition issues :: "auth_cfg \<Rightarrow> 'd auth_op \<times> auth_out \<Rightarrow> signin_row \<Rightarrow> bool" where
  "issues cfg entry s \<longleftrightarrow>
     (\<exists>env route req r token. entry = (OpServe env route req, OutReply r) \<and> route \<in> {RtCode, RtLoginFinish} \<and>
        signs_in token r \<and> ss_hash s = cf_digest cfg token \<and> ss_expires s = Unix (issue_clock env route + sessionLifetime))"

lemma run_sessions:
  assumes "auth_run cfg ops a = (a', log)" "s \<in> set (au_sessions a')"
  shows "s \<in> set (au_sessions a) \<or> (\<exists>entry\<in>set log. issues cfg entry s)"
  using assms
proof (induction ops arbitrary: a log)
  case (Cons x ops)
  obtain a1 out where x: "auth_op_step cfg x a = (a1, out)" by fastforce
  obtain log' where l: "auth_run cfg ops a1 = (a', log')" "log = (x, out) # log'"
    using Cons.prems(1) x by (cases "auth_run cfg ops a1") auto
  have "s \<in> set (au_sessions a1) \<Longrightarrow> s \<in> set (au_sessions a) \<or> issues cfg (x, out) s"
  proof (cases x)
    case (OpGenerate fails ttl bytes now)
    assume "s \<in> set (au_sessions a1)"
    then show ?thesis
      using x OpGenerate GenerateCode_sessions [of "cf_digest cfg" fails ttl bytes now a]
      by (cases "GenerateCode (cf_digest cfg) fails ttl bytes now a") simp
  next
    case (OpServe env route req)
    then obtain r where r: "auth_serve cfg env route req a = (a1, r)" "out = OutReply r"
      using x by (cases "auth_serve cfg env route req a") simp
    assume "s \<in> set (au_sessions a1)"
    from serve_sessions [OF r(1) this] show ?thesis unfolding OpServe r(2) issues_def by blast
  qed
  then show ?case using Cons.IH [OF l(1) Cons.prems(2)] by (auto simp: l(2))
qed simp

lemma Authenticated_iff:
  "Authenticated digest fails now req a \<longleftrightarrow>
     (\<exists>v. rq_session req = Some v \<and> length v = 43 \<and> \<not> fails AsReadSession \<and>
        (\<exists>s\<in>set (au_sessions a). ss_hash s = digest v \<and> Unix now < ss_expires s))"
proof -
  have "sql_select P t \<noteq> None \<longleftrightarrow> (\<exists>s\<in>set t. P s)" for P and t :: "signin_row list"
    by (auto simp: sql_select_def find_None_iff)
  then show ?thesis by (cases "rq_session req") (simp_all add: Authenticated_def auth_session_def)
qed

lemma logout_ends_session:
  assumes "auth_serve cfg env RtLogout req a1 = (a, r)" "ap_status r = 200" "rq_session req = Some v"
  shows "\<forall>s\<in>set (au_sessions a). ss_hash s \<noteq> cf_digest cfg v"
  using assms
  by (auto simp: write_guard_def logout_handler_def auth_session_def delete_session_def auth_failure_def
      split: if_splits option.splits)

section \<open>Login codes\<close>

datatype login_event = CodeShown string int | CodeUsed string int

fun code_event :: "auth_cfg \<Rightarrow> 'd auth_op \<times> auth_out \<Rightarrow> login_event list" where
  "code_event cfg (OpGenerate fails ttl (Some b) now, OutCode (Inr shown)) = [CodeShown (base32 b) (Unix (now + ttl))]"
| "code_event cfg (OpServe env RtCode req, OutReply r) =
     (case cf_decode_code cfg (rq_body req) of
        Some code \<Rightarrow> if ap_status r = 200 then [CodeUsed (normalizeCode (cf_unicode cfg) code) (Unix (ce_clock env 1))] else []
      | None \<Rightarrow> [])"
| "code_event cfg _ = []"

definition code_events :: "auth_cfg \<Rightarrow> ('d auth_op \<times> auth_out) list \<Rightarrow> login_event list" where
  "code_events cfg log = concat (map (code_event cfg) log)"

fun event_code :: "login_event \<Rightarrow> string" where
  "event_code (CodeShown c e) = c"
| "event_code (CodeUsed c t) = c"

text \<open>What the owner is promised: a use follows the showing of that very code, nothing between, in time.\<close>

fun one_shot :: "(string \<times> int) option \<Rightarrow> login_event list \<Rightarrow> bool" where
  "one_shot st [] = True"
| "one_shot st (CodeShown c e # es) = one_shot (Some (c, e)) es"
| "one_shot st (CodeUsed c t # es) = ((\<exists>e. st = Some (c, e) \<and> t < e) \<and> one_shot None es)"

definition codes_hold :: "(string \<Rightarrow> string) \<Rightarrow> (string \<times> int) option \<Rightarrow> site_auth \<Rightarrow> bool" where
  "codes_hold digest st a \<longleftrightarrow>
     au_codes a = (case st of None \<Rightarrow> [] | Some (c, e) \<Rightarrow> [\<lparr>lc_hash = digest c, lc_expires = e\<rparr>])"

lemma GenerateCode_cases:
  assumes "GenerateCode digest fails ttl bytes now a = (a1, out)"
  obtains (no) e where "a1 = a" "out = Inl e"
  | (yes) b where "bytes = Some b" "au_codes a1 = [\<lparr>lc_hash = digest (base32 b), lc_expires = Unix (now + ttl)\<rparr>]"
      "out = Inr (str_join ''-'' (code_groups (base32 b)))"
  using assms by (auto simp: GenerateCode_def sql_insert_def split: if_splits option.splits)

text \<open>How one request moves the outstanding code.\<close>

lemma serve_codes:
  assumes "auth_serve cfg env route req a = (a1, r)" "codes_hold (cf_digest cfg) st a"
    and inj: "\<And>c. c \<in> set (map event_code (code_event cfg (OpServe env route req, OutReply r))) \<Longrightarrow>
        (\<forall>c' e. st = Some (c', e) \<longrightarrow> cf_digest cfg c' = cf_digest cfg c \<longrightarrow> c' = c)"
  shows "codes_hold (cf_digest cfg) st a1 \<and> code_event cfg (OpServe env route req, OutReply r) = [] \<or>
     (\<exists>c t e. code_event cfg (OpServe env route req, OutReply r) = [CodeUsed c t] \<and> st = Some (c, e) \<and> t < e \<and>
        codes_hold (cf_digest cfg) None a1)"
  using assms(1)
proof (cases rule: auth_serve_cases)
  case (refused code m)
  then show ?thesis using assms(2) by (cases route) (auto simp: codes_hold_def auth_failure_def split: option.splits)
next
  case (handled m)
  show ?thesis
  proof (cases "route = RtCode")
    case False
    then show ?thesis using handler_codes [OF handled(1)] assms(2) by (cases route) (auto simp: codes_hold_def)
  next
    case True
    then have "code_handler cfg env req (a\<lparr>au_attempts := m\<rparr>) = (a1, r)" using handled(1) by (simp add: handler_of_def)
    then show ?thesis
    proof (cases rule: code_handler_cases)
      case no
      then show ?thesis using assms(2) True by (auto simp: codes_hold_def auth_failure_def split: option.splits)
    next
      case (yes code token a2)
      let ?c = "normalizeCode (cf_unicode cfg) code"
      note use = consumeCode_cases [OF yes(2)]
      have ev: "code_event cfg (OpServe env route req, OutReply r) = [CodeUsed ?c (Unix (ce_clock env 1))]"
        using yes True by (simp add: signed_in_def)
      obtain c e where st: "st = Some (c, e)" "cf_digest cfg c = cf_digest cfg ?c" "Unix (ce_clock env 1) < e"
        using use assms(2) by (auto simp: codes_hold_def sql_count_def split: option.splits if_splits)
      have "c = ?c" using inj [of ?c] st ev by simp
      moreover have "codes_hold (cf_digest cfg) None a1"
        using use assms(2) st yes(3) by (simp add: codes_hold_def)
      ultimately show ?thesis using st ev by blast
    qed
  qed
qed

lemma codes_one_shot:
  assumes "auth_run cfg ops a = (a', log)" "codes_hold (cf_digest cfg) st a"
    and "inj_on (cf_digest cfg) (fst ` set_option st \<union> event_code ` set (code_events cfg log))"
  shows "one_shot st (code_events cfg log)"
  using assms
proof (induction ops arbitrary: a st log)
  case (Cons x ops)
  obtain a1 out where x: "auth_op_step cfg x a = (a1, out)" by fastforce
  obtain log' where l: "auth_run cfg ops a1 = (a', log')" "log = (x, out) # log'"
    using Cons.prems(1) x by (cases "auth_run cfg ops a1") auto
  have evs: "code_events cfg log = code_event cfg (x, out) @ code_events cfg log'" by (simp add: code_events_def l(2))
  show ?case
  proof (cases x)
    case (OpGenerate fails ttl bytes now)
    obtain q where g: "GenerateCode (cf_digest cfg) fails ttl bytes now a = (a1, q)" "out = OutCode q"
      using x OpGenerate by (cases "GenerateCode (cf_digest cfg) fails ttl bytes now a") simp
    from g(1) show ?thesis
    proof (cases rule: GenerateCode_cases)
      case (no e)
      then have "code_event cfg (x, out) = []" by (cases bytes) (simp_all add: OpGenerate g(2))
      then show ?thesis using Cons.IH [OF l(1), of st] Cons.prems(2,3) no(1) evs by simp
    next
      case (yes b)
      then have ev: "code_event cfg (x, out) = [CodeShown (base32 b) (Unix (now + ttl))]" by (simp add: OpGenerate g(2))
      have "one_shot (Some (base32 b, Unix (now + ttl))) (code_events cfg log')"
        using yes Cons.prems(3) by (intro Cons.IH [OF l(1)]) (auto simp: codes_hold_def evs ev elim: inj_on_subset)
      then show ?thesis by (simp add: evs ev)
    qed
  next
    case (OpServe env route req)
    then obtain r where r: "auth_serve cfg env route req a = (a1, r)" "out = OutReply r"
      using x by (cases "auth_serve cfg env route req a") simp
    have "(\<forall>c' e. st = Some (c', e) \<longrightarrow> cf_digest cfg c' = cf_digest cfg c \<longrightarrow> c' = c)"
      if "c \<in> set (map event_code (code_event cfg (OpServe env route req, OutReply r)))" for c
    proof (intro allI impI)
      fix c' e assume st: "st = Some (c', e)" "cf_digest cfg c' = cf_digest cfg c"
      have "c \<in> event_code ` set (code_events cfg log)" using that by (auto simp: evs OpServe r(2))
      then show "c' = c" using inj_onD [OF Cons.prems(3) st(2)] st(1) by simp
    qed
    from serve_codes [OF r(1) Cons.prems(2) this]
    consider "codes_hold (cf_digest cfg) st a1" "code_event cfg (x, out) = []"
      | c t e where "code_event cfg (x, out) = [CodeUsed c t]" "st = Some (c, e)" "t < e" "codes_hold (cf_digest cfg) None a1"
      unfolding OpServe r(2) by blast
    then show ?thesis
    proof cases
      case 1
      then show ?thesis using Cons.IH [OF l(1) 1(1)] Cons.prems(3) by (simp add: evs)
    next
      case (2 c t e)
      have "one_shot None (code_events cfg log')"
        using Cons.prems(3) by (intro Cons.IH [OF l(1) 2(4)]) (auto simp: evs elim: inj_on_subset)
      then show ?thesis using 2 by (simp add: evs)
    qed
  qed
qed (simp add: code_events_def)

text \<open>
  C28. Over any history of code generations and requests, with any faults, the codes shown and the codes used
  alternate: a successful login by code is preceded by the showing of that code, unexpired, with no other
  showing and no other use between. So each code logs in at most once, and an older code never does. SHA-256
  is assumed not to confuse the codes of the history.
\<close>

theorem login_codes_are_single_use:
  assumes "auth_run cfg ops a = (a', log)" "au_codes a = []"
    and "inj_on (cf_digest cfg) (event_code ` set (code_events cfg log))"
  shows "one_shot None (code_events cfg log)"
  using codes_one_shot [OF assms(1), of None] assms(2,3) by (simp add: codes_hold_def)

text \<open>
  C29. A request is authenticated only by a session that a successful sign-in, by code or passkey, handed out
  in its reply less than thirty days before; and after the session has logged out, only by such a sign-in
  since then.
\<close>

theorem sessions_come_from_sign_ins:
  assumes run: "auth_run cfg ops a = (a', log)"
    and start: "au_sessions a = [] \<or>
      (\<exists>env req' a1 r. auth_serve cfg env RtLogout req' a1 = (a, r) \<and> ap_status r = 200 \<and> rq_session req' = Some v)"
    and auth: "Authenticated (cf_digest cfg) fails now req a'" "rq_session req = Some v"
  shows "\<exists>env route req' r token. (OpServe env route req', OutReply r) \<in> set log \<and> route \<in> {RtCode, RtLoginFinish} \<and>
      signs_in token r \<and> cf_digest cfg token = cf_digest cfg v \<and> Unix now < Unix (issue_clock env route + sessionLifetime)"
proof -
  obtain s where s: "s \<in> set (au_sessions a')" "ss_hash s = cf_digest cfg v" "Unix now < ss_expires s"
    using auth by (auto simp: Authenticated_iff)
  have "s \<notin> set (au_sessions a)" using start s(2) logout_ends_session by fastforce
  then obtain entry where "entry \<in> set log" "issues cfg entry s" using run_sessions [OF run s(1)] by blast
  then show ?thesis using s(2,3) unfolding issues_def by metis
qed

text \<open>
  C27. The code shown to the owner, typed in any case, with the dashes anywhere or left out and white space
  around it, signs in while it is valid: the reply's cookie authenticates the next request for thirty days,
  and the code is gone.
\<close>

theorem shown_code_signs_in:
  assumes gen: "GenerateCode (cf_digest cfg) fails ttl (Some b) now a = (a1, Inr shown)" "length b = 16"
    and typed: "types_code (filter (\<lambda>c. c \<noteq> CHR ''-'') shown) text" "cf_decode_code cfg (rq_body req) = Some text"
    and calm: "\<forall>st. \<not> ce_fails env st" "ce_random env = Some rnd" "length rnd = 32"
    and time: "Unix (ce_clock env 1) < Unix (now + ttl)" "Unix now' < Unix (ce_clock env 2 + sessionLifetime)"
    and gate: "rq_origin req = au_origin a"
      "snd (allowAttempt (case cf_split_host cfg (rq_remote req) of None \<Rightarrow> rq_remote req | Some h \<Rightarrow> h)
         (ce_clock env 0) (au_attempts a))"
    and fresh: "\<forall>s\<in>set (au_sessions a). ss_hash s \<noteq> cf_digest cfg (base64url rnd)"
      "\<forall>v. rq_session req = Some v \<longrightarrow> cf_digest cfg v \<noteq> cf_digest cfg (base64url rnd)"
  shows "\<exists>a2 token. auth_serve cfg env RtCode req a1 = (a2, signed_in token) \<and> au_codes a2 = [] \<and>
      Authenticated (cf_digest cfg) (\<lambda>_. False) now' (req'\<lparr>rq_session := Some token\<rparr>) a2"
proof -
  let ?t = "base64url rnd"
  let ?row = "\<lparr>ss_hash = cf_digest cfg ?t, ss_expires = Unix (ce_clock env 2 + sessionLifetime), ss_auth_at = Unix (ce_clock env 3)\<rparr>"
  obtain m where m: "allowAttempt (case cf_split_host cfg (rq_remote req) of None \<Rightarrow> rq_remote req | Some h \<Rightarrow> h)
      (ce_clock env 0) (au_attempts a) = (m, True)" using gate(2) by (metis prod.collapse)
  have a1: "a1 = a\<lparr>au_codes := [\<lparr>lc_hash = cf_digest cfg (base32 b), lc_expires = Unix (now + ttl)\<rparr>]\<rparr>"
    and shown: "shown = str_join ''-'' (code_groups (base32 b))"
    using gen(1) by (auto simp: GenerateCode_def sql_insert_def split: if_splits)
  have code: "normalizeCode (cf_unicode cfg) text = base32 b"
    using typed(1) gen(2) unfolding shown shown_base32 by (intro normalizeCode_typed) auto
  let ?a2 = "a1\<lparr>au_attempts := m, au_codes := [], au_sessions := au_sessions a @ [?row]\<rparr>"
  have "consumeCode (cf_digest cfg) (cf_unicode cfg) (ce_fails env) (ce_random env) (ce_clock env 1) (ce_clock env 2)
      (ce_clock env 3) text (a1\<lparr>au_attempts := m\<rparr>) = (?a2, Inr ?t)"
    using calm(1,2) time(1) fresh(1)
    by (auto simp: consumeCode_def randomToken_def code a1 sql_delete_def sql_count_def insert_session_def sql_insert_def
        list_ex_iff token_conflict_def)
  then have "auth_serve cfg env RtCode req a1 = (rotate_session cfg env (ce_clock env 4) req ?a2, signed_in ?t)"
    using gate(1) m typed(2) by (simp add: write_guard_def code_handler_def a1)
  moreover have "?row \<in> set (au_sessions (rotate_session cfg env (ce_clock env 4) req ?a2))"
    using fresh(2) by (auto simp: rotate_session_def delete_session_def auth_session_def split: option.splits if_splits)
  then have "Authenticated (cf_digest cfg) (\<lambda>_. False) now' (req'\<lparr>rq_session := Some ?t\<rparr>)
      (rotate_session cfg env (ce_clock env 4) req ?a2)"
    using time(2) length_token [OF calm(3)]
    unfolding Authenticated_iff by (intro exI [of _ ?t] conjI bexI [of _ ?row]) simp_all
  ultimately show ?thesis by (intro exI [of _ "rotate_session cfg env (ce_clock env 4) req ?a2"] exI [of _ ?t]) simp
qed

text \<open>
  Whatever the clients do, at most forty attempts of one address pass in any minute (twenty in the minute
  a first attempt opens), and the limiter never holds more than 4096 addresses.
\<close>

theorem attempts_are_bounded:
  assumes "sorted (map snd cs)" "\<forall>(k, t)\<in>set cs. t \<noteq> 0"
  shows "passed key lo (lo + Minute) (attempt_log [] cs) \<le> 40 \<and>
    (cs \<noteq> [] \<and> lo = snd (hd cs) \<longrightarrow> passed key lo (lo + Minute) (attempt_log [] cs) \<le> 20) \<and>
    length (fold (\<lambda>(k, t) m. fst (allowAttempt k t m)) cs []) \<le> attempts_max"
proof -
  have empty: "attempts_ok []" by (simp add: attempts_ok_def)
  have "attempts_ok m \<Longrightarrow> \<forall>(k, t)\<in>set cs. t \<noteq> 0 \<Longrightarrow> attempts_ok (fold (\<lambda>(k, t) m. fst (allowAttempt k t m)) cs m)" for m
    by (induction cs arbitrary: m) (auto intro: allowAttempt_ok)
  then have "length (fold (\<lambda>(k, t) m. fst (allowAttempt k t m)) cs []) \<le> attempts_max"
    using empty assms(2) unfolding attempts_ok_def by blast
  moreover have "passed key lo (lo + Minute) (attempt_log [] cs) \<le> 20" if "cs \<noteq> []" "lo = snd (hd cs)"
  proof -
    have "\<forall>(k, t)\<in>set cs. t \<noteq> 0 \<and> lo \<le> t" using assms that by (cases cs) auto
    from passed_budget [OF empty assms(1) this, of key] show ?thesis by (simp add: budget_def)
  qed
  ultimately show ?thesis using passed_window [OF empty assms] by blast
qed

section \<open>Witnesses\<close>

definition site_cfg :: auth_cfg where
  "site_cfg = \<lparr>cf_digest = (\<lambda>s. s), cf_unicode = (\<lambda>s. s), cf_split_host = (\<lambda>_. None), cf_decode_code = Some\<rparr>"

definition sample_auth :: site_auth where
  "sample_auth = \<lparr>au_origin = ''o'', au_user_id = [], au_codes = [], au_sessions = [], au_credentials = [], au_challenges = [],
     au_attempts = []\<rparr>"

definition no_webauthn :: "unit webauthn" where
  "no_webauthn = \<lparr>wa_decode_id = (\<lambda>_. None), wa_encode_id = (\<lambda>s. s), wa_marshal_credential = (\<lambda>_. None),
     wa_unmarshal_credential = (\<lambda>_. None), wa_marshal_data = (\<lambda>_. None), wa_unmarshal_data = (\<lambda>_. None),
     wa_begin_registration = (\<lambda>_. None), wa_finish_registration = (\<lambda>_ _ _. None), wa_begin_login = None,
     wa_finish_login = (\<lambda>_ _ _. None)\<rparr>"

definition sample_env :: "unit call_env" where
  "sample_env = \<lparr>ce_fails = (\<lambda>_. False), ce_clock = (\<lambda>_. 63900000000 * Second), ce_random = Some (replicate 32 CHR ''r''),
     ce_webauthn = no_webauthn\<rparr>"

definition sample_request :: auth_request where
  "sample_request = \<lparr>rq_origin = ''o'', rq_remote = ''a'', rq_session = None, rq_challenge = None,
     rq_body = '' ifaucqkb-ifaucqkbifaucqkbie ''\<rparr>"

lemma sample_code: "base32 (replicate 16 CHR ''A'') = ''IFAUCQKBIFAUCQKBIFAUCQKBIE''"
  by code_simp

lemma sample_typed: "types_code (base32 (replicate 16 CHR ''A'')) '' ifaucqkb-ifaucqkbifaucqkbie ''"
  unfolding types_code_def sample_code
  by (rule exI [of _ "'' ''"], rule exI [of _ "''ifaucqkb-ifaucqkbifaucqkbie''"], rule exI [of _ "'' ''"], code_simp)

definition sample_ops :: "unit auth_op list" where
  "sample_ops = [OpGenerate (\<lambda>_. False) Minute (Some (replicate 16 CHR ''A'')) (63900000000 * Second),
     OpServe sample_env RtCode sample_request, OpServe sample_env RtCode sample_request]"

lemma sample_events:
  "code_events site_cfg (snd (auth_run site_cfg sample_ops sample_auth)) =
     [CodeShown ''IFAUCQKBIFAUCQKBIFAUCQKBIE'' 1764403260, CodeUsed ''IFAUCQKBIFAUCQKBIFAUCQKBIE'' 1764403200]"
  by code_simp

lemma sample_signed_in:
  "Authenticated (\<lambda>s. s) (\<lambda>_. False) (63900000000 * Second)
     (sample_request\<lparr>rq_session := Some (base64url (replicate 32 CHR ''r''))\<rparr>) (fst (auth_run site_cfg sample_ops sample_auth))"
  by code_simp

theorem login_codes_are_single_use_witness:
  "one_shot None [CodeShown ''IFAUCQKBIFAUCQKBIFAUCQKBIE'' 1764403260, CodeUsed ''IFAUCQKBIFAUCQKBIFAUCQKBIE'' 1764403200]"
  using login_codes_are_single_use [of site_cfg sample_ops sample_auth, OF prod.collapse [symmetric]]
  unfolding sample_events by (simp add: sample_auth_def)

theorem sessions_come_from_sign_ins_witness:
  "\<exists>env route req' r token. (OpServe env route req', OutReply r) \<in> set (snd (auth_run site_cfg sample_ops sample_auth)) \<and>
      route \<in> {RtCode, RtLoginFinish} \<and> signs_in token r \<and>
      cf_digest site_cfg token = cf_digest site_cfg (base64url (replicate 32 CHR ''r'')) \<and>
      Unix (63900000000 * Second) < Unix (issue_clock env route + sessionLifetime)"
  by (rule sessions_come_from_sign_ins [of site_cfg sample_ops sample_auth, OF prod.collapse [symmetric],
        where req = "sample_request\<lparr>rq_session := Some (base64url (replicate 32 CHR ''r''))\<rparr>"])
    (use sample_signed_in in \<open>simp_all add: sample_auth_def site_cfg_def\<close>)

theorem shown_code_signs_in_witness:
  "\<exists>a2 token. auth_serve site_cfg sample_env RtCode sample_request
      (fst (GenerateCode (cf_digest site_cfg) (\<lambda>_. False) Minute (Some (replicate 16 CHR ''A'')) (63900000000 * Second) sample_auth))
      = (a2, signed_in token) \<and> au_codes a2 = [] \<and>
      Authenticated (cf_digest site_cfg) (\<lambda>_. False) (63900000001 * Second) (sample_request\<lparr>rq_session := Some token\<rparr>) a2"
proof (rule shown_code_signs_in [where rnd = "replicate 32 CHR ''r''"])
  show "GenerateCode (cf_digest site_cfg) (\<lambda>_. False) Minute (Some (replicate 16 CHR ''A'')) (63900000000 * Second) sample_auth =
      (fst (GenerateCode (cf_digest site_cfg) (\<lambda>_. False) Minute (Some (replicate 16 CHR ''A'')) (63900000000 * Second) sample_auth),
       Inr (str_join ''-'' (code_groups (base32 (replicate 16 CHR ''A'')))))"
    by (simp add: GenerateCode_def sql_insert_def Minute_def Hour_def Second_def)
  show "types_code (filter (\<lambda>c. c \<noteq> CHR ''-'') (str_join ''-'' (code_groups (base32 (replicate 16 CHR ''A''))))) '' ifaucqkb-ifaucqkbifaucqkbie ''"
    unfolding shown_base32 by (rule sample_typed)
qed (simp_all add: site_cfg_def sample_env_def sample_request_def sample_auth_def Unix_def Second_def Minute_def Hour_def
    sessionLifetime_def allowAttempt_def attempt_of_def attempts_max_def attempts_per_minute_def)

theorem attempts_are_bounded_witness:
  "passed ''a'' 1 (1 + Minute) (attempt_log [] (replicate 25 (''a'', 1))) \<le> 20"
  using attempts_are_bounded [of "replicate 25 (''a'', 1 :: int)" "''a''" 1] by (simp add: sorted_replicate)

end
