(* ===== verification/Speed.thy ===== *)
theory Speed
  imports Work_Time Usage_Views
begin

text \<open>
  The speed views: \<open>internal/store/livespeed.go\<close>, \<open>speedseries.go\<close> and the series half of \<open>telemetry.go\<close>. An event's
  generation interval is \<open>[ts - gen_ms, ts]\<close>; a view distributes its tokens over time and divides by the union of
  the intervals. The \<open>float64\<close> rates are quotients of the integers modelled here and are left out, with the
  order that \<open>buildSpeedContributions\<close> sorts by them. Instants are milliseconds, far inside \<open>int64\<close>; products
  and sums of tokens wrap as in the source. An integer division by zero does not occur: every divisor is positive.
\<close>

section \<open>Contributions\<close>

record speed_acc =
  sa_tokens :: int
  sa_spans :: "span list"

fun addSpeedContribution :: "(string \<times> speed_acc) list \<Rightarrow> string \<Rightarrow> int \<Rightarrow> span \<Rightarrow> (string \<times> speed_acc) list" where
  "addSpeedContribution [] key tokens interval = [(key, \<lparr>sa_tokens = i64 (0 + tokens), sa_spans = [interval]\<rparr>)]"
| "addSpeedContribution ((k, a) # gs) key tokens interval =
     (if k = key then (k, \<lparr>sa_tokens = i64 (sa_tokens a + tokens), sa_spans = sa_spans a @ [interval]\<rparr>) # gs
      else (k, a) # addSpeedContribution gs key tokens interval)"

record speed_contribution =
  sx_key :: string
  sx_tokens :: int
  sx_active :: int

definition buildSpeedContributions :: "(string \<times> speed_acc) list \<Rightarrow> speed_contribution list" where
  "buildSpeedContributions groups =
     map (\<lambda>(k, a). \<lparr>sx_key = k, sx_tokens = sa_tokens a, sx_active = unionMS (sa_spans a)\<rparr>) groups"

definition exportSpans :: "span list \<Rightarrow> (int \<times> int) list" where
  "exportSpans spans = map (\<lambda>s. (sp_start s, sp_end s)) spans"

section \<open>The live window\<close>

record session_speed =
  sw_session :: string
  sw_device :: string
  sw_repo :: string
  sw_model :: string
  sw_source :: string
  sw_tokens :: int
  sw_last :: int
  sw_spans :: "span list"

record live_acc =
  la_sessions :: "(string \<times> session_speed) list"
  la_sources :: "(string \<times> speed_acc) list"
  la_devices :: "(string \<times> speed_acc) list"
  la_models :: "(string \<times> speed_acc) list"
  la_tokens :: int
  la_all :: "span list"

definition session_add :: "event_row \<Rightarrow> int \<Rightarrow> span \<Rightarrow> session_speed \<Rightarrow> session_speed" where
  "session_add r tokens iv a =
     (let a1 = a\<lparr>sw_tokens := i64 (sw_tokens a + tokens), sw_spans := sw_spans a @ [iv]\<rparr>
      in if ev_ts r \<ge> sw_last a then a1\<lparr>sw_last := ev_ts r, sw_model := CanonicalModel (ev_model r)\<rparr> else a1)"

fun session_put :: "event_row \<Rightarrow> int \<Rightarrow> span \<Rightarrow> string \<Rightarrow> (string \<times> session_speed) list \<Rightarrow> (string \<times> session_speed) list" where
  "session_put r tokens iv key [] =
     [(key, session_add r tokens iv \<lparr>sw_session = ev_session_id r, sw_device = ev_device r, sw_repo = ev_repo r,
        sw_model = [], sw_source = ev_source r, sw_tokens = 0, sw_last = 0, sw_spans = []\<rparr>)]"
| "session_put r tokens iv key ((k, a) # m) =
     (if k = key then (k, session_add r tokens iv a) # m else (k, a) # session_put r tokens iv key m)"

definition live_step :: "int \<Rightarrow> int \<Rightarrow> live_acc \<Rightarrow> event_row \<Rightarrow> live_acc" where
  "live_step startMS endMS acc r =
     (let eventStart = ev_ts r - ev_gen_ms r; eventEnd = ev_ts r;
          start = (if eventStart < startMS then startMS else eventStart);
          stop = (if eventEnd > endMS then endMS else eventEnd)
      in if stop \<le> start then acc
         else let tokens = go_quot (i64 (ev_output_tokens r * (stop - start))) (eventEnd - eventStart);
                  iv = \<lparr>sp_start = start, sp_end = stop\<rparr>;
                  key = ev_device r @ [CHR 0x00] @ ev_session_id r
           in \<lparr>la_sessions = session_put r tokens iv key (la_sessions acc),
               la_sources = addSpeedContribution (la_sources acc) (speedSourceKey (ev_source r)) tokens iv,
               la_devices = addSpeedContribution (la_devices acc) (ev_device r) tokens iv,
               la_models = addSpeedContribution (la_models acc) (CanonicalModel (ev_model r)) tokens iv,
               la_tokens = i64 (la_tokens acc + tokens), la_all = la_all acc @ [iv]\<rparr>)"

definition measured :: "event_row \<Rightarrow> bool" where
  "measured r \<longleftrightarrow> ev_gen_ms r > 0 \<and> ev_output_tokens r > 0"

definition of_device :: "string \<Rightarrow> event_row \<Rightarrow> bool" where
  "of_device device r \<longleftrightarrow> device = [] \<or> ev_device r = device"

record live_speed =
  lv_tokens :: int
  lv_active :: int
  lv_sessions :: "(session_speed \<times> int) list"
  lv_sources :: "speed_contribution list"
  lv_devices :: "speed_contribution list"
  lv_models :: "speed_contribution list"
  lv_spans :: "(int \<times> int) list"

text \<open>\<open>sortSessionsByTokens\<close> is an insertion sort: stable, the most tokens first. A session comes with its active time.\<close>

definition sortSessionsByTokens :: "session_speed list \<Rightarrow> session_speed list" where
  "sortSessionsByTokens ss = sort_key (\<lambda>s. - sw_tokens s) ss"

definition LiveSpeedSince :: "event_row list \<Rightarrow> int \<Rightarrow> int \<Rightarrow> string \<Rightarrow> live_speed" where
  "LiveSpeedSince t startMS endMS device =
     (let rows = filter (\<lambda>r. startMS \<le> ev_ts r \<and> ev_ts r \<le> endMS \<and> measured r \<and> of_device device r) t;
          acc = foldl (live_step startMS endMS)
            \<lparr>la_sessions = [], la_sources = [], la_devices = [], la_models = [], la_tokens = 0, la_all = []\<rparr> rows
      in \<lparr>lv_tokens = la_tokens acc, lv_active = unionMS (la_all acc),
          lv_sessions = map (\<lambda>s. (s, unionMS (sw_spans s))) (sortSessionsByTokens (map snd (la_sessions acc))),
          lv_sources = buildSpeedContributions (la_sources acc), lv_devices = buildSpeedContributions (la_devices acc),
          lv_models = buildSpeedContributions (la_models acc), lv_spans = exportSpans (mergeSpans (la_all acc))\<rparr>)"

section \<open>Speed over time\<close>

text \<open>The part of an event's interval inside bucket \<open>i\<close>, which ends at \<open>limit\<close> at the latest.\<close>

definition bucket_span :: "int \<Rightarrow> int \<Rightarrow> int \<Rightarrow> int \<Rightarrow> int \<Rightarrow> int \<Rightarrow> span option" where
  "bucket_span startMS bucketMS limit evStart evEnd i =
     (let bStart = startMS + i * bucketMS; bEnd = min (bStart + bucketMS) limit;
          lo = max evStart bStart; hi = min evEnd bEnd
      in if hi \<le> lo then None else Some \<lparr>sp_start = lo, sp_end = hi\<rparr>)"

text \<open>The indices the loop visits: only the buckets the interval touches.\<close>

definition bucket_range :: "int \<Rightarrow> int \<Rightarrow> int \<Rightarrow> int \<Rightarrow> int \<Rightarrow> int \<Rightarrow> int list" where
  "bucket_range startMS endMS bucketMS n evStart evEnd =
     [max (go_quot (max evStart startMS - startMS) bucketMS) 0 .. min (go_quot (min evEnd endMS - startMS) bucketMS) (n - 1)]"

definition default_bucket :: "int \<Rightarrow> int" where
  "default_bucket bucketMS = (if bucketMS \<le> 0 then 60000 else bucketMS)"

record speed_bucket =
  sb_start :: int
  sb_tokens :: int
  sb_spans :: "span list"

definition series_put :: "event_row \<Rightarrow> int \<Rightarrow> span option \<Rightarrow> speed_bucket list \<Rightarrow> speed_bucket list" where
  "series_put r i iv out =
     (case iv of
        None \<Rightarrow> out
      | Some s \<Rightarrow> let b = out ! nat i
          in out[nat i := b\<lparr>sb_tokens := i64 (sb_tokens b +
               go_quot (i64 (ev_output_tokens r * (sp_end s - sp_start s))) (ev_gen_ms r)), sb_spans := sb_spans b @ [s]\<rparr>])"

definition series_step :: "int \<Rightarrow> int \<Rightarrow> int \<Rightarrow> int \<Rightarrow> speed_bucket list \<Rightarrow> event_row \<Rightarrow> speed_bucket list" where
  "series_step startMS endMS bucketMS n out r =
     (let evStart = ev_ts r - ev_gen_ms r; evEnd = ev_ts r
      in foldl (\<lambda>out i. series_put r i (bucket_span startMS bucketMS (startMS + (i + 1) * bucketMS) evStart evEnd i) out)
           out (bucket_range startMS endMS bucketMS n evStart evEnd))"

text \<open>A bucket of the result: its start, its tokens, its active time.\<close>

definition SpeedSeries :: "event_row list \<Rightarrow> int \<Rightarrow> int \<Rightarrow> int \<Rightarrow> string \<Rightarrow> (int \<times> int \<times> int) list" where
  "SpeedSeries t startMS endMS bucket device =
     (let bucketMS = default_bucket bucket; n = go_quot (endMS - startMS) bucketMS
      in if n \<le> 0 then []
         else map (\<lambda>b. (sb_start b, sb_tokens b, unionMS (sb_spans b)))
           (foldl (series_step startMS endMS bucketMS n)
             (map (\<lambda>i. \<lparr>sb_start = startMS + i * bucketMS, sb_tokens = 0, sb_spans = []\<rparr>) [0..n - 1])
             (filter (\<lambda>r. startMS < ev_ts r \<and> ev_ts r \<le> endMS \<and> measured r \<and> of_device device r) t)))"

section \<open>The telemetry series\<close>

record allocation =
  al_index :: int
  al_interval :: span
  al_tokens :: int
  al_remainder :: int

text \<open>Go's \<open>%\<close> has the sign of the dividend.\<close>

definition go_rem :: "int \<Rightarrow> int \<Rightarrow> int" where
  "go_rem a b = a - b * go_quot a b"

definition allocate :: "int \<Rightarrow> int \<Rightarrow> int \<Rightarrow> int \<Rightarrow> int \<Rightarrow> int \<Rightarrow> int \<Rightarrow> int \<Rightarrow> allocation list" where
  "allocate startMS endMS bucketMS n evStart evEnd tokens duration =
     List.map_filter (\<lambda>i. map_option (\<lambda>s. let numerator = i64 (tokens * (sp_end s - sp_start s))
         in \<lparr>al_index = i, al_interval = s, al_tokens = go_quot numerator duration, al_remainder = go_rem numerator duration\<rparr>)
         (bucket_span startMS bucketMS endMS evStart evEnd i))
       (bucket_range startMS endMS bucketMS n evStart evEnd)"

text \<open>One more token for each of the first \<open>k\<close>; \<open>None\<close> is the index out of range.\<close>

fun hand_out :: "nat \<Rightarrow> allocation list \<Rightarrow> allocation list option" where
  "hand_out 0 as = Some as"
| "hand_out (Suc k) [] = None"
| "hand_out (Suc k) (a # as) = map_option ((#) (a\<lparr>al_tokens := i64 (al_tokens a + 1)\<rparr>)) (hand_out k as)"

definition interval_ms :: "span \<Rightarrow> int" where "interval_ms s = sp_end s - sp_start s"

text \<open>The largest remainders get the tokens that rounding down has left over.\<close>

definition spread_tokens :: "int \<Rightarrow> int \<Rightarrow> int \<Rightarrow> int \<Rightarrow> int \<Rightarrow> int \<Rightarrow> int \<Rightarrow> allocation list option" where
  "spread_tokens startMS endMS bucketMS n ts genMS tokens =
     (let evStart = ts - genMS; duration = ts - evStart;
          allocations = allocate startMS endMS bucketMS n evStart ts tokens duration;
          covered = sum_list (map (\<lambda>a. interval_ms (al_interval a)) allocations);
          allocated = foldl (\<lambda>s a. i64 (s + al_tokens a)) 0 allocations;
          target = go_quot (i64 (tokens * covered)) duration
      in hand_out (nat (target - allocated)) (sort_key (\<lambda>a. (- al_remainder a, al_index a)) allocations))"

record telemetry_acc =
  ta_grouped :: "(string \<times> speed_acc) list list"
  ta_spans :: "span list list"

definition telemetry_put :: "string \<Rightarrow> telemetry_acc \<Rightarrow> allocation \<Rightarrow> telemetry_acc" where
  "telemetry_put key acc a =
     (let i = nat (al_index a)
      in \<lparr>ta_grouped = (ta_grouped acc)[i := addSpeedContribution (ta_grouped acc ! i) key (al_tokens a) (al_interval a)],
          ta_spans = (ta_spans acc)[i := ta_spans acc ! i @ [al_interval a]]\<rparr>)"

fun telemetry_loop :: "int \<Rightarrow> int \<Rightarrow> int \<Rightarrow> int \<Rightarrow> telemetry_acc \<Rightarrow> event_row list \<Rightarrow> telemetry_acc option" where
  "telemetry_loop startMS endMS bucketMS n acc [] = Some acc"
| "telemetry_loop startMS endMS bucketMS n acc (r # rows) =
     (if ev_ts r - (ev_ts r - ev_gen_ms r) \<le> 0 then telemetry_loop startMS endMS bucketMS n acc rows
      else case spread_tokens startMS endMS bucketMS n (ev_ts r) (ev_gen_ms r) (ev_output_tokens r) of
        None \<Rightarrow> None
      | Some as \<Rightarrow> telemetry_loop startMS endMS bucketMS n (foldl (telemetry_put (speedSourceKey (ev_source r))) acc as) rows)"

record telemetry_bucket =
  tb_start :: int
  tb_active :: int
  tb_sources :: "speed_contribution list"

definition telemetry_rows :: "int \<Rightarrow> int \<Rightarrow> event_row list \<Rightarrow> event_row list" where
  "telemetry_rows startMS endMS t = filter (\<lambda>r. startMS < ev_ts r \<and> ev_ts r \<le> endMS \<and> measured r) t"

text \<open>The outer \<open>None\<close> is a panic.\<close>

definition telemetry_series :: "event_row list \<Rightarrow> int \<Rightarrow> int \<Rightarrow> int \<Rightarrow> telemetry_bucket list option" where
  "telemetry_series t startMS endMS bucket =
     (let bucketMS = default_bucket bucket
      in if endMS \<le> startMS then Some []
         else let n = go_quot (endMS - startMS + bucketMS - 1) bucketMS
           in map_option (\<lambda>acc. map (\<lambda>i. \<lparr>tb_start = startMS + i * bucketMS, tb_active = unionMS (ta_spans acc ! nat i),
                tb_sources = sort_key sx_key (buildSpeedContributions (ta_grouped acc ! nat i))\<rparr>) [0..n - 1])
              (telemetry_loop startMS endMS bucketMS n
                \<lparr>ta_grouped = replicate (nat n) [], ta_spans = replicate (nat n) []\<rparr> (telemetry_rows startMS endMS t)))"

text \<open>What share of each source carries an interval.\<close>

record coverage =
  cv_key :: string
  cv_total_events :: int
  cv_measured_events :: int
  cv_total_tokens :: int
  cv_measured_tokens :: int

definition telemetry_coverage :: "event_row list \<Rightarrow> int \<Rightarrow> int \<Rightarrow> coverage list" where
  "telemetry_coverage t startMS endMS =
     sort_key cv_key (map (\<lambda>(k, rows). \<lparr>cv_key = k, cv_total_events = int (length rows),
         cv_measured_events = int (length (filter (\<lambda>r. ev_gen_ms r > 0) rows)),
         cv_total_tokens = sum_list (map ev_output_tokens rows),
         cv_measured_tokens = sum_list (map ev_output_tokens (filter (\<lambda>r. ev_gen_ms r > 0) rows))\<rparr>)
       (sql_group (\<lambda>r. speedSourceKey (ev_source r))
         (filter (\<lambda>r. startMS < ev_ts r \<and> ev_ts r \<le> endMS \<and> ev_output_tokens r > 0) t)))"

record telemetry_speed =
  tq_measured :: "string list"
  tq_unmeasured :: "string list"
  tq_coverage :: "coverage list"
  tq_series :: "telemetry_bucket list"

definition TelemetrySpeedSeries :: "event_row list \<Rightarrow> int \<Rightarrow> int \<Rightarrow> int \<Rightarrow> telemetry_speed option" where
  "TelemetrySpeedSeries t startMS endMS bucket =
     (let cv = (if endMS \<le> startMS then [] else telemetry_coverage t startMS endMS)
      in map_option (\<lambda>series.
          \<lparr>tq_measured = sort (map cv_key (filter (\<lambda>c. cv_measured_events c > 0) cv)),
           tq_unmeasured = sort (map cv_key (filter (\<lambda>c. cv_measured_events c = 0) cv)),
           tq_coverage = cv, tq_series = series\<rparr>)
        (telemetry_series t startMS endMS bucket))"

section \<open>Speed by model\<close>

text \<open>Twice the median, which may lie between two values, and the nearest-rank ninetieth percentile.\<close>

definition ttftQuantiles :: "int list \<Rightarrow> int \<times> int" where
  "ttftQuantiles values =
     (let n = length values; s = sort values
      in if n = 0 then (0, 0)
         else (if n mod 2 = 1 then 2 * s ! (n div 2) else s ! (n div 2 - 1) + s ! (n div 2),
               s ! (min ((9 * n + 9) div 10) n - 1)))"

record speed_model =
  sm_model :: string
  sm_tokens :: int
  sm_active :: int
  sm_samples :: int
  sm_streams :: int
  sm_all_events :: int
  sm_ttft_samples :: int
  sm_ttft :: "int \<times> int"
  sm_sources :: "string list"

definition eventCountByModel :: "event_row list \<Rightarrow> int \<Rightarrow> int \<Rightarrow> string \<Rightarrow> int" where
  "eventCountByModel t from1 to1 m =
     int (length (filter (\<lambda>r. ev_output_tokens r > 0 \<and> CanonicalModel (ev_model r) = m) (in_period from1 to1 t)))"

definition gen_span :: "event_row \<Rightarrow> span" where
  "gen_span r = \<lparr>sp_start = ev_ts r - ev_gen_ms r, sp_end = ev_ts r\<rparr>"

definition SpeedByModelUnion :: "event_row list \<Rightarrow> int \<Rightarrow> int \<Rightarrow> speed_model list" where
  "SpeedByModelUnion t from1 to1 =
     (let rows = filter measured (in_period from1 to1 t)
      in sort_key (\<lambda>s. - sm_tokens s) (map (\<lambda>(m, rs).
          let streams = sql_group (\<lambda>r. (ev_device r, ev_session_id r)) rs; ttfts = filter (\<lambda>x. x > 0) (map ev_ttft_ms rs)
          in \<lparr>sm_model = m, sm_tokens = sum_list (map ev_output_tokens rs),
              sm_active = sum_list (map (\<lambda>(k, ss). unionMS (map gen_span ss)) streams),
              sm_samples = int (length rs), sm_streams = int (length streams),
              sm_all_events = eventCountByModel t from1 to1 m, sm_ttft_samples = int (length ttfts),
              sm_ttft = ttftQuantiles ttfts, sm_sources = sort (remdups (filter (\<lambda>s. s \<noteq> []) (map ev_source rs)))\<rparr>)
        (sql_group (\<lambda>r. CanonicalModel (ev_model r)) rows)))"

end
