(* ===== verification/Speed_Properties.thy ===== *)
theory Speed_Properties
  imports Speed Work_Properties Usage_Properties
begin

text \<open>
  Distributing an event's tokens over the buckets of a series loses none: the parts of its interval tile what
  the window sees of it, the rounded shares add up, and the step that hands out the remainder never runs past
  the buckets it has.
\<close>

section \<open>The parts of an interval\<close>

definition overlap :: "int \<Rightarrow> int \<Rightarrow> int \<Rightarrow> int \<Rightarrow> int \<Rightarrow> int \<Rightarrow> int" where
  "overlap startMS bucketMS limit lo hi i =
     max 0 (min hi (min (startMS + (i + 1) * bucketMS) limit) - max lo (startMS + i * bucketMS))"

lemma div_below: "0 < b \<Longrightarrow> a < c * b \<Longrightarrow> a div b < (c :: int)"
proof (rule ccontr)
  assume b: "0 < b" and a: "a < c * b" and "\<not> a div b < c"
  then have "c * b \<le> a div b * b" by (intro mult_right_mono) auto
  also have "\<dots> \<le> a" using b by (simp add: minus_mod_eq_div_mult [symmetric])
  finally show False using a by simp
qed

lemma div_above: "0 < b \<Longrightarrow> c * b \<le> a \<Longrightarrow> c \<le> a div (b :: int)"
  using zdiv_mono1 [of "c * b" a b] by simp

lemma overlap_sum:
  assumes "0 < b" "start \<le> limit" "start \<le> lo" "lo \<le> hi" "hi \<le> limit"
  shows "(\<Sum>i\<leftarrow>map int [0..<k]. overlap start b limit lo hi i) = max 0 (min hi (min (start + int k * b) limit) - lo)"
proof (induction k)
  case 0
  then show ?case using assms by simp
next
  case (Suc k)
  let ?c = "start + int k * b"
  have "start \<le> ?c" using assms(1) by simp
  then have "max 0 (min hi (min ?c limit) - lo) + overlap start b limit lo hi (int k) =
      max 0 (min hi (min (?c + b) limit) - lo)"
    unfolding overlap_def using assms by (simp add: algebra_simps min_def max_def)
  then show ?case using Suc by (simp add: algebra_simps)
qed

lemma bucket_span_overlap:
  "bucket_span start b limit lo hi i =
     (if overlap start b limit lo hi i = 0 then None
      else Some \<lparr>sp_start = max lo (start + i * b), sp_end = min hi (min (start + (i + 1) * b) limit)\<rparr>)"
  by (auto simp: bucket_span_def overlap_def Let_def max_def min_def algebra_simps)

lemma overlap_outside:
  assumes "0 < b" "(i + 1) * b \<le> lo - start \<or> hi - start \<le> i * b"
  shows "overlap start b limit lo hi i = 0"
  using assms by (auto simp: overlap_def)

lemma overlap_nonneg: "0 \<le> overlap start b limit lo hi i"
  by (simp add: overlap_def)

text \<open>The buckets the loop visits are all the ones the interval touches.\<close>

lemma visited:
  assumes "0 < b" "start \<le> hi" "hi \<le> limit" "lo \<le> hi" "overlap start b limit lo hi i \<noteq> 0" "0 \<le> i" "i < n"
  shows "i \<in> set (bucket_range start limit b n lo hi)"
proof -
  let ?f = "(max lo start - start) div b" and ?l = "(hi - start) div b"
  have r: "bucket_range start limit b n lo hi = [max ?f 0..min ?l (n - 1)]"
    using assms by (simp add: bucket_range_def go_quot_nonneg min_absorb1)
  have "\<not> (i + 1) * b \<le> lo - start" "\<not> hi - start \<le> i * b" using overlap_outside [OF assms(1)] assms(5) by blast+
  then have "max lo start - start < (i + 1) * b" "i * b \<le> hi - start" using assms(1,6) by (auto simp: max_def)
  then have "?f < i + 1" "i \<le> ?l" using div_below [OF assms(1)] div_above [OF assms(1)] by blast+
  then show ?thesis unfolding r using assms(6,7) by simp
qed

section \<open>Sharing out the tokens\<close>

text \<open>Quotients and remainders of the shares of a product.\<close>

lemma shares_sum:
  fixes g :: "'a \<Rightarrow> int"
  assumes "0 < d"
  shows "(\<Sum>x\<leftarrow>xs. g x) div d = (\<Sum>x\<leftarrow>xs. g x div d) + (\<Sum>x\<leftarrow>xs. g x mod d) div d"
proof -
  have "(\<Sum>x\<leftarrow>xs. g x) = d * (\<Sum>x\<leftarrow>xs. g x div d) + (\<Sum>x\<leftarrow>xs. g x mod d)"
    by (induction xs) (simp_all add: algebra_simps mult_div_mod_eq)
  then show ?thesis using assms by simp
qed

lemma remainders_few:
  fixes g :: "'a \<Rightarrow> int"
  assumes "0 < d"
  shows "0 \<le> (\<Sum>x\<leftarrow>xs. g x mod d) div d \<and> (\<Sum>x\<leftarrow>xs. g x mod d) div d \<le> int (length xs)"
proof -
  have "0 \<le> (\<Sum>x\<leftarrow>xs. g x mod d)" using assms by (intro sum_list_nonneg) auto
  moreover have "(\<Sum>x\<leftarrow>xs. g x mod d) \<le> int (length xs) * d"
  proof (induction xs)
    case (Cons x xs)
    have "g x mod d < d" using assms by simp
    then show ?case using Cons by (simp add: algebra_simps)
  qed simp
  then have "(\<Sum>x\<leftarrow>xs. g x mod d) div d \<le> int (length xs) * d div d" using assms by (intro zdiv_mono1)
  ultimately show ?thesis using assms by (simp add: pos_imp_zdiv_nonneg_iff)
qed

lemma map_eq_nth: "map f xs = map f ys \<Longrightarrow> j < length ys \<Longrightarrow> f (xs ! j) = f (ys ! j)"
  by (metis length_map nth_map)

lemma hand_out_ok:
  "k \<le> length as \<Longrightarrow> \<forall>a\<in>set as. 0 \<le> al_tokens a \<and> al_tokens a < 2 ^ 63 - 1 \<Longrightarrow>
     \<exists>bs. hand_out k as = Some bs \<and> length bs = length as \<and> (\<Sum>a\<leftarrow>bs. al_tokens a) = (\<Sum>a\<leftarrow>as. al_tokens a) + int k \<and>
       map al_interval bs = map al_interval as \<and> map al_index bs = map al_index as \<and>
       (\<forall>i<length as. al_tokens (as ! i) \<le> al_tokens (bs ! i) \<and> al_tokens (bs ! i) \<le> al_tokens (as ! i) + 1)"
proof (induction k as rule: hand_out.induct)
  case (3 k a as)
  then obtain bs where bs: "hand_out k as = Some bs" "length bs = length as"
    "(\<Sum>a\<leftarrow>bs. al_tokens a) = (\<Sum>a\<leftarrow>as. al_tokens a) + int k" "map al_interval bs = map al_interval as" "map al_index bs = map al_index as"
    "\<forall>i<length as. al_tokens (as ! i) \<le> al_tokens (bs ! i) \<and> al_tokens (bs ! i) \<le> al_tokens (as ! i) + 1"
    by auto
  have "i64 (al_tokens a + 1) = al_tokens a + 1" using 3(3) by (intro i64_bounded) auto
  with bs show ?case by (auto simp: nth_Cons split: nat.splits)
qed auto

section \<open>Allocations\<close>

text \<open>What the series sees: a window of whole buckets, the last one cut at its end.\<close>

definition window :: "int \<Rightarrow> int \<Rightarrow> int \<Rightarrow> int \<Rightarrow> bool" where
  "window start limit b n \<longleftrightarrow> 0 < b \<and> start < limit \<and> 0 < n \<and> limit \<le> start + n * b"

definition seen :: "int \<Rightarrow> int \<Rightarrow> int \<Rightarrow> int \<Rightarrow> int \<Rightarrow> bool" where
  "seen start limit ts gen tokens \<longleftrightarrow> start < ts \<and> ts \<le> limit \<and> 0 < gen \<and> 0 < tokens \<and> tokens * gen < 2 ^ 63 - 1"

definition allocation_at :: "int \<Rightarrow> int \<Rightarrow> int \<Rightarrow> int \<Rightarrow> int \<Rightarrow> int \<Rightarrow> int \<Rightarrow> allocation" where
  "allocation_at start b limit ts gen tokens i =
     \<lparr>al_index = i, al_interval = \<lparr>sp_start = max (ts - gen) (start + i * b), sp_end = min ts (min (start + (i + 1) * b) limit)\<rparr>,
      al_tokens = tokens * overlap start b limit (ts - gen) ts i div gen,
      al_remainder = tokens * overlap start b limit (ts - gen) ts i mod gen\<rparr>"

lemma int_upto: "map int [0..<k] = [0..int k - 1]"
  by (rule sorted_distinct_set_unique) (auto simp: distinct_map image_iff sorted_iff_nth_mono intro!: bexI [of _ "nat _"])

lemma overlap_le:
  assumes "0 < gen" shows "overlap start b limit (ts - gen) ts i \<le> gen"
  using assms by (auto simp: overlap_def)

lemma product_fits:
  assumes "seen start limit ts gen tokens" "0 \<le> x" "x \<le> gen"
  shows "0 \<le> tokens * x" "i64 (tokens * x) = tokens * x"
    "go_quot (i64 (tokens * x)) gen = tokens * x div gen" "go_rem (i64 (tokens * x)) gen = tokens * x mod gen"
proof -
  show nn: "0 \<le> tokens * x" using assms by (simp add: seen_def)
  have "tokens * x \<le> tokens * gen" using assms by (intro mult_left_mono) (auto simp: seen_def)
  then have "tokens * x < 2 ^ 63" using assms(1) unfolding seen_def by linarith
  then show i: "i64 (tokens * x) = tokens * x" using nn by (intro i64_bounded) auto
  show "go_quot (i64 (tokens * x)) gen = tokens * x div gen" "go_rem (i64 (tokens * x)) gen = tokens * x mod gen"
    using nn assms(1) unfolding i go_rem_def by (auto simp: seen_def go_quot_nonneg minus_mult_div_eq_mod)
qed

lemma allocate_map:
  assumes w: "window start limit b n" and v: "seen start limit ts gen tokens"
  shows "allocate start limit b n (ts - gen) ts tokens gen =
      map (allocation_at start b limit ts gen tokens) (filter (\<lambda>i. overlap start b limit (ts - gen) ts i \<noteq> 0) [0..n - 1])"
proof -
  let ?ov = "overlap start b limit (ts - gen) ts" and ?range = "bucket_range start limit b n (ts - gen) ts"
  have "0 < gen" using v by (simp add: seen_def)
  have span: "interval_ms \<lparr>sp_start = max (ts - gen) (start + i * b), sp_end = min ts (min (start + (i + 1) * b) limit)\<rparr> = ?ov i"
    if "?ov i \<noteq> 0" for i
  proof -
    have "max 0 x \<noteq> 0 \<Longrightarrow> x = max 0 x" for x :: int by (simp add: max_def split: if_splits)
    then show ?thesis using that unfolding overlap_def interval_ms_def span.select_convs .
  qed
  have "allocate start limit b n (ts - gen) ts tokens gen =
      map (allocation_at start b limit ts gen tokens) (filter (\<lambda>i. ?ov i \<noteq> 0) ?range)"
    unfolding allocate_def List.map_filter_def
  proof (rule map_cong)
    fix i assume "i \<in> set (filter (\<lambda>i. ?ov i \<noteq> 0) ?range)"
    then have "?ov i \<noteq> 0" by simp
    with span [OF this] product_fits [OF v overlap_nonneg overlap_le [OF \<open>0 < gen\<close>], of start b limit ts i]
    show "(the \<circ> (\<lambda>i. map_option (\<lambda>s. let numerator = i64 (tokens * (sp_end s - sp_start s))
         in \<lparr>al_index = i, al_interval = s, al_tokens = go_quot numerator gen, al_remainder = go_rem numerator gen\<rparr>)
         (bucket_span start b limit (ts - gen) ts i))) i = allocation_at start b limit ts gen tokens i"
      by (simp add: bucket_span_overlap allocation_at_def interval_ms_def Let_def)
  qed (auto simp: bucket_span_overlap intro!: filter_cong)
  moreover have "filter (\<lambda>i. ?ov i \<noteq> 0) ?range = filter (\<lambda>i. ?ov i \<noteq> 0) [0..n - 1]"
  proof (rule sorted_distinct_set_unique)
    have "i \<in> set ?range" if "?ov i \<noteq> 0" "0 \<le> i" "i \<le> n - 1" for i
      using that w v by (intro visited) (auto simp: window_def seen_def)
    moreover have "set ?range \<subseteq> {0..n - 1}" by (auto simp: bucket_range_def)
    ultimately show "set (filter (\<lambda>i. ?ov i \<noteq> 0) ?range) = set (filter (\<lambda>i. ?ov i \<noteq> 0) [0..n - 1])" by auto
  qed (auto simp: bucket_range_def intro!: sorted_filter [of id, simplified])
  ultimately show ?thesis by simp
qed

lemma covered_sum:
  assumes w: "window start limit b n" and v: "seen start limit ts gen tokens"
  shows "(\<Sum>i\<leftarrow>filter (\<lambda>i. overlap start b limit (ts - gen) ts i \<noteq> 0) [0..n - 1]. overlap start b limit (ts - gen) ts i) =
      ts - max (ts - gen) start"
proof -
  let ?ov = "overlap start b limit"
  have same: "?ov (ts - gen) ts i = ?ov (max (ts - gen) start) ts i" if "0 \<le> i" for i
  proof -
    have "start \<le> start + i * b" using w that by (simp add: window_def)
    then have "max (max (ts - gen) start) (start + i * b) = max (ts - gen) (start + i * b)" by linarith
    then show ?thesis by (simp add: overlap_def)
  qed
  have "(\<Sum>i\<leftarrow>filter (\<lambda>i. ?ov (ts - gen) ts i \<noteq> 0) xs. ?ov (ts - gen) ts i) = (\<Sum>i\<leftarrow>xs. ?ov (ts - gen) ts i)" for xs
    by (induction xs) auto
  then have "(\<Sum>i\<leftarrow>filter (\<lambda>i. ?ov (ts - gen) ts i \<noteq> 0) [0..n - 1]. ?ov (ts - gen) ts i) = (\<Sum>i\<leftarrow>[0..n - 1]. ?ov (max (ts - gen) start) ts i)"
    using same by (auto intro!: arg_cong [of _ _ sum_list] map_cong)
  also have "\<dots> = (\<Sum>i\<leftarrow>map int [0..<nat n]. ?ov (max (ts - gen) start) ts i)"
    using w unfolding int_upto by (simp add: window_def)
  also have "\<dots> = max 0 (min ts (min (start + int (nat n) * b) limit) - max (ts - gen) start)"
    using w v by (intro overlap_sum) (auto simp: window_def seen_def)
  finally show ?thesis using w v by (auto simp: window_def seen_def)
qed

section \<open>Spreading an event's tokens\<close>

lemma spread_tokens_ok:
  assumes w: "window start limit b n" and v: "seen start limit ts gen tokens"
  obtains as where "spread_tokens start limit b n ts gen tokens = Some as"
    "(\<Sum>a\<leftarrow>as. al_tokens a) = tokens * (ts - max (ts - gen) start) div gen"
    "\<forall>a\<in>set as. 0 \<le> al_index a \<and> al_index a < n \<and>
       al_interval a = al_interval (allocation_at start b limit ts gen tokens (al_index a)) \<and>
       overlap start b limit (ts - gen) ts (al_index a) \<noteq> 0 \<and>
       tokens * interval_ms (al_interval a) div gen \<le> al_tokens a \<and> al_tokens a \<le> tokens * interval_ms (al_interval a) div gen + 1"
    "mset (map al_index as) = mset (filter (\<lambda>i. overlap start b limit (ts - gen) ts i \<noteq> 0) [0..n - 1])"
proof -
  let ?ov = "overlap start b limit (ts - gen) ts" and ?at = "allocation_at start b limit ts gen tokens"
  let ?is = "filter (\<lambda>i. ?ov i \<noteq> 0) [0..n - 1]"
  let ?as = "map ?at ?is" and ?total = "ts - max (ts - gen) start"
  let ?sorted = "sort_key (\<lambda>a. (- al_remainder a, al_index a)) ?as"
  have gen: "0 < gen" using v by (simp add: seen_def)
  have cov: "(\<Sum>i\<leftarrow>?is. ?ov i) = ?total" by (rule covered_sum [OF w v])
  have ms: "interval_ms (al_interval (?at i)) = ?ov i" if "?ov i \<noteq> 0" for i
  proof -
    have "max 0 x \<noteq> 0 \<Longrightarrow> x = max 0 x" for x :: int by (simp add: max_def split: if_splits)
    then show ?thesis using that unfolding overlap_def interval_ms_def allocation_at_def span.select_convs allocation.select_convs .
  qed
  have covered: "(\<Sum>a\<leftarrow>?as. interval_ms (al_interval a)) = ?total"
    unfolding cov [symmetric] map_map by (rule arg_cong [of _ _ sum_list], rule map_cong) (use ms in auto)
  have total: "0 \<le> ?total" "?total \<le> gen" using v by (auto simp: seen_def)
  note whole = product_fits [OF v total]
  have fits: "tokens * x div gen \<le> tokens * gen" if "0 \<le> x" "x \<le> gen" for x
  proof -
    have "tokens * x div gen \<le> tokens * x" using product_fits(1) [OF v that] gen zdiv_mono2 [of "tokens * x" 1 gen] by simp
    also have "\<dots> \<le> tokens * gen" using that v by (intro mult_left_mono) (auto simp: seen_def)
    finally show ?thesis .
  qed
  have one: "0 \<le> tokens * ?ov i div gen \<and> tokens * ?ov i div gen < 2 ^ 63 - 1" for i
    using product_fits(1) [OF v overlap_nonneg overlap_le [OF gen], of start b limit ts i] gen fits [OF overlap_nonneg overlap_le [OF gen], of start b limit ts i] v
    by (auto simp: seen_def pos_imp_zdiv_nonneg_iff)
  have split: "tokens * ?total div gen = (\<Sum>i\<leftarrow>?is. tokens * ?ov i div gen) + (\<Sum>i\<leftarrow>?is. tokens * ?ov i mod gen) div gen"
    using shares_sum [OF gen, of "\<lambda>i. tokens * ?ov i" ?is] by (simp add: sum_list_const_mult cov)
  have few: "0 \<le> (\<Sum>i\<leftarrow>?is. tokens * ?ov i mod gen) div gen" "(\<Sum>i\<leftarrow>?is. tokens * ?ov i mod gen) div gen \<le> int (length ?is)"
    using remainders_few [OF gen, of "\<lambda>i. tokens * ?ov i" ?is] by auto
  have tok: "(\<Sum>a\<leftarrow>?as. al_tokens a) = (\<Sum>i\<leftarrow>?is. tokens * ?ov i div gen)" by (simp add: allocation_at_def comp_def)
  have small: "\<forall>a\<in>set ?as. 0 \<le> al_tokens a \<and> al_tokens a < 2 ^ 63 - 1" using one by (auto simp: allocation_at_def)
  have "(\<Sum>a\<leftarrow>?as. al_tokens a) \<le> tokens * ?total div gen" unfolding tok split using few by simp
  also have "\<dots> < 2 ^ 63" using fits [OF total] v unfolding seen_def by linarith
  finally have "foldl (\<lambda>s x. i64 (s + x)) 0 (map al_tokens ?as) = 0 + (\<Sum>a\<leftarrow>?as. al_tokens a)"
    using small by (intro fold_i64_sum) auto
  then have allocated: "foldl (\<lambda>s a. i64 (s + al_tokens a)) 0 ?as = (\<Sum>a\<leftarrow>?as. al_tokens a)" by (simp add: foldl_map comp_def)
  let ?k = "nat (tokens * ?total div gen - (\<Sum>a\<leftarrow>?as. al_tokens a))"
  have spread: "spread_tokens start limit b n ts gen tokens = hand_out ?k ?sorted"
    unfolding spread_tokens_def Let_def using allocate_map [OF w v] covered allocated whole(3) by simp
  have k: "int ?k = (\<Sum>i\<leftarrow>?is. tokens * ?ov i mod gen) div gen" using few(1) unfolding tok split by simp
  have "int ?k \<le> int (length ?is)" unfolding k by (rule few(2))
  then have "?k \<le> length ?sorted" by (simp only: of_nat_le_iff length_sort length_map)
  moreover have "\<forall>a\<in>set ?sorted. 0 \<le> al_tokens a \<and> al_tokens a < 2 ^ 63 - 1" using small by simp
  ultimately obtain bs where bs: "hand_out ?k ?sorted = Some bs" "length bs = length ?sorted"
    "(\<Sum>a\<leftarrow>bs. al_tokens a) = (\<Sum>a\<leftarrow>?sorted. al_tokens a) + int ?k" "map al_interval bs = map al_interval ?sorted"
    "map al_index bs = map al_index ?sorted"
    "\<forall>i<length ?sorted. al_tokens (?sorted ! i) \<le> al_tokens (bs ! i) \<and> al_tokens (bs ! i) \<le> al_tokens (?sorted ! i) + 1"
    using hand_out_ok by blast
  show thesis
  proof
    show "spread_tokens start limit b n ts gen tokens = Some bs" using spread bs(1) by simp
    have "(\<Sum>a\<leftarrow>?sorted. al_tokens a) = (\<Sum>a\<leftarrow>?as. al_tokens a)" by (rule sum_list_sort_key)
    then show "(\<Sum>a\<leftarrow>bs. al_tokens a) = tokens * ?total div gen" unfolding bs(3) k tok split using few(1) by simp
    show "mset (map al_index bs) = mset ?is"
    proof -
      have "map al_index ?as = ?is" by (simp add: allocation_at_def comp_def)
      moreover have "mset (map al_index (sort_key g xs)) = mset (map al_index xs)" for g :: "allocation \<Rightarrow> int \<times> int" and xs by simp
      ultimately show ?thesis unfolding bs(5) by metis
    qed
    show "\<forall>a\<in>set bs. 0 \<le> al_index a \<and> al_index a < n \<and>
       al_interval a = al_interval (?at (al_index a)) \<and> ?ov (al_index a) \<noteq> 0 \<and>
       tokens * interval_ms (al_interval a) div gen \<le> al_tokens a \<and> al_tokens a \<le> tokens * interval_ms (al_interval a) div gen + 1"
    proof
      fix a assume "a \<in> set bs"
      then obtain j where j: "j < length ?sorted" "a = bs ! j" by (metis bs(2) in_set_conv_nth)
      from nth_mem [OF j(1)] have "?sorted ! j \<in> set ?as" unfolding set_sort .
      then obtain i where i: "?sorted ! j = ?at i" "0 \<le> i" "i \<le> n - 1" "?ov i \<noteq> 0" by auto
      have "al_index a = al_index (?at i)" "al_interval a = al_interval (?at i)"
        unfolding j(2) i(1) [symmetric] by (rule map_eq_nth [OF bs(5) j(1)], rule map_eq_nth [OF bs(4) j(1)])
      moreover have "al_index (?at i) = i" by (simp add: allocation_at_def)
      moreover have "al_tokens (?at i) = tokens * ?ov i div gen" by (simp add: allocation_at_def)
      moreover have "al_tokens (?at i) \<le> al_tokens a" "al_tokens a \<le> al_tokens (?at i) + 1"
        using bs(6) j(1) unfolding j(2) i(1) [symmetric] by blast+
      ultimately show "0 \<le> al_index a \<and> al_index a < n \<and>
         al_interval a = al_interval (?at (al_index a)) \<and> ?ov (al_index a) \<noteq> 0 \<and>
         tokens * interval_ms (al_interval a) div gen \<le> al_tokens a \<and> al_tokens a \<le> tokens * interval_ms (al_interval a) div gen + 1"
        using i(2,3,4) ms [OF i(4)] by simp
    qed
  qed
qed

section \<open>The series\<close>

definition group_tokens :: "(string \<times> speed_acc) list \<Rightarrow> int" where
  "group_tokens gs = (\<Sum>g\<leftarrow>gs. sa_tokens (snd g))"

definition series_tokens :: "telemetry_acc \<Rightarrow> int" where
  "series_tokens acc = (\<Sum>gs\<leftarrow>ta_grouped acc. group_tokens gs)"

definition acc_ok :: "int \<Rightarrow> telemetry_acc \<Rightarrow> bool" where
  "acc_ok n acc \<longleftrightarrow> length (ta_grouped acc) = nat n \<and> length (ta_spans acc) = nat n \<and>
     (\<forall>gs\<in>set (ta_grouped acc). \<forall>g\<in>set gs. 0 \<le> sa_tokens (snd g)) \<and> (\<forall>ss\<in>set (ta_spans acc). proper ss)"

lemma group_tokens_nonneg: "\<forall>g\<in>set gs. 0 \<le> sa_tokens (snd g) \<Longrightarrow> 0 \<le> group_tokens gs"
  by (auto simp: group_tokens_def intro!: sum_list_nonneg)

lemma add_tokens:
  "\<forall>g\<in>set gs. 0 \<le> sa_tokens (snd g) \<Longrightarrow> 0 \<le> x \<Longrightarrow> group_tokens gs + x < 2 ^ 63 \<Longrightarrow>
     group_tokens (addSpeedContribution gs key x iv) = group_tokens gs + x \<and>
     (\<forall>g\<in>set (addSpeedContribution gs key x iv). 0 \<le> sa_tokens (snd g))"
proof (induction gs key x iv rule: addSpeedContribution.induct)
  case (1 key tokens iv)
  then have "i64 (0 + tokens) = tokens" by (subst i64_bounded) (simp_all add: group_tokens_def)
  then show ?case using 1 by (simp add: group_tokens_def)
next
  case (2 k a gs key tokens iv)
  have nn: "0 \<le> group_tokens gs" "0 \<le> sa_tokens a" using 2(2) by (auto intro: group_tokens_nonneg)
  have "group_tokens ((k, a) # gs) = sa_tokens a + group_tokens gs" by (simp add: group_tokens_def)
  then have "i64 (sa_tokens a + tokens) = sa_tokens a + tokens" "group_tokens gs + tokens < 2 ^ 63"
    using 2(3,4) nn by (auto intro!: i64_bounded)
  then show ?case using 2 nn by (auto simp: group_tokens_def)
qed

lemma sum_list_set: "i < length xs \<Longrightarrow> (\<Sum>x\<leftarrow>xs[i := v]. f x) = (\<Sum>x\<leftarrow>xs. f x) - f (xs ! i) + (f v :: int)"
  by (induction xs arbitrary: i) (auto split: nat.splits)

lemma telemetry_put_ok:
  assumes "acc_ok n acc" "0 \<le> al_index a" "al_index a < n" "0 \<le> al_tokens a" "sp_start (al_interval a) \<le> sp_end (al_interval a)"
    and "series_tokens acc + al_tokens a < 2 ^ 63"
  shows "acc_ok n (telemetry_put key acc a) \<and> series_tokens (telemetry_put key acc a) = series_tokens acc + al_tokens a \<and>
     (\<forall>j. 0 \<le> j \<and> j < n \<longrightarrow> cells (ta_spans (telemetry_put key acc a) ! nat j) =
        cells (ta_spans acc ! nat j) \<union> (if al_index a = j then cells [al_interval a] else {}))"
proof -
  let ?i = "nat (al_index a)"
  let ?gs = "ta_grouped acc ! ?i"
  have i: "?i < length (ta_grouped acc)" "?i < length (ta_spans acc)" using assms(1-3) by (auto simp: acc_ok_def)
  have gs: "\<forall>g\<in>set ?gs. 0 \<le> sa_tokens (snd g)" using assms(1) i by (auto simp: acc_ok_def)
  have "group_tokens ?gs \<le> series_tokens acc"
    unfolding series_tokens_def using assms(1) i by (intro member_le_sum_list) (auto simp: acc_ok_def intro: group_tokens_nonneg)
  then have "group_tokens ?gs + al_tokens a < 2 ^ 63" using assms(6) by simp
  note add = add_tokens [OF gs assms(4) this, of key "al_interval a"]
  have "series_tokens (telemetry_put key acc a) = series_tokens acc + al_tokens a"
    using add i by (simp add: series_tokens_def telemetry_put_def Let_def sum_list_set)
  moreover have "proper (ta_spans acc ! ?i)" using assms(1) i by (simp add: acc_ok_def)
  then have "acc_ok n (telemetry_put key acc a)"
    using assms(1,5) add i by (auto simp: acc_ok_def telemetry_put_def Let_def proper_def dest!: set_update_subset_insert [THEN subsetD])
  moreover have "\<forall>j. 0 \<le> j \<and> j < n \<longrightarrow> cells (ta_spans (telemetry_put key acc a) ! nat j) =
      cells (ta_spans acc ! nat j) \<union> (if al_index a = j then cells [al_interval a] else {})"
    using i assms(2) by (auto simp: telemetry_put_def Let_def nth_list_update eq_nat_nat_iff)
  ultimately show ?thesis by blast
qed

lemma telemetry_puts:
  "acc_ok n acc \<Longrightarrow>
   \<forall>a\<in>set as. 0 \<le> al_index a \<and> al_index a < n \<and> 0 \<le> al_tokens a \<and> sp_start (al_interval a) \<le> sp_end (al_interval a) \<Longrightarrow>
   series_tokens acc + (\<Sum>a\<leftarrow>as. al_tokens a) < 2 ^ 63 \<Longrightarrow>
   acc_ok n (foldl (telemetry_put key) acc as) \<and>
   series_tokens (foldl (telemetry_put key) acc as) = series_tokens acc + (\<Sum>a\<leftarrow>as. al_tokens a) \<and>
   (\<forall>j. 0 \<le> j \<and> j < n \<longrightarrow> cells (ta_spans (foldl (telemetry_put key) acc as) ! nat j) =
      cells (ta_spans acc ! nat j) \<union> (\<Union>a\<in>{a \<in> set as. al_index a = j}. cells [al_interval a]))"
proof (induction as arbitrary: acc)
  case (Cons a as)
  have "0 \<le> (\<Sum>a\<leftarrow>as. al_tokens a)" using Cons.prems(2) by (intro sum_list_nonneg) auto
  then have "series_tokens acc + al_tokens a < 2 ^ 63" using Cons.prems(3) by simp
  with telemetry_put_ok [OF Cons.prems(1), of a key] Cons.prems(2)
  have put: "acc_ok n (telemetry_put key acc a)" "series_tokens (telemetry_put key acc a) = series_tokens acc + al_tokens a"
    "\<And>j. 0 \<le> j \<Longrightarrow> j < n \<Longrightarrow> cells (ta_spans (telemetry_put key acc a) ! nat j) =
        cells (ta_spans acc ! nat j) \<union> (if al_index a = j then cells [al_interval a] else {})"
    by auto
  have "\<forall>j. 0 \<le> j \<and> j < n \<longrightarrow> cells (ta_spans acc ! nat j) \<union> (if al_index a = j then cells [al_interval a] else {}) \<union>
      (\<Union>a\<in>{a \<in> set as. al_index a = j}. cells [al_interval a]) =
      cells (ta_spans acc ! nat j) \<union> (\<Union>a\<in>{x \<in> set (a # as). al_index x = j}. cells [al_interval a])"
    by auto
  then show ?case using Cons.IH [OF put(1)] Cons.prems(2,3) put(2,3) by (simp del: cells_simps)
qed simp

text \<open>What bucket \<open>j\<close> sees of time, and the share of an event's tokens that falls in the window.\<close>

definition bucket_ms :: "int \<Rightarrow> int \<Rightarrow> int \<Rightarrow> int \<Rightarrow> int set" where
  "bucket_ms start b limit j = {start + j * b..<min (start + (j + 1) * b) limit}"

definition event_ms :: "event_row \<Rightarrow> int set" where
  "event_ms r = {ev_ts r - ev_gen_ms r..<ev_ts r}"

definition share :: "int \<Rightarrow> event_row \<Rightarrow> int" where
  "share start r = ev_output_tokens r * (ev_ts r - max (ev_ts r - ev_gen_ms r) start) div ev_gen_ms r"

definition seen_row :: "int \<Rightarrow> int \<Rightarrow> event_row \<Rightarrow> bool" where
  "seen_row start limit r \<longleftrightarrow> seen start limit (ev_ts r) (ev_gen_ms r) (ev_output_tokens r)"

lemma share_bounds:
  assumes "seen_row start limit r" shows "0 \<le> share start r" "share start r \<le> ev_output_tokens r"
proof -
  let ?x = "ev_ts r - max (ev_ts r - ev_gen_ms r) start"
  have v: "0 < ev_gen_ms r" "0 \<le> ?x" "?x \<le> ev_gen_ms r" "0 < ev_output_tokens r" using assms by (auto simp: seen_row_def seen_def)
  then show "0 \<le> share start r" by (simp add: share_def pos_imp_zdiv_nonneg_iff)
  have "ev_output_tokens r * ?x \<le> ev_output_tokens r * ev_gen_ms r" using v by (intro mult_left_mono) auto
  then have "share start r \<le> ev_output_tokens r * ev_gen_ms r div ev_gen_ms r" unfolding share_def using v by (intro zdiv_mono1)
  then show "share start r \<le> ev_output_tokens r" using v by simp
qed

lemma spread_cells:
  assumes "mset (map al_index as) = mset (filter (\<lambda>i. overlap start b limit lo hi i \<noteq> 0) [0..n - 1])"
    and "\<forall>a\<in>set as. al_interval a = \<lparr>sp_start = max lo (start + al_index a * b), sp_end = min hi (min (start + (al_index a + 1) * b) limit)\<rparr>"
    and "0 \<le> j" "j < n"
  shows "(\<Union>a\<in>{a \<in> set as. al_index a = j}. cells [al_interval a]) = {lo..<hi} \<inter> bucket_ms start b limit j"
proof (cases "overlap start b limit lo hi j = 0")
  case True
  have "al_index ` set as = set (filter (\<lambda>i. overlap start b limit lo hi i \<noteq> 0) [0..n - 1])"
    using mset_eq_setD [OF assms(1)] by simp
  then have "{a \<in> set as. al_index a = j} = {}" using True by auto
  moreover have "{lo..<hi} \<inter> bucket_ms start b limit j = {}"
  proof -
    have "min hi (min (start + (j + 1) * b) limit) \<le> max lo (start + j * b)" using True by (simp add: overlap_def)
    then show ?thesis by (auto simp: bucket_ms_def)
  qed
  ultimately show ?thesis by (simp only: UN_empty)
next
  case False
  then have "j \<in> set (map al_index as)" using mset_eq_setD [OF assms(1)] assms(3,4) by simp
  then obtain a where a: "a \<in> set as" "al_index a = j" by auto
  have "cells [al_interval a'] = {lo..<hi} \<inter> bucket_ms start b limit j" if "a' \<in> set as" "al_index a' = j" for a'
  proof -
    have "al_interval a' = \<lparr>sp_start = max lo (start + j * b), sp_end = min hi (min (start + (j + 1) * b) limit)\<rparr>"
      using assms(2) that by blast
    then show ?thesis by (auto simp: bucket_ms_def)
  qed
  then show ?thesis using a by blast
qed

lemma telemetry_loop_ok:
  assumes w: "window start limit b n"
  shows "acc_ok n acc \<Longrightarrow> \<forall>r\<in>set rows. seen_row start limit r \<Longrightarrow> series_tokens acc + (\<Sum>r\<leftarrow>rows. share start r) < 2 ^ 63 \<Longrightarrow>
     \<exists>acc'. telemetry_loop start limit b n acc rows = Some acc' \<and> acc_ok n acc' \<and>
       series_tokens acc' = series_tokens acc + (\<Sum>r\<leftarrow>rows. share start r) \<and>
       (\<forall>j. 0 \<le> j \<and> j < n \<longrightarrow> cells (ta_spans acc' ! nat j) =
          cells (ta_spans acc ! nat j) \<union> (\<Union>r\<in>set rows. event_ms r \<inter> bucket_ms start b limit j))"
proof (induction rows arbitrary: acc)
  case (Cons r rows)
  have v: "seen start limit (ev_ts r) (ev_gen_ms r) (ev_output_tokens r)" using Cons.prems(2) by (simp add: seen_row_def)
  obtain as where sp: "spread_tokens start limit b n (ev_ts r) (ev_gen_ms r) (ev_output_tokens r) = Some as"
    and sum: "(\<Sum>a\<leftarrow>as. al_tokens a) = share start r"
    and each: "\<forall>a\<in>set as. 0 \<le> al_index a \<and> al_index a < n \<and>
       al_interval a = al_interval (allocation_at start b limit (ev_ts r) (ev_gen_ms r) (ev_output_tokens r) (al_index a)) \<and>
       overlap start b limit (ev_ts r - ev_gen_ms r) (ev_ts r) (al_index a) \<noteq> 0 \<and>
       ev_output_tokens r * interval_ms (al_interval a) div ev_gen_ms r \<le> al_tokens a \<and>
       al_tokens a \<le> ev_output_tokens r * interval_ms (al_interval a) div ev_gen_ms r + 1"
    and idx: "mset (map al_index as) = mset (filter (\<lambda>i. overlap start b limit (ev_ts r - ev_gen_ms r) (ev_ts r) i \<noteq> 0) [0..n - 1])"
    using spread_tokens_ok [OF w v] unfolding share_def by metis
  have iv: "\<forall>a\<in>set as. al_interval a = \<lparr>sp_start = max (ev_ts r - ev_gen_ms r) (start + al_index a * b),
      sp_end = min (ev_ts r) (min (start + (al_index a + 1) * b) limit)\<rparr>"
    using each by (simp add: allocation_at_def)
  have good: "\<forall>a\<in>set as. 0 \<le> al_index a \<and> al_index a < n \<and> 0 \<le> al_tokens a \<and> sp_start (al_interval a) \<le> sp_end (al_interval a)"
  proof
    fix a assume a: "a \<in> set as"
    have positive: "max 0 x \<noteq> 0 \<Longrightarrow> 0 \<le> x" for x :: int by (simp add: max_def split: if_splits)
    have "overlap start b limit (ev_ts r - ev_gen_ms r) (ev_ts r) (al_index a) \<noteq> 0" using each a by blast
    from positive [OF this [unfolded overlap_def]] iv a have proper: "sp_start (al_interval a) \<le> sp_end (al_interval a)" by simp
    then have "0 \<le> ev_output_tokens r * interval_ms (al_interval a) div ev_gen_ms r"
      using v by (simp add: seen_def interval_ms_def pos_imp_zdiv_nonneg_iff)
    then show "0 \<le> al_index a \<and> al_index a < n \<and> 0 \<le> al_tokens a \<and> sp_start (al_interval a) \<le> sp_end (al_interval a)"
      using proper each a order_trans by blast
  qed
  have rest: "0 \<le> (\<Sum>r\<leftarrow>rows. share start r)" using Cons.prems(2) share_bounds(1) by (intro sum_list_nonneg) auto
  have "series_tokens acc + (\<Sum>a\<leftarrow>as. al_tokens a) < 2 ^ 63" unfolding sum using Cons.prems(3) rest by simp
  note put = telemetry_puts [OF Cons.prems(1) good this, of "speedSourceKey (ev_source r)"]
  let ?acc = "foldl (telemetry_put (speedSourceKey (ev_source r))) acc as"
  have loop: "telemetry_loop start limit b n acc (r # rows) = telemetry_loop start limit b n ?acc rows"
    using sp v by (simp add: seen_def)
  have "series_tokens ?acc + (\<Sum>r\<leftarrow>rows. share start r) < 2 ^ 63" using put Cons.prems(3) sum by simp
  then obtain acc' where acc': "telemetry_loop start limit b n ?acc rows = Some acc'" "acc_ok n acc'"
    "series_tokens acc' = series_tokens ?acc + (\<Sum>r\<leftarrow>rows. share start r)"
    "\<And>j. 0 \<le> j \<Longrightarrow> j < n \<Longrightarrow> cells (ta_spans acc' ! nat j) =
        cells (ta_spans ?acc ! nat j) \<union> (\<Union>r\<in>set rows. event_ms r \<inter> bucket_ms start b limit j)"
    using Cons.IH [of ?acc] put Cons.prems(2) by auto
  have "cells (ta_spans acc' ! nat j) = cells (ta_spans acc ! nat j) \<union> (\<Union>r\<in>set (r # rows). event_ms r \<inter> bucket_ms start b limit j)"
    if "0 \<le> j" "j < n" for j
    using acc'(4) [OF that] put that spread_cells [OF idx iv that] by (auto simp: event_ms_def)
  then show ?case unfolding loop using acc' put sum by simp
qed simp

lemma series_window:
  assumes "0 < b" "start < limit"
  shows "window start limit b (go_quot (limit - start + b - 1) b)"
proof -
  let ?x = "limit - start + b - 1"
  have q: "go_quot ?x b = ?x div b" using assms by (intro go_quot_nonneg) auto
  have "1 \<le> ?x div b" using assms by (intro div_above) auto
  moreover have "?x div b * b = ?x - ?x mod b" by (simp add: minus_mod_eq_div_mult)
  moreover have "?x mod b \<le> b - 1" using assms(1) by simp
  ultimately show ?thesis unfolding window_def q using assms by linarith
qed

text \<open>
  C31. The telemetry series loses no token and invents none: whatever the bucket width, its points add up to the
  tokens of the events, each event counted with the share of its generation time that lies in the window, a
  whole event whole; handing out the rounding never runs past the buckets; and each point's active time is the
  measure of the time some event was generating in it. The counts times durations fit in 64 bits.
\<close>

theorem telemetry_conserves_tokens:
  assumes "startMS < endMS" "rows = telemetry_rows startMS endMS t"
    and fit: "\<forall>r\<in>set rows. ev_output_tokens r * ev_gen_ms r < 2 ^ 63 - 1" "(\<Sum>r\<leftarrow>rows. ev_output_tokens r) < 2 ^ 63"
  shows "\<exists>series. telemetry_series t startMS endMS bucket = Some series \<and>
     (\<Sum>p\<leftarrow>series. \<Sum>c\<leftarrow>tb_sources p. sx_tokens c) = (\<Sum>r\<leftarrow>rows. share startMS r) \<and>
     (\<forall>r\<in>set rows. startMS \<le> ev_ts r - ev_gen_ms r \<longrightarrow> share startMS r = ev_output_tokens r) \<and>
     (\<forall>p\<in>set series. tb_active p =
        int (card ({tb_start p..<min (tb_start p + default_bucket bucket) endMS} \<inter> (\<Union>r\<in>set rows. event_ms r))))"
proof -
  let ?b = "default_bucket bucket"
  let ?n = "go_quot (endMS - startMS + ?b - 1) ?b"
  let ?empty = "\<lparr>ta_grouped = replicate (nat ?n) [], ta_spans = replicate (nat ?n) []\<rparr>"
  have w: "window startMS endMS ?b ?n" using assms(1) by (intro series_window) (simp_all add: default_bucket_def)
  have seen: "\<forall>r\<in>set rows. seen_row startMS endMS r"
    using fit(1) unfolding assms(2) by (auto simp: telemetry_rows_def measured_def seen_row_def seen_def)
  have zero: "acc_ok ?n ?empty" "series_tokens ?empty = 0"
    by (simp_all add: acc_ok_def proper_def series_tokens_def group_tokens_def sum_list_replicate)
  have "(\<Sum>r\<leftarrow>rows. share startMS r) \<le> (\<Sum>r\<leftarrow>rows. ev_output_tokens r)"
    using seen share_bounds(2) by (intro sum_list_mono) blast
  then have "series_tokens ?empty + (\<Sum>r\<leftarrow>rows. share startMS r) < 2 ^ 63" using fit(2) zero(2) by simp
  from telemetry_loop_ok [OF w zero(1) seen this] obtain acc where
    acc: "telemetry_loop startMS endMS ?b ?n ?empty rows = Some acc" "acc_ok ?n acc"
      "series_tokens acc = (\<Sum>r\<leftarrow>rows. share startMS r)"
    and cell: "\<And>j. 0 \<le> j \<Longrightarrow> j < ?n \<Longrightarrow> cells (ta_spans acc ! nat j) =
      cells (ta_spans ?empty ! nat j) \<union> (\<Union>r\<in>set rows. event_ms r \<inter> bucket_ms startMS ?b endMS j)"
    unfolding zero(2) by auto
  let ?point = "\<lambda>i. \<lparr>tb_start = startMS + i * ?b, tb_active = unionMS (ta_spans acc ! nat i),
      tb_sources = sort_key sx_key (buildSpeedContributions (ta_grouped acc ! nat i))\<rparr>"
  have series: "telemetry_series t startMS endMS bucket = Some (map ?point [0..?n - 1])"
    using assms(1) acc(1) unfolding assms(2) by (simp add: telemetry_series_def Let_def)
  have upt: "[0..?n - 1] = map int [0..<nat ?n]" using w unfolding int_upto by (simp add: window_def)
  have "(\<Sum>c\<leftarrow>sort_key sx_key (buildSpeedContributions gs). sx_tokens c) = group_tokens gs" for gs
    by (simp add: sum_list_sort_key buildSpeedContributions_def group_tokens_def comp_def case_prod_beta)
  then have "(\<Sum>p\<leftarrow>map ?point [0..?n - 1]. \<Sum>c\<leftarrow>tb_sources p. sx_tokens c) = (\<Sum>k\<leftarrow>[0..<nat ?n]. group_tokens (ta_grouped acc ! k))"
    unfolding upt by (simp add: comp_def)
  also have "\<dots> = (\<Sum>gs\<leftarrow>map (\<lambda>k. ta_grouped acc ! k) [0..<length (ta_grouped acc)]. group_tokens gs)"
    using acc(2) by (simp add: acc_ok_def comp_def)
  also have "\<dots> = series_tokens acc" unfolding map_nth by (simp add: series_tokens_def)
  finally have sum: "(\<Sum>p\<leftarrow>map ?point [0..?n - 1]. \<Sum>c\<leftarrow>tb_sources p. sx_tokens c) = (\<Sum>r\<leftarrow>rows. share startMS r)"
    using acc(3) by simp
  have "share startMS r = ev_output_tokens r" if "r \<in> set rows" "startMS \<le> ev_ts r - ev_gen_ms r" for r
    using that seen by (auto simp: share_def max_absorb1 seen_row_def seen_def)
  moreover have "tb_active (?point i) =
      int (card ({tb_start (?point i)..<min (tb_start (?point i) + ?b) endMS} \<inter> (\<Union>r\<in>set rows. event_ms r)))"
    if i: "0 \<le> i" "i \<le> ?n - 1" for i
  proof -
    have "nat i < nat ?n" using i by auto
    then have "proper (ta_spans acc ! nat i)" "cells (ta_spans ?empty ! nat i) = {}" using acc(2) by (auto simp: acc_ok_def)
    then have "unionMS (ta_spans acc ! nat i) = int (card (\<Union>r\<in>set rows. event_ms r \<inter> bucket_ms startMS ?b endMS i))"
      using cell [of i] i by (simp add: unionMS_card)
    moreover have "(\<Union>r\<in>set rows. event_ms r \<inter> bucket_ms startMS ?b endMS i) =
        {startMS + i * ?b..<min (startMS + i * ?b + ?b) endMS} \<inter> (\<Union>r\<in>set rows. event_ms r)"
      by (auto simp: bucket_ms_def algebra_simps)
    ultimately show ?thesis by simp
  qed
  ultimately show ?thesis using series sum by (intro exI [of _ "map ?point [0..?n - 1]"]) auto
qed

definition speed_rows :: "event_row list" where
  "speed_rows =
     [row_of (zero_event\<lparr>ev_event_id := ''1'', ev_ts := 50, ev_source := ''codex'', ev_gen_ms := 40, ev_output_tokens := 10\<rparr>) OriginSelf 0,
      row_of (zero_event\<lparr>ev_event_id := ''2'', ev_ts := 30, ev_source := ''proxy'', ev_gen_ms := 60, ev_output_tokens := 7\<rparr>) OriginSelf 0]"

theorem telemetry_conserves_tokens_witness:
  "\<exists>series. telemetry_series speed_rows 0 100 30 = Some series \<and> (\<Sum>p\<leftarrow>series. \<Sum>c\<leftarrow>tb_sources p. sx_tokens c) = 10 + 3"
proof -
  have r: "telemetry_rows 0 100 speed_rows = speed_rows"
    by (simp add: telemetry_rows_def speed_rows_def row_of_def zero_event_def measured_def)
  have s: "(\<Sum>r\<leftarrow>speed_rows. share 0 r) = 13" by (simp add: speed_rows_def share_def row_of_def zero_event_def)
  have fit: "\<forall>r\<in>set speed_rows. ev_output_tokens r * ev_gen_ms r < 2 ^ 63 - 1" "(\<Sum>r\<leftarrow>speed_rows. ev_output_tokens r) < 2 ^ 63"
    by (simp_all add: speed_rows_def row_of_def zero_event_def)
  show ?thesis using telemetry_conserves_tokens [OF _ r [symmetric] fit, of 30] s by auto
qed

end
