(* ===== verification/Capacity.thy ===== *)
theory Capacity
  imports Ingest_Store Usage_Queries
begin

text \<open>
  \<open>internal/store/capacity.go\<close> and the readers and writers of quota snapshots in \<open>quota.go\<close>: the calibration
  that learns from each quota window how many tokens it holds. Percentages are \<open>float64\<close> values that are only
  compared, so the order is written out on their bit patterns; the quotient behind one sample's capacity is the
  parameter \<open>capacity_of\<close>. SQLite stores no NaN in a \<open>NOT NULL\<close> column, and JSON has none.
\<close>

section \<open>Comparing percentages\<close>

definition float_nan :: "float64 \<Rightarrow> bool" where
  "float_nan w \<longleftrightarrow> 0x7FF0000000000000 < take_bit 63 w"

text \<open>The sign bit and the magnitude; both zeros are 0.\<close>

definition float_key :: "float64 \<Rightarrow> int" where
  "float_key w = (if bit w 63 then - uint (take_bit 63 w) else uint (take_bit 63 w))"

text \<open>\<open>== 0\<close>, for either zero.\<close>

definition float_zero :: "float64 \<Rightarrow> bool" where
  "float_zero u \<longleftrightarrow> u = 0 \<or> u = push_bit 63 1"

definition float_less :: "float64 \<Rightarrow> float64 \<Rightarrow> bool" where
  "float_less a b \<longleftrightarrow> \<not> float_nan a \<and> \<not> float_nan b \<and> float_key a < float_key b"

definition float_le :: "float64 \<Rightarrow> float64 \<Rightarrow> bool" where
  "float_le a b \<longleftrightarrow> \<not> float_nan a \<and> \<not> float_nan b \<and> float_key a \<le> float_key b"

section \<open>The table\<close>

record capacity_row =
  cp_source :: string
  cp_scope :: string
  cp_window_minutes :: int
  cp_window_id :: int
  cp_peak :: float64
  cp_tokens :: int
  cp_updated :: int

type_synonym capacity_key = "string \<times> string \<times> int \<times> int"

definition capacity_key :: "capacity_row \<Rightarrow> capacity_key" where
  "capacity_key r = (cp_source r, cp_scope r, cp_window_minutes r, cp_window_id r)"

definition capacity_conflict :: "capacity_row \<Rightarrow> capacity_row \<Rightarrow> bool" where
  "capacity_conflict a b \<longleftrightarrow> capacity_key a = capacity_key b"

interpretation cp: unique_rows capacity_conflict
  by unfold_locales (simp add: capacity_conflict_def)

definition windowIDMinutes :: "int \<Rightarrow> int" where
  "windowIDMinutes resetsAt = go_quot resetsAt 60000"

record capacity_observation =
  co_source :: string
  co_scope :: string
  co_window_minutes :: int
  co_resets_at :: int
  co_percent :: float64
  co_tokens :: int

definition co_key :: "capacity_observation \<Rightarrow> capacity_key" where
  "co_key obs = (co_source obs, co_scope obs, co_window_minutes obs, windowIDMinutes (co_resets_at obs))"

definition co_row :: "int \<Rightarrow> capacity_observation \<Rightarrow> capacity_row" where
  "co_row now obs = \<lparr>cp_source = co_source obs, cp_scope = co_scope obs, cp_window_minutes = co_window_minutes obs,
     cp_window_id = windowIDMinutes (co_resets_at obs), cp_peak = co_percent obs, cp_tokens = co_tokens obs, cp_updated = now\<rparr>"

definition co_usable :: "capacity_observation \<Rightarrow> bool" where
  "co_usable obs \<longleftrightarrow> \<not> (co_resets_at obs \<le> 0 \<or> float_le (co_percent obs) 0 \<or> co_tokens obs \<le> 0 \<or> co_window_minutes obs \<le> 0)"

datatype capacity_step = CpReadPeak | CpReadTokens | CpUpsert
datatype capacity_error = CapacityIO capacity_step

text \<open>\<open>INSERT ... ON CONFLICT DO UPDATE ... WHERE excluded.peak_percent > peak_percent\<close>\<close>

definition capacity_upsert :: "capacity_row \<Rightarrow> capacity_row list \<Rightarrow> capacity_row list" where
  "capacity_upsert r t =
     (if list_ex (capacity_conflict r) t
      then fst (sql_update (\<lambda>x. capacity_conflict r x \<and> float_less (cp_peak x) (cp_peak r))
        (\<lambda>x. x\<lparr>cp_peak := cp_peak r, cp_tokens := cp_tokens r, cp_updated := cp_updated r\<rparr>) t)
      else t @ [r])"

definition ObserveCapacity :: "(capacity_step \<Rightarrow> bool) \<Rightarrow> int \<Rightarrow> capacity_observation \<Rightarrow> capacity_row list \<Rightarrow>
    capacity_row list \<times> capacity_error option" where
  "ObserveCapacity fails now obs t =
     (if \<not> co_usable obs then (t, None)
      else if fails CpUpsert then (t, Some (CapacityIO CpUpsert))
      else (capacity_upsert (co_row now obs) t, None))"

definition subscriptionTokens :: "event_row list \<Rightarrow> string \<Rightarrow> int \<Rightarrow> int \<Rightarrow> int" where
  "subscriptionTokens events source from1 to1 =
     foldl (\<lambda>total (provider, rows). if IsSubscription source provider then i64 (total + sum_list (map usage_tokens rows)) else total) 0
       (sql_group ev_provider (filter (\<lambda>r. ev_source r = source \<and> from1 \<le> ev_ts r \<and> ev_ts r \<le> to1) events))"

text \<open>The observation a snapshot stands for.\<close>

definition quota_observation :: "event_row list \<Rightarrow> quota_snapshot \<Rightarrow> int \<Rightarrow> capacity_observation" where
  "quota_observation events q now =
     \<lparr>co_source = q_source q, co_scope = q_scope q, co_window_minutes = q_window_minutes q, co_resets_at = q_resets_at q,
      co_percent = q_used_percent q,
      co_tokens = subscriptionTokens events (q_source q) (i64 (q_resets_at q - i64 (q_window_minutes q * 60000))) now\<rparr>"

text \<open>\<open>stored\<close> is the reading of the clock when the row is written.\<close>

definition ObserveCapacityFromQuota :: "(capacity_step \<Rightarrow> bool) \<Rightarrow> event_row list \<Rightarrow> quota_snapshot \<Rightarrow> int \<Rightarrow> int \<Rightarrow>
    capacity_row list \<Rightarrow> capacity_row list \<times> capacity_error option" where
  "ObserveCapacityFromQuota fails events q now stored t =
     (if q_resets_at q \<le> 0 \<or> float_le (q_used_percent q) 0 \<or> q_window_minutes q \<le> 0 then (t, None)
      else if fails CpReadPeak then (t, Some (CapacityIO CpReadPeak))
      else
        let row = sql_select (\<lambda>r. capacity_key r = (q_source q, q_scope q, q_window_minutes q, windowIDMinutes (q_resets_at q))) t
        in if (case row of None \<Rightarrow> False | Some r \<Rightarrow> float_le (q_used_percent q) (cp_peak r)) then (t, None)
           else if fails CpReadTokens then (t, Some (CapacityIO CpReadTokens))
           else ObserveCapacity fails stored (quota_observation events q now) t)"

definition ResetCapacity :: "bool \<Rightarrow> string \<Rightarrow> capacity_row list \<Rightarrow> capacity_row list \<times> nat option" where
  "ResetCapacity io source t = (if io then (t, None) else map_prod id Some (sql_delete (\<lambda>r. cp_source r = source) t))"

section \<open>The estimate\<close>

text \<open>30.0, as its bit pattern.\<close>

definition capacityMinPeak :: float64 where "capacityMinPeak = 0x403E000000000000"
definition capacityWindowMemory :: int where "capacityWindowMemory = 30"
definition capacityMinSamples :: nat where "capacityMinSamples = 3"

definition CapacitySamples :: "capacity_row list \<Rightarrow> string \<Rightarrow> string \<Rightarrow> int \<Rightarrow> float64 \<Rightarrow> int \<Rightarrow> capacity_row list" where
  "CapacitySamples t source scope minutes minPeak limit =
     sql_limit limit (sort_key (\<lambda>r. - cp_window_id r) (filter (\<lambda>r. cp_source r = source \<and> cp_scope r = scope \<and>
       cp_window_minutes r = minutes \<and> float_le minPeak (cp_peak r)) t))"

definition sample_capacity :: "(int \<Rightarrow> float64 \<Rightarrow> int) \<Rightarrow> capacity_row \<Rightarrow> int" where
  "sample_capacity capacity_of r = (if float_le (cp_peak r) 0 then 0 else capacity_of (cp_tokens r) (cp_peak r))"

text \<open>The twenty-fifth percentile of the samples, or nothing.\<close>

definition CapacityEstimate :: "(int \<Rightarrow> float64 \<Rightarrow> int) \<Rightarrow> capacity_row list \<Rightarrow> string \<Rightarrow> string \<Rightarrow> int \<Rightarrow> int option" where
  "CapacityEstimate capacity_of t source scope minutes =
     (let samples = CapacitySamples t source scope minutes capacityMinPeak capacityWindowMemory;
          caps = filter (\<lambda>v. v > 0) (map (sample_capacity capacity_of) samples)
      in if length samples < capacityMinSamples \<or> length caps < capacityMinSamples then None
         else Some (sort caps ! (length caps div 4)))"

section \<open>Backfill\<close>

definition quota_peak :: "quota_snapshot list \<Rightarrow> quota_snapshot" where
  "quota_peak qs = hd (sort_key (\<lambda>q. (- float_key (q_used_percent q), q_observed_at q)) qs)"

definition backfill_peaks :: "quota_snapshot list \<Rightarrow> int \<Rightarrow> quota_snapshot list" where
  "backfill_peaks quotas since =
     map (\<lambda>(k, qs). quota_peak qs)
       (sql_group (\<lambda>q. (q_source q, q_scope q, q_window_minutes q, windowIDMinutes (q_resets_at q)))
         (filter (\<lambda>q. q_observed_at q \<ge> since \<and> q_resets_at q > 0 \<and> float_le capacityMinPeak (q_used_percent q)) quotas))"

fun backfill_loop :: "(nat \<Rightarrow> capacity_step \<Rightarrow> bool) \<Rightarrow> event_row list \<Rightarrow> (nat \<Rightarrow> int) \<Rightarrow> nat \<Rightarrow> quota_snapshot list \<Rightarrow>
    capacity_row list \<times> nat \<Rightarrow> (capacity_row list \<times> nat) \<times> capacity_error option" where
  "backfill_loop fails events clock i [] acc = (acc, None)"
| "backfill_loop fails events clock i (q # qs) (t, filled) =
     (if fails i CpReadTokens then ((t, filled), Some (CapacityIO CpReadTokens))
      else let obs = quota_observation events q (q_observed_at q)
        in if co_tokens obs = 0 then backfill_loop fails events clock (Suc i) qs (t, filled)
           else case ObserveCapacity (fails i) (clock i) obs t of
             (t1, Some e) \<Rightarrow> ((t1, filled), Some e)
           | (t1, None) \<Rightarrow> backfill_loop fails events clock (Suc i) qs (t1, filled + 1))"

definition BackfillCapacity :: "(nat \<Rightarrow> capacity_step \<Rightarrow> bool) \<Rightarrow> event_row list \<Rightarrow> quota_snapshot list \<Rightarrow> (nat \<Rightarrow> int) \<Rightarrow> int \<Rightarrow>
    capacity_row list \<Rightarrow> (capacity_row list \<times> nat) \<times> capacity_error option" where
  "BackfillCapacity fails events quotas clock since t = backfill_loop fails events clock 0 (backfill_peaks quotas since) (t, 0)"

section \<open>Snapshots\<close>

datatype quota_step = QuBegin | QuInsert nat | QuCommit

text \<open>The loop of \<open>InsertQuotas\<close>, which also collects the snapshots that were new. \<open>Inl\<close>: a refused statement.\<close>

fun insert_quotas :: "(quota_step \<Rightarrow> bool) \<Rightarrow> nat \<Rightarrow> quota_snapshot list \<Rightarrow> quota_snapshot list \<Rightarrow> quota_snapshot list \<Rightarrow>
    quota_snapshot list + quota_snapshot list \<times> quota_snapshot list" where
  "insert_quotas fails i t fresh [] = Inr (t, fresh)"
| "insert_quotas fails i t fresh (q # qs) =
     (if fails (QuInsert i) then Inl fresh
      else let (t1, new) = sql_insert_ignore quota_conflict q t
        in insert_quotas fails (Suc i) t1 (if new then fresh @ [q] else fresh) qs)"

text \<open>The count is returned with an error too. A failing calibration is logged and dropped.\<close>

definition InsertQuotas :: "(quota_step \<Rightarrow> bool) \<Rightarrow> (nat \<Rightarrow> capacity_step \<Rightarrow> bool) \<Rightarrow> event_row list \<Rightarrow> int \<Rightarrow> (nat \<Rightarrow> int) \<Rightarrow>
    quota_snapshot list \<Rightarrow> quota_snapshot list \<times> capacity_row list \<Rightarrow> (quota_snapshot list \<times> capacity_row list) \<times> nat \<times> bool" where
  "InsertQuotas refused fails events now clock qs st =
     (if qs = [] then (st, 0, True)
      else if refused QuBegin then (st, 0, False)
      else case insert_quotas refused 0 (fst st) [] qs of
        Inl fresh \<Rightarrow> (st, length fresh, False)
      | Inr (t1, fresh) \<Rightarrow>
          if refused QuCommit then (st, length fresh, False)
          else ((t1, foldl (\<lambda>c (i, q). fst (ObserveCapacityFromQuota (fails i) events q now (clock i) c)) (snd st) (enumerate 0 fresh)),
                length fresh, True))"

text \<open>One reading per window kind: of the newest window, compared by the hour it resets in, the newest look.\<close>

definition LatestQuotas :: "quota_snapshot list \<Rightarrow> int \<Rightarrow> quota_snapshot list" where
  "LatestQuotas t since =
     sort_key (\<lambda>q. (q_window_minutes q, q_device q))
       (map (\<lambda>(k, qs). hd (sort_key (\<lambda>q. (- go_quot (q_resets_at q) 3600000, - q_observed_at q)) qs))
         (sql_group (\<lambda>q. (q_device q, q_source q, q_scope q, q_window_minutes q)) (filter (\<lambda>q. q_observed_at q \<ge> since) t)))"

end
