(* ===== verification/Capacity_Properties.thy ===== *)
theory Capacity_Properties
  imports Capacity
begin

text \<open>
  What the calibration keeps of each quota window: the first look at its highest percentage, whatever else is
  observed; and the check in front of the token scan changes no result.
\<close>

section \<open>Percentages\<close>

lemma float_less_le: "\<not> float_nan a \<Longrightarrow> \<not> float_nan b \<Longrightarrow> float_less a b \<longleftrightarrow> \<not> float_le b a"
  by (auto simp: float_less_def float_le_def)

lemma float_less_imp_le: "float_less a b \<Longrightarrow> float_le a b"
  by (simp add: float_less_def float_le_def)

lemma float_le_refl: "\<not> float_nan a \<Longrightarrow> float_le a a"
  by (simp add: float_le_def)

section \<open>The upsert\<close>

lemma capacity_key_co [simp]: "capacity_key (co_row now obs) = co_key obs" "cp_peak (co_row now obs) = co_percent obs"
  by (simp_all add: capacity_key_def co_row_def co_key_def)

definition capacity_of_key :: "capacity_key \<Rightarrow> capacity_row list \<Rightarrow> capacity_row option" where
  "capacity_of_key k t = sql_select (\<lambda>r. capacity_key r = k) t"

lemma capacity_of_key_Nil [simp]: "capacity_of_key k [] = None"
  by (simp add: capacity_of_key_def sql_select_def)

lemma capacity_of_key_Cons [simp]: "capacity_of_key k (x # t) = (if capacity_key x = k then Some x else capacity_of_key k t)"
  by (simp add: capacity_of_key_def sql_select_def)

lemma capacity_of_key_none: "capacity_of_key k t = None \<longleftrightarrow> (\<forall>x\<in>set t. capacity_key x \<noteq> k)"
  by (auto simp: capacity_of_key_def sql_select_def find_None_iff)

lemma capacity_of_key_some: "capacity_of_key k t = Some x \<Longrightarrow> x \<in> set t \<and> capacity_key x = k"
  unfolding capacity_of_key_def sql_select_def by (rule conjI; drule find_Some_D; simp)

lemma capacity_of_key_upsert:
  assumes "cp.uniq t"
  shows "capacity_of_key k (capacity_upsert r t) =
     (if capacity_key r \<noteq> k then capacity_of_key k t
      else case capacity_of_key k t of
        None \<Rightarrow> Some r
      | Some x \<Rightarrow> Some (if float_less (cp_peak x) (cp_peak r) then r else x))"
proof -
  let ?f = "\<lambda>x. if capacity_conflict r x \<and> float_less (cp_peak x) (cp_peak r)
      then x\<lparr>cp_peak := cp_peak r, cp_tokens := cp_tokens r, cp_updated := cp_updated r\<rparr> else x"
  have upd: "x\<lparr>cp_peak := cp_peak r, cp_tokens := cp_tokens r, cp_updated := cp_updated r\<rparr> = r" if "capacity_key x = capacity_key r" for x
    using that by (cases x; cases r) (auto simp: capacity_key_def)
  have f: "capacity_key (?f x) = capacity_key x" for x by (simp add: capacity_key_def)
  have "capacity_of_key k (map ?f t) = map_option ?f (capacity_of_key k t)"
    by (induction t) (auto simp: f simp del: split_paired_All)
  moreover have "?f x = (if capacity_key r = k \<and> float_less (cp_peak x) (cp_peak r) then r else x)" if "capacity_of_key k t = Some x" for x
    using capacity_of_key_some [OF that] upd by (auto simp: capacity_conflict_def)
  moreover have "capacity_of_key k (t @ [r]) = (case capacity_of_key k t of None \<Rightarrow> if capacity_key r = k then Some r else None | Some x \<Rightarrow> Some x)"
    by (induction t) auto
  moreover have "list_ex (capacity_conflict r) t \<longleftrightarrow> capacity_of_key (capacity_key r) t \<noteq> None"
    unfolding capacity_of_key_none list_ex_iff capacity_conflict_def by metis
  ultimately show ?thesis
    by (auto simp: capacity_upsert_def split: option.splits)
qed

lemma upsert_uniq: "cp.uniq t \<Longrightarrow> cp.uniq (capacity_upsert r t)"
proof -
  have "capacity_key (if P x then x\<lparr>cp_peak := a, cp_tokens := b, cp_updated := c\<rparr> else x) = capacity_key x" for P x a b c
    by (simp add: capacity_key_def)
  then have "cp.uniq t \<Longrightarrow> cp.uniq (map (\<lambda>x. if P x then x\<lparr>cp_peak := a, cp_tokens := b, cp_updated := c\<rparr> else x) t)" for P a b c
    by (intro cp.uniq_map) (simp_all add: capacity_conflict_def)
  then show "cp.uniq t \<Longrightarrow> cp.uniq (capacity_upsert r t)"
    by (auto simp: capacity_upsert_def cp.uniq_append list_ex_iff capacity_conflict_def)
qed

section \<open>A history of observations\<close>

definition observe :: "capacity_row list \<Rightarrow> int \<times> capacity_observation \<Rightarrow> capacity_row list" where
  "observe t x = fst (ObserveCapacity (\<lambda>_. False) (fst x) (snd x) t)"

definition first_peak :: "(int \<times> capacity_observation) list \<Rightarrow> int \<times> capacity_observation \<Rightarrow> bool" where
  "first_peak xs x \<longleftrightarrow> (\<exists>before later. xs = before @ x # later \<and>
     (\<forall>y\<in>set before. float_less (co_percent (snd y)) (co_percent (snd x))) \<and>
     (\<forall>y\<in>set later. float_le (co_percent (snd y)) (co_percent (snd x))))"

definition about :: "capacity_key \<Rightarrow> (int \<times> capacity_observation) list \<Rightarrow> (int \<times> capacity_observation) list" where
  "about k xs = filter (\<lambda>x. co_usable (snd x) \<and> co_key (snd x) = k) xs"

lemma first_peak_snoc:
  assumes "first_peak xs x" "\<not> float_nan (co_percent (snd y))" "\<not> float_nan (co_percent (snd x))"
  shows "first_peak (xs @ [y]) (if float_less (co_percent (snd x)) (co_percent (snd y)) then y else x)"
proof -
  obtain before later where xs: "xs = before @ x # later"
    "\<forall>z\<in>set before. float_less (co_percent (snd z)) (co_percent (snd x))"
    "\<forall>z\<in>set later. float_le (co_percent (snd z)) (co_percent (snd x))" using assms(1) by (auto simp: first_peak_def)
  show ?thesis
  proof (cases "float_less (co_percent (snd x)) (co_percent (snd y))")
    case True
    then have "\<forall>z\<in>set (before @ x # later). float_less (co_percent (snd z)) (co_percent (snd y))"
      using xs(2,3) by (auto simp: float_less_def float_le_def)
    then have "first_peak (xs @ [y]) y"
      unfolding first_peak_def xs(1) by (intro exI [of _ "before @ x # later"] exI [of _ "[]"]) simp
    then show ?thesis using True by simp
  next
    case False
    then have "float_le (co_percent (snd y)) (co_percent (snd x))" using assms(2,3) by (simp add: float_less_le)
    then have "first_peak (xs @ [y]) x"
      using xs unfolding first_peak_def by (intro exI [of _ before] exI [of _ "later @ [y]"]) simp
    then show ?thesis using False by simp
  qed
qed

lemma observations_keep_the_peak:
  assumes "\<forall>x\<in>set xs. \<not> float_nan (co_percent (snd x))"
  shows "cp.uniq (foldl observe [] xs) \<and>
     (case capacity_of_key k (foldl observe [] xs) of
        None \<Rightarrow> about k xs = []
      | Some r \<Rightarrow> \<exists>x. first_peak (about k xs) x \<and> r = co_row (fst x) (snd x))"
  using assms
proof (induction xs rule: rev_induct)
  case (snoc y xs)
  let ?t = "foldl observe [] xs"
  have u: "cp.uniq ?t" and IH: "case capacity_of_key k ?t of None \<Rightarrow> about k xs = []
      | Some r \<Rightarrow> \<exists>x. first_peak (about k xs) x \<and> r = co_row (fst x) (snd x)" using snoc by auto
  show ?case
  proof (cases "co_usable (snd y)")
    case False
    then have same: "foldl observe [] (xs @ [y]) = ?t" "about k (xs @ [y]) = about k xs"
      by (simp_all add: observe_def ObserveCapacity_def about_def)
    show ?thesis unfolding same using u IH by blast
  next
    case True
    then have obs: "observe ?t y = capacity_upsert (co_row (fst y) (snd y)) ?t" by (simp add: observe_def ObserveCapacity_def)
    have ab: "about k (xs @ [y]) = (if co_key (snd y) = k then about k xs @ [y] else about k xs)" using True by (simp add: about_def)
    have "case capacity_of_key k (observe ?t y) of None \<Rightarrow> about k (xs @ [y]) = []
        | Some r \<Rightarrow> \<exists>x. first_peak (about k (xs @ [y])) x \<and> r = co_row (fst x) (snd x)"
    proof (cases "co_key (snd y) = k")
      case False
      then show ?thesis using IH unfolding obs capacity_of_key_upsert [OF u] ab by simp
    next
      case k: True
      show ?thesis
      proof (cases "capacity_of_key k ?t")
        case None
        then have "about k xs = []" using IH by simp
        then have "first_peak (about k xs @ [y]) y" unfolding first_peak_def by (intro exI [of _ "[]"]) simp
        then have "\<exists>x. first_peak (about k xs @ [y]) x \<and> co_row (fst y) (snd y) = co_row (fst x) (snd x)" by blast
        then show ?thesis using None k unfolding foldl_append foldl.simps obs capacity_of_key_upsert [OF u] ab by simp
      next
        case (Some r)
        then obtain x where x: "first_peak (about k xs) x" "r = co_row (fst x) (snd x)" using IH by auto
        then have "x \<in> set xs" by (auto simp: first_peak_def about_def dest!: arg_cong [where f = set])
        define z where "z = (if float_less (co_percent (snd x)) (co_percent (snd y)) then y else x)"
        have "first_peak (about k xs @ [y]) z"
          unfolding z_def using snoc.prems \<open>x \<in> set xs\<close> by (intro first_peak_snoc [OF x(1)]) auto
        then have z: "first_peak (about k (xs @ [y])) z" using k ab by simp
        have e: "capacity_of_key k (observe ?t y) = Some (co_row (fst z) (snd z))"
          using Some k x(2) unfolding obs capacity_of_key_upsert [OF u] z_def by simp
        show ?thesis unfolding e option.case using z by blast
      qed
    qed
    then show ?thesis using upsert_uniq [OF u] obs by simp
  qed
qed (simp add: about_def)

lemma upsert_noop:
  assumes "cp.uniq t" "capacity_of_key (capacity_key r) t = Some x" "float_le (cp_peak r) (cp_peak x)"
  shows "capacity_upsert r t = t"
proof -
  have x: "x \<in> set t" "capacity_conflict r x" using capacity_of_key_some [OF assms(2)] by (auto simp: capacity_conflict_def)
  have "\<not> (capacity_conflict r y \<and> float_less (cp_peak y) (cp_peak r))" if "y \<in> set t" for y
  proof
    assume y: "capacity_conflict r y \<and> float_less (cp_peak y) (cp_peak r)"
    then have "capacity_conflict x y" using x(2) by (simp add: capacity_conflict_def)
    then have "y = x" using cp.uniq_same [OF assms(1) x(1) that] by simp
    then show False using y assms(3) by (simp add: float_less_def float_le_def)
  qed
  moreover have "list_ex (capacity_conflict r) t" using x by (auto simp: list_ex_iff)
  ultimately show ?thesis by (auto simp: capacity_upsert_def intro!: map_idI)
qed

section \<open>The properties\<close>

text \<open>
  Over any sequence of observations the calibration holds, for each window, exactly the first look at the
  highest percentage the window reached, with the tokens of that look; a window nobody could use has no row;
  and observing it all again, as a second backfill does, changes nothing.
\<close>

theorem capacity_keeps_the_first_peak:
  assumes "\<forall>x\<in>set xs. \<not> float_nan (co_percent (snd x))" "t = foldl observe [] xs"
  shows "(case capacity_of_key k t of
       None \<Rightarrow> about k xs = []
     | Some r \<Rightarrow> \<exists>x. first_peak (about k xs) x \<and> r = co_row (fst x) (snd x)) \<and>
    foldl observe t xs = t"
proof -
  have u: "cp.uniq t" using observations_keep_the_peak [OF assms(1)] assms(2) by blast
  have keep: "case capacity_of_key k t of None \<Rightarrow> about k xs = []
      | Some r \<Rightarrow> \<exists>x. first_peak (about k xs) x \<and> r = co_row (fst x) (snd x)" for k
    unfolding assms(2) using observations_keep_the_peak [OF assms(1), of k] by blast
  have "observe t y = t" if "y \<in> set xs" for y
  proof (cases "co_usable (snd y)")
    case True
    let ?k = "co_key (snd y)"
    have y: "y \<in> set (about ?k xs)" using that True by (simp add: about_def)
    then have "about ?k xs \<noteq> []" by auto
    then obtain r x where r: "capacity_of_key ?k t = Some r" "first_peak (about ?k xs) x" "r = co_row (fst x) (snd x)"
      using keep [of ?k] by (auto split: option.splits)
    have "\<not> float_nan (co_percent (snd y))" using assms(1) that by blast
    then have "float_le (co_percent (snd y)) (co_percent (snd x))"
      using r(2) y unfolding first_peak_def by (metis float_less_imp_le float_le_refl Un_iff set_append set_ConsD)
    then have "capacity_upsert (co_row (fst y) (snd y)) t = t" using r by (intro upsert_noop [OF u]) auto
    then show ?thesis by (simp add: observe_def ObserveCapacity_def)
  qed (simp add: observe_def ObserveCapacity_def)
  then have "set ys \<subseteq> set xs \<Longrightarrow> foldl observe t ys = t" for ys by (induction ys) auto
  then show ?thesis using keep [of k] by blast
qed

text \<open>
  Looking at the stored peak before scanning the window's events changes no result: with a table that has
  one row per window, a snapshot is calibrated exactly as if its tokens had been summed and observed.
\<close>

theorem peak_check_suppresses_nothing:
  assumes "cp.uniq t" "\<forall>st. \<not> fails st"
  shows "ObserveCapacityFromQuota fails events q now stored t = ObserveCapacity fails stored (quota_observation events q now) t"
proof -
  let ?obs = "quota_observation events q now"
  let ?k = "(q_source q, q_scope q, q_window_minutes q, windowIDMinutes (q_resets_at q))"
  have key: "co_key ?obs = ?k" "co_percent ?obs = q_used_percent q" by (simp_all add: co_key_def quota_observation_def)
  show ?thesis
  proof (cases "q_resets_at q \<le> 0 \<or> float_le (q_used_percent q) 0 \<or> q_window_minutes q \<le> 0")
    case True
    then have "\<not> co_usable ?obs" by (auto simp: co_usable_def quota_observation_def)
    then show ?thesis using True by (simp add: ObserveCapacityFromQuota_def ObserveCapacity_def)
  next
    case False
    have noop: "ObserveCapacity fails stored ?obs t = (t, None)"
      if "capacity_of_key ?k t = Some r" "float_le (q_used_percent q) (cp_peak r)" for r
      using upsert_noop [OF assms(1), of "co_row stored ?obs" r] that key assms(2) by (simp add: ObserveCapacity_def)
    show ?thesis
      using False noop assms(2)
      by (auto simp: ObserveCapacityFromQuota_def Let_def capacity_of_key_def split: option.splits)
  qed
qed

section \<open>Boundaries that jitter\<close>

text \<open>
  A boundary derived from \<open>resets in N seconds\<close> moves by seconds between looks. Eighteen seconds across a minute
  make two windows of one for the calibration, which keys by the minute.
\<close>

definition sample_look :: "int \<Rightarrow> float64 \<Rightarrow> capacity_observation" where
  "sample_look resets pct = \<lparr>co_source = ''codex'', co_scope = ''primary'', co_window_minutes = 10080, co_resets_at = resets,
     co_percent = pct, co_tokens = 5\<rparr>"

lemma a_window_straddles_two_minutes:
  "length (foldl observe [] [(1, sample_look 600050000 0x4044000000000000), (2, sample_look 600068000 0x4049000000000000)]) = 2"
  by code_simp

text \<open>And across an hour, an older look wins over a newer one of the same window.\<close>

definition sample_reading :: "int \<Rightarrow> int \<Rightarrow> quota_snapshot" where
  "sample_reading resets observed = \<lparr>q_device = ''d'', q_source = ''codex'', q_limit_id = [], q_scope = ''primary'', q_window_minutes = 300,
     q_used_percent = 0x4044000000000000, q_resets_at = resets, q_observed_at = observed, q_plan_type = []\<rparr>"

lemma an_older_look_wins:
  "map q_observed_at (LatestQuotas [sample_reading 7200003 100, sample_reading 7199998 900] 0) = [100]"
  by code_simp

theorem capacity_keeps_the_first_peak_witness:
  "let xs = [(1, sample_look 600050000 0x4044000000000000), (2, sample_look 600050000 0x4049000000000000),
       (3, sample_look 600050000 0x4049000000000000)]
   in capacity_of_key (''codex'', ''primary'', 10080, 10000) (foldl observe [] xs) = Some (co_row 2 (sample_look 600050000 0x4049000000000000)) \<and>
      foldl observe (foldl observe [] xs) xs = foldl observe [] xs"
proof -
  let ?xs = "[(1, sample_look 600050000 0x4044000000000000), (2, sample_look 600050000 0x4049000000000000),
       (3, sample_look 600050000 0x4049000000000000)]"
  have "\<forall>x\<in>set ?xs. \<not> float_nan (co_percent (snd x))" by code_simp
  moreover have "capacity_of_key (''codex'', ''primary'', 10080, 10000) (foldl observe [] ?xs) =
      Some (co_row 2 (sample_look 600050000 0x4049000000000000))" by code_simp
  ultimately show ?thesis using capacity_keeps_the_first_peak [OF _ refl, of ?xs] by (simp add: Let_def)
qed

theorem peak_check_suppresses_nothing_witness:
  "ObserveCapacityFromQuota (\<lambda>_. False) [] (sample_reading 7200000 100) 200 300 [] =
     ObserveCapacity (\<lambda>_. False) 300 (quota_observation [] (sample_reading 7200000 100) 200) []"
  by (rule peak_check_suppresses_nothing) simp_all

end
