(* ===== verification/Resp_Cache.thy ===== *)
theory Resp_Cache
  imports Go_Strings
begin

text \<open>
  \<open>internal/server/respcache.go\<close>: the dashboard's response cache, which many request goroutines enter at once.
  An entry is a pointer that its waiters keep after the map has forgotten it, so entries live on a heap; a step is
  what a goroutine does between two points where another can run: each section under the mutex, the computation,
  the closing of the channel, and the wake-up of a waiter. Times are nanoseconds, an error is its text.
\<close>

section \<open>The cache\<close>

type_synonym outcome = "string \<times> string option"

record cache_entry =
  en_body :: string
  en_err :: "string option"
  en_expires :: int
  en_ready :: bool
  en_closed :: bool

text \<open>\<open>en_ready\<close>: the channel is not nil. A waiter keeps the channel, so whether it is closed outlives the field.\<close>

record resp_cache =
  rc_m :: "string \<Rightarrow> nat option"
  rc_heap :: "cache_entry list"

definition newRespCache :: resp_cache where
  "newRespCache = \<lparr>rc_m = (\<lambda>_. None), rc_heap = []\<rparr>"

text \<open>Where a goroutine inside \<open>bytes\<close> is.\<close>

datatype cache_pc = AtEntry | Waiting nat | Computing nat | Settling nat outcome | Closing nat outcome | Returned outcome

definition cache_fresh :: "string \<Rightarrow> resp_cache \<Rightarrow> resp_cache \<times> cache_pc" where
  "cache_fresh key c =
     (c\<lparr>rc_m := (rc_m c)(key \<mapsto> length (rc_heap c)),
        rc_heap := rc_heap c @ [\<lparr>en_body = [], en_err = None, en_expires = 0, en_ready = True, en_closed = False\<rparr>]\<rparr>,
      Computing (length (rc_heap c)))"

text \<open>The first section under the mutex; \<open>now\<close> is read only where the source reads the clock.\<close>

definition cache_enter :: "string \<Rightarrow> int \<Rightarrow> resp_cache \<Rightarrow> resp_cache \<times> cache_pc" where
  "cache_enter key now c =
     (case rc_m c key of
        None \<Rightarrow> cache_fresh key c
      | Some a \<Rightarrow>
          let e = rc_heap c ! a
          in if en_ready e then (c, Waiting a)
             else if now < en_expires e then (c, Returned (en_body e, None))
             else cache_fresh key c)"

text \<open>The second section, after the computation.\<close>

definition cache_settle :: "string \<Rightarrow> int \<Rightarrow> int \<Rightarrow> nat \<Rightarrow> outcome \<Rightarrow> resp_cache \<Rightarrow> resp_cache" where
  "cache_settle key ttl now a r c =
     (let e = (rc_heap c ! a)\<lparr>en_body := fst r, en_err := snd r\<rparr>
      in case snd r of
           Some _ \<Rightarrow> c\<lparr>rc_m := (if rc_m c key = Some a then (rc_m c)(key := None) else rc_m c),
              rc_heap := (rc_heap c)[a := e\<lparr>en_ready := False\<rparr>]\<rparr>
         | None \<Rightarrow> c\<lparr>rc_heap := (rc_heap c)[a := e\<lparr>en_expires := now + ttl, en_ready := False\<rparr>]\<rparr>)"

definition cache_close :: "nat \<Rightarrow> resp_cache \<Rightarrow> resp_cache" where
  "cache_close a c = c\<lparr>rc_heap := (rc_heap c)[a := (rc_heap c ! a)\<lparr>en_closed := True\<rparr>]\<rparr>"

definition cache_clear :: "resp_cache \<Rightarrow> resp_cache" where
  "cache_clear c = c\<lparr>rc_m := (\<lambda>_. None)\<rparr>"

text \<open>
  One call alone, from its entry to its return; \<open>None\<close>: it waits for another goroutine. \<open>cachedJSON\<close> computes
  directly where no cache is configured.
\<close>

definition cache_bytes :: "string \<Rightarrow> int \<Rightarrow> int \<Rightarrow> int \<Rightarrow> outcome \<Rightarrow> resp_cache \<Rightarrow> resp_cache \<times> outcome option" where
  "cache_bytes key ttl now settled r c =
     (case cache_enter key now c of
        (c1, Returned q) \<Rightarrow> (c1, Some q)
      | (c1, Computing a) \<Rightarrow> (cache_close a (cache_settle key ttl settled a r c1), Some r)
      | (c1, _) \<Rightarrow> (c1, None))"

definition cachedJSON :: "resp_cache option \<Rightarrow> string \<Rightarrow> int \<Rightarrow> int \<Rightarrow> int \<Rightarrow> outcome \<Rightarrow> resp_cache option \<times> outcome option" where
  "cachedJSON cache key ttl now settled r =
     (case cache of
        None \<Rightarrow> (None, Some r)
      | Some c \<Rightarrow> map_prod Some id (cache_bytes key ttl now settled r c))"

section \<open>Many callers\<close>

text \<open>
  A call is its arguments and where it is. Ghost fields record where its answer came from, and how many clears
  had happened when it entered; the ghost of an entry is the call that computes it, its arguments, the clears before it,
  and when it was settled with what.
\<close>

datatype served = Unserved | Own nat | Joined nat | Hit nat int

record cache_call =
  ca_key :: string
  ca_ttl :: int
  ca_pc :: cache_pc
  ca_served :: served
  ca_epoch :: nat

record entry_ghost =
  gh_owner :: nat
  gh_key :: string
  gh_ttl :: int
  gh_epoch :: nat
  gh_settled :: "(int \<times> outcome) option"

record cache_system =
  cs_cache :: resp_cache
  cs_calls :: "cache_call list"
  cs_ghosts :: "entry_ghost list"
  cs_epoch :: nat

definition initial_system :: cache_system where
  "initial_system = \<lparr>cs_cache = newRespCache, cs_calls = [], cs_ghosts = [], cs_epoch = 0\<rparr>"

text \<open>Where the answer of a call that has just entered comes from.\<close>

definition served_by :: "string \<Rightarrow> int \<Rightarrow> resp_cache \<Rightarrow> cache_pc \<Rightarrow> served" where
  "served_by key now c pc =
     (case pc of
        Computing a \<Rightarrow> Own a
      | Waiting a \<Rightarrow> Joined a
      | _ \<Rightarrow> (case rc_m c key of None \<Rightarrow> Unserved | Some a \<Rightarrow> Hit a now))"

definition set_pc :: "nat \<Rightarrow> cache_pc \<Rightarrow> cache_system \<Rightarrow> cache_system" where
  "set_pc i pc s = s\<lparr>cs_calls := (cs_calls s)[i := (cs_calls s ! i)\<lparr>ca_pc := pc\<rparr>]\<rparr>"

definition enter_call :: "nat \<Rightarrow> int \<Rightarrow> cache_system \<Rightarrow> cache_system" where
  "enter_call i now s =
     (let x = cs_calls s ! i; (c1, pc) = cache_enter (ca_key x) now (cs_cache s)
      in s\<lparr>cs_cache := c1,
           cs_calls := (cs_calls s)[i := x\<lparr>ca_pc := pc, ca_served := served_by (ca_key x) now (cs_cache s) pc, ca_epoch := cs_epoch s\<rparr>],
           cs_ghosts := cs_ghosts s @ (case pc of
               Computing a \<Rightarrow> [\<lparr>gh_owner = i, gh_key = ca_key x, gh_ttl = ca_ttl x, gh_epoch = cs_epoch s, gh_settled = None\<rparr>]
             | _ \<Rightarrow> [])\<rparr>)"

definition settle_call :: "nat \<Rightarrow> int \<Rightarrow> nat \<Rightarrow> outcome \<Rightarrow> cache_system \<Rightarrow> cache_system" where
  "settle_call i now a r s =
     (let x = cs_calls s ! i
      in set_pc i (Closing a r) (s\<lparr>cs_cache := cache_settle (ca_key x) (ca_ttl x) now a r (cs_cache s),
           cs_ghosts := (cs_ghosts s)[a := (cs_ghosts s ! a)\<lparr>gh_settled := Some (now, r)\<rparr>]\<rparr>))"

text \<open>A step of a call that is inside \<open>bytes\<close>.\<close>

inductive call_step :: "cache_system \<Rightarrow> cache_system \<Rightarrow> bool" where
  enter: "i < length (cs_calls s) \<Longrightarrow> ca_pc (cs_calls s ! i) = AtEntry \<Longrightarrow> call_step s (enter_call i now s)"
| compute: "i < length (cs_calls s) \<Longrightarrow> ca_pc (cs_calls s ! i) = Computing a \<Longrightarrow> call_step s (set_pc i (Settling a r) s)"
| settle: "i < length (cs_calls s) \<Longrightarrow> ca_pc (cs_calls s ! i) = Settling a r \<Longrightarrow> call_step s (settle_call i now a r s)"
| close: "i < length (cs_calls s) \<Longrightarrow> ca_pc (cs_calls s ! i) = Closing a r \<Longrightarrow>
    call_step s (set_pc i (Returned r) (s\<lparr>cs_cache := cache_close a (cs_cache s)\<rparr>))"
| wake: "i < length (cs_calls s) \<Longrightarrow> ca_pc (cs_calls s ! i) = Waiting a \<Longrightarrow> en_closed (rc_heap (cs_cache s) ! a) \<Longrightarrow>
    call_step s (set_pc i (Returned (en_body (rc_heap (cs_cache s) ! a), en_err (rc_heap (cs_cache s) ! a))) s)"

inductive cache_step :: "cache_system \<Rightarrow> cache_system \<Rightarrow> bool" where
  arrive: "cache_step s (s\<lparr>cs_calls := cs_calls s @ [\<lparr>ca_key = key, ca_ttl = ttl, ca_pc = AtEntry, ca_served = Unserved, ca_epoch = 0\<rparr>]\<rparr>)"
| clear: "cache_step s (s\<lparr>cs_cache := cache_clear (cs_cache s), cs_epoch := cs_epoch s + 1\<rparr>)"
| call: "call_step s s' \<Longrightarrow> cache_step s s'"

definition cache_reachable :: "cache_system \<Rightarrow> bool" where
  "cache_reachable s \<longleftrightarrow> cache_step\<^sup>*\<^sup>* initial_system s"

end
