(* ===== verification/Resp_Cache_Properties.thy ===== *)
theory Resp_Cache_Properties
  imports Resp_Cache
begin

text \<open>
  What a caller of the response cache is answered with, over every interleaving of the callers' steps and of
  clears, and that no caller is left waiting.
\<close>

abbreviation entry :: "cache_system \<Rightarrow> nat \<Rightarrow> cache_entry" where
  "entry s a \<equiv> rc_heap (cs_cache s) ! a"

abbreviation ghost :: "cache_system \<Rightarrow> nat \<Rightarrow> entry_ghost" where
  "ghost s a \<equiv> cs_ghosts s ! a"

abbreviation pc_of :: "cache_system \<Rightarrow> nat \<Rightarrow> cache_pc" where
  "pc_of s i \<equiv> ca_pc (cs_calls s ! i)"

section \<open>The invariant\<close>

text \<open>An entry: in flight with its owner at work, or settled and told to whoever waits, or about to be.\<close>

definition entry_ok :: "cache_system \<Rightarrow> nat \<Rightarrow> bool" where
  "entry_ok s a \<longleftrightarrow> gh_owner (ghost s a) < length (cs_calls s) \<and> gh_epoch (ghost s a) \<le> cs_epoch s \<and>
     (case gh_settled (ghost s a) of
        None \<Rightarrow> en_ready (entry s a) \<and> \<not> en_closed (entry s a) \<and>
          (pc_of s (gh_owner (ghost s a)) = Computing a \<or> (\<exists>r. pc_of s (gh_owner (ghost s a)) = Settling a r)) \<and>
          (gh_epoch (ghost s a) = cs_epoch s \<longrightarrow> rc_m (cs_cache s) (gh_key (ghost s a)) = Some a)
      | Some (ts, r) \<Rightarrow> \<not> en_ready (entry s a) \<and> (en_body (entry s a), en_err (entry s a)) = r \<and>
          (snd r = None \<longrightarrow> en_expires (entry s a) = ts + gh_ttl (ghost s a)) \<and>
          (if en_closed (entry s a) then pc_of s (gh_owner (ghost s a)) = Returned r
           else pc_of s (gh_owner (ghost s a)) = Closing a r))"

definition linked :: "cache_system \<Rightarrow> cache_call \<Rightarrow> nat \<Rightarrow> bool" where
  "linked s x a \<longleftrightarrow> a < length (cs_ghosts s) \<and> gh_key (ghost s a) = ca_key x \<and> gh_epoch (ghost s a) = ca_epoch x"

definition owns :: "cache_system \<Rightarrow> nat \<Rightarrow> nat \<Rightarrow> bool" where
  "owns s i a \<longleftrightarrow> linked s (cs_calls s ! i) a \<and> gh_owner (ghost s a) = i \<and> gh_ttl (ghost s a) = ca_ttl (cs_calls s ! i) \<and>
     ca_served (cs_calls s ! i) = Own a"

text \<open>An answer is what one computation of the call's key settled with, in the call's own epoch, and fresh.\<close>

definition answered :: "cache_system \<Rightarrow> cache_call \<Rightarrow> outcome \<Rightarrow> bool" where
  "answered s x r \<longleftrightarrow>
     (case ca_served x of
        Unserved \<Rightarrow> False
      | Own a \<Rightarrow> linked s x a \<and> (\<exists>ts. gh_settled (ghost s a) = Some (ts, r))
      | Joined a \<Rightarrow> linked s x a \<and> (\<exists>ts. gh_settled (ghost s a) = Some (ts, r))
      | Hit a now \<Rightarrow> linked s x a \<and> snd r = None \<and>
          (\<exists>ts. gh_settled (ghost s a) = Some (ts, r) \<and> now < ts + gh_ttl (ghost s a)))"

definition call_ok :: "cache_system \<Rightarrow> nat \<Rightarrow> bool" where
  "call_ok s i \<longleftrightarrow>
     (case pc_of s i of
        AtEntry \<Rightarrow> True
      | Waiting a \<Rightarrow> linked s (cs_calls s ! i) a \<and> ca_served (cs_calls s ! i) = Joined a
      | Computing a \<Rightarrow> owns s i a \<and> gh_settled (ghost s a) = None
      | Settling a r \<Rightarrow> owns s i a \<and> gh_settled (ghost s a) = None
      | Closing a r \<Rightarrow> owns s i a \<and> (\<exists>ts. gh_settled (ghost s a) = Some (ts, r)) \<and> \<not> en_closed (entry s a)
      | Returned r \<Rightarrow> answered s (cs_calls s ! i) r)"

definition map_ok :: "cache_system \<Rightarrow> bool" where
  "map_ok s \<longleftrightarrow> (\<forall>key a. rc_m (cs_cache s) key = Some a \<longrightarrow> a < length (cs_ghosts s) \<and> gh_key (ghost s a) = key \<and>
     gh_epoch (ghost s a) = cs_epoch s \<and> (\<forall>ts r. gh_settled (ghost s a) = Some (ts, r) \<longrightarrow> snd r = None))"

definition system_ok :: "cache_system \<Rightarrow> bool" where
  "system_ok s \<longleftrightarrow> length (rc_heap (cs_cache s)) = length (cs_ghosts s) \<and> map_ok s \<and>
     (\<forall>a<length (cs_ghosts s). entry_ok s a) \<and> (\<forall>i<length (cs_calls s). call_ok s i)"

lemma system_ok_initial: "system_ok initial_system"
  by (simp add: system_ok_def initial_system_def newRespCache_def map_ok_def)

lemma ok_entry: "system_ok s \<Longrightarrow> a < length (cs_ghosts s) \<Longrightarrow> entry_ok s a"
  by (simp add: system_ok_def)

lemma ok_call: "system_ok s \<Longrightarrow> i < length (cs_calls s) \<Longrightarrow> call_ok s i"
  by (simp add: system_ok_def)

section \<open>Every step keeps it\<close>

text \<open>What a step leaves alone: the calls and the entries that it does not touch.\<close>

lemma call_ok_frame:
  assumes "call_ok s j" "cs_calls s' ! j = cs_calls s ! j" "length (cs_ghosts s) \<le> length (cs_ghosts s')"
    and same: "\<And>a. a < length (cs_ghosts s) \<Longrightarrow> gh_owner (ghost s' a) = gh_owner (ghost s a) \<and> gh_key (ghost s' a) = gh_key (ghost s a) \<and>
      gh_ttl (ghost s' a) = gh_ttl (ghost s a) \<and> gh_epoch (ghost s' a) = gh_epoch (ghost s a) \<and>
      (gh_settled (ghost s a) \<noteq> None \<longrightarrow> gh_settled (ghost s' a) = gh_settled (ghost s a))"
    and own: "\<And>a. a < length (cs_ghosts s) \<Longrightarrow> gh_owner (ghost s a) = j \<Longrightarrow>
      gh_settled (ghost s' a) = gh_settled (ghost s a) \<and> en_closed (entry s' a) = en_closed (entry s a)"
  shows "call_ok s' j"
proof -
  have link: "linked s (cs_calls s ! j) a \<Longrightarrow> linked s' (cs_calls s ! j) a" for a
    using same [of a] assms(3) by (auto simp: linked_def)
  have owns: "owns s j a \<Longrightarrow> owns s' j a \<and> gh_settled (ghost s' a) = gh_settled (ghost s a) \<and> en_closed (entry s' a) = en_closed (entry s a)" for a
    using same [of a] own [of a] link [of a] assms(2) by (auto simp: owns_def linked_def)
  have kept: "gh_settled (ghost s' a) = Some (ts, r)"
    if "linked s (cs_calls s ! j) a" "gh_settled (ghost s a) = Some (ts, r)" for a ts r
    using same [of a] that by (auto simp: linked_def)
  have ttl: "linked s (cs_calls s ! j) a \<Longrightarrow> gh_ttl (ghost s' a) = gh_ttl (ghost s a)" for a
    using same [of a] by (auto simp: linked_def)
  have ans: "answered s (cs_calls s ! j) r \<Longrightarrow> answered s' (cs_calls s ! j) r" for r
    by (cases "ca_served (cs_calls s ! j)") (auto simp: answered_def ttl dest: link intro: kept)
  show ?thesis
  proof (cases "pc_of s j")
    case (Waiting a)
    then show ?thesis using assms(1,2) link by (simp add: call_ok_def)
  next
    case (Computing a)
    then show ?thesis using assms(1,2) owns [of a] by (simp add: call_ok_def)
  next
    case (Settling a r)
    then show ?thesis using assms(1,2) owns [of a] by (simp add: call_ok_def)
  next
    case (Closing a r)
    then show ?thesis using assms(1,2) owns [of a] by (cases r) (simp add: call_ok_def)
  next
    case (Returned r)
    then show ?thesis using assms(1,2) ans by (simp add: call_ok_def)
  qed (simp add: call_ok_def assms(2))
qed

lemma entry_ok_frame:
  assumes "entry_ok s a" "entry s' a = entry s a" "ghost s' a = ghost s a" "length (cs_calls s) \<le> length (cs_calls s')"
    and "pc_of s' (gh_owner (ghost s a)) = pc_of s (gh_owner (ghost s a))" "cs_epoch s \<le> cs_epoch s'"
    and "gh_settled (ghost s a) = None \<Longrightarrow> gh_epoch (ghost s a) = cs_epoch s' \<Longrightarrow>
      cs_epoch s' = cs_epoch s \<and> (rc_m (cs_cache s) (gh_key (ghost s a)) = Some a \<longrightarrow> rc_m (cs_cache s') (gh_key (ghost s a)) = Some a)"
  shows "entry_ok s' a"
proof (cases "gh_settled (ghost s a)")
  case None
  then show ?thesis using assms by (auto simp: entry_ok_def)
next
  case (Some q)
  then show ?thesis using assms by (cases q) (simp add: entry_ok_def)
qed

lemma map_ok_frame:
  assumes "map_ok s" "cs_ghosts s' = cs_ghosts s" "cs_epoch s' = cs_epoch s" "rc_m (cs_cache s') = rc_m (cs_cache s)"
  shows "map_ok s'"
  using assms by (simp add: map_ok_def)

text \<open>The owner of an entry, seen from the entry.\<close>

lemma owner_busy: "entry_ok s a \<Longrightarrow> pc_of s (gh_owner (ghost s a)) \<in> {Computing a} \<union> range (Settling a) \<union> range (Closing a) \<union> range Returned"
  by (auto simp: entry_ok_def split: option.splits if_splits)

lemma arrive_ok:
  assumes "system_ok s" "ca_pc x = AtEntry"
  shows "system_ok (s\<lparr>cs_calls := cs_calls s @ [x]\<rparr>)"
  unfolding system_ok_def
proof (intro conjI allI impI)
  let ?s = "s\<lparr>cs_calls := cs_calls s @ [x]\<rparr>"
  show "length (rc_heap (cs_cache ?s)) = length (cs_ghosts ?s)" "map_ok ?s" using assms(1) by (simp_all add: system_ok_def map_ok_def)
  show "entry_ok ?s a" if "a < length (cs_ghosts ?s)" for a
  proof -
    have ok: "entry_ok s a" using ok_entry [OF assms(1)] that by simp
    then show ?thesis by (rule entry_ok_frame) (use ok in \<open>simp_all add: entry_ok_def nth_append\<close>)
  qed
  show "call_ok ?s i" if i: "i < length (cs_calls ?s)" for i
  proof (cases "i < length (cs_calls s)")
    case True
    show ?thesis by (rule call_ok_frame [OF ok_call [OF assms(1) True]]) (use True in \<open>simp_all add: nth_append\<close>)
  next
    case False
    then have "i = length (cs_calls s)" using i by simp
    then show ?thesis using assms(2) by (simp add: call_ok_def)
  qed
qed

lemma clear_ok:
  assumes "system_ok s"
  shows "system_ok (s\<lparr>cs_cache := cache_clear (cs_cache s), cs_epoch := cs_epoch s + 1\<rparr>)"
  unfolding system_ok_def
proof (intro conjI allI impI)
  let ?s = "s\<lparr>cs_cache := cache_clear (cs_cache s), cs_epoch := cs_epoch s + 1\<rparr>"
  show "length (rc_heap (cs_cache ?s)) = length (cs_ghosts ?s)" "map_ok ?s"
    using assms(1) by (simp_all add: system_ok_def map_ok_def cache_clear_def)
  show "entry_ok ?s a" if "a < length (cs_ghosts ?s)" for a
  proof -
    have ok: "entry_ok s a" using ok_entry [OF assms(1)] that by simp
    then show ?thesis by (rule entry_ok_frame) (use ok in \<open>simp_all add: entry_ok_def cache_clear_def\<close>)
  qed
  show "call_ok ?s i" if "i < length (cs_calls ?s)" for i
  proof -
    have "call_ok s i" using ok_call [OF assms] that by simp
    then show ?thesis by (rule call_ok_frame) (simp_all add: cache_clear_def)
  qed
qed

lemma compute_ok:
  assumes "system_ok s" "i < length (cs_calls s)" "pc_of s i = Computing a"
  shows "system_ok (set_pc i (Settling a r) s)"
  unfolding system_ok_def
proof (intro conjI allI impI)
  let ?s = "set_pc i (Settling a r) s"
  have own: "owns s i a" "gh_settled (ghost s a) = None" using ok_call [OF assms(1,2)] assms(3) by (simp_all add: call_ok_def)
  show "length (rc_heap (cs_cache ?s)) = length (cs_ghosts ?s)" "map_ok ?s"
    using assms(1) by (simp_all add: system_ok_def map_ok_def set_pc_def)
  show "entry_ok ?s b" if "b < length (cs_ghosts ?s)" for b
  proof -
    have ok: "entry_ok s b" using ok_entry [OF assms(1)] that by (simp add: set_pc_def)
    show ?thesis
    proof (cases "gh_owner (ghost s b) = i")
      case True
      then have "b = a" using owner_busy [OF ok] assms(3) by auto
      then show ?thesis using ok own(2) assms(2) True by (simp add: entry_ok_def set_pc_def)
    next
      case False
      from ok show ?thesis by (rule entry_ok_frame) (use False in \<open>simp_all add: set_pc_def\<close>)
    qed
  qed
  show "call_ok ?s j" if j: "j < length (cs_calls ?s)" for j
  proof (cases "j = i")
    case True
    then show ?thesis using own assms(2) by (simp add: call_ok_def owns_def linked_def set_pc_def)
  next
    case False
    have "call_ok s j" using ok_call [OF assms(1)] j by (simp add: set_pc_def)
    then show ?thesis by (rule call_ok_frame) (use False in \<open>simp_all add: set_pc_def\<close>)
  qed
qed

lemma settle_ok:
  assumes "system_ok s" "i < length (cs_calls s)" "pc_of s i = Settling a r"
  shows "system_ok (settle_call i now a r s)"
  unfolding system_ok_def
proof (intro conjI allI impI)
  let ?s = "settle_call i now a r s"
  have own: "owns s i a" "gh_settled (ghost s a) = None" using ok_call [OF assms(1,2)] assms(3) by (simp_all add: call_ok_def)
  then have a: "a < length (cs_ghosts s)" "gh_owner (ghost s a) = i" "gh_key (ghost s a) = ca_key (cs_calls s ! i)"
    "gh_ttl (ghost s a) = ca_ttl (cs_calls s ! i)" by (simp_all add: owns_def linked_def)
  have len: "length (rc_heap (cs_cache s)) = length (cs_ghosts s)" and map: "map_ok s" using assms(1) by (simp_all add: system_ok_def)
  have ea: "entry_ok s a" using ok_entry [OF assms(1) a(1)] .
  have heap: "rc_heap (cs_cache ?s) = (rc_heap (cs_cache s))[a := (entry s a)\<lparr>en_body := fst r, en_err := snd r,
      en_expires := (if snd r = None then now + gh_ttl (ghost s a) else en_expires (entry s a)), en_ready := False\<rparr>]"
    by (cases "snd r") (simp_all add: settle_call_def set_pc_def cache_settle_def Let_def a(4))
  have ghosts: "cs_ghosts ?s = (cs_ghosts s)[a := (ghost s a)\<lparr>gh_settled := Some (now, r)\<rparr>]"
    and epoch: "cs_epoch ?s = cs_epoch s"
    and calls: "cs_calls ?s = (cs_calls s)[i := (cs_calls s ! i)\<lparr>ca_pc := Closing a r\<rparr>]"
    by (simp_all add: settle_call_def set_pc_def Let_def)
  have m: "rc_m (cs_cache ?s) k = (if snd r \<noteq> None \<and> k = gh_key (ghost s a) \<and> rc_m (cs_cache s) k = Some a then None else rc_m (cs_cache s) k)" for k
    by (cases "snd r") (auto simp: settle_call_def set_pc_def cache_settle_def Let_def a(3))
  show "length (rc_heap (cs_cache ?s)) = length (cs_ghosts ?s)" using len by (simp add: heap ghosts)
  show "map_ok ?s"
    unfolding map_ok_def
  proof (intro allI impI)
    fix key b assume "rc_m (cs_cache ?s) key = Some b"
    then have b: "rc_m (cs_cache s) key = Some b" "\<not> (snd r \<noteq> None \<and> key = gh_key (ghost s a) \<and> b = a)"
      by (auto simp: m split: if_splits)
    then have old: "b < length (cs_ghosts s)" "gh_key (ghost s b) = key" "gh_epoch (ghost s b) = cs_epoch s"
      "\<And>ts q. gh_settled (ghost s b) = Some (ts, q) \<Longrightarrow> snd q = None" using map unfolding map_ok_def by blast+
    show "b < length (cs_ghosts ?s) \<and> gh_key (ghost ?s b) = key \<and> gh_epoch (ghost ?s b) = cs_epoch ?s \<and>
        (\<forall>ts q. gh_settled (ghost ?s b) = Some (ts, q) \<longrightarrow> snd q = None)"
    proof (cases "b = a")
      case True
      then have "snd r = None" using b(2) old(2) by blast
      then show ?thesis using True old(2,3) a(1) by (auto simp: ghosts epoch)
    next
      case False
      then show ?thesis using old by (simp add: ghosts epoch)
    qed
  qed
  show "entry_ok ?s b" if "b < length (cs_ghosts ?s)" for b
  proof (cases "b = a")
    case True
    have "\<not> en_closed (entry s a)" using ea own(2) by (simp add: entry_ok_def)
    then show ?thesis
      using True ea a len assms(2) by (auto simp: entry_ok_def heap ghosts epoch calls)
  next
    case False
    have ok: "entry_ok s b" using ok_entry [OF assms(1)] that by (simp add: ghosts)
    then have "gh_owner (ghost s b) \<noteq> i" using owner_busy [OF ok] assms(3) False by auto
    then show ?thesis using False by (intro entry_ok_frame [OF ok]) (simp_all add: heap ghosts epoch calls m)
  qed
  show "call_ok ?s j" if j: "j < length (cs_calls ?s)" for j
  proof (cases "j = i")
    case True
    have "\<not> en_closed (entry s a)" using ea own(2) by (simp add: entry_ok_def)
    then show ?thesis
      using True own a(1) len assms(2) by (auto simp: call_ok_def owns_def linked_def heap ghosts calls)
  next
    case False
    have "call_ok s j" using ok_call [OF assms(1)] j by (simp add: calls)
    then show ?thesis
      by (rule call_ok_frame) (use False own(2) a(1,2) in \<open>auto simp: heap ghosts calls nth_list_update\<close>)
  qed
qed

lemma close_ok:
  assumes "system_ok s" "i < length (cs_calls s)" "pc_of s i = Closing a r"
  shows "system_ok (set_pc i (Returned r) (s\<lparr>cs_cache := cache_close a (cs_cache s)\<rparr>))"
  unfolding system_ok_def
proof (intro conjI allI impI)
  let ?s = "set_pc i (Returned r) (s\<lparr>cs_cache := cache_close a (cs_cache s)\<rparr>)"
  obtain ts where own: "owns s i a" "gh_settled (ghost s a) = Some (ts, r)" "\<not> en_closed (entry s a)"
    using ok_call [OF assms(1,2)] assms(3) by (cases r) (auto simp: call_ok_def)
  then have a: "a < length (cs_ghosts s)" "gh_owner (ghost s a) = i" by (simp_all add: owns_def linked_def)
  have len: "length (rc_heap (cs_cache s)) = length (cs_ghosts s)" and map: "map_ok s" using assms(1) by (simp_all add: system_ok_def)
  have ea: "entry_ok s a" using ok_entry [OF assms(1) a(1)] .
  have heap: "rc_heap (cs_cache ?s) = (rc_heap (cs_cache s))[a := (entry s a)\<lparr>en_closed := True\<rparr>]"
    and rest: "cs_ghosts ?s = cs_ghosts s" "cs_epoch ?s = cs_epoch s" "rc_m (cs_cache ?s) = rc_m (cs_cache s)"
    and calls: "cs_calls ?s = (cs_calls s)[i := (cs_calls s ! i)\<lparr>ca_pc := Returned r\<rparr>]"
    by (simp_all add: set_pc_def cache_close_def)
  show "length (rc_heap (cs_cache ?s)) = length (cs_ghosts ?s)" using len by (simp add: heap rest)
  show "map_ok ?s" by (rule map_ok_frame [OF map]) (simp_all add: rest)
  show "entry_ok ?s b" if "b < length (cs_ghosts ?s)" for b
  proof (cases "b = a")
    case True
    then show ?thesis using ea own(2) a len assms(2) by (simp add: entry_ok_def heap rest calls)
  next
    case False
    have ok: "entry_ok s b" using ok_entry [OF assms(1)] that by (simp add: rest)
    then have "gh_owner (ghost s b) \<noteq> i" using owner_busy [OF ok] assms(3) False by auto
    then show ?thesis using False by (intro entry_ok_frame [OF ok]) (simp_all add: heap rest calls)
  qed
  show "call_ok ?s j" if j: "j < length (cs_calls ?s)" for j
  proof (cases "j = i")
    case True
    then show ?thesis
      using own a assms(2) by (auto simp: call_ok_def answered_def owns_def linked_def rest calls)
  next
    case False
    have "call_ok s j" using ok_call [OF assms(1)] j by (simp add: calls)
    then show ?thesis
    proof (rule call_ok_frame)
      show "gh_settled (ghost ?s b) = gh_settled (ghost s b) \<and> en_closed (entry ?s b) = en_closed (entry s b)"
        if "gh_owner (ghost s b) = j" for b
        using that False a(2) by (cases "b = a") (simp_all add: heap rest)
    qed (use False in \<open>simp_all add: rest calls\<close>)
  qed
qed

lemma wake_ok:
  assumes "system_ok s" "i < length (cs_calls s)" "pc_of s i = Waiting a" "en_closed (entry s a)"
  shows "system_ok (set_pc i (Returned (en_body (entry s a), en_err (entry s a))) s)"
  unfolding system_ok_def
proof (intro conjI allI impI)
  let ?r = "(en_body (entry s a), en_err (entry s a))" let ?s = "set_pc i (Returned ?r) s"
  have link: "linked s (cs_calls s ! i) a" "ca_served (cs_calls s ! i) = Joined a"
    using ok_call [OF assms(1,2)] assms(3) by (simp_all add: call_ok_def)
  then have "entry_ok s a" using ok_entry [OF assms(1)] by (simp add: linked_def)
  then obtain ts where settled: "gh_settled (ghost s a) = Some (ts, ?r)"
    using assms(4) by (auto simp: entry_ok_def split: option.splits)
  have calls: "cs_calls ?s = (cs_calls s)[i := (cs_calls s ! i)\<lparr>ca_pc := Returned ?r\<rparr>]"
    and rest: "cs_ghosts ?s = cs_ghosts s" "cs_epoch ?s = cs_epoch s" "cs_cache ?s = cs_cache s" by (simp_all add: set_pc_def)
  show "length (rc_heap (cs_cache ?s)) = length (cs_ghosts ?s)" "map_ok ?s"
    using assms(1) by (simp_all add: system_ok_def map_ok_def rest)
  show "entry_ok ?s b" if "b < length (cs_ghosts ?s)" for b
  proof -
    have ok: "entry_ok s b" using ok_entry [OF assms(1)] that by (simp add: rest)
    then have "gh_owner (ghost s b) \<noteq> i" using owner_busy [OF ok] assms(3) by auto
    then show ?thesis by (intro entry_ok_frame [OF ok]) (simp_all add: rest calls)
  qed
  show "call_ok ?s j" if j: "j < length (cs_calls ?s)" for j
  proof (cases "j = i")
    case True
    then show ?thesis using link settled assms(2) by (auto simp: call_ok_def answered_def linked_def rest calls)
  next
    case False
    have "call_ok s j" using ok_call [OF assms(1)] j by (simp add: calls)
    then show ?thesis by (rule call_ok_frame) (use False in \<open>simp_all add: rest calls\<close>)
  qed
qed

text \<open>A call that enters: it joins, it hits, or it starts a computation of its own.\<close>

lemma enter_cases:
  assumes "map_ok s"
  obtains
    (joined) a where "rc_m (cs_cache s) key = Some a" "en_ready (entry s a)" "cache_enter key now (cs_cache s) = (cs_cache s, Waiting a)"
  | (hit) a where "rc_m (cs_cache s) key = Some a" "\<not> en_ready (entry s a)" "now < en_expires (entry s a)"
      "cache_enter key now (cs_cache s) = (cs_cache s, Returned (en_body (entry s a), None))"
  | (fresh) "cache_enter key now (cs_cache s) = cache_fresh key (cs_cache s)"
      "\<And>a. rc_m (cs_cache s) key = Some a \<Longrightarrow> \<not> en_ready (entry s a)"
proof (cases "rc_m (cs_cache s) key")
  case None
  then show ?thesis by (intro fresh) (simp_all add: cache_enter_def)
next
  case (Some a)
  show ?thesis
  proof (cases "en_ready (entry s a)")
    case True
    then show ?thesis using Some by (intro joined) (simp_all add: cache_enter_def)
  next
    case False
    then show ?thesis using Some hit fresh by (cases "now < en_expires (entry s a)") (simp_all add: cache_enter_def)
  qed
qed

lemma enter_ok_quiet:
  assumes "system_ok s" "i < length (cs_calls s)" "pc_of s i = AtEntry"
    and x: "x = (cs_calls s ! i)\<lparr>ca_pc := pc, ca_served := sv, ca_epoch := cs_epoch s\<rparr>"
    and ok: "call_ok (s\<lparr>cs_calls := (cs_calls s)[i := x]\<rparr>) i"
  shows "system_ok (s\<lparr>cs_calls := (cs_calls s)[i := x]\<rparr>)"
  unfolding system_ok_def
proof (intro conjI allI impI)
  let ?s = "s\<lparr>cs_calls := (cs_calls s)[i := x]\<rparr>"
  show "length (rc_heap (cs_cache ?s)) = length (cs_ghosts ?s)" "map_ok ?s" using assms(1) by (simp_all add: system_ok_def map_ok_def)
  show "entry_ok ?s b" if "b < length (cs_ghosts ?s)" for b
  proof -
    have eb: "entry_ok s b" using ok_entry [OF assms(1)] that by simp
    then have "gh_owner (ghost s b) \<noteq> i" using owner_busy [OF eb] assms(3) by auto
    then show ?thesis by (intro entry_ok_frame [OF eb]) simp_all
  qed
  show "call_ok ?s j" if j: "j < length (cs_calls ?s)" for j
  proof (cases "j = i")
    case False
    have "call_ok s j" using ok_call [OF assms(1)] j by simp
    then show ?thesis by (rule call_ok_frame) (use False in simp_all)
  qed (simp add: ok)
qed

lemma enter_ok_fresh:
  assumes "system_ok s" "i < length (cs_calls s)" "pc_of s i = AtEntry"
    and enter: "cache_enter (ca_key (cs_calls s ! i)) now (cs_cache s) = cache_fresh (ca_key (cs_calls s ! i)) (cs_cache s)"
    and free: "\<And>a. rc_m (cs_cache s) (ca_key (cs_calls s ! i)) = Some a \<Longrightarrow> \<not> en_ready (entry s a)"
  shows "system_ok (enter_call i now s)"
  unfolding system_ok_def
proof (intro conjI allI impI)
  let ?x = "cs_calls s ! i" and ?n = "length (cs_ghosts s)" and ?s = "enter_call i now s"
  have len: "length (rc_heap (cs_cache s)) = ?n" and map: "map_ok s" using assms(1) by (simp_all add: system_ok_def)
  have heap: "rc_heap (cs_cache ?s) = rc_heap (cs_cache s) @
      [\<lparr>en_body = [], en_err = None, en_expires = 0, en_ready = True, en_closed = False\<rparr>]"
    and m: "rc_m (cs_cache ?s) = (rc_m (cs_cache s))(ca_key ?x \<mapsto> ?n)"
    and ghosts: "cs_ghosts ?s = cs_ghosts s @ [\<lparr>gh_owner = i, gh_key = ca_key ?x, gh_ttl = ca_ttl ?x, gh_epoch = cs_epoch s, gh_settled = None\<rparr>]"
    and epoch: "cs_epoch ?s = cs_epoch s"
    and calls: "cs_calls ?s = (cs_calls s)[i := ?x\<lparr>ca_pc := Computing ?n, ca_served := Own ?n, ca_epoch := cs_epoch s\<rparr>]"
    by (simp_all add: enter_call_def enter cache_fresh_def served_by_def Let_def len)
  show "length (rc_heap (cs_cache ?s)) = length (cs_ghosts ?s)" by (simp add: heap ghosts len)
  show "map_ok ?s"
    using map unfolding map_ok_def by (fastforce simp: m ghosts epoch nth_append split: if_splits)
  show "entry_ok ?s b" if "b < length (cs_ghosts ?s)" for b
  proof (cases "b = ?n")
    case True
    then show ?thesis using assms(2) len by (simp add: entry_ok_def heap m ghosts epoch calls nth_append)
  next
    case False
    then have b: "b < ?n" using that by (simp add: ghosts)
    have ok: "entry_ok s b" using ok_entry [OF assms(1) b] .
    then have owner: "gh_owner (ghost s b) \<noteq> i" using owner_busy [OF ok] assms(3) by auto
    have "gh_key (ghost s b) \<noteq> ca_key ?x" if "gh_settled (ghost s b) = None" "gh_epoch (ghost s b) = cs_epoch s"
      using ok that free [of b] by (auto simp: entry_ok_def)
    then show ?thesis
      using b owner by (intro entry_ok_frame [OF ok]) (simp_all add: heap m ghosts epoch calls nth_append len)
  qed
  show "call_ok ?s j" if j: "j < length (cs_calls ?s)" for j
  proof (cases "j = i")
    case True
    then show ?thesis using assms(2) by (simp add: call_ok_def owns_def linked_def ghosts calls nth_append)
  next
    case False
    have "call_ok s j" using ok_call [OF assms(1)] j by (simp add: calls)
    then show ?thesis by (rule call_ok_frame) (use False in \<open>simp_all add: heap ghosts calls nth_append len\<close>)
  qed
qed

lemma enter_ok:
  assumes "system_ok s" "i < length (cs_calls s)" "pc_of s i = AtEntry"
  shows "system_ok (enter_call i now s)"
proof -
  let ?x = "cs_calls s ! i"
  have map: "map_ok s" using assms(1) by (simp add: system_ok_def)
  have link: "linked s' (?x\<lparr>ca_pc := pc, ca_served := sv, ca_epoch := cs_epoch s\<rparr>) a"
    if "rc_m (cs_cache s) (ca_key ?x) = Some a" "cs_ghosts s' = cs_ghosts s" for a pc sv s'
    using map that by (auto simp: map_ok_def linked_def)
  from map show ?thesis
  proof (cases rule: enter_cases [where key = "ca_key ?x" and now = now])
    case (joined a)
    let ?y = "?x\<lparr>ca_pc := Waiting a, ca_served := Joined a, ca_epoch := cs_epoch s\<rparr>"
    have "enter_call i now s = s\<lparr>cs_calls := (cs_calls s)[i := ?y]\<rparr>"
      by (simp add: enter_call_def joined(3) served_by_def)
    moreover have "call_ok (s\<lparr>cs_calls := (cs_calls s)[i := ?y]\<rparr>) i"
      using assms(2) link [OF joined(1)] by (simp add: call_ok_def)
    ultimately show ?thesis using enter_ok_quiet [OF assms refl] by simp
  next
    case (hit a)
    let ?r = "(en_body (entry s a), None)"
    let ?y = "?x\<lparr>ca_pc := Returned ?r, ca_served := Hit a now, ca_epoch := cs_epoch s\<rparr>"
    have a: "a < length (cs_ghosts s)" using map hit(1) by (auto simp: map_ok_def)
    then obtain ts r where settled: "gh_settled (ghost s a) = Some (ts, r)" "(en_body (entry s a), en_err (entry s a)) = r"
      "snd r = None \<longrightarrow> en_expires (entry s a) = ts + gh_ttl (ghost s a)"
      using ok_entry [OF assms(1) a] hit(2) by (auto simp: entry_ok_def split: option.splits)
    moreover have "snd r = None" using map hit(1) settled(1) unfolding map_ok_def by blast
    ultimately have "gh_settled (ghost s a) = Some (ts, ?r)" "now < ts + gh_ttl (ghost s a)" using hit(3) by auto
    then have "answered (s\<lparr>cs_calls := (cs_calls s)[i := ?y]\<rparr>) ?y ?r"
      using link [OF hit(1)] by (auto simp: answered_def)
    then have "call_ok (s\<lparr>cs_calls := (cs_calls s)[i := ?y]\<rparr>) i" using assms(2) by (simp add: call_ok_def)
    moreover have "enter_call i now s = s\<lparr>cs_calls := (cs_calls s)[i := ?y]\<rparr>"
      by (simp add: enter_call_def hit(1,4) served_by_def)
    ultimately show ?thesis using enter_ok_quiet [OF assms refl] by simp
  next
    case fresh
    then show ?thesis by (intro enter_ok_fresh [OF assms])
  qed
qed

lemma call_step_ok: "call_step s s' \<Longrightarrow> system_ok s \<Longrightarrow> system_ok s'"
  by (induction rule: call_step.induct) (simp_all add: enter_ok compute_ok settle_ok close_ok wake_ok)

lemma cache_step_ok: "cache_step s s' \<Longrightarrow> system_ok s \<Longrightarrow> system_ok s'"
proof (induction rule: cache_step.induct)
  case (clear s)
  then show ?case using clear_ok by simp
qed (simp_all add: arrive_ok call_step_ok)

lemma reachable_ok: "cache_reachable s \<Longrightarrow> system_ok s"
  unfolding cache_reachable_def by (induction rule: rtranclp_induct) (auto intro: system_ok_initial cache_step_ok)

section \<open>The properties\<close>

definition in_flight :: "cache_system \<Rightarrow> nat \<Rightarrow> string \<Rightarrow> bool" where
  "in_flight s i key \<longleftrightarrow> i < length (cs_calls s) \<and> ca_key (cs_calls s ! i) = key \<and> ca_epoch (cs_calls s ! i) = cs_epoch s \<and>
     (\<exists>a. pc_of s i = Computing a \<or> (\<exists>r. pc_of s i = Settling a r))"

lemma in_flight_mapped:
  assumes "system_ok s" "in_flight s i key"
  shows "\<exists>a. rc_m (cs_cache s) key = Some a \<and> gh_owner (ghost s a) = i"
proof -
  obtain a where a: "owns s i a" "gh_settled (ghost s a) = None"
    using assms ok_call [OF assms(1), of i] by (auto simp: in_flight_def call_ok_def)
  moreover from a(1) have "a < length (cs_ghosts s)" by (simp add: owns_def linked_def)
  note ok_entry [OF assms(1) this]
  ultimately show ?thesis using assms(2) by (auto simp: in_flight_def entry_ok_def owns_def linked_def)
qed

text \<open>
  C32. Over any interleaving of requests and clears of the response cache, at most one goroutine computes a key
  since the last clear, and every answer is the outcome of one computation of the answer's own key, started
  after every clear that preceded the request: the request's own, or the one it waited for, or, when it succeeded,
  one that settled less than its time to live ago. A failure reaches only those who were there for it.
\<close>

theorem response_cache_is_single_flight:
  assumes "cache_reachable s"
  shows "(in_flight s i key \<and> in_flight s j key \<longrightarrow> i = j) \<and>
    (k < length (cs_calls s) \<and> pc_of s k = Returned r \<longrightarrow> answered s (cs_calls s ! k) r)"
proof -
  have ok: "system_ok s" using assms by (rule reachable_ok)
  have "i = j" if "in_flight s i key" "in_flight s j key"
    using in_flight_mapped [OF ok that(1)] in_flight_mapped [OF ok that(2)] by auto
  moreover have "answered s (cs_calls s ! k) r" if "k < length (cs_calls s)" "pc_of s k = Returned r"
    using ok_call [OF ok that(1)] that(2) by (simp add: call_ok_def)
  ultimately show ?thesis by blast
qed

text \<open>How much a call still has to do.\<close>

fun steps_left :: "cache_pc \<Rightarrow> nat" where
  "steps_left AtEntry = 4"
| "steps_left (Computing a) = 3"
| "steps_left (Settling a r) = 2"
| "steps_left (Closing a r) = 1"
| "steps_left (Waiting a) = 1"
| "steps_left (Returned r) = 0"

definition work_left :: "cache_system \<Rightarrow> nat" where
  "work_left s = (\<Sum>x\<leftarrow>cs_calls s. steps_left (ca_pc x))"

lemma work_left_update:
  assumes "i < length (cs_calls s)" "cs_calls s' = (cs_calls s)[i := x]" "steps_left (ca_pc x) < steps_left (pc_of s i)"
  shows "work_left s' < work_left s"
proof -
  have "cs_calls s = take i (cs_calls s) @ cs_calls s ! i # drop (Suc i) (cs_calls s)" using assms(1) by (rule id_take_nth_drop)
  then have "work_left s = (\<Sum>x\<leftarrow>take i (cs_calls s). steps_left (ca_pc x)) + steps_left (pc_of s i) + (\<Sum>x\<leftarrow>drop (Suc i) (cs_calls s). steps_left (ca_pc x))"
    unfolding work_left_def by (metis (no_types, lifting) add.assoc list.simps(9) map_append sum_list.Cons sum_list_append)
  moreover have "work_left s' =
      (\<Sum>x\<leftarrow>take i (cs_calls s). steps_left (ca_pc x)) + steps_left (ca_pc x) + (\<Sum>x\<leftarrow>drop (Suc i) (cs_calls s). steps_left (ca_pc x))"
    using assms(1) by (simp add: work_left_def assms(2) upd_conv_take_nth_drop)
  ultimately show ?thesis using assms(3) by simp
qed

lemma enter_steps: "snd (cache_enter key now c) = pc \<Longrightarrow> steps_left pc < 4"
  by (auto simp: cache_enter_def cache_fresh_def Let_def split: option.splits if_splits)

lemma call_step_works: "call_step s s' \<Longrightarrow> work_left s' < work_left s"
proof (induction rule: call_step.induct)
  case (enter i s now)
  let ?k = "ca_key (cs_calls s ! i)"
  have "cs_calls (enter_call i now s) = (cs_calls s)[i := (cs_calls s ! i)\<lparr>ca_pc := snd (cache_enter ?k now (cs_cache s)),
      ca_served := served_by ?k now (cs_cache s) (snd (cache_enter ?k now (cs_cache s))), ca_epoch := cs_epoch s\<rparr>]"
    by (simp add: enter_call_def Let_def split_beta)
  then show ?case using work_left_update [OF enter(1)] enter(2) enter_steps [OF refl] by simp
next
  case (compute i s a r)
  then show ?case by (intro work_left_update [OF compute(1)], simp add: set_pc_def) simp
next
  case (settle i s a r now)
  then show ?case by (intro work_left_update [OF settle(1)], simp add: settle_call_def set_pc_def Let_def) simp
next
  case (close i s a r)
  then show ?case by (intro work_left_update [OF close(1)], simp add: set_pc_def) simp
next
  case (wake i s a)
  then show ?case by (intro work_left_update [OF wake(1)], simp add: set_pc_def) simp
qed

lemma busy_steps:
  assumes "i < length (cs_calls s)" "\<And>a. pc_of s i \<noteq> Waiting a" "\<And>r. pc_of s i \<noteq> Returned r"
  shows "\<exists>s'. call_step s s'"
  using assms call_step.intros(1-4) [of i s] by (cases "pc_of s i") blast+

lemma waiting_steps:
  assumes "system_ok s" "i < length (cs_calls s)" "pc_of s i = Waiting a"
  shows "\<exists>s'. call_step s s'"
proof -
  have "a < length (cs_ghosts s)" using ok_call [OF assms(1,2)] assms(3) by (simp add: call_ok_def linked_def)
  then have ea: "entry_ok s a" by (rule ok_entry [OF assms(1)])
  let ?j = "gh_owner (ghost s a)"
  have j: "?j < length (cs_calls s)" using ea by (simp add: entry_ok_def)
  show ?thesis
  proof (cases "en_closed (entry s a)")
    case True
    then show ?thesis using call_step.wake [OF assms(2,3)] by blast
  next
    case False
    then have "pc_of s ?j \<noteq> Waiting b \<and> pc_of s ?j \<noteq> Returned r" for b r
      using ea by (auto simp: entry_ok_def split: option.splits)
    then show ?thesis using busy_steps [OF j] by blast
  qed
qed

text \<open>
  The response cache strands nobody: each step a caller takes leaves less to do, and as long as a caller is
  without its answer some caller can take one, whatever was cleared in between.
\<close>

theorem response_cache_strands_nobody:
  assumes "cache_reachable s"
  shows "(call_step s s' \<longrightarrow> work_left s' < work_left s) \<and>
    ((\<forall>x\<in>set (cs_calls s). \<exists>r. ca_pc x = Returned r) \<or> (\<exists>s'. call_step s s'))"
proof (intro conjI impI)
  have ok: "system_ok s" using assms by (rule reachable_ok)
  show "(\<forall>x\<in>set (cs_calls s). \<exists>r. ca_pc x = Returned r) \<or> (\<exists>s'. call_step s s')"
  proof (intro disjCI ballI)
    fix x assume stuck: "\<nexists>s'. call_step s s'" and "x \<in> set (cs_calls s)"
    then obtain i where i: "i < length (cs_calls s)" "x = cs_calls s ! i" by (auto simp: in_set_conv_nth)
    show "\<exists>r. ca_pc x = Returned r"
      using stuck busy_steps [OF i(1)] waiting_steps [OF ok i(1)] unfolding i(2) by blast
  qed
qed (rule call_step_works)

section \<open>Witnesses\<close>

lemma reachable_initial: "cache_reachable initial_system"
  by (simp add: cache_reachable_def)

lemma reachable_step: "cache_reachable s \<Longrightarrow> cache_step s s' \<Longrightarrow> cache_reachable s'"
  unfolding cache_reachable_def by (rule rtranclp.rtrancl_into_rtrancl)

definition sample_entered :: cache_system where
  "sample_entered = enter_call 0 5 (initial_system\<lparr>cs_calls := cs_calls initial_system @
     [\<lparr>ca_key = ''live'', ca_ttl = 10, ca_pc = AtEntry, ca_served = Unserved, ca_epoch = 0\<rparr>]\<rparr>)"

definition sample_answer :: outcome where "sample_answer = (''body'', None)"

definition sample_settled :: cache_system where
  "sample_settled = settle_call 0 7 0 sample_answer (set_pc 0 (Settling 0 sample_answer) sample_entered)"

definition sample_answered :: cache_system where
  "sample_answered = set_pc 0 (Returned sample_answer) (sample_settled\<lparr>cs_cache := cache_close 0 (cs_cache sample_settled)\<rparr>)"

lemma sample_entered_reachable: "cache_reachable sample_entered"
  unfolding sample_entered_def
  by (rule reachable_step [OF reachable_step [OF reachable_initial cache_step.arrive]], rule cache_step.call, rule call_step.enter)
    (simp_all add: initial_system_def)

lemmas sample_defs = sample_entered_def sample_settled_def enter_call_def settle_call_def set_pc_def initial_system_def newRespCache_def
  cache_enter_def cache_fresh_def cache_settle_def served_by_def

lemma sample_pcs:
  "length (cs_calls sample_entered) = 1" "pc_of sample_entered 0 = Computing 0"
  "length (cs_calls (set_pc 0 (Settling 0 sample_answer) sample_entered)) = 1"
  "pc_of (set_pc 0 (Settling 0 sample_answer) sample_entered) 0 = Settling 0 sample_answer"
  "length (cs_calls sample_settled) = 1" "pc_of sample_settled 0 = Closing 0 sample_answer"
  by (simp_all add: sample_defs sample_answer_def Let_def)

lemma sample_answered_reachable: "cache_reachable sample_answered"
proof -
  have "cache_reachable (set_pc 0 (Settling 0 sample_answer) sample_entered)"
    by (rule reachable_step [OF sample_entered_reachable], rule cache_step.call, rule call_step.compute) (simp_all add: sample_pcs)
  then have "cache_reachable sample_settled"
    unfolding sample_settled_def
    by (rule reachable_step, intro cache_step.call call_step.settle) (simp_all add: sample_pcs)
  then show ?thesis
    unfolding sample_answered_def
    by (rule reachable_step, intro cache_step.call call_step.close) (simp_all add: sample_pcs)
qed

theorem response_cache_is_single_flight_witness:
  "answered sample_answered (cs_calls sample_answered ! 0) sample_answer"
  using response_cache_is_single_flight [OF sample_answered_reachable, of 0 "''live''" 0 0 sample_answer]
  by (simp add: sample_answered_def set_pc_def sample_pcs)

theorem response_cache_strands_nobody_witness:
  "\<exists>s'. call_step sample_entered s' \<and> work_left s' < work_left sample_entered"
proof -
  have "\<not> (\<forall>x\<in>set (cs_calls sample_entered). \<exists>r. ca_pc x = Returned r)"
    using nth_mem [of 0 "cs_calls sample_entered"] sample_pcs(1,2) by fastforce
  then show ?thesis using response_cache_strands_nobody [OF sample_entered_reachable] by blast
qed

end
