(* ===== verification/Enrollment.thy ===== *)
theory Enrollment
  imports Hub_Server Site_Auth Agent_Facts
begin

text \<open>
  How an agent comes to its identity: the machine identifier (\<open>internal/agent/machineid.go\<close>), the agent's
  configuration file (\<open>config.go\<close>), the checks on the hub's address and the enrollment request of \<open>agent.go\<close>.
  What the operating system reports about the machine, the URL parser, the calendar and the file's JSON are inputs.
\<close>

section \<open>The machine identifier\<close>

definition ToLower :: "(string \<Rightarrow> string) \<Rightarrow> string \<Rightarrow> string" where
  "ToLower unicode s = (if list_all (\<lambda>c. (of_char c :: nat) < 128) s then map ascii_lower s else unicode s)"

text \<open>\<open>(b & 0x0f) | 0x80\<close> on byte 6 and \<open>(b & 0x3f) | 0x80\<close> on byte 8 of the digest.\<close>

definition stamp_digest :: "8 word list \<Rightarrow> 8 word list" where
  "stamp_digest d = (d[6 := or (and (d ! 6) 0x0f) 0x80])[8 := or (and (d ! 8) 0x3f) 0x80]"

definition normalized_machine :: "(string \<Rightarrow> string) \<Rightarrow> string \<Rightarrow> string" where
  "normalized_machine unicode raw = filter (\<lambda>c. c \<noteq> CHR ''-'') (ToLower unicode (TrimSpace raw))"

definition machineIdentityFromRaw :: "(string \<Rightarrow> string) \<Rightarrow> (string \<Rightarrow> 8 word list) \<Rightarrow> string \<Rightarrow> string option" where
  "machineIdentityFromRaw unicode sha256 raw =
     (let normalized = normalized_machine unicode raw
      in if \<not> (length normalized = 32 \<and> list_all lower_hex normalized) \<or>
            normalized = replicate 32 (CHR ''0'') \<or> normalized = replicate 32 (CHR ''f'') then None
         else Some (uuid_text (take 16 (stamp_digest (sha256 (''omnitoken:machine:v1:'' @ normalized))))))"

text \<open>\<open>probe\<close>: what the operating system's own command or file gave, \<open>None\<close> for an error.\<close>

definition MachineIdentity :: "(string \<Rightarrow> string) \<Rightarrow> (string \<Rightarrow> 8 word list) \<Rightarrow> string option \<Rightarrow> string option" where
  "MachineIdentity unicode sha256 probe =
     (case probe of None \<Rightarrow> None | Some raw \<Rightarrow> machineIdentityFromRaw unicode sha256 raw)"

section \<open>The configuration file\<close>

record file_config =
  fc_server :: string
  fc_resolve_ip :: string
  fc_allow_insecure_http :: bool
  fc_token :: string
  fc_protocol_version :: int
  fc_machine_id :: string
  fc_device_id :: string
  fc_device_token :: string
  fc_outbox :: string
  fc_outbox_max_bytes :: int
  fc_name :: string
  fc_relay_listen :: string
  fc_relay_token :: string
  fc_relay_upstream_token :: string
  fc_interval_seconds :: int
  fc_claude_dirs :: "string list"
  fc_codex_dirs :: "string list"
  fc_dsh_dirs :: "string list"
  fc_state :: string
  fc_statusline_cache_path :: string
  fc_since :: string
  fc_proxy_listen :: string
  fc_proxy_upstreams :: "(string \<times> string) list"

definition zero_config :: file_config where
  "zero_config = \<lparr>fc_server = [], fc_resolve_ip = [], fc_allow_insecure_http = False, fc_token = [], fc_protocol_version = 0,
     fc_machine_id = [], fc_device_id = [], fc_device_token = [], fc_outbox = [], fc_outbox_max_bytes = 0, fc_name = [],
     fc_relay_listen = [], fc_relay_token = [], fc_relay_upstream_token = [], fc_interval_seconds = 0, fc_claude_dirs = [],
     fc_codex_dirs = [], fc_dsh_dirs = [], fc_state = [], fc_statusline_cache_path = [], fc_since = [], fc_proxy_listen = [],
     fc_proxy_upstreams = []\<rparr>"

datatype config_error = ConfigRead | ConfigDecode | ConfigSince string | ConfigProtocol int | ConfigExists | ConfigStat
  | ConfigWrite | PrepareMachine | PrepareRandom | PrepareRotation

definition EffectiveProtocolVersion :: "file_config \<Rightarrow> int" where
  "EffectiveProtocolVersion fc = (if fc_protocol_version fc = 0 then 1 else fc_protocol_version fc)"

text \<open>\<open>parse_date\<close> is \<open>time.ParseInLocation("2006-01-02", ...)\<close> in milliseconds; \<open>None\<close> is the zero time.\<close>

definition SinceTime :: "(string \<Rightarrow> int option) \<Rightarrow> file_config \<Rightarrow> config_error + int option" where
  "SinceTime parse_date fc =
     (if fc_since fc = [] then Inr None
      else case parse_date (fc_since fc) of None \<Rightarrow> Inl (ConfigSince (fc_since fc)) | Some t \<Rightarrow> Inr (Some t))"

datatype file_read = FileMissing | FileError | FileData string

text \<open>The configuration is returned with an error too; \<open>decode\<close> gives what was read before the error.\<close>

definition LoadFileConfig :: "(string \<Rightarrow> file_config \<times> bool) \<Rightarrow> (string \<Rightarrow> int option) \<Rightarrow> file_read \<Rightarrow>
    file_config \<times> config_error option" where
  "LoadFileConfig decode parse_date r =
     (case r of
        FileMissing \<Rightarrow> (zero_config, None)
      | FileError \<Rightarrow> (zero_config, Some ConfigRead)
      | FileData text \<Rightarrow>
          (case decode text of
             (fc, False) \<Rightarrow> (fc, Some ConfigDecode)
           | (fc, True) \<Rightarrow>
               (case SinceTime parse_date fc of
                  Inl e \<Rightarrow> (fc, Some e)
                | Inr _ \<Rightarrow>
                    if EffectiveProtocolVersion fc \<noteq> 1 \<and> EffectiveProtocolVersion fc \<noteq> 2
                    then (fc, Some (ConfigProtocol (fc_protocol_version fc)))
                    else (fc, None))))"

text \<open>A file system of text files with permission bits.\<close>

type_synonym files = "string \<Rightarrow> (string \<times> nat) option"

definition mode_600 :: nat where "mode_600 = 6 * 8 ^ 2"

datatype save_step = SvMarshal | SvMkdir | SvCreate | SvChmod | SvWrite | SvSync | SvClose | SvRename | SvRemove | SvChmodFinal

definition newline :: char where "newline = CHR 0x0A"

text \<open>The deferred \<open>os.Remove\<close>, whose error is dropped.\<close>

definition remove_temp :: "(save_step \<Rightarrow> bool) \<Rightarrow> string \<Rightarrow> files \<Rightarrow> files" where
  "remove_temp fails temp fs = (if fails SvRemove then fs else fs(temp := None))"

text \<open>\<open>os.CreateTemp\<close> makes the file readable by its owner only; a failed write may leave any part of the text.\<close>

definition SaveFileConfig :: "(save_step \<Rightarrow> bool) \<Rightarrow> (file_config \<Rightarrow> string option) \<Rightarrow> (string \<Rightarrow> string) \<Rightarrow> string \<Rightarrow> string \<Rightarrow>
    file_config \<Rightarrow> files \<Rightarrow> files \<times> save_step option" where
  "SaveFileConfig fails marshal part temp path fc fs =
     (case marshal fc of
        None \<Rightarrow> (fs, Some SvMarshal)
      | Some data \<Rightarrow>
          if fails SvMkdir then (fs, Some SvMkdir)
          else if fails SvCreate then (fs, Some SvCreate)
          else
            let empty = fs(temp \<mapsto> ([], mode_600));
                written = fs(temp \<mapsto> (data @ [newline], mode_600))
            in if fails SvChmod then (remove_temp fails temp empty, Some SvChmod)
               else if fails SvWrite then (remove_temp fails temp (fs(temp \<mapsto> (part (data @ [newline]), mode_600))), Some SvWrite)
               else if fails SvSync then (remove_temp fails temp written, Some SvSync)
               else if fails SvClose then (remove_temp fails temp written, Some SvClose)
               else if fails SvRename then (remove_temp fails temp written, Some SvRename)
               else
                 let renamed = (written(path := written temp))(temp := None)
                 in if fails SvChmodFinal then (remove_temp fails temp renamed, Some SvChmodFinal)
                    else (remove_temp fails temp renamed, None))"

text \<open>\<open>os.WriteFile\<close> creates the file before it writes, so a failed write may leave a part.\<close>

definition WriteSkeletonConfig :: "(save_step \<Rightarrow> bool) \<Rightarrow> (file_config \<Rightarrow> string option) \<Rightarrow> (string \<Rightarrow> string) \<Rightarrow> bool \<Rightarrow> string \<Rightarrow> files \<Rightarrow>
    files \<times> config_error option" where
  "WriteSkeletonConfig fails marshal part stat_fails path fs =
     (if stat_fails then (fs, Some ConfigStat)
      else if fs path \<noteq> None then (fs, Some ConfigExists)
      else case marshal (zero_config\<lparr>fc_interval_seconds := 10\<rparr>) of
        None \<Rightarrow> (fs, Some ConfigWrite)
      | Some data \<Rightarrow>
          if fails SvMkdir \<or> fails SvCreate then (fs, Some ConfigWrite)
          else if fails SvWrite then (fs(path \<mapsto> (part (data @ [newline]), mode_600)), Some ConfigWrite)
          else (fs(path \<mapsto> (data @ [newline], mode_600)), None))"

text \<open>\<open>machine\<close> is \<open>MachineIdentity\<close>'s answer and \<open>secret\<close> the thirty-two random bytes.\<close>

definition PrepareEnrollment :: "string option \<Rightarrow> string option \<Rightarrow> file_config \<Rightarrow> string \<Rightarrow> string \<Rightarrow> string \<Rightarrow>
    config_error + file_config" where
  "PrepareEnrollment machine secret existing serverURL displayName deviceToken =
     (case machine of
        None \<Rightarrow> Inl PrepareMachine
      | Some machineID \<Rightarrow>
          let e1 = existing\<lparr>fc_machine_id := machineID\<rparr>;
              e2 = (if fc_device_id e1 = [] then e1\<lparr>fc_device_id := machineID\<rparr> else e1);
              token = (if fc_device_token e2 = []
                then (if deviceToken = [] then (case secret of None \<Rightarrow> Inl PrepareRandom | Some b \<Rightarrow> Inr (base64url b)) else Inr deviceToken)
                else if deviceToken \<noteq> [] \<and> deviceToken \<noteq> fc_device_token e2 then Inl PrepareRotation
                else Inr (fc_device_token e2))
          in (case token of
                Inl e \<Rightarrow> Inl e
              | Inr t \<Rightarrow> Inr (e2\<lparr>fc_device_token := t, fc_protocol_version := 2, fc_server := serverURL, fc_name := displayName\<rparr>)))"

section \<open>The hub's address\<close>

text \<open>The parts of \<open>url.URL\<close> that the checks read; \<open>su_force_query\<close> is a query mark with nothing after it.\<close>

record server_url =
  su_scheme :: string
  su_host :: string
  su_hostname :: string
  su_user :: bool
  su_raw_query :: string
  su_force_query :: bool
  su_fragment :: string
  su_path :: string

datatype url_error = UrlParse | UrlScheme | UrlHost | UrlExtra | UrlPlaintext

text \<open>\<open>strings.EqualFold(host, "localhost")\<close>: besides ASCII case, U+017F folds to \<open>s\<close>.\<close>

fun fold_long_s :: "string \<Rightarrow> string" where
  "fold_long_s (a # b # s) = (if a = CHR 0xC5 \<and> b = CHR 0xBF then CHR ''s'' # fold_long_s s else a # fold_long_s (b # s))"
| "fold_long_s s = s"

definition is_localhost :: "string \<Rightarrow> bool" where
  "is_localhost host \<longleftrightarrow> map ascii_lower (fold_long_s host) = ''localhost''"

definition loopbackHost :: "(string \<Rightarrow> bool) \<Rightarrow> string \<Rightarrow> bool" where
  "loopbackHost loopback_ip host =
     (if is_localhost host then True
      else loopback_ip (case LastIndex host ''%'' of None \<Rightarrow> host | Some zone \<Rightarrow> take zone host))"

definition validateServerURL :: "(string \<Rightarrow> server_url option) \<Rightarrow> (string \<Rightarrow> bool) \<Rightarrow> string \<Rightarrow> bool \<Rightarrow> url_error + server_url" where
  "validateServerURL parse loopback_ip raw allowInsecureHTTP =
     (case parse raw of
        None \<Rightarrow> Inl UrlParse
      | Some u \<Rightarrow>
          if su_scheme u \<noteq> ''http'' \<and> su_scheme u \<noteq> ''https'' then Inl UrlScheme
          else if su_host u = [] \<or> su_hostname u = [] then Inl UrlHost
          else if su_user u \<or> su_raw_query u \<noteq> [] \<or> su_fragment u \<noteq> [] \<or> (su_path u \<noteq> [] \<and> su_path u \<noteq> ''/'') then Inl UrlExtra
          else if su_scheme u = ''http'' \<and> \<not> allowInsecureHTTP \<and> \<not> loopbackHost loopback_ip (su_hostname u) then Inl UrlPlaintext
          else Inr (u\<lparr>su_path := []\<rparr>))"

text \<open>\<open>URL.String\<close> on what the checks let through.\<close>

definition url_string :: "server_url \<Rightarrow> string" where
  "url_string u = su_scheme u @ ''://'' @ su_host u @ (if su_force_query u then ''?'' else [])"

section \<open>Enrollment\<close>

datatype enroll_error = EnrollNoAdmin | EnrollURL url_error | EnrollResolveIP | EnrollTransport | EnrollRejected int
  | EnrollBadReply | EnrollBadID

text \<open>What came back: nothing, or a status and the device id of the body (\<open>None\<close> when it does not decode).\<close>

datatype enroll_reply = EnrollNoReply | EnrollReply int "string option"

definition enrollment_of :: "file_config \<Rightarrow> enrollment_request" where
  "enrollment_of fc = \<lparr>er_machine_id = fc_machine_id fc, er_device_id = fc_device_id fc, er_device_token = fc_device_token fc,
     er_display_name = fc_name fc, er_capabilities = [''events'', ''quotas'', ''procs'', ''heartbeat'', ''durable_outbox'']\<rparr>"

definition newHTTPClient_ok :: "(string \<Rightarrow> bool) \<Rightarrow> string \<Rightarrow> bool" where
  "newHTTPClient_ok valid_ip resolveIP \<longleftrightarrow> resolveIP = [] \<or> valid_ip resolveIP"

record net_std =
  ns_parse_url :: "string \<Rightarrow> server_url option"
  ns_loopback_ip :: "string \<Rightarrow> bool"
  ns_valid_ip :: "string \<Rightarrow> bool"

text \<open>\<open>post\<close> takes the URL, the \<open>Authorization\<close> header and the request.\<close>

definition Enroll :: "net_std \<Rightarrow> (string \<Rightarrow> string \<Rightarrow> enrollment_request \<Rightarrow> enroll_reply) \<Rightarrow> string \<Rightarrow> string \<Rightarrow> file_config \<Rightarrow>
    file_config \<times> enroll_error option" where
  "Enroll net post serverURL adminToken fc =
     (if adminToken = [] then (fc, Some EnrollNoAdmin)
      else case validateServerURL (ns_parse_url net) (ns_loopback_ip net) serverURL (fc_allow_insecure_http fc) of
        Inl e \<Rightarrow> (fc, Some (EnrollURL e))
      | Inr u \<Rightarrow>
          if \<not> newHTTPClient_ok (ns_valid_ip net) (fc_resolve_ip fc) then (fc, Some EnrollResolveIP)
          else case post (url_string u @ ''/api/v2/enroll'') (''Bearer '' @ adminToken) (enrollment_of fc) of
            EnrollNoReply \<Rightarrow> (fc, Some EnrollTransport)
          | EnrollReply status device \<Rightarrow>
              if status \<noteq> 200 \<and> status \<noteq> 201 then (fc, Some (EnrollRejected status))
              else if fc_machine_id fc \<noteq> [] then
                (case device of
                   None \<Rightarrow> (fc, Some EnrollBadReply)
                 | Some d \<Rightarrow> if \<not> validEnrollmentDeviceID d then (fc, Some EnrollBadID) else (fc\<lparr>fc_device_id := d\<rparr>, None))
              else (fc, None))"

text \<open>The hub on the other end, when the network lets the request and the reply through.\<close>

definition reply_of_hub :: "reply \<Rightarrow> enroll_reply" where
  "reply_of_hub r =
     (case r of
        ReplyDevice status d \<Rightarrow> EnrollReply status (Some (dr_device_id d))
      | ReplyError status msg \<Rightarrow> EnrollReply status None
      | ReplyAck status ack \<Rightarrow> EnrollReply status None
      | ReplyHeartbeat d t \<Rightarrow> EnrollReply 200 None
      | ReplyRevoked d t \<Rightarrow> EnrollReply 200 None)"

definition enroll_posts :: "net_std \<Rightarrow> string \<Rightarrow> string \<Rightarrow> file_config \<Rightarrow> bool" where
  "enroll_posts net serverURL adminToken fc \<longleftrightarrow> adminToken \<noteq> [] \<and> newHTTPClient_ok (ns_valid_ip net) (fc_resolve_ip fc) \<and>
     (case validateServerURL (ns_parse_url net) (ns_loopback_ip net) serverURL (fc_allow_insecure_http fc) of
        Inl e \<Rightarrow> False | Inr u \<Rightarrow> True)"

definition enroll_with :: "(string \<Rightarrow> 8 word list) \<Rightarrow> net_std \<Rightarrow> hub_faults \<Rightarrow> int \<Rightarrow> string \<Rightarrow> string \<Rightarrow> string \<Rightarrow> file_config \<Rightarrow> hub \<Rightarrow>
    hub \<times> file_config \<times> enroll_error option" where
  "enroll_with sha256 net faults now admin serverURL adminToken fc h =
     (if enroll_posts net serverURL adminToken fc
      then fst (handleEnrollV2 sha256 admin faults now (''Bearer '' @ adminToken) (Decoded (enrollment_of fc)) h) else h,
      Enroll net (\<lambda>url auth q. reply_of_hub (snd (handleEnrollV2 sha256 admin faults now auth (Decoded q) h))) serverURL adminToken fc)"

end
