(* ===== verification/Enrollment_Properties.thy ===== *)
theory Enrollment_Properties
  imports Enrollment Hub_Properties
begin

text \<open>
  Enrollment end to end, from what the operating system says about the machine to the hub's registry and back
  into the agent's configuration file.
\<close>

section \<open>The machine identifier\<close>

lemma machine_identity_canonical:
  assumes "\<And>x. length (sha256 x) = 32" "machineIdentityFromRaw unicode sha256 raw = Some m"
  shows "validUUID m \<and> m \<noteq> []"
proof -
  let ?d = "sha256 (''omnitoken:machine:v1:'' @ normalized_machine unicode raw)"
  have m: "m = uuid_text (take 16 (stamp_digest ?d))"
    using assms(2) by (auto simp: machineIdentityFromRaw_def Let_def split: if_splits)
  have len: "length (take 16 (stamp_digest ?d)) = 16" using assms(1) by (simp add: stamp_digest_def)
  have "take 16 (stamp_digest ?d) ! 6 = or (and (?d ! 6) 0x0f) 0x80" using assms(1) by (simp add: stamp_digest_def)
  then have "hex_digit (unat (take 16 (stamp_digest ?d) ! 6) div 16) = CHR ''8''" by (simp add: version_nibble hex_digit_version)
  then have "validUUID m" using uuid_text_version(2) [OF len] by (simp add: m)
  then show ?thesis by (cases m) (simp_all add: validUUID_def)
qed

section \<open>The configuration file\<close>

text \<open>
  Saving the credentials is atomic: whatever fails, the file is as it was or holds the whole new text readable
  by its owner only, success means the latter, no other file changes, and the temporary one is gone unless its
  removal failed.
\<close>

theorem saved_config_is_atomic:
  assumes "SaveFileConfig fails marshal part temp path fc fs = (fs', e)" "temp \<noteq> path" "fs temp = None"
  shows "(fs' path = fs path \<and> e \<noteq> None \<or> (\<exists>data. marshal fc = Some data \<and> fs' path = Some (data @ [newline], mode_600))) \<and>
    (\<forall>q. q \<noteq> path \<and> q \<noteq> temp \<longrightarrow> fs' q = fs q) \<and> (\<not> fails SvRemove \<longrightarrow> fs' temp = None)"
  using assms by (auto simp: SaveFileConfig_def remove_temp_def Let_def split: option.splits if_splits)

section \<open>Enrollment\<close>

lemma prepared_fields:
  "PrepareEnrollment (Some m) secret existing server name tok = Inr fc \<Longrightarrow> fc_machine_id fc = m \<and> fc_name fc = name"
  by (auto simp: PrepareEnrollment_def Let_def split: if_splits sum.splits)

lemma enroll_success:
  assumes "enroll_with sha256 net faults now admin server adminToken fc h = (h1, fc1, None)" "fc_machine_id fc \<noteq> []"
  obtains dev where "fc1 = fc\<lparr>fc_device_id := dr_device_id dev\<rparr>" "validUUID (dr_device_id dev)"
    "EnrollMachineDevice sha256 (hf_registry faults) (fc_machine_id fc) (fc_device_id fc) (fc_name fc) (fc_device_token fc)
       (er_capabilities (enrollment_of fc)) now (hu_registry h) = (hu_registry h1, Inr dev)"
proof -
  let ?auth = "''Bearer '' @ adminToken" let ?q = "enrollment_of fc"
  obtain h' rep where hub: "handleEnrollV2 sha256 admin faults now ?auth (Decoded ?q) h = (h', rep)" by fastforce
  have posts: "enroll_posts net server adminToken fc" and ok: "Enroll net (\<lambda>url auth q. reply_of_hub (snd (handleEnrollV2 sha256 admin faults now auth (Decoded q) h))) server adminToken fc = (fc1, None)"
    using assms(1) by (auto simp: enroll_with_def enroll_posts_def Enroll_def split: if_splits sum.splits)
  have h1: "h1 = h'" using assms(1) posts hub by (simp add: enroll_with_def)
  from ok assms(2) obtain status d where rep: "reply_of_hub rep = EnrollReply status (Some d)" "validEnrollmentDeviceID d"
    "fc1 = fc\<lparr>fc_device_id := d\<rparr>"
    by (auto simp: Enroll_def hub [simplified] split: if_splits sum.splits enroll_reply.splits option.splits)
  from rep(1) obtain dev where dev: "rep = ReplyDevice status dev" "d = dr_device_id dev" by (auto simp: reply_of_hub_def split: reply.splits)
  from hub assms(2) show ?thesis
    unfolding dev(1) handleEnrollV2_def
    by (intro that [of dev]) (use rep dev(2) in \<open>auto simp: enrollment_of_def validEnrollmentDeviceID_eq h1 split: if_splits prod.splits sum.splits\<close>)
qed

text \<open>
  An enrolled agent and the hub agree: when enrollment reports success, the configuration to be saved is the
  prepared one with the hub's device id, which is canonical; the hub has bound this machine to it, and the
  agent's device token opens it.
\<close>

theorem enrollment_adopts_the_principal:
  assumes "\<And>x. length (sha256 x) = 32" "registry_inv (hu_registry h)"
    and "machineIdentityFromRaw unicode sha256 raw = Some m"
    and "PrepareEnrollment (Some m) secret existing server name tok = Inr fc"
    and "enroll_with sha256 net faults now admin server adminToken fc h = (h1, fc1, None)"
  shows "\<exists>d. fc1 = fc\<lparr>fc_device_id := d\<rparr> \<and> validUUID d \<and>
    \<lparr>mb_machine_id = m, mb_device_id = d\<rparr> \<in> set (rg_bindings (hu_registry h1)) \<and> registry_inv (hu_registry h1) \<and>
    (\<exists>r. AuthenticateDevice sha256 (hu_registry h1) d (fc_device_token fc1) = Inr (Some r, True))"
proof -
  have m: "fc_machine_id fc = m" "m \<noteq> []"
    using prepared_fields [OF assms(4)] machine_identity_canonical [OF assms(1,3)] by auto
  obtain dev where dev: "fc1 = fc\<lparr>fc_device_id := dr_device_id dev\<rparr>" "validUUID (dr_device_id dev)"
    "EnrollMachineDevice sha256 (hf_registry faults) m (fc_device_id fc) (fc_name fc) (fc_device_token fc)
       (er_capabilities (enrollment_of fc)) now (hu_registry h) = (hu_registry h1, Inr dev)"
    using enroll_success [OF assms(5)] m by auto
  have "registry_inv (hu_registry h1)"
    using step_inv [OF assms(2), of "OpEnroll (hf_registry faults) m (fc_device_id fc) (fc_name fc) (fc_device_token fc) (er_capabilities (enrollment_of fc)) now" sha256]
      dev(3) by simp
  moreover have "\<exists>r. AuthenticateDevice sha256 (hu_registry h1) (dr_device_id dev) (fc_device_token fc1) = Inr (Some r, True)"
    using Enroll_authenticates [OF assms(1,2) dev(3), of "fc_device_token fc1"] dev(1) by simp
  ultimately show ?thesis using Enroll_binds [OF assms(2) dev(3)] dev(1,2) by blast
qed

text \<open>
  C14. Reinstalling an agent does not make a second device: enrolled again from any configuration, an empty one
  included, after any history of the registry, a machine gets the device id it had, and another machine a
  different one.
\<close>

theorem reinstalling_keeps_the_principal:
  assumes "\<And>x. length (sha256 x) = 32" "registry_inv (hu_registry h)"
    and "machineIdentityFromRaw unicode sha256 raw = Some m" "machineIdentityFromRaw unicode sha256 raw' = Some m'"
    and "PrepareEnrollment (Some m) secret existing server name tok = Inr fc"
    and "PrepareEnrollment (Some m') secret' existing' server' name' tok' = Inr fc'"
    and "enroll_with sha256 net faults now admin server adminToken fc h = (h1, fc1, None)"
    and "\<forall>op\<in>set ops. stamped_op op" "hu_registry h2 = run_steps (registry_step sha256) ops (hu_registry h1)"
    and "enroll_with sha256 net' faults' now' admin' server' adminToken' fc' h2 = (h3, fc3, None)"
  shows "fc_device_id fc3 = fc_device_id fc1 \<longleftrightarrow> m' = m"
proof -
  have m: "fc_machine_id fc = m" "m \<noteq> []" "fc_machine_id fc' = m'" "m' \<noteq> []"
    using prepared_fields [OF assms(5)] prepared_fields [OF assms(6)] machine_identity_canonical [OF assms(1,3)]
      machine_identity_canonical [OF assms(1,4)] by auto
  obtain dev where dev: "fc1 = fc\<lparr>fc_device_id := dr_device_id dev\<rparr>"
    "EnrollMachineDevice sha256 (hf_registry faults) m (fc_device_id fc) (fc_name fc) (fc_device_token fc)
       (er_capabilities (enrollment_of fc)) now (hu_registry h) = (hu_registry h1, Inr dev)"
    using enroll_success [OF assms(7)] m by auto
  obtain dev' where dev': "fc3 = fc'\<lparr>fc_device_id := dr_device_id dev'\<rparr>"
    "EnrollMachineDevice sha256 (hf_registry faults') m' (fc_device_id fc') (fc_name fc') (fc_device_token fc')
       (er_capabilities (enrollment_of fc')) now' (hu_registry h2) = (hu_registry h3, Inr dev')"
    using enroll_success [OF assms(10)] m by auto
  have inv1: "registry_inv (hu_registry h1)"
    using step_inv [OF assms(2), of "OpEnroll (hf_registry faults) m (fc_device_id fc) (fc_name fc) (fc_device_token fc) (er_capabilities (enrollment_of fc)) now" sha256]
      dev(2) by simp
  from run_extend [OF assms(8) inv1, of sha256] have inv2: "registry_inv (hu_registry h2)"
    and ext: "bindings_extend (rg_bindings (hu_registry h1)) (rg_bindings (hu_registry h2))" by (simp_all add: assms(9))
  have b: "\<lparr>mb_machine_id = m, mb_device_id = dr_device_id dev\<rparr> \<in> set (rg_bindings (hu_registry h2))"
    using Enroll_binds [OF assms(2) dev(2)] ext by (auto simp: bindings_extend_def)
  have inv3: "registry_inv (hu_registry h3)"
    using step_inv [OF inv2, of "OpEnroll (hf_registry faults') m' (fc_device_id fc') (fc_name fc') (fc_device_token fc') (er_capabilities (enrollment_of fc')) now'" sha256]
      dev'(2) by simp
  have b3: "\<lparr>mb_machine_id = m, mb_device_id = dr_device_id dev\<rparr> \<in> set (rg_bindings (hu_registry h3))"
    using b Enroll_extend [OF dev'(2)] by (auto simp: bindings_extend_def)
  have "m' = m" if "dr_device_id dev' = dr_device_id dev"
    using mb.uniq_same [OF _ b3 Enroll_binds [OF inv2 dev'(2)]] inv3 that by (auto simp: registry_inv_def binding_conflict_def)
  moreover have "dr_device_id dev' = dr_device_id dev" if "m' = m"
    using Enroll_same_principal [OF _ b, of m'] dev'(2) inv2 that by (simp add: registry_inv_def)
  ultimately show ?thesis by (auto simp: dev(1) dev'(1))
qed

section \<open>Witnesses\<close>

definition run_machine :: string where "run_machine = ''  0123-4567-89AB-CDEF-0123-4567-89AB-CDEF''"

definition run_net :: net_std where
  "run_net = \<lparr>ns_parse_url = (\<lambda>_. Some \<lparr>su_scheme = ''https'', su_host = ''hub'', su_hostname = ''hub'', su_user = False,
     su_raw_query = [], su_force_query = False, su_fragment = [], su_path = []\<rparr>), ns_loopback_ip = (\<lambda>_. False), ns_valid_ip = (\<lambda>_. False)\<rparr>"

definition run_id :: string where "run_id = uuid_text (take 16 (stamp_digest (run_sha [])))"

lemma run_identity: "machineIdentityFromRaw id run_sha run_machine = Some run_id" "validUUID run_id"
proof -
  have "normalized_machine id run_machine = ''0123456789abcdef0123456789abcdef''" by code_simp
  then show id: "machineIdentityFromRaw id run_sha run_machine = Some run_id"
    by (simp add: machineIdentityFromRaw_def Let_def numeral_eq_Suc lower_hex_def less_eq_char_def run_id_def run_sha_def)
  show "validUUID run_id" using machine_identity_canonical [OF _ id] by (simp add: run_sha_def)
qed

definition run_config :: file_config where
  "run_config = zero_config\<lparr>fc_machine_id := run_id, fc_device_id := run_id, fc_device_token := ''tok'', fc_protocol_version := 2,
     fc_server := ''u'', fc_name := ''n''\<rparr>"

lemma run_prepare: "PrepareEnrollment (Some run_id) None zero_config ''u'' ''n'' ''tok'' = Inr run_config"
  by (simp add: PrepareEnrollment_def zero_config_def run_config_def)

definition run_principal :: device_record where
  "run_principal = \<lparr>dr_device_id = run_id, dr_display_name = ''n'', dr_token_hash = hashDeviceToken run_sha ''tok'',
     dr_capabilities = er_capabilities (enrollment_of run_config), dr_created_at = 1, dr_last_seen_at = 0, dr_revoked_at = 0\<rparr>"

definition run_bound :: registry where
  "run_bound = \<lparr>rg_devices = [run_principal], rg_heartbeats = [], rg_bindings = [\<lparr>mb_machine_id = run_id, mb_device_id = run_id\<rparr>]\<rparr>"

lemma run_enrolls:
  "EnrollMachineDevice run_sha False run_id run_id ''n'' ''tok'' (er_capabilities (enrollment_of run_config)) 1 empty_registry =
     (run_bound, Inr run_principal)"
  "EnrollMachineDevice run_sha False run_id run_id ''n'' ''tok'' (er_capabilities (enrollment_of run_config)) 1 run_bound =
     (run_bound, Inr run_principal)"
  using run_identity(2)
  by (simp_all add: EnrollMachineDevice_def isCanonicalUUID_eq enroll_tx_def bind_machine_def sql_select_def
      sql_insert_def deviceByID_def empty_registry_def run_bound_def run_principal_def Let_def)

lemma run_enroll_with:
  assumes "hu_registry h \<in> {empty_registry, run_bound}"
  shows "enroll_with run_sha run_net run_faults 1 ''admin'' ''u'' ''admin'' run_config h = (h\<lparr>hu_registry := run_bound\<rparr>, run_config, None)"
proof -
  have id: "run_id \<noteq> []" using machine_identity_canonical [OF _ run_identity(1)] by (simp add: run_sha_def)
  have q: "er_machine_id (enrollment_of run_config) = run_id" "er_device_id (enrollment_of run_config) = run_id"
    "er_device_token (enrollment_of run_config) = ''tok''" "er_display_name (enrollment_of run_config) = ''n''"
    by (simp_all add: enrollment_of_def run_config_def)
  have url: "validateServerURL (ns_parse_url run_net) (ns_loopback_ip run_net) ''u'' False =
      Inr \<lparr>su_scheme = ''https'', su_host = ''hub'', su_hostname = ''hub'', su_user = False,
       su_raw_query = [], su_force_query = False, su_fragment = [], su_path = []\<rparr>"
    by (simp add: validateServerURL_def run_net_def)
  have hub: "handleEnrollV2 run_sha ''admin'' run_faults 1 (''Bearer '' @ ''admin'') (Decoded (enrollment_of run_config)) h =
      (h\<lparr>hu_registry := run_bound\<rparr>, ReplyDevice 200 run_principal)"
    using run_enrolls assms run_identity(2) id q
    by (auto simp: handleEnrollV2_def credentialOK_def run_faults_def validCanonicalUUID_eq)
  have cfg: "fc_allow_insecure_http run_config = False" "fc_resolve_ip run_config = []" "fc_machine_id run_config = run_id"
    "run_config\<lparr>fc_device_id := run_id\<rparr> = run_config" by (simp_all add: run_config_def zero_config_def)
  have "dr_device_id run_principal = run_id" by (simp add: run_principal_def)
  then show ?thesis
    using url cfg id run_identity(2) hub
    by (simp add: enroll_with_def enroll_posts_def newHTTPClient_ok_def Enroll_def reply_of_hub_def validEnrollmentDeviceID_eq)
qed

theorem enrollment_adopts_the_principal_witness:
  "\<exists>r. AuthenticateDevice run_sha run_bound run_id ''tok'' = Inr (Some r, True)"
proof -
  let ?h = "empty_hub\<lparr>hu_registry := empty_registry\<rparr>"
  have "enroll_with run_sha run_net run_faults 1 ''admin'' ''u'' ''admin'' run_config ?h = (?h\<lparr>hu_registry := run_bound\<rparr>, run_config, None)"
    by (rule run_enroll_with) simp
  from enrollment_adopts_the_principal [OF _ _ run_identity(1) run_prepare this] empty_registry_inv show ?thesis
    by (auto simp: run_sha_def run_config_def dest: arg_cong [where f = fc_device_id])
qed

theorem reinstalling_keeps_the_principal_witness:
  "\<exists>h1 h3 fc1 fc3. enroll_with run_sha run_net run_faults 1 ''admin'' ''u'' ''admin'' run_config (empty_hub\<lparr>hu_registry := empty_registry\<rparr>) =
       (h1, fc1, None) \<and>
     enroll_with run_sha run_net run_faults 1 ''admin'' ''u'' ''admin'' run_config h1 = (h3, fc3, None) \<and>
     fc_device_id fc3 = fc_device_id fc1"
proof -
  let ?h = "empty_hub\<lparr>hu_registry := empty_registry\<rparr>" let ?h1 = "?h\<lparr>hu_registry := run_bound\<rparr>"
  have 1: "enroll_with run_sha run_net run_faults 1 ''admin'' ''u'' ''admin'' run_config ?h = (?h1, run_config, None)"
    by (rule run_enroll_with) simp
  have 2: "enroll_with run_sha run_net run_faults 1 ''admin'' ''u'' ''admin'' run_config ?h1 = (?h1\<lparr>hu_registry := run_bound\<rparr>, run_config, None)"
    by (rule run_enroll_with) simp
  have len: "length (run_sha x) = 32" for x by (simp add: run_sha_def)
  have inv: "registry_inv (hu_registry ?h)" using empty_registry_inv by simp
  have none: "\<forall>op\<in>set []. stamped_op op" "hu_registry ?h1 = run_steps (registry_step run_sha) [] (hu_registry ?h1)" by simp_all
  from reinstalling_keeps_the_principal [OF len inv run_identity(1) run_identity(1) run_prepare run_prepare 1 none 2] 1 2
  show ?thesis by blast
qed

end
