(* ===== verification/Go_Filepath.thy ===== *)
theory Go_Filepath
  imports Go_Strings
begin

text \<open>
  What the program uses of Go's \<open>path/filepath\<close> on a Unix system: \<open>Clean\<close>, \<open>Join\<close>, \<open>Dir\<close> and \<open>Base\<close>. A path is
  its bytes; \<open>/\<close> and \<open>.\<close> are single bytes, so no decoding is involved.
\<close>

fun split_on :: "char \<Rightarrow> string \<Rightarrow> string list" where
  "split_on sep [] = [[]]"
| "split_on sep (c # s) =
     (if c = sep then [] # split_on sep s
      else case split_on sep s of [] \<Rightarrow> [[c]] | w # ws \<Rightarrow> (c # w) # ws)"

definition join_with :: "string \<Rightarrow> string list \<Rightarrow> string" where
  "join_with sep ws = (case ws of [] \<Rightarrow> [] | w # rest \<Rightarrow> w @ concat (map ((@) sep) rest))"

definition slash :: char where "slash = CHR ''/''"

text \<open>The elements kept so far, last first: \<open>..\<close> backs up over one, and is kept where there is none in a relative path.\<close>

definition clean_step :: "bool \<Rightarrow> string list \<Rightarrow> string \<Rightarrow> string list" where
  "clean_step rooted kept w =
     (if w = [] \<or> w = ''.'' then kept
      else if w = ''..'' then
        (case kept of
           [] \<Rightarrow> if rooted then [] else [''..'']
         | k # ks \<Rightarrow> if k = ''..'' then ''..'' # kept else ks)
      else w # kept)"

definition Clean :: "string \<Rightarrow> string" where
  "Clean path =
     (if path = [] then ''.''
      else
        let rooted = (hd path = slash);
            kept = rev (fold (\<lambda>w ks. clean_step rooted ks w) (split_on slash path) []);
            text = (if rooted then [slash] else []) @ join_with [slash] kept
        in if text = [] then ''.'' else text)"

definition Join :: "string list \<Rightarrow> string" where
  "Join elems =
     (case dropWhile (\<lambda>e. e = []) elems of
        [] \<Rightarrow> []
      | es \<Rightarrow> Clean (join_with [slash] es))"

definition Dir :: "string \<Rightarrow> string" where
  "Dir path = Clean (case LastIndex path [slash] of None \<Rightarrow> [] | Some i \<Rightarrow> take (i + 1) path)"

definition Base :: "string \<Rightarrow> string" where
  "Base path =
     (if path = [] then ''.''
      else
        let stripped = rev (dropWhile (\<lambda>c. c = slash) (rev path));
            name = rev (takeWhile (\<lambda>c. c \<noteq> slash) (rev stripped))
        in if name = [] then [slash] else name)"

lemma split_on_nonempty: "split_on sep s \<noteq> []"
  by (induction s) (auto split: list.splits)

lemma join_split: "join_with [sep] (split_on sep s) = s"
proof (induction s)
  case (Cons c s)
  then show ?case using split_on_nonempty [of sep s] by (cases "split_on sep s") (auto simp: join_with_def)
qed (simp add: join_with_def)

lemma split_on_parts: "w \<in> set (split_on sep s) \<Longrightarrow> sep \<notin> set w"
  by (induction s arbitrary: w) (auto split: list.splits if_splits)

lemma path_samples:
  "Clean ''/a/./b/../c//d/'' = ''/a/c/d''" "Clean ''../../x'' = ''../../x''" "Clean ''/../x'' = ''/x''" "Clean ''a/..'' = ''.''"
  "Join [''/h'', ''.codex'', ''sessions''] = ''/h/.codex/sessions''" "Join [[], ''b''] = ''b''" "Join [[], []] = []"
  "Dir ''/a/b'' = ''/a''" "Dir ''x'' = ''.''" "Base ''/a/sessions/'' = ''sessions''" "Base ''//'' = ''/''"
  by code_simp+

end
