(* ===== verification/Server_Access.thy ===== *)
theory Server_Access
  imports Go_Filepath Hub_Server Capacity Site_Auth_Http
begin

text \<open>
  Who may reach what at the hub: the configuration (\<open>internal/server/config.go\<close>) and this machine's name
  (\<open>deviceidentity.go\<close>), the startup check, the route table and its guards, and the version 1 ingest handler
  (\<open>server.go\<close>). The decoder of the file, the time zone database and \<open>net.ParseIP(...).IsLoopback\<close> are parameters;
  a path is a Unix path.
\<close>

section \<open>This machine's name\<close>

datatype device_name_source = DeviceNameFromFlag | DeviceNameFromEnv | DeviceNameFromConfig | DeviceNameFromSharedConfig
  | DeviceNameFromHostname | DeviceNameLastResort

record device_identity =
  di_name :: string
  di_source :: device_name_source

record device_name_inputs =
  dn_flag :: string
  dn_env :: string
  dn_config :: string
  dn_shared_config :: string
  dn_hostname :: "string option"

definition lastResortDeviceName :: string where "lastResortDeviceName = ''server''"

definition FellBackToHostname :: "device_identity \<Rightarrow> bool" where
  "FellBackToHostname d \<longleftrightarrow> di_source d = DeviceNameFromHostname"

definition ResolveDeviceName :: "device_name_inputs \<Rightarrow> device_identity" where
  "ResolveDeviceName i =
     (case find (\<lambda>(value, source). TrimSpace value \<noteq> [])
        [(dn_flag i, DeviceNameFromFlag), (dn_env i, DeviceNameFromEnv), (dn_config i, DeviceNameFromConfig),
         (dn_shared_config i, DeviceNameFromSharedConfig)] of
        Some (value, source) \<Rightarrow> \<lparr>di_name = TrimSpace value, di_source = source\<rparr>
      | None \<Rightarrow>
          (case dn_hostname i of
             None \<Rightarrow> \<lparr>di_name = lastResortDeviceName, di_source = DeviceNameLastResort\<rparr>
           | Some host \<Rightarrow>
               if TrimSpace host \<noteq> [] then \<lparr>di_name = TrimSpace host, di_source = DeviceNameFromHostname\<rparr>
               else \<lparr>di_name = lastResortDeviceName, di_source = DeviceNameLastResort\<rparr>))"

text \<open>\<open>read\<close> is the file's text and \<open>decode\<close> its \<open>device_name\<close>.\<close>

definition DeviceNameFromConfigFile :: "(string \<Rightarrow> string option) \<Rightarrow> (string \<Rightarrow> string option) \<Rightarrow> string \<Rightarrow> string" where
  "DeviceNameFromConfigFile read decode path =
     (if path = [] then []
      else case Option.bind (read path) decode of None \<Rightarrow> [] | Some name \<Rightarrow> TrimSpace name)"

definition LocalDeviceName :: "(string \<Rightarrow> string option) \<Rightarrow> (string \<Rightarrow> string option) \<Rightarrow> string \<Rightarrow> string option \<Rightarrow>
    string \<Rightarrow> string \<Rightarrow> string \<Rightarrow> device_identity" where
  "LocalDeviceName read decode env hostname flagValue roleConfigValue sharedConfigPath =
     ResolveDeviceName \<lparr>dn_flag = flagValue, dn_env = env, dn_config = roleConfigValue,
       dn_shared_config = DeviceNameFromConfigFile read decode sharedConfigPath, dn_hostname = hostname\<rparr>"

section \<open>The configuration\<close>

record server_config =
  cg_listen :: string
  cg_db :: string
  cg_state :: string
  cg_mirror :: string
  cg_token :: string
  cg_read_token :: string
  cg_admin_token :: string
  cg_site_auth_origin :: string
  cg_site_auth_db :: string
  cg_device_name :: string
  cg_timezone :: string
  cg_location :: "string option"
  cg_read_configured :: bool
  cg_admin_configured :: bool
  cg_device_name_file :: string
  cg_identity :: device_identity
  cg_pricing_refresh_hours :: int
  cg_worktime_idle_minutes :: int
  cg_proxy_listen :: string
  cg_statusline_cache_path :: string
  cg_interval_seconds :: int
  cg_local :: "bool option"
  cg_local_dirs :: "string list"
  cg_codex_dirs :: "string list"
  cg_dsh_dirs :: "string list"
  cg_ssh_since :: "string list"

text \<open>What the process finds around it: \<open>os.UserHomeDir\<close>, its environment and \<open>os.Hostname\<close>.\<close>

record host_env =
  he_home :: string
  he_claude_config_dir :: string
  he_codex_home :: string
  he_dsh_home :: string
  he_name :: string
  he_hostname :: "string option"

definition DataDir :: "host_env \<Rightarrow> string" where
  "DataDir env = Join [he_home env, ''.omnitoken'']"

definition SiteAuthPath :: "server_config \<Rightarrow> string" where
  "SiteAuthPath c = (if cg_site_auth_db c \<noteq> [] then cg_site_auth_db c else Join [Dir (cg_db c), ''site-auth.db''])"

definition DefaultLocalClaudeDirs :: "host_env \<Rightarrow> string list" where
  "DefaultLocalClaudeDirs env =
     [Join [he_home env, ''.claude'', ''projects'']] @
     (if he_claude_config_dir env \<noteq> [] then [Join [he_claude_config_dir env, ''projects'']] else []) @
     [Join [he_home env, ''.config'', ''claude'', ''projects'']]"

definition DefaultLocalCodexDirs :: "host_env \<Rightarrow> string list" where
  "DefaultLocalCodexDirs env =
     (let root = (if he_codex_home env = [] then Join [he_home env, ''.codex''] else he_codex_home env)
      in [Join [root, ''sessions''], Join [root, ''archived_sessions'']])"

definition DefaultLocalDshDirs :: "host_env \<Rightarrow> string list" where
  "DefaultLocalDshDirs env =
     [Join [if he_dsh_home env = [] then Join [he_home env, ''.dsh''] else he_dsh_home env, ''sessions'']]"

definition config_ResolveDeviceName :: "host_env \<Rightarrow> string \<Rightarrow> server_config \<Rightarrow> server_config" where
  "config_ResolveDeviceName env flagValue c =
     (let d = ResolveDeviceName \<lparr>dn_flag = flagValue, dn_env = he_name env, dn_config = cg_device_name_file c,
           dn_shared_config = [], dn_hostname = he_hostname env\<rparr>
      in c\<lparr>cg_identity := d, cg_device_name := di_name d\<rparr>)"

definition default_if :: "bool \<Rightarrow> 'a \<Rightarrow> 'a \<Rightarrow> 'a" where
  "default_if missing d v = (if missing then d else v)"

text \<open>The scoped tokens fall back to the shared one only where the file does not name them.\<close>

definition default_tokens :: "server_config \<Rightarrow> server_config" where
  "default_tokens c = c\<lparr>cg_read_token := default_if (\<not> cg_read_configured c) (cg_token c) (cg_read_token c),
     cg_admin_token := default_if (\<not> cg_admin_configured c) (cg_token c) (cg_admin_token c)\<rparr>"

definition default_paths :: "host_env \<Rightarrow> server_config \<Rightarrow> server_config" where
  "default_paths env c = c\<lparr>cg_listen := default_if (cg_listen c = []) ''127.0.0.1:8787'' (cg_listen c),
     cg_db := default_if (cg_db c = []) (Join [DataDir env, ''omnitoken.db'']) (cg_db c),
     cg_state := default_if (cg_state c = []) (Join [DataDir env, ''server-state.json'']) (cg_state c),
     cg_mirror := default_if (cg_mirror c = []) (Join [DataDir env, ''mirror'']) (cg_mirror c)\<rparr>"

definition default_collect :: "host_env \<Rightarrow> server_config \<Rightarrow> server_config" where
  "default_collect env c = c\<lparr>cg_interval_seconds := default_if (cg_interval_seconds c \<le> 0) 15 (cg_interval_seconds c),
     cg_worktime_idle_minutes := default_if (cg_worktime_idle_minutes c \<le> 0) 5 (cg_worktime_idle_minutes c),
     cg_statusline_cache_path := default_if (cg_statusline_cache_path c = [])
       (Join [he_home env, ''.omnitoken'', ''statusline-cache.json'']) (cg_statusline_cache_path c),
     cg_local_dirs := default_if (cg_local_dirs c = []) (DefaultLocalClaudeDirs env) (cg_local_dirs c),
     cg_codex_dirs := default_if (cg_codex_dirs c = []) (DefaultLocalCodexDirs env) (cg_codex_dirs c),
     cg_dsh_dirs := default_if (cg_dsh_dirs c = []) (DefaultLocalDshDirs env) (cg_dsh_dirs c)\<rparr>"

definition applyDefaults :: "host_env \<Rightarrow> server_config \<Rightarrow> server_config" where
  "applyDefaults env c =
     (let c1 = default_paths env (default_tokens c);
          c2 = config_ResolveDeviceName env [] (c1\<lparr>cg_device_name_file := cg_device_name c1\<rparr>)
      in default_collect env c2)"

datatype load_error = LoadRead | LoadDecode | LoadRefreshHours int | LoadSince string | LoadTimezone string

definition resolveTimezone :: "(string \<Rightarrow> bool) \<Rightarrow> server_config \<Rightarrow> load_error + server_config" where
  "resolveTimezone zone c =
     (if TrimSpace (cg_timezone c) = [] then Inr (c\<lparr>cg_location := None\<rparr>)
      else if zone (cg_timezone c) then Inr (c\<lparr>cg_location := Some (cg_timezone c)\<rparr>)
      else Inl (LoadTimezone (cg_timezone c)))"

text \<open>\<open>cg_ssh_since\<close> are the \<open>since\<close> fields of the SSH hosts; \<open>date\<close> is \<open>time.ParseInLocation\<close>'s verdict.\<close>

definition config_validate :: "(string \<Rightarrow> bool) \<Rightarrow> (string \<Rightarrow> bool) \<Rightarrow> server_config \<Rightarrow> load_error + server_config" where
  "config_validate date zone c =
     (if cg_pricing_refresh_hours c < 0 \<or> cg_pricing_refresh_hours c > 720 then Inl (LoadRefreshHours (cg_pricing_refresh_hours c))
      else case find (\<lambda>s. s \<noteq> [] \<and> \<not> date s) (cg_ssh_since c) of
        Some s \<Rightarrow> Inl (LoadSince s)
      | None \<Rightarrow> resolveTimezone zone c)"

record config_std =
  cs_read :: "string \<Rightarrow> string option"
  cs_decode :: "string \<Rightarrow> server_config option"
  cs_date :: "string \<Rightarrow> bool"
  cs_zone :: "string \<Rightarrow> bool"

definition empty_config :: server_config where
  "empty_config = \<lparr>cg_listen = [], cg_db = [], cg_state = [], cg_mirror = [], cg_token = [], cg_read_token = [], cg_admin_token = [],
     cg_site_auth_origin = [], cg_site_auth_db = [], cg_device_name = [], cg_timezone = [], cg_location = None,
     cg_read_configured = False, cg_admin_configured = False, cg_device_name_file = [],
     cg_identity = \<lparr>di_name = [], di_source = DeviceNameFromFlag\<rparr>, cg_pricing_refresh_hours = 0, cg_worktime_idle_minutes = 0,
     cg_proxy_listen = [], cg_statusline_cache_path = [], cg_interval_seconds = 0, cg_local = None, cg_local_dirs = [],
     cg_codex_dirs = [], cg_dsh_dirs = [], cg_ssh_since = []\<rparr>"

text \<open>\<open>cs_decode\<close> sets the two \<open>Configured\<close> flags from the presence of the fields, as the second \<open>Unmarshal\<close> does.\<close>

definition LoadConfig :: "config_std \<Rightarrow> host_env \<Rightarrow> string \<Rightarrow> load_error + server_config" where
  "LoadConfig std env path =
     (if path = [] then config_validate (cs_date std) (cs_zone std) (applyDefaults env empty_config)
      else case cs_read std path of
        None \<Rightarrow> Inl LoadRead
      | Some data \<Rightarrow>
          (case cs_decode std data of
             None \<Rightarrow> Inl LoadDecode
           | Some c \<Rightarrow> config_validate (cs_date std) (cs_zone std) (applyDefaults env c)))"

definition LocalEnabled :: "server_config \<Rightarrow> bool" where
  "LocalEnabled c \<longleftrightarrow> (case cg_local c of None \<Rightarrow> True | Some b \<Rightarrow> b)"

section \<open>The startup check\<close>

text \<open>The host part of \<open>net.SplitHostPort\<close>.\<close>

definition SplitHostPort :: "string \<Rightarrow> string option" where
  "SplitHostPort hp =
     (case LastIndex hp '':'' of
        None \<Rightarrow> None
      | Some i \<Rightarrow>
          if hd hp = CHR ''['' then
            (case Index hp '']'' of
               None \<Rightarrow> None
             | Some e \<Rightarrow>
                 if e + 1 \<noteq> i then None
                 else if CHR ''['' \<in> set (drop 1 hp) \<or> CHR '']'' \<in> set (drop (e + 1) hp) then None
                 else Some (drop 1 (take e hp)))
          else if CHR '':'' \<in> set (take i hp) then None
          else if CHR ''['' \<in> set hp \<or> CHR '']'' \<in> set hp then None
          else Some (take i hp))"

definition loopbackOnly :: "(string \<Rightarrow> bool) \<Rightarrow> server_config \<Rightarrow> bool" where
  "loopbackOnly loopback_ip c =
     (case SplitHostPort (cg_listen c) of
        None \<Rightarrow> False
      | Some host \<Rightarrow> if host = [] then False else if host = ''localhost'' then True else loopback_ip host)"

datatype start_error = NoIngestToken | NoReadToken | NoAdminToken

definition requireAuthConsistency :: "(string \<Rightarrow> bool) \<Rightarrow> server_config \<Rightarrow> start_error option" where
  "requireAuthConsistency loopback_ip c =
     (if loopbackOnly loopback_ip c then None
      else if cg_token c = [] then Some NoIngestToken
      else if cg_read_token c = [] then Some NoReadToken
      else if cg_admin_token c = [] then Some NoAdminToken
      else None)"

text \<open>The part of \<open>New\<close> that decides whether the site login is on; \<open>opens\<close> is \<open>siteauth.Open\<close>.\<close>

definition site_login_enabled :: "bool \<Rightarrow> server_config \<Rightarrow> bool option" where
  "site_login_enabled opens c =
     (if cg_site_auth_origin c = [] then Some False
      else if Clean (SiteAuthPath c) = Clean (cg_db c) then None
      else if opens then Some True else None)"

section \<open>Guards and routes\<close>

record http_request =
  hq_authorization :: string
  hq_access_token :: string
  hq_site :: auth_request

text \<open>The open site login, as a request finds it.\<close>

record site_login =
  sl_digest :: "string \<Rightarrow> string"
  sl_fails :: "auth_step \<Rightarrow> bool"
  sl_now :: int
  sl_state :: site_auth

definition site_authenticated :: "site_login option \<Rightarrow> http_request \<Rightarrow> bool" where
  "site_authenticated site r =
     (case site of None \<Rightarrow> False | Some s \<Rightarrow> Authenticated (sl_digest s) (sl_fails s) (sl_now s) (hq_site r) (sl_state s))"

definition auth_guard :: "server_config \<Rightarrow> http_request \<Rightarrow> bool" where
  "auth_guard c r \<longleftrightarrow> (if cg_token c \<noteq> [] then credentialOK (hq_authorization r) (cg_token c) else True)"

definition adminAuth :: "server_config \<Rightarrow> http_request \<Rightarrow> bool" where
  "adminAuth c r \<longleftrightarrow> \<not> (cg_admin_token c \<noteq> [] \<and> \<not> credentialOK (hq_authorization r) (cg_admin_token c))"

definition queryTokenOK :: "server_config \<Rightarrow> http_request \<Rightarrow> bool" where
  "queryTokenOK c r \<longleftrightarrow> hq_access_token r = cg_read_token c"

definition readAuthorized :: "server_config \<Rightarrow> site_login option \<Rightarrow> http_request \<Rightarrow> bool \<Rightarrow> bool" where
  "readAuthorized c site r allowQuery =
     (if site_authenticated site r then True
      else cg_read_token c \<noteq> [] \<and>
        (credentialOK (hq_authorization r) (cg_read_token c) \<or> (allowQuery \<and> queryTokenOK c r)))"

definition readAuthWith :: "(string \<Rightarrow> bool) \<Rightarrow> server_config \<Rightarrow> site_login option \<Rightarrow> bool \<Rightarrow> http_request \<Rightarrow> bool" where
  "readAuthWith loopback_ip c site allowQuery r =
     (if site = None \<and> loopbackOnly loopback_ip c then True else readAuthorized c site r allowQuery)"

datatype guard = WriteGuard | AdminGuard | ReadGuard bool | OwnCheck | Open | PanelGuard

text \<open>\<open>OwnCheck\<close>: the handler authenticates; \<open>Open\<close>: it answers anyone. The routes of \<open>siteauth\<close> check for themselves.\<close>

definition read_routes :: "string list" where
  "read_routes = [''GET /api/v1/overview'', ''GET /api/v1/breakdown'', ''GET /api/v1/blocks'', ''GET /api/v1/reports'',
     ''GET /api/v1/events'', ''GET /api/v1/cache'', ''GET /api/v1/speed'', ''GET /api/v1/quota'', ''GET /api/v1/heatmap'',
     ''GET /api/v1/devices'', ''GET /api/v1/models'', ''GET /api/v1/settings'', ''GET /api/v1/live'', ''GET /api/v1/telemetry'']"

definition routes :: "(string \<times> guard) list" where
  "routes =
     [(''POST /api/v1/ingest'', WriteGuard), (''POST /api/v2/enroll'', OwnCheck), (''POST /api/v2/ingest'', OwnCheck),
      (''POST /api/v2/heartbeat'', OwnCheck), (''POST /api/v2/devices/{device_id}/revoke'', AdminGuard),
      (''POST /api/v1/devices/merge/preview'', AdminGuard), (''POST /api/v1/devices/merge'', AdminGuard)] @
     map (\<lambda>p. (p, ReadGuard False)) read_routes @
     [(''PUT /api/v1/settings'', AdminGuard), (''GET /api/v1/stream'', ReadGuard True), (''GET /api/v1/health'', Open),
      (''GET /'', PanelGuard)]"

definition guard_passes :: "(string \<Rightarrow> bool) \<Rightarrow> server_config \<Rightarrow> site_login option \<Rightarrow> http_request \<Rightarrow> guard \<Rightarrow> bool" where
  "guard_passes loopback_ip c site r g =
     (case g of
        WriteGuard \<Rightarrow> auth_guard c r
      | AdminGuard \<Rightarrow> adminAuth c r
      | ReadGuard allowQuery \<Rightarrow> readAuthWith loopback_ip c site allowQuery r
      | OwnCheck \<Rightarrow> True
      | Open \<Rightarrow> True
      | PanelGuard \<Rightarrow> site = None \<or> site_authenticated site r)"

section \<open>POST /api/v1/ingest\<close>

record ingest_v1 =
  iv_events :: "event list"
  iv_quotas :: "quota_snapshot list"
  iv_procs :: "proc_report option"

record v1_faults =
  vf_committed :: bool
  vf_quotas :: "quota_step \<Rightarrow> bool"
  vf_capacity :: "nat \<Rightarrow> capacity_step \<Rightarrow> bool"
  vf_procs :: bool

record server_data =
  sd_hub :: hub
  sd_capacity :: "capacity_row list"

datatype v1_reply = V1Error int | V1Counts int nat nat

definition set_db :: "hub_db \<Rightarrow> server_data \<Rightarrow> server_data" where
  "set_db db s = s\<lparr>sd_hub := (sd_hub s)\<lparr>hu_db := db\<rparr>\<rparr>"

text \<open>\<open>clock\<close> is read for the events, for the snapshots and for each sample. Each store call is a transaction of its own.\<close>

definition handleIngest :: "v1_faults \<Rightarrow> int \<Rightarrow> int \<Rightarrow> (nat \<Rightarrow> int) \<Rightarrow> ingest_v1 option \<Rightarrow> server_data \<Rightarrow> server_data \<times> v1_reply" where
  "handleIngest faults now now2 clock body s =
     (case body of
        None \<Rightarrow> (s, V1Error 400)
      | Some q \<Rightarrow>
          let db = hu_db (sd_hub s)
          in (case InsertEvents (vf_committed faults) (hd_events db) (iv_events q) now of
               (t, Inl err) \<Rightarrow> (set_db (db\<lparr>hd_events := t\<rparr>) s, V1Error 500)
             | (t, Inr inserted) \<Rightarrow>
                 let ((qs, caps), quotas, ok) = InsertQuotas (vf_quotas faults) (vf_capacity faults) t now2 clock (iv_quotas q)
                       (hd_quotas db, sd_capacity s);
                     db1 = db\<lparr>hd_events := t, hd_quotas := qs\<rparr>;
                     s1 = set_db db1 (s\<lparr>sd_capacity := caps\<rparr>)
                 in if \<not> ok then (s1, V1Error 500)
                    else
                      let (db2, applied) = (case iv_procs q of None \<Rightarrow> (db1, Some False) | Some p \<Rightarrow> ApplyProcReport (vf_procs faults) p db1);
                          s2 = set_db db2 s1
                      in (case applied of
                           None \<Rightarrow> (s2, V1Error 500)
                         | Some changed \<Rightarrow>
                             (if inserted > 0 \<or> quotas > 0 \<or> changed then s2\<lparr>sd_hub := notify (sd_hub s2)\<rparr> else s2,
                              V1Counts (int (length (iv_events q))) inserted quotas))))"

end
