(* ===== verification/Pricing.thy ===== *)
theory Pricing
  imports Enrollment Go_Filepath Device_Merge Capacity
begin

text \<open>
  \<open>internal/pricing/pricing.go\<close> and \<open>refresh.go\<close>: the price table with its overrides and its memo, the lookup chain, the cost of
  one aggregate, and the catalog with the snapshot file it is kept in. The processor's arithmetic on \<open>float64\<close> values is
  the parameter \<open>float_ops\<close>, comparisons are on their bit patterns. Lower-casing beyond ASCII, the embedded catalog, the
  JSON codecs and what the network answers are inputs. A Go map is an association list; where the source ranges over a map,
  the list's order stands for the order Go chose.
\<close>

record float_ops =
  fo_of_int :: "int \<Rightarrow> float64"
  fo_add :: "float64 \<Rightarrow> float64 \<Rightarrow> float64"
  fo_mul :: "float64 \<Rightarrow> float64 \<Rightarrow> float64"
  fo_div :: "float64 \<Rightarrow> float64 \<Rightarrow> float64"
  fo_sub :: "float64 \<Rightarrow> float64 \<Rightarrow> float64"
  fo_to_int :: "float64 \<Rightarrow> int"

definition float_million :: float64 where "float_million = 0x412E848000000000"

definition float_inf :: "float64 \<Rightarrow> bool" where
  "float_inf w \<longleftrightarrow> take_bit 63 w = 0x7FF0000000000000"

section \<open>The table\<close>

record price =
  pk_input :: float64
  pk_output :: float64
  pk_cache_read :: float64
  pk_cache_write :: float64
  pk_cache_write_1h :: float64

definition no_price :: price where
  "no_price = \<lparr>pk_input = 0, pk_output = 0, pk_cache_read = 0, pk_cache_write = 0, pk_cache_write_1h = 0\<rparr>"

record override =
  ov_input :: float64
  ov_output :: float64
  ov_cache_read :: float64
  ov_cache_write :: float64

type_synonym catalog = "(string \<times> price) list"
type_synonym overrides = "(string \<times> override) list"

record price_table =
  tb_prices :: catalog
  tb_cache :: "(string \<times> price option) list"

definition norm_model :: "(string \<Rightarrow> string) \<Rightarrow> string \<Rightarrow> string" where
  "norm_model unicode m = ToLower unicode (TrimSpace m)"

definition override_price :: "float_ops \<Rightarrow> override \<Rightarrow> price" where
  "override_price fo v =
     \<lparr>pk_input = fo_div fo (ov_input v) float_million, pk_output = fo_div fo (ov_output v) float_million,
      pk_cache_read = fo_div fo (ov_cache_read v) float_million, pk_cache_write = fo_div fo (ov_cache_write v) float_million,
      pk_cache_write_1h = 0\<rparr>"

definition applyOverrides :: "float_ops \<Rightarrow> (string \<Rightarrow> string) \<Rightarrow> overrides \<Rightarrow> catalog \<Rightarrow> catalog" where
  "applyOverrides fo unicode ovs prices = foldl (\<lambda>ps (m, v). AList.update (norm_model unicode m) (override_price fo v) ps) prices ovs"

definition pricing_Load :: "float_ops \<Rightarrow> (string \<Rightarrow> string) \<Rightarrow> catalog option \<Rightarrow> overrides \<Rightarrow> price_table option" where
  "pricing_Load fo unicode embedded ovs =
     (case embedded of None \<Rightarrow> None | Some c \<Rightarrow> Some \<lparr>tb_prices = applyOverrides fo unicode ovs c, tb_cache = []\<rparr>)"

section \<open>Lookup\<close>

definition lookup_candidates :: "string \<Rightarrow> string list" where
  "lookup_candidates m =
     (let stripped = strip_bedrock_region m; bare = strip_bedrock_version (TrimPrefix stripped ''anthropic.'')
      in [m, ''anthropic/'' @ m, ''openai/'' @ m] @
         (if TrimPrefix m ''deepseek/'' \<in> {''deepseek-v4.1-flash'', ''deepseek-v4.1-flash-1017''}
          then [''deepseek-flash'', ''deepseek/deepseek-flash''] else []) @
         (if stripped \<noteq> m then [stripped] else []) @
         (if bare \<noteq> m then [bare] else []) @
         (if CHR ''@'' \<in> set m then [''vertex_ai/'' @ m, map (\<lambda>c. if c = CHR ''@'' then CHR ''-'' else c) m] else []))"

fun first_priced :: "catalog \<Rightarrow> string list \<Rightarrow> price option" where
  "first_priced prices [] = None"
| "first_priced prices (c # cs) = (case map_of prices c of Some p \<Rightarrow> Some p | None \<Rightarrow> first_priced prices cs)"

definition lookupUncached :: "catalog \<Rightarrow> string \<Rightarrow> price option" where
  "lookupUncached prices m = first_priced prices (lookup_candidates m)"

definition Lookup :: "(string \<Rightarrow> string) \<Rightarrow> string \<Rightarrow> price_table \<Rightarrow> price_table \<times> price option" where
  "Lookup unicode model t =
     (let m = norm_model unicode model
      in if m = [] then (t, None)
         else case map_of (tb_cache t) m of
           Some p \<Rightarrow> (t, p)
         | None \<Rightarrow>
             let found = lookupUncached (tb_prices t) m
             in (t\<lparr>tb_cache := AList.update m found (tb_cache t)\<rparr>, found))"

section \<open>Cost\<close>

definition codexFallbacks :: "(string \<times> string) list" where
  "codexFallbacks =
     [(''2026-04-23'', ''gpt-5.5''), (''2026-03-05'', ''gpt-5.4''), (''2026-02-05'', ''gpt-5.3-codex''),
      (''2025-12-11'', ''gpt-5.2-codex''), (''2025-11-13'', ''gpt-5.1-codex''), (''2025-09-15'', ''gpt-5-codex''),
      (''2025-08-07'', ''gpt-5'')]"

text \<open>\<open>utc_day\<close> is \<open>ts.UTC().Format("2006-01-02")\<close>.\<close>

definition pricing_Resolve :: "(string \<Rightarrow> string) \<Rightarrow> (int \<Rightarrow> string) \<Rightarrow> string \<Rightarrow> int \<Rightarrow> string" where
  "pricing_Resolve unicode utc_day model ts =
     (let m = norm_model unicode model
      in if m \<noteq> [] \<and> m \<noteq> ''codex-auto-review'' then model
         else case find (\<lambda>fb. utc_day ts \<ge> fst fb) codexFallbacks of Some fb \<Rightarrow> snd fb | None \<Rightarrow> model)"

definition price_cost :: "float_ops \<Rightarrow> price \<Rightarrow> model_usage \<Rightarrow> float64" where
  "price_cost fo p u =
     (let crRate = (if float_zero (pk_cache_read p) then pk_input p else pk_cache_read p);
          times = (\<lambda>n rate. fo_mul fo (fo_of_int fo n) rate);
          cost = fo_add fo (fo_add fo (times (tt_input (mu_totals u)) (pk_input p)) (times (tt_output (mu_totals u)) (pk_output p)))
            (times (tt_cache_read (mu_totals u)) crRate)
      in if float_less 0 (pk_cache_write_1h p) \<and> i64 (mu_cache_1h u + mu_cache_5m u) > 0
         then fo_add fo cost (fo_add fo (times (mu_cache_1h u) (pk_cache_write_1h p)) (times (mu_cache_5m u) (pk_cache_write p)))
         else fo_add fo cost (times (tt_cache_creation (mu_totals u)) (pk_cache_write p)))"

definition Cost :: "float_ops \<Rightarrow> (string \<Rightarrow> string) \<Rightarrow> (int \<Rightarrow> string) \<Rightarrow> int \<Rightarrow> model_usage \<Rightarrow> price_table \<Rightarrow> price_table \<times> float64 option" where
  "Cost fo unicode utc_day ts u t =
     (case Lookup unicode (pricing_Resolve unicode utc_day (mu_model u) ts) t of
        (t', None) \<Rightarrow> (t', None)
      | (t', Some p) \<Rightarrow> (t', Some (price_cost fo p u)))"

definition ModelCount :: "price_table \<Rightarrow> nat" where
  "ModelCount t = length (tb_prices t)"

section \<open>The catalog\<close>

definition catalogMaxBytes :: nat where "catalogMaxBytes = 16 * 2 ^ 20"
definition minimumCatalogModels :: nat where "minimumCatalogModels = 100"

text \<open>What JSON makes of one cost field: absent, \<open>null\<close>, a number, or something that is not one.\<close>

datatype rate_json = RateAbsent | RateNull | RateNumber float64 | RateBad

text \<open>An entry of the catalog: \<open>None\<close> where it is not an object, else its five cost fields in the order of \<open>costFields\<close>.\<close>

record catalog_entry =
  ce_input :: rate_json
  ce_output :: rate_json
  ce_cache_read :: rate_json
  ce_cache_write :: rate_json
  ce_cache_write_1h :: rate_json

definition entry_fields :: "catalog_entry \<Rightarrow> rate_json list" where
  "entry_fields e = [ce_input e, ce_output e, ce_cache_read e, ce_cache_write e, ce_cache_write_1h e]"

definition invalid_rate :: "float64 \<Rightarrow> bool" where
  "invalid_rate w \<longleftrightarrow> float_nan w \<or> float_inf w \<or> float_less w 0"

definition bad_field :: "rate_json \<Rightarrow> bool" where
  "bad_field r = (case r of RateBad \<Rightarrow> True | RateNumber w \<Rightarrow> invalid_rate w | _ \<Rightarrow> False)"

definition field_rate :: "rate_json \<Rightarrow> float64" where
  "field_rate r = (case r of RateNumber w \<Rightarrow> w | _ \<Rightarrow> 0)"

definition entry_price :: "catalog_entry \<Rightarrow> price" where
  "entry_price e = \<lparr>pk_input = field_rate (ce_input e), pk_output = field_rate (ce_output e), pk_cache_read = field_rate (ce_cache_read e),
     pk_cache_write = field_rate (ce_cache_write e), pk_cache_write_1h = field_rate (ce_cache_write_1h e)\<rparr>"

datatype catalog_error = CatalogJSON | InvalidField string | EmptyModel | DuplicateModel string | TooFewModels nat | InvalidName string
  | InvalidPrice string | CatalogHTTP int | CatalogFetch | CatalogTooLarge | SnapshotTime | SnapshotJSON | SnapshotIO save_step

definition price_rates :: "price \<Rightarrow> float64 list" where
  "price_rates p = [pk_input p, pk_output p, pk_cache_read p, pk_cache_write p, pk_cache_write_1h p]"

definition validateCatalog :: "(string \<Rightarrow> string) \<Rightarrow> catalog \<Rightarrow> catalog_error option" where
  "validateCatalog unicode models =
     (if length models < minimumCatalogModels then Some (TooFewModels (length models))
      else case find (\<lambda>(name, p). name = [] \<or> name \<noteq> norm_model unicode name \<or> list_ex invalid_rate (price_rates p)) models of
        None \<Rightarrow> None
      | Some (name, p) \<Rightarrow> Some (if name = [] \<or> name \<noteq> norm_model unicode name then InvalidName name else InvalidPrice name))"

fun parse_entries :: "(string \<Rightarrow> string) \<Rightarrow> catalog \<Rightarrow> (string \<times> catalog_entry option) list \<Rightarrow> catalog_error + catalog" where
  "parse_entries unicode models [] = Inr models"
| "parse_entries unicode models ((name, entry) # rest) =
     (if name = ''sample_spec'' then parse_entries unicode models rest
      else case entry of
        None \<Rightarrow> parse_entries unicode models rest
      | Some e \<Rightarrow>
          if list_ex bad_field (entry_fields e) then Inl (InvalidField name)
          else if list_all (\<lambda>r. r = RateAbsent \<or> r = RateNull) (entry_fields e) then parse_entries unicode models rest
          else
            let normalized = norm_model unicode name
            in if normalized = [] then Inl EmptyModel
               else if map_of models normalized \<noteq> None then Inl (DuplicateModel normalized)
               else parse_entries unicode (models @ [(normalized, entry_price e)]) rest)"

definition ParseCatalog :: "(string \<Rightarrow> string) \<Rightarrow> (string \<Rightarrow> (string \<times> catalog_entry option) list option) \<Rightarrow> string \<Rightarrow> catalog_error + catalog" where
  "ParseCatalog unicode decode raw =
     (case decode raw of
        None \<Rightarrow> Inl CatalogJSON
      | Some entries \<Rightarrow>
          (case parse_entries unicode [] entries of
             Inl e \<Rightarrow> Inl e
           | Inr models \<Rightarrow> (case validateCatalog unicode models of Some e \<Rightarrow> Inl e | None \<Rightarrow> Inr models)))"

text \<open>The answer of one of the two addresses: no response, a status, or the first \<open>catalogMaxBytes + 1\<close> bytes of the body.\<close>

datatype catalog_answer = NoAnswer | StatusAnswer int | BodyAnswer string

definition fetchCatalogURL :: "(string \<Rightarrow> string) \<Rightarrow> (string \<Rightarrow> (string \<times> catalog_entry option) list option) \<Rightarrow> catalog_answer \<Rightarrow>
    catalog_error + catalog" where
  "fetchCatalogURL unicode decode a =
     (case a of
        NoAnswer \<Rightarrow> Inl CatalogFetch
      | StatusAnswer n \<Rightarrow> Inl (CatalogHTTP n)
      | BodyAnswer raw \<Rightarrow> if length raw > catalogMaxBytes then Inl CatalogTooLarge else ParseCatalog unicode decode raw)"

text \<open>\<open>expired\<close>: the outer deadline has passed when the first attempt fails.\<close>

definition FetchCatalog :: "(string \<Rightarrow> string) \<Rightarrow> (string \<Rightarrow> (string \<times> catalog_entry option) list option) \<Rightarrow> bool \<Rightarrow> catalog_answer \<Rightarrow>
    catalog_answer \<Rightarrow> catalog_error + catalog" where
  "FetchCatalog unicode decode expired first second =
     (case fetchCatalogURL unicode decode first of
        Inr models \<Rightarrow> Inr models
      | Inl e \<Rightarrow> if expired then Inl CatalogFetch else fetchCatalogURL unicode decode second)"

section \<open>The snapshot file\<close>

text \<open>Times are nanoseconds; \<open>None\<close> is the zero time.\<close>

record snapshot =
  sn_fetched_at :: "int option"
  sn_models :: catalog

definition validateSnapshot :: "(string \<Rightarrow> string) \<Rightarrow> int \<Rightarrow> snapshot \<Rightarrow> catalog_error option" where
  "validateSnapshot unicode now sn =
     (case sn_fetched_at sn of
        None \<Rightarrow> Some SnapshotTime
      | Some t \<Rightarrow> if t > now + 300 * 1000000000 then Some SnapshotTime else validateCatalog unicode (sn_models sn))"

datatype snapshot_read = SnapshotMissing | SnapshotRejected catalog_error | SnapshotRead snapshot

definition ReadSnapshot :: "bool \<Rightarrow> (string \<Rightarrow> string) \<Rightarrow> (string \<Rightarrow> snapshot option) \<Rightarrow> string \<Rightarrow> int \<Rightarrow> files \<Rightarrow> snapshot_read" where
  "ReadSnapshot io unicode unmarshal path now fs =
     (case fs path of
        None \<Rightarrow> SnapshotMissing
      | Some (raw, mode) \<Rightarrow>
          if io then SnapshotRejected CatalogFetch
          else if length raw > catalogMaxBytes then SnapshotRejected CatalogTooLarge
          else case unmarshal raw of
            None \<Rightarrow> SnapshotRejected SnapshotJSON
          | Some sn \<Rightarrow> (case validateSnapshot unicode now sn of Some e \<Rightarrow> SnapshotRejected e | None \<Rightarrow> SnapshotRead sn))"

definition SaveSnapshot :: "(save_step \<Rightarrow> bool) \<Rightarrow> (string \<Rightarrow> string) \<Rightarrow> (snapshot \<Rightarrow> string option) \<Rightarrow> (string \<Rightarrow> string) \<Rightarrow> string \<Rightarrow> string \<Rightarrow>
    int \<Rightarrow> snapshot \<Rightarrow> files \<Rightarrow> files \<times> catalog_error option" where
  "SaveSnapshot fails unicode marshal part temp path now sn fs =
     (case validateSnapshot unicode now sn of
        Some e \<Rightarrow> (fs, Some e)
      | None \<Rightarrow>
          (case marshal sn of
             None \<Rightarrow> (fs, Some (SnapshotIO SvMarshal))
           | Some raw \<Rightarrow>
               if length raw > catalogMaxBytes then (fs, Some CatalogTooLarge)
               else if fails SvCreate then (fs, Some (SnapshotIO SvCreate))
               else
                 let written = fs(temp \<mapsto> (raw, mode_600))
                 in if fails SvWrite then (remove_temp fails temp (fs(temp \<mapsto> (part raw, mode_600))), Some (SnapshotIO SvWrite))
                    else if fails SvSync then (remove_temp fails temp written, Some (SnapshotIO SvSync))
                    else if fails SvClose then (remove_temp fails temp written, Some (SnapshotIO SvClose))
                    else if fails SvRename then (remove_temp fails temp written, Some (SnapshotIO SvRename))
                    else (remove_temp fails temp ((written(path := written temp))(temp := None)), None)))"

definition LoadCatalog :: "float_ops \<Rightarrow> (string \<Rightarrow> string) \<Rightarrow> catalog option \<Rightarrow> catalog option \<Rightarrow> overrides \<Rightarrow> price_table option" where
  "LoadCatalog fo unicode embedded models ovs =
     (case models of
        None \<Rightarrow> pricing_Load fo unicode embedded ovs
      | Some c \<Rightarrow>
          if validateCatalog unicode c \<noteq> None then None
          else Some \<lparr>tb_prices = applyOverrides fo unicode ovs c, tb_cache = []\<rparr>)"

end
