(* ===== verification/Go_Runes.thy ===== *)
theory Go_Runes
  imports Go_Strings
begin

text \<open>
  Go's view of a string as UTF-8: the segments \<open>for range\<close> visits, one valid encoding or one stray byte each, and
  what \<open>strings.Fields\<close>, \<open>strings.FieldsFunc\<close> and \<open>strconv.Atoi\<close> make of it.
\<close>

definition byte_of :: "char \<Rightarrow> nat" where "byte_of c = of_char c"

definition byte_in :: "nat \<Rightarrow> nat \<Rightarrow> char \<Rightarrow> bool" where
  "byte_in lo hi c \<longleftrightarrow> lo \<le> byte_of c \<and> byte_of c \<le> hi"

text \<open>How many bytes the encoding at the start takes; 0 where there is none.\<close>

fun rune_len :: "string \<Rightarrow> nat" where
  "rune_len [] = 0"
| "rune_len (c # s) =
     (if byte_of c < 0x80 then 1
      else if byte_in 0xC2 0xDF c then (case s of d # _ \<Rightarrow> if byte_in 0x80 0xBF d then 2 else 0 | _ \<Rightarrow> 0)
      else if byte_in 0xE0 0xEF c then
        (case s of
           d # e # _ \<Rightarrow>
             if byte_in (if byte_of c = 0xE0 then 0xA0 else 0x80) (if byte_of c = 0xED then 0x9F else 0xBF) d \<and> byte_in 0x80 0xBF e
             then 3 else 0
         | _ \<Rightarrow> 0)
      else if byte_in 0xF0 0xF4 c then
        (case s of
           d # e # f # _ \<Rightarrow>
             if byte_in (if byte_of c = 0xF0 then 0x90 else 0x80) (if byte_of c = 0xF4 then 0x8F else 0xBF) d \<and>
                byte_in 0x80 0xBF e \<and> byte_in 0x80 0xBF f
             then 4 else 0
         | _ \<Rightarrow> 0)
      else 0)"

function raw_runes :: "string \<Rightarrow> string list" where
  "raw_runes s = (if s = [] then [] else take (max 1 (rune_len s)) s # raw_runes (drop (max 1 (rune_len s)) s))"
  by auto
termination by (relation "measure length") auto

declare raw_runes.simps [simp del]

text \<open>A stray byte is read as U+FFFD, which \<open>WriteRune\<close> writes in three bytes.\<close>

definition rune_text :: "string \<Rightarrow> string" where
  "rune_text r = (if rune_len r = 0 then [CHR 0xEF, CHR 0xBF, CHR 0xBD] else r)"

definition flush :: "string \<Rightarrow> string list" where
  "flush cur = (if cur = [] then [] else [cur])"

fun fields_by :: "(string \<Rightarrow> bool) \<Rightarrow> string \<Rightarrow> string list \<Rightarrow> string list" where
  "fields_by sep cur [] = flush cur"
| "fields_by sep cur (r # rs) = (if sep r then flush cur @ fields_by sep [] rs else fields_by sep (cur @ r) rs)"

definition Fields :: "string \<Rightarrow> string list" where
  "Fields s = fields_by (\<lambda>r. r \<in> set go_spaces) [] (raw_runes s)"

definition FieldsFunc :: "string \<Rightarrow> (string \<Rightarrow> bool) \<Rightarrow> string list" where
  "FieldsFunc s sep = fields_by sep [] (raw_runes s)"

definition TrimSuffix :: "string \<Rightarrow> string \<Rightarrow> string" where
  "TrimSuffix s suffix = (if HasPrefix (rev s) (rev suffix) then take (length s - length suffix) s else s)"

definition Atoi :: "string \<Rightarrow> int option" where
  "Atoi s =
     (case s of
        [] \<Rightarrow> None
      | c # t \<Rightarrow>
          let digits = (if c = CHR ''-'' \<or> c = CHR ''+'' then t else s);
              v = (if c = CHR ''-'' then - int (parse_digits digits) else int (parse_digits digits))
          in if digits = [] \<or> \<not> list_all is_digit digits then None
             else if is_i64 v then Some v else None)"

lemma raw_runes_Nil [simp]: "raw_runes [] = []"
  by (simp add: raw_runes.simps)

lemma raw_runes_ascii: "byte_of c < 0x80 \<Longrightarrow> raw_runes (c # s) = [c] # raw_runes s"
  by (simp add: raw_runes.simps [of "c # s"])

lemma concat_raw_runes: "concat (raw_runes s) = s"
proof (induction s rule: raw_runes.induct)
  case (1 s)
  then show ?case by (cases "s = []") (simp_all add: raw_runes.simps [of s])
qed

lemma rune_len_le: "rune_len s \<le> length s"
  by (cases s) (auto split: list.splits)

lemma bytes_exhaust:
  obtains "s = []" | c where "s = [c]" | c d where "s = [c, d]" | c d e where "s = [c, d, e]" | c d e f u where "s = c # d # e # f # u"
  by (metis list.exhaust)

lemma rune_len_append: "rune_len s \<noteq> 0 \<Longrightarrow> rune_len (s @ t) = rune_len s"
  by (cases s rule: bytes_exhaust; simp split: if_split_asm)

text \<open>A valid string has no stray byte, so its segments are its own and end where it ends.\<close>

definition valid_utf8 :: "string \<Rightarrow> bool" where
  "valid_utf8 s \<longleftrightarrow> list_all (\<lambda>r. rune_len r \<noteq> 0) (raw_runes s)"

lemma valid_utf8_ascii: "byte_of c < 0x80 \<Longrightarrow> valid_utf8 (c # s) = valid_utf8 s"
  by (simp add: valid_utf8_def raw_runes_ascii)

lemma rune_len_take: "rune_len s \<noteq> 0 \<Longrightarrow> rune_len (take (rune_len s) s) \<noteq> 0"
  by (cases s rule: bytes_exhaust; simp split: if_split_asm)

lemma raw_runes_append: "valid_utf8 s \<Longrightarrow> raw_runes (s @ t) = raw_runes s @ raw_runes t"
proof (induction s rule: raw_runes.induct)
  case (1 s)
  show ?case
  proof (cases "s = []")
    case False
    let ?n = "rune_len s"
    have "rune_len (take (max 1 ?n) s) \<noteq> 0" "valid_utf8 (drop (max 1 ?n) s)"
      using 1(2) False by (simp_all add: valid_utf8_def raw_runes.simps [of s])
    moreover from this(1) have "?n \<noteq> 0"
      using rune_len_take [of s] rune_len_append [of "take (max 1 ?n) s" "drop (max 1 ?n) s"] by auto
    ultimately show ?thesis
      using 1(1) False rune_len_append [of s t] rune_len_le [of s]
      by (simp add: raw_runes.simps [of "s @ t"] raw_runes.simps [of s])
  qed simp
qed

end
