(* ===== verification/Pricing_Service.thy ===== *)
theory Pricing_Service
  imports Pricing Go_Runes
begin

text \<open>
  The hub's prices while it runs: \<open>internal/server/pricingrefresh.go\<close>, \<open>settingsview.go\<close> and \<open>cost.go\<close>, and the settings documents
  of \<open>internal/store/settings.go\<close>. Each critical section under \<open>pricingUpdateMu\<close> is one step, and so is each statement on the
  settings table; a request or a refresh is a sequence of steps with others in between. Times are nanoseconds.
\<close>

section \<open>State\<close>

record pricing_env =
  pn_float :: float_ops
  pn_unicode :: "string \<Rightarrow> string"
  pn_embedded :: "catalog option"
  pn_marshal :: "snapshot \<Rightarrow> string option"
  pn_unmarshal :: "string \<Rightarrow> snapshot option"
  pn_part :: "string \<Rightarrow> string"
  pn_temp :: string
  pn_path :: string
  pn_codec :: "overrides codec"
  pn_config :: overrides
  pn_hours :: int
  pn_auto_update :: "bool option"

record pricing_state =
  pz_catalog :: "catalog option"
  pz_table :: price_table
  pz_last_attempt :: int
  pz_last_success :: int
  pz_last_error :: "catalog_error option"
  pz_active :: string
  pz_settings :: settings
  pz_files :: files
  pz_clears :: nat
  pz_notified :: nat

definition settingsKeyPricing :: string where "settingsKeyPricing = ''pricing_overrides''"

text \<open>\<open>GetSettingsJSON\<close> leaves what was there when the key was never set; \<open>None\<close> is an error.\<close>

definition GetSettingsJSON :: "bool \<Rightarrow> 'a codec \<Rightarrow> string \<Rightarrow> 'a \<Rightarrow> settings \<Rightarrow> 'a option" where
  "GetSettingsJSON io c key unset t =
     (if io then None
      else if settingValue t key = [] then Some unset
      else dec c (settingValue t key))"

definition SetSettingsJSON :: "bool \<Rightarrow> 'a codec \<Rightarrow> string \<Rightarrow> 'a \<Rightarrow> settings \<Rightarrow> settings option" where
  "SetSettingsJSON io c key v t = (if io then None else Some (set_setting key (enc c v) t))"

section \<open>The live table\<close>

text \<open>The overrides of the configuration, then those of the database over them.\<close>

definition merge_overrides :: "(string \<Rightarrow> string) \<Rightarrow> overrides \<Rightarrow> overrides \<Rightarrow> overrides" where
  "merge_overrides unicode base ovs = foldl (\<lambda>m (k, v). AList.update (norm_model unicode k) v m) base ovs"

definition priceTable :: "pricing_env \<Rightarrow> bool \<Rightarrow> settings \<Rightarrow> catalog option \<Rightarrow> price_table option" where
  "priceTable e io t catalog =
     (case GetSettingsJSON io (pn_codec e) settingsKeyPricing [] t of
        None \<Rightarrow> None
      | Some stored \<Rightarrow>
          LoadCatalog (pn_float e) (pn_unicode e) (pn_embedded e) catalog
            (merge_overrides (pn_unicode e) (merge_overrides (pn_unicode e) [] (pn_config e)) stored))"

definition invalidatePriceCaches :: "pricing_state \<Rightarrow> pricing_state" where
  "invalidatePriceCaches s = s\<lparr>pz_clears := pz_clears s + 1\<rparr>"

text \<open>The state with whether the reload succeeded.\<close>

definition ReloadPricing :: "pricing_env \<Rightarrow> bool \<Rightarrow> pricing_state \<Rightarrow> pricing_state \<times> bool" where
  "ReloadPricing e io s =
     (case priceTable e io (pz_settings s) (pz_catalog s) of
        None \<Rightarrow> (s, False)
      | Some table \<Rightarrow> (invalidatePriceCaches (s\<lparr>pz_table := table\<rparr>), True))"

definition pricingUpdatesEnabled :: "pricing_env \<Rightarrow> bool" where
  "pricingUpdatesEnabled e = (case pn_auto_update e of None \<Rightarrow> True | Some b \<Rightarrow> b)"

definition hour_ns :: int where "hour_ns = 3600 * 1000000000"

definition pricingRefreshInterval :: "pricing_env \<Rightarrow> int" where
  "pricingRefreshInterval e = (if pn_hours e = 0 then 24 * hour_ns else i64 (pn_hours e * hour_ns))"

definition ns_millis :: "int \<Rightarrow> int" where "ns_millis ns = ns div 1000000"

definition loadPricingSnapshot :: "pricing_env \<Rightarrow> bool \<Rightarrow> int \<Rightarrow> pricing_state \<Rightarrow> pricing_state" where
  "loadPricingSnapshot e io now s =
     (case ReadSnapshot io (pn_unicode e) (pn_unmarshal e) (pn_path e) now (pz_files s) of
        SnapshotMissing \<Rightarrow> s
      | SnapshotRejected err \<Rightarrow> s\<lparr>pz_last_error := Some err\<rparr>
      | SnapshotRead sn \<Rightarrow>
          s\<lparr>pz_catalog := Some (sn_models sn), pz_last_success := ns_millis (the (sn_fetched_at sn)), pz_active := ''cache''\<rparr>)"

text \<open>The part of \<open>New\<close> that sets the prices up; \<open>None\<close> where it fails.\<close>

definition start_pricing :: "pricing_env \<Rightarrow> bool \<Rightarrow> bool \<Rightarrow> int \<Rightarrow> settings \<Rightarrow> files \<Rightarrow> pricing_state option" where
  "start_pricing e io_read io_settings now t fs =
     (case pricing_Load (pn_float e) (pn_unicode e) (pn_embedded e) (pn_config e) of
        None \<Rightarrow> None
      | Some prices \<Rightarrow>
          (case ReloadPricing e io_settings (loadPricingSnapshot e io_read now
              \<lparr>pz_catalog = None, pz_table = prices, pz_last_attempt = 0, pz_last_success = 0, pz_last_error = None, pz_active = [],
               pz_settings = t, pz_files = fs, pz_clears = 0, pz_notified = 0\<rparr>) of
             (s, True) \<Rightarrow> Some s
           | (s, False) \<Rightarrow> None))"

record refresh_status =
  rs_enabled :: bool
  rs_interval_hours :: int
  rs_active_snapshot :: string
  rs_model_count :: nat
  rs_last_attempt :: int
  rs_last_success :: int
  rs_last_error :: "catalog_error option"

definition pricingUpdateStatus :: "pricing_env \<Rightarrow> pricing_state \<Rightarrow> refresh_status" where
  "pricingUpdateStatus e s =
     \<lparr>rs_enabled = pricingUpdatesEnabled e, rs_interval_hours = go_quot (pricingRefreshInterval e) hour_ns,
      rs_active_snapshot = (if pz_active s = [] then ''embedded'' else pz_active s),
      rs_model_count = (case pz_catalog s of Some c \<Rightarrow> length c | None \<Rightarrow> ModelCount (pz_table s)),
      rs_last_attempt = pz_last_attempt s, rs_last_success = pz_last_success s, rs_last_error = pz_last_error s\<rparr>"

definition pricingRefreshDelay :: "pricing_env \<Rightarrow> int \<Rightarrow> pricing_state \<Rightarrow> int" where
  "pricingRefreshDelay e now s =
     (if pz_last_error s \<noteq> None \<and> pz_last_attempt s > 0 \<and> pz_last_attempt s \<ge> pz_last_success s
      then max 0 (pz_last_attempt s * 1000000 + min hour_ns (pricingRefreshInterval e) - now)
      else if pz_last_success s = 0 then 0
      else max 0 (pz_last_success s * 1000000 + pricingRefreshInterval e - now))"

section \<open>Refreshing\<close>

text \<open>\<open>refreshPricing\<close> is an attempt, a fetch and a commit; the fetch is outside the lock.\<close>

definition refresh_attempt :: "int \<Rightarrow> pricing_state \<Rightarrow> pricing_state" where
  "refresh_attempt now s = s\<lparr>pz_last_attempt := ns_millis now\<rparr>"

definition refresh_failed :: "catalog_error \<Rightarrow> pricing_state \<Rightarrow> pricing_state" where
  "refresh_failed err s = s\<lparr>pz_last_error := Some err\<rparr>"

definition refresh_commit :: "pricing_env \<Rightarrow> (save_step \<Rightarrow> bool) \<Rightarrow> bool \<Rightarrow> int \<Rightarrow> catalog_error + catalog \<Rightarrow> pricing_state \<Rightarrow>
    pricing_state \<times> bool" where
  "refresh_commit e fails io now fetched s =
     (case fetched of
        Inl err \<Rightarrow> (refresh_failed err s, False)
      | Inr models \<Rightarrow>
          (case priceTable e io (pz_settings s) (Some models) of
             None \<Rightarrow> (refresh_failed SnapshotJSON s, False)
           | Some table \<Rightarrow>
               (case SaveSnapshot fails (pn_unicode e) (pn_marshal e) (pn_part e) (pn_temp e) (pn_path e) now
                   \<lparr>sn_fetched_at = Some now, sn_models = models\<rparr> (pz_files s) of
                  (fs, Some err) \<Rightarrow> (refresh_failed err (s\<lparr>pz_files := fs\<rparr>), False)
                | (fs, None) \<Rightarrow>
                    (invalidatePriceCaches (s\<lparr>pz_files := fs, pz_catalog := Some models, pz_table := table,
                       pz_last_success := ns_millis now, pz_last_error := None, pz_active := ''upstream'',
                       pz_notified := pz_notified s + 1\<rparr>), True))))"

section \<open>The settings page\<close>

definition maxPricePerMTok :: float64 where "maxPricePerMTok = 0x40C3880000000000"
definition maxDeviceLabel :: nat where "maxDeviceLabel = 64"
definition maxModelNameLen :: nat where "maxModelNameLen = 128"

definition override_rates :: "override \<Rightarrow> float64 list" where
  "override_rates v = [ov_input v, ov_output v, ov_cache_read v, ov_cache_write v]"

definition price_out_of_range :: "float64 \<Rightarrow> bool" where
  "price_out_of_range w \<longleftrightarrow> float_nan w \<or> float_inf w \<or> float_less w 0 \<or> float_less maxPricePerMTok w"

text \<open>\<open>None\<close> is a refusal, which names the offending entry in prose.\<close>

fun validate_overrides :: "(string \<Rightarrow> string) \<Rightarrow> overrides \<Rightarrow> overrides \<Rightarrow> overrides option" where
  "validate_overrides unicode out [] = Some out"
| "validate_overrides unicode out ((name, v) # rest) =
     (let model = norm_model unicode name
      in if model = [] \<or> length model > maxModelNameLen \<or> map_of out model \<noteq> None \<or> list_ex price_out_of_range (override_rates v)
         then None
         else validate_overrides unicode (out @ [(model, v)]) rest)"

definition validatePricingOverrides :: "(string \<Rightarrow> string) \<Rightarrow> overrides \<Rightarrow> overrides option" where
  "validatePricingOverrides unicode ovs = validate_overrides unicode [] ovs"

fun validate_labels :: "labels \<Rightarrow> labels \<Rightarrow> labels option" where
  "validate_labels out [] = Some out"
| "validate_labels out ((host, label) # rest) =
     (let h = TrimSpace host; l = TrimSpace label
      in if h = [] \<or> l = [] \<or> length (raw_runes l) > maxDeviceLabel then None
         else validate_labels (AList.update h l out) rest)"

definition validateDeviceLabels :: "labels \<Rightarrow> labels option" where
  "validateDeviceLabels ls = validate_labels [] ls"

record settings_request =
  sq_overrides :: "overrides option"
  sq_labels :: "labels option"

datatype settings_reply = SettingsRefused | SettingsFailed | SettingsSaved bool

record settings_faults =
  sf_overrides :: bool
  sf_reload :: bool
  sf_labels :: bool
  sf_read :: bool

definition save_overrides :: "pricing_env \<Rightarrow> bool \<Rightarrow> overrides \<Rightarrow> pricing_state \<Rightarrow> pricing_state \<times> bool" where
  "save_overrides e io ovs s =
     (case SetSettingsJSON io (pn_codec e) settingsKeyPricing ovs (pz_settings s) of
        None \<Rightarrow> (s, False) | Some t \<Rightarrow> (s\<lparr>pz_settings := t\<rparr>, True))"

definition save_labels :: "labels codec \<Rightarrow> bool \<Rightarrow> labels \<Rightarrow> pricing_state \<Rightarrow> pricing_state \<times> bool" where
  "save_labels c io ls s =
     (case SetSettingsJSON io c DeviceLabelsKey ls (pz_settings s) of
        None \<Rightarrow> (s, False) | Some t \<Rightarrow> (s\<lparr>pz_settings := t\<rparr>, True))"

text \<open>A request on its own, without the steps of others in between; \<open>None\<close> is a body that does not decode.\<close>

definition handlePutSettings :: "pricing_env \<Rightarrow> labels codec \<Rightarrow> settings_faults \<Rightarrow> settings_request option \<Rightarrow> pricing_state \<Rightarrow>
    pricing_state \<times> settings_reply" where
  "handlePutSettings e c faults body s =
     (case body of
        None \<Rightarrow> (s, SettingsRefused)
      | Some q \<Rightarrow>
          (case (map_option (validatePricingOverrides (pn_unicode e)) (sq_overrides q), map_option validateDeviceLabels (sq_labels q)) of
             (Some None, _) \<Rightarrow> (s, SettingsRefused)
           | (_, Some None) \<Rightarrow> (s, SettingsRefused)
           | (overrides, labels) \<Rightarrow>
               let priced = (case overrides of
                     None \<Rightarrow> (s, True)
                   | Some ovs \<Rightarrow>
                       (case save_overrides e (sf_overrides faults) (the ovs) s of
                          (s1, False) \<Rightarrow> (s1, False)
                        | (s1, True) \<Rightarrow> ReloadPricing e (sf_reload faults) s1))
               in (case priced of
                     (s2, False) \<Rightarrow> (s2, SettingsFailed)
                   | (s2, True) \<Rightarrow>
                       (case (case labels of None \<Rightarrow> (s2, True) | Some ls \<Rightarrow> save_labels c (sf_labels faults) (the ls) s2) of
                          (s3, False) \<Rightarrow> (s3, SettingsFailed)
                        | (s3, True) \<Rightarrow>
                            if sf_read faults then (s3, SettingsFailed)
                            else (s3\<lparr>pz_notified := (if overrides \<noteq> None then pz_notified s3 + 1 else pz_notified s3)\<rparr>,
                                  SettingsSaved (overrides \<noteq> None))))))"

section \<open>Costs of a period\<close>

record period_cost =
  pc_real :: float64
  pc_equivalent :: float64
  pc_unknown :: float64

record cost_acc =
  cc_period :: period_cost
  cc_models :: "(string \<times> float64) list"
  cc_unpriced :: "string list"
  cc_table :: price_table

definition cost_row :: "pricing_env \<Rightarrow> (int \<Rightarrow> string) \<Rightarrow> cost_acc \<Rightarrow> model_usage \<Rightarrow> cost_acc" where
  "cost_row e utc_day acc u =
     (case Cost (pn_float e) (pn_unicode e) utc_day (mu_min_ts u) u (cc_table acc) of
        (t, None) \<Rightarrow> acc\<lparr>cc_table := t, cc_unpriced := List.insert (mu_model u) (cc_unpriced acc)\<rparr>
      | (t, Some cost) \<Rightarrow>
          let add = fo_add (pn_float e); name = CanonicalModel (mu_model u); ch = BillingChannel (mu_provider u);
              before = (case map_of (cc_models acc) name of None \<Rightarrow> 0 | Some w \<Rightarrow> w); pc = cc_period acc
          in acc\<lparr>cc_table := t, cc_models := AList.update name (add before cost) (cc_models acc),
               cc_period := (if ch = ChannelAPI \<or> ch = ChannelRelay then pc\<lparr>pc_real := add (pc_real pc) cost\<rparr>
                 else if ch = ChannelSubscription then pc\<lparr>pc_equivalent := add (pc_equivalent pc) cost\<rparr>
                 else pc\<lparr>pc_unknown := add (pc_unknown pc) cost\<rparr>)\<rparr>)"

definition costFromUsage :: "pricing_env \<Rightarrow> (int \<Rightarrow> string) \<Rightarrow> model_usage list \<Rightarrow> price_table \<Rightarrow>
    period_cost \<times> (string \<times> float64) list \<times> string list" where
  "costFromUsage e utc_day rows t =
     (let acc = foldl (cost_row e utc_day)
        \<lparr>cc_period = \<lparr>pc_real = 0, pc_equivalent = 0, pc_unknown = 0\<rparr>, cc_models = [], cc_unpriced = [], cc_table = t\<rparr> rows
      in (cc_period acc, cc_models acc, sort (cc_unpriced acc)))"

definition periodCost :: "pricing_env \<Rightarrow> (int \<Rightarrow> string) \<Rightarrow> event_row list \<Rightarrow> int \<Rightarrow> int \<Rightarrow> price_table \<Rightarrow> period_cost" where
  "periodCost e utc_day events from1 to1 t = fst (costFromUsage e utc_day (ModelUsage events from1 to1) t)"

end
