(* ===== verification/Server_Posts.thy ===== *)
theory Server_Posts
  imports Device_Merge Server_Access Pricing_Service
begin

text \<open>
  The requests that can change the hub: every route of \<open>internal/server/server.go\<close> that is not a \<open>GET\<close>, behind its guard and
  with its handler. The routes the site login registers for itself change its own database only (\<open>Site_Auth_Http\<close>).
\<close>

section \<open>The device merge's endpoints\<close>

text \<open>
  \<open>internal/server/devicemerge.go\<close>: the two administrative routes of a device merge over \<open>Device_Merge\<close>, and whether this
  machine is in the database under two names. \<open>None\<close> is a request whose body does not decode; the texts of errors and
  warnings are left out.
\<close>

definition deviceMergeActor :: string where "deviceMergeActor = ''admin''"

record merge_request =
  mq_from :: string
  mq_to :: string
  mq_confirm :: string

datatype merge_warning = TargetIsNotLocal string string | QuotaDuplicates int

record merge_response =
  mx_plan :: merge_plan
  mx_applied :: bool
  mx_local_device :: string
  mx_target_is_local :: bool
  mx_warnings :: "merge_warning list"
  mx_history :: "merge_record list"

datatype merge_reply = MergeRefused int | MergeAnswer merge_response

definition writeDeviceMergeError :: "merge_error \<Rightarrow> int" where
  "writeDeviceMergeError err =
     (case err of ErrDeviceMergeSameIdentity \<Rightarrow> 400 | ErrDeviceMergeUnknownIdentity d \<Rightarrow> 400 | _ \<Rightarrow> 500)"

definition deviceMergeResponse :: "server_config \<Rightarrow> merge_plan \<Rightarrow> string \<Rightarrow> bool \<Rightarrow> merge_record list \<Rightarrow> merge_response" where
  "deviceMergeResponse c plan target applied history =
     (let here = cg_device_name c; to_local = (here \<noteq> [] \<and> target = here)
      in \<lparr>mx_plan = plan, mx_applied = applied, mx_local_device = here, mx_target_is_local = to_local,
           mx_warnings = (if here \<noteq> [] \<and> \<not> to_local then [TargetIsNotLocal here target] else []) @
             (if mp_quota_dropped plan > 0 then [QuotaDuplicates (mp_quota_dropped plan)] else []),
           mx_history = history\<rparr>)"

definition handleDeviceMergePreview :: "labels codec \<Rightarrow> (merge_step \<Rightarrow> bool) \<Rightarrow> server_config \<Rightarrow> merge_request option \<Rightarrow> merge_db \<Rightarrow>
    merge_reply" where
  "handleDeviceMergePreview lc fails c body m =
     (case body of
        None \<Rightarrow> MergeRefused 400
      | Some q \<Rightarrow>
          (case PlanDeviceMerge lc fails m (mq_from q) (mq_to q) of
             Inl err \<Rightarrow> MergeRefused (writeDeviceMergeError err)
           | Inr plan \<Rightarrow> MergeAnswer (deviceMergeResponse c plan (mq_to q) False [])))"

definition handleDeviceMerge :: "labels codec \<Rightarrow> merge_record list codec \<Rightarrow> (merge_step \<Rightarrow> bool) \<Rightarrow> bool \<Rightarrow> int \<Rightarrow> server_config \<Rightarrow>
    merge_request option \<Rightarrow> merge_db \<Rightarrow> merge_db \<times> merge_reply" where
  "handleDeviceMerge lc hc fails history_fails now c body m =
     (case body of
        None \<Rightarrow> (m, MergeRefused 400)
      | Some q \<Rightarrow>
          if mq_confirm q \<noteq> mq_from q then (m, MergeRefused 400)
          else
            (case MergeDeviceIdentity lc hc fails (mq_from q) (mq_to q) deviceMergeActor now m of
               (m', Inl err) \<Rightarrow> (m', MergeRefused (writeDeviceMergeError err))
             | (m', Inr applied) \<Rightarrow>
                 (case if history_fails then Inl HistoryUnreadable else DeviceMergeHistory hc m' of
                    Inl err \<Rightarrow> (m', MergeRefused 500)
                  | Inr history \<Rightarrow> (m', MergeAnswer (deviceMergeResponse c applied (mq_to q) True history)))))"

section \<open>Two names for one machine\<close>

record local_identity =
  li_device :: string
  li_hostname :: string
  li_duplicate :: string

definition localHostname :: "string option \<Rightarrow> string" where
  "localHostname looked_up = (case looked_up of None \<Rightarrow> [] | Some name \<Rightarrow> name)"

text \<open>With whether the names could be read.\<close>

definition localIdentity :: "bool \<Rightarrow> server_config \<Rightarrow> string option \<Rightarrow> hub_db \<Rightarrow> local_identity \<times> bool" where
  "localIdentity fails c looked_up db =
     (let i = \<lparr>li_device = cg_device_name c, li_hostname = localHostname looked_up, li_duplicate = []\<rparr>;
          names = SelfReportedDevices db
      in if li_hostname i = [] \<or> li_device i = [] \<or> li_hostname i = li_device i then (i, True)
         else if fails then (i, False)
         else if li_device i \<in> set names \<and> li_hostname i \<in> set names then (i\<lparr>li_duplicate := li_hostname i\<rparr>, True)
         else (i, True))"

text \<open>A merge asks for its source's name twice, and says nothing is done where it is not.\<close>

lemma unconfirmed_merge_does_nothing:
  "mq_confirm q \<noteq> mq_from q \<Longrightarrow> handleDeviceMerge lc hc fails hf now c (Some q) m = (m, MergeRefused 400)"
  by (simp add: handleDeviceMerge_def)

text \<open>The page suggests a merge only where two different names both reported for themselves, one of them the machine's.\<close>

lemma duplicate_identity_reported:
  assumes "localIdentity fails c looked_up db = (i, ok)" "li_duplicate i = d" "d \<noteq> []"
  shows "looked_up = Some d \<and> d \<noteq> cg_device_name c \<and> d \<in> set (SelfReportedDevices db) \<and> cg_device_name c \<in> set (SelfReportedDevices db)"
  using assms by (auto simp: localIdentity_def localHostname_def Let_def split: if_splits option.splits)

section \<open>The dispatch\<close>

text \<open>
  What a request finds: the hub's tables and notifications, the calibration, and the prices with the settings table, which
  the device merge shares.
\<close>

record server_world =
  sw_data :: server_data
  sw_pricing :: pricing_state

definition sw_merge_db :: "server_world \<Rightarrow> merge_db" where
  "sw_merge_db w = \<lparr>md_db = hu_db (sd_hub (sw_data w)), md_settings = pz_settings (sw_pricing w)\<rparr>"

definition set_merge_db :: "merge_db \<Rightarrow> server_world \<Rightarrow> server_world" where
  "set_merge_db m w = w\<lparr>sw_data := set_db (md_db m) (sw_data w), sw_pricing := (sw_pricing w)\<lparr>pz_settings := md_settings m\<rparr>\<rparr>"

datatype hub_post = PostIngestV1 "ingest_v1 option" | PostEnroll "enrollment_request decoded" | PostIngestV2 "envelope decoded"
  | PostHeartbeat "heartbeat decoded" | PostRevoke string | PostMergePreview "merge_request option" | PostMerge "merge_request option"
  | PutSettings "settings_request option"

fun post_route :: "hub_post \<Rightarrow> string" where
  "post_route (PostIngestV1 b) = ''POST /api/v1/ingest''"
| "post_route (PostEnroll b) = ''POST /api/v2/enroll''"
| "post_route (PostIngestV2 b) = ''POST /api/v2/ingest''"
| "post_route (PostHeartbeat b) = ''POST /api/v2/heartbeat''"
| "post_route (PostRevoke d) = ''POST /api/v2/devices/{device_id}/revoke''"
| "post_route (PostMergePreview b) = ''POST /api/v1/devices/merge/preview''"
| "post_route (PostMerge b) = ''POST /api/v1/devices/merge''"
| "post_route (PutSettings b) = ''PUT /api/v1/settings''"

record serve_env =
  se_sha256 :: "string \<Rightarrow> 8 word list"
  se_loopback_ip :: "string \<Rightarrow> bool"
  se_v1_faults :: v1_faults
  se_faults :: hub_faults
  se_now :: int
  se_now2 :: int
  se_clock :: "nat \<Rightarrow> int"
  se_labels :: "labels codec"
  se_history :: "merge_record list codec"
  se_merge_faults :: "merge_step \<Rightarrow> bool"
  se_history_fails :: bool
  se_pricing :: pricing_env
  se_settings_faults :: settings_faults

datatype serve_reply = ServedV1 v1_reply | Served reply | ServedMerge merge_reply | ServedSettings settings_reply | ServedStatus int

definition on_hub :: "server_world \<Rightarrow> hub \<times> reply \<Rightarrow> server_world \<times> serve_reply" where
  "on_hub w hr = (w\<lparr>sw_data := (sw_data w)\<lparr>sd_hub := fst hr\<rparr>\<rparr>, Served (snd hr))"

definition serve_merge :: "serve_env \<Rightarrow> server_config \<Rightarrow> merge_request option \<Rightarrow> server_world \<Rightarrow> server_world \<times> serve_reply" where
  "serve_merge env c b w =
     (case handleDeviceMerge (se_labels env) (se_history env) (se_merge_faults env) (se_history_fails env) (se_now env) c b (sw_merge_db w) of
        (m, r) \<Rightarrow>
          let w' = set_merge_db m w
          in (case r of
                MergeAnswer a \<Rightarrow> w'\<lparr>sw_data := (sw_data w')\<lparr>sd_hub := notify (sd_hub (sw_data w'))\<rparr>\<rparr>
              | MergeRefused n \<Rightarrow> w', ServedMerge r))"

definition serve_handler :: "serve_env \<Rightarrow> server_config \<Rightarrow> string \<Rightarrow> hub_post \<Rightarrow> server_world \<Rightarrow> server_world \<times> serve_reply" where
  "serve_handler env c auth p w =
     (let hub = sd_hub (sw_data w)
      in case p of
        PostIngestV1 b \<Rightarrow>
          (case handleIngest (se_v1_faults env) (se_now env) (se_now2 env) (se_clock env) b (sw_data w) of
             (s, r) \<Rightarrow> (w\<lparr>sw_data := s\<rparr>, ServedV1 r))
      | PostEnroll b \<Rightarrow> on_hub w (handleEnrollV2 (se_sha256 env) (cg_admin_token c) (se_faults env) (se_now env) auth b hub)
      | PostIngestV2 b \<Rightarrow> on_hub w (handleIngestV2 (se_sha256 env) (se_faults env) (se_now env) auth b hub)
      | PostHeartbeat b \<Rightarrow> on_hub w (handleHeartbeatV2 (se_sha256 env) (se_faults env) (se_now env) auth b hub)
      | PostRevoke d \<Rightarrow> on_hub w (handleRevokeDeviceV2 (cg_admin_token c) (se_faults env) (se_now env) d hub)
      | PostMergePreview b \<Rightarrow> (w, ServedMerge (handleDeviceMergePreview (se_labels env) (se_merge_faults env) c b (sw_merge_db w)))
      | PostMerge b \<Rightarrow> serve_merge env c b w
      | PutSettings b \<Rightarrow>
          (case handlePutSettings (se_pricing env) (se_labels env) (se_settings_faults env) b (sw_pricing w) of
             (s, r) \<Rightarrow> (w\<lparr>sw_pricing := s\<rparr>, ServedSettings r)))"

definition serve_post :: "serve_env \<Rightarrow> server_config \<Rightarrow> site_login option \<Rightarrow> http_request \<Rightarrow> hub_post \<Rightarrow> server_world \<Rightarrow>
    server_world \<times> serve_reply" where
  "serve_post env c site r p w =
     (case map_of routes (post_route p) of
        None \<Rightarrow> (w, ServedStatus 404)
      | Some g \<Rightarrow>
          if guard_passes (se_loopback_ip env) c site r g then serve_handler env c (hq_authorization r) p w
          else (w, ServedStatus 401))"

end
