(* ===== verification/Server_Access_Properties.thy ===== *)
theory Server_Access_Properties
  imports Server_Posts Hub_Properties
begin

text \<open>
  Who reaches the hub: no anonymous write and no anonymous read at a server other machines can reach, what the
  legacy token means for the scoped ones, and where the site login leaves a door open.
\<close>

definition bears :: "string \<Rightarrow> string \<Rightarrow> bool" where
  "bears auth token \<longleftrightarrow> token \<noteq> [] \<and> auth = ''Bearer '' @ token"

text \<open>The credential a change of the hub needs: one per endpoint, the device's own where a device speaks.\<close>

definition write_credential :: "serve_env \<Rightarrow> server_config \<Rightarrow> string \<Rightarrow> hub_post \<Rightarrow> server_world \<Rightarrow> bool" where
  "write_credential env c auth p w =
     (case p of
        PostIngestV1 b \<Rightarrow> bears auth (cg_token c)
      | PostEnroll b \<Rightarrow> bears auth (cg_admin_token c)
      | PostRevoke d \<Rightarrow> bears auth (cg_admin_token c)
      | PostMerge b \<Rightarrow> bears auth (cg_admin_token c)
      | PutSettings b \<Rightarrow> bears auth (cg_admin_token c)
      | PostMergePreview b \<Rightarrow> False
      | PostIngestV2 b \<Rightarrow> \<exists>x. b = Decoded x \<and> ValidateIngestEnvelope x = [] \<and>
          authorized (se_sha256 env) (sd_hub (sw_data w)) (ie_device_id x) auth
      | PostHeartbeat b \<Rightarrow> \<exists>hb. b = Decoded hb \<and> heartbeatValid hb \<and>
          authorized (se_sha256 env) (sd_hub (sw_data w)) (hb_device_id hb) auth)"

lemma consistent_tokens:
  "requireAuthConsistency ip c = None \<Longrightarrow> \<not> loopbackOnly ip c \<Longrightarrow> cg_token c \<noteq> [] \<and> cg_read_token c \<noteq> [] \<and> cg_admin_token c \<noteq> []"
  by (simp add: requireAuthConsistency_def split: if_splits)

definition post_guard :: "hub_post \<Rightarrow> guard" where
  "post_guard p =
     (case p of PostIngestV1 b \<Rightarrow> WriteGuard | PostRevoke d \<Rightarrow> AdminGuard | PostMergePreview b \<Rightarrow> AdminGuard | PostMerge b \<Rightarrow> AdminGuard
      | PutSettings b \<Rightarrow> AdminGuard | _ \<Rightarrow> OwnCheck)"

lemma post_guards: "map_of routes (post_route p) = Some (post_guard p)"
  by (cases p) (simp_all add: routes_def post_guard_def read_routes_def)

text \<open>The requests modelled are all that are not reads.\<close>

definition write_patterns :: "string list" where
  "write_patterns = [''POST /api/v1/ingest'', ''POST /api/v2/enroll'', ''POST /api/v2/ingest'', ''POST /api/v2/heartbeat'',
     ''POST /api/v2/devices/{device_id}/revoke'', ''POST /api/v1/devices/merge/preview'', ''POST /api/v1/devices/merge'',
     ''PUT /api/v1/settings'']"

lemma write_patterns_are_posts: "pattern \<in> set write_patterns \<Longrightarrow> \<exists>p. post_route p = pattern"
  unfolding write_patterns_def by (simp only: list.set insert_iff empty_iff) (elim disjE FalseE; simp only:; metis post_route.simps)

lemma writing_routes:
  assumes "(pattern, g) \<in> set routes" shows "HasPrefix pattern ''GET '' \<or> (\<exists>p. post_route p = pattern)"
proof -
  have "list_all (\<lambda>(pattern, g). HasPrefix pattern ''GET '' \<or> List.member write_patterns pattern) routes" by code_simp
  then have "HasPrefix pattern ''GET '' \<or> pattern \<in> set write_patterns" using assms by (auto simp: list_all_iff)
  then show ?thesis using write_patterns_are_posts by blast
qed

lemma enroll_needs_admin:
  "fst (handleEnrollV2 sha256 admin faults now auth b h) \<noteq> h \<Longrightarrow> bears auth admin"
  by (auto simp: handleEnrollV2_def bears_def credentialOK_def split: if_splits)

lemma on_hub_changes: "fst (on_hub w hr) \<noteq> w \<Longrightarrow> fst hr \<noteq> sd_hub (sw_data w)"
  by (auto simp: on_hub_def)

text \<open>
  C11. At a server that other machines can reach, and that has passed its startup check, nothing is written without
  the credential for it. Every route but the reads is one of eight requests; if one of them changed anything the hub keeps
  (events, quotas, sessions, devices, calibration, prices, settings), a version 1 batch carried the ingest token; an
  enrollment, a revocation, a device merge or new settings carried the admin token; a version 2 batch or a heartbeat, the
  credential of the device it names; and a merge's preview changes nothing. A site session or a read token writes nothing.
  The routes that the site login adds write to a database of its own.
\<close>

theorem writes_need_their_credential:
  assumes "requireAuthConsistency (se_loopback_ip env) c = None" "\<not> loopbackOnly (se_loopback_ip env) c"
    and "fst (serve_post env c site r p w) \<noteq> w"
  shows "write_credential env c (hq_authorization r) p w \<and>
    (\<forall>pattern g. (pattern, g) \<in> set routes \<longrightarrow> HasPrefix pattern ''GET '' \<or> (\<exists>q. post_route q = pattern))"
proof -
  note tokens = consistent_tokens [OF assms(1,2)]
  have handled: "fst (serve_handler env c (hq_authorization r) p w) \<noteq> w"
    and passes: "guard_passes (se_loopback_ip env) c site r (post_guard p)"
    using assms(3) by (simp_all add: serve_post_def post_guards split: if_splits)
  have "write_credential env c (hq_authorization r) p w"
  proof (cases p)
    case (PostIngestV2 b)
    with handled show ?thesis
      using only_the_device_itself_writes [THEN conjunct1] by (fastforce simp: write_credential_def serve_handler_def Let_def dest: on_hub_changes)
  next
    case (PostHeartbeat b)
    with handled show ?thesis
      using only_the_device_itself_writes [THEN conjunct2] by (fastforce simp: write_credential_def serve_handler_def Let_def dest: on_hub_changes)
  next
    case (PostEnroll b)
    with handled show ?thesis by (auto simp: write_credential_def serve_handler_def Let_def dest: on_hub_changes enroll_needs_admin)
  next
    case (PostMergePreview b)
    with handled show ?thesis by (simp add: serve_handler_def Let_def)
  qed (use passes tokens in \<open>auto simp: write_credential_def post_guard_def guard_passes_def auth_guard_def adminAuth_def bears_def credentialOK_def\<close>)
  then show ?thesis using writing_routes by blast
qed

section \<open>Reading\<close>

text \<open>What a reader has to show: a site session, or the read token where the endpoint takes it.\<close>

definition read_credential :: "server_config \<Rightarrow> site_login option \<Rightarrow> http_request \<Rightarrow> string \<Rightarrow> bool" where
  "read_credential c site r pattern \<longleftrightarrow> site_authenticated site r \<or> bears (hq_authorization r) (cg_read_token c) \<or>
     (pattern = ''GET /api/v1/stream'' \<and> cg_read_token c \<noteq> [] \<and> hq_access_token r = cg_read_token c)"

lemma read_guards:
  assumes "(pattern, g) \<in> set routes" "HasPrefix pattern ''GET /api''" "pattern \<noteq> ''GET /api/v1/health''"
  shows "g = ReadGuard (pattern = ''GET /api/v1/stream'')"
proof -
  have "list_all (\<lambda>(p, g). HasPrefix p ''GET /api'' \<and> p \<noteq> ''GET /api/v1/health'' \<longrightarrow> g = ReadGuard (p = ''GET /api/v1/stream'')) routes"
    by code_simp
  then show ?thesis using assms by (auto simp: list_all_iff)
qed

text \<open>The effective scoped tokens of a loaded configuration.\<close>

lemma validated_tokens:
  "config_validate date zone c = Inr c' \<Longrightarrow> cg_token c' = cg_token c \<and> cg_read_token c' = cg_read_token c \<and> cg_admin_token c' = cg_admin_token c"
  by (auto simp: config_validate_def resolveTimezone_def split: if_splits option.splits)

lemma defaulted_tokens:
  "cg_token (applyDefaults env c) = cg_token c"
  "cg_read_token (applyDefaults env c) = (if cg_read_configured c then cg_read_token c else cg_token c)"
  "cg_admin_token (applyDefaults env c) = (if cg_admin_configured c then cg_admin_token c else cg_token c)"
  by (simp_all add: applyDefaults_def default_collect_def default_paths_def default_tokens_def config_ResolveDeviceName_def default_if_def Let_def)

lemma loaded_tokens:
  assumes "LoadConfig std env path = Inr c" "path \<noteq> []"
  obtains data written where "cs_read std path = Some data" "cs_decode std data = Some written" "cg_token c = cg_token written"
    "cg_read_token c = (if cg_read_configured written then cg_read_token written else cg_token written)"
    "cg_admin_token c = (if cg_admin_configured written then cg_admin_token written else cg_token written)"
  using assms by (auto simp: LoadConfig_def defaulted_tokens dest!: validated_tokens split: option.splits)

text \<open>
  C12. Nobody reads a configured hub anonymously: where it listens for other machines, or where the site login is
  on, each of the usage endpoints answers only a request with a site session or
  with the read token, which a URL may carry to the stream alone. The read token is the one written in the
  configuration, an empty one included; only a file without the field falls back to the shared token. An empty
  read token opens nothing: a server other machines can reach does not start with it, and one on the loopback with
  the site login answers site sessions alone.
\<close>

theorem reads_need_a_credential:
  assumes "LoadConfig std env path = Inr c" "cs_read std path = Some text" "cs_decode std text = Some written" "path \<noteq> []"
    and "requireAuthConsistency ip c = None" "site \<noteq> None \<or> \<not> loopbackOnly ip c"
    and "(pattern, g) \<in> set routes" "HasPrefix pattern ''GET /api''" "pattern \<noteq> ''GET /api/v1/health''"
    and "guard_passes ip c site r g"
  shows "read_credential c site r pattern \<and>
    cg_read_token c = (if cg_read_configured written then cg_read_token written else cg_token written) \<and>
    (\<not> loopbackOnly ip c \<longrightarrow> cg_read_token c \<noteq> []) \<and> (cg_read_token c = [] \<longrightarrow> site_authenticated site r)"
proof -
  have "g = ReadGuard (pattern = ''GET /api/v1/stream'')" using read_guards assms(7-9) by blast
  then have "readAuthorized c site r (pattern = ''GET /api/v1/stream'')"
    using assms(6,10) by (auto simp: guard_passes_def readAuthWith_def)
  then have "read_credential c site r pattern"
    by (auto simp: readAuthorized_def read_credential_def bears_def credentialOK_def queryTokenOK_def split: if_splits)
  moreover from this have "cg_read_token c = [] \<longrightarrow> site_authenticated site r" by (auto simp: read_credential_def bears_def)
  ultimately show ?thesis
    using loaded_tokens [OF assms(1,4)] assms(2,3) consistent_tokens [OF assms(5)] by (metis option.inject)
qed

section \<open>The site login and the other guards\<close>

text \<open>
  The site login guards reading only. Behind a reverse proxy the server listens on the loopback, where the startup
  check asks for no token, so with the login on and no token configured anybody who reaches the site can write:
  the settings, a device merge and a version 1 batch pass their guards.
\<close>

lemma site_login_leaves_writes_open:
  assumes "ip ''127.0.0.1''" "cg_token c = []" "\<not> cg_admin_configured c" "cg_listen c = []"
  shows "requireAuthConsistency ip (applyDefaults env c) = None"
    and "\<forall>pattern\<in>{''PUT /api/v1/settings'', ''POST /api/v1/devices/merge'', ''POST /api/v1/ingest''}. \<exists>g.
      map_of routes pattern = Some g \<and> guard_passes ip (applyDefaults env c) site r g"
proof -
  have listen: "cg_listen (applyDefaults env c) = ''127.0.0.1:8787''"
    using assms(4) by (simp add: applyDefaults_def default_collect_def default_paths_def default_tokens_def config_ResolveDeviceName_def default_if_def Let_def)
  have "SplitHostPort ''127.0.0.1:8787'' = Some ''127.0.0.1''" by code_simp
  then show "requireAuthConsistency ip (applyDefaults env c) = None"
    using assms(1) by (simp add: requireAuthConsistency_def loopbackOnly_def listen)
  show "\<forall>pattern\<in>{''PUT /api/v1/settings'', ''POST /api/v1/devices/merge'', ''POST /api/v1/ingest''}. \<exists>g.
      map_of routes pattern = Some g \<and> guard_passes ip (applyDefaults env c) site r g"
    using assms by (simp add: routes_def read_routes_def guard_passes_def adminAuth_def auth_guard_def defaulted_tokens)
qed

section \<open>This machine's name\<close>

text \<open>A machine has a name, free of surrounding white space, and the agent and the hub on it agree unless told otherwise.\<close>

lemma resolved_name_nonempty: "di_name (ResolveDeviceName i) \<noteq> []"
  by (auto simp: ResolveDeviceName_def lastResortDeviceName_def split: option.splits if_splits)

lemma roles_agree_on_the_name:
  assumes "cg_device_name c = name" "decode text = Some name" "read path = Some text" "path \<noteq> []" "TrimSpace (TrimSpace name) = TrimSpace name"
  shows "cg_device_name (applyDefaults env c) = di_name (LocalDeviceName read decode (he_name env) (he_hostname env) [] [] path)"
  using assms by (simp add: applyDefaults_def default_collect_def default_paths_def default_tokens_def config_ResolveDeviceName_def
      LocalDeviceName_def DeviceNameFromConfigFile_def ResolveDeviceName_def Let_def split: option.splits)

section \<open>Witnesses\<close>

definition sample_config :: server_config where
  "sample_config = empty_config\<lparr>cg_listen := '':8787'', cg_token := ''w'', cg_read_token := ''r'', cg_admin_token := ''a'',
     cg_read_configured := True, cg_admin_configured := True\<rparr>"

definition access_sample_std :: config_std where
  "access_sample_std = \<lparr>cs_read = (\<lambda>_. Some ''file''), cs_decode = (\<lambda>_. Some sample_config), cs_date = (\<lambda>_. True), cs_zone = (\<lambda>_. True)\<rparr>"

definition sample_host :: host_env where
  "sample_host = \<lparr>he_home = ''/h'', he_claude_config_dir = [], he_codex_home = [], he_dsh_home = [], he_name = [], he_hostname = Some ''m''\<rparr>"

definition sample_loaded :: server_config where
  "sample_loaded = applyDefaults sample_host sample_config"

lemma sample_loaded_fields:
  "cg_listen sample_loaded = '':8787''" "cg_token sample_loaded = ''w''" "cg_read_token sample_loaded = ''r''" "cg_admin_token sample_loaded = ''a''"
  "cg_timezone sample_loaded = []" "cg_ssh_since sample_loaded = []" "cg_pricing_refresh_hours sample_loaded = 0" "cg_location sample_loaded = None"
  by (simp_all add: sample_loaded_def sample_config_def empty_config_def applyDefaults_def default_collect_def default_paths_def
      default_tokens_def config_ResolveDeviceName_def default_if_def Let_def)

lemma sample_load: "LoadConfig access_sample_std sample_host ''c'' = Inr sample_loaded"
proof -
  have "sample_loaded\<lparr>cg_location := None\<rparr> = sample_loaded" using sample_loaded_fields(8) by (simp del: sample_loaded_fields)
  then show ?thesis
    using sample_loaded_fields by (simp add: LoadConfig_def access_sample_std_def config_validate_def resolveTimezone_def flip: sample_loaded_def)
qed

lemma access_sample_reachable: "\<not> loopbackOnly (\<lambda>_. False) sample_loaded" "requireAuthConsistency (\<lambda>_. False) sample_loaded = None"
proof -
  have "SplitHostPort '':8787'' = Some []" by code_simp
  then show "\<not> loopbackOnly (\<lambda>_. False) sample_loaded" by (simp add: loopbackOnly_def sample_loaded_fields)
  then show "requireAuthConsistency (\<lambda>_. False) sample_loaded = None" by (simp add: requireAuthConsistency_def sample_loaded_fields)
qed

definition access_sample_request :: "string \<Rightarrow> http_request" where
  "access_sample_request auth = \<lparr>hq_authorization = auth, hq_access_token = [],
     hq_site = \<lparr>rq_origin = [], rq_remote = [], rq_session = None, rq_challenge = None, rq_body = []\<rparr>\<rparr>"

definition access_sample_env :: serve_env where
  "access_sample_env = \<lparr>se_sha256 = run_sha, se_loopback_ip = (\<lambda>_. False),
     se_v1_faults = \<lparr>vf_committed = True, vf_quotas = (\<lambda>_. False), vf_capacity = (\<lambda>_ _. False), vf_procs = False\<rparr>,
     se_faults = run_faults, se_now = 9, se_now2 = 9, se_clock = (\<lambda>_. 9),
     se_labels = \<lparr>enc = (\<lambda>l. ''L''), dec = (\<lambda>s. Some [])\<rparr>, se_history = \<lparr>enc = (\<lambda>h. ''H''), dec = (\<lambda>s. Some [])\<rparr>,
     se_merge_faults = (\<lambda>_. False), se_history_fails = False,
     se_pricing = \<lparr>pn_float = \<lparr>fo_of_int = (\<lambda>_. 0), fo_add = (+), fo_mul = (*), fo_div = (\<lambda>a b. a), fo_sub = (-), fo_to_int = (\<lambda>_. 0)\<rparr>,
       pn_unicode = id, pn_embedded = Some [], pn_marshal = (\<lambda>_. None), pn_unmarshal = (\<lambda>_. None), pn_part = id, pn_temp = ''t'',
       pn_path = ''p'', pn_codec = \<lparr>enc = (\<lambda>_. ''O''), dec = (\<lambda>_. Some [])\<rparr>, pn_config = [], pn_hours = 0, pn_auto_update = None\<rparr>,
     se_settings_faults = \<lparr>sf_overrides = False, sf_reload = False, sf_labels = False, sf_read = False\<rparr>\<rparr>"

definition access_sample_world :: server_world where
  "access_sample_world = \<lparr>sw_data = \<lparr>sd_hub = run_hub1, sd_capacity = []\<rparr>,
     sw_pricing = \<lparr>pz_catalog = None, pz_table = \<lparr>tb_prices = [], tb_cache = []\<rparr>, pz_last_attempt = 0, pz_last_success = 0,
       pz_last_error = None, pz_active = [], pz_settings = [], pz_files = (\<lambda>_. None), pz_clears = 0, pz_notified = 0\<rparr>\<rparr>"

text \<open>A device's batch, and new labels from the settings page.\<close>

theorem writes_need_their_credential_witness:
  "write_credential access_sample_env sample_loaded ''Bearer tok'' (PostIngestV2 (Decoded run_env)) access_sample_world \<and>
   bears ''Bearer a'' (cg_admin_token sample_loaded) \<and>
   pz_settings (sw_pricing (fst (serve_post access_sample_env sample_loaded None (access_sample_request ''Bearer a'')
     (PutSettings (Some \<lparr>sq_overrides = None, sq_labels = Some []\<rparr>)) access_sample_world))) = [(DeviceLabelsKey, ''L'')]"
proof -
  let ?p = "PostIngestV2 (Decoded run_env)" let ?put = "PutSettings (Some \<lparr>sq_overrides = None, sq_labels = Some []\<rparr>)"
  have "run_hub2 \<noteq> run_hub1" by (simp add: run_hub2_def run_hub1_def empty_hub_def)
  then have "fst (serve_post access_sample_env sample_loaded None (access_sample_request ''Bearer tok'') ?p access_sample_world) \<noteq> access_sample_world"
    unfolding serve_post_def post_guards post_guard_def
    by (simp add: guard_passes_def serve_handler_def on_hub_def access_sample_env_def access_sample_request_def access_sample_world_def run_ingest)
  moreover have labels: "pz_settings (sw_pricing (fst (serve_post access_sample_env sample_loaded None (access_sample_request ''Bearer a'')
      ?put access_sample_world))) = [(DeviceLabelsKey, ''L'')]"
    unfolding serve_post_def post_guards post_guard_def
    by (simp add: guard_passes_def adminAuth_def credentialOK_def sample_loaded_fields serve_handler_def access_sample_env_def
        access_sample_request_def access_sample_world_def handlePutSettings_def validateDeviceLabels_def save_labels_def
        SetSettingsJSON_def set_setting_def)
  moreover have "fst (serve_post access_sample_env sample_loaded None (access_sample_request ''Bearer a'') ?put access_sample_world) \<noteq> access_sample_world"
  proof
    assume "fst (serve_post access_sample_env sample_loaded None (access_sample_request ''Bearer a'') ?put access_sample_world) = access_sample_world"
    with labels show False by (simp add: access_sample_world_def)
  qed
  ultimately show ?thesis
    using writes_need_their_credential [of access_sample_env sample_loaded None "access_sample_request ''Bearer tok''" ?p access_sample_world]
      writes_need_their_credential [of access_sample_env sample_loaded None "access_sample_request ''Bearer a''" ?put access_sample_world] access_sample_reachable
    by (simp add: access_sample_env_def access_sample_request_def write_credential_def)
qed

theorem reads_need_a_credential_witness:
  "read_credential sample_loaded None (access_sample_request ''Bearer r'') ''GET /api/v1/overview''"
proof -
  have "cs_read access_sample_std ''c'' = Some ''file''" "cs_decode access_sample_std ''file'' = Some sample_config" by (simp_all add: access_sample_std_def)
  moreover have "guard_passes (\<lambda>_. False) sample_loaded None (access_sample_request ''Bearer r'') (ReadGuard False)"
    by (simp add: guard_passes_def readAuthWith_def readAuthorized_def credentialOK_def access_sample_request_def sample_loaded_fields)
  ultimately show ?thesis
    using reads_need_a_credential [OF sample_load _ _ _ access_sample_reachable(2) _, of "''file''" sample_config None "''GET /api/v1/overview''" "ReadGuard False"]
      access_sample_reachable(1) by (simp add: routes_def read_routes_def HasPrefix_def)
qed

end
