(* ===== verification/Live_Stream.thy ===== *)
theory Live_Stream
  imports Omni_Prelude
begin

text \<open>
  \<open>internal/server/live.go\<close>: the broadcaster that tells dashboards that data changed, and the server-sent event
  stream of one dashboard. A subscriber's channel holds one signal. What a payload shows is the number of changes the
  database had seen when its queries began; a step is what the stream's goroutine does between two points where
  a write or a \<open>Notify\<close> can come in between.
\<close>

section \<open>The broadcaster\<close>

text \<open>\<open>br_signals\<close>: for every channel ever made, whether a signal is in it.\<close>

record broadcaster =
  br_signals :: "bool list"
  br_subs :: "nat list"

definition newBroadcaster :: broadcaster where
  "newBroadcaster = \<lparr>br_signals = [], br_subs = []\<rparr>"

definition Notify :: "broadcaster \<Rightarrow> broadcaster" where
  "Notify b = b\<lparr>br_signals := map (\<lambda>(c, pending). pending \<or> c \<in> set (br_subs b)) (enumerate 0 (br_signals b))\<rparr>"

definition Subscribe :: "broadcaster \<Rightarrow> broadcaster \<times> nat" where
  "Subscribe b = (b\<lparr>br_signals := br_signals b @ [False], br_subs := br_subs b @ [length (br_signals b)]\<rparr>, length (br_signals b))"

definition unsubscribe :: "nat \<Rightarrow> broadcaster \<Rightarrow> broadcaster" where
  "unsubscribe c b = b\<lparr>br_subs := removeAll c (br_subs b)\<rparr>"

definition hasSubscribers :: "broadcaster \<Rightarrow> bool" where
  "hasSubscribers b \<longleftrightarrow> br_subs b \<noteq> []"

text \<open>A receive from the channel.\<close>

definition receive :: "nat \<Rightarrow> broadcaster \<Rightarrow> broadcaster" where
  "receive c b = b\<lparr>br_signals := (br_signals b)[c := False]\<rparr>"

section \<open>A stream\<close>

text \<open>Where \<open>handleStream\<close> is: \<open>StartLive\<close> is the entry of \<open>send("live")\<close>, \<open>Composing\<close> its queries and its write.\<close>

datatype stream_pc = Connecting | Composing string nat | Subscribing | Waiting | Coalescing | StartLive | Closed

text \<open>The ghost \<open>sm_due\<close> is how many changes had been made at the last \<open>Notify\<close> since the stream subscribed.\<close>

record live_stream =
  sm_pc :: stream_pc
  sm_channel :: "nat option"
  sm_frames :: "(string \<times> nat) list"
  sm_due :: nat

record live_system =
  ly_changes :: nat
  ly_bcast :: broadcaster
  ly_streams :: "live_stream list"

definition set_stream :: "nat \<Rightarrow> live_stream \<Rightarrow> live_system \<Rightarrow> live_system" where
  "set_stream i x s = s\<lparr>ly_streams := (ly_streams s)[i := x]\<rparr>"

text \<open>A return of \<open>handleStream\<close>, with the deferred cancellation where there was a subscription.\<close>

definition close_stream :: "nat \<Rightarrow> live_system \<Rightarrow> live_system" where
  "close_stream i s =
     (let x = ly_streams s ! i; s1 = set_stream i (x\<lparr>sm_pc := Closed\<rparr>) s
      in case sm_channel x of None \<Rightarrow> s1 | Some c \<Rightarrow> s1\<lparr>ly_bcast := unsubscribe c (ly_bcast s1)\<rparr>)"

definition compose_stream :: "string \<Rightarrow> nat \<Rightarrow> live_system \<Rightarrow> live_system" where
  "compose_stream name i s = set_stream i ((ly_streams s ! i)\<lparr>sm_pc := Composing name (ly_changes s)\<rparr>) s"

definition send_frame :: "string \<Rightarrow> nat \<Rightarrow> nat \<Rightarrow> live_system \<Rightarrow> live_system" where
  "send_frame name v i s =
     (let x = ly_streams s ! i
      in set_stream i (x\<lparr>sm_frames := sm_frames x @ [(name, v)], sm_pc := (if name = ''snapshot'' then Subscribing else Waiting)\<rparr>) s)"

definition subscribe_stream :: "nat \<Rightarrow> live_system \<Rightarrow> live_system" where
  "subscribe_stream i s =
     (let (b, c) = Subscribe (ly_bcast s)
      in set_stream i ((ly_streams s ! i)\<lparr>sm_channel := Some c, sm_pc := Waiting\<rparr>) (s\<lparr>ly_bcast := b\<rparr>))"

definition receive_stream :: "stream_pc \<Rightarrow> nat \<Rightarrow> live_system \<Rightarrow> live_system" where
  "receive_stream pc i s =
     (let x = ly_streams s ! i
      in set_stream i (x\<lparr>sm_pc := pc\<rparr>) (s\<lparr>ly_bcast := receive (the (sm_channel x)) (ly_bcast s)\<rparr>))"

definition signalled :: "nat \<Rightarrow> live_system \<Rightarrow> bool" where
  "signalled i s = (case sm_channel (ly_streams s ! i) of None \<Rightarrow> False | Some c \<Rightarrow> br_signals (ly_bcast s) ! c)"

text \<open>
  \<open>refuse\<close>: the session has gone or a query failed; \<open>broken\<close>: the write failed; \<open>leave\<close>: the request's context ended; \<open>tick\<close>: the
  refresh interval passed; \<open>drain\<close>: the second has passed, and a signal that came meanwhile is taken too.
\<close>

inductive stream_step :: "nat \<Rightarrow> live_system \<Rightarrow> live_system \<Rightarrow> bool" for i where
  connect: "sm_pc (ly_streams s ! i) = Connecting \<Longrightarrow> stream_step i s (compose_stream ''snapshot'' i s)"
| refuse: "sm_pc (ly_streams s ! i) = Connecting \<or> sm_pc (ly_streams s ! i) = StartLive \<Longrightarrow> stream_step i s (close_stream i s)"
| send: "sm_pc (ly_streams s ! i) = Composing name v \<Longrightarrow> stream_step i s (send_frame name v i s)"
| broken: "sm_pc (ly_streams s ! i) = Composing name v \<Longrightarrow> stream_step i s (close_stream i s)"
| subscribe: "sm_pc (ly_streams s ! i) = Subscribing \<Longrightarrow> stream_step i s (subscribe_stream i s)"
| leave: "sm_pc (ly_streams s ! i) = Waiting \<Longrightarrow> stream_step i s (close_stream i s)"
| tick: "sm_pc (ly_streams s ! i) = Waiting \<Longrightarrow> stream_step i s (set_stream i ((ly_streams s ! i)\<lparr>sm_pc := StartLive\<rparr>) s)"
| signal: "sm_pc (ly_streams s ! i) = Waiting \<Longrightarrow> signalled i s \<Longrightarrow> stream_step i s (receive_stream Coalescing i s)"
| drain: "sm_pc (ly_streams s ! i) = Coalescing \<Longrightarrow> stream_step i s (receive_stream StartLive i s)"
| compose: "sm_pc (ly_streams s ! i) = StartLive \<Longrightarrow> stream_step i s (compose_stream ''live'' i s)"

section \<open>The hub around it\<close>

definition new_stream :: live_stream where
  "new_stream = \<lparr>sm_pc = Connecting, sm_channel = None, sm_frames = [], sm_due = 0\<rparr>"

definition notify_system :: "live_system \<Rightarrow> live_system" where
  "notify_system s = s\<lparr>ly_bcast := Notify (ly_bcast s),
     ly_streams := map (\<lambda>x. case sm_channel x of
         None \<Rightarrow> x
       | Some c \<Rightarrow> if c \<in> set (br_subs (ly_bcast s)) then x\<lparr>sm_due := ly_changes s\<rparr> else x) (ly_streams s)\<rparr>"

inductive live_hub_step :: "live_system \<Rightarrow> live_system \<Rightarrow> bool" where
  change: "live_hub_step s (s\<lparr>ly_changes := Suc (ly_changes s)\<rparr>)"
| notify: "live_hub_step s (notify_system s)"
| arrive: "live_hub_step s (s\<lparr>ly_streams := ly_streams s @ [new_stream]\<rparr>)"
| stream: "i < length (ly_streams s) \<Longrightarrow> stream_step i s s' \<Longrightarrow> live_hub_step s s'"

definition initial_live :: live_system where
  "initial_live = \<lparr>ly_changes = 0, ly_bcast = newBroadcaster, ly_streams = []\<rparr>"

definition live_reachable :: "live_system \<Rightarrow> bool" where
  "live_reachable s \<longleftrightarrow> live_hub_step\<^sup>*\<^sup>* initial_live s"

end
