(* ===== verification/Live_Stream_Properties.thy ===== *)
theory Live_Stream_Properties
  imports Live_Stream
begin

text \<open>
  A dashboard's stream misses no change it was told of, never goes back in time, and does not get stuck: the
  invariant of all interleavings of writers, notifications and streams.
\<close>

section \<open>The invariant\<close>

definition shown :: "live_stream \<Rightarrow> nat" where
  "shown x = (if sm_frames x = [] then 0 else snd (last (sm_frames x)))"

definition before_subscribing :: "stream_pc \<Rightarrow> bool" where
  "before_subscribing pc \<longleftrightarrow> (case pc of Connecting \<Rightarrow> True | Subscribing \<Rightarrow> True | Composing name v \<Rightarrow> name = ''snapshot'' | _ \<Rightarrow> False)"

definition frames_ok :: "nat \<Rightarrow> live_stream \<Rightarrow> bool" where
  "frames_ok n x \<longleftrightarrow> sorted (map snd (sm_frames x)) \<and> (\<forall>f\<in>set (sm_frames x). snd f \<le> n) \<and> sm_due x \<le> n \<and>
     (case sm_pc x of Composing name v \<Rightarrow> v \<le> n \<and> (\<forall>f\<in>set (sm_frames x). snd f \<le> v) \<and> name \<in> {''snapshot'', ''live''} | _ \<Rightarrow> True)"

text \<open>What an open stream owes: a change it was told of is shown, being composed, or announced in its channel.\<close>

definition told_ok :: "bool list \<Rightarrow> live_stream \<Rightarrow> bool" where
  "told_ok signals x \<longleftrightarrow>
     (case sm_channel x of
        None \<Rightarrow> sm_due x = 0
      | Some c \<Rightarrow> c < length signals \<and>
          (case sm_pc x of
             Waiting \<Rightarrow> signals ! c \<or> sm_due x \<le> shown x
           | Composing name v \<Rightarrow> signals ! c \<or> sm_due x \<le> v
           | _ \<Rightarrow> True))"

definition place_ok :: "nat list \<Rightarrow> live_stream \<Rightarrow> bool" where
  "place_ok subs x \<longleftrightarrow>
     (sm_pc x \<noteq> Closed \<longrightarrow> (sm_channel x = None \<longleftrightarrow> before_subscribing (sm_pc x)) \<and> (\<forall>c. sm_channel x = Some c \<longrightarrow> c \<in> set subs))"

definition stream_ok :: "live_system \<Rightarrow> live_stream \<Rightarrow> bool" where
  "stream_ok s x \<longleftrightarrow> frames_ok (ly_changes s) x \<and> told_ok (br_signals (ly_bcast s)) x \<and> place_ok (br_subs (ly_bcast s)) x"

definition channels_apart :: "live_stream list \<Rightarrow> bool" where
  "channels_apart xs \<longleftrightarrow> (\<forall>i<length xs. \<forall>j<length xs. i \<noteq> j \<longrightarrow> sm_channel (xs ! i) \<noteq> None \<longrightarrow> sm_channel (xs ! i) \<noteq> sm_channel (xs ! j))"

definition live_ok :: "live_system \<Rightarrow> bool" where
  "live_ok s \<longleftrightarrow> (\<forall>x\<in>set (ly_streams s). stream_ok s x) \<and> channels_apart (ly_streams s)"

lemmas stream_ok_defs = stream_ok_def frames_ok_def told_ok_def place_ok_def before_subscribing_def

lemma live_ok_stream: "live_ok s \<Longrightarrow> i < length (ly_streams s) \<Longrightarrow> stream_ok s (ly_streams s ! i)"
  by (simp add: live_ok_def)

text \<open>One stream moves: it must be right itself, the others must stay right, and its channel must be its own.\<close>

lemma live_ok_update:
  assumes "live_ok s" "i < length (ly_streams s)" "stream_ok s' x"
    and "ly_streams s' = (ly_streams s)[i := x]"
    and "\<And>j. j < length (ly_streams s) \<Longrightarrow> j \<noteq> i \<Longrightarrow> stream_ok s' (ly_streams s ! j)"
    and "sm_channel x \<noteq> None \<longrightarrow> sm_channel x = sm_channel (ly_streams s ! i) \<or> (\<forall>y\<in>set (ly_streams s). sm_channel y \<noteq> sm_channel x)"
  shows "live_ok s'"
proof -
  have "stream_ok s' (ly_streams s' ! j)" if "j < length (ly_streams s')" for j
    using that assms by (cases "j = i") (auto simp: nth_list_update)
  moreover have "channels_apart (ly_streams s')"
    unfolding channels_apart_def assms(4)
  proof (intro allI impI)
    fix j k assume jk: "j < length ((ly_streams s)[i := x])" "k < length ((ly_streams s)[i := x])" "j \<noteq> k"
      "sm_channel ((ly_streams s)[i := x] ! j) \<noteq> None"
    have apart: "channels_apart (ly_streams s)" using assms(1) by (simp add: live_ok_def)
    show "sm_channel ((ly_streams s)[i := x] ! j) \<noteq> sm_channel ((ly_streams s)[i := x] ! k)"
    proof (cases "j = i \<or> k = i")
      case False
      then show ?thesis using jk apart by (simp add: channels_apart_def)
    next
      case True
      then show ?thesis using jk apart assms(2,6) nth_mem [of j "ly_streams s"] nth_mem [of k "ly_streams s"]
        unfolding channels_apart_def by (fastforce simp: nth_list_update)
    qed
  qed
  ultimately show ?thesis by (auto simp: live_ok_def in_set_conv_nth)
qed

text \<open>Another stream's step leaves a stream right.\<close>

lemma stream_ok_keep:
  assumes "stream_ok s y" "ly_changes s' = ly_changes s" "\<And>c. sm_channel y = Some c \<Longrightarrow> c < length (br_signals (ly_bcast s)) \<Longrightarrow>
      c < length (br_signals (ly_bcast s')) \<and> br_signals (ly_bcast s') ! c = br_signals (ly_bcast s) ! c"
    and "\<And>c. sm_channel y = Some c \<Longrightarrow> c \<in> set (br_subs (ly_bcast s)) \<Longrightarrow> c \<in> set (br_subs (ly_bcast s'))"
  shows "stream_ok s' y"
  using assms by (auto simp: stream_ok_defs split: option.splits stream_pc.splits)

lemma live_ok_initial: "live_ok initial_live"
  by (simp add: live_ok_def initial_live_def channels_apart_def)

lemma frames_ok_mono: "frames_ok n x \<Longrightarrow> frames_ok (Suc n) x"
  by (cases "sm_pc x") (auto simp: frames_ok_def intro: le_SucI)

lemma change_ok: "live_ok s \<Longrightarrow> live_ok (s\<lparr>ly_changes := Suc (ly_changes s)\<rparr>)"
  by (simp add: live_ok_def stream_ok_def frames_ok_mono)

lemma stream_arrives_ok: "live_ok s \<Longrightarrow> live_ok (s\<lparr>ly_streams := ly_streams s @ [new_stream]\<rparr>)"
  by (auto simp: live_ok_def stream_ok_defs channels_apart_def new_stream_def nth_append)

lemma Notify_signals:
  "length (br_signals (Notify b)) = length (br_signals b)"
  "c < length (br_signals b) \<Longrightarrow> br_signals (Notify b) ! c = (br_signals b ! c \<or> c \<in> set (br_subs b))"
  "br_subs (Notify b) = br_subs b"
  by (simp_all add: Notify_def nth_enumerate_eq)

definition tell :: "live_system \<Rightarrow> live_stream \<Rightarrow> live_stream" where
  "tell s x = (case sm_channel x of None \<Rightarrow> x | Some c \<Rightarrow> if c \<in> set (br_subs (ly_bcast s)) then x\<lparr>sm_due := ly_changes s\<rparr> else x)"

lemma tell_fields [simp]:
  "sm_pc (tell s x) = sm_pc x" "sm_channel (tell s x) = sm_channel x" "sm_frames (tell s x) = sm_frames x" "shown (tell s x) = shown x"
  by (simp_all add: tell_def shown_def split: option.splits)

lemma told_stream_ok:
  assumes "stream_ok s x" shows "stream_ok (notify_system s) (tell s x)"
proof (cases "sm_channel x")
  case None
  then show ?thesis using assms by (auto simp: stream_ok_defs tell_def notify_system_def Notify_signals split: stream_pc.splits)
next
  case (Some c)
  then have "c < length (br_signals (ly_bcast s))" using assms by (simp add: stream_ok_def told_ok_def)
  then have at_c: "br_signals (Notify (ly_bcast s)) ! c = (br_signals (ly_bcast s) ! c \<or> c \<in> set (br_subs (ly_bcast s)))"
    by (rule Notify_signals)
  show ?thesis
  proof (cases "c \<in> set (br_subs (ly_bcast s))")
    case True
    then show ?thesis using assms Some at_c
      by (auto simp: stream_ok_defs tell_def notify_system_def Notify_signals shown_def split: stream_pc.splits)
  next
    case False
    then show ?thesis using assms Some at_c
      by (auto simp: stream_ok_defs tell_def notify_system_def Notify_signals shown_def split: stream_pc.splits)
  qed
qed

lemma notify_ok: "live_ok s \<Longrightarrow> live_ok (notify_system s)"
proof -
  assume ok: "live_ok s"
  have streams: "ly_streams (notify_system s) = map (tell s) (ly_streams s)" by (simp add: notify_system_def tell_def)
  show ?thesis using ok unfolding live_ok_def streams by (auto simp: told_stream_ok channels_apart_def)
qed

section \<open>The steps of a stream\<close>

lemma set_stream_simps [simp]:
  "ly_changes (set_stream i x s) = ly_changes s" "ly_bcast (set_stream i x s) = ly_bcast s"
  "ly_streams (set_stream i x s) = (ly_streams s)[i := x]"
  by (simp_all add: set_stream_def)

lemma shown_snoc [simp]: "sm_frames x = fs @ [f] \<Longrightarrow> shown x = snd f"
  by (simp add: shown_def)

text \<open>A step that only moves the stream: the broadcaster and the data stay.\<close>

lemma quiet_step_ok:
  assumes "live_ok s" "i < length (ly_streams s)" "sm_channel x = sm_channel (ly_streams s ! i)" "stream_ok s x"
  shows "live_ok (set_stream i x s)"
proof (rule live_ok_update [OF assms(1,2)])
  show "stream_ok (set_stream i x s) x" using assms(4) by (simp add: stream_ok_def)
  show "stream_ok (set_stream i x s) (ly_streams s ! j)" if "j < length (ly_streams s)" for j
    using live_ok_stream [OF assms(1) that] by (simp add: stream_ok_def)
qed (simp_all add: assms(3))

lemma other_channel:
  assumes "live_ok s" "i < length (ly_streams s)" "j < length (ly_streams s)" "j \<noteq> i" "sm_channel (ly_streams s ! i) = Some c"
  shows "sm_channel (ly_streams s ! j) \<noteq> Some c"
proof -
  have "channels_apart (ly_streams s)" using assms(1) by (simp add: live_ok_def)
  from this [unfolded channels_apart_def, rule_format, of i j] assms(2-5) show ?thesis by auto
qed

lemma stream_closes_ok:
  assumes "live_ok s" "i < length (ly_streams s)" shows "live_ok (close_stream i s)"
proof -
  let ?x = "ly_streams s ! i"
  have x: "stream_ok s ?x" using live_ok_stream [OF assms] .
  show ?thesis
  proof (cases "sm_channel ?x")
    case None
    have "stream_ok s (?x\<lparr>sm_pc := Closed\<rparr>)" using x None by (simp add: stream_ok_defs)
    then show ?thesis using quiet_step_ok [OF assms] None by (simp add: close_stream_def Let_def)
  next
    case (Some c)
    let ?s = "(set_stream i (?x\<lparr>sm_pc := Closed\<rparr>) s)\<lparr>ly_bcast := unsubscribe c (ly_bcast s)\<rparr>"
    have "live_ok ?s"
    proof (rule live_ok_update [OF assms])
      show "stream_ok ?s (?x\<lparr>sm_pc := Closed\<rparr>)" using x Some by (simp add: stream_ok_defs unsubscribe_def)
      show "stream_ok ?s (ly_streams s ! j)" if "j < length (ly_streams s)" "j \<noteq> i" for j
        using other_channel [OF assms that Some]
        by (intro stream_ok_keep [OF live_ok_stream [OF assms(1) that(1)]]) (auto simp: unsubscribe_def)
    qed simp_all
    then show ?thesis using Some by (simp add: close_stream_def Let_def)
  qed
qed

lemma subscribe_ok:
  assumes "live_ok s" "i < length (ly_streams s)" "sm_pc (ly_streams s ! i) = Subscribing"
  shows "live_ok (subscribe_stream i s)"
proof -
  let ?x = "ly_streams s ! i" let ?n = "length (br_signals (ly_bcast s))"
  let ?y = "?x\<lparr>sm_channel := Some ?n, sm_pc := Waiting\<rparr>"
  let ?s = "set_stream i ?y (s\<lparr>ly_bcast := fst (Subscribe (ly_bcast s))\<rparr>)"
  have x: "stream_ok s ?x" using live_ok_stream [OF assms(1,2)] .
  have used: "c < ?n" if "y \<in> set (ly_streams s)" "sm_channel y = Some c" for y c
    using assms(1) that by (auto simp: live_ok_def stream_ok_def told_ok_def)
  have "sm_channel ?x = None" "sm_due ?x = 0"
    using x assms(3) by (auto simp: stream_ok_defs split: option.splits)
  then have y: "stream_ok ?s ?y"
    using x assms(3) by (auto simp: stream_ok_defs Subscribe_def nth_append split: option.splits)
  have "live_ok ?s"
  proof (rule live_ok_update [OF assms(1,2) y])
    show "stream_ok ?s (ly_streams s ! j)" if "j < length (ly_streams s)" for j
      by (intro stream_ok_keep [OF live_ok_stream [OF assms(1) that]]) (auto simp: Subscribe_def nth_append)
  qed (use used in \<open>auto simp: Subscribe_def\<close>)
  then show ?thesis by (simp add: subscribe_stream_def Subscribe_def)
qed

lemma receive_ok:
  assumes "live_ok s" "i < length (ly_streams s)" "sm_channel (ly_streams s ! i) = Some c"
    and "pc = Coalescing \<or> pc = StartLive" "sm_pc (ly_streams s ! i) \<noteq> Closed"
  shows "live_ok (receive_stream pc i s)"
proof -
  let ?x = "ly_streams s ! i" let ?y = "?x\<lparr>sm_pc := pc\<rparr>"
  let ?s = "set_stream i ?y (s\<lparr>ly_bcast := receive c (ly_bcast s)\<rparr>)"
  have x: "stream_ok s ?x" using live_ok_stream [OF assms(1,2)] .
  then have "stream_ok ?s ?y" using assms(3-5) by (auto simp: stream_ok_defs receive_def)
  then have "live_ok ?s"
  proof (rule live_ok_update [OF assms(1,2)])
    show "stream_ok ?s (ly_streams s ! j)" if "j < length (ly_streams s)" "j \<noteq> i" for j
      using other_channel [OF assms(1,2) that assms(3)]
      by (intro stream_ok_keep [OF live_ok_stream [OF assms(1) that(1)]]) (auto simp: receive_def nth_list_update)
  qed simp_all
  then show ?thesis by (simp add: receive_stream_def Let_def assms(3))
qed

lemma compose_ok:
  assumes "live_ok s" "i < length (ly_streams s)"
    and "sm_pc (ly_streams s ! i) = Connecting \<and> name = ''snapshot'' \<or> sm_pc (ly_streams s ! i) = StartLive \<and> name = ''live''"
  shows "live_ok (compose_stream name i s)"
  unfolding compose_stream_def
  using live_ok_stream [OF assms(1,2)] assms(3)
  by (intro quiet_step_ok [OF assms(1,2)]) (auto simp: stream_ok_defs split: option.splits)

lemma send_ok:
  assumes "live_ok s" "i < length (ly_streams s)" "sm_pc (ly_streams s ! i) = Composing name v"
  shows "live_ok (send_frame name v i s)"
  unfolding send_frame_def Let_def
  using live_ok_stream [OF assms(1,2)] assms(3)
  by (intro quiet_step_ok [OF assms(1,2)]) (auto simp: stream_ok_defs sorted_append split: option.splits)

lemma tick_ok:
  assumes "live_ok s" "i < length (ly_streams s)" "sm_pc (ly_streams s ! i) = Waiting"
  shows "live_ok (set_stream i ((ly_streams s ! i)\<lparr>sm_pc := StartLive\<rparr>) s)"
  using live_ok_stream [OF assms(1,2)] assms(3)
  by (intro quiet_step_ok [OF assms(1,2)]) (auto simp: stream_ok_defs split: option.splits)

lemma open_channel:
  assumes "live_ok s" "i < length (ly_streams s)" "\<not> before_subscribing (sm_pc (ly_streams s ! i))" "sm_pc (ly_streams s ! i) \<noteq> Closed"
  obtains c where "sm_channel (ly_streams s ! i) = Some c"
  using live_ok_stream [OF assms(1,2)] assms(3,4) by (auto simp: stream_ok_def place_ok_def)

lemma stream_step_ok:
  assumes "stream_step i s s'" "live_ok s" "i < length (ly_streams s)" shows "live_ok s'"
  using assms(1)
proof cases
  case signal
  then obtain c where "sm_channel (ly_streams s ! i) = Some c"
    using open_channel [OF assms(2,3)] by (auto simp: before_subscribing_def)
  then show ?thesis using receive_ok [OF assms(2,3)] signal by simp
next
  case drain
  then obtain c where "sm_channel (ly_streams s ! i) = Some c"
    using open_channel [OF assms(2,3)] by (auto simp: before_subscribing_def)
  then show ?thesis using receive_ok [OF assms(2,3)] drain by simp
qed (use assms(2,3) in \<open>auto intro: compose_ok stream_closes_ok send_ok subscribe_ok tick_ok\<close>)

lemma live_hub_step_ok: "live_hub_step s s' \<Longrightarrow> live_ok s \<Longrightarrow> live_ok s'"
  by (induction rule: live_hub_step.induct) (auto intro: change_ok notify_ok stream_arrives_ok stream_step_ok)

lemma reachable_live_ok: "live_reachable s \<Longrightarrow> live_ok s"
  unfolding live_reachable_def by (induction rule: rtranclp_induct) (auto intro: live_ok_initial live_hub_step_ok)

section \<open>Nothing is missed, and nothing is stuck\<close>

text \<open>How many of its own steps a stream is away from waiting with an empty channel.\<close>

fun steps_to_wait :: "bool \<Rightarrow> stream_pc \<Rightarrow> nat" where
  "steps_to_wait p Waiting = (if p then 4 else 0)"
| "steps_to_wait p Coalescing = 3"
| "steps_to_wait p StartLive = (if p then 6 else 2)"
| "steps_to_wait p (Composing name v) = (if name = ''snapshot'' then 2 else if p then 5 else 1)"
| "steps_to_wait p Subscribing = 1"
| "steps_to_wait p Connecting = 3"
| "steps_to_wait p Closed = 0"

text \<open>
  C33. A dashboard misses no change it is told of: over every interleaving of writes, notifications and streams, a
  stream that waits with nothing in its channel has shown a payload composed after the last change of which it
  was notified, what it shows never goes back in time, and a stream that does not wait has a step of its own
  that brings it nearer to waiting.
\<close>

theorem streams_miss_no_change:
  assumes "live_reachable s" "i < length (ly_streams s)"
  defines "x \<equiv> ly_streams s ! i"
  shows "(sm_pc x = Waiting \<and> \<not> signalled i s \<longrightarrow> sm_due x \<le> shown x) \<and> sorted (map snd (sm_frames x)) \<and>
    (sm_pc x \<noteq> Closed \<and> \<not> (sm_pc x = Waiting \<and> \<not> signalled i s) \<longrightarrow>
      (\<exists>s'. stream_step i s s' \<and> sm_pc (ly_streams s' ! i) \<noteq> Closed \<and>
        steps_to_wait (signalled i s') (sm_pc (ly_streams s' ! i)) < steps_to_wait (signalled i s) (sm_pc x)))"
proof (intro conjI impI)
  have ok: "live_ok s" using assms(1) by (rule reachable_live_ok)
  then have x: "stream_ok s x" using live_ok_stream assms(2) by (simp add: x_def)
  show "sorted (map snd (sm_frames x))" using x by (simp add: stream_ok_def frames_ok_def)
  show "sm_due x \<le> shown x" if "sm_pc x = Waiting \<and> \<not> signalled i s"
    using x that by (auto simp: stream_ok_def told_ok_def signalled_def x_def split: option.splits)
  assume busy: "sm_pc x \<noteq> Closed \<and> \<not> (sm_pc x = Waiting \<and> \<not> signalled i s)"
  have chan: "\<exists>c. sm_channel x = Some c \<and> c < length (br_signals (ly_bcast s))" if "\<not> before_subscribing (sm_pc x)"
    using x that busy by (auto simp: stream_ok_def place_ok_def told_ok_def)
  let ?nearer = "\<lambda>s'. sm_pc (ly_streams s' ! i) \<noteq> Closed \<and>
      steps_to_wait (signalled i s') (sm_pc (ly_streams s' ! i)) < steps_to_wait (signalled i s) (sm_pc x)"
  note simps = x_def signalled_def before_subscribing_def Let_def
  show "\<exists>s'. stream_step i s s' \<and> ?nearer s'"
  proof (cases "sm_pc x")
    case Connecting
    then have "?nearer (compose_stream ''snapshot'' i s)" using assms(2) by (simp add: compose_stream_def x_def)
    then show ?thesis using stream_step.connect [of s i] Connecting by (auto simp: x_def)
  next
    case (Composing name v)
    then have "name = ''snapshot'' \<or> name = ''live''" using x by (simp add: stream_ok_def frames_ok_def)
    then have "?nearer (send_frame name v i s)" using Composing assms(2) by (auto simp: send_frame_def simps split: option.splits)
    then show ?thesis using stream_step.send [of s i name v] Composing by (auto simp: x_def)
  next
    case Subscribing
    then have "?nearer (subscribe_stream i s)" using assms(2) by (simp add: subscribe_stream_def Subscribe_def simps)
    then show ?thesis using stream_step.subscribe [of s i] Subscribing by (auto simp: x_def)
  next
    case Waiting
    then have "?nearer (receive_stream Coalescing i s)" using assms(2) busy by (simp add: receive_stream_def simps)
    then show ?thesis using stream_step.signal [of s i] Waiting busy by (auto simp: x_def)
  next
    case Coalescing
    then obtain c where "sm_channel x = Some c" "c < length (br_signals (ly_bcast s))" using chan by (auto simp: before_subscribing_def)
    then have "?nearer (receive_stream StartLive i s)" using assms(2) Coalescing by (simp add: receive_stream_def receive_def simps)
    then show ?thesis using stream_step.drain [of s i] Coalescing by (auto simp: x_def)
  next
    case StartLive
    then have "?nearer (compose_stream ''live'' i s)" using assms(2) by (auto simp: compose_stream_def simps split: option.splits)
    then show ?thesis using stream_step.compose [of s i] StartLive by (auto simp: x_def)
  qed (use busy in simp)
qed

section \<open>A connection in progress\<close>

text \<open>The stream has sent its snapshot and not yet subscribed.\<close>

definition sample_snapshot :: live_system where
  "sample_snapshot = send_frame ''snapshot'' 0 0 (compose_stream ''snapshot'' 0 (initial_live\<lparr>ly_streams := ly_streams initial_live @ [new_stream]\<rparr>))"

definition sample_missed :: live_system where
  "sample_missed = subscribe_stream 0 (notify_system (sample_snapshot\<lparr>ly_changes := Suc (ly_changes sample_snapshot)\<rparr>))"

definition sample_told :: live_system where
  "sample_told = notify_system (sample_missed\<lparr>ly_changes := Suc (ly_changes sample_missed)\<rparr>)"

lemmas sample_live_defs = sample_snapshot_def sample_missed_def sample_told_def send_frame_def compose_stream_def subscribe_stream_def
  notify_system_def set_stream_def initial_live_def new_stream_def newBroadcaster_def Subscribe_def Notify_def Let_def signalled_def

lemma live_reachable_step: "live_reachable s \<Longrightarrow> live_hub_step s s' \<Longrightarrow> live_reachable s'"
  unfolding live_reachable_def by (rule rtranclp.rtrancl_into_rtrancl)

lemma first_stream: "live_reachable s \<Longrightarrow> 0 < length (ly_streams s) \<Longrightarrow> stream_step 0 s s' \<Longrightarrow> live_reachable s'"
  by (rule live_reachable_step [OF _ live_hub_step.stream])

lemma live_samples_reachable: "live_reachable sample_snapshot" "live_reachable sample_missed" "live_reachable sample_told"
proof -
  have "live_reachable initial_live" by (simp add: live_reachable_def)
  then have "live_reachable (initial_live\<lparr>ly_streams := ly_streams initial_live @ [new_stream]\<rparr>)"
    by (rule live_reachable_step [OF _ live_hub_step.arrive])
  then have "live_reachable (compose_stream ''snapshot'' 0 (initial_live\<lparr>ly_streams := ly_streams initial_live @ [new_stream]\<rparr>))"
    by (rule first_stream) (simp, rule stream_step.connect, simp add: sample_live_defs)
  then show snap: "live_reachable sample_snapshot"
    unfolding sample_snapshot_def by (rule first_stream) (simp add: compose_stream_def, rule stream_step.send, simp add: sample_live_defs)
  then have "live_reachable (notify_system (sample_snapshot\<lparr>ly_changes := Suc (ly_changes sample_snapshot)\<rparr>))"
    by (intro live_reachable_step [OF live_reachable_step [OF _ live_hub_step.change] live_hub_step.notify])
  then show missed: "live_reachable sample_missed"
    unfolding sample_missed_def by (rule first_stream) (simp add: sample_live_defs, rule stream_step.subscribe, simp add: sample_live_defs)
  then show "live_reachable sample_told"
    unfolding sample_told_def by (intro live_reachable_step [OF live_reachable_step [OF _ live_hub_step.change] live_hub_step.notify])
qed

text \<open>
  The snapshot is composed before the subscription, so a change announced in between reaches nobody: the stream
  waits, nothing is in its channel, and what it has shown is older. It stays so until the next change or refresh.
\<close>

lemma snapshot_may_miss_a_change:
  "sm_pc (ly_streams sample_missed ! 0) = Waiting" "\<not> signalled 0 sample_missed"
  "shown (ly_streams sample_missed ! 0) < ly_changes sample_missed"
  by (simp_all add: sample_live_defs shown_def)

theorem streams_miss_no_change_witness:
  "\<exists>s'. stream_step 0 sample_told s' \<and> sm_pc (ly_streams s' ! 0) \<noteq> Closed"
proof -
  have "0 < length (ly_streams sample_told)" "sm_pc (ly_streams sample_told ! 0) = Waiting" "signalled 0 sample_told"
    by (simp_all add: sample_live_defs)
  with streams_miss_no_change [OF live_samples_reachable(3), of 0] show ?thesis by auto
qed

end
