(* ===== verification/Live_View.thy ===== *)
theory Live_View
  imports Server_Access Device_Merge Usage_Queries
begin

text \<open>
  The fleet as the panel shows it: \<open>internal/store/live.go\<close> and the readers of \<open>procs.go\<close>, the device states of
  \<open>internal/server/live.go\<close> and \<open>devicesview.go\<close>, the consolidation of merged principals (\<open>fleetdevices.go\<close>) and the
  names (\<open>devicenames.go\<close>). Times are milliseconds; \<open>now\<close> is \<open>now.UnixMilli()\<close>, and all durations are whole
  milliseconds. Rows whose order the source leaves open keep the order in which their groups appear.
\<close>

section \<open>Live queries\<close>

record device_status =
  dt_device :: string
  dt_last_ts :: int
  dt_today_tokens :: int
  dt_today_events :: int

definition device_status_of :: "(string \<times> event_row list) list \<Rightarrow> string \<times> event_row list \<Rightarrow> device_status" where
  "device_status_of today g =
     (case map_of today (fst g) of
        None \<Rightarrow> \<lparr>dt_device = fst g, dt_last_ts = sql_max 0 (map ev_ts (snd g)), dt_today_tokens = 0, dt_today_events = 0\<rparr>
      | Some rows \<Rightarrow> \<lparr>dt_device = fst g, dt_last_ts = sql_max 0 (map ev_ts (snd g)),
          dt_today_tokens = sum_list (map usage_tokens rows), dt_today_events = int (length rows)\<rparr>)"

definition DeviceStatuses :: "event_row list \<Rightarrow> int \<Rightarrow> device_status list" where
  "DeviceStatuses t todayStart =
     sort_key (\<lambda>d. - dt_last_ts d)
       (map (device_status_of (sql_group ev_device (filter (\<lambda>r. ev_ts r \<ge> todayStart) t))) (sql_group ev_device t))"

record active_session =
  as_session_id :: string
  as_device :: string
  as_source :: string
  as_repo :: string
  as_cwd :: string
  as_model :: string
  as_last_ts :: int
  as_tokens :: int
  as_events :: int

definition active_session_of :: "(string \<times> string \<times> string) \<times> event_row list \<Rightarrow> active_session" where
  "active_session_of g =
     (case g of ((session, device, source), rows) \<Rightarrow>
        \<lparr>as_session_id = session, as_device = device, as_source = source, as_repo = sql_max [] (map ev_repo rows),
         as_cwd = sql_max [] (map ev_cwd rows), as_model = CanonicalModel (sql_max [] (map ev_model rows)),
         as_last_ts = sql_max 0 (map ev_ts rows), as_tokens = sum_list (map usage_tokens rows), as_events = int (length rows)\<rparr>)"

definition ActiveSessions :: "event_row list \<Rightarrow> int \<Rightarrow> active_session list" where
  "ActiveSessions t since =
     sql_limit 50 (sort_key (\<lambda>a. - as_last_ts a)
       (map active_session_of (sql_group (\<lambda>r. (ev_session_id r, ev_device r, ev_source r)) (filter (\<lambda>r. ev_ts r \<ge> since) t))))"

definition TokensSince :: "event_row list \<Rightarrow> int \<Rightarrow> int \<times> int" where
  "TokensSince t since =
     (let rows = filter (\<lambda>r. ev_ts r \<ge> since) t
      in (sum_list (map (\<lambda>r. ev_input_tokens r + ev_output_tokens r + ev_cache_creation_tokens r) rows), sum_list (map ev_output_tokens rows)))"

definition session_order :: "live_session \<Rightarrow> int \<times> string \<times> int" where
  "session_order s = (ls_started_at s, ls_device s, ls_pid s)"

definition RunningSessions :: "live_session list \<Rightarrow> int \<Rightarrow> live_session list" where
  "RunningSessions t since = sort_key session_order (filter (\<lambda>s. ls_observed_at s \<ge> since) t)"

definition ProcReporters :: "live_report list \<Rightarrow> int \<Rightarrow> live_report list" where
  "ProcReporters t since = sort_key lr_device (filter (\<lambda>r. lr_observed_at r \<ge> since) t)"

section \<open>The fleet\<close>

definition ListDevices :: "registry \<Rightarrow> device_record list" where
  "ListDevices s = sort_key dr_device_id (rg_devices s)"

text \<open>Aliases as an association list; a Go map is ranged over in any order, and here the order does not matter.\<close>

definition follow_merge :: "(string \<times> string) list \<Rightarrow> merge_record \<Rightarrow> (string \<times> string) list" where
  "follow_merge aliases m =
     AList.update (mr_from m) (mr_to m) (map (\<lambda>(source, target). (source, if target = mr_from m then mr_to m else target)) aliases)"

definition merge_aliases :: "merge_record list \<Rightarrow> (string \<times> string) list" where
  "merge_aliases history = foldl follow_merge [] history"

definition consolidated :: "(string \<times> string) list \<Rightarrow> device_record list \<Rightarrow> device_record \<Rightarrow> bool" where
  "consolidated aliases records r =
     (let target = (case map_of aliases (dr_device_id r) of None \<Rightarrow> [] | Some d \<Rightarrow> d)
      in dr_revoked_at r > 0 \<and> target \<noteq> [] \<and> target \<noteq> dr_device_id r \<and> target \<in> set (map dr_device_id records))"

definition fleetDevices :: "registry \<Rightarrow> merge_record list \<Rightarrow> device_record list" where
  "fleetDevices s history =
     (let records = ListDevices s
      in filter (\<lambda>r. \<not> consolidated (merge_aliases history) records r) records)"

text \<open>A typed label wins over what the device called itself.\<close>

definition deviceNames :: "registry \<Rightarrow> (string \<times> string) list \<Rightarrow> string \<Rightarrow> string" where
  "deviceNames s labels identity =
     (case map_of labels identity of
        Some label \<Rightarrow> if label \<noteq> [] then label else (case deviceByID s identity of None \<Rightarrow> [] | Some d \<Rightarrow> dr_display_name d)
      | None \<Rightarrow> (case deviceByID s identity of None \<Rightarrow> [] | Some d \<Rightarrow> dr_display_name d))"

section \<open>Device states\<close>

definition heartbeatOnlineWindow :: int where "heartbeatOnlineWindow = 2 * 60000"
definition heartbeatStaleWindow :: int where "heartbeatStaleWindow = 10 * 60000"

definition heartbeatState :: "int \<Rightarrow> int \<Rightarrow> int \<Rightarrow> string" where
  "heartbeatState now lastSeenAt revokedAt =
     (if revokedAt > 0 \<or> lastSeenAt \<le> 0 then ''offline''
      else
        let age = now - lastSeenAt
        in if age \<le> heartbeatOnlineWindow then ''online''
           else if age \<le> heartbeatStaleWindow then ''stale''
           else ''offline'')"

definition identityStatusFor :: "server_config \<Rightarrow> string \<Rightarrow> string" where
  "identityStatusFor c device =
     (if LocalEnabled c \<and> device \<noteq> [] \<and> device = cg_device_name c then ''local'' else ''legacy_unbound'')"

definition burnWindow :: int where "burnWindow = 10 * 60000"
definition deviceActive :: int where "deviceActive = 2 * 60000"
definition deviceStale :: int where "deviceStale = 10 * 60000"
definition procTTL :: int where "procTTL = 90 * 1000"

record dev_view =
  dw_status :: device_status
  dw_state :: string
  dw_device_id :: string
  dw_display_name :: string
  dw_identity_status :: string
  dw_connection_state :: string
  dw_last_seen_at :: int
  dw_last_seen_age :: "int option"
  dw_has_procs :: bool
  dw_running :: nat

definition activity_state :: "int \<Rightarrow> device_status \<Rightarrow> string" where
  "activity_state now d =
     (let age = now - dt_last_ts d
      in if age \<le> deviceActive then ''active'' else if age \<le> deviceStale then ''idle'' else ''stale'')"

text \<open>\<open>has\<close> and \<open>running\<close> are the process reporters and the number of sessions by device.\<close>

definition legacy_view :: "server_config \<Rightarrow> int \<Rightarrow> (string \<Rightarrow> bool) \<Rightarrow> (string \<Rightarrow> nat) \<Rightarrow> device_status \<Rightarrow> dev_view" where
  "legacy_view c now has running d =
     \<lparr>dw_status = d, dw_state = activity_state now d, dw_device_id = [], dw_display_name = [],
      dw_identity_status = identityStatusFor c (dt_device d), dw_connection_state = ''unknown'', dw_last_seen_at = 0,
      dw_last_seen_age = None, dw_has_procs = has (dt_device d), dw_running = running (dt_device d)\<rparr>"

definition fresh_view :: "(string \<Rightarrow> bool) \<Rightarrow> (string \<Rightarrow> nat) \<Rightarrow> string \<Rightarrow> dev_view" where
  "fresh_view has running i =
     \<lparr>dw_status = \<lparr>dt_device = i, dt_last_ts = 0, dt_today_tokens = 0, dt_today_events = 0\<rparr>, dw_state = [], dw_device_id = [],
      dw_display_name = [], dw_identity_status = [], dw_connection_state = [], dw_last_seen_at = 0, dw_last_seen_age = None,
      dw_has_procs = has i, dw_running = running i\<rparr>"

definition register_view :: "int \<Rightarrow> device_record \<Rightarrow> dev_view \<Rightarrow> dev_view" where
  "register_view now r v =
     (let state = heartbeatState now (dr_last_seen_at r) (dr_revoked_at r)
      in v\<lparr>dw_device_id := dr_device_id r, dw_identity_status := ''registered'', dw_connection_state := state,
           dw_last_seen_at := dr_last_seen_at r,
           dw_last_seen_age := (if dr_last_seen_at r > 0 then Some (max (now - dr_last_seen_at r) 0) else dw_last_seen_age v),
           dw_state := (if state = ''online'' then ''active'' else if state = ''stale'' then ''idle'' else ''stale'')\<rparr>)"

text \<open>One round of the loop over the registered devices; the views have one entry per device.\<close>

definition add_registered :: "int \<Rightarrow> (string \<Rightarrow> bool) \<Rightarrow> (string \<Rightarrow> nat) \<Rightarrow> dev_view list \<Rightarrow> device_record \<Rightarrow> dev_view list" where
  "add_registered now has running views r =
     (let has_view = (\<lambda>v. dt_device (dw_status v) = dr_device_id r)
      in if list_ex has_view views then map (\<lambda>v. if has_view v then register_view now r v else v) views
         else views @ [register_view now r (fresh_view has running (dr_device_id r))])"

definition device_views :: "server_config \<Rightarrow> int \<Rightarrow> int \<Rightarrow> hub \<Rightarrow> merge_record list \<Rightarrow> (string \<times> string) list \<Rightarrow> dev_view list" where
  "device_views c now dayStart h history labels =
     (let running = RunningSessions (hd_sessions (hu_db h)) (now - procTTL);
          reporters = ProcReporters (hd_reports (hu_db h)) (now - procTTL);
          has = (\<lambda>d. d \<in> set (map lr_device reporters));
          count = (\<lambda>d. length (filter (\<lambda>s. ls_device s = d) running));
          views = foldl (add_registered now has count)
            (map (legacy_view c now has count) (DeviceStatuses (hd_events (hu_db h)) dayStart))
            (fleetDevices (hu_registry h) history)
      in map (\<lambda>v. v\<lparr>dw_display_name := deviceNames (hu_registry h) labels (dt_device (dw_status v))\<rparr>) views)"

section \<open>The payload\<close>

text \<open>The quotas shown: the latest readings whose window has not reset. The speed and the window cards are of other components.\<close>

record live_payload =
  lp_quotas :: "quota_snapshot list"
  lp_devices :: "dev_view list"
  lp_sessions :: "active_session list"
  lp_running :: "live_session list"
  lp_reporters :: "live_report list"
  lp_tokens :: int
  lp_output_tokens :: int
  lp_per_minute :: int
  lp_generated_at :: int

definition livePayload :: "server_config \<Rightarrow> int \<Rightarrow> int \<Rightarrow> hub \<Rightarrow> merge_record list \<Rightarrow> (string \<times> string) list \<Rightarrow> live_payload" where
  "livePayload c now dayStart h history labels =
     (let db = hu_db h; (total, output) = TokensSince (hd_events db) (now - burnWindow)
      in \<lparr>lp_quotas = filter (\<lambda>q. \<not> (q_resets_at q > 0 \<and> q_resets_at q < now)) (LatestQuotas (hd_quotas db) (now - 14 * 24 * 3600000)),
          lp_devices = device_views c now dayStart h history labels,
          lp_sessions = ActiveSessions (hd_events db) (now - burnWindow),
          lp_running = RunningSessions (hd_sessions db) (now - procTTL),
          lp_reporters = ProcReporters (hd_reports db) (now - procTTL),
          lp_tokens = total, lp_output_tokens = output, lp_per_minute = go_quot total 10, lp_generated_at = now\<rparr>)"

end
