(* ===== verification/Live_View_Properties.thy ===== *)
theory Live_View_Properties
  imports Live_View Server_Access_Properties Delivery_Properties Hub_Properties Ingest_Facts Usage_Properties
begin

text \<open>
  What the fleet view shows: every device with events and every registered device that was not consolidated, once; and what a
  heartbeat the hub has answered makes of its device's entry.
\<close>

section \<open>Looking a device up in the views\<close>

abbreviation dw_name :: "dev_view \<Rightarrow> string" where
  "dw_name v \<equiv> dt_device (dw_status v)"

definition view_of :: "dev_view list \<Rightarrow> string \<Rightarrow> dev_view option" where
  "view_of views d = sql_select (\<lambda>v. dw_name v = d) views"

lemma find_key: "distinct (map k xs) \<Longrightarrow> x \<in> set xs \<Longrightarrow> find (\<lambda>y. k y = k x) xs = Some x"
  by (induction xs) (auto intro: rev_image_eqI)

lemma view_of_member: "distinct (map dw_name views) \<Longrightarrow> v \<in> set views \<Longrightarrow> view_of views (dw_name v) = Some v"
  unfolding view_of_def sql_select_def by (rule find_key)

lemma register_view_name [simp]: "dw_name (register_view now r v) = dw_name v"
  by (simp add: register_view_def Let_def)

lemma fresh_view_name [simp]: "dw_name (fresh_view has running i) = i"
  by (simp add: fresh_view_def)

lemma legacy_view_name [simp]: "dw_name (legacy_view c now has running d) = dt_device d"
  by (simp add: legacy_view_def)

lemma names_add:
  "map dw_name (add_registered now has running views r) =
     (if dr_device_id r \<in> set (map dw_name views) then map dw_name views else map dw_name views @ [dr_device_id r])"
  by (auto simp: add_registered_def Let_def list_ex_iff intro: rev_image_eqI)

lemma view_of_add:
  "view_of (add_registered now has running views r) d =
     (if d = dr_device_id r
      then Some (register_view now r (case view_of views d of None \<Rightarrow> fresh_view has running d | Some v \<Rightarrow> v))
      else view_of views d)"
proof (cases "list_ex (\<lambda>v. dw_name v = dr_device_id r) views")
  case True
  let ?f = "\<lambda>v. if dw_name v = dr_device_id r then register_view now r v else v"
  have "view_of (add_registered now has running views r) d = map_option ?f (view_of views d)"
    using True by (simp add: add_registered_def Let_def view_of_def sql_select_def find_map_same)
  moreover have "view_of views d \<noteq> None" if "d = dr_device_id r"
    using that True by (auto simp: view_of_def sql_select_def find_None_iff list_ex_iff)
  moreover have "dw_name v = d" if "view_of views d = Some v" for v
    using that by (auto simp: view_of_def sql_select_def dest: find_Some_D)
  ultimately show ?thesis by (cases "view_of views d") auto
next
  case False
  then have none: "view_of views (dr_device_id r) = None" by (auto simp: view_of_def sql_select_def find_None_iff list_ex_iff)
  have "find P (xs @ [x]) = (case find P xs of None \<Rightarrow> if P x then Some x else None | Some y \<Rightarrow> Some y)" for P xs and x :: dev_view
    by (induction xs) auto
  then show ?thesis
    using False none by (simp add: add_registered_def Let_def view_of_def sql_select_def split: option.splits)
qed

lemma distinct_add: "distinct (map dw_name views) \<Longrightarrow> distinct (map dw_name (add_registered now has running views r))"
  by (auto simp: names_add)

lemma fold_add:
  assumes "distinct (map dr_device_id rs)"
  shows "view_of (foldl (add_registered now has running) views rs) d =
      (case sql_select (\<lambda>r. dr_device_id r = d) rs of
         None \<Rightarrow> view_of views d
       | Some r \<Rightarrow> Some (register_view now r (case view_of views d of None \<Rightarrow> fresh_view has running d | Some v \<Rightarrow> v)))"
  using assms
proof (induction rs arbitrary: views)
  case (Cons r rs)
  show ?case
  proof (cases "dr_device_id r = d")
    case True
    then have "sql_select (\<lambda>x. dr_device_id x = d) rs = None" using Cons.prems by (auto simp: sql_select_def find_None_iff intro: rev_image_eqI)
    with True Cons show ?thesis by (simp add: view_of_add) (simp add: sql_select_def)
  next
    case False
    then have "view_of (add_registered now has running views r) d = view_of views d" by (simp add: view_of_add)
    with False Cons show ?thesis by (simp add: sql_select_def split: option.split)
  qed
qed (simp add: sql_select_def)

lemma fold_add_names:
  "distinct (map dw_name views) \<Longrightarrow> distinct (map dw_name (foldl (add_registered now has running) views rs))"
  "dw_name ` set (foldl (add_registered now has running) views rs) = dw_name ` set views \<union> dr_device_id ` set rs"
proof (induction rs arbitrary: views)
  case (Cons r rs)
  {
    case 1
    then show ?case using Cons.IH(1) [OF distinct_add] by simp
  next
    case 2
    have "dw_name ` set (add_registered now has running views r) = insert (dr_device_id r) (dw_name ` set views)"
      using arg_cong [OF names_add, of set now has running views r] by auto
    then show ?case by (simp add: Cons.IH(2))
  }
qed simp_all

section \<open>The rows the views start from\<close>

lemma status_names:
  "distinct (map dt_device (DeviceStatuses t dayStart))" "dt_device ` set (DeviceStatuses t dayStart) = ev_device ` set t"
proof -
  let ?g = "sql_group ev_device t"
  have dev: "dt_device (device_status_of today g) = fst g" for today g
    by (simp add: device_status_of_def split: option.splits)
  have names: "map dt_device (map (device_status_of today) ?g) = map fst ?g" for today
    by (simp only: map_map comp_def dev)
  have sorted: "distinct (map dt_device (sort_key k xs)) = distinct (map dt_device xs)"
    "set (map dt_device (sort_key k xs)) = set (map dt_device xs)" for k :: "device_status \<Rightarrow> int" and xs
    by (simp_all add: distinct_map)
  have "distinct (map dt_device (DeviceStatuses t dayStart))" "set (map dt_device (DeviceStatuses t dayStart)) = set (map ev_device t)"
    unfolding DeviceStatuses_def sorted names by (simp_all add: sql_group_keys)
  then show "distinct (map dt_device (DeviceStatuses t dayStart))" "dt_device ` set (DeviceStatuses t dayStart) = ev_device ` set t"
    by simp_all
qed

lemma registered_ids:
  assumes "dv.uniq (rg_devices s)" shows "distinct (map dr_device_id (fleetDevices s history))"
proof -
  have "distinct (map dr_device_id ds)" if "dv.uniq ds" for ds
    using that by (induction ds) (auto simp: device_conflict_def)
  with assms have "distinct (map dr_device_id (ListDevices s))"
    unfolding ListDevices_def by (simp add: distinct_map)
  then show ?thesis unfolding fleetDevices_def Let_def by (simp add: distinct_map_filter)
qed

section \<open>Every device once\<close>

lemma device_views_of:
  assumes "dv.uniq (rg_devices (hu_registry h))"
  shows "view_of (device_views c now dayStart h history labels) d =
    map_option (\<lambda>v. v\<lparr>dw_display_name := deviceNames (hu_registry h) labels d\<rparr>)
      (let has = (\<lambda>d. d \<in> set (map lr_device (ProcReporters (hd_reports (hu_db h)) (now - procTTL))));
           running = (\<lambda>d. length (filter (\<lambda>s. ls_device s = d) (RunningSessions (hd_sessions (hu_db h)) (now - procTTL))));
           legacy = map_option (legacy_view c now has running)
             (sql_select (\<lambda>s. dt_device s = d) (DeviceStatuses (hd_events (hu_db h)) dayStart))
       in case sql_select (\<lambda>r. dr_device_id r = d) (fleetDevices (hu_registry h) history) of
            None \<Rightarrow> legacy
          | Some r \<Rightarrow> Some (register_view now r (case legacy of None \<Rightarrow> fresh_view has running d | Some v \<Rightarrow> v)))"
proof -
  have named: "view_of (map (\<lambda>v. v\<lparr>dw_display_name := n (dw_name v)\<rparr>) vs) d = map_option (\<lambda>v. v\<lparr>dw_display_name := n d\<rparr>) (view_of vs d)"
    for n vs
    by (induction vs) (auto simp: view_of_def sql_select_def)
  have legacy: "view_of (map (legacy_view c now has running) ss) d = map_option (legacy_view c now has running) (sql_select (\<lambda>s. dt_device s = d) ss)"
    for has running ss
    by (induction ss) (simp_all add: view_of_def sql_select_def)
  show ?thesis
    unfolding device_views_def Let_def named fold_add [OF registered_ids [OF assms]] legacy by (rule refl)
qed

lemma device_views_names:
  "distinct (map dw_name (device_views c now dayStart h history labels))"
  "dw_name ` set (device_views c now dayStart h history labels) =
     ev_device ` set (hd_events (hu_db h)) \<union> dr_device_id ` set (fleetDevices (hu_registry h) history)"
proof -
  have named: "map dw_name (map (\<lambda>v. v\<lparr>dw_display_name := n (dw_name v)\<rparr>) vs) = map dw_name vs" for n vs
    by simp
  have legacy: "map dw_name (map (legacy_view c now has running) ss) = map dt_device ss" for has running ss
    by simp
  show "distinct (map dw_name (device_views c now dayStart h history labels))"
    unfolding device_views_def Let_def named
    by (rule fold_add_names(1)) (simp only: legacy status_names)
  have "set (map dw_name (device_views c now dayStart h history labels)) =
     ev_device ` set (hd_events (hu_db h)) \<union> dr_device_id ` set (fleetDevices (hu_registry h) history)"
    unfolding device_views_def Let_def named set_map fold_add_names(2)
    by (simp only: flip: set_map) (simp only: legacy set_map status_names)
  then show "dw_name ` set (device_views c now dayStart h history labels) =
     ev_device ` set (hd_events (hu_db h)) \<union> dr_device_id ` set (fleetDevices (hu_registry h) history)"
    by simp
qed

text \<open>What the entries say of today's tokens adds up to the tokens of today's events.\<close>

lemma regroup_sum: fixes f :: "'a \<Rightarrow> 'k" shows "(\<Sum>g\<leftarrow>sql_group f rows. \<Sum>r\<leftarrow>snd g. w r) = (\<Sum>r\<leftarrow>rows. (w r :: int))"
proof -
  have "(\<Sum>g\<leftarrow>gs. \<Sum>r\<leftarrow>snd g. w r) = sum_list (map w (concat (map snd gs)))" for gs :: "('k \<times> 'a list) list"
    by (induction gs) auto
  also have "sum_list (map w (concat (map snd (sql_group f rows)))) = sum_list (map w rows)"
    using sql_group_mset [of f rows] by (metis mset_map sum_mset_sum_list)
  finally show ?thesis .
qed

text \<open>What an entry says of a device's events.\<close>

definition events_shown :: "event_row list \<Rightarrow> int \<Rightarrow> string \<Rightarrow> device_status" where
  "events_shown t dayStart d =
     (let mine = filter (\<lambda>r. ev_device r = d) t; today = filter (\<lambda>r. ev_ts r \<ge> dayStart) mine
      in \<lparr>dt_device = d, dt_last_ts = sql_max 0 (map ev_ts mine), dt_today_tokens = (\<Sum>r\<leftarrow>today. usage_tokens r),
          dt_today_events = int (length today)\<rparr>)"

lemma device_status_shown:
  assumes "g \<in> set (sql_group ev_device t)"
  shows "device_status_of (sql_group ev_device (filter (\<lambda>r. ev_ts r \<ge> dayStart) t)) g = events_shown t dayStart (fst g)"
proof -
  let ?today = "sql_group ev_device (filter (\<lambda>r. ev_ts r \<ge> dayStart) t)"
  have rows: "snd g = filter (\<lambda>r. ev_device r = fst g) t" using assms by (auto simp: sql_group_def)
  show ?thesis
  proof (cases "map_of ?today (fst g)")
    case None
    then have "fst g \<notin> set (map fst ?today)" by (simp only: map_of_eq_None_iff set_map not_False_eq_True)
    moreover have "set (map fst ?today) = ev_device ` set (filter (\<lambda>r. ev_ts r \<ge> dayStart) t)" unfolding sql_group_keys by simp
    ultimately have "filter (\<lambda>r. ev_ts r \<ge> dayStart) (snd g) = []" by (auto simp: rows filter_empty_conv intro: rev_image_eqI)
    with None show ?thesis by (simp add: device_status_of_def events_shown_def flip: rows)
  next
    case (Some rs)
    then have "rs = filter (\<lambda>r. ev_device r = fst g) (filter (\<lambda>r. ev_ts r \<ge> dayStart) t)"
      by (intro sql_group_filter map_of_SomeD)
    with Some show ?thesis by (simp add: device_status_of_def events_shown_def Let_def rows conj_commute)
  qed
qed

lemma statuses_shown: "set (DeviceStatuses t dayStart) = events_shown t dayStart ` ev_device ` set t"
proof -
  have "fst ` set (sql_group ev_device t) = ev_device ` set t" by (simp add: sql_group_keys flip: set_map)
  moreover have "set (DeviceStatuses t dayStart) = (\<lambda>g. events_shown t dayStart (fst g)) ` set (sql_group ev_device t)"
    unfolding DeviceStatuses_def set_sort set_map by (rule image_cong [OF refl device_status_shown])
  ultimately show ?thesis by (metis image_image)
qed

lemma select_status:
  "sql_select (\<lambda>s. dt_device s = d) (DeviceStatuses t dayStart) = (if d \<in> ev_device ` set t then Some (events_shown t dayStart d) else None)"
proof -
  have name: "dt_device (events_shown t dayStart x) = x" for x by (simp add: events_shown_def Let_def)
  show ?thesis
  proof (cases "d \<in> ev_device ` set t")
    case True
    then have "events_shown t dayStart d \<in> set (DeviceStatuses t dayStart)" unfolding statuses_shown by (rule imageI)
    from find_key [OF status_names(1) this] True show ?thesis by (simp add: sql_select_def name)
  next
    case False
    then show ?thesis using status_names(2) [of t dayStart] by (auto simp: sql_select_def find_None_iff)
  qed
qed

lemma statuses_sum:
  "(\<Sum>d\<leftarrow>DeviceStatuses t dayStart. dt_today_tokens d) = (\<Sum>r\<leftarrow>filter (\<lambda>r. ev_ts r \<ge> dayStart) t. usage_tokens r)"
proof -
  let ?today = "sql_group ev_device (filter (\<lambda>r. ev_ts r \<ge> dayStart) t)"
  have "dt_today_tokens (device_status_of ?today g) = (\<Sum>r\<leftarrow>snd g. if ev_ts r \<ge> dayStart then usage_tokens r else 0)"
    if "g \<in> set (sql_group ev_device t)" for g
  proof -
    have "snd g = filter (\<lambda>r. ev_device r = fst g) t" using that by (auto simp: sql_group_def)
    then show ?thesis by (simp add: device_status_shown [OF that] events_shown_def Let_def sum_list_map_filter')
  qed
  then have "(\<Sum>g\<leftarrow>sql_group ev_device t. dt_today_tokens (device_status_of ?today g)) =
      (\<Sum>g\<leftarrow>sql_group ev_device t. \<Sum>r\<leftarrow>snd g. if ev_ts r \<ge> dayStart then usage_tokens r else 0)"
    by (intro arg_cong [where f = sum_list] map_cong refl)
  also have "\<dots> = (\<Sum>r\<leftarrow>filter (\<lambda>r. ev_ts r \<ge> dayStart) t. usage_tokens r)"
    by (simp add: regroup_sum sum_list_map_filter')
  moreover have "(\<Sum>d\<leftarrow>sort_key k xs. dt_today_tokens d) = (\<Sum>d\<leftarrow>xs. dt_today_tokens d)" for k :: "device_status \<Rightarrow> int" and xs
    by (metis mset_map mset_sort sum_mset_sum_list)
  ultimately show ?thesis by (simp add: DeviceStatuses_def comp_def)
qed

lemma fold_add_sum:
  "(\<Sum>v\<leftarrow>foldl (add_registered now has running) views rs. dt_today_tokens (dw_status v)) = (\<Sum>v\<leftarrow>views. dt_today_tokens (dw_status v))"
proof (induction rs arbitrary: views)
  case (Cons r rs)
  have same: "dw_status (register_view now r v) = dw_status v" for v by (simp add: register_view_def Let_def)
  have "map (\<lambda>v. dt_today_tokens (dw_status (if dw_name v = dr_device_id r then register_view now r v else v))) views =
      map (\<lambda>v. dt_today_tokens (dw_status v)) views"
    by (simp add: same)
  then have "(\<Sum>v\<leftarrow>views. dt_today_tokens (dw_status (if dw_name v = dr_device_id r then register_view now r v else v))) =
      (\<Sum>v\<leftarrow>views. dt_today_tokens (dw_status v))"
    by (rule arg_cong)
  then have "(\<Sum>v\<leftarrow>add_registered now has running views r. dt_today_tokens (dw_status v)) = (\<Sum>v\<leftarrow>views. dt_today_tokens (dw_status v))"
    by (simp add: add_registered_def Let_def comp_def same) (simp add: fresh_view_def)
  with Cons show ?case by simp
qed simp

text \<open>
  What an entry has to say of its device: the tokens and the number of its own events of today and its latest event; whether it reported
  its processes in the last ninety seconds, and how many of its sessions were seen then; its name; and its state, by its
  heartbeat where it is registered and by its latest event where it is not.
\<close>

definition shows_device :: "server_config \<Rightarrow> int \<Rightarrow> int \<Rightarrow> hub \<Rightarrow> merge_record list \<Rightarrow> (string \<times> string) list \<Rightarrow> dev_view \<Rightarrow> bool" where
  "shows_device c now dayStart h history labels v \<longleftrightarrow>
     (let db = hu_db h; d = dw_name v; mine = filter (\<lambda>r. ev_device r = d) (hd_events db)
      in dt_today_tokens (dw_status v) = (\<Sum>r\<leftarrow>filter (\<lambda>r. ev_ts r \<ge> dayStart) mine. usage_tokens r) \<and>
         dt_today_events (dw_status v) = int (length (filter (\<lambda>r. ev_ts r \<ge> dayStart) mine)) \<and>
         dt_last_ts (dw_status v) = (if mine = [] then 0 else Max (ev_ts ` set mine)) \<and>
         dw_has_procs v = (\<exists>p\<in>set (hd_reports db). lr_device p = d \<and> lr_observed_at p \<ge> now - procTTL) \<and>
         dw_running v = length (filter (\<lambda>s. ls_device s = d \<and> ls_observed_at s \<ge> now - procTTL) (hd_sessions db)) \<and>
         dw_display_name v = deviceNames (hu_registry h) labels d \<and>
         (case sql_select (\<lambda>r. dr_device_id r = d) (fleetDevices (hu_registry h) history) of
            None \<Rightarrow> dw_device_id v = [] \<and> dw_connection_state v = ''unknown'' \<and> dw_identity_status v = identityStatusFor c d \<and>
              dw_state v = activity_state now (dw_status v)
          | Some r \<Rightarrow> dw_device_id v = d \<and> dw_connection_state v = heartbeatState now (dr_last_seen_at r) (dr_revoked_at r) \<and>
              dw_identity_status v = ''registered'' \<and> dw_last_seen_at v = dr_last_seen_at r \<and>
              dw_state v = (if dw_connection_state v = ''online'' then ''active'' else if dw_connection_state v = ''stale'' then ''idle'' else ''stale'')))"

lemma max_shown: "sql_max (0 :: int) xs = (if xs = [] then 0 else Max (set xs))"
  by (cases xs) (simp_all add: sql_max_def flip: Max.set_eq_fold)

lemma no_events_shown: "d \<notin> ev_device ` set t \<Longrightarrow> events_shown t dayStart d = \<lparr>dt_device = d, dt_last_ts = 0, dt_today_tokens = 0, dt_today_events = 0\<rparr>"
proof -
  assume "d \<notin> ev_device ` set t"
  then have "filter (\<lambda>r. ev_device r = d) t = []" by (auto simp: filter_empty_conv)
  then show ?thesis by (simp add: events_shown_def max_shown)
qed

lemma views_show_devices:
  assumes "dv.uniq (rg_devices (hu_registry h))" "v \<in> set (device_views c now dayStart h history labels)"
  shows "shows_device c now dayStart h history labels v"
proof -
  define d where "d = dw_name v"
  define name where "name = deviceNames (hu_registry h) labels d"
  define has where "has = (\<lambda>d. d \<in> set (map lr_device (ProcReporters (hd_reports (hu_db h)) (now - procTTL))))"
  define running where "running = (\<lambda>d. length (filter (\<lambda>s. ls_device s = d) (RunningSessions (hd_sessions (hu_db h)) (now - procTTL))))"
  let ?events = "hd_events (hu_db h)" and ?row = "sql_select (\<lambda>r. dr_device_id r = d) (fleetDevices (hu_registry h) history)"
  let ?legacy = "map_option (legacy_view c now has running) (sql_select (\<lambda>s. dt_device s = d) (DeviceStatuses ?events dayStart))"
  have "view_of (device_views c now dayStart h history labels) d = Some v"
    unfolding d_def by (rule view_of_member [OF device_views_names(1) assms(2)])
  then obtain v0 where v0: "(case ?row of None \<Rightarrow> ?legacy
      | Some r \<Rightarrow> Some (register_view now r (case ?legacy of None \<Rightarrow> fresh_view has running d | Some v \<Rightarrow> v))) = Some v0"
    and v: "v0\<lparr>dw_display_name := name\<rparr> = v"
    unfolding device_views_of [OF assms(1)] Let_def has_def [symmetric] running_def [symmetric] name_def [symmetric] by auto
  let ?base = "case ?legacy of None \<Rightarrow> fresh_view has running d | Some v \<Rightarrow> v"
  have name_d: "dt_device (events_shown ?events dayStart d) = d" by (simp add: events_shown_def Let_def)
  have base: "dw_status ?base = events_shown ?events dayStart d" "dw_has_procs ?base = has d" "dw_running ?base = running d"
    by (simp_all add: select_status no_events_shown legacy_view_def fresh_view_def name_d)
  let ?state = "case ?row of
      None \<Rightarrow> dw_device_id v = [] \<and> dw_connection_state v = ''unknown'' \<and> dw_identity_status v = identityStatusFor c d \<and> dw_state v = activity_state now (dw_status v)
    | Some r \<Rightarrow> dw_device_id v = d \<and> dw_connection_state v = heartbeatState now (dr_last_seen_at r) (dr_revoked_at r) \<and>
        dw_identity_status v = ''registered'' \<and> dw_last_seen_at v = dr_last_seen_at r \<and>
        dw_state v = (if dw_connection_state v = ''online'' then ''active'' else if dw_connection_state v = ''stale'' then ''idle'' else ''stale'')"
  have "dw_status v = events_shown ?events dayStart d \<and> dw_has_procs v = has d \<and> dw_running v = running d \<and> dw_display_name v = name \<and> ?state"
  proof (cases ?row)
    case None
    with v0 have "v0 = legacy_view c now has running (events_shown ?events dayStart d)" by (simp add: select_status split: if_splits)
    with None show ?thesis by (simp add: v [symmetric] legacy_view_def name_d)
  next
    case (Some r)
    then have "dr_device_id r = d" by (auto simp: sql_select_def dest: find_Some_D)
    moreover have "v0 = register_view now r ?base" using v0 Some by simp
    ultimately show ?thesis using base by (simp only: Some v [symmetric]) (simp add: register_view_def Let_def)
  qed
  then have status: "dw_status v = events_shown ?events dayStart d" and procs: "dw_has_procs v = has d" "dw_running v = running d"
    and named: "dw_display_name v = name" and state: ?state by blast+
  have "has d = (\<exists>p\<in>set (hd_reports (hu_db h)). lr_device p = d \<and> lr_observed_at p \<ge> now - procTTL)"
    by (auto simp: has_def ProcReporters_def)
  moreover have "running d = length (filter (\<lambda>s. ls_device s = d \<and> ls_observed_at s \<ge> now - procTTL) (hd_sessions (hu_db h)))"
    by (simp add: running_def RunningSessions_def filter_sort conj_commute)
  ultimately show ?thesis
    using state named unfolding shows_device_def Let_def d_def [symmetric] name_def [symmetric] procs
    by (simp add: status events_shown_def Let_def max_shown)
qed

text \<open>
  C34. The fleet view shows every device once, with what is its own: each device with events and each registered device, save those an
  administrator has merged into a device that is still there; an unrevoked device is never hidden. Its entry has the tokens and the
  number of its own events of today and the time of its latest; says whether it reported its processes in the last ninety seconds and
  how many of its sessions were seen then; has its typed or registered name; and its state, from its own registry row, or
  \<open>unknown\<close> and by its latest event for a device without one. The tokens shown for today add up to those of today's events.
\<close>

theorem fleet_view_shows_each_device_once:
  assumes "dv.uniq (rg_devices (hu_registry h))"
  shows "distinct (map dw_name (device_views c now dayStart h history labels)) \<and>
    dw_name ` set (device_views c now dayStart h history labels) =
      ev_device ` set (hd_events (hu_db h)) \<union> dr_device_id ` set (fleetDevices (hu_registry h) history) \<and>
    (\<forall>r\<in>set (rg_devices (hu_registry h)). dr_revoked_at r = 0 \<longrightarrow>
      dr_device_id r \<in> dw_name ` set (device_views c now dayStart h history labels)) \<and>
    (\<forall>v\<in>set (device_views c now dayStart h history labels). shows_device c now dayStart h history labels v) \<and>
    (\<Sum>v\<leftarrow>device_views c now dayStart h history labels. dt_today_tokens (dw_status v)) =
      (\<Sum>r\<leftarrow>filter (\<lambda>r. ev_ts r \<ge> dayStart) (hd_events (hu_db h)). usage_tokens r)"
    (is "?once \<and> ?names \<and> ?kept \<and> ?shown \<and> ?sum")
proof (intro conjI)
  show ?once ?names by (rule device_views_names)+
  then show ?kept by (auto simp: fleetDevices_def consolidated_def ListDevices_def Let_def)
  show ?shown using views_show_devices [OF assms] by blast
  have named: "map (\<lambda>v. dt_today_tokens (dw_status v)) (map (\<lambda>v. v\<lparr>dw_display_name := n v\<rparr>) vs) = map (\<lambda>v. dt_today_tokens (dw_status v)) vs"
    for n vs
    by simp
  have legacy: "map (\<lambda>v. dt_today_tokens (dw_status v)) (map (legacy_view c now has running) ss) = map dt_today_tokens ss" for has running ss
    by (simp add: legacy_view_def)
  show ?sum
    unfolding device_views_def Let_def by (simp only: named legacy fold_add_sum statuses_sum)
qed

section \<open>After a heartbeat\<close>

text \<open>The registry row of a device after its heartbeat.\<close>

definition seen_device :: "heartbeat \<Rightarrow> int \<Rightarrow> device_record \<Rightarrow> device_record" where
  "seen_device hb t r = r\<lparr>dr_capabilities := hb_capabilities hb, dr_last_seen_at := max (dr_last_seen_at r) t\<rparr>"

lemma heartbeat_answered:
  assumes "registry_inv (hu_registry h)" "handleHeartbeatV2 sha256 faults t auth body h = (h', ReplyHeartbeat d at)"
  obtains hb r where "body = Decoded hb" "at = t" "d = hb_device_id hb" "deviceByID (hu_registry h) d = Some r" "dr_revoked_at r = 0"
    "deviceByID (hu_registry h') d = Some (seen_device hb t r)" "dv.uniq (rg_devices (hu_registry h'))"
    "hu_db h' = (case hb_process_state hb of None \<Rightarrow> hu_db h | Some p \<Rightarrow> fst (ApplyProcReport False (adopt_report hb t p) (hu_db h)))"
proof -
  obtain hb where hb: "body = Decoded hb" using assms(2) by (auto simp: handleHeartbeatV2_def split: decoded.splits)
  let ?hb1 = "hb\<lparr>hb_process_state := map_option (adopt_report hb t) (hb_process_state hb)\<rparr>"
  obtain r where auth: "authenticate sha256 (hf_auth faults) (hu_registry h) (hb_device_id hb) auth = Inr (Some r, True)"
    using assms(2) hb by (auto simp: handleHeartbeatV2_def Let_def split: sum.splits option.splits if_splits)
  then have dev: "deviceByID (hu_registry h) (hb_device_id hb) = Some r" "dr_revoked_at r = 0"
    by (auto simp: authenticate_def AuthenticateDevice_def Let_def split: option.splits if_splits)
  then have r: "dr_device_id r = hb_device_id hb" "r \<in> set (rg_devices (hu_registry h))" using deviceByID_Some by blast+
  let ?io = "\<lambda>x. x \<noteq> None"
  obtain r1 r2 where run: "SaveHeartbeat (hf_heartbeat faults) ?hb1 t (hu_registry h) = (r1, None)"
      "UpdateDeviceMetadata (hf_metadata faults) (dr_device_id r) (dr_display_name r) (hb_capabilities hb) r1 = (r2, None)"
      "TouchDevice (hf_touch faults) (dr_device_id r) t r2 = (hu_registry h', None)"
    and res: "d = dr_device_id r" "at = t"
    and db: "hu_db h' = (case hb_process_state hb of None \<Rightarrow> hu_db h | Some p \<Rightarrow> fst (ApplyProcReport (hf_procs faults) (adopt_report hb t p) (hu_db h)))"
      "\<forall>p. hb_process_state hb = Some p \<longrightarrow> snd (ApplyProcReport (hf_procs faults) (adopt_report hb t p) (hu_db h)) \<noteq> None"
    using assms(2) by (auto simp: handleHeartbeatV2_def hb auth notify_def Let_def split: option.splits if_splits prod.splits)
  have faults: "\<not> hf_metadata faults" "\<not> hf_touch faults"
    using run by (auto simp: UpdateDeviceMetadata_def TouchDevice_def update_device_def split: if_splits)
  have "rg_devices r1 = rg_devices (hu_registry h)" using SaveHeartbeat_devices run(1) by (metis fst_conv)
  moreover have "rg_devices r2 = map (\<lambda>x. if dr_device_id x = d then x\<lparr>dr_display_name := dr_display_name r, dr_capabilities := hb_capabilities hb\<rparr> else x) (rg_devices r1)"
    using arg_cong [OF run(2), of "\<lambda>x. rg_devices (fst x)"] faults by (simp add: UpdateDeviceMetadata_def update_device_rows res)
  moreover have "rg_devices (hu_registry h') = map (\<lambda>x. if dr_device_id x = d then x\<lparr>dr_last_seen_at := max (dr_last_seen_at x) t\<rparr> else x) (rg_devices r2)"
    using arg_cong [OF run(3), of "\<lambda>x. rg_devices (fst x)"] faults by (simp add: TouchDevice_def update_device_rows res)
  ultimately have rows: "rg_devices (hu_registry h') = map (\<lambda>x. if dr_device_id x = d
      then x\<lparr>dr_display_name := dr_display_name r, dr_capabilities := hb_capabilities hb, dr_last_seen_at := max (dr_last_seen_at x) t\<rparr> else x)
      (rg_devices (hu_registry h))" (is "_ = map ?f _")
    by simp
  have keys: "dr_device_id (?f x) = dr_device_id x" "dr_token_hash (?f x) = dr_token_hash x" for x by simp_all
  have uniq: "dv.uniq (rg_devices (hu_registry h'))"
    unfolding rows by (rule dv.uniq_map) (use assms(1) in \<open>auto simp: registry_inv_def device_conflict_def keys\<close>)
  have "?f r = seen_device hb t r" using res by (simp add: seen_device_def)
  then have "seen_device hb t r \<in> set (rg_devices (hu_registry h'))" unfolding rows set_map using r(2) by (rule rev_image_eqI [OF _ sym, rotated])
  from deviceByID_uniq [OF uniq this] have after: "deviceByID (hu_registry h') d = Some (seen_device hb t r)" by (simp add: seen_device_def res)
  show thesis
  proof (rule that [OF hb res(2) _ _ dev(2) after uniq])
    show "d = hb_device_id hb" "deviceByID (hu_registry h) d = Some r" using res r dev by simp_all
    show "hu_db h' = (case hb_process_state hb of None \<Rightarrow> hu_db h | Some p \<Rightarrow> fst (ApplyProcReport False (adopt_report hb t p) (hu_db h)))"
      using db by (auto simp: ApplyProcReport_def split: option.splits)
  qed
qed

lemma select_fleet:
  assumes "dv.uniq (rg_devices s)" "deviceByID s d = Some r" "dr_revoked_at r = 0"
  shows "sql_select (\<lambda>x. dr_device_id x = d) (fleetDevices s history) = Some r"
proof -
  have r: "r \<in> set (rg_devices s)" "dr_device_id r = d" using deviceByID_Some [OF assms(2)] by simp_all
  then have "r \<in> set (fleetDevices s history)" using assms(3) by (simp add: fleetDevices_def consolidated_def ListDevices_def Let_def)
  then show ?thesis using find_key [OF registered_ids [OF assms(1), of history]] r(2) unfolding sql_select_def by metis
qed

text \<open>The number of sessions the report of a heartbeat leaves on display.\<close>

lemma report_shown:
  assumes "procs_inv (hd_sessions db) (hd_reports db)" "last_report (hd_reports db) (hb_device_id hb) < t" "hb_device_id hb \<noteq> []" "0 < t"
    and "distinct (map ps_pid (pr_sessions p))" "now - procTTL \<le> t"
  shows "let db' = fst (ApplyProcReport False (adopt_report hb t p) db)
    in hb_device_id hb \<in> set (map lr_device (ProcReporters (hd_reports db') (now - procTTL))) \<and>
       length (filter (\<lambda>s. ls_device s = hb_device_id hb) (RunningSessions (hd_sessions db') (now - procTTL))) = length (pr_sessions p)"
proof -
  let ?rep = "adopt_report hb t p" and ?d = "hb_device_id hb"
  have rep: "pr_device ?rep = ?d" "pr_observed_at ?rep = t" "pr_sessions ?rep = pr_sessions p" by (simp_all add: adopt_report_def)
  obtain ss rs changed where app: "applyProcReportTx (hd_sessions db) (hd_reports db) ?rep = (ss, rs, changed)" by (metis prod_cases3)
  have db': "fst (ApplyProcReport False ?rep db) = db\<lparr>hd_sessions := ss, hd_reports := rs\<rparr>"
    using assms(3,4) by (simp add: ApplyProcReport_def rep app)
  have rs: "rs = sql_insert_replace report_conflict \<lparr>lr_device = ?d, lr_observed_at = t\<rparr> (hd_reports db)"
    using applyProcReportTx_eq [of ?rep "hd_reports db" "hd_sessions db"] assms(2-4) app by (auto simp: rep)
  have mine: "{s \<in> set ss. ls_device s = ?d} = session_row ?rep ` set (pr_sessions p)"
    using applyProcReportTx_snapshot [OF assms(1) _ _ _ _ app] assms(2-5) by (simp add: rep)
  have "ls.uniq ss" using applyProcReportTx_inv [OF assms(1) app] assms(5) by (simp add: rep procs_inv_def)
  then have "distinct ss" by (induction ss) (auto simp: session_conflict_def)
  let ?shown = "filter (\<lambda>s. ls_device s = ?d \<and> ls_observed_at s \<ge> now - procTTL) ss"
  have "set ?shown = session_row ?rep ` set (pr_sessions p)"
    using mine assms(6) by (auto simp: rep set_eq_iff)
  then have "length ?shown = card (session_row ?rep ` set (pr_sessions p))"
    using \<open>distinct ss\<close> by (metis distinct_card distinct_filter)
  also have "\<dots> = length (pr_sessions p)"
  proof -
    have "inj_on (session_row ?rep) (set (pr_sessions p))"
      using assms(5) by (auto simp: inj_on_def distinct_map dest: arg_cong [of _ _ ls_pid])
    then show ?thesis using assms(5) by (simp add: card_image distinct_card distinct_map)
  qed
  finally show ?thesis
    using assms(6) unfolding db' Let_def RunningSessions_def ProcReporters_def filter_sort
    by (auto simp: conj_commute rs set_insert_replace intro!: rev_image_eqI [of "\<lparr>lr_device = ?d, lr_observed_at = t\<rparr>"])
qed

text \<open>
  What the view makes of a heartbeat the hub has answered: for two minutes its device is online and seen no earlier
  than the receipt; for ninety seconds a process state that came with it decides the number of running sessions, unless
  the hub already held a report stamped later.
\<close>

lemma answered_heartbeat_shown:
  assumes "registry_inv (hu_registry h)" "procs_inv (hd_sessions (hu_db h)) (hd_reports (hu_db h))" "0 < t"
    and "handleHeartbeatV2 sha256 faults t auth (Decoded hb) h = (h', ReplyHeartbeat d at)"
  shows "\<exists>v. view_of (device_views c now dayStart h' history labels) d = Some v \<and> d = hb_device_id hb \<and> dw_device_id v = d \<and>
    dw_identity_status v = ''registered'' \<and> t \<le> dw_last_seen_at v \<and>
    (now \<le> t + heartbeatOnlineWindow \<longrightarrow> dw_connection_state v = ''online'' \<and> dw_state v = ''active'') \<and>
    (\<forall>p. hb_process_state hb = Some p \<and> last_report (hd_reports (hu_db h)) d < t \<and> distinct (map ps_pid (pr_sessions p)) \<and> now \<le> t + procTTL \<longrightarrow>
      dw_has_procs v \<and> dw_running v = length (pr_sessions p))"
proof -
  from heartbeat_answered [OF assms(1,4)] obtain r where d: "d = hb_device_id hb"
    and dev: "deviceByID (hu_registry h) d = Some r" "dr_revoked_at r = 0" "deviceByID (hu_registry h') d = Some (seen_device hb t r)"
    and uniq: "dv.uniq (rg_devices (hu_registry h'))"
    and db: "hu_db h' = (case hb_process_state hb of None \<Rightarrow> hu_db h | Some p \<Rightarrow> fst (ApplyProcReport False (adopt_report hb t p) (hu_db h)))"
    by (metis decoded.inject)
  define has where "has = (\<lambda>d. d \<in> set (map lr_device (ProcReporters (hd_reports (hu_db h')) (now - procTTL))))"
  define running where "running = (\<lambda>d. length (filter (\<lambda>s. ls_device s = d) (RunningSessions (hd_sessions (hu_db h')) (now - procTTL))))"
  have row: "sql_select (\<lambda>x. dr_device_id x = d) (fleetDevices (hu_registry h') history) = Some (seen_device hb t r)"
    by (rule select_fleet [OF uniq dev(3)]) (simp add: seen_device_def dev(2))
  have id: "dr_device_id r = d" using deviceByID_Some [OF dev(1)] by simp
  obtain v0 where v0: "view_of (device_views c now dayStart h' history labels) d =
      Some ((register_view now (seen_device hb t r) v0)\<lparr>dw_display_name := deviceNames (hu_registry h') labels d\<rparr>)"
    and shown: "dw_has_procs v0 = has d" "dw_running v0 = running d"
  proof
    let ?v0 = "case map_option (legacy_view c now has running)
        (sql_select (\<lambda>s. dt_device s = d) (DeviceStatuses (hd_events (hu_db h')) dayStart)) of
      None \<Rightarrow> fresh_view has running d | Some v \<Rightarrow> v"
    show "view_of (device_views c now dayStart h' history labels) d =
      Some ((register_view now (seen_device hb t r) ?v0)\<lparr>dw_display_name := deviceNames (hu_registry h') labels d\<rparr>)"
      unfolding device_views_of [OF uniq] Let_def row has_def running_def by simp
    show "dw_has_procs ?v0 = has d" "dw_running ?v0 = running d"
      by (auto simp: legacy_view_def fresh_view_def sql_select_def dest: find_Some_D split: option.split)
  qed
  have online: "heartbeatState now (dr_last_seen_at (seen_device hb t r)) (dr_revoked_at (seen_device hb t r)) = ''online''" if "now \<le> t + heartbeatOnlineWindow"
    using that assms(3) dev(2) by (simp add: heartbeatState_def seen_device_def Let_def)
  have procs: "has d \<and> running d = length (pr_sessions p)"
    if "hb_process_state hb = Some p" "last_report (hd_reports (hu_db h)) d < t" "distinct (map ps_pid (pr_sessions p))" "now \<le> t + procTTL" for p
  proof -
    have "hb_device_id hb \<noteq> []" using assms(4) by (auto simp: handleHeartbeatV2_def heartbeatValid_def validCanonicalUUID_def split: if_splits)
    from report_shown [OF assms(2) _ this assms(3) that(3), of now] that(2,4) show ?thesis
      unfolding has_def running_def db that(1) by (simp add: d Let_def)
  qed
  let ?w = "(register_view now (seen_device hb t r) v0)\<lparr>dw_display_name := deviceNames (hu_registry h') labels d\<rparr>"
  have fields: "dw_device_id ?w = d" "dw_identity_status ?w = ''registered''" "t \<le> dw_last_seen_at ?w"
      "dw_has_procs ?w = has d" "dw_running ?w = running d"
    by (simp_all add: register_view_def Let_def seen_device_def id shown)
  have state: "dw_connection_state ?w = ''online'' \<and> dw_state ?w = ''active''" if "now \<le> t + heartbeatOnlineWindow"
    using online [OF that] by (simp add: register_view_def Let_def)
  show ?thesis using v0 d fields state procs by (intro exI [of _ ?w]) (simp only: simp_thms, blast)
qed

theorem fleet_view_shows_each_device_once_witness:
  "dw_name ` set (device_views sample_loaded 2000 0 run_hub1 [] []) = {wit_uuid}"
proof -
  have "dv.uniq (rg_devices (hu_registry run_hub1))" by (simp add: run_hub1_def)
  from fleet_view_shows_each_device_once [OF this, of sample_loaded 2000 0 "[]" "[]"]
  show ?thesis
    by (simp add: fleetDevices_def ListDevices_def merge_aliases_def consolidated_def run_hub1_def empty_hub_def run_device_def)
qed

end
