(* ===== verification/Status_Quota.thy ===== *)
theory Status_Quota
  imports Enrollment Go_Filepath Capacity
begin

text \<open>
  How a Claude quota reading travels: \<open>internal/statusline/ratelimits.go\<close> leaves what Claude Code told the status line
  in a file, and \<open>internal/collect/statusquota.go\<close> turns the file into snapshots. The file's JSON codec, the file
  system's refusals and the clock, in nanoseconds, are inputs; a Go map is an association list.
\<close>

section \<open>Capture\<close>

record rate_window =
  rw_used :: float64
  rw_resets_at :: int

record status_rate_limits =
  rl_five_hour :: "rate_window option"
  rl_seven_day :: "rate_window option"
  rl_seven_day_sonnet :: "rate_window option"
  rl_seven_day_opus :: "rate_window option"

record rate_limits_file =
  rf_source :: string
  rf_observed_at :: int
  rf_windows :: "(string \<times> rate_window) list"

definition RateLimitsPath :: "string \<Rightarrow> string" where
  "RateLimitsPath cachePath = Join [Dir cachePath, ''rate-limits.json'']"

text \<open>A window of 0 % without a reset is a placeholder.\<close>

definition observed_window :: "rate_window \<Rightarrow> bool" where
  "observed_window w \<longleftrightarrow> \<not> (float_zero (rw_used w) \<and> rw_resets_at w = 0)"

definition captured_windows :: "status_rate_limits \<Rightarrow> (string \<times> rate_window) list" where
  "captured_windows rl =
     concat (map (\<lambda>(scope, w). case w of None \<Rightarrow> [] | Some v \<Rightarrow> if observed_window v then [(scope, v)] else [])
       [(''five_hour'', rl_five_hour rl), (''seven_day'', rl_seven_day rl), (''seven_day_sonnet'', rl_seven_day_sonnet rl),
        (''seven_day_opus'', rl_seven_day_opus rl)])"

definition millis :: "int \<Rightarrow> int" where
  "millis ns = ns div 1000000"

text \<open>Write to a temporary file, then rename; every failure is silent, and removes the file if it can.\<close>

definition captureRateLimits :: "(save_step \<Rightarrow> bool) \<Rightarrow> (rate_limits_file \<Rightarrow> string option) \<Rightarrow> (string \<Rightarrow> string) \<Rightarrow> string \<Rightarrow> string \<Rightarrow>
    status_rate_limits option \<Rightarrow> int \<Rightarrow> files \<Rightarrow> files" where
  "captureRateLimits fails marshal part temp cachePath limits now fs =
     (case limits of
        None \<Rightarrow> fs
      | Some rl \<Rightarrow>
          let windows = captured_windows rl; path = RateLimitsPath cachePath
          in if windows = [] then fs
             else if fails SvMkdir then fs
             else case marshal \<lparr>rf_source = ''claude-code'', rf_observed_at = millis now, rf_windows = windows\<rparr> of
               None \<Rightarrow> fs
             | Some body \<Rightarrow>
                 if fails SvCreate then fs
                 else if fails SvWrite then remove_temp fails temp (fs(temp \<mapsto> (part body, mode_600)))
                 else if fails SvClose \<or> fails SvRename then remove_temp fails temp (fs(temp \<mapsto> (body, mode_600)))
                 else fs(path \<mapsto> (body, mode_600), temp := None))"

section \<open>Collection\<close>

record status_reader =
  sr_device :: string
  sr_path :: string
  sr_last_observed :: int

definition NewStatusQuotaReader :: "string \<Rightarrow> string \<Rightarrow> status_reader" where
  "NewStatusQuotaReader device cachePath = \<lparr>sr_device = device, sr_path = RateLimitsPath cachePath, sr_last_observed = 0\<rparr>"

definition statusQuotaLimitID :: string where "statusQuotaLimitID = ''claude-account''"
definition maxQuotaAge :: int where "maxQuotaAge = 12 * 3600 * 1000000000"

definition windowMinutesFor :: "string \<Rightarrow> int" where
  "windowMinutesFor scope =
     (if scope = ''five_hour'' then 300
      else if scope = ''seven_day'' \<or> scope = ''seven_day_sonnet'' \<or> scope = ''seven_day_opus'' then 10080
      else 0)"

definition secondsToMillis :: "int \<Rightarrow> int" where
  "secondsToMillis sec = (if sec \<le> 0 then 0 else i64 (sec * 1000))"

definition status_snapshot :: "status_reader \<Rightarrow> int \<Rightarrow> string \<times> rate_window \<Rightarrow> quota_snapshot" where
  "status_snapshot r observedAt sw =
     \<lparr>q_device = sr_device r, q_source = ''claude-code'', q_limit_id = statusQuotaLimitID, q_scope = fst sw,
      q_window_minutes = windowMinutesFor (fst sw), q_used_percent = rw_used (snd sw),
      q_resets_at = secondsToMillis (rw_resets_at (snd sw)), q_observed_at = observedAt, q_plan_type = []\<rparr>"

definition status_Collect :: "(string \<Rightarrow> rate_limits_file option) \<Rightarrow> files \<Rightarrow> int \<Rightarrow> status_reader \<Rightarrow> status_reader \<times> quota_snapshot list" where
  "status_Collect unmarshal fs now r =
     (case fs (sr_path r) of
        None \<Rightarrow> (r, [])
      | Some (raw, mode) \<Rightarrow>
          (case unmarshal raw of
             None \<Rightarrow> (r, [])
           | Some f \<Rightarrow>
               if rf_observed_at f \<le> 0 \<or> rf_observed_at f = sr_last_observed r then (r, [])
               else if now - rf_observed_at f * 1000000 > maxQuotaAge then (r, [])
               else
                 let out = map (status_snapshot r (rf_observed_at f)) (rf_windows f)
                 in if out = [] then (r, []) else (r\<lparr>sr_last_observed := rf_observed_at f\<rparr>, out)))"

end
