(* ===== verification/Status_Quota_Properties.thy ===== *)
theory Status_Quota_Properties
  imports Status_Quota "HOL-Library.Sublist"
begin

text \<open>
  Captures and collections in any order over one file: what a reading reports was captured, whole, and is reported once.
\<close>

section \<open>A machine's quota channel\<close>

datatype quota_op = Capture "save_step \<Rightarrow> bool" "status_rate_limits option" int | Collect int

text \<open>What the two processes are run with: the JSON codec, what a failed write leaves, the temporary name, the cache path.\<close>

record quota_env =
  qv_marshal :: "rate_limits_file \<Rightarrow> string option"
  qv_unmarshal :: "string \<Rightarrow> rate_limits_file option"
  qv_part :: "string \<Rightarrow> string"
  qv_temp :: string
  qv_cache :: string

definition quota_env_ok :: "quota_env \<Rightarrow> bool" where
  "quota_env_ok e \<longleftrightarrow> (\<forall>f s. qv_marshal e f = Some s \<longrightarrow> qv_unmarshal e s = Some f) \<and> qv_temp e \<noteq> RateLimitsPath (qv_cache e)"

fun reader_step :: "quota_env \<Rightarrow> quota_op \<Rightarrow> files \<times> status_reader \<Rightarrow> files \<times> status_reader" where
  "reader_step e (Capture fails limits now) (fs, r) = (captureRateLimits fails (qv_marshal e) (qv_part e) (qv_temp e) (qv_cache e) limits now fs, r)"
| "reader_step e (Collect now) (fs, r) = (fs, fst (status_Collect (qv_unmarshal e) fs now r))"

text \<open>A report, with the time of the collection that made it.\<close>

fun reported :: "quota_env \<Rightarrow> quota_op \<Rightarrow> files \<times> status_reader \<Rightarrow> (int \<times> quota_snapshot list) list" where
  "reported e (Capture fails limits now) s = []"
| "reported e (Collect now) (fs, r) = (let out = snd (status_Collect (qv_unmarshal e) fs now r) in if out = [] then [] else [(now, out)])"

definition reports :: "quota_env \<Rightarrow> quota_op list \<Rightarrow> files \<times> status_reader \<Rightarrow> (int \<times> quota_snapshot list) list" where
  "reports e = collect_steps (reader_step e) (reported e)"

text \<open>The captures of a history that had something to write, whether or not they got it written.\<close>

fun captures :: "quota_op list \<Rightarrow> (status_rate_limits \<times> int) list" where
  "captures [] = []"
| "captures (Capture fails limits now # ops) = (case limits of None \<Rightarrow> captures ops | Some rl \<Rightarrow> (rl, now) # captures ops)"
| "captures (Collect now # ops) = captures ops"

fun capture_times :: "quota_op list \<Rightarrow> int list" where
  "capture_times [] = []"
| "capture_times (Capture fails limits now # ops) = millis now # capture_times ops"
| "capture_times (Collect now # ops) = capture_times ops"

definition captured_file :: "status_rate_limits \<Rightarrow> int \<Rightarrow> rate_limits_file" where
  "captured_file rl now = \<lparr>rf_source = ''claude-code'', rf_observed_at = millis now, rf_windows = captured_windows rl\<rparr>"

definition report_of :: "status_reader \<Rightarrow> rate_limits_file \<Rightarrow> quota_snapshot list" where
  "report_of r f = map (status_snapshot r (rf_observed_at f)) (rf_windows f)"

text \<open>The report of a capture: its windows, all of them, at a time when they still stand for something.\<close>

definition reports_capture :: "status_reader \<Rightarrow> int \<times> quota_snapshot list \<Rightarrow> status_rate_limits \<times> int \<Rightarrow> bool" where
  "reports_capture r report capture \<longleftrightarrow>
     snd report = map (status_snapshot r (millis (snd capture))) (captured_windows (fst capture)) \<and> snd report \<noteq> [] \<and>
     fst report - millis (snd capture) * 1000000 \<le> maxQuotaAge"

text \<open>The stamp all readings of a report carry.\<close>

definition report_time :: "int \<times> quota_snapshot list \<Rightarrow> int" where
  "report_time report = q_observed_at (hd (snd report))"

section \<open>One step\<close>

text \<open>What the file is read as.\<close>

definition held :: "quota_env \<Rightarrow> files \<Rightarrow> rate_limits_file option" where
  "held e fs = (case fs (RateLimitsPath (qv_cache e)) of None \<Rightarrow> None | Some (raw, mode) \<Rightarrow> qv_unmarshal e raw)"

lemma capture_held:
  assumes "quota_env_ok e"
  shows "held e (captureRateLimits fails (qv_marshal e) (qv_part e) (qv_temp e) (qv_cache e) limits now fs) = held e fs \<or>
    (\<exists>rl. limits = Some rl \<and> captured_windows rl \<noteq> [] \<and>
      held e (captureRateLimits fails (qv_marshal e) (qv_part e) (qv_temp e) (qv_cache e) limits now fs) = Some (captured_file rl now))"
  using assms
  by (auto simp: captureRateLimits_def held_def quota_env_ok_def remove_temp_def captured_file_def Let_def split: option.splits)

lemma capture_succeeds:
  assumes "quota_env_ok e" "\<And>st. \<not> fails st" "captured_windows rl \<noteq> []" "qv_marshal e (captured_file rl now) \<noteq> None"
  shows "held e (captureRateLimits fails (qv_marshal e) (qv_part e) (qv_temp e) (qv_cache e) (Some rl) now fs) = Some (captured_file rl now)"
  using assms by (auto simp: captureRateLimits_def held_def quota_env_ok_def captured_file_def Let_def)

lemma collect_held:
  assumes "sr_path r = RateLimitsPath (qv_cache e)"
  shows "status_Collect (qv_unmarshal e) fs now r =
    (case held e fs of
       None \<Rightarrow> (r, [])
     | Some f \<Rightarrow> if rf_observed_at f \<le> 0 \<or> rf_observed_at f = sr_last_observed r \<or> now - rf_observed_at f * 1000000 > maxQuotaAge \<or> rf_windows f = []
         then (r, []) else (r\<lparr>sr_last_observed := rf_observed_at f\<rparr>, report_of r f))"
  using assms by (auto simp: status_Collect_def held_def report_of_def Let_def split: option.splits)

lemma report_of_again [simp]: "report_of (r\<lparr>sr_last_observed := n\<rparr>) f = report_of r f"
  by (simp add: report_of_def status_snapshot_def)

lemma status_snapshot_device: "sr_device r = sr_device r' \<Longrightarrow> status_snapshot r = status_snapshot r'"
  by (simp add: status_snapshot_def fun_eq_iff)

lemma status_snapshot_again [simp]: "status_snapshot (r\<lparr>sr_last_observed := n\<rparr>) = status_snapshot r"
  by (rule status_snapshot_device) simp

lemma reports_capture_again [simp]: "reports_capture (r\<lparr>sr_last_observed := n\<rparr>) = reports_capture r"
  by (simp add: reports_capture_def fun_eq_iff)

lemma report_time_of: "rf_windows f \<noteq> [] \<Longrightarrow> report_time (at, report_of r f) = rf_observed_at f"
  by (cases "rf_windows f") (simp_all add: report_time_def report_of_def status_snapshot_def)

section \<open>Histories\<close>

text \<open>The file is of a capture no later than \<open>lo\<close> and no older than the last report.\<close>

definition held_upto :: "quota_env \<Rightarrow> int \<Rightarrow> files \<times> status_reader \<Rightarrow> bool" where
  "held_upto e lo s \<longleftrightarrow> sr_path (snd s) = RateLimitsPath (qv_cache e) \<and> sr_last_observed (snd s) \<le> lo \<and>
     (\<forall>f. held e (fst s) = Some f \<longrightarrow> sr_last_observed (snd s) \<le> rf_observed_at f \<and> rf_observed_at f \<le> lo)"

lemma reports_ordered:
  assumes "quota_env_ok e" "held_upto e lo s" "sorted_wrt (<) (lo # capture_times ops)"
  shows "sorted_wrt (<) (sr_last_observed (snd s) # map report_time (reports e ops s))"
  using assms(2,3)
proof (induction ops arbitrary: s lo)
  case (Cons op ops)
  obtain fs r where s: "s = (fs, r)" by (cases s)
  show ?case
  proof (cases op)
    case (Capture fails limits now)
    let ?fs = "captureRateLimits fails (qv_marshal e) (qv_part e) (qv_temp e) (qv_cache e) limits now fs"
    have "lo < millis now" "sorted_wrt (<) (millis now # capture_times ops)" using Cons.prems(2) Capture by auto
    moreover have "held_upto e (millis now) (?fs, r)"
      using capture_held [OF assms(1), of fails limits now fs] Cons.prems(1) \<open>lo < millis now\<close>
      by (auto simp: held_upto_def s captured_file_def)
    ultimately show ?thesis using Cons.IH [of "millis now" "(?fs, r)"] by (simp add: reports_def Capture s)
  next
    case (Collect now)
    show ?thesis
    proof (cases "snd (status_Collect (qv_unmarshal e) fs now r) = []")
      case True
      then have "status_Collect (qv_unmarshal e) fs now r = (r, [])"
        using Cons.prems(1) by (auto simp: collect_held held_upto_def s report_of_def split: option.splits if_splits)
      then have "reports e (op # ops) s = reports e ops s" by (simp add: reports_def Collect s)
      with Cons.IH [OF Cons.prems(1)] Cons.prems(2) show ?thesis by (auto simp: Collect)
    next
      case False
      then obtain f where f: "held e fs = Some f" "rf_observed_at f \<noteq> sr_last_observed r" "rf_windows f \<noteq> []"
        and run: "status_Collect (qv_unmarshal e) fs now r = (r\<lparr>sr_last_observed := rf_observed_at f\<rparr>, report_of r f)"
        using Cons.prems(1) by (auto simp: collect_held held_upto_def s split: option.splits if_splits)
      let ?s = "(fs, r\<lparr>sr_last_observed := rf_observed_at f\<rparr>)"
      have outs: "reports e (op # ops) s = (now, report_of r f) # reports e ops ?s"
        using f(3) by (simp add: reports_def Collect s run report_of_def)
      have "sr_last_observed r < rf_observed_at f" using f Cons.prems(1) by (force simp: held_upto_def s)
      moreover have "held_upto e lo ?s" using f Cons.prems(1) by (auto simp: held_upto_def s)
      ultimately show ?thesis
        using Cons.IH [of lo ?s] Cons.prems(2) f unfolding outs by (fastforce simp: Collect s report_time_of)
    qed
  qed
qed (simp add: reports_def)

text \<open>
  Each report is matched with the capture it is of. \<open>pending\<close> is the capture in the file, while it has not been reported.
\<close>

definition file_of :: "quota_env \<Rightarrow> (status_rate_limits \<times> int) list \<Rightarrow> files \<times> status_reader \<Rightarrow> bool" where
  "file_of e pending s \<longleftrightarrow> sr_path (snd s) = RateLimitsPath (qv_cache e) \<and>
     (case held e (fst s) of
        None \<Rightarrow> pending = []
      | Some f \<Rightarrow> \<exists>rl now. f = captured_file rl now \<and> (pending = [(rl, now)] \<or> (pending = [] \<and> sr_last_observed (snd s) = millis now)))"

lemma reports_matched:
  assumes "quota_env_ok e" "file_of e pending s"
  shows "\<exists>caps. subseq caps (pending @ captures ops) \<and> list_all2 (reports_capture (snd s)) (reports e ops s) caps"
  using assms(2)
proof (induction ops arbitrary: s pending)
  case Nil
  show ?case by (intro exI [of _ "[]"]) (simp add: reports_def)
next
  case (Cons op ops)
  obtain fs r where s: "s = (fs, r)" by (cases s)
  show ?case
  proof (cases op)
    case (Capture fails limits now)
    let ?fs = "captureRateLimits fails (qv_marshal e) (qv_part e) (qv_temp e) (qv_cache e) limits now fs"
    have outs: "reports e (op # ops) s = reports e ops (?fs, r)" by (simp add: reports_def Capture s)
    show ?thesis
    proof (cases "held e ?fs = held e fs")
      case True
      then have "file_of e pending (?fs, r)" using Cons.prems by (auto simp: file_of_def s split: option.splits)
      from Cons.IH [OF this] obtain caps where "subseq caps (pending @ captures ops)" "list_all2 (reports_capture r) (reports e ops (?fs, r)) caps"
        by auto
      moreover have "subseq (pending @ captures ops) (pending @ captures (op # ops))"
        by (simp add: Capture subseq_append' list_emb_Cons del: subseq_append split: option.split)
      ultimately show ?thesis unfolding outs by (auto simp: s intro: subseq_order.trans)
    next
      case False
      with capture_held [OF assms(1), of fails limits now fs] obtain rl where rl: "limits = Some rl" "held e ?fs = Some (captured_file rl now)"
        by auto
      then have "file_of e [(rl, now)] (?fs, r)" using Cons.prems by (auto simp: file_of_def s)
      from Cons.IH [OF this] obtain caps where "subseq caps ((rl, now) # captures ops)" "list_all2 (reports_capture r) (reports e ops (?fs, r)) caps"
        by auto
      then show ?thesis unfolding outs by (auto simp: s Capture rl intro: subseq_drop_many)
    qed
  next
    case (Collect now)
    show ?thesis
    proof (cases "snd (status_Collect (qv_unmarshal e) fs now r) = []")
      case True
      then have "status_Collect (qv_unmarshal e) fs now r = (r, [])"
        using Cons.prems by (auto simp: collect_held file_of_def s report_of_def split: option.splits if_splits)
      then have "reports e (op # ops) s = reports e ops s" by (simp add: reports_def Collect s)
      with Cons.IH [OF Cons.prems] show ?thesis by (simp add: Collect)
    next
      case False
      have path: "sr_path r = RateLimitsPath (qv_cache e)" using Cons.prems by (simp add: file_of_def s)
      from False obtain f where f: "held e fs = Some f" "rf_observed_at f \<noteq> sr_last_observed r" "rf_windows f \<noteq> []"
          "now - rf_observed_at f * 1000000 \<le> maxQuotaAge"
        and run: "status_Collect (qv_unmarshal e) fs now r = (r\<lparr>sr_last_observed := rf_observed_at f\<rparr>, report_of r f)"
        by (auto simp: collect_held [OF path] split: option.splits if_splits)
      then obtain rl at where cap: "f = captured_file rl at" "pending = [(rl, at)]" using Cons.prems by (auto simp: file_of_def s captured_file_def)
      let ?r = "r\<lparr>sr_last_observed := millis at\<rparr>"
      have outs: "reports e (op # ops) s = (now, report_of r f) # reports e ops (fs, ?r)"
        using f(3) by (simp add: reports_def Collect s run report_of_def cap(1)) (simp add: captured_file_def)
      have "reports_capture r (now, report_of r f) (rl, at)"
        using f(3,4) by (simp add: reports_capture_def report_of_def cap(1) captured_file_def)
      moreover have "file_of e [] (fs, ?r)" using f(1) path by (auto simp: file_of_def cap(1))
      from Cons.IH [OF this] obtain caps where "subseq caps (captures ops)" "list_all2 (reports_capture r) (reports e ops (fs, ?r)) caps"
        by auto
      ultimately show ?thesis unfolding outs cap(2) by (intro exI [of _ "(rl, at) # caps"]) (simp add: s Collect)
    qed
  qed
qed

lemma collect_steps_append: "collect_steps step f (cs @ ds) s = collect_steps step f cs s @ collect_steps step f ds (run_steps step cs s)"
  by (induction cs arbitrary: s) auto

lemma capture_times_append: "capture_times (ops @ ops') = capture_times ops @ capture_times ops'"
  by (induction ops rule: capture_times.induct) auto

text \<open>The stamps the reader and the file have come from captures.\<close>

lemma stamps_captured:
  assumes "quota_env_ok e" "held e fs = None"
  shows "case run_steps (reader_step e) ops (fs, NewStatusQuotaReader device (qv_cache e)) of (fs', r) \<Rightarrow>
    sr_path r = RateLimitsPath (qv_cache e) \<and> sr_device r = device \<and> sr_last_observed r \<in> insert 0 (set (capture_times ops)) \<and>
    (\<forall>f. held e fs' = Some f \<longrightarrow> rf_observed_at f \<in> set (capture_times ops))"
proof (induction ops rule: rev_induct)
  case Nil
  show ?case using assms(2) by (simp add: NewStatusQuotaReader_def)
next
  case (snoc op ops)
  obtain fs' r where run: "run_steps (reader_step e) ops (fs, NewStatusQuotaReader device (qv_cache e)) = (fs', r)" by fastforce
  show ?case
  proof (cases op)
    case (Capture fails limits now)
    show ?thesis
      using snoc capture_held [OF assms(1), of fails limits now fs'] by (auto simp: run run_steps_append capture_times_append Capture captured_file_def)
  next
    case (Collect now)
    show ?thesis using snoc by (auto simp: run run_steps_append capture_times_append Collect collect_held split: option.split)
  qed
qed

lemma fresh_capture_reported:
  assumes "quota_env_ok e" "held e fs = None" "\<And>st. \<not> fails st" "captured_windows rl \<noteq> []" "qv_marshal e (captured_file rl now) \<noteq> None"
    and "0 < millis now" "millis now \<notin> set (capture_times ops)" "at - millis now * 1000000 \<le> maxQuotaAge"
  shows "let r = NewStatusQuotaReader device (qv_cache e)
    in reports e (ops @ [Capture fails (Some rl) now, Collect at]) (fs, r) =
       reports e ops (fs, r) @ [(at, map (status_snapshot r (millis now)) (captured_windows rl))]"
proof -
  let ?r = "NewStatusQuotaReader device (qv_cache e)"
  obtain fs' r where run: "run_steps (reader_step e) ops (fs, ?r) = (fs', r)" by fastforce
  have r: "sr_path r = RateLimitsPath (qv_cache e)" "sr_device r = device" "sr_last_observed r \<noteq> millis now"
    using stamps_captured [OF assms(1,2), of device ops] assms(6,7) by (auto simp: run)
  let ?fs = "captureRateLimits fails (qv_marshal e) (qv_part e) (qv_temp e) (qv_cache e) (Some rl) now fs'"
  have "held e ?fs = Some (captured_file rl now)" by (rule capture_succeeds [OF assms(1,3-5)])
  then have "snd (status_Collect (qv_unmarshal e) ?fs at r) = map (status_snapshot r (millis now)) (captured_windows rl)"
    using assms(4,6,8) r(3) by (simp add: collect_held [OF r(1)] captured_file_def report_of_def)
  moreover have "status_snapshot r = status_snapshot ?r" by (rule status_snapshot_device) (simp add: r(2) NewStatusQuotaReader_def)
  ultimately show ?thesis using assms(4) by (simp add: reports_def collect_steps_append run)
qed

text \<open>
  C36. Quota readings arrive whole, in order and once. Between two starts of the collector, whatever the status line and the collector do, in any
  order and with any failures of the writes: the reports are of some of the captures, each of one and in their order, so none is
  reported twice; a report is exactly the windows of its capture that stood for something, and is made no later than twelve
  hours after it. Where the status line's clock moves on between captures, the stamps of the reports go forward too; and a capture that is
  written, with a stamp of its own, is reported by a collection within those hours.
\<close>

theorem quota_readings_are_reported_once:
  assumes "quota_env_ok e" "held e fs = None"
  shows "let r = NewStatusQuotaReader device (qv_cache e)
    in (\<exists>caps. subseq caps (captures ops) \<and> list_all2 (reports_capture r) (reports e ops (fs, r)) caps) \<and>
       (sorted_wrt (<) (0 # capture_times ops) \<longrightarrow> sorted_wrt (<) (map report_time (reports e ops (fs, r)))) \<and>
       (\<forall>fails rl now at. (\<forall>st. \<not> fails st) \<and> captured_windows rl \<noteq> [] \<and> qv_marshal e (captured_file rl now) \<noteq> None \<and>
          0 < millis now \<and> millis now \<notin> set (capture_times ops) \<and> at - millis now * 1000000 \<le> maxQuotaAge \<longrightarrow>
          reports e (ops @ [Capture fails (Some rl) now, Collect at]) (fs, r) =
            reports e ops (fs, r) @ [(at, map (status_snapshot r (millis now)) (captured_windows rl))])"
proof -
  let ?r = "NewStatusQuotaReader device (qv_cache e)"
  have "file_of e [] (fs, ?r)" "held_upto e 0 (fs, ?r)"
    using assms(2) by (simp_all add: file_of_def held_upto_def NewStatusQuotaReader_def)
  then show ?thesis
    using reports_matched [OF assms(1), of "[]" "(fs, ?r)" ops] reports_ordered [OF assms(1), of 0 "(fs, ?r)" ops]
      fresh_capture_reported [OF assms] by (simp add: Let_def)
qed

definition quota_wit_limits :: status_rate_limits where
  "quota_wit_limits = \<lparr>rl_five_hour = Some \<lparr>rw_used = 1, rw_resets_at = 5\<rparr>, rl_seven_day = Some \<lparr>rw_used = 0, rw_resets_at = 0\<rparr>,
     rl_seven_day_sonnet = None, rl_seven_day_opus = None\<rparr>"

definition quota_wit_env :: quota_env where
  "quota_wit_env = \<lparr>qv_marshal = (\<lambda>f. if f = captured_file quota_wit_limits 7000000 then Some ''f'' else None),
     qv_unmarshal = (\<lambda>s. if s = ''f'' then Some (captured_file quota_wit_limits 7000000) else None),
     qv_part = id, qv_temp = ''t'', qv_cache = ''/c/x''\<rparr>"

definition quota_wit_ops :: "quota_op list" where
  "quota_wit_ops = [Collect 1, Capture (\<lambda>_. False) (Some quota_wit_limits) 7000000, Collect 8000000, Collect 9000000]"

lemma quota_wit_path: "RateLimitsPath (qv_cache quota_wit_env) = ''/c/rate-limits.json''"
  by (simp add: quota_wit_env_def) code_simp

lemma quota_wit_ok: "quota_env_ok quota_wit_env"
  using quota_wit_path by (simp add: quota_env_ok_def) (simp add: quota_wit_env_def)

lemma quota_wit_windows: "captured_windows quota_wit_limits = [(''five_hour'', \<lparr>rw_used = 1, rw_resets_at = 5\<rparr>)]"
  by (simp add: captured_windows_def quota_wit_limits_def observed_window_def float_zero_def)

lemma quota_wit_reports: "length (reports quota_wit_env quota_wit_ops (\<lambda>_. None, NewStatusQuotaReader ''d'' (qv_cache quota_wit_env))) = 1"
proof -
  let ?fs = "captureRateLimits (\<lambda>_. False) (qv_marshal quota_wit_env) (qv_part quota_wit_env) (qv_temp quota_wit_env) (qv_cache quota_wit_env)
    (Some quota_wit_limits) 7000000 (\<lambda>_. None)"
  let ?r = "NewStatusQuotaReader ''d'' (qv_cache quota_wit_env)"
  have none: "held quota_wit_env (\<lambda>_. None) = None" by (simp add: held_def)
  have some: "held quota_wit_env ?fs = Some (captured_file quota_wit_limits 7000000)"
    by (rule capture_succeeds [OF quota_wit_ok]) (simp_all add: quota_wit_windows quota_wit_env_def)
  have run: "status_Collect (qv_unmarshal quota_wit_env) (\<lambda>_. None) 1 ?r = (?r, [])"
    "status_Collect (qv_unmarshal quota_wit_env) ?fs 8000000 ?r =
       (?r\<lparr>sr_last_observed := 7\<rparr>, report_of ?r (captured_file quota_wit_limits 7000000))"
    "status_Collect (qv_unmarshal quota_wit_env) ?fs 9000000 (?r\<lparr>sr_last_observed := 7\<rparr>) = (?r\<lparr>sr_last_observed := 7\<rparr>, [])"
    by (simp_all add: collect_held none some NewStatusQuotaReader_def captured_file_def millis_def quota_wit_windows maxQuotaAge_def)
  have "report_of ?r (captured_file quota_wit_limits 7000000) \<noteq> []" by (simp add: report_of_def captured_file_def quota_wit_windows)
  with run show ?thesis by (simp add: reports_def quota_wit_ops_def)
qed

theorem quota_readings_are_reported_once_witness:
  "let r = NewStatusQuotaReader ''d'' (qv_cache quota_wit_env)
   in \<exists>report. reports quota_wit_env quota_wit_ops (\<lambda>_. None, r) = [report] \<and> reports_capture r report (quota_wit_limits, 7000000)"
proof -
  let ?r = "NewStatusQuotaReader ''d'' (qv_cache quota_wit_env)"
  obtain report where out: "reports quota_wit_env quota_wit_ops (\<lambda>_. None, ?r) = [report]"
    using quota_wit_reports by (auto simp: length_Suc_conv)
  have "captures quota_wit_ops = [(quota_wit_limits, 7000000)]" by (simp add: quota_wit_ops_def)
  then have "reports_capture ?r report (quota_wit_limits, 7000000)"
    using quota_readings_are_reported_once [OF quota_wit_ok, of "\<lambda>_. None" "''d''" quota_wit_ops] out
    by (auto simp: held_def list_all2_Cons1 Let_def split: if_splits)
  then show ?thesis using out unfolding Let_def by blast
qed

end
