(* ===== verification/Procs.thy ===== *)
theory Procs
  imports Go_Runes Go_Filepath Event_Model "HOL-Library.Product_Lexorder"
begin

text \<open>
  \<open>internal/collect/procs.go\<close>, \<open>procs_unix.go\<close> and \<open>procs_linux.go\<close>: from the process table to the sessions an agent
  reports. What \<open>ps\<close> printed, what \<open>/proc\<close> holds and the parser of a start time are inputs; \<open>None\<close> is an error.
\<close>

record proc_info =
  pi_pid :: int
  pi_started_at :: int
  pi_command :: string

section \<open>Reading the table\<close>

definition parse_ps_line :: "(string \<Rightarrow> int option) \<Rightarrow> string \<Rightarrow> proc_info option" where
  "parse_ps_line parse_time line =
     (let fields = Fields line
      in if length fields < 7 then None
         else case Atoi (hd fields) of
           None \<Rightarrow> None
         | Some pid \<Rightarrow>
             Some \<lparr>pi_pid = pid,
               pi_started_at = (case parse_time (join_with '' '' (take 5 (drop 1 fields))) of Some t \<Rightarrow> t | None \<Rightarrow> 0),
               pi_command = join_with '' '' (drop 6 fields)\<rparr>)"

definition parsePS :: "(string \<Rightarrow> int option) \<Rightarrow> string \<Rightarrow> proc_info list" where
  "parsePS parse_time out = List.map_filter (parse_ps_line parse_time) (split_on (CHR 0x0A) out)"

definition unix_listProcs :: "(string \<Rightarrow> int option) \<Rightarrow> string option \<Rightarrow> proc_info list option" where
  "unix_listProcs parse_time ps = map_option (parsePS parse_time) ps"

text \<open>An entry of \<open>/proc\<close>: its name, the bytes of its \<open>cmdline\<close>, the time of the directory.\<close>

record proc_entry =
  pe_name :: string
  pe_cmdline :: "string option"
  pe_mtime :: "int option"

definition linux_proc :: "proc_entry \<Rightarrow> proc_info option" where
  "linux_proc e =
     (case Atoi (pe_name e) of
        None \<Rightarrow> None
      | Some pid \<Rightarrow>
          (case pe_cmdline e of
             None \<Rightarrow> None
           | Some raw \<Rightarrow>
               if raw = [] then None
               else Some \<lparr>pi_pid = pid, pi_started_at = (case pe_mtime e of Some t \<Rightarrow> t | None \<Rightarrow> 0),
                 pi_command = TrimSpace (map (\<lambda>c. if c = CHR 0x00 then CHR '' '' else c) raw)\<rparr>))"

definition linux_listProcs :: "proc_entry list option \<Rightarrow> proc_info list option" where
  "linux_listProcs entries = map_option (List.map_filter linux_proc) entries"

section \<open>Matching a command line\<close>

fun split_args :: "bool \<Rightarrow> string \<Rightarrow> string list \<Rightarrow> string list" where
  "split_args quoted cur [] = flush cur"
| "split_args quoted cur (r # rs) =
     (if r = [CHR 0x22] then split_args (\<not> quoted) cur rs
      else if \<not> quoted \<and> (r = '' '' \<or> r = [CHR 0x09]) then flush cur @ split_args quoted [] rs
      else split_args quoted (cur @ rune_text r) rs)"

definition splitArgs :: "string \<Rightarrow> string list" where
  "splitArgs command = split_args False [] (raw_runes command)"

definition shells :: "string list" where
  "shells = [''sh'', ''bash'', ''zsh'', ''dash'', ''ash'', ''ksh'', ''fish'', ''cmd'', ''wscript'', ''cscript'', ''powershell'', ''pwsh'']"

definition serverSubcommands :: "string list" where
  "serverSubcommands = [''app-server'', ''mcp-server'', ''mcp'']"

definition pathParts :: "string \<Rightarrow> string list" where
  "pathParts token = FieldsFunc token (\<lambda>r. r = ''/'' \<or> r = [CHR 0x5C])"

definition programName :: "string \<Rightarrow> string" where
  "programName token = (let parts = pathParts token in if parts = [] then [] else TrimSuffix (last parts) ''.exe'')"

definition isShellWrapper :: "string list \<Rightarrow> bool" where
  "isShellWrapper args \<longleftrightarrow> args \<noteq> [] \<and> programName (hd args) \<in> set shells"

definition isServerMode :: "string list \<Rightarrow> bool" where
  "isServerMode args \<longleftrightarrow> list_ex (\<lambda>f. f \<in> set serverSubcommands) args"

definition tokenIsBinary :: "string \<Rightarrow> string \<Rightarrow> bool" where
  "tokenIsBinary token name =
     (let parts = pathParts token; base = last parts; n = length parts
      in if parts = [] then False
         else if base = name \<or> TrimSuffix base ''.exe'' = name \<or> TrimSuffix base ''.js'' = name then True
         else n \<ge> 3 \<and> parts ! (n - 2) = ''versions'' \<and> parts ! (n - 3) = name)"

definition commandRuns :: "string list \<Rightarrow> string \<Rightarrow> bool" where
  "commandRuns args name \<longleftrightarrow> list_ex (\<lambda>f. tokenIsBinary f name) (take 2 args)"

definition tool_of_args :: "string list \<Rightarrow> string" where
  "tool_of_args args =
     (if isServerMode args \<or> isShellWrapper args then []
      else if commandRuns args ''claude'' then ''claude-code''
      else if commandRuns args ''codex'' then ''codex''
      else [])"

definition toolFor :: "string \<Rightarrow> string" where
  "toolFor command = tool_of_args (splitArgs command)"

definition isSelfOrHelper :: "string \<Rightarrow> int \<Rightarrow> int \<Rightarrow> bool" where
  "isSelfOrHelper command selfPID pid \<longleftrightarrow> pid = selfPID \<or> str_contains command ''grep '' \<or> str_contains command ''omnitoken ''"

section \<open>The report\<close>

definition agent_session :: "int \<Rightarrow> proc_info \<Rightarrow> proc_session option" where
  "agent_session selfPID p =
     (if isSelfOrHelper (pi_command p) selfPID (pi_pid p) then None
      else if toolFor (pi_command p) = [] then None
      else Some \<lparr>ps_pid = pi_pid p, ps_source = toolFor (pi_command p), ps_started_at = pi_started_at p\<rparr>)"

definition agentSessions :: "proc_info list \<Rightarrow> int \<Rightarrow> proc_session list" where
  "agentSessions procs selfPID = sort_key (\<lambda>s. (ps_started_at s, ps_pid s)) (List.map_filter (agent_session selfPID) procs)"

text \<open>The report and whether the table could be read.\<close>

definition LiveProcesses :: "proc_info list option \<Rightarrow> int \<Rightarrow> string \<Rightarrow> int \<Rightarrow> proc_report \<times> bool" where
  "LiveProcesses procs selfPID device now =
     (case procs of
        None \<Rightarrow> (\<lparr>pr_device = device, pr_observed_at = now, pr_sessions = []\<rparr>, False)
      | Some ps \<Rightarrow> (\<lparr>pr_device = device, pr_observed_at = now, pr_sessions = agentSessions ps selfPID\<rparr>, True))"

section \<open>Facts\<close>

lemma split_args_plain:
  assumes "valid_utf8 w" "CHR 0x22 \<notin> set w"
  shows "split_args True cur (raw_runes w @ rs) = split_args True (cur @ w) rs"
proof -
  have "split_args True cur (ws @ rs) = split_args True (cur @ concat ws) rs"
    if "list_all (\<lambda>r. rune_len r \<noteq> 0) ws" "[CHR 0x22] \<notin> set ws" for ws
    using that by (induction ws arbitrary: cur) (auto simp: rune_text_def)
  moreover have "[CHR 0x22] \<notin> set (raw_runes w)"
  proof
    assume "[CHR 0x22] \<in> set (raw_runes w)"
    then have "CHR 0x22 \<in> set (concat (raw_runes w))" unfolding set_concat by (rule UnionI [OF imageI]) simp
    then show False using assms(2) by (simp add: concat_raw_runes)
  qed
  ultimately show ?thesis using assms(1) by (simp add: valid_utf8_def concat_raw_runes)
qed

text \<open>A command line in which every argument is quoted.\<close>

definition quote_arg :: "string \<Rightarrow> string" where
  "quote_arg w = [CHR 0x22] @ w @ [CHR 0x22]"

definition quote_args :: "string list \<Rightarrow> string" where
  "quote_args ws = join_with '' '' (map quote_arg ws)"

lemma raw_runes_quote: "valid_utf8 w \<Longrightarrow> raw_runes (quote_arg w @ s) = [CHR 0x22] # raw_runes w @ [CHR 0x22] # raw_runes s"
  by (simp add: quote_arg_def raw_runes_ascii byte_of_def raw_runes_append)

lemma split_args_quote:
  assumes "valid_utf8 w" "CHR 0x22 \<notin> set w"
  shows "split_args False cur (raw_runes (quote_arg w @ s)) = split_args False (cur @ w) (raw_runes s)"
  using assms by (simp add: raw_runes_quote split_args_plain)

lemma quote_args_Cons: "quote_args (w # ws) = quote_arg w @ concat (map (\<lambda>v. CHR '' '' # quote_arg v) ws)"
  by (simp add: quote_args_def join_with_def comp_def)

lemma split_args_rest:
  assumes "\<forall>w\<in>set ws. w \<noteq> [] \<and> valid_utf8 w \<and> CHR 0x22 \<notin> set w"
  shows "split_args False cur (raw_runes (concat (map (\<lambda>v. CHR '' '' # quote_arg v) ws))) = flush cur @ ws"
  using assms
proof (induction ws arbitrary: cur)
  case (Cons w ws)
  let ?rest = "concat (map (\<lambda>v. CHR '' '' # quote_arg v) ws)"
  have "split_args False [] (raw_runes (quote_arg w @ ?rest)) = split_args False w (raw_runes ?rest)"
    using Cons.prems by (subst split_args_quote) auto
  also have "\<dots> = flush w @ ws" by (rule Cons.IH) (use Cons.prems in simp)
  finally show ?case using Cons.prems by (simp add: raw_runes_ascii byte_of_def flush_def)
qed simp

text \<open>
  Quoting loses nothing: the arguments of a command line whose arguments are quoted, with spaces, path
  separators and any text in them, are read back as they were, so what a process is taken for depends on its arguments alone.
\<close>

theorem quoted_arguments_are_read_back:
  assumes "\<forall>w\<in>set args. w \<noteq> [] \<and> valid_utf8 w \<and> CHR 0x22 \<notin> set w"
  shows "splitArgs (quote_args args) = args \<and> toolFor (quote_args args) = tool_of_args args"
proof -
  have "splitArgs (quote_args args) = args"
  proof (cases args)
    case (Cons w ws)
    then show ?thesis
      using assms split_args_rest [of ws w] by (simp add: splitArgs_def quote_args_Cons split_args_quote flush_def)
  qed (simp add: splitArgs_def quote_args_def join_with_def flush_def)
  then show ?thesis by (simp add: toolFor_def)
qed

lemma installed_claude: "toolFor ''/.local/share/claude/versions/2'' = ''claude-code''"
  by code_simp

lemma app_server_is_not_a_session: "toolFor ''codex app-server'' = []"
  by code_simp

lemma shell_wrapper_is_not_a_session: "toolFor ''sh.exe /c/npm/claude'' = []"
  by code_simp

lemma helper_is_not_a_session: "toolFor ''/Apps/Codex Helper'' = []"
  by code_simp

theorem quoted_arguments_are_read_back_witness:
  "toolFor (quote_args [''C:/Program Files/nodejs/node.exe'', ''C:/npm/codex.js'']) = ''codex''"
proof -
  have "\<forall>w\<in>set [''C:/Program Files/nodejs/node.exe'', ''C:/npm/codex.js'']. w \<noteq> [] \<and> valid_utf8 w \<and> CHR 0x22 \<notin> set w" by code_simp
  moreover have "tool_of_args [''C:/Program Files/nodejs/node.exe'', ''C:/npm/codex.js''] = ''codex''" by code_simp
  ultimately show ?thesis using quoted_arguments_are_read_back by metis
qed

end
