(* ===== verification/Pricing_Properties.thy ===== *)
theory Pricing_Properties
  imports Pricing_Service "HOL-Library.Countable"
begin

text \<open>
  What holds of the hub's prices over every history of lookups, refreshes, reloads and saved settings: the memo is
  invisible, saved overrides decide, and a restart finds the catalog in use.
\<close>

section \<open>Histories\<close>

datatype pricing_op = OpLookup string | OpAttempt int | OpCommit "save_step \<Rightarrow> bool" bool int "catalog_error + catalog" | OpReload bool
  | OpSaveOverrides bool overrides | OpSaveLabels "labels codec" bool labels

fun pricing_step :: "pricing_env \<Rightarrow> pricing_op \<Rightarrow> pricing_state \<Rightarrow> pricing_state" where
  "pricing_step e (OpLookup m) s = s\<lparr>pz_table := fst (Lookup (pn_unicode e) m (pz_table s))\<rparr>"
| "pricing_step e (OpAttempt now) s = refresh_attempt now s"
| "pricing_step e (OpCommit fails io now fetched) s = fst (refresh_commit e fails io now fetched s)"
| "pricing_step e (OpReload io) s = fst (ReloadPricing e io s)"
| "pricing_step e (OpSaveOverrides io ovs) s = fst (save_overrides e io ovs s)"
| "pricing_step e (OpSaveLabels c io ls) s = fst (save_labels c io ls s)"

section \<open>The memo\<close>

definition memo_ok :: "price_table \<Rightarrow> bool" where
  "memo_ok t \<longleftrightarrow> (\<forall>m p. map_of (tb_cache t) m = Some p \<longrightarrow> p = lookupUncached (tb_prices t) m)"

lemma memo_fresh: "memo_ok \<lparr>tb_prices = ps, tb_cache = []\<rparr>"
  by (simp add: memo_ok_def)

lemma Lookup_memo:
  assumes "memo_ok t"
  shows "memo_ok (fst (Lookup unicode m t)) \<and> tb_prices (fst (Lookup unicode m t)) = tb_prices t \<and>
    snd (Lookup unicode m t) = (if norm_model unicode m = [] then None else lookupUncached (tb_prices t) (norm_model unicode m))"
  using assms by (auto simp: Lookup_def memo_ok_def Let_def update_conv split: option.splits)

lemma priceTable_fresh: "priceTable e io t c = Some table \<Longrightarrow> tb_cache table = []"
  by (auto simp: priceTable_def LoadCatalog_def pricing_Load_def split: option.splits if_splits)

lemma memo_empty: "tb_cache t = [] \<Longrightarrow> memo_ok t"
  by (simp add: memo_ok_def)

section \<open>The snapshot file\<close>

lemma SaveSnapshot_failed:
  assumes "SaveSnapshot fails unicode marshal part temp path now sn fs = (fs', Some err)" "temp \<noteq> path"
  shows "fs' path = fs path"
  using assms by (auto simp: SaveSnapshot_def remove_temp_def Let_def split: option.splits if_splits)

lemma SaveSnapshot_saved:
  assumes "SaveSnapshot fails unicode marshal part temp path now sn fs = (fs', None)" "temp \<noteq> path"
  obtains raw where "marshal sn = Some raw" "length raw \<le> catalogMaxBytes" "validateSnapshot unicode now sn = None"
    "fs' path = Some (raw, mode_600)"
  using assms by (auto simp: SaveSnapshot_def remove_temp_def Let_def split: option.splits if_splits)

lemma commit_cases:
  assumes "pn_temp e \<noteq> pn_path e"
  obtains (failed) err fs where "refresh_commit e fails io now fetched s = (refresh_failed err (s\<lparr>pz_files := fs\<rparr>), False)"
      "fs (pn_path e) = pz_files s (pn_path e)"
  | (saved) models table fs raw where "fetched = Inr models" "priceTable e io (pz_settings s) (Some models) = Some table"
      "refresh_commit e fails io now fetched s =
         (invalidatePriceCaches (s\<lparr>pz_files := fs, pz_catalog := Some models, pz_table := table,
            pz_last_success := ns_millis now, pz_last_error := None, pz_active := ''upstream'', pz_notified := pz_notified s + 1\<rparr>), True)"
      "pn_marshal e \<lparr>sn_fetched_at = Some now, sn_models = models\<rparr> = Some raw" "length raw \<le> catalogMaxBytes"
      "validateCatalog (pn_unicode e) models = None" "fs (pn_path e) = Some (raw, mode_600)"
proof -
  let ?sn = "\<lambda>models. \<lparr>sn_fetched_at = Some now, sn_models = models\<rparr>"
  let ?save = "\<lambda>models. SaveSnapshot fails (pn_unicode e) (pn_marshal e) (pn_part e) (pn_temp e) (pn_path e) now (?sn models) (pz_files s)"
  have unchanged: "s\<lparr>pz_files := pz_files s\<rparr> = s" by simp
  show thesis
  proof (cases fetched)
    case (Inl err)
    then show thesis using failed [of err "pz_files s"] by (simp add: refresh_commit_def)
  next
    case (Inr models)
    show thesis
    proof (cases "priceTable e io (pz_settings s) (Some models)")
      case None
      with Inr show thesis using failed [of SnapshotJSON "pz_files s"] by (simp add: refresh_commit_def)
    next
      case (Some table)
      obtain fs res where save: "?save models = (fs, res)" by (cases "?save models")
      show thesis
      proof (cases res)
        case None
        with SaveSnapshot_saved [OF _ assms] save obtain raw where raw: "pn_marshal e (?sn models) = Some raw" "length raw \<le> catalogMaxBytes"
            "validateSnapshot (pn_unicode e) now (?sn models) = None" "fs (pn_path e) = Some (raw, mode_600)"
          by blast
        then have "validateCatalog (pn_unicode e) models = None" by (simp add: validateSnapshot_def split: if_splits)
        with raw show thesis using saved [OF Inr Some] Inr Some save None by (simp add: refresh_commit_def)
      next
        case err: (Some err)
        with Inr Some save SaveSnapshot_failed [OF _ assms] show thesis
          using failed [of err fs] by (simp add: refresh_commit_def)
      qed
    qed
  qed
qed

lemma step_memo:
  assumes "pn_temp e \<noteq> pn_path e" "memo_ok (pz_table s)" shows "memo_ok (pz_table (pricing_step e op s))"
proof (cases op)
  case (OpCommit fails io now fetched)
  show ?thesis
    by (cases rule: commit_cases [OF assms(1), of fails io now fetched s])
      (use assms(2) OpCommit priceTable_fresh in \<open>auto simp: refresh_failed_def invalidatePriceCaches_def intro: memo_empty\<close>)
qed (use assms(2) in \<open>auto simp: Lookup_memo refresh_attempt_def ReloadPricing_def invalidatePriceCaches_def save_overrides_def save_labels_def
      split: option.splits dest: priceTable_fresh intro: memo_empty\<close>)

lemma run_memo: "pn_temp e \<noteq> pn_path e \<Longrightarrow> memo_ok (pz_table s) \<Longrightarrow> memo_ok (pz_table (run_steps (pricing_step e) ops s))"
  by (rule run_steps_inv [where I = "\<lambda>s. memo_ok (pz_table s)"]) (auto intro: step_memo)

lemma start_memo:
  assumes "start_pricing e io1 io2 now t fs = Some s" shows "memo_ok (pz_table s)"
  using assms
  by (auto simp: start_pricing_def ReloadPricing_def invalidatePriceCaches_def split: option.splits intro!: memo_empty priceTable_fresh)

text \<open>
  C37. The memo of the price table is invisible: in every state the hub reaches, whatever was looked up, refreshed, reloaded and
  saved before, a lookup answers what the lookup chain finds in the prices in force, and changes no price.
\<close>

theorem lookups_do_not_see_the_memo:
  assumes "start_pricing e io1 io2 now t fs = Some s0" "pn_temp e \<noteq> pn_path e"
  shows "let s = run_steps (pricing_step e) ops s0; m = norm_model (pn_unicode e) model
    in snd (Lookup (pn_unicode e) model (pz_table s)) = (if m = [] then None else lookupUncached (tb_prices (pz_table s)) m) \<and>
       tb_prices (fst (Lookup (pn_unicode e) model (pz_table s))) = tb_prices (pz_table s)"
  using Lookup_memo [OF run_memo [OF assms(2) start_memo [OF assms(1)]]] by (simp add: Let_def)

section \<open>Restarts\<close>

definition pricing_env_ok :: "pricing_env \<Rightarrow> bool" where
  "pricing_env_ok e \<longleftrightarrow> pn_temp e \<noteq> pn_path e \<and> (\<forall>sn raw. pn_marshal e sn = Some raw \<longrightarrow> pn_unmarshal e raw = Some sn) \<and>
     (\<forall>ovs. enc (pn_codec e) ovs \<noteq> [] \<and> dec (pn_codec e) (enc (pn_codec e) ovs) = Some ovs)"

text \<open>The catalog in use is the one on disk, and the table could be built again.\<close>

definition on_disk :: "pricing_env \<Rightarrow> int \<Rightarrow> pricing_state \<Rightarrow> bool" where
  "on_disk e T s \<longleftrightarrow> (\<forall>c. pz_catalog s = Some c \<longrightarrow> validateCatalog (pn_unicode e) c = None \<and>
     (\<exists>raw mode sn t. pz_files s (pn_path e) = Some (raw, mode) \<and> length raw \<le> catalogMaxBytes \<and>
       pn_unmarshal e raw = Some sn \<and> sn_models sn = c \<and> sn_fetched_at sn = Some t \<and> t \<le> T + 300 * 1000000000))"

definition overrides_readable :: "pricing_env \<Rightarrow> pricing_state \<Rightarrow> bool" where
  "overrides_readable e s \<longleftrightarrow> pn_embedded e \<noteq> None \<and> GetSettingsJSON False (pn_codec e) settingsKeyPricing [] (pz_settings s) \<noteq> None"

fun op_time :: "pricing_op \<Rightarrow> int list" where
  "op_time (OpCommit fails io now fetched) = [now]"
| "op_time op = []"

lemma on_disk_mono: "on_disk e T s \<Longrightarrow> T \<le> T' \<Longrightarrow> on_disk e T' s"
  unfolding on_disk_def by fastforce

lemma settings_other_key: "k \<noteq> k' \<Longrightarrow> settingValue (set_setting k v t) k' = settingValue t k'"
  by (simp add: settingValue_def set_setting_def update_conv)

lemma settings_same_key: "settingValue (set_setting k v t) k = v"
  by (simp add: settingValue_def set_setting_def update_conv)

lemma label_key_differs: "DeviceLabelsKey \<noteq> settingsKeyPricing"
  by (simp add: DeviceLabelsKey_def settingsKeyPricing_def)

lemma step_on_disk:
  assumes "pricing_env_ok e" "on_disk e T s" "\<forall>now\<in>set (op_time op). now \<le> T"
  shows "on_disk e T (pricing_step e op s)"
proof (cases op)
  case (OpCommit fails io now fetched)
  have temp: "pn_temp e \<noteq> pn_path e" using assms(1) by (simp add: pricing_env_ok_def)
  from commit_cases [OF temp, of fails io now fetched s] show ?thesis
  proof cases
    case (1 err fs)
    with assms(2) show ?thesis by (simp add: OpCommit on_disk_def refresh_failed_def)
  next
    case (2 models table fs raw)
    then have "pn_unmarshal e raw = Some \<lparr>sn_fetched_at = Some now, sn_models = models\<rparr>" using assms(1) by (simp add: pricing_env_ok_def)
    moreover have "now \<le> T" using assms(3) OpCommit by simp
    ultimately show ?thesis using 2 by (simp add: OpCommit on_disk_def invalidatePriceCaches_def)
  qed
qed (use assms(2) in \<open>auto simp: on_disk_def refresh_attempt_def ReloadPricing_def invalidatePriceCaches_def save_overrides_def save_labels_def
      split: option.splits\<close>)

lemma commit_settings [simp]: "pz_settings (fst (refresh_commit e fails io now fetched s)) = pz_settings s"
  by (auto simp: refresh_commit_def refresh_failed_def invalidatePriceCaches_def split: sum.splits option.splits prod.splits)

lemma step_readable:
  assumes "pricing_env_ok e" "overrides_readable e s" shows "overrides_readable e (pricing_step e op s)"
proof (cases op)
  case (OpSaveOverrides io ovs)
  then show ?thesis
    using assms by (auto simp: overrides_readable_def save_overrides_def SetSettingsJSON_def GetSettingsJSON_def settings_same_key pricing_env_ok_def)
next
  case (OpSaveLabels c io ls)
  then show ?thesis
    using assms(2) settings_other_key [OF label_key_differs]
    by (auto simp: overrides_readable_def save_labels_def SetSettingsJSON_def GetSettingsJSON_def)
qed (use assms(2) in \<open>auto simp: overrides_readable_def refresh_attempt_def ReloadPricing_def invalidatePriceCaches_def split: option.splits\<close>)

lemma run_on_disk:
  assumes "pricing_env_ok e" "on_disk e T s" "overrides_readable e s" "\<forall>op\<in>set ops. \<forall>now\<in>set (op_time op). now \<le> T"
  shows "on_disk e T (run_steps (pricing_step e) ops s) \<and> overrides_readable e (run_steps (pricing_step e) ops s)"
  using assms(2-4) by (induction ops arbitrary: s) (auto intro: step_on_disk [OF assms(1)] step_readable [OF assms(1)])

lemma start_on_disk:
  assumes "start_pricing e io1 io2 now t fs = Some s" "pricing_env_ok e"
  shows "on_disk e now s \<and> overrides_readable e s"
proof -
  let ?s = "\<lambda>prices. \<lparr>pz_catalog = None, pz_table = prices, pz_last_attempt = 0, pz_last_success = 0, pz_last_error = None, pz_active = [],
    pz_settings = t, pz_files = fs, pz_clears = 0, pz_notified = 0\<rparr>"
  obtain prices table where load: "pricing_Load (pn_float e) (pn_unicode e) (pn_embedded e) (pn_config e) = Some prices"
    and table: "priceTable e io2 (pz_settings (loadPricingSnapshot e io1 now (?s prices))) (pz_catalog (loadPricingSnapshot e io1 now (?s prices))) = Some table"
    and s: "s = invalidatePriceCaches ((loadPricingSnapshot e io1 now (?s prices))\<lparr>pz_table := table\<rparr>)"
    using assms(1) by (auto simp: start_pricing_def ReloadPricing_def split: option.splits)
  have disk: "on_disk e now (loadPricingSnapshot e io1 now (?s prices))"
    by (auto simp: on_disk_def loadPricingSnapshot_def ReadSnapshot_def validateSnapshot_def split: option.splits if_splits)
  have "pz_settings (loadPricingSnapshot e io1 now (?s prices)) = t" by (simp add: loadPricingSnapshot_def split: snapshot_read.split)
  with disk load table show ?thesis
    by (auto simp: s on_disk_def overrides_readable_def invalidatePriceCaches_def pricing_Load_def priceTable_def GetSettingsJSON_def
        split: option.splits if_splits)
qed

lemma start_from_disk:
  assumes "on_disk e T s" "overrides_readable e s" "pz_catalog s = Some c"
  obtains s' where "start_pricing e False False T (pz_settings s) (pz_files s) = Some s'" "pz_catalog s' = Some c"
    "priceTable e False (pz_settings s) (Some c) = Some (pz_table s')"
proof -
  obtain raw mode sn t where disk: "pz_files s (pn_path e) = Some (raw, mode)" "length raw \<le> catalogMaxBytes" "pn_unmarshal e raw = Some sn"
      "sn_models sn = c" "sn_fetched_at sn = Some t" "t \<le> T + 300 * 1000000000" "validateCatalog (pn_unicode e) c = None"
    using assms(1,3) unfolding on_disk_def by blast
  obtain prices where load: "pricing_Load (pn_float e) (pn_unicode e) (pn_embedded e) (pn_config e) = Some prices"
    using assms(2) by (auto simp: overrides_readable_def pricing_Load_def)
  obtain table where table: "priceTable e False (pz_settings s) (Some c) = Some table"
    using assms(2) disk(7) by (auto simp: overrides_readable_def priceTable_def LoadCatalog_def)
  have "ReadSnapshot False (pn_unicode e) (pn_unmarshal e) (pn_path e) T (pz_files s) = SnapshotRead sn"
    using disk by (simp add: ReadSnapshot_def validateSnapshot_def)
  then have "\<exists>s'. start_pricing e False False T (pz_settings s) (pz_files s) = Some s' \<and> pz_catalog s' = Some c \<and> pz_table s' = table"
    by (simp add: start_pricing_def load loadPricingSnapshot_def ReloadPricing_def disk(4) table invalidatePriceCaches_def)
  with table that show thesis by blast
qed

text \<open>
  C38. A restart keeps the prices: after any history of the hub, a catalog in use is on disk, whole and valid, so a hub started
  later on the same files and settings runs with that catalog under the saved overrides; and a refresh that does not go
  through leaves the catalog, the table, the overrides and the file as they were.
\<close>

theorem a_restart_keeps_the_prices:
  assumes "pricing_env_ok e" "start_pricing e io1 io2 t0 t fs = Some s0"
    and "\<forall>op\<in>set ops. \<forall>now\<in>set (op_time op). now \<le> T" "t0 \<le> T"
  shows "let s = run_steps (pricing_step e) ops s0 in
    (\<forall>c. pz_catalog s = Some c \<longrightarrow> (\<exists>s'. start_pricing e False False T (pz_settings s) (pz_files s) = Some s' \<and> pz_catalog s' = Some c \<and>
       priceTable e False (pz_settings s) (Some c) = Some (pz_table s'))) \<and>
    (\<forall>fails io now fetched s'. refresh_commit e fails io now fetched s = (s', False) \<longrightarrow>
       pz_catalog s' = pz_catalog s \<and> pz_table s' = pz_table s \<and> pz_settings s' = pz_settings s \<and>
       pz_files s' (pn_path e) = pz_files s (pn_path e))"
proof -
  let ?s = "run_steps (pricing_step e) ops s0"
  have "on_disk e T ?s \<and> overrides_readable e ?s"
    using start_on_disk [OF assms(2,1)] on_disk_mono [OF _ assms(4)] run_on_disk [OF assms(1) _ _ assms(3)] by blast
  moreover have "pz_catalog s' = pz_catalog s \<and> pz_table s' = pz_table s \<and> pz_settings s' = pz_settings s \<and>
      pz_files s' (pn_path e) = pz_files s (pn_path e)"
    if "refresh_commit e fails io now fetched s = (s', False)" for fails io now fetched s s'
  proof -
    have "pn_temp e \<noteq> pn_path e" using assms(1) by (simp add: pricing_env_ok_def)
    from commit_cases [OF this, of fails io now fetched s] show ?thesis
      by cases (use that in \<open>auto simp: refresh_failed_def\<close>)
  qed
  ultimately show ?thesis unfolding Let_def using start_from_disk by blast
qed

section \<open>Saved overrides\<close>

lemma fold_update_map:
  "map_of (foldl (\<lambda>m (k, v). AList.update (f k) (g v) m) base ovs) k =
     (case map_of (rev (map (\<lambda>(k, v). (f k, g v)) ovs)) k of Some x \<Rightarrow> Some x | None \<Rightarrow> map_of base k)"
  by (induction ovs arbitrary: base) (auto simp: update_conv map_add_def split: option.splits)

text \<open>Normalising these names twice is normalising them once, as it is in Go.\<close>

definition lower_ok :: "(string \<Rightarrow> string) \<Rightarrow> overrides \<Rightarrow> bool" where
  "lower_ok unicode ovs \<longleftrightarrow> (\<forall>m\<in>fst ` set ovs. norm_model unicode (norm_model unicode m) = norm_model unicode m)"

definition normal_overrides :: "(string \<Rightarrow> string) \<Rightarrow> overrides \<Rightarrow> bool" where
  "normal_overrides unicode ovs \<longleftrightarrow> distinct (map fst ovs) \<and> (\<forall>m\<in>fst ` set ovs. norm_model unicode m = m)"

lemma validated_overrides:
  assumes "validatePricingOverrides unicode raw = Some ovs" "lower_ok unicode raw"
  shows "normal_overrides unicode ovs" "[] \<notin> fst ` set ovs"
proof -
  have "normal_overrides unicode ovs \<and> [] \<notin> fst ` set ovs"
    if "validate_overrides unicode out raw = Some ovs" "normal_overrides unicode out" "[] \<notin> fst ` set out" "lower_ok unicode raw" for out
    using that
  proof (induction raw arbitrary: out)
    case (Cons r raw)
    obtain name v where r: "r = (name, v)" by (cases r)
    let ?m = "norm_model unicode name"
    have "?m \<noteq> []" "map_of out ?m = None" "validate_overrides unicode (out @ [(?m, v)]) raw = Some ovs"
      using Cons.prems(1) by (auto simp: r Let_def split: if_splits)
    moreover from this Cons.prems(2-4) have "normal_overrides unicode (out @ [(?m, v)])" "[] \<notin> fst ` set (out @ [(?m, v)])"
      by (auto simp: normal_overrides_def map_of_eq_None_iff lower_ok_def r)
    moreover have "lower_ok unicode raw" using Cons.prems(4) by (simp add: lower_ok_def)
    ultimately show ?case using Cons.IH by blast
  qed simp
  from this [of "[]"] assms show "normal_overrides unicode ovs" "[] \<notin> fst ` set ovs"
    by (simp_all add: validatePricingOverrides_def normal_overrides_def)
qed

lemma normal_map_of:
  assumes "normal_overrides unicode ovs" "map_of ovs m = Some v"
  shows "map_of (rev (map (\<lambda>(k, v). (norm_model unicode k, g v)) ovs)) m = Some (g v)"
proof -
  have "map (\<lambda>(k, v). (norm_model unicode k, g v)) ovs = map (\<lambda>(k, v). (k, g v)) ovs"
    using assms(1) by (force simp: normal_overrides_def)
  moreover have "map_of (rev (map (\<lambda>(k, v). (k, g v)) ovs)) m = Some (g v)"
    by (rule map_of_is_SomeI) (use assms map_of_SomeD in \<open>force simp: normal_overrides_def comp_def case_prod_beta simp flip: rev_map\<close>)+
  ultimately show ?thesis by (simp only:)
qed

lemma merge_overrides_normal:
  assumes "lower_ok unicode ovs" "normal_overrides unicode base"
  shows "normal_overrides unicode (merge_overrides unicode base ovs)"
  using assms
proof (induction ovs arbitrary: base)
  case (Cons r ovs)
  obtain k v where r: "r = (k, v)" by (cases r)
  have "normal_overrides unicode (AList.update (norm_model unicode k) v base)"
    unfolding normal_overrides_def dom_map_of_conv_image_fst [symmetric]
    using Cons.prems by (simp add: normal_overrides_def distinct_update update_conv' dom_map_of_conv_image_fst lower_ok_def r)
  moreover have "lower_ok unicode ovs" using Cons.prems(1) by (simp add: lower_ok_def)
  ultimately show ?case using Cons.IH by (simp add: merge_overrides_def r)
qed (simp add: merge_overrides_def)

text \<open>An entry saved in the database is in every table built since.\<close>

lemma priceTable_override:
  assumes "GetSettingsJSON False (pn_codec e) settingsKeyPricing [] t = Some ovs" "normal_overrides (pn_unicode e) ovs" "map_of ovs m = Some v"
    and "lower_ok (pn_unicode e) (pn_config e)" "priceTable e io t c = Some table"
  shows "map_of (tb_prices table) m = Some (override_price (pn_float e) v)"
proof -
  let ?u = "pn_unicode e"
  let ?merged = "merge_overrides ?u (merge_overrides ?u [] (pn_config e)) ovs"
  have "\<not> io" using assms(5) by (auto simp: priceTable_def GetSettingsJSON_def)
  with assms(1,5) obtain base where table: "tb_prices table = applyOverrides (pn_float e) ?u ?merged base"
    by (auto simp: priceTable_def LoadCatalog_def pricing_Load_def split: option.splits if_splits)
  have normal: "normal_overrides ?u ?merged"
    using assms(2,4) by (intro merge_overrides_normal) (simp_all add: normal_overrides_def lower_ok_def)
  have "map_of ?merged m = Some v"
    using normal_map_of [OF assms(2,3), of id] by (simp add: merge_overrides_def fold_update_map [of _ id, simplified])
  from normal_map_of [OF normal this, of "override_price (pn_float e)"] show ?thesis
    unfolding table applyOverrides_def fold_update_map by simp
qed

definition keeps_overrides :: "pricing_op \<Rightarrow> bool" where
  "keeps_overrides op = (case op of OpSaveOverrides io ovs \<Rightarrow> io | _ \<Rightarrow> True)"

abbreviation stored_overrides :: "pricing_env \<Rightarrow> pricing_state \<Rightarrow> overrides option" where
  "stored_overrides e s \<equiv> GetSettingsJSON False (pn_codec e) settingsKeyPricing [] (pz_settings s)"

definition has_prices :: "pricing_env \<Rightarrow> overrides \<Rightarrow> price_table \<Rightarrow> bool" where
  "has_prices e ovs t \<longleftrightarrow> (\<forall>m v. map_of ovs m = Some v \<longrightarrow> map_of (tb_prices t) m = Some (override_price (pn_float e) v))"

lemma priceTable_has_prices:
  assumes "lower_ok (pn_unicode e) (pn_config e)" "normal_overrides (pn_unicode e) ovs" "stored_overrides e s = Some ovs" "priceTable e io (pz_settings s) c = Some table"
  shows "has_prices e ovs table"
  using priceTable_override [OF assms(3,2) _ assms(1,4)] by (simp add: has_prices_def)

lemma step_keeps_stored:
  assumes "keeps_overrides op" "stored_overrides e s = Some ovs" shows "stored_overrides e (pricing_step e op s) = Some ovs"
proof (cases op)
  case (OpSaveOverrides io ovs')
  then show ?thesis using assms by (simp add: keeps_overrides_def save_overrides_def SetSettingsJSON_def)
next
  case (OpSaveLabels c io ls)
  then show ?thesis
    using assms(2) settings_other_key [OF label_key_differs] by (auto simp: save_labels_def SetSettingsJSON_def GetSettingsJSON_def split: if_splits)
qed (use assms(2) in \<open>auto simp: refresh_attempt_def ReloadPricing_def invalidatePriceCaches_def split: option.split\<close>)

lemma step_keeps_prices:
  assumes "pn_temp e \<noteq> pn_path e" "lower_ok (pn_unicode e) (pn_config e)" "normal_overrides (pn_unicode e) ovs" "memo_ok (pz_table s)"
    and "stored_overrides e s = Some ovs" "has_prices e ovs (pz_table s)"
  shows "has_prices e ovs (pz_table (pricing_step e op s))"
proof (cases op)
  case (OpLookup m)
  then show ?thesis using assms(6) Lookup_memo [OF assms(4), of "pn_unicode e" m] by (simp add: has_prices_def)
next
  case (OpCommit fails io now fetched)
  from commit_cases [OF assms(1), of fails io now fetched s] show ?thesis
  proof cases
    case (2 models table fs raw)
    with priceTable_has_prices [OF assms(2,3,5)] show ?thesis by (simp add: OpCommit invalidatePriceCaches_def)
  qed (use assms(6) OpCommit in \<open>simp add: refresh_failed_def\<close>)
next
  case (OpReload io)
  then show ?thesis
    using assms(6) priceTable_has_prices [OF assms(2,3,5)] by (auto simp: ReloadPricing_def invalidatePriceCaches_def split: option.split)
qed (use assms(6) in \<open>auto simp: refresh_attempt_def save_overrides_def save_labels_def split: option.split\<close>)

lemma run_keeps_stored:
  "list_all keeps_overrides ops \<Longrightarrow> stored_overrides e s = Some ovs \<Longrightarrow> stored_overrides e (run_steps (pricing_step e) ops s) = Some ovs"
  by (induction ops arbitrary: s) (auto intro: step_keeps_stored)

lemma run_keeps_prices:
  assumes "pn_temp e \<noteq> pn_path e" "lower_ok (pn_unicode e) (pn_config e)" "normal_overrides (pn_unicode e) ovs" "list_all keeps_overrides ops"
    and "memo_ok (pz_table s)" "stored_overrides e s = Some ovs" "has_prices e ovs (pz_table s)"
  shows "has_prices e ovs (pz_table (run_steps (pricing_step e) ops s))"
  using assms(4-7)
proof (induction ops arbitrary: s)
  case (Cons op ops)
  then show ?case
    using step_memo [OF assms(1)] step_keeps_stored step_keeps_prices [OF assms(1-3)] by simp
qed simp

lemma reload_succeeds:
  assumes "on_disk e T s" "overrides_readable e s"
  shows "\<exists>table. priceTable e False (pz_settings s) (pz_catalog s) = Some table"
  using assms by (auto simp: overrides_readable_def on_disk_def priceTable_def LoadCatalog_def pricing_Load_def split: option.split)

lemma save_then_stored:
  "pricing_env_ok e \<Longrightarrow> stored_overrides e (pricing_step e (OpSaveOverrides False ovs) s) = Some ovs"
  by (simp add: save_overrides_def SetSettingsJSON_def GetSettingsJSON_def settings_same_key pricing_env_ok_def)

text \<open>
  C39. Saved prices decide: once overrides that passed validation are saved and the table reloaded, a lookup of an
  overridden model answers its override, in any spelling and whatever lookups, refreshes, reloads and saved labels come in between
  or after, until other overrides are saved.
\<close>

theorem saved_overrides_decide:
  assumes "pricing_env_ok e" "start_pricing e io1 io2 t0 t fs = Some s0" "lower_ok (pn_unicode e) (raw @ pn_config e)"
    and "validatePricingOverrides (pn_unicode e) raw = Some ovs"
    and "list_all keeps_overrides ops1" "list_all keeps_overrides ops2"
    and "map_of ovs (norm_model (pn_unicode e) model) = Some v"
  shows "snd (Lookup (pn_unicode e) model
      (pz_table (run_steps (pricing_step e) (ops @ [OpSaveOverrides False ovs] @ ops1 @ [OpReload False] @ ops2) s0))) =
    Some (override_price (pn_float e) v)"
proof -
  let ?run = "run_steps (pricing_step e)"
  have temp: "pn_temp e \<noteq> pn_path e" using assms(1) by (simp add: pricing_env_ok_def)
  have lower: "lower_ok (pn_unicode e) raw" "lower_ok (pn_unicode e) (pn_config e)" using assms(3) by (auto simp: lower_ok_def)
  have normal: "normal_overrides (pn_unicode e) ovs" and nonempty: "norm_model (pn_unicode e) model \<noteq> []"
    using validated_overrides [OF assms(4) lower(1)] map_of_SomeD [OF assms(7)] by force+
  define s2 where "s2 = ?run (ops @ [OpSaveOverrides False ovs] @ ops1) s0"
  have stored: "stored_overrides e s2 = Some ovs"
    unfolding s2_def run_steps_append run_steps.simps by (rule run_keeps_stored [OF assms(5) save_then_stored [OF assms(1)]])
  define T where "T = Max (insert t0 (set (concat (map op_time (ops @ [OpSaveOverrides False ovs] @ ops1)))))"
  have "t0 \<le> T" "\<forall>op\<in>set (ops @ [OpSaveOverrides False ovs] @ ops1). \<forall>now\<in>set (op_time op). now \<le> T"
    unfolding T_def by (auto intro!: Max_ge)
  with start_on_disk [OF assms(2,1)] on_disk_mono run_on_disk [OF assms(1)] have "on_disk e T s2" "overrides_readable e s2"
    unfolding s2_def by blast+
  with reload_succeeds obtain table where table: "priceTable e False (pz_settings s2) (pz_catalog s2) = Some table" by blast
  define s3 where "s3 = pricing_step e (OpReload False) s2"
  have s3: "pz_table s3 = table" "pz_settings s3 = pz_settings s2" by (simp_all add: s3_def ReloadPricing_def table invalidatePriceCaches_def)
  have "has_prices e ovs (pz_table s3)" using priceTable_has_prices [OF lower(2) normal stored table] by (simp add: s3)
  moreover have "memo_ok (pz_table s3)" using priceTable_fresh [OF table] by (simp add: s3 memo_empty)
  ultimately have "has_prices e ovs (pz_table (?run ops2 s3))" "memo_ok (pz_table (?run ops2 s3))"
    using run_keeps_prices [OF temp lower(2) normal assms(6)] stored run_memo [OF temp] by (simp_all add: s3)
  moreover have "?run (ops @ [OpSaveOverrides False ovs] @ ops1 @ [OpReload False] @ ops2) s0 = ?run ops2 s3"
    by (simp add: s2_def s3_def run_steps_append)
  ultimately show ?thesis
    using nonempty assms(7) Lookup_memo by (simp add: has_prices_def lookupUncached_def lookup_candidates_def Let_def)
qed

text \<open>A settings request that is answered with its prices reloaded is such a history.\<close>

lemma put_settings_steps:
  assumes "handlePutSettings e c faults (Some q) s = (s', SettingsSaved True)"
  shows "\<exists>raw ovs labels. sq_overrides q = Some raw \<and> validatePricingOverrides (pn_unicode e) raw = Some ovs \<and>
    list_all keeps_overrides labels \<and>
    s'\<lparr>pz_notified := pz_notified s\<rparr> = run_steps (pricing_step e) ([OpSaveOverrides False ovs, OpReload False] @ labels) s"
proof -
  obtain raw ovs where q: "sq_overrides q = Some raw" "validatePricingOverrides (pn_unicode e) raw = Some ovs"
    using assms by (auto simp: handlePutSettings_def Let_def split: option.splits prod.splits bool.splits if_splits)
  obtain s1 s2 where run: "save_overrides e (sf_overrides faults) ovs s = (s1, True)" "ReloadPricing e (sf_reload faults) s1 = (s2, True)"
    and labels: "(\<exists>io ls s3. save_labels c io ls s2 = (s3, True) \<and> s' = s3\<lparr>pz_notified := Suc (pz_notified s3)\<rparr>) \<or>
      s' = s2\<lparr>pz_notified := Suc (pz_notified s2)\<rparr>"
    using assms q
    by (auto simp: handlePutSettings_def Let_def split: option.splits prod.splits bool.splits if_splits)
  have "sf_overrides faults = False" "sf_reload faults = False"
    using run by (auto simp: save_overrides_def SetSettingsJSON_def ReloadPricing_def priceTable_def GetSettingsJSON_def split: option.splits if_splits)
  with run have two: "run_steps (pricing_step e) [OpSaveOverrides False ovs, OpReload False] s = s2" by simp
  have "pz_notified s2 = pz_notified s"
    using run by (auto simp: save_overrides_def ReloadPricing_def invalidatePriceCaches_def split: option.splits)
  with labels two have "\<exists>ops. list_all keeps_overrides ops \<and>
      s'\<lparr>pz_notified := pz_notified s\<rparr> = run_steps (pricing_step e) ([OpSaveOverrides False ovs, OpReload False] @ ops) s"
  proof (elim disjE exE conjE)
    fix io ls s3 assume s3: "save_labels c io ls s2 = (s3, True)" "s' = s3\<lparr>pz_notified := Suc (pz_notified s3)\<rparr>"
    then have "pz_notified s3 = pz_notified s2" by (auto simp: save_labels_def split: option.splits)
    with s3 \<open>pz_notified s2 = pz_notified s\<close> show ?thesis
      unfolding run_steps_append two by (intro exI [of _ "[OpSaveLabels c io ls]"]) (simp add: keeps_overrides_def)
  next
    assume "s' = s2\<lparr>pz_notified := Suc (pz_notified s2)\<rparr>"
    then show ?thesis
      using \<open>pz_notified s2 = pz_notified s\<close> unfolding run_steps_append two by (intro exI [of _ "[]"]) simp
  qed
  with q show ?thesis by blast
qed

text \<open>Where a model prices one-hour cache writes, the cache writes of rows without the split are not priced at all.\<close>

lemma unsplit_cache_writes_are_free:
  assumes "float_less 0 (pk_cache_write_1h p)" "i64 (mu_cache_1h u + mu_cache_5m u) > 0"
  shows "price_cost fo p (u\<lparr>mu_totals := (mu_totals u)\<lparr>tt_cache_creation := n\<rparr>\<rparr>) = price_cost fo p u"
  using assms by (simp add: price_cost_def Let_def)

section \<open>Instances\<close>

definition wit_catalog :: catalog where
  "wit_catalog = map (\<lambda>i. (replicate (Suc i) (CHR ''m''), no_price)) [0..<100]"

definition wit_snapshot :: snapshot where
  "wit_snapshot = \<lparr>sn_fetched_at = Some 7, sn_models = wit_catalog\<rparr>"

definition override_tuple :: "string \<times> override \<Rightarrow> string \<times> float64 \<times> float64 \<times> float64 \<times> float64" where
  "override_tuple r = (fst r, ov_input (snd r), ov_output (snd r), ov_cache_read (snd r), ov_cache_write (snd r))"

definition tuple_override :: "string \<times> float64 \<times> float64 \<times> float64 \<times> float64 \<Rightarrow> string \<times> override" where
  "tuple_override t = (case t of (m, a, b, c, d) \<Rightarrow> (m, \<lparr>ov_input = a, ov_output = b, ov_cache_read = c, ov_cache_write = d\<rparr>))"

text \<open>A codec for all overrides: the number of the document, in unary.\<close>

definition unary_codec :: "overrides codec" where
  "unary_codec = \<lparr>enc = (\<lambda>ovs. replicate (Suc (to_nat (map override_tuple ovs))) (CHR ''x'')),
     dec = (\<lambda>s. Some (map tuple_override (from_nat (length s - 1))))\<rparr>"

lemma unary_codec_ok: "enc unary_codec ovs \<noteq> []" "dec unary_codec (enc unary_codec ovs) = Some ovs"
proof -
  have "tuple_override (override_tuple r) = r" for r by (cases r) (simp add: override_tuple_def tuple_override_def)
  then have "map tuple_override (map override_tuple ovs) = ovs" by (simp add: comp_def)
  then show "enc unary_codec ovs \<noteq> []" "dec unary_codec (enc unary_codec ovs) = Some ovs" by (simp_all add: unary_codec_def del: map_map)
qed

definition wit_prices :: pricing_env where
  "wit_prices = \<lparr>pn_float = \<lparr>fo_of_int = of_int, fo_add = (+), fo_mul = (*), fo_div = (div), fo_sub = (-), fo_to_int = uint\<rparr>, pn_unicode = (\<lambda>s. s), pn_embedded = Some [],
     pn_marshal = (\<lambda>sn. if sn = wit_snapshot then Some ''s'' else None), pn_unmarshal = (\<lambda>r. if r = ''s'' then Some wit_snapshot else None),
     pn_part = (\<lambda>r. r), pn_temp = ''t'', pn_path = ''p'', pn_codec = unary_codec, pn_config = [], pn_hours = 0, pn_auto_update = None\<rparr>"

lemma wit_prices_ok: "pricing_env_ok wit_prices"
  using unary_codec_ok by (simp add: pricing_env_ok_def wit_prices_def)

definition wit_started :: pricing_state where
  "wit_started = \<lparr>pz_catalog = None, pz_table = \<lparr>tb_prices = [], tb_cache = []\<rparr>, pz_last_attempt = 0, pz_last_success = 0,
     pz_last_error = None, pz_active = [], pz_settings = [], pz_files = (\<lambda>_. None), pz_clears = 1, pz_notified = 0\<rparr>"

lemma wit_start: "start_pricing wit_prices False False 1 [] (\<lambda>_. None) = Some wit_started"
  by (simp add: start_pricing_def pricing_Load_def wit_prices_def applyOverrides_def loadPricingSnapshot_def ReadSnapshot_def
      ReloadPricing_def priceTable_def GetSettingsJSON_def settingValue_def merge_overrides_def LoadCatalog_def invalidatePriceCaches_def wit_started_def)

lemma wit_catalog_valid: "validateCatalog (\<lambda>s. s) wit_catalog = None"
proof -
  have "printable (CHR ''m'')" by (simp add: printable_def)
  then have "TrimSpace (replicate (Suc i) (CHR ''m'')) = replicate (Suc i) (CHR ''m'')" for i
    by (intro TrimSpace_id) (metis printable_space rev_replicate replicate_Suc)
  moreover have "ToLower (\<lambda>s. s) (replicate i (CHR ''m'')) = replicate i (CHR ''m'')" for i
    by (simp add: ToLower_def map_replicate_const ascii_lower_def)
  ultimately have "norm_model (\<lambda>s. s) (replicate (Suc i) (CHR ''m'')) = replicate (Suc i) (CHR ''m'')" for i
    unfolding norm_model_def by metis
  moreover have "\<not> list_ex invalid_rate (price_rates no_price)" by code_simp
  ultimately have "find (\<lambda>(name, p). name = [] \<or> name \<noteq> norm_model (\<lambda>s. s) name \<or> list_ex invalid_rate (price_rates p)) wit_catalog = None"
    unfolding find_None_iff wit_catalog_def by (auto simp del: replicate.simps)
  then show ?thesis by (simp add: validateCatalog_def minimumCatalogModels_def wit_catalog_def)
qed

theorem lookups_do_not_see_the_memo_witness:
  "let s = run_steps (pricing_step wit_prices) [OpLookup ''gpt'', OpReload False, OpLookup ''gpt''] wit_started
   in snd (Lookup (\<lambda>s. s) ''GPT'' (pz_table s)) = lookupUncached (tb_prices (pz_table s)) ''gpt''"
proof -
  have "norm_model (\<lambda>s. s) ''GPT'' = ''gpt''" by code_simp
  moreover have "pn_unicode wit_prices = (\<lambda>s. s)" "pn_temp wit_prices \<noteq> pn_path wit_prices" by (simp_all add: wit_prices_def)
  ultimately show ?thesis
    using lookups_do_not_see_the_memo [OF wit_start, of "[OpLookup ''gpt'', OpReload False, OpLookup ''gpt'']" "''GPT''"]
    by (simp only: Let_def simp_thms list.distinct if_False)
qed

theorem a_restart_keeps_the_prices_witness:
  "\<exists>s'. start_pricing wit_prices False False 9 []
     (pz_files (run_steps (pricing_step wit_prices) [OpCommit (\<lambda>_. False) False 7 (Inr wit_catalog)] wit_started)) = Some s' \<and> pz_catalog s' = Some wit_catalog"
proof -
  let ?ops = "[OpCommit (\<lambda>_. False) False 7 (Inr wit_catalog)]"
  have "pz_catalog (run_steps (pricing_step wit_prices) ?ops wit_started) = Some wit_catalog"
    "pz_settings (run_steps (pricing_step wit_prices) ?ops wit_started) = []"
    using wit_catalog_valid
    by (simp_all add: refresh_commit_def priceTable_def wit_prices_def wit_started_def GetSettingsJSON_def settingValue_def merge_overrides_def
        LoadCatalog_def SaveSnapshot_def validateSnapshot_def wit_snapshot_def catalogMaxBytes_def invalidatePriceCaches_def)
  with a_restart_keeps_the_prices [OF wit_prices_ok wit_start, of ?ops 9] show ?thesis by (auto simp: Let_def)
qed

definition wit_override :: override where
  "wit_override = \<lparr>ov_input = 0x3FF0000000000000, ov_output = 0, ov_cache_read = 0, ov_cache_write = 0\<rparr>"

theorem saved_overrides_decide_witness:
  "snd (Lookup (\<lambda>s. s) ''gpt ''
     (pz_table (run_steps (pricing_step wit_prices) [OpSaveOverrides False [(''gpt'', wit_override)], OpLookup ''gpt'', OpReload False] wit_started))) =
   Some (override_price (pn_float wit_prices) wit_override)"
proof -
  have "norm_model (\<lambda>s. s) '' GPT'' = ''gpt''" "norm_model (\<lambda>s. s) ''gpt'' = ''gpt''" "norm_model (\<lambda>s. s) ''gpt '' = ''gpt''" by code_simp+
  moreover have "\<not> list_ex price_out_of_range (override_rates wit_override)" by code_simp
  ultimately show ?thesis
    using saved_overrides_decide [OF wit_prices_ok wit_start, of "[('' GPT'', wit_override)]" "[(''gpt'', wit_override)]" "[OpLookup ''gpt'']" "[]"
        "''gpt ''" wit_override "[]"]
    by (simp add: wit_prices_def lower_ok_def validatePricingOverrides_def maxModelNameLen_def keeps_overrides_def)
qed

end
