(* ===== verification/Window_Cards.thy ===== *)
theory Window_Cards
  imports Pricing_Service Usage_Views
begin

text \<open>
  The window section of the live page: \<open>internal/server/windows.go\<close>, \<open>CapacityForWindow\<close> of \<open>internal/store/capacity.go\<close> and the
  quota endpoint of \<open>quota.go\<close>. Times are nanoseconds; the prose of labels and notes is left out. A cost is looked up
  in the table as it stands, its memo being invisible.
\<close>

section \<open>What a window holds\<close>

definition float_hundred :: float64 where "float_hundred = 0x4059000000000000"

text \<open>\<open>capacityQuantum / capacityPriorCV\<close>, a constant expression: 0.5 / 0.26 rounded once.\<close>

definition quantum_over_cv :: float64 where "quantum_over_cv = 0x3ffec4ec4ec4ec4f"
definition capacityLiveOnlyMinPercent :: float64 where "capacityLiveOnlyMinPercent = 0x4024000000000000"
definition float_one :: float64 where "float_one = 0x3FF0000000000000"

text \<open>\<open>prior\<close> is \<open>None\<close> where there is no estimate.\<close>

definition CapacityForWindow :: "float_ops \<Rightarrow> int option \<Rightarrow> int \<Rightarrow> float64 \<Rightarrow> int option" where
  "CapacityForWindow fo prior tokens pct =
     (let liveOK = (tokens > 0 \<and> float_less 0 pct);
          live = fo_mul fo (fo_div fo (fo_of_int fo tokens) pct) float_hundred
      in if \<not> liveOK then (case prior of Some p \<Rightarrow> if p > 0 then Some p else None | None \<Rightarrow> None)
         else case prior of
           None \<Rightarrow> if float_less pct capacityLiveOnlyMinPercent then None else Some (fo_to_int fo live)
         | Some p \<Rightarrow>
             if p \<le> 0 then if float_less pct capacityLiveOnlyMinPercent then None else Some (fo_to_int fo live)
             else
               let k = quantum_over_cv;
                   w = fo_div fo (fo_mul fo pct pct) (fo_add fo (fo_mul fo pct pct) (fo_mul fo k k))
               in Some (fo_to_int fo (fo_add fo (fo_mul fo w live) (fo_mul fo (fo_sub fo float_one w) (fo_of_int fo p)))))"

section \<open>The tightest reading\<close>

text \<open>Instants of a window in milliseconds.\<close>

record quota_window =
  qw_start :: int
  qw_resets :: int
  qw_pct :: float64
  qw_scope :: string
  qw_observed :: int

definition window_of :: "int \<Rightarrow> quota_snapshot \<Rightarrow> quota_window" where
  "window_of minutes q =
     \<lparr>qw_start = q_resets_at q - minutes * 60000, qw_resets = q_resets_at q, qw_pct = q_used_percent q, qw_scope = q_scope q,
      qw_observed = q_observed_at q\<rparr>"

definition live_reading :: "int \<Rightarrow> int \<Rightarrow> quota_snapshot \<Rightarrow> bool" where
  "live_reading nowMS minutes q \<longleftrightarrow> \<not> (q_window_minutes q \<noteq> minutes \<or> q_resets_at q = 0 \<or> q_resets_at q < nowMS)"

definition tighten :: "int \<Rightarrow> int \<Rightarrow> (string \<times> quota_window) list \<Rightarrow> quota_snapshot \<Rightarrow> (string \<times> quota_window) list" where
  "tighten nowMS minutes out q =
     (if \<not> live_reading nowMS minutes q then out
      else if (case map_of out (q_source q) of Some cur \<Rightarrow> float_le (q_used_percent q) (qw_pct cur) | None \<Rightarrow> False) then out
      else AList.update (q_source q) (window_of minutes q) out)"

definition tightestQuota :: "quota_snapshot list \<Rightarrow> int \<Rightarrow> int \<Rightarrow> (string \<times> quota_window) list" where
  "tightestQuota quotas nowMS minutes = foldl (tighten nowMS minutes) [] quotas"

section \<open>Cards\<close>

record window_card =
  wc_key :: string
  wc_kind :: string
  wc_window_minutes :: int
  wc_tokens :: int
  wc_events :: int
  wc_cost :: float64
  wc_used_percent :: float64
  wc_start :: int
  wc_end :: int
  wc_resets_at :: int
  wc_authoritative :: bool
  wc_placeholder :: bool
  wc_source :: string
  wc_scope :: string
  wc_observed_at :: int
  wc_rate :: int
  wc_remaining_minutes :: int
  wc_projected_tokens :: int
  wc_projected_percent :: float64
  wc_capacity :: int
  wc_remaining :: int

definition zero_card :: window_card where
  "zero_card = \<lparr>wc_key = [], wc_kind = [], wc_window_minutes = 0, wc_tokens = 0, wc_events = 0, wc_cost = 0, wc_used_percent = 0,
     wc_start = 0, wc_end = 0, wc_resets_at = 0, wc_authoritative = False, wc_placeholder = False, wc_source = [], wc_scope = [],
     wc_observed_at = 0, wc_rate = 0, wc_remaining_minutes = 0, wc_projected_tokens = 0, wc_projected_percent = 0,
     wc_capacity = 0, wc_remaining = 0\<rparr>"

definition fiveHours :: int where "fiveHours = 5 * hour_ns"
definition projectionMinElapsed :: float64 where "projectionMinElapsed = 0x3FB999999999999A"

text \<open>\<open>Duration.Minutes\<close>\<close>

definition duration_minutes :: "float_ops \<Rightarrow> int \<Rightarrow> float64" where
  "duration_minutes fo d =
     fo_add fo (fo_of_int fo (go_quot d 60000000000))
       (fo_div fo (fo_of_int fo (d - go_quot d 60000000000 * 60000000000)) 0x422BF08EB0000000)"

definition projectToWindowEnd :: "float_ops \<Rightarrow> int \<Rightarrow> int \<Rightarrow> window_card \<Rightarrow> window_card" where
  "projectToWindowEnd fo now start c =
     (if wc_resets_at c = 0 then c
      else
        let elapsed = duration_minutes fo (now - start); remain = duration_minutes fo (wc_resets_at c * 1000000 - now)
        in if float_less elapsed float_one \<or> float_le remain 0 then c
           else if float_less elapsed (fo_mul fo (fo_add fo elapsed remain) projectionMinElapsed) then c
           else
             let rate = fo_div fo (fo_of_int fo (wc_tokens c)) elapsed;
                 projected = i64 (wc_tokens c + fo_to_int fo (fo_mul fo rate remain))
             in c\<lparr>wc_rate := fo_to_int fo rate, wc_remaining_minutes := fo_to_int fo remain, wc_projected_tokens := projected,
                  wc_projected_percent :=
                    (if float_less 0 (wc_used_percent c) \<and> wc_tokens c > 0
                     then fo_div fo (fo_mul fo (wc_used_percent c) (fo_of_int fo projected)) (fo_of_int fo (wc_tokens c))
                     else wc_projected_percent c)\<rparr>)"

text \<open>\<open>estimate\<close> is \<open>CapacityEstimate\<close> of the calibration table; \<open>None\<close> outside is an error.\<close>

definition fillCapacity :: "float_ops \<Rightarrow> (string \<Rightarrow> string \<Rightarrow> int \<Rightarrow> int option option) \<Rightarrow> string \<Rightarrow> quota_window \<Rightarrow> int \<Rightarrow> window_card \<Rightarrow>
    window_card" where
  "fillCapacity fo estimate source w minutes cd =
     (case estimate source (qw_scope w) minutes of
        None \<Rightarrow> cd
      | Some prior \<Rightarrow>
          (case CapacityForWindow fo prior (wc_tokens cd) (qw_pct w) of
             None \<Rightarrow> cd
           | Some capacity \<Rightarrow> cd\<lparr>wc_capacity := capacity, wc_remaining := max (i64 (capacity - wc_tokens cd)) 0\<rparr>))"

definition window_sum :: "pricing_env \<Rightarrow> (int \<Rightarrow> string) \<Rightarrow> price_table \<Rightarrow> event_row list \<Rightarrow> int \<Rightarrow> int \<Rightarrow>
    (string \<times> model_usage \<Rightarrow> bool) \<Rightarrow> int \<times> int \<times> float64" where
  "window_sum e utc_day table events now fromMS keep =
     foldl (\<lambda>(tokens, n, cost) (source, u).
         (tokens + tt_total (mu_totals u), n + tt_events (mu_totals u),
          case snd (Cost (pn_float e) (pn_unicode e) utc_day (ns_millis now) u table) of
            Some c \<Rightarrow> fo_add (pn_float e) cost c | None \<Rightarrow> cost))
       (0, 0, 0) (filter keep (UsageByProvider events fromMS (ns_millis now + 60000)))"

definition subscription_row :: "string \<Rightarrow> string \<times> model_usage \<Rightarrow> bool" where
  "subscription_row source r \<longleftrightarrow> fst r = source \<and> IsSubscription (fst r) (mu_provider (snd r))"

definition subscription_card :: "pricing_env \<Rightarrow> (int \<Rightarrow> string) \<Rightarrow> price_table \<Rightarrow> event_row list \<Rightarrow> (string \<Rightarrow> string \<Rightarrow> int \<Rightarrow> int option option) \<Rightarrow>
    int \<Rightarrow> int \<Rightarrow> (string \<times> quota_window) list \<Rightarrow> string \<Rightarrow> window_card option" where
  "subscription_card e utc_day table events estimate now minutes quota source =
     (let rollingStart = now - fiveHours;
          cd = zero_card\<lparr>wc_key := (if minutes \<noteq> 300 then source @ '':weekly'' else source), wc_kind := ''subscription'',
            wc_window_minutes := minutes, wc_end := ns_millis now\<rparr>
      in case map_of quota source of
        None \<Rightarrow>
          if minutes \<noteq> 300 then None
          else
            let (tokens, n, cost) = window_sum e utc_day table events now (ns_millis rollingStart) (subscription_row source)
            in Some (projectToWindowEnd (pn_float e) now rollingStart
                 (cd\<lparr>wc_start := ns_millis rollingStart, wc_placeholder := True, wc_tokens := tokens, wc_events := n, wc_cost := cost\<rparr>))
      | Some w \<Rightarrow>
          let (tokens, n, cost) = window_sum e utc_day table events now (qw_start w) (subscription_row source)
          in Some (fillCapacity (pn_float e) estimate source w minutes
               (projectToWindowEnd (pn_float e) now (qw_start w * 1000000)
                 (cd\<lparr>wc_authoritative := True, wc_start := qw_start w, wc_resets_at := qw_resets w, wc_used_percent := qw_pct w,
                    wc_source := source, wc_scope := qw_scope w, wc_observed_at := qw_observed w,
                    wc_tokens := tokens, wc_events := n, wc_cost := cost\<rparr>))))"

definition channel_card :: "pricing_env \<Rightarrow> (int \<Rightarrow> string) \<Rightarrow> price_table \<Rightarrow> event_row list \<Rightarrow> int \<Rightarrow> string \<Rightarrow> window_card option" where
  "channel_card e utc_day table events now channel =
     (let (tokens, n, cost) = window_sum e utc_day table events now (ns_millis (now - fiveHours)) (\<lambda>r. BillingChannel (mu_provider (snd r)) = channel)
      in if tokens = 0 then None
         else Some (zero_card\<lparr>wc_key := channel, wc_kind := channel, wc_tokens := tokens, wc_events := n, wc_cost := cost,
                wc_start := ns_millis (now - fiveHours), wc_end := ns_millis now\<rparr>))"

definition buildWindowCards :: "pricing_env \<Rightarrow> (int \<Rightarrow> string) \<Rightarrow> price_table \<Rightarrow> event_row list \<Rightarrow> (string \<Rightarrow> string \<Rightarrow> int \<Rightarrow> int option option) \<Rightarrow>
    int \<Rightarrow> quota_snapshot list \<Rightarrow> window_card list" where
  "buildWindowCards e utc_day table events estimate now quotas =
     concat (map (\<lambda>minutes.
         List.map_filter (subscription_card e utc_day table events estimate now minutes (tightestQuota quotas (ns_millis now) minutes))
           [''claude-code'', ''codex''])
       [300, 10080]) @
     List.map_filter (channel_card e utc_day table events now) [ChannelAPI, ChannelRelay, ChannelUnknown]"

section \<open>The quota endpoint\<close>

record quota_view =
  qz_snapshot :: quota_snapshot
  qz_expired :: bool

definition handleQuota :: "quota_snapshot list \<Rightarrow> int \<Rightarrow> int \<Rightarrow> quota_view list" where
  "handleQuota quotas sinceMS nowMS =
     map (\<lambda>q. \<lparr>qz_snapshot = q, qz_expired = (q_resets_at q > 0 \<and> q_resets_at q < nowMS)\<rparr>) (LatestQuotas quotas sinceMS)"

end
