(* ===== verification/Window_Properties.thy ===== *)
theory Window_Properties
  imports Window_Cards Live_View_Properties Pricing_Properties
begin

text \<open>What a card of the window section counts, and which reading it states.\<close>

section \<open>The tightest reading\<close>

lemma float_le_self: "\<not> float_nan a \<Longrightarrow> float_le a a"
  by (simp add: float_le_def)

lemma float_le_trans: "float_le a b \<Longrightarrow> float_le b c \<Longrightarrow> float_le a c"
  by (auto simp: float_le_def)

lemma float_le_total: "\<not> float_nan a \<Longrightarrow> \<not> float_nan b \<Longrightarrow> \<not> float_le a b \<Longrightarrow> float_le b a"
  by (auto simp: float_le_def)

definition tightest_of :: "quota_snapshot list \<Rightarrow> int \<Rightarrow> int \<Rightarrow> string \<Rightarrow> quota_window option \<Rightarrow> bool" where
  "tightest_of quotas nowMS minutes source w =
     (case w of
        None \<Rightarrow> \<forall>q\<in>set quotas. \<not> (live_reading nowMS minutes q \<and> q_source q = source)
      | Some w \<Rightarrow> (\<exists>q\<in>set quotas. live_reading nowMS minutes q \<and> q_source q = source \<and> w = window_of minutes q) \<and>
          (\<forall>q\<in>set quotas. live_reading nowMS minutes q \<and> q_source q = source \<longrightarrow> float_le (q_used_percent q) (qw_pct w)))"

lemma window_of_pct [simp]: "qw_pct (window_of minutes q) = q_used_percent q"
  by (simp add: window_of_def)

lemma tighten_step:
  assumes "\<forall>q\<in>set (qs @ [q]). \<not> float_nan (q_used_percent q)" "tightest_of qs nowMS minutes source (map_of out source)"
  shows "tightest_of (qs @ [q]) nowMS minutes source (map_of (tighten nowMS minutes out q) source)"
proof (cases "live_reading nowMS minutes q \<and> q_source q = source")
  case False
  then have "map_of (tighten nowMS minutes out q) source = map_of out source"
    by (auto simp: tighten_def update_conv split: option.split)
  with False assms(2) show ?thesis by (auto simp: tightest_of_def split: option.splits)
next
  case True
  show ?thesis
  proof (cases "map_of out source")
    case None
    with True assms show ?thesis by (auto simp: tighten_def update_conv tightest_of_def intro: float_le_self)
  next
    case (Some cur)
    then have cur: "\<not> float_nan (qw_pct cur)" using assms by (auto simp: tightest_of_def)
    show ?thesis
    proof (cases "float_le (q_used_percent q) (qw_pct cur)")
      case le: True
      with True Some assms show ?thesis by (auto simp: tighten_def tightest_of_def)
    next
      case False
      then have "float_le (qw_pct cur) (q_used_percent q)" using cur assms(1) by (auto intro: float_le_total)
      with False True Some assms show ?thesis
        by (auto simp: tighten_def update_conv tightest_of_def intro: float_le_self dest: float_le_trans)
    qed
  qed
qed

lemma tightestQuota_tightest:
  assumes "\<forall>q\<in>set quotas. \<not> float_nan (q_used_percent q)"
  shows "tightest_of quotas nowMS minutes source (map_of (tightestQuota quotas nowMS minutes) source)"
  using assms
proof (induction quotas rule: rev_induct)
  case Nil
  show ?case by (simp add: tightestQuota_def tightest_of_def)
next
  case (snoc q qs)
  then show ?case using tighten_step [of qs q nowMS minutes source "tightestQuota qs nowMS minutes"] by (simp add: tightestQuota_def)
qed

section \<open>The tokens of a card\<close>

lemma window_sum_tokens:
  "fst (window_sum e utc_day table events now fromMS keep) =
     (\<Sum>r\<leftarrow>filter keep (UsageByProvider events fromMS (ns_millis now + 60000)). tt_total (mu_totals (snd r)))"
proof -
  have "fst (foldl (\<lambda>(tokens, n, cost) (source, u).
         (tokens + tt_total (mu_totals u), n + tt_events (mu_totals u),
          case snd (Cost (pn_float e) (pn_unicode e) utc_day (ns_millis now) u table) of
            Some c \<Rightarrow> fo_add (pn_float e) cost c | None \<Rightarrow> cost)) acc rows) =
      fst acc + (\<Sum>r\<leftarrow>rows. tt_total (mu_totals (snd r)))" for acc and rows :: "(string \<times> model_usage) list"
    by (induction rows arbitrary: acc) (auto simp: case_prod_beta)
  then show ?thesis by (simp add: window_sum_def)
qed

lemma provider_tokens:
  "(\<Sum>r\<leftarrow>filter (\<lambda>r. P (fst r) (mu_provider (snd r))) (UsageByProvider events a b). tt_total (mu_totals (snd r))) =
     (\<Sum>r\<leftarrow>filter (\<lambda>r. P (ev_source r) (ev_provider r)) (in_period a b events). usage_tokens r)"
proof -
  let ?k = "\<lambda>r. (ev_source r, ev_provider r, ev_model r)"
  let ?row = "\<lambda>((s, p, m), rows). (s, usage_row m p rows)"
  let ?Q = "\<lambda>k. P (fst k) (fst (snd k))"
  have "filter (\<lambda>r. P (fst r) (mu_provider (snd r))) (UsageByProvider events a b) =
      map ?row (filter (\<lambda>g. ?Q (fst g)) (sql_group ?k (in_period a b events)))"
    by (simp add: UsageByProvider_def filter_map comp_def case_prod_beta usage_row_def)
  also have "\<dots> = map ?row (sql_group ?k (filter (\<lambda>r. P (ev_source r) (ev_provider r)) (in_period a b events)))"
    using sql_group_where [of ?Q ?k "in_period a b events"] by simp
  finally have "(\<Sum>r\<leftarrow>filter (\<lambda>r. P (fst r) (mu_provider (snd r))) (UsageByProvider events a b). tt_total (mu_totals (snd r))) =
      (\<Sum>g\<leftarrow>sql_group ?k (filter (\<lambda>r. P (ev_source r) (ev_provider r)) (in_period a b events)). \<Sum>r\<leftarrow>snd g. usage_tokens r)"
    by (simp add: comp_def case_prod_beta usage_row_def sums_def)
  also have "\<dots> = (\<Sum>r\<leftarrow>filter (\<lambda>r. P (ev_source r) (ev_provider r)) (in_period a b events). usage_tokens r)" by (rule group_sum)
  finally show ?thesis .
qed

text \<open>The events a card counts.\<close>

definition card_counts :: "window_card \<Rightarrow> event_row \<Rightarrow> bool" where
  "card_counts c r \<longleftrightarrow>
     (if wc_kind c = ''subscription'' then BillingChannel (ev_provider r) = ChannelSubscription \<and>
         wc_key c = (if wc_window_minutes c = 300 then ev_source r else ev_source r @ '':weekly'')
      else BillingChannel (ev_provider r) = wc_kind c)"

lemma project_fields [simp]:
  "wc_tokens (projectToWindowEnd fo now start c) = wc_tokens c" "wc_start (projectToWindowEnd fo now start c) = wc_start c"
  "wc_kind (projectToWindowEnd fo now start c) = wc_kind c" "wc_key (projectToWindowEnd fo now start c) = wc_key c"
  "wc_authoritative (projectToWindowEnd fo now start c) = wc_authoritative c" "wc_source (projectToWindowEnd fo now start c) = wc_source c"
  "wc_used_percent (projectToWindowEnd fo now start c) = wc_used_percent c" "wc_resets_at (projectToWindowEnd fo now start c) = wc_resets_at c"
  "wc_window_minutes (projectToWindowEnd fo now start c) = wc_window_minutes c" "wc_scope (projectToWindowEnd fo now start c) = wc_scope c"
  by (simp_all add: projectToWindowEnd_def Let_def)

lemma capacity_fields [simp]:
  "wc_tokens (fillCapacity fo estimate source w m c) = wc_tokens c" "wc_start (fillCapacity fo estimate source w m c) = wc_start c"
  "wc_kind (fillCapacity fo estimate source w m c) = wc_kind c" "wc_key (fillCapacity fo estimate source w m c) = wc_key c"
  "wc_authoritative (fillCapacity fo estimate source w m c) = wc_authoritative c" "wc_source (fillCapacity fo estimate source w m c) = wc_source c"
  "wc_used_percent (fillCapacity fo estimate source w m c) = wc_used_percent c" "wc_resets_at (fillCapacity fo estimate source w m c) = wc_resets_at c"
  "wc_window_minutes (fillCapacity fo estimate source w m c) = wc_window_minutes c" "wc_scope (fillCapacity fo estimate source w m c) = wc_scope c"
  by (simp_all add: fillCapacity_def split: option.split)

lemma subscription_tokens:
  "fst (window_sum e utc_day table events now fromMS (subscription_row source)) =
     (\<Sum>r\<leftarrow>filter (\<lambda>r. ev_source r = source \<and> BillingChannel (ev_provider r) = ChannelSubscription)
        (in_period fromMS (ns_millis now + 60000) events). usage_tokens r)"
  using provider_tokens [of "\<lambda>s p. s = source \<and> BillingChannel p = ChannelSubscription" events fromMS "ns_millis now + 60000"]
  by (simp add: window_sum_tokens subscription_row_def [abs_def] IsSubscription_def)

lemma channel_tokens:
  "fst (window_sum e utc_day table events now fromMS (\<lambda>r. BillingChannel (mu_provider (snd r)) = channel)) =
     (\<Sum>r\<leftarrow>filter (\<lambda>r. BillingChannel (ev_provider r) = channel) (in_period fromMS (ns_millis now + 60000) events). usage_tokens r)"
  using provider_tokens [of "\<lambda>s p. BillingChannel p = channel" events fromMS "ns_millis now + 60000"] by (simp add: window_sum_tokens)

lemma subscription_card_Some:
  assumes "subscription_card e utc_day table events estimate now minutes quota source = Some c"
  shows "wc_kind c = ''subscription'' \<and> wc_key c = (if minutes \<noteq> 300 then source @ '':weekly'' else source) \<and> wc_window_minutes c = minutes \<and>
    wc_tokens c = (\<Sum>r\<leftarrow>filter (\<lambda>r. ev_source r = source \<and> BillingChannel (ev_provider r) = ChannelSubscription)
        (in_period (wc_start c) (ns_millis now + 60000) events). usage_tokens r) \<and>
    (if wc_authoritative c then \<exists>w. map_of quota source = Some w \<and> wc_source c = source \<and> wc_used_percent c = qw_pct w \<and>
         wc_resets_at c = qw_resets w \<and> wc_start c = qw_start w \<and> wc_scope c = qw_scope w
     else map_of quota source = None \<and> minutes = 300 \<and> wc_start c = ns_millis (now - fiveHours))"
proof -
  have sum: "wc_tokens c = fst (window_sum e utc_day table events now (wc_start c) (subscription_row source))" and
    rest: "wc_kind c = ''subscription'' \<and> wc_key c = (if minutes \<noteq> 300 then source @ '':weekly'' else source) \<and> wc_window_minutes c = minutes \<and>
      (if wc_authoritative c then \<exists>w. map_of quota source = Some w \<and> wc_source c = source \<and> wc_used_percent c = qw_pct w \<and>
         wc_resets_at c = qw_resets w \<and> wc_start c = qw_start w \<and> wc_scope c = qw_scope w
       else map_of quota source = None \<and> minutes = 300 \<and> wc_start c = ns_millis (now - fiveHours))"
    using assms unfolding subscription_card_def Let_def zero_card_def
    by (auto split: option.splits prod.splits if_splits)
  show ?thesis using rest unfolding sum subscription_tokens by simp
qed

lemma in_map_filter: "y \<in> set (List.map_filter f xs) \<longleftrightarrow> (\<exists>x\<in>set xs. f x = Some y)"
  by (induction xs) (auto simp: map_filter_simps split: option.split)

lemma card_cases:
  assumes "c \<in> set (buildWindowCards e utc_day table events estimate now quotas)"
  obtains (subscription) minutes source where "minutes = 300 \<or> minutes = 10080"
      "subscription_card e utc_day table events estimate now minutes (tightestQuota quotas (ns_millis now) minutes) source = Some c"
  | (channel) ch where "ch \<in> {ChannelAPI, ChannelRelay, ChannelUnknown}" "channel_card e utc_day table events now ch = Some c"
proof -
  let ?sub = "\<lambda>minutes. subscription_card e utc_day table events estimate now minutes (tightestQuota quotas (ns_millis now) minutes)"
  have "(\<exists>minutes\<in>set [300, 10080]. \<exists>source\<in>set [''claude-code'', ''codex'']. ?sub minutes source = Some c) \<or>
      (\<exists>ch\<in>set [ChannelAPI, ChannelRelay, ChannelUnknown]. channel_card e utc_day table events now ch = Some c)"
    using assms unfolding buildWindowCards_def set_append set_concat set_map Un_iff UN_iff ball_simps in_map_filter bex_simps by blast
  then show thesis using subscription channel by auto
qed

lemma metered_kinds: "ch \<in> {ChannelAPI, ChannelRelay, ChannelUnknown} \<Longrightarrow> ch \<noteq> ''subscription''"
  by (auto simp: ChannelAPI_def ChannelRelay_def ChannelUnknown_def)

lemma card_tokens_and_reading:
  assumes "\<forall>q\<in>set quotas. \<not> float_nan (q_used_percent q)" "c \<in> set (buildWindowCards e utc_day table events estimate now quotas)"
  shows "wc_tokens c = (\<Sum>r\<leftarrow>filter (card_counts c) (in_period (wc_start c) (ns_millis now + 60000) events). usage_tokens r) \<and>
    (if wc_authoritative c
     then wc_kind c = ''subscription'' \<and> wc_key c = (if wc_window_minutes c = 300 then wc_source c else wc_source c @ '':weekly'') \<and>
       (\<exists>q\<in>set quotas. live_reading (ns_millis now) (wc_window_minutes c) q \<and> q_source q = wc_source c \<and>
         wc_used_percent c = q_used_percent q \<and> wc_resets_at c = q_resets_at q \<and> wc_start c = q_resets_at q - wc_window_minutes c * 60000) \<and>
       (\<forall>q\<in>set quotas. live_reading (ns_millis now) (wc_window_minutes c) q \<and> q_source q = wc_source c \<longrightarrow>
         float_le (q_used_percent q) (wc_used_percent c))
     else wc_start c = ns_millis (now - fiveHours) \<and>
       (wc_kind c = ''subscription'' \<longrightarrow> wc_window_minutes c = 300 \<and>
         (\<forall>q\<in>set quotas. live_reading (ns_millis now) 300 q \<longrightarrow> q_source q \<noteq> wc_key c)))"
  using assms(2)
proof (cases rule: card_cases)
  case (subscription minutes source)
  note card = subscription_card_Some [OF subscription(2)]
  have "card_counts c r \<longleftrightarrow> ev_source r = source \<and> BillingChannel (ev_provider r) = ChannelSubscription" for r
    using card by (auto simp: card_counts_def)
  then have counts: "card_counts c = (\<lambda>r. ev_source r = source \<and> BillingChannel (ev_provider r) = ChannelSubscription)" by blast
  have "tightest_of quotas (ns_millis now) minutes source (map_of (tightestQuota quotas (ns_millis now) minutes) source)"
    by (rule tightestQuota_tightest [OF assms(1)])
  then show ?thesis unfolding counts using card by (auto simp: tightest_of_def window_of_def split: if_splits) (blast+)
next
  case (channel ch)
  then have card: "wc_kind c = ch" "wc_start c = ns_millis (now - fiveHours)" "\<not> wc_authoritative c"
      "wc_tokens c = fst (window_sum e utc_day table events now (wc_start c) (\<lambda>r. BillingChannel (mu_provider (snd r)) = ch))"
    by (auto simp: channel_card_def zero_card_def Let_def split: prod.splits if_splits)
  have counts: "card_counts c = (\<lambda>r. BillingChannel (ev_provider r) = ch)"
    using metered_kinds [OF channel(1)] card(1) by (auto simp: card_counts_def)
  show ?thesis using card(1-3) metered_kinds [OF channel(1)] unfolding card(4) channel_tokens counts by simp
qed

text \<open>
  C40. A card of the window section counts what it says and states the reading that matters: its tokens are those of the
  events that belong to its source's subscription or to its channel, from its start up to a minute past now, all of them. That
  minute lies past the card's end and may lie past its reset; where no event
  is stamped later than now, the tokens are those of the events between the card's start and now. An
  authoritative card is a subscription's and carries a live reading of its source and window, no live reading of that source and
  window is fuller; any other card starts five hours ago, and a subscription's only where its source has no live five-hour reading.
\<close>

theorem cards_count_their_window:
  assumes "\<forall>q\<in>set quotas. \<not> float_nan (q_used_percent q)" "c \<in> set (buildWindowCards e utc_day table events estimate now quotas)"
  shows "wc_tokens c = (\<Sum>r\<leftarrow>filter (card_counts c) (in_period (wc_start c) (ns_millis now + 60000) events). usage_tokens r) \<and>
    ((\<forall>r\<in>set events. ev_ts r \<le> ns_millis now) \<longrightarrow>
      wc_tokens c = (\<Sum>r\<leftarrow>filter (\<lambda>r. card_counts c r \<and> wc_start c \<le> ev_ts r \<and> ev_ts r \<le> ns_millis now) events. usage_tokens r)) \<and>
    (if wc_authoritative c
     then wc_kind c = ''subscription'' \<and> wc_key c = (if wc_window_minutes c = 300 then wc_source c else wc_source c @ '':weekly'') \<and>
       (\<exists>q\<in>set quotas. live_reading (ns_millis now) (wc_window_minutes c) q \<and> q_source q = wc_source c \<and>
         wc_used_percent c = q_used_percent q \<and> wc_resets_at c = q_resets_at q \<and> wc_start c = q_resets_at q - wc_window_minutes c * 60000) \<and>
       (\<forall>q\<in>set quotas. live_reading (ns_millis now) (wc_window_minutes c) q \<and> q_source q = wc_source c \<longrightarrow>
         float_le (q_used_percent q) (wc_used_percent c))
     else wc_start c = ns_millis (now - fiveHours) \<and>
       (wc_kind c = ''subscription'' \<longrightarrow> wc_window_minutes c = 300 \<and>
         (\<forall>q\<in>set quotas. live_reading (ns_millis now) 300 q \<longrightarrow> q_source q \<noteq> wc_key c)))"
    (is "?tokens \<and> ?by_now \<and> ?reading")
proof -
  have "?tokens \<and> ?reading" by (rule card_tokens_and_reading [OF assms])
  moreover have "?by_now" if ?tokens
  proof
    assume "\<forall>r\<in>set events. ev_ts r \<le> ns_millis now"
    then have "filter (card_counts c) (in_period (wc_start c) (ns_millis now + 60000) events) =
        filter (\<lambda>r. card_counts c r \<and> wc_start c \<le> ev_ts r \<and> ev_ts r \<le> ns_millis now) events"
      unfolding in_period_def filter_filter by (intro filter_cong refl) force
    with that show "wc_tokens c =
        (\<Sum>r\<leftarrow>filter (\<lambda>r. card_counts c r \<and> wc_start c \<le> ev_ts r \<and> ev_ts r \<le> ns_millis now) events. usage_tokens r)"
      by simp
  qed
  ultimately show ?thesis by blast
qed

definition card_quota :: "string \<Rightarrow> float64 \<Rightarrow> quota_snapshot" where
  "card_quota d pct = \<lparr>q_device = d, q_source = ''codex'', q_limit_id = [], q_scope = ''five_hour'', q_window_minutes = 300, q_used_percent = pct,
     q_resets_at = 19000000, q_observed_at = 1, q_plan_type = []\<rparr>"

definition card_event :: "int \<Rightarrow> int \<Rightarrow> event_row" where
  "card_event ts tokens = row_of (zero_event\<lparr>ev_ts := ts, ev_source := ''codex'', ev_provider := ProviderOpenAIChatGPT, ev_input_tokens := tokens\<rparr>) OriginSelf 0"

lemma card_event_fields [simp]:
  "ev_ts (card_event ts tokens) = ts" "ev_source (card_event ts tokens) = ''codex''" "ev_provider (card_event ts tokens) = ProviderOpenAIChatGPT"
  "usage_tokens (card_event ts tokens) = tokens"
  by (simp_all add: card_event_def row_of_def zero_event_def usage_tokens_def)

text \<open>Of three events the card counts the two in the window, one of them at its very start.\<close>

theorem cards_count_their_window_witness:
  "\<exists>c\<in>set (buildWindowCards wit_prices (\<lambda>_. []) (pz_table wit_started)
      [card_event 999999 9, card_event 1000000 5, card_event 17000000 7] (\<lambda>_ _ _. None) 18000000000000 [card_quota ''a'' 5, card_quota ''b'' 3]).
     wc_authoritative c \<and> wc_tokens c = 12 \<and> float_le 3 (wc_used_percent c)"
proof -
  let ?quotas = "[card_quota ''a'' 5, card_quota ''b'' 3]" and ?events = "[card_event 999999 9, card_event 1000000 5, card_event 17000000 7]"
  let ?cards = "buildWindowCards wit_prices (\<lambda>_. []) (pz_table wit_started) ?events (\<lambda>_ _ _. None) 18000000000000 ?quotas"
  have floats: "\<not> float_nan 5" "\<not> float_nan 3" "float_le 3 5" by code_simp+
  have quota: "tightestQuota ?quotas (ns_millis 18000000000000) 300 = [(''codex'', window_of 300 (card_quota ''a'' 5))]"
    using floats by (simp add: tightestQuota_def tighten_def live_reading_def card_quota_def ns_millis_def)
  obtain c where c: "subscription_card wit_prices (\<lambda>_. []) (pz_table wit_started) ?events (\<lambda>_ _ _. None) 18000000000000 300
      (tightestQuota ?quotas (ns_millis 18000000000000) 300) ''codex'' = Some c" "wc_authoritative c"
    unfolding quota subscription_card_def Let_def by (simp add: case_prod_beta)
  then have "c \<in> set ?cards" by (force simp: buildWindowCards_def List.map_filter_def)
  moreover have card: "wc_source c = ''codex''" "wc_window_minutes c = 300" "wc_kind c = ''subscription''" "wc_key c = ''codex''" "wc_start c = 1000000"
    using subscription_card_Some [OF c(1), unfolded quota] c(2) by (auto simp: window_of_def card_quota_def)
  moreover have "BillingChannel ProviderOpenAIChatGPT = ChannelSubscription" by code_simp
  then have "card_counts c (card_event ts tokens)" for ts tokens by (simp add: card_counts_def card)
  ultimately show ?thesis
    using cards_count_their_window [of ?quotas c wit_prices "\<lambda>_. []" "pz_table wit_started" ?events "\<lambda>_ _ _. None" 18000000000000] c(2) floats
    by (auto simp: card_quota_def live_reading_def ns_millis_def intro!: bexI [of _ c])
qed

end
