(* ===== verification/Agent_Service.thy ===== *)
theory Agent_Service
  imports Agent_Facts Enrollment Status_Quota Procs Live_View
begin

text \<open>
  The resident agent of \<open>internal/agent/agent.go\<close>: how it is set up, what it pushes under either protocol version, the process
  and quota reports, the heartbeat and the routes of its relay. Reading the state file, opening the outbox, random bytes,
  the process table and the network's answers are inputs.
\<close>

section \<open>Set-up\<close>

record agent_settings =
  ac_server_url :: string
  ac_resolve_ip :: string
  ac_allow_insecure_http :: bool
  ac_token :: string
  ac_protocol_version :: int
  ac_device_id :: string
  ac_device_token :: string
  ac_outbox_path :: string
  ac_outbox_max_bytes :: int
  ac_agent_version :: string
  ac_capabilities :: "string list"
  ac_device_name :: string
  ac_claude_dirs :: "string list"
  ac_codex_dirs :: "string list"
  ac_dsh_dirs :: "string list"
  ac_state_path :: string
  ac_cache_path :: string
  ac_interval :: int
  ac_relay_listen :: string
  ac_relay_token :: string
  ac_relay_upstream_token :: string
  ac_since :: "int option"
  ac_proxy_listen :: string
  ac_proxy_upstreams :: "(string \<times> string) list"

record agent =
  ag_settings :: agent_settings
  ag_outbox :: "outbox option"
  ag_boot_id :: string
  ag_reader :: "status_reader option"
  ag_sequence :: "64 word"
  ag_last_scan :: int
  ag_last_upload :: int

datatype agent_error = AgentProtocol int | AgentURL url_error | AgentRelayToken | AgentResolveIP | AgentState | AgentCredentials
  | AgentRandom | AgentOutbox

definition settings_v2 :: "agent_settings \<Rightarrow> bool" where
  "settings_v2 c \<longleftrightarrow> ac_protocol_version c = IngestProtocolV2"

definition isV2 :: "agent \<Rightarrow> bool" where
  "isV2 a \<longleftrightarrow> settings_v2 (ag_settings a)"

definition scanDevice :: "agent \<Rightarrow> string" where
  "scanDevice a = (if isV2 a then ac_device_id (ag_settings a) else ac_device_name (ag_settings a))"

text \<open>\<open>net\<close> is the URL parser; \<open>state_ok\<close>, whether the state file loads; \<open>random\<close>, what \<open>crypto/rand\<close> gives; \<open>opened\<close>, the outbox at a path.\<close>

definition New :: "net_std \<Rightarrow> bool \<Rightarrow> 8 word list option \<Rightarrow> (string \<Rightarrow> int \<Rightarrow> outbox option) \<Rightarrow> agent_settings \<Rightarrow> agent_error + agent" where
  "New net state_ok random opened cfg0 =
     (let cfg1 = (if ac_protocol_version cfg0 = 0 then cfg0\<lparr>ac_protocol_version := 1\<rparr> else cfg0)
      in if ac_protocol_version cfg1 \<noteq> 1 \<and> \<not> settings_v2 cfg1 then Inl (AgentProtocol (ac_protocol_version cfg1))
         else case validateServerURL (ns_parse_url net) (ns_loopback_ip net) (ac_server_url cfg1) (ac_allow_insecure_http cfg1) of
           Inl e \<Rightarrow> Inl (AgentURL e)
         | Inr u \<Rightarrow>
             let cfg = cfg1\<lparr>ac_server_url := url_string u\<rparr>
             in if ac_relay_listen cfg \<noteq> [] \<and> ac_relay_token cfg = [] then Inl AgentRelayToken
                else if \<not> newHTTPClient_ok (ns_valid_ip net) (ac_resolve_ip cfg) then Inl AgentResolveIP
                else if \<not> state_ok then Inl AgentState
                else
                  let a = \<lparr>ag_settings = cfg, ag_outbox = None, ag_boot_id = [], ag_reader = None, ag_sequence = 0, ag_last_scan = 0,
                        ag_last_upload = 0\<rparr>;
                      with_reader = (\<lambda>a. if ac_cache_path cfg = [] then a
                        else a\<lparr>ag_reader := Some (NewStatusQuotaReader (scanDevice a) (ac_cache_path cfg))\<rparr>)
                  in if \<not> settings_v2 cfg then Inr (with_reader a)
                     else if ac_device_id cfg = [] \<or> ac_device_token cfg = [] then Inl AgentCredentials
                     else case random of
                       None \<Rightarrow> Inl AgentRandom
                     | Some r \<Rightarrow>
                         (case opened (if ac_outbox_path cfg = [] then Join [Dir (ac_state_path cfg), ''outbox.db''] else ac_outbox_path cfg)
                             (ac_outbox_max_bytes cfg) of
                            None \<Rightarrow> Inl AgentOutbox
                          | Some o1 \<Rightarrow> Inr (with_reader (a\<lparr>ag_boot_id := newUUID r, ag_outbox := Some o1\<rparr>))))"

section \<open>Pushing\<close>

record v1_payload =
  vp_events :: "event list"
  vp_quotas :: "quota_snapshot list"
  vp_procs :: "proc_report option"

datatype push_error = PushOutbox outbox_error | PushMarshal | PushTransport | PushStatus int | PushUpload upload_error | PushProcs

text \<open>\<open>net\<close> is what the network makes of a request: its bearer token and its body; \<open>None\<close> where nothing came back.\<close>

definition postIngest :: "(v1_payload \<Rightarrow> string option) \<Rightarrow> (string \<Rightarrow> string \<Rightarrow> int option) \<Rightarrow> agent \<Rightarrow> v1_payload \<Rightarrow> push_error option" where
  "postIngest marshal net a p =
     (case marshal p of
        None \<Rightarrow> Some PushMarshal
      | Some body \<Rightarrow>
          (case net (if ac_token (ag_settings a) = [] then [] else ''Bearer '' @ ac_token (ag_settings a)) body of
             None \<Rightarrow> Some PushTransport
           | Some status \<Rightarrow> if status \<noteq> 200 then Some (PushStatus status) else None))"

record push_env =
  pu_marshal_v1 :: "v1_payload \<Rightarrow> string option"
  pu_net :: "string \<Rightarrow> string \<Rightarrow> int option"
  pu_marshal :: "envelope \<Rightarrow> string option"
  pu_unmarshal :: "string \<Rightarrow> envelope option"
  pu_fails :: "outbox_step \<Rightarrow> bool"
  pu_now :: int
  pu_draws :: "draw list"

definition envelope_cfg :: "agent \<Rightarrow> agent_cfg" where
  "envelope_cfg a = \<lparr>cfg_device_id = ac_device_id (ag_settings a), cfg_boot_id = ag_boot_id a\<rparr>"

text \<open>An operation on the outbox of a version 2 agent, which has one.\<close>

definition on_outbox :: "(outbox \<Rightarrow> outbox \<times> outbox_error option) \<Rightarrow> agent \<Rightarrow> agent \<times> push_error option" where
  "on_outbox f a =
     (case ag_outbox a of
        None \<Rightarrow> (a, Some (PushOutbox ErrOutboxEmpty))
      | Some o1 \<Rightarrow> (case f o1 of (o2, err) \<Rightarrow> (a\<lparr>ag_outbox := Some o2\<rparr>, map_option PushOutbox err)))"

definition agent_push :: "push_env \<Rightarrow> agent \<Rightarrow> event list \<Rightarrow> agent \<times> push_error option" where
  "agent_push e a events =
     (if isV2 a then on_outbox (enqueueEvents (envelope_cfg a) (pu_marshal e) (pu_fails e) (pu_now e) events (pu_draws e)) a
      else (a, postIngest (pu_marshal_v1 e) (pu_net e) a \<lparr>vp_events = events, vp_quotas = [], vp_procs = None\<rparr>))"

definition agent_pushQuotas :: "push_env \<Rightarrow> agent \<Rightarrow> quota_snapshot list \<Rightarrow> agent \<times> push_error option" where
  "agent_pushQuotas e a qs =
     (if isV2 a then on_outbox (pushQuotas (envelope_cfg a) (pu_marshal e) (pu_fails e) (pu_now e) qs (pu_draws e)) a
      else (a, postIngest (pu_marshal_v1 e) (pu_net e) a \<lparr>vp_events = [], vp_quotas = qs, vp_procs = None\<rparr>))"

definition collectStatusQuota :: "push_env \<Rightarrow> (string \<Rightarrow> rate_limits_file option) \<Rightarrow> files \<Rightarrow> int \<Rightarrow> agent \<Rightarrow> agent \<times> push_error option" where
  "collectStatusQuota e unmarshal fs now a =
     (case ag_reader a of
        None \<Rightarrow> (a, None)
      | Some r \<Rightarrow>
          (case status_Collect unmarshal fs now r of
             (r', qs) \<Rightarrow>
               let a' = a\<lparr>ag_reader := Some r'\<rparr>
               in if qs = [] then (a', None) else agent_pushQuotas e a' qs))"

text \<open>\<open>post\<close> and \<open>fails\<close> are those of the drain that follows.\<close>

definition reportProcs :: "push_env \<Rightarrow> (nat \<Rightarrow> outbox_step \<Rightarrow> bool) \<Rightarrow> (nat \<Rightarrow> string \<Rightarrow> http_response) \<Rightarrow> proc_info list option \<Rightarrow> int \<Rightarrow> int \<Rightarrow>
    agent \<Rightarrow> agent \<times> push_error option" where
  "reportProcs e fails post table selfPID now a =
     (case LiveProcesses table selfPID (scanDevice a) now of
        (report, False) \<Rightarrow> (a, Some PushProcs)
      | (report, True) \<Rightarrow>
          if isV2 a then
            (case on_outbox (enqueueEnvelope (envelope_cfg a) (pu_marshal e) (pu_fails e) (pu_now e)
                (empty_envelope\<lparr>ie_kind := IngestKindProcs, ie_procs := Some report\<rparr>) (pu_draws e)) a of
               (a1, Some err) \<Rightarrow> (a1, Some err)
             | (a1, None) \<Rightarrow>
                 (case drainOutbox (pu_marshal e) (pu_unmarshal e) fails post 0 (the (ag_outbox a1)) of
                    (o2, n, err) \<Rightarrow> (a1\<lparr>ag_outbox := Some o2\<rparr>, map_option PushUpload err)))
          else (a, postIngest (pu_marshal_v1 e) (pu_net e) a \<lparr>vp_events = [], vp_quotas = [], vp_procs = Some report\<rparr>))"

section \<open>The heartbeat\<close>

definition default_capabilities :: "string list" where
  "default_capabilities = [''events'', ''quotas'', ''procs'', ''heartbeat'', ''durable_outbox'']"

definition heartbeat_of :: "agent \<Rightarrow> outbox_stats \<Rightarrow> int \<Rightarrow> proc_report option \<Rightarrow> heartbeat" where
  "heartbeat_of a stats now process_state =
     \<lparr>hb_protocol_version = IngestProtocolV2, hb_device_id = ac_device_id (ag_settings a), hb_agent_version = ac_agent_version (ag_settings a),
      hb_boot_id = ag_boot_id a, hb_sequence = ag_sequence a + 1, hb_sent_at = now,
      hb_capabilities = (if ac_capabilities (ag_settings a) = [] then default_capabilities else ac_capabilities (ag_settings a)),
      hb_queued_batches = int (st_queued_batches stats), hb_queued_bytes = st_queued_bytes stats,
      hb_oldest_queued_at = st_oldest_queued_at stats, hb_last_scan_at = ag_last_scan a, hb_last_upload_at = ag_last_upload a,
      hb_warnings = [], hb_process_state = process_state\<rparr>"

datatype heartbeat_error = HeartbeatStats | HeartbeatMarshal | HeartbeatTransport | HeartbeatStatus int

text \<open>\<open>post\<close> takes the \<open>Authorization\<close> header and the heartbeat, and gives a status.\<close>

definition sendHeartbeat :: "bool \<Rightarrow> bool \<Rightarrow> proc_info list option \<Rightarrow> int \<Rightarrow> int \<Rightarrow> (string \<Rightarrow> heartbeat \<Rightarrow> int option) \<Rightarrow> agent \<Rightarrow>
    agent \<times> heartbeat_error option" where
  "sendHeartbeat stats_fail marshal_fails table selfPID now post a =
     (if stats_fail \<or> ag_outbox a = None then (a, Some HeartbeatStats)
      else
        let state = (case LiveProcesses table selfPID (ac_device_id (ag_settings a)) now of (report, ok) \<Rightarrow> if ok then Some report else None);
            hb = heartbeat_of a (Stats (the (ag_outbox a))) now state;
            a' = a\<lparr>ag_sequence := ag_sequence a + 1\<rparr>
        in if marshal_fails then (a', Some HeartbeatMarshal)
           else case post (''Bearer '' @ ac_device_token (ag_settings a)) hb of
             None \<Rightarrow> (a', Some HeartbeatTransport)
           | Some status \<Rightarrow> if status < 200 \<or> status \<ge> 300 then (a', Some (HeartbeatStatus status)) else (a', None))"

section \<open>The relay's routes\<close>

definition relay_routes :: "(string \<times> nat) list" where
  "relay_routes = [(''POST /api/v1/ingest'', 64 * 2 ^ 20), (''POST /api/v2/ingest'', MaxIngestEnvelopeBytes), (''POST /api/v2/heartbeat'', 2 ^ 20)]"

definition relayServer :: "net_std \<Rightarrow> agent_settings \<Rightarrow> agent_error + (string \<times> nat) list" where
  "relayServer net c =
     (case validateServerURL (ns_parse_url net) (ns_loopback_ip net) (ac_server_url c) (ac_allow_insecure_http c) of
        Inl e \<Rightarrow> Inl (AgentURL e)
      | Inr u \<Rightarrow> if ac_relay_token c = [] then Inl AgentRelayToken else Inr relay_routes)"

definition relay_serve :: "(string \<Rightarrow> 8 word list) \<Rightarrow> agent_settings \<Rightarrow> string \<Rightarrow> relay_request \<Rightarrow> relay_result" where
  "relay_serve sha256 c route r =
     (if route = ''GET /api/v1/health'' then RelayStatus 200
      else case map_of relay_routes route of
        None \<Rightarrow> RelayStatus 404
      | Some maxBytes \<Rightarrow> relayForward sha256 (ac_relay_token c) (ac_relay_upstream_token c) maxBytes r)"

definition addRelayCredential :: "agent_settings \<Rightarrow> relay_request \<Rightarrow> relay_request" where
  "addRelayCredential c r =
     (let token = relayUpstreamToken (ac_relay_upstream_token c) (ac_relay_token c)
      in if token \<noteq> [] then r\<lparr>rr_tokens := [token]\<rparr> else r)"

section \<open>An agent and its hub\<close>

text \<open>One heartbeat over a network that lets the request and the reply through; the hub's clock is its own.\<close>

definition status_of_reply :: "reply \<Rightarrow> int" where
  "status_of_reply r = (case r of ReplyError n m \<Rightarrow> n | ReplyAck n ack \<Rightarrow> n | ReplyDevice n d \<Rightarrow> n | _ \<Rightarrow> 200)"

definition beat_of :: "proc_info list option \<Rightarrow> int \<Rightarrow> int \<Rightarrow> agent \<Rightarrow> heartbeat" where
  "beat_of table selfPID now a =
     heartbeat_of a (Stats (the (ag_outbox a))) now
       (case LiveProcesses table selfPID (ac_device_id (ag_settings a)) now of (report, ok) \<Rightarrow> if ok then Some report else None)"

definition heartbeat_with :: "(string \<Rightarrow> 8 word list) \<Rightarrow> hub_faults \<Rightarrow> int \<Rightarrow> proc_info list option \<Rightarrow> int \<Rightarrow> int \<Rightarrow> agent \<Rightarrow> hub \<Rightarrow>
    (agent \<times> heartbeat_error option) \<times> hub" where
  "heartbeat_with sha256 faults receivedAt table selfPID now a h =
     (let handle = (\<lambda>auth hb. handleHeartbeatV2 sha256 faults receivedAt auth (Decoded hb) h)
      in (sendHeartbeat False False table selfPID now (\<lambda>auth hb. Some (status_of_reply (snd (handle auth hb)))) a,
          if ag_outbox a = None then h else fst (handle (''Bearer '' @ ac_device_token (ag_settings a)) (beat_of table selfPID now a))))"

end
