(* ===== verification/Agent_Service_Properties.thy ===== *)
theory Agent_Service_Properties
  imports Agent_Service Live_View_Properties
begin

text \<open>An agent's heartbeat and the hub's fleet view, end to end, and what a failed push does to a quota reading.\<close>

lemma sendHeartbeat_None:
  assumes "sendHeartbeat sf mf table selfPID now post a = (a', None)"
  shows "ag_outbox a \<noteq> None \<and> (\<exists>status. post (''Bearer '' @ ac_device_token (ag_settings a)) (beat_of table selfPID now a) = Some status \<and>
    200 \<le> status \<and> status < 300)"
  using assms by (auto simp: sendHeartbeat_def beat_of_def Let_def split: if_splits option.splits)

lemma heartbeat_reply_cases:
  "(\<exists>n msg. snd (handleHeartbeatV2 sha256 faults t auth body h) = ReplyError n msg \<and> n \<ge> 400) \<or>
   (\<exists>d. snd (handleHeartbeatV2 sha256 faults t auth body h) = ReplyHeartbeat d t)"
  by (auto simp: handleHeartbeatV2_def Let_def split: decoded.split sum.split option.split prod.split)

lemma agent_pids:
  assumes "distinct (map pi_pid ps)" shows "distinct (map ps_pid (agentSessions ps selfPID))"
proof -
  have pid: "agent_session selfPID p = Some s \<Longrightarrow> ps_pid s = pi_pid p" for p s
    by (auto simp: agent_session_def split: if_splits)
  have sub: "ps_pid ` set (List.map_filter (agent_session selfPID) ps) \<subseteq> pi_pid ` set ps" for ps
    using pid by (force simp: List.map_filter_def)
  have "distinct (map ps_pid (List.map_filter (agent_session selfPID) ps))"
    using assms
  proof (induction ps)
    case (Cons p ps)
    then show ?case using sub [of ps] pid by (auto simp: map_filter_simps split: option.split)
  qed (simp add: map_filter_simps)
  then show ?thesis by (simp add: agentSessions_def distinct_map)
qed

text \<open>
  C35. A live agent is shown online: once an agent's heartbeat has gone through, and for two minutes after by the hub's
  clock, the fleet view shows its device as registered, online and seen no earlier than the hub's receipt, whatever the
  agent's clock says. Where the agent could read its process table, the view shows as many running sessions as it found agent processes, for
  ninety seconds and unless the hub held a later report; where it could not, the hub's process state is left alone.
\<close>

theorem a_live_agent_is_shown_online:
  assumes "registry_inv (hu_registry h)" "procs_inv (hd_sessions (hu_db h)) (hd_reports (hu_db h))" "0 < t"
    and "heartbeat_with sha256 faults t table selfPID now a h = ((a', None), h')"
  shows "(\<exists>v. view_of (device_views c now2 dayStart h' history labels) (ac_device_id (ag_settings a)) = Some v \<and>
      dw_identity_status v = ''registered'' \<and> t \<le> dw_last_seen_at v \<and>
      (now2 \<le> t + heartbeatOnlineWindow \<longrightarrow> dw_connection_state v = ''online'') \<and>
      (\<forall>ps. table = Some ps \<and> distinct (map pi_pid ps) \<and> last_report (hd_reports (hu_db h)) (ac_device_id (ag_settings a)) < t \<and>
          now2 \<le> t + procTTL \<longrightarrow> dw_has_procs v \<and> dw_running v = length (agentSessions ps selfPID))) \<and>
    (table = None \<longrightarrow> hd_sessions (hu_db h') = hd_sessions (hu_db h) \<and> hd_reports (hu_db h') = hd_reports (hu_db h))"
proof -
  let ?auth = "''Bearer '' @ ac_device_token (ag_settings a)" and ?hb = "beat_of table selfPID now a"
  let ?handle = "handleHeartbeatV2 sha256 faults t ?auth (Decoded ?hb) h"
  have send: "ag_outbox a \<noteq> None" "200 \<le> status_of_reply (snd ?handle)" "status_of_reply (snd ?handle) < 300"
    using sendHeartbeat_None [of False False table selfPID now _ a a'] assms(4) by (fastforce simp: heartbeat_with_def Let_def)+
  then obtain d where "snd ?handle = ReplyHeartbeat d t"
    using heartbeat_reply_cases [of sha256 faults t ?auth "Decoded ?hb" h] by (auto simp: status_of_reply_def)
  moreover have h': "h' = fst ?handle" using assms(4) send(1) by (auto simp: heartbeat_with_def Let_def)
  ultimately have run: "?handle = (h', ReplyHeartbeat d t)" by (metis prod.collapse)
  have hb: "hb_device_id ?hb = ac_device_id (ag_settings a)"
    "hb_process_state ?hb = map_option (\<lambda>ps. \<lparr>pr_device = ac_device_id (ag_settings a), pr_observed_at = now, pr_sessions = agentSessions ps selfPID\<rparr>) table"
    by (simp_all add: beat_of_def heartbeat_of_def LiveProcesses_def split: option.split)
  from answered_heartbeat_shown [OF assms(1-3) run, of c now2 dayStart history labels]
  obtain v where v: "view_of (device_views c now2 dayStart h' history labels) d = Some v" "d = ac_device_id (ag_settings a)"
      "dw_identity_status v = ''registered''" "t \<le> dw_last_seen_at v" "now2 \<le> t + heartbeatOnlineWindow \<longrightarrow> dw_connection_state v = ''online''"
    and procs: "\<And>p. hb_process_state ?hb = Some p \<Longrightarrow> last_report (hd_reports (hu_db h)) d < t \<Longrightarrow> distinct (map ps_pid (pr_sessions p)) \<Longrightarrow>
      now2 \<le> t + procTTL \<Longrightarrow> dw_has_procs v \<and> dw_running v = length (pr_sessions p)"
    unfolding hb(1) by blast
  have "hu_db h' = hu_db h" if "table = None"
  proof -
    from heartbeat_answered [OF assms(1) run] have "hu_db h' = (case hb_process_state ?hb of None \<Rightarrow> hu_db h
        | Some p \<Rightarrow> fst (ApplyProcReport False (adopt_report ?hb t p) (hu_db h)))"
      by (metis decoded.inject)
    moreover have "hb_process_state ?hb = None" using hb(2) that by simp
    ultimately show ?thesis by simp
  qed
  moreover have "dw_has_procs v \<and> dw_running v = length (agentSessions ps selfPID)"
    if "table = Some ps" "distinct (map pi_pid ps)" "last_report (hd_reports (hu_db h)) d < t" "now2 \<le> t + procTTL" for ps
  proof -
    have "hb_process_state ?hb = Some \<lparr>pr_device = ac_device_id (ag_settings a), pr_observed_at = now, pr_sessions = agentSessions ps selfPID\<rparr>"
      using hb(2) that(1) by (simp only: option.map)
    from procs [OF this that(3) _ that(4)] show ?thesis using agent_pids [OF that(2), of selfPID] by simp
  qed
  ultimately show ?thesis using v by (intro conjI exI [of _ v]) (auto)
qed

text \<open>A reading whose push fails is not read again: the reader has already moved on.\<close>

lemma failed_push_loses_the_reading:
  assumes "collectStatusQuota e unmarshal fs now a = (a', Some err)"
  shows "\<exists>r. ag_reader a' = Some r \<and> snd (status_Collect unmarshal fs now2 r) = []"
proof -
  obtain r where r: "ag_reader a = Some r" using assms by (auto simp: collectStatusQuota_def split: option.splits)
  obtain r' qs where run: "status_Collect unmarshal fs now r = (r', qs)" by (cases "status_Collect unmarshal fs now r")
  with r assms have qs: "qs \<noteq> []" "agent_pushQuotas e (a\<lparr>ag_reader := Some r'\<rparr>) qs = (a', Some err)"
    by (auto simp: collectStatusQuota_def Let_def split: if_splits)
  then have "ag_reader a' = Some r'"
    by (auto simp: agent_pushQuotas_def on_outbox_def split: if_splits option.splits prod.splits)
  moreover obtain raw mode f where "fs (sr_path r) = Some (raw, mode)" "unmarshal raw = Some f" "r' = r\<lparr>sr_last_observed := rf_observed_at f\<rparr>"
    using run qs(1) by (auto simp: status_Collect_def Let_def split: option.splits if_splits)
  ultimately show ?thesis by (simp add: status_Collect_def)
qed

section \<open>An instance\<close>

definition live_agent :: agent where
  "live_agent = \<lparr>ag_settings = \<lparr>ac_server_url = ''http://h'', ac_resolve_ip = [], ac_allow_insecure_http = True, ac_token = [], ac_protocol_version = 2,
       ac_device_id = wit_uuid, ac_device_token = ''tok'', ac_outbox_path = [], ac_outbox_max_bytes = 100, ac_agent_version = ''1'',
       ac_capabilities = [], ac_device_name = ''n'', ac_claude_dirs = [], ac_codex_dirs = [], ac_dsh_dirs = [], ac_state_path = ''/s'',
       ac_cache_path = [], ac_interval = 10, ac_relay_listen = [], ac_relay_token = [], ac_relay_upstream_token = [], ac_since = None,
       ac_proxy_listen = [], ac_proxy_upstreams = []\<rparr>,
     ag_outbox = Some (OpenOutbox 100), ag_boot_id = wit_uuid, ag_reader = None, ag_sequence = 0, ag_last_scan = 0, ag_last_upload = 0\<rparr>"

definition live_table :: "proc_info list" where
  "live_table = [\<lparr>pi_pid = 3, pi_started_at = 1, pi_command = ''vim''\<rparr>, \<lparr>pi_pid = 4, pi_started_at = 2, pi_command = ''codex exec''\<rparr>]"

lemma live_sessions: "agentSessions live_table 1 = [\<lparr>ps_pid = 4, ps_source = ''codex'', ps_started_at = 2\<rparr>]"
  by code_simp

lemma live_beat:
  "heartbeatValid (beat_of (Some live_table) 1 77 live_agent)" "hb_device_id (beat_of (Some live_table) 1 77 live_agent) = wit_uuid"
  "hb_process_state (beat_of (Some live_table) 1 77 live_agent) =
     Some \<lparr>pr_device = wit_uuid, pr_observed_at = 77, pr_sessions = [\<lparr>ps_pid = 4, ps_source = ''codex'', ps_started_at = 2\<rparr>]\<rparr>"
  using wit_uuid_valid
  by (simp_all add: heartbeatValid_def beat_of_def heartbeat_of_def live_agent_def validCanonicalUUID_eq IngestProtocolV2_def LiveProcesses_def live_sessions
      Stats_def OpenOutbox_def queued_bytes_def)

lemma live_beat_answered:
  "\<exists>h'. handleHeartbeatV2 run_sha run_faults 1000 ''Bearer tok'' (Decoded (beat_of (Some live_table) 1 77 live_agent)) run_hub1 =
     (h', ReplyHeartbeat wit_uuid 1000)"
proof -
  have "authenticate run_sha (hf_auth run_faults) (hu_registry run_hub1) wit_uuid ''Bearer tok'' = Inr (Some run_device, True)"
    using run_authenticates by (simp add: run_faults_def)
  moreover have "wit_uuid \<noteq> []" by (simp add: wit_uuid_def)
  ultimately show ?thesis
    using live_beat
    by (simp add: handleHeartbeatV2_def Let_def ApplyProcReport_def SaveHeartbeat_def UpdateDeviceMetadata_def TouchDevice_def
        update_device_def case_prod_beta run_faults_def adopt_report_def run_hub1_def run_device_def sql_count_def)
qed

theorem a_live_agent_is_shown_online_witness:
  "\<exists>a' h' v. heartbeat_with run_sha run_faults 1000 (Some live_table) 1 77 live_agent run_hub1 = ((a', None), h') \<and>
     view_of (device_views sample_loaded 2000 0 h' [] []) wit_uuid = Some v \<and> dw_connection_state v = ''online'' \<and> dw_running v = 1"
proof -
  obtain h' where run: "handleHeartbeatV2 run_sha run_faults 1000 ''Bearer tok'' (Decoded (beat_of (Some live_table) 1 77 live_agent)) run_hub1 =
     (h', ReplyHeartbeat wit_uuid 1000)"
    using live_beat_answered by blast
  have agent: "ag_outbox live_agent \<noteq> None" "ac_device_token (ag_settings live_agent) = ''tok''" "ac_device_id (ag_settings live_agent) = wit_uuid"
    by (simp_all add: live_agent_def)
  have beat: "heartbeat_of live_agent (Stats (the (ag_outbox live_agent))) 77
      (case LiveProcesses (Some live_table) 1 (ac_device_id (ag_settings live_agent)) 77 of (report, ok) \<Rightarrow> if ok then Some report else None) =
      beat_of (Some live_table) 1 77 live_agent"
    by (simp add: beat_of_def)
  obtain a' where sent: "heartbeat_with run_sha run_faults 1000 (Some live_table) 1 77 live_agent run_hub1 = ((a', None), h')"
    unfolding heartbeat_with_def sendHeartbeat_def Let_def beat using run agent by (simp add: status_of_reply_def)
  have "registry_inv (hu_registry run_hub1)" "hd_sessions (hu_db run_hub1) = []" "hd_reports (hu_db run_hub1) = []"
    by (simp_all add: registry_inv_def run_hub1_def empty_hub_def)
  moreover from this have "procs_inv (hd_sessions (hu_db run_hub1)) (hd_reports (hu_db run_hub1))" by (simp add: procs_inv_def)
  moreover have "distinct (map pi_pid live_table)" by (simp add: live_table_def)
  ultimately show ?thesis
    using a_live_agent_is_shown_online [OF _ _ _ sent, of sample_loaded 2000 0 "[]" "[]"] sent agent live_sessions
    by (force simp: heartbeatOnlineWindow_def procTTL_def last_report_def sql_select_def)
qed

end
