(* ===== verification/Auth_Probes.thy ===== *)
theory Auth_Probes
  imports Go_Runes Go_Filepath Collect_Scan Codex_Properties Parser_Properties
begin

text \<open>
  What a machine can show about how it pays: \<open>internal/collect/authprobe.go\<close> (Claude Code), \<open>codexauth.go\<close> (Codex),
  \<open>refine.go\<close>, which applies the first to freshly parsed events, and \<open>LocalSpecs\<close> of \<open>scan.go\<close>, which hands the second to
  the rollout parser. Environments, process tables, files and the key chain are the record \<open>host\<close>. The last
  two sections follow the channel of an event from the log line and the machine's evidence to the label.
\<close>

section \<open>Strings\<close>

definition Cut :: "string \<Rightarrow> string \<Rightarrow> string \<times> string \<times> bool" where
  "Cut s sep = (case Index s sep of None \<Rightarrow> (s, [], False) | Some i \<Rightarrow> (take i s, drop (i + length sep) s, True))"

definition CutPrefix :: "string \<Rightarrow> string \<Rightarrow> string option" where
  "CutPrefix s p = (if HasPrefix s p then Some (drop (length p) s) else None)"

text \<open>\<open>strings.Trim\<close> for a set of ASCII characters.\<close>

definition Trim :: "string \<Rightarrow> string \<Rightarrow> string" where
  "Trim s cutset = rev (dropWhile (\<lambda>c. c \<in> set cutset) (rev (dropWhile (\<lambda>c. c \<in> set cutset) s)))"

text \<open>
  The tokens of a \<open>bufio.Scanner\<close> over a text: its lines, the last one even without an end, less a carriage return; a
  line that does not fit in the buffer with its end stops the scan.
\<close>

definition drop_cr :: "string \<Rightarrow> string" where
  "drop_cr l = (if l \<noteq> [] \<and> last l = CHR 0x0D then butlast l else l)"

definition scanner_lines :: "nat \<Rightarrow> string \<Rightarrow> string list" where
  "scanner_lines limit s =
     (let ls = split_on (CHR 0x0A) s
      in map drop_cr (takeWhile (\<lambda>l. length l < limit) (if last ls = [] then butlast ls else ls)))"

section \<open>The host\<close>

text \<open>A directory entry of \<open>/proc\<close>; a file that cannot be read is \<open>None\<close>.\<close>

record linux_entry =
  lx_dir :: bool
  lx_name :: string
  lx_comm :: "string option"
  lx_cmdline :: "string option"
  lx_environ :: "string option"

text \<open>\<open>mh_settings\<close> decodes the \<open>env\<close> block of a settings file; a Go map is an association list.\<close>

record host =
  mh_linux :: bool
  mh_darwin :: bool
  mh_ps :: "string option"
  mh_proc :: "linux_entry list option"
  mh_environ :: "string list"
  mh_home :: "string option"
  mh_files :: "string \<Rightarrow> string option"
  mh_settings :: "string \<Rightarrow> (string \<times> string) list option"
  mh_keychain :: bool
  mh_codex_home :: string

section \<open>Claude Code\<close>

record claude_probe =
  cb_provider :: string
  cb_override :: bool

definition apiKeyVars :: "string list" where
  "apiKeyVars = [''ANTHROPIC_API_KEY'', ''ANTHROPIC_AUTH_TOKEN'']"

definition overrideVars :: "string list" where
  "overrideVars = [''CLAUDE_CODE_USE_BEDROCK'', ''CLAUDE_CODE_USE_VERTEX'', ''ANTHROPIC_BASE_URL'']"

definition env_step :: "bool \<times> bool \<Rightarrow> string \<Rightarrow> bool \<times> bool" where
  "env_step found e =
     (case Cut e ''='' of
        (k, v, ok) \<Rightarrow>
          if \<not> ok \<or> v = [] then found
          else (fst found \<or> k \<in> set overrideVars, snd found \<or> k \<in> set apiKeyVars))"

definition classifyEnvEntries :: "string list \<Rightarrow> bool \<times> bool" where
  "classifyEnvEntries entries = foldl env_step (False, False) entries"

definition join_found :: "bool \<times> bool \<Rightarrow> bool \<times> bool \<Rightarrow> bool \<times> bool" where
  "join_found a b = (fst a \<or> fst b, snd a \<or> snd b)"

fun isClaudeCommand :: "string list \<Rightarrow> bool" where
  "isClaudeCommand [] = False"
| "isClaudeCommand (f # fs) =
     (if str_contains f ''='' then False
      else let base = Base (Trim f [CHR 0x22, CHR 0x27])
           in if base = ''claude'' \<or> HasPrefix base ''claude'' then True else isClaudeCommand fs)"

definition ps_step :: "bool \<times> bool \<Rightarrow> string \<Rightarrow> bool \<times> bool" where
  "ps_step found line =
     (let fields = Fields line
      in if \<not> isClaudeCommand fields then found
         else join_found found (classifyEnvEntries (filter (\<lambda>f. str_contains f ''='') fields)))"

definition scanPSOutput :: "string option \<Rightarrow> bool \<times> bool" where
  "scanPSOutput out = (case out of None \<Rightarrow> (False, False) | Some text \<Rightarrow> foldl ps_step (False, False) (split_on (CHR 0x0A) text))"

definition isDigits :: "string \<Rightarrow> bool" where
  "isDigits s \<longleftrightarrow> s \<noteq> [] \<and> list_all is_digit s"

definition linux_step :: "bool \<times> bool \<Rightarrow> linux_entry \<Rightarrow> bool \<times> bool" where
  "linux_step found d =
     (let text = (\<lambda>file. case file of None \<Rightarrow> [] | Some s \<Rightarrow> s)
      in if \<not> lx_dir d \<or> \<not> isDigits (lx_name d) then found
         else if \<not> str_contains (text (lx_comm d)) ''claude'' \<and> \<not> str_contains (text (lx_cmdline d)) ''claude'' then found
         else case lx_environ d of
           None \<Rightarrow> found
         | Some environ \<Rightarrow> join_found found (classifyEnvEntries (split_on (CHR 0x00) environ)))"

definition scanLinuxProcs :: "linux_entry list option \<Rightarrow> bool \<times> bool" where
  "scanLinuxProcs entries = (case entries of None \<Rightarrow> (False, False) | Some es \<Rightarrow> foldl linux_step (False, False) es)"

definition probeProcesses :: "host \<Rightarrow> bool \<times> bool" where
  "probeProcesses h = (if mh_linux h then scanLinuxProcs (mh_proc h) else scanPSOutput (mh_ps h))"

definition probeSettings :: "host \<Rightarrow> bool \<times> bool" where
  "probeSettings h =
     (case mh_home h of
        None \<Rightarrow> (False, False)
      | Some home \<Rightarrow>
          (case mh_files h (Join [home, ''.claude'', ''settings.json'']) of
             None \<Rightarrow> (False, False)
           | Some raw \<Rightarrow>
               (case mh_settings h raw of
                  None \<Rightarrow> (False, False)
                | Some env \<Rightarrow> classifyEnvEntries (map (\<lambda>(k, v). k @ ''='' @ v) env))))"

definition probeOAuthCredentials :: "host \<Rightarrow> bool" where
  "probeOAuthCredentials h \<longleftrightarrow>
     (case mh_home h of
        None \<Rightarrow> False
      | Some home \<Rightarrow>
          (case mh_files h (Join [home, ''.claude'', ''.credentials.json'']) of
             None \<Rightarrow> False
           | Some raw \<Rightarrow> str_contains raw ''\"claudeAiOauth\"'')) \<or>
     mh_darwin h \<and> mh_keychain h"

definition probe_levels :: "host \<Rightarrow> (bool \<times> bool) list" where
  "probe_levels h = [probeProcesses h, classifyEnvEntries (mh_environ h), probeSettings h]"

fun probe_cascade :: "(bool \<times> bool) list \<Rightarrow> claude_probe option" where
  "probe_cascade [] = None"
| "probe_cascade ((override, apiKey) # levels) =
     (if override then Some \<lparr>cb_provider = [], cb_override = True\<rparr>
      else if apiKey then Some \<lparr>cb_provider = ProviderAnthropicAPI, cb_override = False\<rparr>
      else probe_cascade levels)"

definition ProbeClaude :: "host \<Rightarrow> claude_probe" where
  "ProbeClaude h =
     (case probe_cascade (probe_levels h) of
        Some p \<Rightarrow> p
      | None \<Rightarrow>
          if probeOAuthCredentials h then \<lparr>cb_provider = ProviderAnthropicOAuth, cb_override = False\<rparr>
          else \<lparr>cb_provider = [], cb_override = False\<rparr>)"

definition ProbeClaudeAuth :: "host \<Rightarrow> string" where
  "ProbeClaudeAuth h = cb_provider (ProbeClaude h)"

text \<open>
  Both cached probers: the value and when it was taken, \<open>None\<close> before the first call. \<open>now1\<close> is the time of the call,
  \<open>now2\<close> that after the probe.
\<close>

type_synonym 'p prober = "('p \<times> int) option"

definition cached_probe :: "int \<Rightarrow> int \<Rightarrow> int \<Rightarrow> 'p \<Rightarrow> 'p prober \<Rightarrow> 'p prober \<times> 'p" where
  "cached_probe ttl now1 now2 probed st =
     (case st of
        Some (v, at) \<Rightarrow> if now1 - at < ttl then (st, v) else (Some (probed, now2), probed)
      | None \<Rightarrow> (Some (probed, now2), probed))"

section \<open>Refining\<close>

definition refine_event :: "claude_probe \<Rightarrow> event \<Rightarrow> event" where
  "refine_event p e =
     (if ev_source e \<noteq> ClaudeSource then e
      else if cb_override p \<and> ev_provider e = ProviderRelay then e\<lparr>ev_provider := ProviderUnknown\<rparr>
      else if cb_provider p \<noteq> [] \<and> ev_provider e = ProviderAnthropic then e\<lparr>ev_provider := cb_provider p\<rparr>
      else e)"

definition RefineProvider :: "claude_probe option \<Rightarrow> event list \<Rightarrow> event list" where
  "RefineProvider probe events =
     (case probe of
        None \<Rightarrow> events
      | Some p \<Rightarrow> if cb_provider p = [] \<and> \<not> cb_override p then events else map (refine_event p) events)"

section \<open>Codex\<close>

definition add_home :: "string list \<Rightarrow> string \<Rightarrow> string list" where
  "add_home out dir = (if dir = [] \<or> dir \<in> set out then out else out @ [dir])"

definition codexHomes :: "host \<Rightarrow> string list \<Rightarrow> string list" where
  "codexHomes h sessionDirs =
     foldl (\<lambda>out d. add_home out (if Base d = ''sessions'' then Dir d else d))
       (if mh_codex_home h \<noteq> [] then add_home [] (mh_codex_home h)
        else case mh_home h of None \<Rightarrow> [] | Some home \<Rightarrow> add_home [] (Join [home, ''.codex'']))
       sessionDirs"

fun strip_toml :: "char option \<Rightarrow> string \<Rightarrow> string" where
  "strip_toml quote [] = []"
| "strip_toml quote (c # s) =
     (case quote of
        Some q \<Rightarrow> c # strip_toml (if c = q then None else quote) s
      | None \<Rightarrow>
          if c = CHR 0x22 \<or> c = CHR 0x27 then c # strip_toml (Some c) s
          else if c = CHR ''#'' then []
          else c # strip_toml None s)"

definition stripTOMLComment :: "string \<Rightarrow> string" where
  "stripTOMLComment line = strip_toml None line"

text \<open>The provider whose block is open, and the providers found.\<close>

definition table_id :: "string \<Rightarrow> string" where
  "table_id line =
     (case CutPrefix (Trim line ''[]'') ''model_providers.'' of
        None \<Rightarrow> []
      | Some i \<Rightarrow> Trim (TrimSpace i) [CHR 0x22, CHR 0x27])"

definition auth_key :: "string \<Rightarrow> bool" where
  "auth_key line \<longleftrightarrow>
     (case Cut line ''='' of
        (key, val, ok) \<Rightarrow> ok \<and> TrimSpace key = ''requires_openai_auth'' \<and> TrimSpace val = ''true'')"

definition toml_step :: "string \<times> string list \<Rightarrow> string \<Rightarrow> string \<times> string list" where
  "toml_step st raw =
     (let line = TrimSpace (stripTOMLComment raw)
      in if line = [] then st
         else if HasPrefix line ''['' then (table_id line, snd st)
         else if fst st = [] then st
         else if auth_key line then (fst st, List.insert (fst st) (snd st))
         else st)"

definition subscriptionProviderIDs :: "string \<Rightarrow> string list" where
  "subscriptionProviderIDs text = snd (foldl toml_step ([], []) (scanner_lines (2 ^ 20) text))"

definition ProbeCodexAuth :: "host \<Rightarrow> string list \<Rightarrow> string list" where
  "ProbeCodexAuth h sessionDirs =
     remdups (concat (map (\<lambda>home. case mh_files h (Join [home, ''config.toml'']) of None \<Rightarrow> [] | Some text \<Rightarrow> subscriptionProviderIDs text)
       (codexHomes h sessionDirs)))"

definition Trusts :: "string list \<Rightarrow> string \<Rightarrow> bool" where
  "Trusts probe provider \<longleftrightarrow> TrimSpace provider \<in> set probe"

section \<open>Local logs\<close>

text \<open>The specifications of the scan of this machine's logs, each with its directories.\<close>

definition LocalSpecs :: "claude_std \<Rightarrow> codex_std \<Rightarrow> dsh_std \<Rightarrow> string list \<Rightarrow> string list \<Rightarrow> string list \<Rightarrow> string list option \<Rightarrow>
    (string list \<times> source_spec) list" where
  "LocalSpecs cl cx ds claudeDirs codexDirs dshDirs codexProbe =
     [(claudeDirs, \<lparr>sp_parse = claude_Parse cl, sp_full_reparse = False\<rparr>),
      (codexDirs, \<lparr>sp_parse = ParseWith cx (map_option Trusts codexProbe), sp_full_reparse = True\<rparr>),
      (dshDirs, \<lparr>sp_parse = dsh_Parse ds True, sp_full_reparse = True\<rparr>)]"

section \<open>What a Claude Code event is billed to\<close>

text \<open>An environment sets one of the variables: an entry whose text before the first \<open>=\<close> names it and whose rest is not empty.\<close>

definition sets_var :: "string list \<Rightarrow> string \<Rightarrow> bool" where
  "sets_var vars e \<longleftrightarrow> (case Cut e ''='' of (k, v, ok) \<Rightarrow> ok \<and> v \<noteq> [] \<and> k \<in> set vars)"

lemma classify_env: "classifyEnvEntries es = (\<exists>e\<in>set es. sets_var overrideVars e, \<exists>e\<in>set es. sets_var apiKeyVars e)"
proof -
  have "foldl env_step (a, b) es = (a \<or> (\<exists>e\<in>set es. sets_var overrideVars e), b \<or> (\<exists>e\<in>set es. sets_var apiKeyVars e))" for a b
    by (induction es arbitrary: a b) (auto simp: env_step_def sets_var_def split: prod.splits)
  then show ?thesis by (simp add: classifyEnvEntries_def)
qed

text \<open>The first level that says anything decides.\<close>

definition rerouted :: "host \<Rightarrow> bool" where
  "rerouted h \<longleftrightarrow> (\<exists>silent apiKey rest. probe_levels h = silent @ (True, apiKey) # rest \<and> set silent \<subseteq> {(False, False)})"

definition pays_by_key :: "host \<Rightarrow> bool" where
  "pays_by_key h \<longleftrightarrow> (\<exists>silent rest. probe_levels h = silent @ (False, True) # rest \<and> set silent \<subseteq> {(False, False)})"

lemma first_loud:
  "(\<exists>silent rest. (p :: bool \<times> bool) # ps = silent @ x # rest \<and> set silent \<subseteq> {(False, False)}) \<longleftrightarrow>
     p = x \<or> p = (False, False) \<and> (\<exists>silent rest. ps = silent @ x # rest \<and> set silent \<subseteq> {(False, False)})"
proof
  assume "\<exists>silent rest. p # ps = silent @ x # rest \<and> set silent \<subseteq> {(False, False)}"
  then obtain silent rest where "p # ps = silent @ x # rest" "set silent \<subseteq> {(False, False)}" by blast
  then show "p = x \<or> p = (False, False) \<and> (\<exists>silent rest. ps = silent @ x # rest \<and> set silent \<subseteq> {(False, False)})"
    by (cases silent) auto
next
  assume "p = x \<or> p = (False, False) \<and> (\<exists>silent rest. ps = silent @ x # rest \<and> set silent \<subseteq> {(False, False)})"
  then show "\<exists>silent rest. p # ps = silent @ x # rest \<and> set silent \<subseteq> {(False, False)}"
  proof
    assume "p = x"
    then have "p # ps = [] @ x # ps" "set [] \<subseteq> {(False, False)}" by simp_all
    then show ?thesis by blast
  next
    assume "p = (False, False) \<and> (\<exists>silent rest. ps = silent @ x # rest \<and> set silent \<subseteq> {(False, False)})"
    then obtain silent rest where "p = (False, False)" "ps = silent @ x # rest" "set silent \<subseteq> {(False, False)}" by blast
    then show ?thesis by (intro exI [of _ "p # silent"] exI [of _ rest]) simp
  qed
qed

definition first_says :: "bool \<times> bool \<Rightarrow> (bool \<times> bool) list \<Rightarrow> bool" where
  "first_says x ps \<longleftrightarrow> (\<exists>silent rest. ps = silent @ x # rest \<and> set silent \<subseteq> {(False, False)})"

lemma first_says_simps [simp]: "\<not> first_says x []" "first_says x (p # ps) \<longleftrightarrow> p = x \<or> p = (False, False) \<and> first_says x ps"
  unfolding first_says_def first_loud by simp_all

lemma cascade_says:
  "probe_cascade ps =
     (if first_says (True, False) ps \<or> first_says (True, True) ps then Some \<lparr>cb_provider = [], cb_override = True\<rparr>
      else if first_says (False, True) ps then Some \<lparr>cb_provider = ProviderAnthropicAPI, cb_override = False\<rparr>
      else None)"
  by (induction ps rule: probe_cascade.induct) auto

lemma probe_says:
  "ProbeClaude h =
     (if rerouted h then \<lparr>cb_provider = [], cb_override = True\<rparr>
      else if pays_by_key h then \<lparr>cb_provider = ProviderAnthropicAPI, cb_override = False\<rparr>
      else if probeOAuthCredentials h then \<lparr>cb_provider = ProviderAnthropicOAuth, cb_override = False\<rparr>
      else \<lparr>cb_provider = [], cb_override = False\<rparr>)"
proof -
  have "rerouted h \<longleftrightarrow> first_says (True, False) (probe_levels h) \<or> first_says (True, True) (probe_levels h)"
    unfolding rerouted_def first_says_def by (metis (full_types))
  moreover have "pays_by_key h \<longleftrightarrow> first_says (False, True) (probe_levels h)"
    by (simp add: pays_by_key_def first_says_def)
  ultimately show ?thesis by (simp add: ProbeClaude_def cascade_says)
qed

lemma parseLine_source:
  assumes "parseLine std line device = Some ev"
  shows "ev_source ev = ClaudeSource \<and> (\<exists>x. cl_unmarshal std (TrimSpace line) = Some x \<and> ev_event_id ev = claudeEventID x \<and>
    ev_provider ev = endpointProvider (ce_request_id x))"
  using assms by (auto simp: parseLine_def Let_def split: if_splits option.splits)

lemma claude_loop_source:
  assumes "e \<in> set (fst (claude_loop std device prev turn lines))"
  shows "ev_source e = ClaudeSource \<and> (\<exists>line\<in>set lines. \<exists>x. cl_unmarshal std (TrimSpace line) = Some x \<and>
    ev_event_id e = claudeEventID x \<and> ev_provider e = endpointProvider (ce_request_id x))"
  using assms
proof (induction lines arbitrary: prev turn)
  case (Cons line lines)
  let ?ms = "extractTimestampMS std line"
  let ?turn = "if isUserLine line \<and> ?ms > 0 then ?ms else turn"
  consider (here) ev where "parseLine std line device = Some ev" "e = ev\<lparr>ev_duration_ms := span_ms prev (ev_ts ev), ev_gen_ms := span_ms ?turn (ev_ts ev)\<rparr>"
    | (later) "e \<in> set (fst (claude_loop std device (if ?ms > 0 then ?ms else prev) ?turn lines))"
    using Cons.prems by (cases "parseLine std line device") (auto simp: Let_def case_prod_beta)
  then show ?case
  proof cases
    case here
    then show ?thesis using parseLine_source [OF here(1)] by auto
  next
    case later
    from Cons.IH [OF this] show ?thesis by auto
  qed
qed simp

definition channel_by_evidence :: "host \<Rightarrow> claude_entry \<Rightarrow> string" where
  "channel_by_evidence h x =
     (if TrimSpace (ce_request_id x) = [] then if rerouted h then ChannelUnknown else ChannelRelay
      else if rerouted h then ChannelUnknown
      else if pays_by_key h then ChannelAPI
      else if probeOAuthCredentials h then ChannelSubscription
      else ChannelUnknown)"

lemma refine_parsed:
  assumes "ev_source e = ClaudeSource" "ev_provider e = endpointProvider r"
  shows "BillingChannel (ev_provider (refine_event (ProbeClaude h) e)) =
    (if TrimSpace r = [] then if rerouted h then ChannelUnknown else ChannelRelay
     else if rerouted h then ChannelUnknown else if pays_by_key h then ChannelAPI
     else if probeOAuthCredentials h then ChannelSubscription else ChannelUnknown)"
  using assms by (simp add: refine_event_def probe_says endpointProvider_def BillingChannel_def providerChannel_def channel_defs
    ProviderRelay_def ProviderAnthropic_def ProviderUnknown_def ProviderAnthropicAPI_def ProviderAnthropicOAuth_def
    ProviderOpenAIChatGPT_def ProviderOpenAIAPI_def ProviderBedrock_def ProviderVertex_def ProviderOpenAI_def)

lemma refine_all: "RefineProvider (Some p) events = map (refine_event p) events"
proof -
  have "refine_event \<lparr>cb_provider = [], cb_override = False\<rparr> = id" by (auto simp: refine_event_def)
  moreover have "p = \<lparr>cb_provider = [], cb_override = False\<rparr>" if "cb_provider p = []" "\<not> cb_override p" using that by simp
  ultimately have "refine_event p = id" if "cb_provider p = []" "\<not> cb_override p" using that by metis
  then show ?thesis by (simp add: RefineProvider_def)
qed

lemma refine_keeps:
  "(refine_event p e)\<lparr>ev_provider := []\<rparr> = e\<lparr>ev_provider := []\<rparr>" "ev_source (refine_event p e) = ev_source e"
  "ev_event_id (refine_event p e) = ev_event_id e"
  by (simp_all add: refine_event_def)

text \<open>
  The channel a local Claude Code event is billed to is exactly what the evidence says: a line without a request id of
  the first party is a relay's, whatever the machine pays with, unless the machine reroutes its endpoint; a first-party
  line is billed by the key if the first level of the machine that says anything says a key, to the subscription if none says anything
  and credentials of a subscription are stored, and stays unknown otherwise. Refining changes no other field and no event of another tool.
\<close>

lemma claude_channel_is_evidence:
  assumes "events = res_events (claude_Parse std content device turn0)"
  shows "(\<forall>e\<in>set (RefineProvider (Some (ProbeClaude h)) events).
      \<exists>line\<in>set (fst (log_lines content)). \<exists>x. cl_unmarshal std (TrimSpace line) = Some x \<and>
        ev_event_id e = claudeEventID x \<and> BillingChannel (ev_provider e) = channel_by_evidence h x) \<and>
    (\<forall>es. map (\<lambda>e. e\<lparr>ev_provider := []\<rparr>) (RefineProvider (Some (ProbeClaude h)) es) = map (\<lambda>e. e\<lparr>ev_provider := []\<rparr>) es \<and>
      filter (\<lambda>e. ev_source e \<noteq> ClaudeSource) (RefineProvider (Some (ProbeClaude h)) es) = filter (\<lambda>e. ev_source e \<noteq> ClaudeSource) es)"
proof -
  have "\<exists>line\<in>set (fst (log_lines content)). \<exists>x. cl_unmarshal std (TrimSpace line) = Some x \<and>
      ev_event_id e = claudeEventID x \<and> BillingChannel (ev_provider e) = channel_by_evidence h x"
    if "e \<in> set (RefineProvider (Some (ProbeClaude h)) events)" for e
  proof -
    from that obtain e0 where e: "e = refine_event (ProbeClaude h) e0" "e0 \<in> set events" by (auto simp: refine_all)
    then have "e0 \<in> set (fst (claude_loop std device 0 turn0 (fst (log_lines content))))"
      using assms by (simp add: claude_Parse_def Let_def case_prod_beta)
    from claude_loop_source [OF this] obtain line x where x: "ev_source e0 = ClaudeSource" "line \<in> set (fst (log_lines content))"
        "cl_unmarshal std (TrimSpace line) = Some x" "ev_event_id e0 = claudeEventID x" "ev_provider e0 = endpointProvider (ce_request_id x)"
      by blast
    have "BillingChannel (ev_provider e) = channel_by_evidence h x"
      unfolding e(1) channel_by_evidence_def by (rule refine_parsed [OF x(1,5)])
    then show ?thesis using x e(1) refine_keeps(3) by metis
  qed
  moreover have "filter (\<lambda>e. ev_source e \<noteq> ClaudeSource) (map (refine_event p) es) = filter (\<lambda>e. ev_source e \<noteq> ClaudeSource) es" for p es
    by (induction es) (simp_all add: refine_keeps, simp_all add: refine_event_def)
  ultimately show ?thesis by (simp add: refine_all refine_keeps comp_def)
qed

section \<open>What a Codex subscription rests on\<close>

lemma trim_words_clean: "w \<in> set ws \<Longrightarrow> w \<noteq> [] \<Longrightarrow> \<not> HasPrefix (trim_words ws s) w"
proof (induction ws s rule: trim_words.induct)
  case (1 ws s)
  show ?case
  proof (cases "find (\<lambda>w. w \<noteq> [] \<and> HasPrefix s w) ws")
    case None
    then have "\<not> HasPrefix s w" using 1(2,3) by (auto simp: find_None_iff)
    then show ?thesis using None by (simp add: trim_words.simps [of ws s])
  next
    case (Some v)
    then show ?thesis using 1 by (simp add: trim_words.simps [of ws s])
  qed
qed

lemma trim_words_suffix: "\<exists>pre. s = pre @ trim_words ws s"
proof (induction ws s rule: trim_words.induct)
  case (1 ws s)
  show ?case
  proof (cases "find (\<lambda>w. w \<noteq> [] \<and> HasPrefix s w) ws")
    case (Some v)
    from 1 [OF this] obtain pre where "drop (length v) s = pre @ trim_words ws (drop (length v) s)" by blast
    then have "s = (take (length v) s @ pre) @ trim_words ws (drop (length v) s)" by (metis append.assoc append_take_drop_id)
    moreover have "trim_words ws s = trim_words ws (drop (length v) s)" using Some by (simp add: trim_words.simps [of ws s])
    ultimately show ?thesis by (intro exI [of _ "take (length v) s @ pre"]) simp
  qed (simp add: trim_words.simps [of ws s])
qed

lemma TrimSpace_idem: "TrimSpace (TrimSpace s) = TrimSpace s"
proof (rule TrimSpace_id, intro ballI conjI)
  fix w assume w: "w \<in> set go_spaces"
  let ?t = "trim_words go_spaces s"
  have ne: "w \<noteq> []" using w by (auto simp: go_spaces_def)
  obtain pre where "rev ?t = pre @ trim_words (map rev go_spaces) (rev ?t)" using trim_words_suffix by blast
  then have t: "?t = TrimSpace s @ rev pre" by (metis TrimSpace_def rev_append rev_rev_ident)
  show "\<not> HasPrefix (TrimSpace s) w"
  proof
    assume "HasPrefix (TrimSpace s) w"
    then have "HasPrefix ?t w" unfolding t by (auto simp: HasPrefix_def) (metis append_take_drop_id length_append length_take min.absorb4 nat_le_linear take_all take_append)
    then show False using trim_words_clean [OF w ne] by blast
  qed
  have "rev w \<in> set (map rev go_spaces)" using w by simp
  from trim_words_clean [OF this, of "rev ?t"] ne show "\<not> HasPrefix (rev (TrimSpace s)) (rev w)" by (simp add: TrimSpace_def)
qed

text \<open>What is left of the lines of a configuration file, and a block that requires the account's credentials.\<close>

definition toml_lines :: "string \<Rightarrow> string list" where
  "toml_lines text = filter (\<lambda>l. l \<noteq> []) (map (\<lambda>raw. TrimSpace (stripTOMLComment raw)) (scanner_lines (2 ^ 20) text))"

definition block_open :: "string list \<Rightarrow> string \<Rightarrow> bool" where
  "block_open ls i \<longleftrightarrow> (\<exists>pre head block. ls = pre @ head # block \<and> HasPrefix head ''['' \<and> table_id head = i \<and> (\<forall>l\<in>set block. \<not> HasPrefix l ''[''))"

definition block_requires :: "string list \<Rightarrow> string \<Rightarrow> bool" where
  "block_requires ls i \<longleftrightarrow> (\<exists>pre key post. ls = pre @ key # post \<and> block_open pre i \<and> \<not> HasPrefix key ''['' \<and> auth_key key)"

lemma block_open_snoc: "block_open (ls @ [l]) i \<longleftrightarrow> (if HasPrefix l ''['' then table_id l = i else block_open ls i)"
proof
  assume "block_open (ls @ [l]) i"
  then obtain pre head block where b: "ls @ [l] = pre @ head # block" "HasPrefix head ''[''" "table_id head = i" "\<forall>l\<in>set block. \<not> HasPrefix l ''[''"
    unfolding block_open_def by blast
  then show "if HasPrefix l ''['' then table_id l = i else block_open ls i"
  proof (cases block rule: rev_cases)
    case (snoc ys y)
    with b have "l = y" "ls = pre @ head # ys" by auto
    with b snoc show ?thesis unfolding block_open_def by auto
  qed auto
next
  assume r: "if HasPrefix l ''['' then table_id l = i else block_open ls i"
  show "block_open (ls @ [l]) i"
  proof (cases "HasPrefix l ''[''")
    case True
    with r show ?thesis unfolding block_open_def by (intro exI [of _ ls] exI [of _ l] exI [of _ "[]"]) simp
  next
    case False
    with r obtain pre head block where "ls = pre @ head # block" "HasPrefix head ''[''" "table_id head = i" "\<forall>l\<in>set block. \<not> HasPrefix l ''[''"
      unfolding block_open_def by auto
    with False show ?thesis unfolding block_open_def by (intro exI [of _ pre] exI [of _ head] exI [of _ "block @ [l]"]) auto
  qed
qed

lemma block_requires_snoc:
  "block_requires (ls @ [l]) i \<longleftrightarrow> block_requires ls i \<or> block_open ls i \<and> \<not> HasPrefix l ''['' \<and> auth_key l"
proof
  assume "block_requires (ls @ [l]) i"
  then obtain pre key post where b: "ls @ [l] = pre @ key # post" "block_open pre i" "\<not> HasPrefix key ''[''" "auth_key key"
    unfolding block_requires_def by blast
  then show "block_requires ls i \<or> block_open ls i \<and> \<not> HasPrefix l ''['' \<and> auth_key l"
  proof (cases post rule: rev_cases)
    case (snoc ys y)
    with b have "ls = pre @ key # ys" by auto
    with b show ?thesis unfolding block_requires_def by blast
  qed auto
next
  assume "block_requires ls i \<or> block_open ls i \<and> \<not> HasPrefix l ''['' \<and> auth_key l"
  then show "block_requires (ls @ [l]) i"
  proof
    assume "block_requires ls i"
    then obtain pre key post where "ls = pre @ key # post" "block_open pre i" "\<not> HasPrefix key ''[''" "auth_key key"
      unfolding block_requires_def by blast
    then show ?thesis unfolding block_requires_def by (intro exI [of _ pre] exI [of _ key] exI [of _ "post @ [l]"]) simp
  qed (auto simp: block_requires_def)
qed

definition line_step :: "string \<times> string list \<Rightarrow> string \<Rightarrow> string \<times> string list" where
  "line_step st line =
     (if HasPrefix line ''['' then (table_id line, snd st)
      else if fst st = [] then st
      else if auth_key line then (fst st, List.insert (fst st) (snd st)) else st)"

lemma toml_steps: "foldl toml_step st raws = foldl line_step st (filter (\<lambda>l. l \<noteq> []) (map (\<lambda>raw. TrimSpace (stripTOMLComment raw)) raws))"
  by (induction raws arbitrary: st) (simp_all add: toml_step_def line_step_def Let_def)

lemma line_steps:
  "(\<forall>i. i \<noteq> [] \<longrightarrow> (block_open ls i \<longleftrightarrow> fst (foldl line_step ([], []) ls) = i)) \<and>
   (\<forall>i. i \<in> set (snd (foldl line_step ([], []) ls)) \<longleftrightarrow> i \<noteq> [] \<and> block_requires ls i)"
proof (induction ls rule: rev_induct)
  case Nil
  show ?case by (simp add: block_open_def block_requires_def)
next
  case (snoc l ls)
  then show ?case by (auto simp: block_open_snoc block_requires_snoc line_step_def)
qed

lemma subscription_ids: "i \<in> set (subscriptionProviderIDs text) \<longleftrightarrow> i \<noteq> [] \<and> block_requires (toml_lines text) i"
  using line_steps by (simp add: subscriptionProviderIDs_def toml_steps toml_lines_def)

text \<open>A file of configuration that this machine's Codex reads has such a block.\<close>

definition configured :: "host \<Rightarrow> string list \<Rightarrow> string \<Rightarrow> bool" where
  "configured h dirs i \<longleftrightarrow> i \<noteq> [] \<and> (\<exists>home\<in>set (codexHomes h dirs). \<exists>text. mh_files h (Join [home, ''config.toml'']) = Some text \<and>
     block_requires (toml_lines text) i)"

lemma trusted_is_configured: "Trusts (ProbeCodexAuth h dirs) p \<longleftrightarrow> configured h dirs (TrimSpace p)"
proof -
  have "i \<in> set (case f of None \<Rightarrow> [] | Some text \<Rightarrow> subscriptionProviderIDs text) \<longleftrightarrow>
      i \<noteq> [] \<and> (\<exists>text. f = Some text \<and> block_requires (toml_lines text) i)" for i f
    by (cases f) (simp_all add: subscription_ids)
  then show ?thesis by (auto simp: Trusts_def ProbeCodexAuth_def configured_def)
qed

text \<open>
  A Codex event of this machine's logs is billed to the subscription only on evidence: a real account's plan state in the
  rollout, and a declared provider that is the built-in one or has, in a configuration file this machine's Codex reads,
  a block of its own that says \<open>requires_openai_auth = true\<close>; or the declared provider's name is one of the two labels
  the billing taxonomy reserves. The Claude Code probe has no say in it.
\<close>

lemma codex_subscription_needs_configuration:
  assumes "e \<in> set (RefineProvider probe
      (res_events (sp_parse (snd (LocalSpecs cl cx ds claudeDirs codexDirs dshDirs (Some (ProbeCodexAuth h codexDirs)) ! 1)) content device turn0)))"
    and "BillingChannel (ev_provider e) = ChannelSubscription"
  shows "let es = rollout_entries cx content
    in plan_evidenced es \<and> (\<exists>p\<in>declared_providers es. TrimSpace p = builtinOpenAIProvider \<or> configured h codexDirs (TrimSpace p)) \<or>
       (\<exists>p\<in>declared_providers es. TrimSpace p \<in> {ProviderAnthropicOAuth, ProviderOpenAIChatGPT})"
proof -
  let ?events = "res_events (ParseWith cx (Some (Trusts (ProbeCodexAuth h codexDirs))) content device turn0)"
  have "refine_event p x = x" if "x \<in> set ?events" for p x
    using codex_sources [of cx _ content device turn0] that by (fastforce simp: refine_event_def CodexSource_def ClaudeSource_def)
  then have "RefineProvider probe ?events = ?events" by (auto simp: RefineProvider_def map_idI split: option.split)
  then have "e \<in> set ?events" using assms(1) by (simp add: LocalSpecs_def)
  from subscription_evidence [OF this assms(2)] show ?thesis
    by (auto simp: Let_def trusted_is_configured TrimSpace_idem)
qed

end
