(* ===== verification/Spec2Isabelle.thy ===== *)
theory Spec2Isabelle
  imports Hub_Properties Agent_Properties Ingest_Properties Device_Merge_Properties Collect_Properties Log_Parsers
    Work_Properties Block_Properties Usage_Properties Proxy_Properties Site_Auth_Properties Speed_Properties Capacity_Properties
    Resp_Cache_Properties Enrollment_Properties Server_Access_Properties Live_Stream_Properties
    Live_View_Properties Status_Quota_Properties Procs Pricing_Properties Window_Properties Agent_Service_Properties
    Auth_Probes
begin

text \<open>
  A verification development of OmniToken, the self-hosted accounting of AI coding usage: agents on
  each machine read the logs of coding tools and a local forwarding proxy, turn them into usage events,
  queue them durably and deliver them to a hub, which keeps one row per billed call and derives work
  time and billing blocks from the rows.

  \<^bold>\<open>The parts and how they interact.\<close>

  \<^item> Collection. \<open>internal/collect/scan.go\<close> stats a log file, reads from the cursor kept by
    \<open>internal/collect/state.go\<close>, calls one of the parsers (\<open>internal/parser/claudecode\<close>, \<open>codex\<close>, \<open>dsh\<close>) and
    hands events and quota snapshots to the sinks before it commits the cursor. Theories
    \<open>Collect_State\<close>, \<open>Collect_Scan\<close>, \<open>Claude_Parser\<close>, \<open>Codex_Parser\<close>, \<open>Dsh_Parser\<close>; \<open>Log_Parsers\<close> states what
    the scan relies on in a parser. \<open>Proxy\<close> is the other source of events, \<open>internal/proxy/proxy.go\<close>:
    the forwarding, the observer on the response stream and the retry ring. \<open>Procs\<close> (\<open>collect/procs.go\<close>, on the
    UTF-8 of \<open>Go_Runes\<close>) finds the running tools in the process table, and \<open>Status_Quota\<close> is the file through which
    the status line hands quota readings to the collector (\<open>statusline/ratelimits.go\<close>, \<open>collect/statusquota.go\<close>).
    \<open>Auth_Probes\<close> is what a machine can show about how it pays (\<open>authprobe.go\<close>, \<open>codexauth.go\<close>) and how that refines the
    parsed events (\<open>refine.go\<close>).
  \<^item> Delivery. \<open>internal/agent/agent.go\<close> (\<open>Agent\<close>) collapses a batch by event id and puts it in
    envelopes; \<open>internal/agent/outbox.go\<close> (\<open>Outbox\<close>) keeps them until they are acknowledged. The
    envelope, its validator and the acknowledgement are \<open>internal/model/ingest.go\<close> (\<open>Ingest_Protocol\<close>).
    \<open>Enrollment\<close> is how an agent gets its identity (\<open>machineid.go\<close>, \<open>config.go\<close>, \<open>Enroll\<close>), and \<open>Agent_Service\<close> its set-up,
    its pushes under both protocol versions, its reports, the heartbeat and the routes of its relay.
  \<^item> The hub. \<open>internal/server/ingestv2.go\<close> and \<open>heartbeat.go\<close> (\<open>Hub_Server\<close>) authenticate against the
    device registry (\<open>deviceregistry.go\<close>, \<open>machineidentity.go\<close>: \<open>Device_Registry\<close>) and call
    \<open>ApplyIngestV2\<close> (\<open>ingestv2.go\<close>, \<open>quota.go\<close>, \<open>procs.go\<close>: \<open>Ingest_Store\<close>), which inserts the events with
    \<open>store.go\<close>'s prepared statements (\<open>Event_Store\<close>, \<open>Event_Store_Batch\<close>) and writes the receipt in the same
    transaction.
  \<^item> Beside the path of an event: \<open>devicemerge.go\<close> (\<open>Device_Merge\<close>) folds one device into another;
    \<open>worktime.go\<close> and \<open>blocks.go\<close> (\<open>Work_Time\<close>) read the rows, and so do the views:
    \<open>query.go\<close>, \<open>window.go\<close>, \<open>models.go\<close> (\<open>Usage_Queries\<close>), \<open>devices.go\<close>, \<open>heatmap.go\<close>, \<open>reports.go\<close>
    (\<open>Usage_Views\<close>), \<open>livespeed.go\<close>, \<open>speedseries.go\<close>, \<open>telemetry.go\<close> (\<open>Speed\<close>), all of which name a model by
    \<open>internal/model/canonical.go\<close> (\<open>Canonical\<close>). \<open>capacity.go\<close> (\<open>Capacity\<close>) learns from the rows and the quota
    snapshots what a quota window holds.
  \<^item> The hub's own server. \<open>Server_Access\<close> has its configuration (\<open>config.go\<close>, \<open>deviceidentity.go\<close>, paths by
    \<open>Go_Filepath\<close>), its routes and the guards in front of them (\<open>server.go\<close>), and \<open>Server_Posts\<close> the dispatch of every request that can
    change the hub, with the device merge's endpoints (\<open>devicemerge.go\<close>); \<open>Resp_Cache\<close> the response cache, \<open>Live_Stream\<close> the
    broadcaster and the event streams (\<open>live.go\<close>), both as step relations over concurrent callers; \<open>Live_View\<close> the live panel
    (\<open>store/live.go\<close>, \<open>procs.go\<close>, \<open>livePayload\<close>, \<open>fleetdevices.go\<close>, \<open>devicenames.go\<close>); \<open>Window_Cards\<close> the cards of the quota
    windows (\<open>windows.go\<close>, \<open>quota.go\<close>).
  \<^item> Prices. \<open>Pricing\<close> is \<open>internal/pricing\<close>: the table with its memo, the lookup chain, the catalog and its snapshot
    file. \<open>Pricing_Service\<close> is the live table of a running hub: refreshes, saved overrides and labels, restarts and
    the costs of a period (\<open>pricingrefresh.go\<close>, \<open>settingsview.go\<close>, \<open>cost.go\<close>, \<open>store/settings.go\<close>).
  \<^item> The dashboard's door. \<open>internal/siteauth\<close> (\<open>Site_Auth\<close>, \<open>Site_Auth_Http\<close>): one-time codes shown to the
    owner, sessions and their rotation, passkey challenges, the limit on attempts.
  \<^item> \<open>Delivery\<close> composes agents, network and hub: a step is one call of the components' own operations
    with any of their faults, and the network loses, delays, repeats and reorders messages.

  \<^bold>\<open>How the model corresponds to the code.\<close> A struct is a record with the source's fields (prefix per
  type: \<open>ev_\<close> for \<open>UsageEvent\<close>, \<open>ro_\<close> for an outbox row, \<open>sc_\<close> for \<open>Scanner\<close> and so on), and a function of the
  source is a definition of the same name, prefixed where two packages use one name (\<open>claude_Parse\<close>,
  \<open>dsh_Parse\<close>). A table is a list of rows in insertion order, and \<open>Sql_Table\<close> gives the statements the
  program runs over it; each call that reaches a database or a file takes an argument that says which of
  its steps fail, so every error return of the source is a branch. A returned error is the \<open>Inl\<close> of a sum
  or an \<open>option\<close>. A Go \<open>string\<close> is a list of bytes (\<open>Go_Strings\<close> has the functions of package \<open>strings\<close>,
  \<open>Go_Strconv\<close> the decimal conversions), \<open>int64\<close> arithmetic that can overflow is written with \<open>i64\<close> of
  \<open>Omni_Prelude\<close>, \<open>uint64\<close> is \<open>64 word\<close>, and a Go map read at a missing key gives the zero value.

  \<^bold>\<open>Interfaces.\<close> Four locales state what one component relies on in another. \<open>unique_rows\<close>
  (\<open>Sql_Table\<close>) is a table with uniqueness constraints, interpreted on the schema of every table.
  \<open>durable_fifo\<close> (\<open>Outbox_Facts\<close>) is the queue the agent uploads from, interpreted on the outbox's
  operations. \<open>receipted_receiver\<close> (\<open>Ingest_Facts\<close>) is a hub that remembers what it has acknowledged,
  interpreted on \<open>ApplyIngestV2\<close>. \<open>log_parser\<close> (\<open>Log_Parsers\<close>) is the \<open>ParseFunc\<close> the scan calls, interpreted
  on the three parsers.

  \<^bold>\<open>What the lemmas show.\<close>

  \<^item> Events: the rows are exactly the survivors of the history of insertions, whatever its order of
    batches (\<open>Event_Store_Properties\<close>); a redelivered batch changes nothing; the gates in front of the
    statements save work and change no result; a row's counts never move once recorded.
  \<^item> Outbox and agent: sequences are consecutive and never reused, the queue is first in first out,
    bounded, all-or-nothing, and holds only envelopes the validator accepts; an acknowledgement deletes
    exactly its own row; bisection and draining end with everything queued or uploaded.
  \<^item> Ingest: one envelope is one transaction, a replay returns the stored acknowledgement, and the
    validator accepts exactly the well-formed envelopes and names the offenders otherwise. The delivery
    system as a whole applies every envelope at most once and in order, and reaches the state in which
    all are applied.
  \<^item> Hub: only a device's own credential writes for it; revocation is final; machines and principals are
    one to one; merging devices moves attribution and nothing else, as its preview said.
  \<^item> Collection: a cursor passes only what the sinks accepted; reading a Claude log in any two pieces
    gives what reading it whole gives; a Codex turn's generation intervals tile the turn, repeated token
    counts are counted once, and a subscription label rests on evidence; every event of every parser is
    well formed, so the hub's validator accepts it; a Claude event of this machine is billed as its line and the machine's
    evidence say (\<open>Auth_Probes\<close>). The proxy's observer is indifferent to how the
    stream is chunked, and shares its row with the log of the same call.
  \<^item> Derived views: work time is the measure of the union of activity, and the billing blocks
    partition the events. Every view of a period adds up to its summary (\<open>Usage_Properties\<close>); spreading
    tokens over time buckets loses none (\<open>Speed_Properties\<close>); the calibration keeps the first observation of
    a window's highest percentage, and its shortcut skips nothing (\<open>Capacity_Properties\<close>).
  \<^item> Sign-in: the shown code signs in once, an authenticated request has a session that a sign-in
    handed out, and attempts are bounded (\<open>Site_Auth_Properties\<close>).
  \<^item> Identity and access: a successful enrollment leaves agent and hub agreeing, and reinstalling keeps the
    principal (\<open>Enrollment_Properties\<close>); at a reachable hub every write and, where it matters, every read carried its credential
    (\<open>Server_Access_Properties\<close>).
  \<^item> Serving: the cache answers with a single flight and strands nobody (\<open>Resp_Cache_Properties\<close>); a waiting stream
    has shown every change it was told of (\<open>Live_Stream_Properties\<close>); the fleet view has each device once, with what is its own
    (\<open>Live_View_Properties\<close>), and an agent whose heartbeat went through is shown online (\<open>Agent_Service_Properties\<close>).
  \<^item> Quotas and prices: a captured reading is reported whole, in time and once (\<open>Status_Quota_Properties\<close>); a card counts its window
    and shows the fullest live reading (\<open>Window_Properties\<close>); the memo is invisible, a restart keeps the prices, and
    saved overrides decide (\<open>Pricing_Properties\<close>).

  \<^bold>\<open>Bounds.\<close> No definition uses fuel: loops are structural recursion or have a termination proof. Where
  \<open>int64\<close> arithmetic could wrap, a theorem states the range it needs: \<open>codex_turn_is_tiled\<close> takes a turn of
  at most \<open>2 ^ 31\<close> milliseconds (24 days), since the source multiplies two durations, and the outbox
  theorems take calls of fewer than \<open>2 ^ 39\<close> envelopes. The outbox sequence is a \<open>uint64\<close> whose exhaustion
  is an error branch.

  \<^bold>\<open>Parameters.\<close> What is not under the repository's own source is an argument of the definitions that use
  it: the JSON codec (\<open>marshal\<close>, \<open>unmarshal\<close> and the decoded structs), SHA-1 and SHA-256, RFC 3339 parsing,
  the zstd decoder, WebAuthn, random bytes, the clock, the calendar (the local day, week and month of an instant, and
  time zones by name), the \<open>float64\<close> quotient behind one capacity sample and, in \<open>float_ops\<close>, the \<open>float64\<close> arithmetic of prices
  and cards (comparisons are modelled on the bits), lower-casing outside ASCII, the URL and address parsers, the
  embedded price catalog, the process table, the operating system's machine id and environment, the file system's
  answers and the failures of the database driver. A hypothesis about one of them (a codec that round trips, a hash that is injective on the
  strings at hand) is named in the theorem that uses it and discharged on a concrete instance by its
  witness.

  \<^bold>\<open>Not modelled.\<close> Opening and migrating the database; the \<open>float64\<close> rates and shares of the views, which are
  quotients of modelled integers; display text (labels, notes, the settings page's document); the reverse proxy's
  plumbing and the resident loops (goroutines and tickers), which call the modelled operations; the JSON
  handlers over the usage views and the drill-downs; git, ssh and Windows process probes, which drive
  other programs; rendering and installing the status line, and the command line.
\<close>

end
